(* ===== verification/Prelude.thy ===== *)
theory Prelude
  imports Main "HOL-Library.List_Lexorder" "HOL-Library.Char_ord"
begin

text \<open>
  The shared base of the development: the collections of facts the component theories
  add to, the JavaScript built-ins the sources use (truthiness of strings and options,
  \<open>parseInt\<close>, comparison with \<open>NaN\<close>), and lemmas on lists and strings.

  Strings are lists of characters, ordered lexicographically by character code. This is
  the order of the JavaScript relational operators on strings and of SQLite's BINARY
  collation, for strings of 8-bit characters.
\<close>

subsection \<open>Fact collections\<close>

named_theorems model_defs \<open>definitions that a component's proofs unfold\<close>
named_theorems preserves \<open>an operation keeps its component's invariant\<close>

subsection \<open>Lists\<close>

lemma find_filter: "List.find P xs = (case filter P xs of [] \<Rightarrow> None | x # _ \<Rightarrow> Some x)"
  by (induction xs) auto

lemma find_SomeD: "List.find P xs = Some x \<Longrightarrow> P x \<and> x \<in> set xs"
  by (induction xs) (auto split: if_splits)

lemma find_NoneD: "List.find P xs = None \<Longrightarrow> x \<in> set xs \<Longrightarrow> \<not> P x"
  by (simp add: find_None_iff)

lemma find_append: "List.find P (xs @ ys) = (case List.find P xs of None \<Rightarrow> List.find P ys | Some x \<Rightarrow> Some x)"
  by (induction xs) auto

lemma find_cong_set: "(\<And>x. x \<in> set xs \<Longrightarrow> P x = Q x) \<Longrightarrow> List.find P xs = List.find Q xs"
  by (induction xs) auto

lemma filter_length_0: "length (filter P xs) = 0 \<longleftrightarrow> (\<forall>x \<in> set xs. \<not> P x)"
  by (simp add: filter_empty_conv)

text \<open>\<open>xs.findIndex(P)\<close>, counting from \<open>n\<close>; \<open>None\<close> stands for -1.\<close>

fun find_index_from :: "nat \<Rightarrow> ('a \<Rightarrow> bool) \<Rightarrow> 'a list \<Rightarrow> nat option" where
  "find_index_from n P [] = None"
| "find_index_from n P (x # xs) = (if P x then Some n else find_index_from (n + 1) P xs)"

subsection \<open>Lexicographic order on strings\<close>

lemma list_less_append_same: "(xs @ us < xs @ vs) = (us < (vs :: 'a::order list))"
  by (induction xs) auto

lemma list_less_append:
  "length xs = length ys \<Longrightarrow> xs < ys \<Longrightarrow> xs @ us < ys @ (vs :: 'a::order list)"
proof (induction xs ys rule: list_induct2)
  case (Cons x xs y ys)
  then show ?case by (auto simp: less_le)
qed simp

subsection \<open>JavaScript built-ins\<close>

text \<open>A comparison with \<open>NaN\<close> (here \<open>None\<close>) is false.\<close>

definition num_less :: "int option \<Rightarrow> int option \<Rightarrow> bool" where
  "num_less a b = (case (a, b) of (Some x, Some y) \<Rightarrow> x < y | _ \<Rightarrow> False)"

definition num_eq :: "int option \<Rightarrow> int option \<Rightarrow> bool" where
  "num_eq a b = (case (a, b) of (Some x, Some y) \<Rightarrow> x = y | _ \<Rightarrow> False)"

text \<open>
  An optional string used as a condition: \<open>undefined\<close>, \<open>null\<close> and the empty string are
  false.
\<close>

definition truthy :: "string option \<Rightarrow> bool" where
  "truthy s = (case s of None \<Rightarrow> False | Some x \<Rightarrow> x \<noteq> [])"

definition is_digit :: "char \<Rightarrow> bool" where
  "is_digit c = (48 \<le> (of_char c :: nat) \<and> (of_char c :: nat) \<le> 57)"

definition digit_val :: "char \<Rightarrow> nat" where
  "digit_val c = (of_char c :: nat) - 48"

definition is_space :: "char \<Rightarrow> bool" where
  "is_space c = ((of_char c :: nat) \<in> {9, 10, 11, 12, 13, 32, 160})"

fun dec_val :: "nat \<Rightarrow> string \<Rightarrow> nat" where
  "dec_val acc [] = acc"
| "dec_val acc (c # cs) = dec_val (10 * acc + digit_val c) cs"

text \<open>
  \<open>parseInt(s, 10)\<close>: leading white space, an optional sign, the longest run of digits;
  \<open>None\<close> stands for \<open>NaN\<close>.
\<close>

definition parseInt :: "string \<Rightarrow> int option" where
  "parseInt s =
     (let s1 = dropWhile is_space s;
          neg = (case s1 of c # _ \<Rightarrow> c = CHR ''-'' | [] \<Rightarrow> False);
          s2 = (case s1 of c # cs \<Rightarrow> if c = CHR ''-'' \<or> c = CHR ''+'' then cs else s1 | [] \<Rightarrow> []);
          ds = takeWhile is_digit s2
      in if ds = [] then None
         else Some (if neg then - int (dec_val 0 ds) else int (dec_val 0 ds)))"

text \<open>
  \<open>updatedAt && updatedAt > old\<close> for an optional text: absent and empty are false.
\<close>

definition newer :: "string option \<Rightarrow> string \<Rightarrow> bool" where
  "newer u old = (case u of None \<Rightarrow> False | Some x \<Rightarrow> x \<noteq> [] \<and> old < x)"

lemma newer_None [simp]: "newer None old = False"
  by (simp add: newer_def)

text \<open>\<open>u ?? d\<close> for an optional value.\<close>

definition orElse :: "'a option \<Rightarrow> 'a \<Rightarrow> 'a" where
  "orElse u d = (case u of None \<Rightarrow> d | Some x \<Rightarrow> x)"

lemma orElse_simps [simp]: "orElse None d = d" "orElse (Some x) d = x"
  by (simp_all add: orElse_def)

text \<open>\<open>toLowerCase\<close>, for ASCII letters.\<close>

definition ascii_lower :: "char \<Rightarrow> char" where
  "ascii_lower c = (let n = of_char c :: nat in if 65 \<le> n \<and> n \<le> 90 then char_of (n + 32) else c)"

end
