(* ===== verification/IsoTime.thy ===== *)
theory IsoTime
  imports Prelude
begin

text \<open>
  The timestamps of the sqlite stores. A point in time is a number of milliseconds since
  the epoch; the stores keep it as the text that \<open>Date.prototype.toISOString\<close> gives,
  compare it as text in SQL and JavaScript, and read it back with
  \<open>new Date(text).getTime()\<close>. This theory defines both directions over the proleptic
  Gregorian calendar and proves that they are inverse and that, up to the year 9999, the
  order of the texts is the order of the times.
\<close>

subsection \<open>The calendar\<close>

definition is_leap :: "nat \<Rightarrow> bool" where
  "is_leap y \<longleftrightarrow> (y mod 4 = 0 \<and> y mod 100 \<noteq> 0) \<or> y mod 400 = 0"

definition year_len :: "nat \<Rightarrow> nat" where
  "year_len y = (if is_leap y then 366 else 365)"

definition month_lens :: "nat \<Rightarrow> nat list" where
  "month_lens y = [31, if is_leap y then 29 else 28, 31, 30, 31, 30, 31, 31, 30, 31, 30, 31]"

lemma year_len_pos: "0 < year_len y"
  by (simp add: year_len_def)

function year_of_day :: "nat \<Rightarrow> nat \<Rightarrow> nat \<times> nat" where
  "year_of_day y d = (if d < year_len y then (y, d) else year_of_day (Suc y) (d - year_len y))"
  by pat_completeness auto
termination
  by (relation "measure snd") (auto simp: year_len_def)

declare year_of_day.simps [simp del]

fun month_of_day :: "nat list \<Rightarrow> nat \<Rightarrow> nat \<Rightarrow> nat \<times> nat" where
  "month_of_day [] m d = (m, d)"
| "month_of_day (l # ls) m d = (if d < l then (m, d) else month_of_day ls (Suc m) (d - l))"

text \<open>A year after its first day-number is never left backwards, and days keep their order.\<close>

lemma year_of_day_ge: "y \<le> fst (year_of_day y d)"
proof (induction y d rule: year_of_day.induct)
  case (1 y d)
  then show ?case by (subst year_of_day.simps) auto
qed

lemma year_of_day_mono:
  "d < d' \<Longrightarrow> year_of_day y d = (a, b) \<Longrightarrow> year_of_day y d' = (a', b') \<Longrightarrow>
   a < a' \<or> a = a' \<and> b < b'"
proof (induction y d arbitrary: d' rule: year_of_day.induct)
  case (1 y d)
  show ?case
  proof (cases "d < year_len y")
    case True
    then have ab: "a = y" "b = d"
      using "1.prems"(2) by (simp_all add: year_of_day.simps [of y d])
    show ?thesis
    proof (cases "d' < year_len y")
      case True
      then show ?thesis using "1.prems" ab by (simp add: year_of_day.simps [of y d'])
    next
      case False
      then have "year_of_day (Suc y) (d' - year_len y) = (a', b')"
        using "1.prems"(3) by (simp add: year_of_day.simps [of y d'])
      then show ?thesis using year_of_day_ge [of "Suc y" "d' - year_len y"] ab by simp
    qed
  next
    case False
    then show ?thesis
      using "1.prems" "1.IH" [of "d' - year_len y"]
      by (simp add: year_of_day.simps [of y d] year_of_day.simps [of y d'])
  qed
qed

lemma month_of_day_ge: "m \<le> fst (month_of_day ls m d)"
proof (induction ls m d rule: month_of_day.induct)
  case (2 l ls m d)
  then show ?case by (cases "d < l") auto
qed simp

lemma month_of_day_mono:
  "d < d' \<Longrightarrow> month_of_day ls m d = (a, b) \<Longrightarrow> month_of_day ls m d' = (a', b') \<Longrightarrow>
   a < a' \<or> a = a' \<and> b < b'"
proof (induction ls m d arbitrary: d' rule: month_of_day.induct)
  case (2 l ls m d)
  show ?case
  proof (cases "d < l")
    case True
    show ?thesis
    proof (cases "d' < l")
      case True
      then show ?thesis using 2 \<open>d < l\<close> by auto
    next
      case False
      then show ?thesis
        using "2.prems" True month_of_day_ge [of "Suc m" ls "d' - l"] by auto
    qed
  next
    case False
    then show ?thesis using "2.prems" "2.IH" [of "d' - l"] by auto
  qed
qed auto

subsection \<open>Bounds of the fields\<close>

lemma year_of_day_rest: "snd (year_of_day y d) < year_len (fst (year_of_day y d))"
proof (induction y d rule: year_of_day.induct)
  case (1 y d)
  then show ?case by (cases "d < year_len y") (simp_all add: year_of_day.simps [of y d])
qed

lemma month_of_day_bounds:
  "d < sum_list ls \<Longrightarrow> \<forall>l \<in> set ls. l \<le> 31 \<Longrightarrow>
   fst (month_of_day ls m d) < m + length ls \<and> snd (month_of_day ls m d) < 31"
proof (induction ls m d rule: month_of_day.induct)
  case (2 l ls m d)
  then show ?case by (cases "d < l") auto
qed simp

lemma month_lens_sum: "sum_list (month_lens y) = year_len y"
  by (simp add: month_lens_def year_len_def)

lemma month_lens_31: "\<forall>l \<in> set (month_lens y). l \<le> 31"
  by (simp add: month_lens_def)

lemma month_lens_length: "length (month_lens y) = 12"
  by (simp add: month_lens_def)

subsection \<open>Decimal fields of a fixed width\<close>

definition digit_char :: "nat \<Rightarrow> char" where
  "digit_char n = char_of (48 + n mod 10)"

fun pad :: "nat \<Rightarrow> nat \<Rightarrow> string" where
  "pad 0 n = []"
| "pad (Suc k) n = pad k (n div 10) @ [digit_char n]"

lemma length_pad [simp]: "length (pad k n) = k"
  by (induction k arbitrary: n) auto

text \<open>The decimal text of a number.\<close>

fun dec_text :: "nat \<Rightarrow> string" where
  "dec_text n = (if n < 10 then [digit_char n] else dec_text (n div 10) @ [digit_char (n mod 10)])"

declare dec_text.simps [simp del]

lemma of_char_digit_char: "(of_char (digit_char n) :: nat) = 48 + n mod 10"
  by (simp add: digit_char_def of_char_of)

lemma digit_val_digit_char: "digit_val (digit_char n) = n mod 10"
  by (simp add: digit_val_def of_char_digit_char)

lemma digit_char_less: "n mod 10 < m mod 10 \<Longrightarrow> digit_char n < digit_char m"
  by (simp add: less_char_def of_char_digit_char)

lemma dec_val_append: "dec_val a (xs @ ys) = dec_val (dec_val a xs) ys"
  by (induction xs arbitrary: a) auto

lemma dec_val_pad: "n < 10 ^ k \<Longrightarrow> dec_val 0 (pad k n) = n"
  by (induction k arbitrary: n) (auto simp: dec_val_append digit_val_digit_char)

lemma pad_less: "n < m \<Longrightarrow> m < 10 ^ k \<Longrightarrow> pad k n < pad k m"
proof (induction k arbitrary: n m)
  case (Suc k)
  show ?case
  proof (cases "n div 10 = m div 10")
    case True
    with Suc.prems have "n mod 10 < m mod 10"
      by (metis div_mult_mod_eq nat_add_left_cancel_less)
    then show ?thesis using True by (simp add: list_less_append_same digit_char_less)
  next
    case False
    with Suc.prems have "n div 10 < m div 10" by (simp add: div_le_mono le_neq_implies_less)
    moreover have "m div 10 < 10 ^ k" using Suc.prems by simp
    ultimately have "pad k (n div 10) < pad k (m div 10)" by (rule Suc.IH)
    then show ?thesis by (simp add: list_less_append)
  qed
qed simp

text \<open>A field and what follows it: the pair is compared like the pair of numbers.\<close>

lemma pad_then_less:
  assumes "a < a' \<or> a = a' \<and> r < r'" and "a' < 10 ^ k"
  shows "pad k a @ r < pad k a' @ r'"
  using assms by (auto simp: list_less_append_same intro: list_less_append pad_less)

subsection \<open>toISOString and getTime\<close>

definition ms_per_day :: nat where
  "ms_per_day = 86400000"

definition time_text :: "nat \<Rightarrow> string" where
  "time_text r = pad 2 (r div 3600000) @ '':'' @ pad 2 (r div 60000 mod 60) @ '':'' @
     pad 2 (r div 1000 mod 60) @ ''.'' @ pad 3 (r mod 1000) @ ''Z''"

definition date_text :: "nat \<Rightarrow> string" where
  "date_text day =
     (case year_of_day 1970 day of (y, doy) \<Rightarrow>
      case month_of_day (month_lens y) 1 doy of (m, d) \<Rightarrow>
        (if y \<le> 9999 then pad 4 y else ''+'' @ pad 6 y) @ ''-'' @ pad 2 m @ ''-'' @ pad 2 (Suc d))"

definition toISOString :: "nat \<Rightarrow> string" where
  "toISOString t = date_text (t div 86400000) @ ''T'' @ time_text (t mod 86400000)"

text \<open>
  \<open>getTime\<close> reads the fields at their positions and accepts the text only when it is the
  one \<open>toISOString\<close> writes for the time found; any other text reads as \<open>NaN\<close> (\<open>None\<close>).
\<close>

definition read_time :: "string \<Rightarrow> nat" where
  "read_time s =
     (let num = (\<lambda>i n. dec_val 0 (take n (drop i s)));
          w = (case s of c # _ \<Rightarrow> if c = CHR ''+'' then 3 else 0 | [] \<Rightarrow> 0);
          y = (if w = 3 then num 1 6 else num 0 4);
          m = num (w + 5) 2; d = num (w + 8) 2;
          day = sum_list (map year_len [1970..<y]) + sum_list (take (m - 1) (month_lens y)) + (d - 1)
      in day * 86400000 + num (w + 11) 2 * 3600000 + num (w + 14) 2 * 60000 +
         num (w + 17) 2 * 1000 + num (w + 20) 3)"

definition getTime :: "string \<Rightarrow> int option" where
  "getTime s = (let t = read_time s in if toISOString t = s then Some (int t) else None)"

definition iso_max :: nat where
  "iso_max = 253402300800000"

lemma year_of_day_sum:
  "year_of_day y d = (a, b) \<Longrightarrow> d = sum_list (map year_len [y..<a]) + b"
proof (induction y d rule: year_of_day.induct)
  case (1 y d)
  show ?case
  proof (cases "d < year_len y")
    case True
    then show ?thesis using "1.prems" by (simp add: year_of_day.simps [of y d])
  next
    case False
    then have eq: "year_of_day (Suc y) (d - year_len y) = (a, b)"
      using "1.prems" by (simp add: year_of_day.simps [of y d])
    then have "y < a" using year_of_day_ge [of "Suc y" "d - year_len y"] by simp
    then show ?thesis using "1.IH" [OF False eq] False by (simp add: upt_conv_Cons)
  qed
qed

lemma month_of_day_sum:
  "month_of_day ls m d = (a, b) \<Longrightarrow> d = sum_list (take (a - m) ls) + b"
proof (induction ls m d rule: month_of_day.induct)
  case (2 l ls m d)
  show ?case
  proof (cases "d < l")
    case False
    then have "Suc m \<le> a" using "2.prems" month_of_day_ge [of "Suc m" ls "d - l"] by simp
    then have "a - m = Suc (a - Suc m)" by simp
    then show ?thesis using False 2 by simp
  qed (use 2 in auto)
qed simp

lemma year_of_day_lt:
  assumes "d < sum_list (map year_len [y..<z])"
  shows "fst (year_of_day y d) < z"
proof (rule ccontr)
  obtain a b where ab: "year_of_day y d = (a, b)" by force
  assume "\<not> ?thesis"
  then have "z \<le> a" using ab by simp
  then have "[y..<a] = [y..<min z a] @ [max y z..<a]" if "y \<le> z"
    using that upt_add_eq_append [of y z "a - z"] by (simp add: max_def)
  then have "sum_list (map year_len [y..<z]) \<le> sum_list (map year_len [y..<a])"
    using \<open>z \<le> a\<close> by (cases "y \<le> z") (simp_all add: min_absorb1)
  with year_of_day_sum [OF ab] assms show False by simp
qed

subsection \<open>Text order is time order\<close>

lemma ceil_div_Suc:
  assumes "0 < (k :: nat)"
  shows "(n + k) div k = (n + (k - 1)) div k + (if n mod k = 0 then 1 else 0)"
  using assms div_Suc [of "n + (k - 1)" k] by simp

text \<open>The days before year \<open>n\<close>, in closed form.\<close>

definition days_before :: "nat \<Rightarrow> nat" where
  "days_before n = sum_list (map year_len [0..<n])"

lemma days_before_Suc: "days_before (Suc n) = days_before n + year_len n"
  by (simp add: days_before_def)

lemma days_before_add: "days_before (m + k) = days_before m + sum_list (map year_len [m..<m + k])"
  using upt_add_eq_append [of 0 m k] by (simp add: days_before_def)

lemma days_closed:
  "days_before n + (n + 99) div 100 = 365 * n + (n + 3) div 4 + (n + 399) div 400"
proof (induction n)
  case (Suc n)
  define q where "q k = (n + (k - 1)) div k" for k
  have q: "(Suc n + (k - 1)) div k = q k + (if n mod k = 0 then 1 else 0)" if "0 < k" for k
    using that ceil_div_Suc [OF that, of n] by (simp add: q_def)
  have d: "n mod 400 = 0 \<Longrightarrow> n mod 100 = 0" "n mod 100 = 0 \<Longrightarrow> n mod 4 = 0"
    using mod_mod_cancel [of 100 400 n] mod_mod_cancel [of 4 100 n] by auto
  have "days_before n + q 100 = 365 * n + q 4 + q 400"
    using Suc by (simp add: q_def)
  moreover have "year_len n + (if n mod 100 = 0 then 1 else 0) =
      365 + (if n mod 4 = 0 then 1 else 0) + (if n mod 400 = 0 then 1 else 0)"
    using d by (auto simp: year_len_def is_leap_def)
  ultimately show ?case
    using q [of 4] q [of 100] q [of 400] by (simp add: days_before_Suc)
qed (simp add: days_before_def)

lemma days_range: "n = m + k \<Longrightarrow> days_before n = days_before m + sum_list (map year_len [m..<n])"
  by (simp only: days_before_add)

lemma days_to_10000: "sum_list (map year_len [1970..<10000]) = 2932897"
proof -
  have "days_before 10000 = 3652425" "days_before 1970 = 719528"
    using days_closed [of 10000] days_closed [of 1970] by simp_all
  moreover have "days_before 10000 = days_before 1970 + sum_list (map year_len [1970..<10000])"
    by (rule days_range [of _ _ 8030]) (simp only: numeral_plus_numeral add_num_simps)
  ultimately show ?thesis by linarith
qed

lemma year_below_10000: "t < iso_max \<Longrightarrow> fst (year_of_day 1970 (t div 86400000)) < 10000"
  by (rule year_of_day_lt, subst days_to_10000) (simp add: iso_max_def less_mult_imp_div_less)

lemma month_day_bounds:
  assumes "year_of_day 1970 n = (y, doy)" and "month_of_day (month_lens y) 1 doy = (m, d)"
  shows "m < 13 \<and> d < 31 \<and> 1 \<le> m \<and> doy < sum_list (month_lens y)"
proof -
  have "doy < sum_list (month_lens y)"
    using year_of_day_rest [of 1970 n] assms(1) by (simp add: month_lens_sum)
  then show ?thesis
    using month_of_day_bounds [of doy "month_lens y" 1] month_lens_31 [of y] assms(2)
      month_of_day_ge [of 1 "month_lens y" doy]
    by (simp add: month_lens_length)
qed

lemma date_text_less:
  assumes "n < n'" and "fst (year_of_day 1970 n') < 10000"
  shows "date_text n < date_text n'"
proof -
  obtain y doy m d where n: "year_of_day 1970 n = (y, doy)" "month_of_day (month_lens y) 1 doy = (m, d)"
    by (metis surj_pair)
  obtain y' doy' m' d' where n': "year_of_day 1970 n' = (y', doy')"
      "month_of_day (month_lens y') 1 doy' = (m', d')"
    by (metis surj_pair)
  have yy: "y < y' \<or> y = y' \<and> doy < doy'" by (rule year_of_day_mono [OF assms(1) n(1) n'(1)])
  have y': "y' < 10 ^ 4" using assms(2) n'(1) by simp
  have b: "m' < 10 ^ 2" "Suc d' < 10 ^ 2" using month_day_bounds [OF n'] by simp_all
  have md: "m < m' \<or> m = m' \<and> Suc d < Suc d'" if "y = y'" "doy < doy'"
    using month_of_day_mono [OF that(2) n(2)] n'(2) that(1) by auto
  have "pad 2 m @ ''-'' @ pad 2 (Suc d) < pad 2 m' @ ''-'' @ pad 2 (Suc d')" if "y = y'" "doy < doy'"
    by (rule pad_then_less [OF _ b(1)]) (use md [OF that] in \<open>auto intro: pad_less [OF _ b(2)]\<close>)
  then have "pad 4 y @ ''-'' @ pad 2 m @ ''-'' @ pad 2 (Suc d) <
      pad 4 y' @ ''-'' @ pad 2 m' @ ''-'' @ pad 2 (Suc d')"
    by (intro pad_then_less [OF _ y']) (use yy in auto)
  then show ?thesis using n n' yy y' by (auto simp: date_text_def)
qed

lemma time_text_less:
  assumes "r < r'" and "r' < 86400000"
  shows "time_text r < time_text r'"
proof -
  have split: "a div k < b div k \<or> a div k = b div k \<and> a mod k < b mod k" if "a < b" for a b k :: nat
    using that by (metis div_le_mono div_mult_mod_eq le_neq_implies_less nat_add_left_cancel_less less_imp_le)
  define h mi s ms where "h x = x div 3600000" and "mi x = x div 60000 mod 60"
    and "s x = x div 1000 mod 60" and "ms x = x mod 1000" for x :: nat
  have parts: "h r < h r' \<or> h r = h r' \<and> (mi r < mi r' \<or> mi r = mi r' \<and>
      (s r < s r' \<or> s r = s r' \<and> ms r < ms r'))"
  proof -
    have q: "x div 60000 = (x div 1000) div 60" "x div 3600000 = (x div 60000) div 60" for x :: nat
      by (simp_all flip: div_mult2_eq)
    show ?thesis
      using split [OF assms(1), of 1000] split [of "r div 1000" "r' div 1000" 60]
        split [of "r div 60000" "r' div 60000" 60]
      unfolding h_def mi_def s_def ms_def q by metis
  qed
  have bounds: "h r' < 10 ^ 2" "mi r' < 10 ^ 2" "s r' < 10 ^ 2" "ms r' < 10 ^ 3"
    using assms(2) by (simp_all add: h_def mi_def s_def ms_def less_mult_imp_div_less
        order_less_trans [OF mod_less_divisor])
  have eq: "time_text x = pad 2 (h x) @ '':'' @ pad 2 (mi x) @ '':'' @ pad 2 (s x) @ ''.'' @
      pad 3 (ms x) @ ''Z''" for x
    by (simp add: time_text_def h_def mi_def s_def ms_def)
  have l3: "pad 3 (ms r) @ ''Z'' < pad 3 (ms r') @ ''Z''" if "ms r < ms r'"
    using pad_then_less [OF disjI1 [OF that] bounds(4)] .
  have l2: "pad 2 (s r) @ ''.'' @ pad 3 (ms r) @ ''Z'' < pad 2 (s r') @ ''.'' @ pad 3 (ms r') @ ''Z''"
    if "s r < s r' \<or> s r = s r' \<and> ms r < ms r'"
    by (rule pad_then_less [OF _ bounds(3)]) (use that l3 in auto)
  have l1: "pad 2 (mi r) @ '':'' @ pad 2 (s r) @ ''.'' @ pad 3 (ms r) @ ''Z'' <
      pad 2 (mi r') @ '':'' @ pad 2 (s r') @ ''.'' @ pad 3 (ms r') @ ''Z''"
    if "mi r < mi r' \<or> mi r = mi r' \<and> (s r < s r' \<or> s r = s r' \<and> ms r < ms r')"
    by (rule pad_then_less [OF _ bounds(2)]) (use that l2 in auto)
  show ?thesis unfolding eq
    by (rule pad_then_less [OF _ bounds(1)]) (use parts l1 in auto)
qed

lemma length_date_text:
  "fst (year_of_day 1970 n) < 10000 \<Longrightarrow> length (date_text n) = 10"
  by (auto simp: date_text_def split: prod.splits)

lemma iso_strict_mono:
  assumes "a < b" and "b < iso_max"
  shows "toISOString a < toISOString b"
proof (cases "a div 86400000 = b div 86400000")
  case True
  then have "a mod 86400000 < b mod 86400000"
    using assms(1) by (metis div_mult_mod_eq nat_add_left_cancel_less)
  then show ?thesis
    using True by (simp add: toISOString_def list_less_append_same time_text_less)
next
  case False
  then have lt: "a div 86400000 < b div 86400000"
    using assms(1) by (simp add: div_le_mono le_neq_implies_less)
  have y: "fst (year_of_day 1970 (a div 86400000)) < 10000"
      "fst (year_of_day 1970 (b div 86400000)) < 10000"
    using assms by (auto intro: year_below_10000)
  show ?thesis
    unfolding toISOString_def
    by (rule list_less_append) (simp_all add: length_date_text y date_text_less [OF lt])
qed

lemma iso_less_iff: "a < iso_max \<Longrightarrow> b < iso_max \<Longrightarrow> toISOString a < toISOString b \<longleftrightarrow> a < b"
  by (metis iso_strict_mono less_asym linorder_neqE_nat order_less_irrefl)

lemma iso_le_iff: "a < iso_max \<Longrightarrow> b < iso_max \<Longrightarrow> toISOString a \<le> toISOString b \<longleftrightarrow> a \<le> b"
  by (metis iso_less_iff linorder_not_le)

subsection \<open>Reading back what was written\<close>

lemma pad_head: "0 < k \<Longrightarrow> \<exists>n'. hd (pad k n) = digit_char n'"
proof (induction k arbitrary: n)
  case (Suc k)
  then show ?case by (cases "k = 0") (auto simp: hd_append simp flip: length_0_conv)
qed simp

lemma digit_char_not_plus: "digit_char n \<noteq> CHR ''+''"
proof
  assume "digit_char n = CHR ''+''"
  then have "(of_char (digit_char n) :: nat) = of_char (CHR ''+'')" by simp
  then show False by (simp add: of_char_digit_char)
qed

lemma read_time_fields:
  assumes "y < 10 ^ 4" "m < 10 ^ 2" "Suc d < 10 ^ 2" "h < 10 ^ 2" "mi < 10 ^ 2" "sc < 10 ^ 2" "ms < 10 ^ 3"
  shows "read_time (pad 4 y @ ''-'' @ pad 2 m @ ''-'' @ pad 2 (Suc d) @ ''T'' @ pad 2 h @ '':'' @
      pad 2 mi @ '':'' @ pad 2 sc @ ''.'' @ pad 3 ms @ ''Z'') =
    (sum_list (map year_len [1970..<y]) + sum_list (take (m - 1) (month_lens y)) + d) * 86400000 +
      h * 3600000 + mi * 60000 + sc * 1000 + ms"
proof -
  obtain n' r where "pad 4 y = digit_char n' # r"
    using pad_head [of 4 y] by (cases "pad 4 y") (auto simp flip: length_0_conv)
  then have w: "(case pad 4 y @ zs of c # _ \<Rightarrow> if c = CHR ''+'' then 3 else 0 | [] \<Rightarrow> 0) = (0 :: nat)" for zs
    by (simp add: digit_char_not_plus)
  show ?thesis
    unfolding read_time_def Let_def w using assms by (simp add: dec_val_pad)
qed

lemma clock_split:
  "r div 3600000 * 3600000 + r div 60000 mod 60 * 60000 + r div 1000 mod 60 * 1000 + r mod 1000 = (r :: nat)"
proof -
  have "r div 1000 = r div 60000 * 60 + r div 1000 mod 60"
      "r div 60000 = r div 3600000 * 60 + r div 60000 mod 60"
    using div_mult_mod_eq [of "r div 1000" 60] div_mult_mod_eq [of "r div 60000" 60]
    by (simp_all flip: div_mult2_eq)
  moreover have "r = r div 1000 * 1000 + r mod 1000" by simp
  ultimately show ?thesis by linarith
qed

lemma read_time_iso:
  assumes "t < iso_max"
  shows "read_time (toISOString t) = t"
proof -
  obtain y doy m d where n: "year_of_day 1970 (t div 86400000) = (y, doy)"
      "month_of_day (month_lens y) 1 doy = (m, d)"
    by (metis surj_pair)
  have y: "y < 10 ^ 4" using year_below_10000 [OF assms] n(1) by simp
  note b = month_day_bounds [OF n]
  have day: "t div 86400000 = sum_list (map year_len [1970..<y]) + doy"
    by (rule year_of_day_sum [OF n(1)])
  have doy: "doy = sum_list (take (m - 1) (month_lens y)) + d"
    by (rule month_of_day_sum [OF n(2)])
  let ?r = "t mod 86400000"
  have toISOString: "toISOString t = pad 4 y @ ''-'' @ pad 2 m @ ''-'' @ pad 2 (Suc d) @ ''T'' @
      pad 2 (?r div 3600000) @ '':'' @ pad 2 (?r div 60000 mod 60) @ '':'' @
      pad 2 (?r div 1000 mod 60) @ ''.'' @ pad 3 (?r mod 1000) @ ''Z''"
    using n y by (simp add: toISOString_def date_text_def time_text_def)
  have "read_time (toISOString t) = (t div 86400000) * 86400000 +
      (?r div 3600000 * 3600000 + ?r div 60000 mod 60 * 60000 + ?r div 1000 mod 60 * 1000 + ?r mod 1000)"
    unfolding toISOString using b y
    by (subst read_time_fields)
       (simp_all add: day doy less_mult_imp_div_less order_less_trans [OF mod_less_divisor])
  also have "?r div 3600000 * 3600000 + ?r div 60000 mod 60 * 60000 + ?r div 1000 mod 60 * 1000 + ?r mod 1000 = ?r"
    by (rule clock_split)
  finally show ?thesis by simp
qed

lemma getTime_iso [simp]: "t < iso_max \<Longrightarrow> getTime (toISOString t) = Some (int t)"
  by (simp add: getTime_def read_time_iso)

lemma getTime_SomeD: "getTime s = Some t \<Longrightarrow> s = toISOString (nat t) \<and> 0 \<le> t"
  by (auto simp: getTime_def Let_def split: if_splits)

lemma iso_inject: "a < iso_max \<Longrightarrow> b < iso_max \<Longrightarrow> toISOString a = toISOString b \<longleftrightarrow> a = b"
  by (metis iso_less_iff less_irrefl linorder_neqE_nat)

text \<open>A text that some \<open>toISOString\<close> of a time up to the year 9999 wrote.\<close>

definition stamped :: "string \<Rightarrow> bool" where
  "stamped s = (\<exists>t < iso_max. s = toISOString t)"

definition stamp :: "string \<Rightarrow> nat" where
  "stamp s = (case getTime s of Some t \<Rightarrow> nat t | None \<Rightarrow> 0)"

lemma stamped_iso [simp, intro]: "t < iso_max \<Longrightarrow> stamped (toISOString t)"
  by (auto simp: stamped_def)

lemma stamp_iso [simp]: "t < iso_max \<Longrightarrow> stamp (toISOString t) = t"
  by (simp add: stamp_def)

lemma stamped_iso_stamp: "stamped s \<Longrightarrow> s = toISOString (stamp s) \<and> stamp s < iso_max"
  by (auto simp: stamped_def)

lemma stamped_less [simp]: "stamped s \<Longrightarrow> t < iso_max \<Longrightarrow> toISOString t < s \<longleftrightarrow> t < stamp s"
  by (auto simp: stamped_def iso_less_iff)

lemma stamped_le [simp]: "stamped s \<Longrightarrow> t < iso_max \<Longrightarrow> s \<le> toISOString t \<longleftrightarrow> stamp s \<le> t"
  by (auto simp: stamped_def iso_le_iff)

lemma stamped_greater [simp]: "stamped s \<Longrightarrow> t < iso_max \<Longrightarrow> s < toISOString t \<longleftrightarrow> stamp s < t"
  by (auto simp: stamped_def iso_less_iff)

lemma stamped_getTime: "stamped s \<Longrightarrow> getTime s = Some (int (stamp s))"
  by (auto simp: stamped_def)

lemma stamped_texts [simp]:
  assumes "stamped a" "stamped b"
  shows "num_less (getTime a) (getTime b) \<longleftrightarrow> a < b" "num_eq (getTime a) (getTime b) \<longleftrightarrow> a = b"
  using assms by (auto simp: stamped_def num_less_def num_eq_def iso_less_iff iso_inject)

lemma stamped_nonempty [simp]: "stamped s \<Longrightarrow> s \<noteq> []"
  by (auto simp: stamped_def toISOString_def)

lemma stamped_num_less [simp]: "stamped s \<Longrightarrow> num_less (Some (int t)) (getTime s) \<longleftrightarrow> t < stamp s"
  by (simp add: stamped_getTime num_less_def)

text \<open>
  Up to the end of the year 9999 the timestamps written by \<open>toISOString\<close> are ordered
  as text exactly as the times they stand for, and \<open>getTime\<close> reads each back: the stores
  may compare them in SQL and in JavaScript interchangeably.
\<close>

theorem iso_text_order_is_time_order:
  assumes "a < iso_max" and "b < iso_max"
  shows "(toISOString a < toISOString b) = (a < b) \<and> (toISOString a = toISOString b) = (a = b) \<and> getTime (toISOString a) = Some (int a)"
  using assms by (simp add: iso_less_iff iso_inject)

theorem iso_text_order_is_time_order_witness:
  "(1784800800000 :: nat) < iso_max \<and> toISOString 1784800800000 < toISOString 1784800800001 \<and>
   getTime (toISOString 1784800800000) = Some 1784800800000"
  using iso_text_order_is_time_order [of 1784800800000 1784800800001] by (simp add: iso_max_def)

end
