(* ===== verification/SqlTable.thy ===== *)
theory SqlTable
  imports IsoTime
begin

text \<open>
  The part of better-sqlite3 the stores use. A table is the list of its rows in insertion
  order; a primary or unique key is a function of the row. \<open>SELECT ... LIMIT 1\<close> by a
  key, \<open>DELETE\<close>, \<open>UPDATE\<close> with their \<open>changes\<close>, \<open>INSERT\<close> (which throws on a key
  conflict, here \<open>None\<close>), \<open>INSERT OR REPLACE\<close> and \<open>MAX\<close> are functions on such
  lists, with the lemmas that the stores share: what a lookup finds after each statement,
  and that each keeps the key constraint.
\<close>

datatype sql_error = UniqueViolation

definition sel_one :: "('row \<Rightarrow> bool) \<Rightarrow> 'row list \<Rightarrow> 'row option" where
  "sel_one P rows = List.find P rows"

definition sel_all :: "('row \<Rightarrow> bool) \<Rightarrow> 'row list \<Rightarrow> 'row list" where
  "sel_all P rows = filter P rows"

definition del_where :: "('row \<Rightarrow> bool) \<Rightarrow> 'row list \<Rightarrow> 'row list" where
  "del_where P rows = filter (\<lambda>r. \<not> P r) rows"

definition upd_where :: "('row \<Rightarrow> bool) \<Rightarrow> ('row \<Rightarrow> 'row) \<Rightarrow> 'row list \<Rightarrow> 'row list" where
  "upd_where P f rows = map (\<lambda>r. if P r then f r else r) rows"

definition changes :: "('row \<Rightarrow> bool) \<Rightarrow> 'row list \<Rightarrow> nat" where
  "changes P rows = length (filter P rows)"

definition sql_insert :: "('row \<Rightarrow> 'key) \<Rightarrow> 'row \<Rightarrow> 'row list \<Rightarrow> 'row list option" where
  "sql_insert key r rows = (if key r \<in> key ` set rows then None else Some (rows @ [r]))"

definition sql_replace :: "('row \<Rightarrow> 'key) \<Rightarrow> 'row \<Rightarrow> 'row list \<Rightarrow> 'row list" where
  "sql_replace key r rows = filter (\<lambda>x. key x \<noteq> key r) rows @ [r]"

definition sql_max :: "string list \<Rightarrow> string option" where
  "sql_max xs = (if xs = [] then None else Some (Max (set xs)))"

definition key_ok :: "('row \<Rightarrow> 'key) \<Rightarrow> 'row list \<Rightarrow> bool" where
  "key_ok key rows = distinct (map key rows)"

lemmas sql_defs = sel_one_def sel_all_def del_where_def upd_where_def changes_def
  sql_insert_def sql_replace_def

subsection \<open>The key constraint is kept\<close>

lemma key_ok_Nil [simp]: "key_ok key []"
  by (simp add: key_ok_def)

lemma key_ok_del [simp]: "key_ok key rows \<Longrightarrow> key_ok key (del_where P rows)"
  by (simp add: key_ok_def del_where_def distinct_map_filter)

lemma key_ok_upd:
  "key_ok key rows \<Longrightarrow> (\<And>r. r \<in> set rows \<Longrightarrow> P r \<Longrightarrow> key (f r) = key r) \<Longrightarrow>
   key_ok key (upd_where P f rows)"
proof -
  assume "\<And>r. r \<in> set rows \<Longrightarrow> P r \<Longrightarrow> key (f r) = key r"
  then have "map key (upd_where P f rows) = map key rows" by (auto simp: upd_where_def)
  then show "key_ok key rows \<Longrightarrow> ?thesis" by (simp add: key_ok_def)
qed

lemma key_ok_insert: "key_ok key rows \<Longrightarrow> sql_insert key r rows = Some rows' \<Longrightarrow> key_ok key rows'"
  by (auto simp: sql_insert_def key_ok_def split: if_splits)

lemma key_ok_replace [simp]: "key_ok key rows \<Longrightarrow> key_ok key (sql_replace key r rows)"
  by (auto simp: sql_replace_def key_ok_def distinct_map_filter)

lemma key_okD: "key_ok key rows \<Longrightarrow> r \<in> set rows \<Longrightarrow> r' \<in> set rows \<Longrightarrow> key r = key r' \<Longrightarrow> r = r'"
  by (auto simp: key_ok_def distinct_map dest: inj_onD)

subsection \<open>Lookups after statements\<close>

lemma sel_one_Nil [simp]: "sel_one P [] = None"
  by (simp add: sel_one_def)

lemma sel_one_SomeD: "sel_one P rows = Some r \<Longrightarrow> P r \<and> r \<in> set rows"
  by (simp add: sel_one_def find_SomeD)

lemma sel_one_None: "sel_one P rows = None \<longleftrightarrow> (\<forall>r \<in> set rows. \<not> P r)"
  by (auto simp: sel_one_def find_None_iff)

lemma sel_one_key:
  "key_ok key rows \<Longrightarrow> r \<in> set rows \<Longrightarrow> sel_one (\<lambda>x. key x = key r) rows = Some r"
  by (cases "sel_one (\<lambda>x. key x = key r) rows")
     (auto simp: sel_one_None dest!: sel_one_SomeD dest: key_okD)

lemma sel_one_key_iff:
  "key_ok key rows \<Longrightarrow> sel_one (\<lambda>x. key x = k) rows = Some r \<longleftrightarrow> r \<in> set rows \<and> key r = k"
  by (auto dest: sel_one_SomeD simp: sel_one_key)

lemma sel_one_Cons: "sel_one P (x # xs) = (if P x then Some x else sel_one P xs)"
  by (simp add: sel_one_def)

lemma sel_one_absent: "\<forall>r \<in> set rows. \<not> P r \<Longrightarrow> sel_one P rows = None"
  by (simp add: sel_one_None)

lemma sel_one_append:
  "sel_one P (xs @ ys) = (case sel_one P xs of None \<Rightarrow> sel_one P ys | Some x \<Rightarrow> Some x)"
  by (simp add: sel_one_def find_append split: option.split)

lemma sel_one_and:
  "key_ok key rows \<Longrightarrow>
   sel_one (\<lambda>x. key x = k \<and> P x) rows =
     (case sel_one (\<lambda>x. key x = k) rows of None \<Rightarrow> None | Some r \<Rightarrow> if P r then Some r else None)"
proof (induction rows)
  case (Cons r rows)
  have "sel_one (\<lambda>x. key x = k \<and> P x) rows = None" if "key r = k"
    using Cons.prems that by (intro sel_one_absent) (auto simp: key_ok_def image_iff)
  then show ?case using Cons by (auto simp: sel_one_Cons key_ok_def)
qed simp

lemma find_filter_other:
  "(\<And>r. P r \<Longrightarrow> Q r) \<Longrightarrow> List.find P (filter Q rows) = List.find P rows"
  by (induction rows) auto

lemma sel_one_del_other:
  "(\<And>r. Q r \<Longrightarrow> \<not> P r) \<Longrightarrow> sel_one Q (del_where P rows) = sel_one Q rows"
  unfolding sel_one_def del_where_def by (rule find_filter_other) blast

lemma sel_one_del_same: "sel_one P (del_where P rows) = None"
  by (simp add: sel_one_None del_where_def)

lemma sel_one_del_key:
  "sel_one (\<lambda>r. key r = k') (del_where (\<lambda>r. key r = k) rows) =
     (if k' = k then None else sel_one (\<lambda>r. key r = k') rows)"
  by (induction rows) (auto simp: sel_one_Cons del_where_def)

lemma sel_one_del_cond:
  "key_ok key rows \<Longrightarrow>
   sel_one (\<lambda>r. key r = k) (del_where P rows) =
     (case sel_one (\<lambda>r. key r = k) rows of None \<Rightarrow> None | Some r \<Rightarrow> if P r then None else Some r)"
proof -
  assume ok: "key_ok key rows"
  have "sel_one (\<lambda>r. key r = k) (del_where P rows) = sel_one (\<lambda>r. key r = k \<and> \<not> P r) rows"
    by (induction rows) (auto simp: sel_one_Cons del_where_def)
  then show ?thesis using sel_one_and [OF ok, of k "\<lambda>r. \<not> P r"]
    by (auto split: option.splits)
qed

lemma sel_one_fresh: "k \<notin> key ` set rows \<Longrightarrow> sel_one (\<lambda>x. key x = k) rows = None"
  by (auto simp: sel_one_None)

lemma sel_one_insert:
  assumes "sql_insert key r rows = Some rows'"
  shows "sel_one (\<lambda>x. key x = k) rows' = (if k = key r then Some r else sel_one (\<lambda>x. key x = k) rows)"
proof -
  have "key r \<notin> key ` set rows" and "rows' = rows @ [r]"
    using assms by (simp_all add: sql_insert_def split: if_splits)
  then show ?thesis
    by (auto simp: sel_one_append sel_one_Cons sel_one_fresh split: option.split)
qed

lemma sel_one_replace:
  "sel_one (\<lambda>x. key x = k) (sql_replace key r rows) =
     (if k = key r then Some r else sel_one (\<lambda>x. key x = k) rows)"
proof (cases "k = key r")
  case True
  then have "sel_one (\<lambda>x. key x = k) (filter (\<lambda>x. key x \<noteq> key r) rows) = None"
    by (intro sel_one_absent) auto
  then show ?thesis using True by (simp add: sql_replace_def sel_one_append sel_one_Cons)
next
  case False
  then have "sel_one (\<lambda>x. key x = k) (filter (\<lambda>x. key x \<noteq> key r) rows) = sel_one (\<lambda>x. key x = k) rows"
    unfolding sel_one_def by (intro find_filter_other) auto
  then show ?thesis using False
    by (auto simp: sql_replace_def sel_one_append sel_one_Cons split: option.splits)
qed

lemma sel_one_upd:
  "(\<And>r. key (f r) = key r) \<Longrightarrow>
   sel_one (\<lambda>x. key x = k) (upd_where P f rows) =
     map_option (\<lambda>r. if P r then f r else r) (sel_one (\<lambda>x. key x = k) rows)"
  by (induction rows) (auto simp: sel_one_def upd_where_def)

lemma set_del [simp]: "set (del_where P rows) = {r \<in> set rows. \<not> P r}"
  by (auto simp: del_where_def)

lemma insert_ok: "key r \<notin> key ` set rows \<Longrightarrow> sql_insert key r rows = Some (rows @ [r])"
  by (simp add: sql_insert_def)

lemma changes_0: "changes P rows = 0 \<longleftrightarrow> (\<forall>r \<in> set rows. \<not> P r)"
  by (auto simp: changes_def filter_empty_conv)

lemma length_del: "length (del_where P rows) + changes P rows = length rows"
  by (induction rows) (auto simp: del_where_def changes_def)

lemma changes_key_le: "key_ok key rows \<Longrightarrow> changes (\<lambda>r. key r = k) rows \<le> 1"
proof (induction rows)
  case (Cons r rows)
  have "changes (\<lambda>r. key r = k) rows = 0" if "key r = k"
    using Cons.prems that by (auto simp: changes_0 key_ok_def image_iff)
  moreover have "changes (\<lambda>r. key r = k) rows \<le> 1"
    using Cons by (simp add: key_ok_def)
  ultimately show ?case by (auto simp: changes_def)
qed (simp add: changes_def)

lemma sql_max_SomeD: "sql_max xs = Some m \<Longrightarrow> m \<in> set xs \<and> (\<forall>x \<in> set xs. x \<le> m)"
  by (auto simp: sql_max_def split: if_splits)

lemma sql_max_None [simp]: "sql_max xs = None \<longleftrightarrow> xs = []"
  by (simp add: sql_max_def)

end
