(* ===== verification/LeaseInterface.thy ===== *)
theory LeaseInterface
  imports SqlTable
begin

text \<open>
  The contract of an expiring guard, stated after \<open>interface DispatchLeaseStore\<close> of
  \<open>src/store/dispatch-lease-store.ts\<close>: a key is held from the moment it is acquired until
  its time to live has passed, an acquisition is refused exactly while the key is held, and
  pruning drops only what is no longer held. Clients are proved once against the contract;
  the lease store and the in-flight store are interpreted as instances in their theories.
\<close>

text \<open>The key is held throughout a window that ends at \<open>e\<close>.\<close>

definition held_until :: "('k \<Rightarrow> nat \<Rightarrow> 's \<Rightarrow> bool) \<Rightarrow> nat \<Rightarrow> 'k \<Rightarrow> 's \<Rightarrow> bool" where
  "held_until has e k s = (\<forall>t < e. has k t s)"

locale lease_interface =
  fixes has :: "'k \<Rightarrow> nat \<Rightarrow> 's \<Rightarrow> bool"
    and acq :: "'w \<Rightarrow> 'k \<Rightarrow> nat \<Rightarrow> nat \<Rightarrow> 's \<Rightarrow> sql_error + (bool \<times> 's)"
    and rel :: "'k \<Rightarrow> 's \<Rightarrow> 's"
    and prune :: "nat \<Rightarrow> 's \<Rightarrow> 's"
    and inv :: "'s \<Rightarrow> bool"
  assumes acq_total: "inv s \<Longrightarrow> now + ttl < iso_max \<Longrightarrow>
      \<exists>s'. acq w k ttl now s = Inr (\<not> has k now s, s') \<and> inv s'"
    and acq_granted: "inv s \<Longrightarrow> now + ttl < iso_max \<Longrightarrow> t < iso_max \<Longrightarrow>
      acq w k ttl now s = Inr (True, s') \<Longrightarrow> has k t s' = (t < now + ttl)"
    and acq_refused: "inv s \<Longrightarrow> now + ttl < iso_max \<Longrightarrow>
      acq w k ttl now s = Inr (False, s') \<Longrightarrow> has k' t s' = has k' t s"
    and acq_frame: "inv s \<Longrightarrow> now + ttl < iso_max \<Longrightarrow> k' \<noteq> k \<Longrightarrow>
      acq w k ttl now s = Inr (g, s') \<Longrightarrow> has k' t s' = has k' t s"
    and has_antimono: "inv s \<Longrightarrow> t' \<le> t \<Longrightarrow> t < iso_max \<Longrightarrow> has k t s \<Longrightarrow> has k t' s"
    and prune_inv: "inv s \<Longrightarrow> inv (prune now s)"
    and prune_has: "inv s \<Longrightarrow> now < iso_max \<Longrightarrow> t < iso_max \<Longrightarrow>
      has k t (prune now s) = (has k t s \<and> has k now s)"
    and rel_inv: "inv s \<Longrightarrow> inv (rel k s)"
    and rel_has: "inv s \<Longrightarrow> has k' t (rel k s) = (k' \<noteq> k \<and> has k' t s)"
begin

lemma acq_cases:
  assumes "inv s" "now + ttl < iso_max"
  obtains s' where "acq w k ttl now s = Inr (\<not> has k now s, s')" "inv s'"
  using acq_total [OF assms] by blast

lemma held_acq:
  assumes "inv s" "now + ttl < iso_max" "held_until has e k s" "now < e" "acq w k' ttl now s = Inr (g, s')"
  shows "held_until has e k s'"
proof (cases "k' = k")
  case True
  then have "\<not> g" using assms acq_cases [OF assms(1,2), of w k] by (auto simp: held_until_def)
  then show ?thesis using assms acq_refused [of s now ttl w k' s'] by (simp add: held_until_def)
next
  case False
  then show ?thesis using assms acq_frame [of s now ttl k k' w g s'] by (simp add: held_until_def)
qed

lemma held_prune:
  assumes "inv s" "held_until has e k s" "now < e" "e \<le> iso_max"
  shows "held_until has e k (prune now s)"
  using assms by (simp add: held_until_def prune_has)

lemma granted_held:
  assumes "inv s" "now + ttl < iso_max" "acq w k ttl now s = Inr (True, s')" "e \<le> now + ttl"
  shows "held_until has e k s'"
  using assms acq_granted [OF assms(1,2) _ assms(3)] by (simp add: held_until_def)

end

subsection \<open>Runs of acquisitions\<close>

text \<open>A schedule of attempts, each a caller, a key and a clock reading, and the keys it granted in order.\<close>

fun grants :: "('w \<Rightarrow> 'k \<Rightarrow> nat \<Rightarrow> nat \<Rightarrow> 's \<Rightarrow> sql_error + (bool \<times> 's)) \<Rightarrow> nat \<Rightarrow> 's \<Rightarrow> ('w \<times> 'k \<times> nat) list \<Rightarrow> 'k list" where
  "grants acq ttl s [] = []"
| "grants acq ttl s ((w, k, now) # as) =
     (case acq w k ttl now s of
        Inl e \<Rightarrow> []
      | Inr (g, s') \<Rightarrow> (if g then [k] else []) @ grants acq ttl s' as)"

context lease_interface
begin

lemma grants_held:
  assumes "inv s" "held_until has e k s" "e \<le> iso_max" "\<forall>(w, k', now) \<in> set as. now < e \<and> now + ttl < iso_max"
  shows "k \<notin> set (grants acq ttl s as)"
  using assms
proof (induction as arbitrary: s)
  case (Cons a as)
  obtain w k' now where a: "a = (w, k', now)" by (metis surj_pair)
  with Cons.prems have b: "now < e" "now + ttl < iso_max" by auto
  obtain s' where s': "acq w k' ttl now s = Inr (\<not> has k' now s, s')" "inv s'"
    by (rule acq_cases [OF Cons.prems(1) b(2)])
  have "has k now s" using Cons.prems(2) b(1) by (simp add: held_until_def)
  moreover have "k \<notin> set (grants acq ttl s' as)"
    using Cons held_acq [OF Cons.prems(1) b(2) Cons.prems(2) b(1) s'(1)] s'(2) by auto
  ultimately show ?case using a s'(1) by auto
qed simp

theorem window_exclusive:
  assumes "inv s" "\<forall>(w, k', now) \<in> set as. a \<le> now \<and> now < a + ttl \<and> now + ttl < iso_max"
  shows "count_list (grants acq ttl s as) k \<le> 1"
  using assms
proof (induction as arbitrary: s)
  case (Cons x as)
  obtain w k' now where x: "x = (w, k', now)" by (metis surj_pair)
  with Cons.prems have b: "a \<le> now" "now < a + ttl" "now + ttl < iso_max" by auto
  obtain s' where s': "acq w k' ttl now s = Inr (\<not> has k' now s, s')" "inv s'"
    by (rule acq_cases [OF Cons.prems(1) b(3)])
  have rest: "count_list (grants acq ttl s' as) k \<le> 1"
    using Cons.IH [OF s'(2)] Cons.prems(2) by auto
  show ?case
  proof (cases "k' = k \<and> \<not> has k' now s")
    case True
    then have "acq w k ttl now s = Inr (True, s')" using s'(1) by auto
    then have "held_until has (a + ttl) k s'"
      using granted_held [OF Cons.prems(1) b(3)] b(1) by simp
    then have "k \<notin> set (grants acq ttl s' as)"
      using Cons.prems(2) b by (intro grants_held [OF s'(2)]) auto
    then show ?thesis using x s'(1) True by (simp add: count_list_0_iff)
  next
    case False
    then show ?thesis using x s'(1) rest by (auto simp: count_notin)
  qed
qed simp

end

end
