(* ===== verification/DispatchLease.thy ===== *)
theory DispatchLease
  imports LeaseInterface
begin

text \<open>
  \<open>src/store/dispatch-lease-store.ts\<close>: the durable store of dispatch leases, one row per
  (agent, ticket). The state is the table \<open>dispatch_lease\<close>, the configured time to live and
  the six counters; each method is a function from the state (and the clock reading, which
  the code takes from its options or from \<open>Date.now()\<close>) to its result and the new state. A
  row's times are texts, as in the table. The second half states the interface that the file
  exports as \<open>interface DispatchLeaseStore\<close> as a locale and interprets it on the store.
\<close>

subsection \<open>Rows and state\<close>

definition DEFAULT_LEASE_TTL_MS :: nat where
  "DEFAULT_LEASE_TTL_MS = 90 * 60 * 1000"

definition MAX_LEASE_TTL_MS :: nat where
  "MAX_LEASE_TTL_MS = 24 * 60 * 60 * 1000"

record LeaseRecord =
  agent_id :: string
  lease_ticket_key :: string
  dispatched_at :: string
  lease_expires_at :: string
  renewed_at :: string
  lease_ticket_updated_at :: string

record AcquireResult =
  acquired :: bool
  refused :: bool
  existingLease :: "LeaseRecord option"

record LeaseStoreCounters =
  n_acquired :: nat
  n_refused :: nat
  n_superseded :: nat
  n_renewed :: nat
  n_released :: nat
  n_stalePurged :: nat

record LeaseStore =
  dispatch_lease :: "LeaseRecord list"
  leaseTtlMs :: nat
  lease_counters :: LeaseStoreCounters

record LeaseEntry =
  le_agentId :: string
  le_ticketId :: string
  le_acquiredAt :: "int option"
  le_ttlMs :: "int option"

type_synonym lease_key = "string \<times> string"

definition lease_key :: "LeaseRecord \<Rightarrow> lease_key" where
  "lease_key r = (agent_id r, lease_ticket_key r)"

definition lease_resolveTtl :: "int option \<Rightarrow> string option \<Rightarrow> nat" where
  "lease_resolveTtl explicit env =
     (let parsed = (case explicit of Some n \<Rightarrow> Some n | None \<Rightarrow> Option.bind env parseInt)
      in case parsed of
           Some n \<Rightarrow> if 0 < n then min (nat n) MAX_LEASE_TTL_MS else DEFAULT_LEASE_TTL_MS
         | None \<Rightarrow> DEFAULT_LEASE_TTL_MS)"

definition lease_open :: "LeaseRecord list \<Rightarrow> int option \<Rightarrow> string option \<Rightarrow> LeaseStore" where
  "lease_open rows explicit env =
     \<lparr>dispatch_lease = rows, leaseTtlMs = lease_resolveTtl explicit env,
      lease_counters = \<lparr>n_acquired = 0, n_refused = 0, n_superseded = 0, n_renewed = 0,
                        n_released = 0, n_stalePurged = 0\<rparr>\<rparr>"

subsection \<open>Operations\<close>

abbreviation lease_row :: "string \<Rightarrow> string \<Rightarrow> LeaseRecord \<Rightarrow> bool" where
  "lease_row agent ticket \<equiv> (\<lambda>r. lease_key r = (agent, ticket))"

definition lease_insert ::
  "string \<Rightarrow> string \<Rightarrow> nat \<Rightarrow> nat \<Rightarrow> string option \<Rightarrow> LeaseStore \<Rightarrow> sql_error + (AcquireResult \<times> LeaseStore)" where
  "lease_insert agent ticket now expiresAt updatedAt s =
     (case sql_insert lease_key
             \<lparr>agent_id = agent, lease_ticket_key = ticket, dispatched_at = toISOString now,
              lease_expires_at = toISOString expiresAt, renewed_at = toISOString now,
              lease_ticket_updated_at = orElse updatedAt (toISOString now)\<rparr> (dispatch_lease s) of
        None \<Rightarrow> Inl UniqueViolation
      | Some rows \<Rightarrow>
          Inr (\<lparr>acquired = True, refused = False, existingLease = None\<rparr>,
               s\<lparr>dispatch_lease := rows,
                 lease_counters := (lease_counters s)\<lparr>n_acquired := n_acquired (lease_counters s) + 1\<rparr>\<rparr>))"

definition lease_acquire ::
  "string \<Rightarrow> string \<Rightarrow> nat \<Rightarrow> nat option \<Rightarrow> string option \<Rightarrow> LeaseStore \<Rightarrow> sql_error + (AcquireResult \<times> LeaseStore)" where
  "lease_acquire agent ticket now ttlOverrideMs updatedAt s =
     (let expiresAt = now + orElse ttlOverrideMs (leaseTtlMs s);
          deleted = s\<lparr>dispatch_lease := del_where (lease_row agent ticket) (dispatch_lease s)\<rparr>;
          c = lease_counters s
      in case sel_one (lease_row agent ticket) (dispatch_lease s) of
           None \<Rightarrow> lease_insert agent ticket now expiresAt updatedAt s
         | Some row \<Rightarrow>
             if num_less (Some (int now)) (getTime (lease_expires_at row)) then
               (if newer updatedAt (lease_ticket_updated_at row) then
                  lease_insert agent ticket now expiresAt updatedAt
                    (deleted\<lparr>lease_counters := c\<lparr>n_superseded := n_superseded c + 1\<rparr>\<rparr>)
                else
                  Inr (\<lparr>acquired = False, refused = True, existingLease = Some row\<rparr>,
                       s\<lparr>lease_counters := c\<lparr>n_refused := n_refused c + 1\<rparr>\<rparr>))
             else lease_insert agent ticket now expiresAt updatedAt deleted)"

definition lease_isActive :: "string \<Rightarrow> string \<Rightarrow> nat \<Rightarrow> LeaseStore \<Rightarrow> LeaseRecord option" where
  "lease_isActive agent ticket now s =
     sel_one (\<lambda>r. lease_key r = (agent, ticket) \<and> toISOString now < lease_expires_at r) (dispatch_lease s)"

definition lease_renew :: "string \<Rightarrow> string \<Rightarrow> nat \<Rightarrow> nat option \<Rightarrow> LeaseStore \<Rightarrow> bool \<times> LeaseStore" where
  "lease_renew agent ticket now ttlOverrideMs s =
     (let expiresAt = now + orElse ttlOverrideMs (leaseTtlMs s);
          cond = (\<lambda>r. lease_key r = (agent, ticket) \<and> toISOString now < lease_expires_at r);
          s' = s\<lparr>dispatch_lease :=
                   upd_where cond (\<lambda>r. r\<lparr>renewed_at := toISOString now, lease_expires_at := toISOString expiresAt\<rparr>)
                     (dispatch_lease s)\<rparr>;
          c = lease_counters s
      in if 0 < changes cond (dispatch_lease s)
         then (True, s'\<lparr>lease_counters := c\<lparr>n_renewed := n_renewed c + 1\<rparr>\<rparr>)
         else (False, s'))"

definition lease_release :: "string \<Rightarrow> string \<Rightarrow> LeaseStore \<Rightarrow> bool \<times> LeaseStore" where
  "lease_release agent ticket s =
     (let s' = s\<lparr>dispatch_lease := del_where (lease_row agent ticket) (dispatch_lease s)\<rparr>;
          c = lease_counters s
      in if 0 < changes (lease_row agent ticket) (dispatch_lease s)
         then (True, s'\<lparr>lease_counters := c\<lparr>n_released := n_released c + 1\<rparr>\<rparr>)
         else (False, s'))"

definition lease_releaseAll :: "string \<Rightarrow> LeaseStore \<Rightarrow> nat \<times> LeaseStore" where
  "lease_releaseAll agent s =
     (let n = changes (\<lambda>r. agent_id r = agent) (dispatch_lease s);
          c = lease_counters s
      in (n, s\<lparr>dispatch_lease := del_where (\<lambda>r. agent_id r = agent) (dispatch_lease s),
               lease_counters := (if 0 < n then c\<lparr>n_released := n_released c + n\<rparr> else c)\<rparr>))"

definition lease_purgeExpired :: "nat \<Rightarrow> LeaseStore \<Rightarrow> nat \<times> LeaseStore" where
  "lease_purgeExpired now s =
     (let dead = (\<lambda>r. lease_expires_at r \<le> toISOString now);
          n = changes dead (dispatch_lease s);
          c = lease_counters s
      in (n, s\<lparr>dispatch_lease := del_where dead (dispatch_lease s),
               lease_counters := (if 0 < n then c\<lparr>n_stalePurged := n_stalePurged c + n\<rparr> else c)\<rparr>))"

definition lease_get :: "string \<Rightarrow> string \<Rightarrow> LeaseStore \<Rightarrow> LeaseRecord option" where
  "lease_get agent ticket s = sel_one (lease_row agent ticket) (dispatch_lease s)"

definition lease_getAllActive :: "nat \<Rightarrow> LeaseStore \<Rightarrow> LeaseRecord list" where
  "lease_getAllActive now s =
     sort_key agent_id (sort_key lease_ticket_key
       (sel_all (\<lambda>r. toISOString now < lease_expires_at r) (dispatch_lease s)))"

subsection \<open>The simplified interface\<close>

definition hasActiveLease :: "string \<Rightarrow> string \<Rightarrow> nat \<Rightarrow> LeaseStore \<Rightarrow> bool" where
  "hasActiveLease agent ticket now s = (lease_isActive agent ticket now s \<noteq> None)"

definition acquireLease :: "string \<Rightarrow> string \<Rightarrow> nat \<Rightarrow> nat \<Rightarrow> LeaseStore \<Rightarrow> sql_error + (bool \<times> LeaseStore)" where
  "acquireLease agent ticket ttlMs now s =
     (case lease_acquire agent ticket now (Some ttlMs) None s of
        Inl e \<Rightarrow> Inl e
      | Inr (r, s') \<Rightarrow> Inr (acquired r, s'))"

definition releaseLease :: "string \<Rightarrow> string \<Rightarrow> LeaseStore \<Rightarrow> LeaseStore" where
  "releaseLease agent ticket s = snd (lease_release agent ticket s)"

definition getLease :: "string \<Rightarrow> string \<Rightarrow> LeaseStore \<Rightarrow> LeaseEntry option" where
  "getLease agent ticket s =
     (case lease_get agent ticket s of
        None \<Rightarrow> None
      | Some r \<Rightarrow>
          let acq = getTime (dispatched_at r); expires = getTime (lease_expires_at r)
          in Some \<lparr>le_agentId = agent_id r, le_ticketId = lease_ticket_key r, le_acquiredAt = acq,
                   le_ttlMs = (case (expires, acq) of (Some e, Some a) \<Rightarrow> Some (e - a) | _ \<Rightarrow> None)\<rparr>)"

definition lease_pruneExpired :: "nat \<Rightarrow> LeaseStore \<Rightarrow> nat \<times> LeaseStore" where
  "lease_pruneExpired now s = lease_purgeExpired now s"

lemmas lease_defs = lease_acquire_def lease_insert_def lease_isActive_def lease_renew_def
  lease_release_def lease_releaseAll_def lease_purgeExpired_def lease_get_def

subsection \<open>Invariant and abstraction\<close>

text \<open>
  The primary key holds and every row's expiry and dispatch time are texts the store wrote.
  The abstract store maps a key to its expiry time and the ticket's \<open>updatedAt\<close>.
\<close>

definition lease_inv :: "LeaseStore \<Rightarrow> bool" where
  "lease_inv s \<longleftrightarrow> key_ok lease_key (dispatch_lease s) \<and>
     (\<forall>r \<in> set (dispatch_lease s). stamped (lease_expires_at r) \<and> stamped (dispatched_at r))"

definition lease_view :: "LeaseRecord \<Rightarrow> nat \<times> string" where
  "lease_view r = (stamp (lease_expires_at r), lease_ticket_updated_at r)"

definition lease_abs :: "LeaseStore \<Rightarrow> lease_key \<Rightarrow> (nat \<times> string) option" where
  "lease_abs s k = map_option lease_view (sel_one (\<lambda>r. lease_key r = k) (dispatch_lease s))"

text \<open>The abstract operations.\<close>

definition spec_acquire ::
  "(lease_key \<Rightarrow> (nat \<times> string) option) \<Rightarrow> lease_key \<Rightarrow> nat \<Rightarrow> nat \<Rightarrow> string option \<Rightarrow>
   bool \<times> (lease_key \<Rightarrow> (nat \<times> string) option)" where
  "spec_acquire m k now expiry u =
     (case m k of
        Some (e, old) \<Rightarrow> if now < e \<and> \<not> newer u old then (False, m)
                         else (True, m(k \<mapsto> (expiry, orElse u (toISOString now))))
      | None \<Rightarrow> (True, m(k \<mapsto> (expiry, orElse u (toISOString now)))))"

lemma lease_inv_row: "lease_inv s \<Longrightarrow> sel_one P (dispatch_lease s) = Some r \<Longrightarrow> stamped (lease_expires_at r)"
  by (auto simp: lease_inv_def dest: sel_one_SomeD)

lemma lease_key_make [simp]:
  "lease_key \<lparr>agent_id = a, lease_ticket_key = t, dispatched_at = d, lease_expires_at = e,
     renewed_at = n, lease_ticket_updated_at = u\<rparr> = (a, t)"
  by (simp add: lease_key_def)

lemma lease_insert_spec:
  assumes "lease_inv s" "(agent, ticket) \<notin> lease_key ` set (dispatch_lease s)"
    "now < iso_max" "expiry < iso_max"
  obtains s' where
    "lease_insert agent ticket now expiry u s = Inr (\<lparr>acquired = True, refused = False, existingLease = None\<rparr>, s')"
    "lease_inv s'"
    "lease_abs s' = (lease_abs s)((agent, ticket) \<mapsto> (expiry, orElse u (toISOString now)))"
proof -
  define r where "r = \<lparr>agent_id = agent, lease_ticket_key = ticket, dispatched_at = toISOString now,
      lease_expires_at = toISOString expiry, renewed_at = toISOString now, lease_ticket_updated_at = orElse u (toISOString now)\<rparr>"
  define s' where "s' = s\<lparr>dispatch_lease := dispatch_lease s @ [r],
      lease_counters := (lease_counters s)\<lparr>n_acquired := n_acquired (lease_counters s) + 1\<rparr>\<rparr>"
  have key: "lease_key r = (agent, ticket)" by (simp add: r_def)
  have ins: "sql_insert lease_key r (dispatch_lease s) = Some (dispatch_lease s @ [r])"
    using assms(2) by (intro insert_ok) (simp add: key)
  have "lease_insert agent ticket now expiry u s = Inr (\<lparr>acquired = True, refused = False, existingLease = None\<rparr>, s')"
    using ins by (simp add: lease_insert_def r_def s'_def)
  moreover have "lease_inv s'"
    using assms key_ok_insert [OF _ ins] by (auto simp: lease_inv_def s'_def r_def)
  moreover have "lease_abs s' = (lease_abs s)((agent, ticket) \<mapsto> (expiry, orElse u (toISOString now)))"
    using sel_one_insert [OF ins] assms(4)
    by (auto simp: lease_abs_def fun_eq_iff s'_def key lease_view_def) (auto simp: r_def)
  ultimately show ?thesis by (rule that)
qed

lemma lease_del_row:
  assumes "lease_inv s"
  shows "lease_inv (s\<lparr>dispatch_lease := del_where (lease_row a t) (dispatch_lease s), lease_counters := c\<rparr>)"
    and "lease_abs (s\<lparr>dispatch_lease := del_where (lease_row a t) (dispatch_lease s), lease_counters := c\<rparr>) =
      (lease_abs s)((a, t) := None)"
    and "(a, t) \<notin> lease_key ` set (del_where (lease_row a t) (dispatch_lease s))"
proof -
  show "lease_inv (s\<lparr>dispatch_lease := del_where (lease_row a t) (dispatch_lease s), lease_counters := c\<rparr>)"
    using assms by (simp add: lease_inv_def)
  show "lease_abs (s\<lparr>dispatch_lease := del_where (lease_row a t) (dispatch_lease s), lease_counters := c\<rparr>) =
      (lease_abs s)((a, t) := None)"
    by (simp add: lease_abs_def fun_eq_iff sel_one_del_key)
  show "(a, t) \<notin> lease_key ` set (del_where (lease_row a t) (dispatch_lease s))" by auto
qed

subsection \<open>Refinement\<close>

lemma lease_counters_abs:
  "lease_abs (s\<lparr>lease_counters := c\<rparr>) = lease_abs s" "lease_inv (s\<lparr>lease_counters := c\<rparr>) = lease_inv s"
  by (simp_all add: lease_abs_def lease_inv_def fun_eq_iff)

lemma lease_acquire_spec:
  assumes "lease_inv s" "now < iso_max" "now + orElse ttl (leaseTtlMs s) < iso_max"
  obtains r s' where "lease_acquire a t now ttl u s = Inr (r, s')" "lease_inv s'"
    "spec_acquire (lease_abs s) (a, t) now (now + orElse ttl (leaseTtlMs s)) u = (acquired r, lease_abs s')"
    "refused r = (\<not> acquired r)"
proof (cases "sel_one (lease_row a t) (dispatch_lease s)")
  case None
  then have "(a, t) \<notin> lease_key ` set (dispatch_lease s)" by (auto simp: sel_one_None)
  then obtain s' where s': "lease_insert a t now (now + orElse ttl (leaseTtlMs s)) u s =
        Inr (\<lparr>acquired = True, refused = False, existingLease = None\<rparr>, s')" "lease_inv s'"
      "lease_abs s' = (lease_abs s)((a, t) \<mapsto> (now + orElse ttl (leaseTtlMs s), orElse u (toISOString now)))"
    by (rule lease_insert_spec [OF assms(1) _ assms(2,3)])
  have "lease_abs s (a, t) = None" using None by (simp add: lease_abs_def)
  then show ?thesis
    using that [of "\<lparr>acquired = True, refused = False, existingLease = None\<rparr>" s'] None s'
    by (simp add: lease_acquire_def spec_acquire_def)
next
  case (Some row)
  note found = that
  have st: "stamped (lease_expires_at row)" using lease_inv_row [OF assms(1) Some] .
  have abs: "lease_abs s (a, t) = Some (stamp (lease_expires_at row), lease_ticket_updated_at row)"
    by (simp add: lease_abs_def Some lease_view_def)
  have redo: ?thesis
    if eq: "lease_acquire a t now ttl u s = lease_insert a t now (now + orElse ttl (leaseTtlMs s)) u
          (s\<lparr>dispatch_lease := del_where (lease_row a t) (dispatch_lease s), lease_counters := c\<rparr>)"
      and free: "\<not> (now < stamp (lease_expires_at row) \<and> \<not> newer u (lease_ticket_updated_at row))" for c
  proof -
    let ?d = "s\<lparr>dispatch_lease := del_where (lease_row a t) (dispatch_lease s), lease_counters := c\<rparr>"
    obtain s' where "lease_insert a t now (now + orElse ttl (leaseTtlMs s)) u ?d =
        Inr (\<lparr>acquired = True, refused = False, existingLease = None\<rparr>, s')" "lease_inv s'"
        "lease_abs s' = (lease_abs ?d)((a, t) \<mapsto> (now + orElse ttl (leaseTtlMs s), orElse u (toISOString now)))"
      by (rule lease_insert_spec [OF lease_del_row(1) [OF assms(1)] _ assms(2,3)])
         (use lease_del_row(3) [OF assms(1)] in auto)
    then show ?thesis
      using found [of "\<lparr>acquired = True, refused = False, existingLease = None\<rparr>" s'] eq free
      by (auto simp: spec_acquire_def abs lease_del_row(2) [OF assms(1)])
  qed
  consider (refuse) "now < stamp (lease_expires_at row)" "\<not> newer u (lease_ticket_updated_at row)"
    | (over) "now < stamp (lease_expires_at row)" "newer u (lease_ticket_updated_at row)"
    | (dead) "\<not> now < stamp (lease_expires_at row)" by blast
  then show ?thesis
  proof cases
    case refuse
    let ?c = "lease_counters s"
    show ?thesis
      using found [of "\<lparr>acquired = False, refused = True, existingLease = Some row\<rparr>"
          "s\<lparr>lease_counters := ?c\<lparr>n_refused := n_refused ?c + 1\<rparr>\<rparr>"] refuse assms(1) st Some
      by (simp add: lease_acquire_def spec_acquire_def abs lease_counters_abs Let_def)
  next
    case over
    then show ?thesis using Some st
      by (intro redo [where c = "(lease_counters s)\<lparr>n_superseded := n_superseded (lease_counters s) + 1\<rparr>"])
         (simp_all add: lease_acquire_def Let_def)
  next
    case dead
    then show ?thesis using Some st
      by (intro redo [where c = "lease_counters s"]) (simp_all add: lease_acquire_def Let_def)
  qed
qed

lemma lease_isActive_abs:
  assumes "lease_inv s" "t < iso_max"
  shows "hasActiveLease a k t s = (\<exists>e u. lease_abs s (a, k) = Some (e, u) \<and> t < e)"
proof -
  have "sel_one (\<lambda>r. lease_key r = (a, k) \<and> toISOString t < lease_expires_at r) (dispatch_lease s) =
      (case sel_one (lease_row a k) (dispatch_lease s) of None \<Rightarrow> None
       | Some r \<Rightarrow> if toISOString t < lease_expires_at r then Some r else None)"
    using assms(1) by (intro sel_one_and) (simp add: lease_inv_def)
  then show ?thesis
    using assms(2) lease_inv_row [OF assms(1), of "lease_row a k"]
    by (auto simp: hasActiveLease_def lease_isActive_def lease_abs_def lease_view_def split: option.splits)
qed

lemma lease_purge_spec:
  assumes "lease_inv s" "now < iso_max"
  shows "lease_inv (snd (lease_purgeExpired now s))"
    and "lease_abs (snd (lease_purgeExpired now s)) k =
      (case lease_abs s k of Some (e, u) \<Rightarrow> if e \<le> now then None else Some (e, u) | None \<Rightarrow> None)"
proof -
  show "lease_inv (snd (lease_purgeExpired now s))"
    using assms(1) by (simp add: lease_purgeExpired_def lease_inv_def Let_def)
  have "key_ok lease_key (dispatch_lease s)" using assms(1) by (simp add: lease_inv_def)
  then show "lease_abs (snd (lease_purgeExpired now s)) k =
      (case lease_abs s k of Some (e, u) \<Rightarrow> if e \<le> now then None else Some (e, u) | None \<Rightarrow> None)"
    using assms(2) lease_inv_row [OF assms(1), of "\<lambda>r. lease_key r = k"]
    by (auto simp: lease_purgeExpired_def lease_abs_def sel_one_del_cond Let_def lease_view_def
        split: option.splits)
qed

lemma lease_release_spec:
  assumes "lease_inv s"
  shows "lease_inv (releaseLease a t s)" and "lease_abs (releaseLease a t s) = (lease_abs s)((a, t) := None)"
  using assms
  by (auto simp: releaseLease_def lease_release_def lease_inv_def lease_abs_def fun_eq_iff
      sel_one_del_key Let_def split: if_splits)

lemma purge_inv: "lease_inv s \<Longrightarrow> lease_inv (snd (lease_purgeExpired now s))"
  by (simp add: lease_purgeExpired_def lease_inv_def Let_def)

lemma acquireLease_spec:
  assumes "lease_inv s" "now + ttl < iso_max"
  obtains s' where "acquireLease a t ttl now s = Inr (\<not> hasActiveLease a t now s, s')" "lease_inv s'"
    "lease_abs s' = (if hasActiveLease a t now s then lease_abs s
       else (lease_abs s)((a, t) \<mapsto> (now + ttl, toISOString now)))"
proof -
  have b: "now < iso_max" "now + orElse (Some ttl) (leaseTtlMs s) < iso_max" using assms(2) by simp_all
  obtain r s' where r: "lease_acquire a t now (Some ttl) None s = Inr (r, s')" "lease_inv s'"
      "spec_acquire (lease_abs s) (a, t) now (now + ttl) None = (acquired r, lease_abs s')"
    using lease_acquire_spec [OF assms(1) b] by (metis orElse_simps(2))
  have "acquired r = (\<not> hasActiveLease a t now s)"
       "lease_abs s' = (if hasActiveLease a t now s then lease_abs s
          else (lease_abs s)((a, t) \<mapsto> (now + ttl, toISOString now)))"
    using r(3) lease_isActive_abs [OF assms(1) b(1), of a t]
    by (auto simp: spec_acquire_def split: option.splits if_splits)
  then show ?thesis using r by (intro that [of s']) (simp_all add: acquireLease_def)
qed

lemma hasActiveLease_purge:
  assumes "lease_inv s" "now < iso_max" "t < iso_max"
  shows "hasActiveLease a k t (snd (lease_pruneExpired now s)) =
     (hasActiveLease a k t s \<and> hasActiveLease a k now s)"
  using assms lease_purge_spec [OF assms(1,2)]
  by (auto simp: lease_pruneExpired_def lease_isActive_abs split: option.splits if_splits)

lemma hasActiveLease_acquire:
  assumes "lease_inv s" "now + ttl < iso_max" "acquireLease a k ttl now s = Inr (g, s')" "t < iso_max"
  shows "hasActiveLease a' k' t s' =
     (if g \<and> (a', k') = (a, k) then t < now + ttl else hasActiveLease a' k' t s)"
proof -
  obtain s'' where s'': "acquireLease a k ttl now s = Inr (\<not> hasActiveLease a k now s, s'')" "lease_inv s''"
      "lease_abs s'' = (if hasActiveLease a k now s then lease_abs s
        else (lease_abs s)((a, k) \<mapsto> (now + ttl, toISOString now)))"
    using acquireLease_spec [OF assms(1,2)] by blast
  then have "s' = s''" "g = (\<not> hasActiveLease a k now s)" using assms(3) by simp_all
  then show ?thesis
    using s''(2,3) assms(1,4) by (auto simp: lease_isActive_abs)
qed

text \<open>Past the year 9999 the comparison of texts says nothing; the interface speaks of times before.\<close>

definition lease_held :: "lease_key \<Rightarrow> nat \<Rightarrow> LeaseStore \<Rightarrow> bool" where
  "lease_held k now s = (now < iso_max \<and> hasActiveLease (fst k) (snd k) now s)"

interpretation leases: lease_interface
  lease_held
  "\<lambda>(_ :: unit) k ttl now s. acquireLease (fst k) (snd k) ttl now s"
  "\<lambda>k s. releaseLease (fst k) (snd k) s"
  "\<lambda>now s. snd (lease_pruneExpired now s)"
  lease_inv
proof (unfold_locales, goal_cases)
  case (1 s now ttl w k)
  then show ?case
    using acquireLease_spec [OF 1, of "fst k" "snd k"] by (auto simp: lease_held_def)
next
  case (2 s now ttl t w k s')
  then show ?case
    using hasActiveLease_acquire [OF 2(1,2,4,3), of "fst k" "snd k"] by (simp add: lease_held_def)
next
  case (3 s now ttl w k s' k' t)
  then show ?case
    using hasActiveLease_acquire [OF 3, of t "fst k'" "snd k'"] by (auto simp: lease_held_def)
next
  case (4 s now ttl k' k w g s' t)
  then show ?case
    using hasActiveLease_acquire [OF 4(1,2,4), of t "fst k'" "snd k'"]
    by (auto simp: lease_held_def prod_eq_iff)
next
  case (5 s t' t k)
  then show ?case by (auto simp: lease_held_def lease_isActive_abs)
next
  case (6 s now)
  then show ?case by (simp add: lease_pruneExpired_def purge_inv)
next
  case (7 s now t k)
  then show ?case using hasActiveLease_purge [OF 7] by (auto simp: lease_held_def)
next
  case (8 s k)
  then show ?case by (simp add: lease_release_spec)
next
  case (9 s k' t k)
  then show ?case
    by (auto simp: lease_held_def lease_isActive_abs lease_release_spec prod_eq_iff split: if_splits)
qed

subsection \<open>Properties\<close>

definition empty_store :: "nat \<Rightarrow> LeaseStore" where
  "empty_store ttl = lease_open [] (Some (int ttl)) None"

lemma lease_inv_empty: "lease_inv (empty_store ttl)"
  by (simp add: lease_inv_def empty_store_def lease_open_def)

text \<open>
  C28: The lease store refines a map from (agent, ticket) to an expiry time: while its rows
  are well-formed, \<open>acquire\<close> never throws, keeps them well-formed, and its outcome and its
  effect on the map are those of the abstract operation (a held lease refuses unless the
  incoming ticket snapshot is strictly newer; anything else replaces the entry).
\<close>

theorem acquire_refines_spec:
  assumes "lease_inv s" and "now < iso_max" and "now + orElse ttl (leaseTtlMs s) < iso_max"
  shows "\<exists>r s'. lease_acquire agent ticket now ttl u s = Inr (r, s') \<and> lease_inv s' \<and>
    refused r = (\<not> acquired r) \<and>
    spec_acquire (lease_abs s) (agent, ticket) now (now + orElse ttl (leaseTtlMs s)) u
      = (acquired r, lease_abs s')"
  by (rule lease_acquire_spec [OF assms]) blast

theorem acquire_refines_spec_witness:
  "\<exists>r s'. lease_acquire ''ada'' ''linear-INF-1'' 1000 None None (empty_store 60000) = Inr (r, s') \<and>
    lease_inv s' \<and> refused r = (\<not> acquired r) \<and>
    spec_acquire (lease_abs (empty_store 60000)) (''ada'', ''linear-INF-1'') 1000 61000 None
      = (acquired r, lease_abs s')"
proof -
  have ttl: "leaseTtlMs (empty_store 60000) = 60000"
    by (simp add: empty_store_def lease_open_def lease_resolveTtl_def MAX_LEASE_TTL_MS_def)
  then show ?thesis
    using acquire_refines_spec [OF lease_inv_empty, of 1000 None 60000 "''ada''" "''linear-INF-1''" None]
    by (simp add: iso_max_def)
qed



end
