(* ===== verification/ReconciliationWake.thy ===== *)
theory ReconciliationWake
  imports DispatchLease
begin

text \<open>
  \<open>src/bag/reconciliation-wake.ts\<close>: the reconciliation wake path, a client of the lease
  interface. As in the code the lease operations and the delivery function are arguments.
  The three lease calls read the clock one after the other, so the model takes three clock
  readings; the calls are synchronous, so nothing runs between them.
\<close>

datatype delivery = Delivered bool | Threw string

record ReconciliationWakeResult =
  suppressed :: bool
  rw_dispatched :: bool
  reason :: "string option"

definition strip_linear :: "string \<Rightarrow> string" where
  "strip_linear t = (if take 7 t = ''linear-'' then drop 7 t else t)"

definition reconciliationWakeFn ::
  "(lease_key \<Rightarrow> nat \<Rightarrow> 's \<Rightarrow> bool) \<Rightarrow> (lease_key \<Rightarrow> nat \<Rightarrow> nat \<Rightarrow> 's \<Rightarrow> sql_error + (bool \<times> 's)) \<Rightarrow>
   (nat \<Rightarrow> 's \<Rightarrow> 's) \<Rightarrow> (string \<Rightarrow> string \<Rightarrow> string \<Rightarrow> delivery) \<Rightarrow>
   string \<Rightarrow> string \<Rightarrow> nat \<Rightarrow> nat \<Rightarrow> nat \<Rightarrow> nat \<Rightarrow> 's \<Rightarrow> sql_error + (ReconciliationWakeResult \<times> 's)" where
  "reconciliationWakeFn hasActive acquire pruneExp deliver agentId ticketId ttl t1 t2 t3 s =
     (let s1 = pruneExp t1 s in
      if hasActive (agentId, ticketId) t2 s1 then
        Inr (\<lparr>suppressed = True, rw_dispatched = False, reason = Some ''Active lease exists''\<rparr>, s1)
      else case acquire (agentId, ticketId) ttl t3 s1 of
        Inl e \<Rightarrow> Inl e
      | Inr (got, s2) \<Rightarrow>
          if \<not> got then
            Inr (\<lparr>suppressed = True, rw_dispatched = False,
                  reason = Some ''Failed to acquire lease (racing concurrent acquire)''\<rparr>, s2)
          else case deliver agentId ticketId (''Reconciliation wake for ticket '' @ strip_linear ticketId) of
            Delivered d \<Rightarrow> Inr (\<lparr>suppressed = False, rw_dispatched = d, reason = None\<rparr>, s2)
          | Threw m \<Rightarrow> Inr (\<lparr>suppressed = False, rw_dispatched = False, reason = Some m\<rparr>, s2))"

text \<open>The wake on the lease store itself.\<close>

abbreviation lease_wake ::
  "(string \<Rightarrow> string \<Rightarrow> string \<Rightarrow> delivery) \<Rightarrow> string \<Rightarrow> string \<Rightarrow> nat \<Rightarrow> nat \<Rightarrow> nat \<Rightarrow> nat \<Rightarrow>
   LeaseStore \<Rightarrow> sql_error + (ReconciliationWakeResult \<times> LeaseStore)" where
  "lease_wake \<equiv> reconciliationWakeFn lease_held
     (\<lambda>k ttl now s. acquireLease (fst k) (snd k) ttl now s) (\<lambda>now s. snd (lease_pruneExpired now s))"

text \<open>The part of the contract the wake relies on: keys are (agent, ticket) pairs.\<close>

locale ticket_lease_interface = lease_interface has acq rel prune inv
  for has :: "string \<times> string \<Rightarrow> nat \<Rightarrow> 's \<Rightarrow> bool"
    and acq :: "unit \<Rightarrow> string \<times> string \<Rightarrow> nat \<Rightarrow> nat \<Rightarrow> 's \<Rightarrow> sql_error + (bool \<times> 's)"
    and rel :: "string \<times> string \<Rightarrow> 's \<Rightarrow> 's"
    and prune :: "nat \<Rightarrow> 's \<Rightarrow> 's"
    and inv :: "'s \<Rightarrow> bool"
begin

lemma wake_total:
  assumes "inv s" "t3 + ttl < iso_max"
  shows "\<exists>res s'. reconciliationWakeFn has (acq ()) prune deliver agent ticket ttl t1 t2 t3 s = Inr (res, s')"
proof -
  obtain s2 where "acq () (agent, ticket) ttl t3 (prune t1 s) =
      Inr (\<not> has (agent, ticket) t3 (prune t1 s), s2)"
    by (rule acq_cases [OF prune_inv [OF assms(1)] assms(2)])
  then show ?thesis by (auto simp: reconciliationWakeFn_def Let_def split: delivery.split)
qed

lemma wake_cases:
  assumes s: "inv s" and t: "t1 \<le> t2" "t2 \<le> t3" "t3 + ttl < iso_max"
    and wake: "reconciliationWakeFn has (acq ()) prune deliver agent ticket ttl t1 t2 t3 s = Inr (res, s')"
  shows "inv s' \<and> suppressed res = has (agent, ticket) t2 s \<and>
    (suppressed res \<longrightarrow> reason res = Some ''Active lease exists'' \<and> \<not> rw_dispatched res) \<and>
    (\<not> suppressed res \<longrightarrow> held_until has (t3 + ttl) (agent, ticket) s')"
proof -
  let ?k = "(agent, ticket)"
  have b: "t1 < iso_max" "t2 < iso_max" "t3 < iso_max" using t by linarith+
  have s1: "inv (prune t1 s)" by (rule prune_inv [OF s])
  have has1: "has ?k t (prune t1 s) = has ?k t s" if "t1 \<le> t" "t < iso_max" for t
    using prune_has [OF s b(1) that(2)] has_antimono [OF s that] by blast
  show ?thesis
  proof (cases "has ?k t2 s")
    case True
    then have "has ?k t2 (prune t1 s)" using has1 [OF t(1) b(2)] by simp
    then show ?thesis using wake s1 True by (auto simp: reconciliationWakeFn_def)
  next
    case False
    then have no: "\<not> has ?k t2 (prune t1 s)" using has1 [OF t(1) b(2)] by simp
    then have no3: "\<not> has ?k t3 (prune t1 s)" using has_antimono [OF s1 t(2) b(3)] by blast
    obtain s2 where s2: "acq () ?k ttl t3 (prune t1 s) = Inr (True, s2)" "inv s2"
      using acq_cases [OF s1 t(3), of "()" ?k] no3 by (metis (full_types))
    have "s' = s2 \<and> \<not> suppressed res"
      using wake no s2(1) by (auto simp: reconciliationWakeFn_def split: delivery.splits)
    then show ?thesis
      using False s2 granted_held [OF s1 t(3) s2(1)] by auto
  qed
qed

text \<open>A second wake before the lease of the first has run out is suppressed, delivered or not.\<close>

lemma wake_again:
  assumes "inv s" "t1 \<le> t2" "t2 \<le> t3" "t3 + ttl < iso_max" "u1 \<le> u2" "u2 \<le> u3" "u3 + ttl' < iso_max"
    and "reconciliationWakeFn has (acq ()) prune deliver agent ticket ttl t1 t2 t3 s = Inr (res, s')"
    and "\<not> suppressed res" "u2 < t3 + ttl"
    and "reconciliationWakeFn has (acq ()) prune deliver' agent ticket ttl' u1 u2 u3 s' = Inr (res', s'')"
  shows "suppressed res' \<and> \<not> rw_dispatched res'"
proof -
  have "inv s'" "has (agent, ticket) u2 s'"
    using wake_cases [OF assms(1-4,8)] assms(9,10) by (auto simp: held_until_def)
  then show ?thesis using wake_cases [OF _ assms(5-7,11)] by blast
qed

end

interpretation wakes: ticket_lease_interface
  lease_held
  "\<lambda>(_ :: unit) k ttl now s. acquireLease (fst k) (snd k) ttl now s"
  "\<lambda>k s. releaseLease (fst k) (snd k) s"
  "\<lambda>now s. snd (lease_pruneExpired now s)"
  lease_inv
  by unfold_locales

text \<open>
  A wake is suppressed exactly when a lease is held at the check, and then it says so:
  the branch for a lost race is never taken, because the check and the acquisition run
  without interruption. The wake never throws, and it keeps the store well-formed.
\<close>

theorem wake_suppressed_iff_leased:
  assumes "lease_inv s" and "t1 \<le> t2" and "t2 \<le> t3" and "t3 + ttl < iso_max"
  shows "\<exists>res s'. lease_wake deliver agent ticket ttl t1 t2 t3 s = Inr (res, s') \<and> lease_inv s' \<and>
    suppressed res = lease_held (agent, ticket) t2 s \<and>
    (suppressed res \<longrightarrow> reason res = Some ''Active lease exists'')"
  using wakes.wake_total [OF assms(1,4)] wakes.wake_cases [OF assms] by blast

theorem wake_suppressed_iff_leased_witness:
  "\<exists>res s'. lease_wake (\<lambda>_ _ _. Delivered True) ''ada'' ''linear-INF-1'' 60000 5 5 6 (empty_store 60000) = Inr (res, s') \<and>
    lease_inv s' \<and> suppressed res = lease_held (''ada'', ''linear-INF-1'') 5 (empty_store 60000) \<and>
    (suppressed res \<longrightarrow> reason res = Some ''Active lease exists'')"
  by (rule wake_suppressed_iff_leased [OF lease_inv_empty]) (simp_all add: iso_max_def)

text \<open>
  A wake that was not suppressed holds the lease whatever became of its delivery: every
  later wake of the same agent for the same ticket before the lease runs out is suppressed,
  also when the delivery threw or was not dispatched. Nothing on this path releases the lease.
\<close>

theorem failed_delivery_keeps_lease:
  assumes "lease_inv s" and "t1 \<le> t2" and "t2 \<le> t3" and "t3 + ttl < iso_max"
    and "u1 \<le> u2" and "u2 \<le> u3" and "u3 + ttl' < iso_max"
    and "lease_wake deliver agent ticket ttl t1 t2 t3 s = Inr (res, s')"
    and "\<not> suppressed res" and "u2 < t3 + ttl"
    and "lease_wake deliver' agent ticket ttl' u1 u2 u3 s' = Inr (res', s'')"
  shows "suppressed res' \<and> \<not> rw_dispatched res'"
  by (rule wakes.wake_again [OF assms])

lemma unleased_empty: "\<not> lease_held k t (empty_store ttl)"
  by (simp add: lease_held_def hasActiveLease_def lease_isActive_def empty_store_def lease_open_def)

theorem failed_delivery_keeps_lease_witness:
  "\<exists>res s' res' s''.
     lease_wake (\<lambda>_ _ _. Threw ''down'') ''ada'' ''T'' 60000 5 5 6 (empty_store 60000) = Inr (res, s') \<and>
     \<not> rw_dispatched res \<and>
     lease_wake (\<lambda>_ _ _. Delivered True) ''ada'' ''T'' 60000 9 9 9 s' = Inr (res', s'') \<and>
     suppressed res' \<and> \<not> rw_dispatched res'"
proof -
  let ?w = "lease_wake (\<lambda>_ _ _. Threw ''down'') ''ada'' ''T'' 60000 5 5 6 (empty_store 60000)"
  have b: "(6 :: nat) + 60000 < iso_max" "(9 :: nat) + 60000 < iso_max" by (simp_all add: iso_max_def)
  obtain res s' where 1: "?w = Inr (res, s')"
    using wakes.wake_total [OF lease_inv_empty b(1)] by blast
  note c = wakes.wake_cases [OF lease_inv_empty _ _ b(1) 1, simplified]
  have 2: "\<not> suppressed res" "\<not> rw_dispatched res"
    using c 1 by (auto simp: unleased_empty reconciliationWakeFn_def Let_def split: sum.splits prod.splits if_splits)
  obtain res' s'' where 3: "lease_wake (\<lambda>_ _ _. Delivered True) ''ada'' ''T'' 60000 9 9 9 s' = Inr (res', s'')"
    using wakes.wake_total [of s', OF _ b(2)] c by blast
  show ?thesis
    using failed_delivery_keeps_lease [OF lease_inv_empty _ _ b(1) _ _ b(2) 1 2(1) _ 3] 1 2 3 by auto
qed

end
