(* ===== verification/DispatchInFlight.thy ===== *)
theory DispatchInFlight
  imports LeaseInterface
begin

text \<open>
  \<open>src/store/dispatch-inflight-store.ts\<close>: the durable in-flight guard, one row per ticket
  whatever the agent. The model follows the class method by method; the \<open>LIKE\<close> of
  \<open>releaseForAgent\<close> is SQLite's (\<open>%\<close>, \<open>_\<close>, \<open>ESCAPE\<close>, no difference of case between
  ASCII letters). The store is a second instance of the lease interface.
\<close>

subsection \<open>Rows and state\<close>

definition DEFAULT_INFLIGHT_TTL_MS :: nat where
  "DEFAULT_INFLIGHT_TTL_MS = 15 * 60 * 1000"

definition MAX_INFLIGHT_TTL_MS :: nat where
  "MAX_INFLIGHT_TTL_MS = 24 * 60 * 60 * 1000"

record InFlightRecord =
  if_ticket_key :: string
  holder :: string
  if_acquired_at :: string
  if_expires_at :: string
  if_ticket_updated_at :: string

record InFlightAcquireResult =
  if_acquired :: bool
  if_refused :: bool
  if_superseded :: bool
  if_existing :: "InFlightRecord option"

record InFlightStoreCounters =
  if_n_acquired :: nat
  if_n_refused :: nat
  if_n_superseded :: nat
  if_n_released :: nat
  if_n_stalePurged :: nat

record InFlightStore =
  dispatch_inflight :: "InFlightRecord list"
  if_ttlMs :: nat
  if_counters :: InFlightStoreCounters

definition inflight_resolveTtl :: "int option \<Rightarrow> string option \<Rightarrow> nat" where
  "inflight_resolveTtl explicit env =
     (let parsed = (case explicit of Some n \<Rightarrow> Some n | None \<Rightarrow> Option.bind env parseInt)
      in case parsed of
           Some n \<Rightarrow> if 0 < n then min (nat n) MAX_INFLIGHT_TTL_MS else DEFAULT_INFLIGHT_TTL_MS
         | None \<Rightarrow> DEFAULT_INFLIGHT_TTL_MS)"

definition inflight_open :: "InFlightRecord list \<Rightarrow> int option \<Rightarrow> string option \<Rightarrow> InFlightStore" where
  "inflight_open rows explicit env =
     \<lparr>dispatch_inflight = rows, if_ttlMs = inflight_resolveTtl explicit env,
      if_counters = \<lparr>if_n_acquired = 0, if_n_refused = 0, if_n_superseded = 0, if_n_released = 0,
                     if_n_stalePurged = 0\<rparr>\<rparr>"

subsection \<open>Operations\<close>

abbreviation inflight_row :: "string \<Rightarrow> InFlightRecord \<Rightarrow> bool" where
  "inflight_row ticket \<equiv> (\<lambda>r. if_ticket_key r = ticket)"

definition inflight_insert ::
  "string \<Rightarrow> string \<Rightarrow> nat \<Rightarrow> nat \<Rightarrow> string option \<Rightarrow> bool \<Rightarrow> InFlightStore \<Rightarrow>
   sql_error + (InFlightAcquireResult \<times> InFlightStore)" where
  "inflight_insert ticket hold now expiresAt updatedAt superseded s =
     (case sql_insert if_ticket_key
             \<lparr>if_ticket_key = ticket, holder = hold, if_acquired_at = toISOString now,
              if_expires_at = toISOString expiresAt,
              if_ticket_updated_at = orElse updatedAt (toISOString now)\<rparr> (dispatch_inflight s) of
        None \<Rightarrow> Inl UniqueViolation
      | Some rows \<Rightarrow>
          Inr (\<lparr>if_acquired = True, if_refused = False, if_superseded = superseded, if_existing = None\<rparr>,
               s\<lparr>dispatch_inflight := rows,
                 if_counters := (if_counters s)\<lparr>if_n_acquired := if_n_acquired (if_counters s) + 1\<rparr>\<rparr>))"

definition tryAcquire ::
  "string \<Rightarrow> string \<Rightarrow> nat \<Rightarrow> nat option \<Rightarrow> string option \<Rightarrow> InFlightStore \<Rightarrow>
   sql_error + (InFlightAcquireResult \<times> InFlightStore)" where
  "tryAcquire ticket hold now ttlOverrideMs updatedAt s =
     (let expiresAt = now + orElse ttlOverrideMs (if_ttlMs s);
          deleted = s\<lparr>dispatch_inflight := del_where (inflight_row ticket) (dispatch_inflight s)\<rparr>;
          c = if_counters s
      in case sel_one (inflight_row ticket) (dispatch_inflight s) of
           None \<Rightarrow> inflight_insert ticket hold now expiresAt updatedAt False s
         | Some row \<Rightarrow>
             if num_less (Some (int now)) (getTime (if_expires_at row)) then
               (if newer updatedAt (if_ticket_updated_at row) then
                  inflight_insert ticket hold now expiresAt updatedAt True
                    (deleted\<lparr>if_counters := c\<lparr>if_n_superseded := if_n_superseded c + 1\<rparr>\<rparr>)
                else
                  Inr (\<lparr>if_acquired = False, if_refused = True, if_superseded = False, if_existing = Some row\<rparr>,
                       s\<lparr>if_counters := c\<lparr>if_n_refused := if_n_refused c + 1\<rparr>\<rparr>))
             else inflight_insert ticket hold now expiresAt updatedAt False deleted)"

definition isInFlight :: "string \<Rightarrow> nat \<Rightarrow> InFlightStore \<Rightarrow> InFlightRecord option" where
  "isInFlight ticket now s =
     sel_one (\<lambda>r. if_ticket_key r = ticket \<and> toISOString now < if_expires_at r) (dispatch_inflight s)"

definition inflight_renew :: "string \<Rightarrow> nat \<Rightarrow> nat option \<Rightarrow> InFlightStore \<Rightarrow> bool \<times> InFlightStore" where
  "inflight_renew ticket now ttlOverrideMs s =
     (let expiresAt = now + orElse ttlOverrideMs (if_ttlMs s);
          cond = (\<lambda>r. if_ticket_key r = ticket \<and> toISOString now < if_expires_at r)
      in (0 < changes cond (dispatch_inflight s),
          s\<lparr>dispatch_inflight :=
              upd_where cond (\<lambda>r. r\<lparr>if_expires_at := toISOString expiresAt\<rparr>) (dispatch_inflight s)\<rparr>))"

definition inflight_release :: "string \<Rightarrow> string option \<Rightarrow> InFlightStore \<Rightarrow> bool \<times> InFlightStore" where
  "inflight_release ticket hold s =
     (let cond = (\<lambda>r. if_ticket_key r = ticket \<and> (case hold of Some h \<Rightarrow> holder r = h | None \<Rightarrow> True));
          n = changes cond (dispatch_inflight s);
          s' = s\<lparr>dispatch_inflight := del_where cond (dispatch_inflight s)\<rparr>;
          c = if_counters s
      in if 0 < n then (True, s'\<lparr>if_counters := c\<lparr>if_n_released := if_n_released c + n\<rparr>\<rparr>)
         else (False, s'))"

text \<open>SQLite's \<open>LIKE ... ESCAPE '\'\<close>.\<close>

definition backslash :: char where
  "backslash = CHR 0x5C"

function like :: "string \<Rightarrow> string \<Rightarrow> bool" where
  "like [] s = (s = [])"
| "like (p # ps) s =
     (if p = CHR ''%'' then like ps s \<or> (if s = [] then False else like (p # ps) (tl s))
      else if p = CHR ''_'' then s \<noteq> [] \<and> like ps (tl s)
      else if p = backslash then
        ps \<noteq> [] \<and> s \<noteq> [] \<and> ascii_lower (hd ps) = ascii_lower (hd s) \<and> like (tl ps) (tl s)
      else s \<noteq> [] \<and> ascii_lower p = ascii_lower (hd s) \<and> like ps (tl s))"
  by pat_completeness auto
termination
  by (relation "measures [\<lambda>(p, s). length p, \<lambda>(p, s). length s]") auto

declare like.simps(2) [simp del]

fun escapeLike :: "string \<Rightarrow> string" where
  "escapeLike [] = []"
| "escapeLike (c # cs) =
     (if c = backslash \<or> c = CHR ''%'' \<or> c = CHR ''_'' then backslash # c # escapeLike cs
      else c # escapeLike cs)"

definition releaseForAgent :: "string \<Rightarrow> InFlightStore \<Rightarrow> nat \<times> InFlightStore" where
  "releaseForAgent agentId s =
     (let cond = (\<lambda>r. like (escapeLike agentId @ '':%'') (holder r));
          n = changes cond (dispatch_inflight s);
          c = if_counters s
      in (n, s\<lparr>dispatch_inflight := del_where cond (dispatch_inflight s),
               if_counters := (if 0 < n then c\<lparr>if_n_released := if_n_released c + n\<rparr> else c)\<rparr>))"

definition inflight_pruneExpired :: "nat \<Rightarrow> InFlightStore \<Rightarrow> nat \<times> InFlightStore" where
  "inflight_pruneExpired now s =
     (let dead = (\<lambda>r. if_expires_at r \<le> toISOString now);
          n = changes dead (dispatch_inflight s);
          c = if_counters s
      in (n, s\<lparr>dispatch_inflight := del_where dead (dispatch_inflight s),
               if_counters := (if 0 < n then c\<lparr>if_n_stalePurged := if_n_stalePurged c + n\<rparr> else c)\<rparr>))"

definition inflight_get :: "string \<Rightarrow> InFlightStore \<Rightarrow> InFlightRecord option" where
  "inflight_get ticket s = sel_one (inflight_row ticket) (dispatch_inflight s)"

definition inflight_getAllActive :: "nat \<Rightarrow> InFlightStore \<Rightarrow> InFlightRecord list" where
  "inflight_getAllActive now s =
     sort_key if_ticket_key (sel_all (\<lambda>r. toISOString now < if_expires_at r) (dispatch_inflight s))"

subsection \<open>Invariant and abstraction\<close>

definition inflight_inv :: "InFlightStore \<Rightarrow> bool" where
  "inflight_inv s \<longleftrightarrow> key_ok if_ticket_key (dispatch_inflight s) \<and>
     (\<forall>r \<in> set (dispatch_inflight s). stamped (if_expires_at r))"

definition inflight_find :: "InFlightStore \<Rightarrow> string \<Rightarrow> InFlightRecord option" where
  "inflight_find s k = sel_one (inflight_row k) (dispatch_inflight s)"

definition inflight_held :: "string \<Rightarrow> nat \<Rightarrow> InFlightStore \<Rightarrow> bool" where
  "inflight_held k now s = (now < iso_max \<and> isInFlight k now s \<noteq> None)"

lemma inflight_find_stamped:
  "inflight_inv s \<Longrightarrow> inflight_find s k = Some r \<Longrightarrow> stamped (if_expires_at r) \<and> if_ticket_key r = k"
  by (auto simp: inflight_inv_def inflight_find_def dest: sel_one_SomeD)

lemma inflight_held_find:
  assumes "inflight_inv s"
  shows "inflight_held k t s = (t < iso_max \<and> (\<exists>r. inflight_find s k = Some r \<and> t < stamp (if_expires_at r)))"
proof -
  have "isInFlight k t s = (case inflight_find s k of None \<Rightarrow> None
      | Some r \<Rightarrow> if toISOString t < if_expires_at r then Some r else None)"
    using assms sel_one_and [of if_ticket_key "dispatch_inflight s" k]
    by (simp add: isInFlight_def inflight_find_def inflight_inv_def)
  then show ?thesis
    using inflight_find_stamped [OF assms, of k] by (auto simp: inflight_held_def split: option.splits)
qed

lemma inflight_counters [simp]:
  "inflight_inv (s\<lparr>if_counters := c\<rparr>) = inflight_inv s" "inflight_find (s\<lparr>if_counters := c\<rparr>) = inflight_find s"
  by (simp_all add: inflight_inv_def inflight_find_def fun_eq_iff)

lemma inflight_del:
  assumes "inflight_inv s"
  shows "inflight_inv (s\<lparr>dispatch_inflight := del_where P (dispatch_inflight s)\<rparr>)"
    and "inflight_find (s\<lparr>dispatch_inflight := del_where P (dispatch_inflight s)\<rparr>) k =
      (case inflight_find s k of None \<Rightarrow> None | Some r \<Rightarrow> if P r then None else Some r)"
  using assms sel_one_del_cond [of if_ticket_key "dispatch_inflight s" k P]
  by (auto simp: inflight_inv_def inflight_find_def)

subsection \<open>Acquisition\<close>

lemma inflight_insert_spec:
  assumes "inflight_inv s" "inflight_find s ticket = None" "expiry < iso_max"
  obtains res s' where
    "inflight_insert ticket h now expiry u ovr s = Inr (res, s')" "if_acquired res" "inflight_inv s'"
    "if_superseded res = ovr"
    "inflight_find s' = (inflight_find s)(ticket \<mapsto> \<lparr>if_ticket_key = ticket, holder = h,
       if_acquired_at = toISOString now, if_expires_at = toISOString expiry,
       if_ticket_updated_at = orElse u (toISOString now)\<rparr>)"
proof -
  define r where "r = \<lparr>if_ticket_key = ticket, holder = h,
       if_acquired_at = toISOString now, if_expires_at = toISOString expiry,
       if_ticket_updated_at = orElse u (toISOString now)\<rparr>"
  define s' where "s' = s\<lparr>dispatch_inflight := dispatch_inflight s @ [r],
      if_counters := (if_counters s)\<lparr>if_n_acquired := if_n_acquired (if_counters s) + 1\<rparr>\<rparr>"
  have key: "if_ticket_key r = ticket" by (simp add: r_def)
  have "if_ticket_key r \<notin> if_ticket_key ` set (dispatch_inflight s)"
    using assms(2) by (auto simp: inflight_find_def sel_one_None key)
  then have ins: "sql_insert if_ticket_key r (dispatch_inflight s) = Some (dispatch_inflight s @ [r])"
    by (rule insert_ok)
  have "inflight_insert ticket h now expiry u ovr s =
      Inr (\<lparr>if_acquired = True, if_refused = False, if_superseded = ovr, if_existing = None\<rparr>, s')"
    using ins by (simp add: inflight_insert_def r_def s'_def)
  moreover have "inflight_inv s'"
    using assms(1,3) key_ok_insert [OF _ ins] by (auto simp: inflight_inv_def s'_def r_def)
  moreover have "inflight_find s' = (inflight_find s)(ticket \<mapsto> r)"
    using sel_one_insert [OF ins] by (simp add: inflight_find_def fun_eq_iff s'_def key)
  ultimately show ?thesis using that unfolding r_def by fastforce
qed

text \<open>
  What \<open>tryAcquire\<close> decides, and the row that is found afterwards.
\<close>

definition inflight_blocked :: "string \<Rightarrow> nat \<Rightarrow> string option \<Rightarrow> InFlightStore \<Rightarrow> bool" where
  "inflight_blocked ticket now u s =
     (case inflight_find s ticket of None \<Rightarrow> False
      | Some r \<Rightarrow> now < stamp (if_expires_at r) \<and> \<not> newer u (if_ticket_updated_at r))"

lemma tryAcquire_spec:
  assumes "inflight_inv s" "now + orElse ttl (if_ttlMs s) < iso_max"
  obtains res s' where "tryAcquire ticket h now ttl u s = Inr (res, s')" "inflight_inv s'"
    "if_acquired res = (\<not> inflight_blocked ticket now u s)"
    "if_existing res = (if inflight_blocked ticket now u s then inflight_find s ticket else None)"
    "inflight_find s' = (if inflight_blocked ticket now u s then inflight_find s
       else (inflight_find s)(ticket \<mapsto> \<lparr>if_ticket_key = ticket, holder = h,
         if_acquired_at = toISOString now, if_expires_at = toISOString (now + orElse ttl (if_ttlMs s)),
         if_ticket_updated_at = orElse u (toISOString now)\<rparr>))"
proof (cases "inflight_find s ticket")
  case None
  then have none: "sel_one (inflight_row ticket) (dispatch_inflight s) = None" by (simp add: inflight_find_def)
  obtain res s' where "inflight_insert ticket h now (now + orElse ttl (if_ttlMs s)) u False s = Inr (res, s')"
      "if_acquired res" "inflight_inv s'" "inflight_find s' = (inflight_find s)(ticket \<mapsto>
        \<lparr>if_ticket_key = ticket, holder = h, if_acquired_at = toISOString now,
         if_expires_at = toISOString (now + orElse ttl (if_ttlMs s)),
         if_ticket_updated_at = orElse u (toISOString now)\<rparr>)"
    using inflight_insert_spec [OF assms(1) None assms(2)] by metis
  moreover from this(1) have "if_existing res = None"
    by (auto simp: inflight_insert_def split: option.splits)
  ultimately show ?thesis using that [of res s'] none None
    by (simp add: tryAcquire_def inflight_blocked_def)
next
  case (Some row)
  note found = that
  have row: "sel_one (inflight_row ticket) (dispatch_inflight s) = Some row"
    using Some by (simp add: inflight_find_def)
  have st: "stamped (if_expires_at row)" using inflight_find_stamped [OF assms(1) Some] by simp
  have redo: ?thesis
    if eq: "tryAcquire ticket h now ttl u s = inflight_insert ticket h now (now + orElse ttl (if_ttlMs s)) u ovr
          (s\<lparr>dispatch_inflight := del_where (inflight_row ticket) (dispatch_inflight s), if_counters := c\<rparr>)"
      and free: "\<not> inflight_blocked ticket now u s" for ovr c
  proof -
    let ?d = "s\<lparr>dispatch_inflight := del_where (inflight_row ticket) (dispatch_inflight s)\<rparr>\<lparr>if_counters := c\<rparr>"
    have d: "inflight_inv ?d" "inflight_find ?d = (inflight_find s)(ticket := None)"
      using inflight_del [OF assms(1), of "inflight_row ticket"] inflight_find_stamped [OF assms(1)]
      by (auto simp: fun_eq_iff split: option.splits)
    obtain res s' where s': "inflight_insert ticket h now (now + orElse ttl (if_ttlMs s)) u ovr ?d = Inr (res, s')"
        "if_acquired res" "inflight_inv s'" "inflight_find s' = (inflight_find ?d)(ticket \<mapsto>
          \<lparr>if_ticket_key = ticket, holder = h, if_acquired_at = toISOString now,
           if_expires_at = toISOString (now + orElse ttl (if_ttlMs s)),
           if_ticket_updated_at = orElse u (toISOString now)\<rparr>)"
      using inflight_insert_spec [OF d(1) _ assms(2)] d(2) by (metis fun_upd_same)
    from s'(1) have "if_existing res = None" by (auto simp: inflight_insert_def split: option.splits)
    then show ?thesis using found [of res s'] s' eq free d(2) by simp
  qed
  show ?thesis
  proof (cases "now < stamp (if_expires_at row)"; cases "newer u (if_ticket_updated_at row)")
    assume "now < stamp (if_expires_at row)" "\<not> newer u (if_ticket_updated_at row)"
    then show ?thesis
      using found [of "\<lparr>if_acquired = False, if_refused = True, if_superseded = False, if_existing = Some row\<rparr>"
          "s\<lparr>if_counters := (if_counters s)\<lparr>if_n_refused := if_n_refused (if_counters s) + 1\<rparr>\<rparr>"]
        row st Some assms(1)
      by (simp add: tryAcquire_def inflight_blocked_def Let_def)
  next
    assume "now < stamp (if_expires_at row)" "newer u (if_ticket_updated_at row)"
    then show ?thesis using row st Some
      by (intro redo [where ovr = True and
            c = "(if_counters s)\<lparr>if_n_superseded := if_n_superseded (if_counters s) + 1\<rparr>"])
         (simp_all add: tryAcquire_def inflight_blocked_def Let_def)
  qed (use row st Some in \<open>intro redo [where ovr = False and c = "if_counters s"];
         simp add: tryAcquire_def inflight_blocked_def Let_def\<close>)+
qed

subsection \<open>The interface\<close>

definition inflight_try :: "string \<Rightarrow> string \<Rightarrow> nat \<Rightarrow> nat \<Rightarrow> InFlightStore \<Rightarrow> sql_error + (bool \<times> InFlightStore)" where
  "inflight_try h k ttl now s =
     (case tryAcquire k h now (Some ttl) None s of
        Inl e \<Rightarrow> Inl e
      | Inr (res, s') \<Rightarrow> Inr (if_acquired res, s'))"

lemma inflight_try_spec:
  assumes "inflight_inv s" "now + ttl < iso_max"
  obtains s' r where "inflight_try h k ttl now s = Inr (\<not> inflight_held k now s, s')" "inflight_inv s'"
    "inflight_find s' = (if inflight_held k now s then inflight_find s else (inflight_find s)(k \<mapsto> r))"
    "if_expires_at r = toISOString (now + ttl)"
proof -
  have b: "now + orElse (Some ttl) (if_ttlMs s) < iso_max" using assms(2) by simp
  have eq: "inflight_blocked k now None s = inflight_held k now s"
    using assms(2) by (auto simp: inflight_blocked_def inflight_held_find [OF assms(1)] split: option.splits)
  show ?thesis
    by (rule tryAcquire_spec [OF assms(1) b, where h = h and ticket = k and u = None])
       (auto intro!: that simp: inflight_try_def eq)
qed

lemma inflight_try_held:
  assumes "inflight_inv s" "now + ttl < iso_max" "inflight_try h k ttl now s = Inr (g, s')"
  shows "inflight_held k' t s' =
     (if g \<and> k' = k then t < iso_max \<and> t < now + ttl else inflight_held k' t s)"
proof -
  obtain s'' r where s'': "inflight_try h k ttl now s = Inr (\<not> inflight_held k now s, s'')" "inflight_inv s''"
      "inflight_find s'' = (if inflight_held k now s then inflight_find s else (inflight_find s)(k \<mapsto> r))"
      "if_expires_at r = toISOString (now + ttl)"
    using inflight_try_spec [OF assms(1,2)] by blast
  then have "s' = s''" "g = (\<not> inflight_held k now s)" using assms(3) by simp_all
  then show ?thesis
    using s''(2-4) assms(1,2) by (auto simp: inflight_held_find)
qed

interpretation inflight: lease_interface
  inflight_held inflight_try
  "\<lambda>k s. snd (inflight_release k None s)"
  "\<lambda>now s. snd (inflight_pruneExpired now s)"
  inflight_inv
proof (unfold_locales, goal_cases)
  case (1 s now ttl w k)
  then show ?case by (rule inflight_try_spec) blast
next
  case (2 s now ttl t w k s')
  then show ?case using inflight_try_held [OF 2(1,2,4), of k t] by simp
next
  case (3 s now ttl w k s' k' t)
  then show ?case using inflight_try_held [OF 3, of k' t] by simp
next
  case (4 s now ttl k' k w g s' t)
  then show ?case using inflight_try_held [OF 4(1,2,4), of k' t] by simp
next
  case (5 s t' t k)
  then show ?case by (auto simp: inflight_held_find)
next
  case (6 s now)
  then show ?case by (simp add: inflight_pruneExpired_def Let_def inflight_del)
next
  case (7 s now t k)
  then show ?case
    using inflight_del [OF 7(1)] inflight_find_stamped [OF 7(1), of k]
    by (auto simp: inflight_pruneExpired_def Let_def inflight_held_find split: option.splits)
next
  case (8 s k)
  then show ?case by (simp add: inflight_release_def Let_def inflight_del)
next
  case (9 s k' t k)
  then show ?case
    using inflight_del [OF 9] inflight_find_stamped [OF 9, of k']
    by (auto simp: inflight_release_def Let_def inflight_held_find split: option.splits)
qed

subsection \<open>The pattern of releaseForAgent\<close>

lemma like_percent: "like ''%'' s"
  by (induction s) (simp_all add: like.simps(2))

lemma ascii_lower_id:
  "ascii_lower backslash = backslash" "ascii_lower (CHR ''%'') = CHR ''%''" "ascii_lower (CHR ''_'') = CHR ''_''"
  by (simp_all add: ascii_lower_def backslash_def)

lemma backslash_other: "backslash \<noteq> CHR ''%''" "backslash \<noteq> CHR ''_''"
  by (simp_all add: backslash_def)

lemma like_escaped:
  "like (escapeLike a @ p) s =
     (map ascii_lower (take (length a) s) = map ascii_lower a \<and> length a \<le> length s \<and> like p (drop (length a) s))"
proof (induction a arbitrary: s)
  case (Cons c a)
  show ?case
  proof (cases s)
    case Nil
    then show ?thesis using backslash_other by (auto simp: like.simps(2))
  next
    case (Cons d s')
    then show ?thesis using Cons.IH [of s'] backslash_other
      by (auto simp: like.simps(2) [of c] like.simps(2) [of backslash])
  qed
qed simp

subsection \<open>Properties\<close>

definition empty_inflight :: "nat \<Rightarrow> InFlightStore" where
  "empty_inflight ttl = inflight_open [] (Some (int ttl)) None"

lemma inflight_inv_empty: "inflight_inv (empty_inflight ttl)"
  by (simp add: inflight_inv_def empty_inflight_def inflight_open_def)

text \<open>
  At most one run per ticket: in any schedule of acquisitions by any holders for any
  tickets inside one window of the time to live, a ticket is granted at most once, whoever
  asks.
\<close>

theorem one_worker_per_ticket:
  assumes "inflight_inv s"
    and "\<forall>(holder, ticket, now) \<in> set attempts. a \<le> now \<and> now < a + ttl \<and> now + ttl < iso_max"
  shows "count_list (grants inflight_try ttl s attempts) ticket \<le> 1"
  by (rule inflight.window_exclusive [OF assms])

theorem one_worker_per_ticket_witness:
  "count_list (grants inflight_try 900000 (empty_inflight 900000)
     [(''ada:s1'', ''linear-INF-400'', 10), (''bob:s2'', ''linear-INF-400'', 20)]) ''linear-INF-400'' \<le> 1"
  by (rule one_worker_per_ticket [OF inflight_inv_empty, of _ 0]) (simp add: iso_max_def)

text \<open>
  A refused duplicate cannot free the ticket: when \<open>tryAcquire\<close> refuses a holder, a
  release scoped to that holder deletes nothing, unless it names the holder of the record.
\<close>

theorem refused_duplicate_cannot_release:
  assumes "inflight_inv s" and "now + orElse ttl (if_ttlMs s) < iso_max"
    and "tryAcquire ticket h now ttl u s = Inr (res, s')" and "\<not> if_acquired res"
  shows "\<exists>row. if_existing res = Some row \<and> inflight_find s' ticket = Some row \<and>
    (holder row \<noteq> h \<longrightarrow> inflight_release ticket (Some h) s' = (False, s'))"
proof -
  obtain res' s'' where eq: "tryAcquire ticket h now ttl u s = Inr (res', s'')" "inflight_inv s''"
      "if_acquired res' = (\<not> inflight_blocked ticket now u s)"
      "if_existing res' = (if inflight_blocked ticket now u s then inflight_find s ticket else None)"
      "inflight_find s'' ticket = (if inflight_blocked ticket now u s then inflight_find s ticket
         else inflight_find s'' ticket)"
    by (rule tryAcquire_spec [OF assms(1,2), where h = h and ticket = ticket and u = u]) auto
  then have same: "s' = s''" "res = res'" using assms(3) by simp_all
  then have blocked: "inflight_blocked ticket now u s" using assms(4) eq(3) by simp
  then obtain row where row: "inflight_find s ticket = Some row"
    by (auto simp: inflight_blocked_def split: option.splits)
  have only: "r = row" if "r \<in> set (dispatch_inflight s')" "if_ticket_key r = ticket" for r
    using eq(2,5) blocked row that same sel_one_key [of if_ticket_key "dispatch_inflight s'" r]
    by (simp add: inflight_inv_def inflight_find_def)
  have "inflight_release ticket (Some h) s' = (False, s')" if "holder row \<noteq> h"
  proof -
    let ?c = "\<lambda>r. if_ticket_key r = ticket \<and> holder r = h"
    have "\<forall>r \<in> set (dispatch_inflight s'). \<not> ?c r" using only that by blast
    then have "changes ?c (dispatch_inflight s') = 0" "del_where ?c (dispatch_inflight s') = dispatch_inflight s'"
      by (auto simp: changes_0 del_where_def intro!: filter_True)
    then show ?thesis by (simp add: inflight_release_def)
  qed
  then show ?thesis using eq same blocked row by auto
qed

theorem refused_duplicate_cannot_release_witness:
  "\<exists>res s' row. tryAcquire ''T'' ''bob:2'' 20 None None
      (snd (projr (tryAcquire ''T'' ''ada:1'' 10 None None (empty_inflight 900000)))) = Inr (res, s') \<and>
     if_existing res = Some row \<and> inflight_find s' ''T'' = Some row \<and>
     (holder row \<noteq> ''bob:2'' \<longrightarrow> inflight_release ''T'' (Some ''bob:2'') s' = (False, s'))"
proof -
  let ?s0 = "empty_inflight 900000"
  have ttl: "if_ttlMs ?s0 = 900000"
    by (simp add: empty_inflight_def inflight_open_def inflight_resolveTtl_def MAX_INFLIGHT_TTL_MS_def)
  have find0: "inflight_find ?s0 = (\<lambda>_. None)"
    by (simp add: inflight_find_def empty_inflight_def inflight_open_def fun_eq_iff)
  obtain r1 s1 where 1: "tryAcquire ''T'' ''ada:1'' 10 None None ?s0 = Inr (r1, s1)" "inflight_inv s1"
      "inflight_find s1 ''T'' = Some \<lparr>if_ticket_key = ''T'', holder = ''ada:1'', if_acquired_at = toISOString 10,
         if_expires_at = toISOString 900010, if_ticket_updated_at = toISOString 10\<rparr>"
    by (rule tryAcquire_spec [OF inflight_inv_empty, of 10 None 900000 "''T''" "''ada:1''" None])
       (auto simp: ttl find0 inflight_blocked_def iso_max_def)
  have ttl1: "if_ttlMs s1 = 900000"
    using 1(1) ttl by (auto simp: tryAcquire_def inflight_insert_def Let_def split: option.splits if_splits)
  obtain r2 s2 where 2: "tryAcquire ''T'' ''bob:2'' 20 None None s1 = Inr (r2, s2)" "\<not> if_acquired r2"
    by (rule tryAcquire_spec [OF 1(2), of 20 None "''T''" "''bob:2''" None])
       (auto simp: ttl1 1(3) inflight_blocked_def iso_max_def)
  have "20 + orElse None (if_ttlMs s1) < iso_max" by (simp add: ttl1 iso_max_def)
  from refused_duplicate_cannot_release [OF 1(2) this 2] 1(1) 2(1) show ?thesis by auto
qed

text \<open>The holders that \<open>releaseForAgent\<close> is to match: the agent, a colon, anything.\<close>

definition held_by :: "string \<Rightarrow> string \<Rightarrow> bool" where
  "held_by a h \<longleftrightarrow> length a < length h \<and> map ascii_lower (take (length a) h) = map ascii_lower a \<and>
     h ! length a = CHR '':''"

lemma ascii_lower_colon: "(CHR '':'' = ascii_lower c) = (c = CHR '':'')"
proof -
  have "c = CHR '':''" if a: "ascii_lower c = CHR '':''"
  proof (rule ccontr)
    assume "c \<noteq> CHR '':''"
    with a have b: "65 \<le> (of_char c :: nat)" "of_char c \<le> (90 :: nat)" "char_of ((of_char c :: nat) + 32) = CHR '':''"
      by (auto simp: ascii_lower_def Let_def split: if_splits)
    then have "of_char (char_of ((of_char c :: nat) + 32) :: char) = (58 :: nat)" by simp
    then have "(of_char c + 32) mod 256 = (58 :: nat)" by (simp only: of_char_of)
    with b(1,2) show False by simp
  qed
  moreover have "ascii_lower (CHR '':'') = CHR '':''" by (simp add: ascii_lower_def)
  ultimately show ?thesis by metis
qed

lemma like_colon: "like '':%'' t \<longleftrightarrow> t \<noteq> [] \<and> hd t = CHR '':''"
proof -
  have "ascii_lower (CHR '':'') = CHR '':''" "CHR '':'' \<noteq> backslash"
    by (simp_all add: ascii_lower_def backslash_def)
  then show ?thesis by (simp add: like.simps(2) [of "CHR '':''"] like_percent ascii_lower_colon)
qed

lemma like_held_by: "like (escapeLike a @ '':%'') h = held_by a h"
  by (auto simp: like_escaped like_colon held_by_def hd_drop_conv_nth)

text \<open>
  \<open>releaseForAgent\<close> frees exactly the records whose holder starts with the agent and a
  colon, whatever wildcards the agent's name holds, up to the case of ASCII letters: SQLite's
  \<open>LIKE\<close> does not tell \<open>ada\<close> from \<open>ADA\<close>. It reports how many it freed.
\<close>

theorem releaseForAgent_exact:
  "dispatch_inflight (snd (releaseForAgent a s)) = filter (\<lambda>r. \<not> held_by a (holder r)) (dispatch_inflight s)
   \<and> fst (releaseForAgent a s) = length (filter (\<lambda>r. held_by a (holder r)) (dispatch_inflight s))"
  by (simp add: releaseForAgent_def Let_def del_where_def changes_def like_held_by)

lemma held_by_other_case: "held_by ''ada'' ''ADA:s1''"
  by code_simp

end
