(* ===== verification/DispatchIdempotency.thy ===== *)
theory DispatchIdempotency
  imports SqlTable
begin

text \<open>
  \<open>src/store/dispatch-idempotency-store.ts\<close>: the durable store that drops stale and
  duplicate dispatches, one row per (ticket, workflow state, agent). \<open>checkAndRecord\<close>
  is the whole transaction, branch by branch.
\<close>

subsection \<open>Rows and state\<close>

definition DEFAULT_DEDUP_TTL_MS :: nat where
  "DEFAULT_DEDUP_TTL_MS = 6 * 60 * 60 * 1000"

record IdempotencyRecord =
  ir_ticketKey :: string
  ir_workflowState :: string
  ir_agent :: string
  ir_updatedAt :: string
  ir_createdAt :: string

record IdempotencyCheckResult =
  ic_suppressed :: bool
  ic_stale :: bool
  ic_ttlExpired :: bool
  ic_clearedRows :: "nat option"
  ic_reclaimedDeadOwner :: bool
  ic_respawned :: bool

record IdempotencyCounters =
  suppressedDuplicates :: nat
  droppedStale :: nat
  delegateChangeCleared :: nat
  ttlExpiredAdmits :: nat

record OwnerEvidence =
  oe_status :: "string option"
  oe_toolCallCount :: "int option"

record IdempotencyOptions =
  io_delegateChanged :: bool
  io_existingOwnerEvidence :: "OwnerEvidence option"

record IdempotencyStore =
  dispatch_idempotency :: "IdempotencyRecord list"
  dedupTtlMs :: nat
  id_counters :: IdempotencyCounters

definition ir_key :: "IdempotencyRecord \<Rightarrow> string \<times> string \<times> string" where
  "ir_key r = (ir_ticketKey r, ir_workflowState r, ir_agent r)"

definition idempotency_envTtlMs :: "string option \<Rightarrow> nat" where
  "idempotency_envTtlMs raw =
     (if truthy raw then
        (case parseInt (orElse raw []) of
           Some n \<Rightarrow> if 0 < n then nat n else DEFAULT_DEDUP_TTL_MS
         | None \<Rightarrow> DEFAULT_DEDUP_TTL_MS)
      else DEFAULT_DEDUP_TTL_MS)"

definition idempotency_open :: "IdempotencyRecord list \<Rightarrow> nat option \<Rightarrow> string option \<Rightarrow> IdempotencyStore" where
  "idempotency_open rows ttl env =
     \<lparr>dispatch_idempotency = rows, dedupTtlMs = orElse ttl (idempotency_envTtlMs env),
      id_counters = \<lparr>suppressedDuplicates = 0, droppedStale = 0, delegateChangeCleared = 0,
                     ttlExpiredAdmits = 0\<rparr>\<rparr>"

subsection \<open>Operations\<close>

definition hasDeadZeroCallOwner :: "IdempotencyOptions \<Rightarrow> bool" where
  "hasDeadZeroCallOwner opts =
     (case io_existingOwnerEvidence opts of
        None \<Rightarrow> False
      | Some ev \<Rightarrow>
          oe_toolCallCount ev = Some 0 \<and>
          map ascii_lower (orElse (oe_status ev) []) \<in>
            {''ended'', ''dead'', ''failed'', ''closed'', ''terminal''})"

definition admit_result :: IdempotencyCheckResult where
  "admit_result = \<lparr>ic_suppressed = False, ic_stale = False, ic_ttlExpired = False,
     ic_clearedRows = None, ic_reclaimedDeadOwner = False, ic_respawned = False\<rparr>"

definition drop_stale :: "IdempotencyStore \<Rightarrow> IdempotencyCheckResult \<times> IdempotencyStore" where
  "drop_stale s = (admit_result\<lparr>ic_stale := True\<rparr>,
     s\<lparr>id_counters := (id_counters s)\<lparr>droppedStale := droppedStale (id_counters s) + 1\<rparr>\<rparr>)"

definition suppress_dup :: "IdempotencyStore \<Rightarrow> IdempotencyCheckResult \<times> IdempotencyStore" where
  "suppress_dup s = (admit_result\<lparr>ic_suppressed := True\<rparr>,
     s\<lparr>id_counters := (id_counters s)\<lparr>suppressedDuplicates := suppressedDuplicates (id_counters s) + 1\<rparr>\<rparr>)"

definition created_secs :: "string \<Rightarrow> int option" where
  "created_secs s = map_option (\<lambda>t. t div 1000) (getTime s)"

definition check_delegate_change ::
  "string \<Rightarrow> string \<Rightarrow> string \<Rightarrow> string \<Rightarrow> nat \<Rightarrow> IdempotencyStore \<Rightarrow>
   sql_error + (IdempotencyCheckResult \<times> IdempotencyStore)" where
  "check_delegate_change ticket st agent updatedAt now s =
     (let mine = (\<lambda>r. ir_ticketKey r = ticket \<and> ir_agent r = agent);
          latest = sql_max (map ir_updatedAt (sel_all mine (dispatch_idempotency s)));
          incoming = getTime updatedAt
      in if truthy latest \<and> num_less incoming (getTime (orElse latest [])) then Inr (drop_stale s)
         else if truthy latest \<and> num_eq incoming (getTime (orElse latest [])) then Inr (suppress_dup s)
         else
           (let n = changes mine (dispatch_idempotency s);
                c = id_counters s;
                c' = (if 0 < n then c\<lparr>delegateChangeCleared := delegateChangeCleared c + n\<rparr> else c)
            in case sql_insert ir_key
                 \<lparr>ir_ticketKey = ticket, ir_workflowState = st, ir_agent = agent,
                  ir_updatedAt = updatedAt, ir_createdAt = toISOString now\<rparr>
                 (del_where mine (dispatch_idempotency s)) of
                 None \<Rightarrow> Inl UniqueViolation
               | Some rows \<Rightarrow> Inr (admit_result\<lparr>ic_clearedRows := Some n\<rparr>,
                                  s\<lparr>dispatch_idempotency := rows, id_counters := c'\<rparr>)))"

text \<open>The fresh admission at the end of the transaction; \<open>expired\<close> rows were dropped by age.\<close>

definition admit_fresh ::
  "nat \<Rightarrow> IdempotencyRecord \<Rightarrow> IdempotencyStore \<Rightarrow> IdempotencyCheckResult \<times> IdempotencyStore" where
  "admit_fresh expired new s =
     (let replaced = s\<lparr>dispatch_idempotency := sql_replace ir_key new (dispatch_idempotency s)\<rparr>;
          c = id_counters s
      in if 0 < expired
         then (admit_result\<lparr>ic_ttlExpired := True\<rparr>,
               replaced\<lparr>id_counters := c\<lparr>ttlExpiredAdmits := ttlExpiredAdmits c + 1\<rparr>\<rparr>)
         else (admit_result, replaced))"

definition reclaim_dead_owner ::
  "IdempotencyRecord \<Rightarrow> IdempotencyStore \<Rightarrow> IdempotencyCheckResult \<times> IdempotencyStore" where
  "reclaim_dead_owner new s =
     (admit_result\<lparr>ic_reclaimedDeadOwner := True, ic_respawned := True\<rparr>,
      s\<lparr>dispatch_idempotency := sql_replace ir_key new (dispatch_idempotency s)\<rparr>)"

definition checkAndRecord ::
  "string \<Rightarrow> string \<Rightarrow> string \<Rightarrow> string \<Rightarrow> nat \<Rightarrow> IdempotencyOptions \<Rightarrow> IdempotencyStore \<Rightarrow>
   sql_error + (IdempotencyCheckResult \<times> IdempotencyStore)" where
  "checkAndRecord ticket st agent updatedAt now opts s =
     (if io_delegateChanged opts then check_delegate_change ticket st agent updatedAt now s
      else
        let incoming = getTime updatedAt;
            latest = sql_max (map ir_updatedAt (sel_all (\<lambda>r. ir_ticketKey r = ticket) (dispatch_idempotency s)))
        in if truthy latest \<and> num_less incoming (getTime (orElse latest [])) then Inr (drop_stale s)
        else
          let cutoff = (int now - int (dedupTtlMs s)) div 1000;
              old = (\<lambda>r. ir_key r = (ticket, st, agent) \<and> num_less (created_secs (ir_createdAt r)) (Some cutoff));
              expired = changes old (dispatch_idempotency s);
              rows = del_where old (dispatch_idempotency s);
              s1 = s\<lparr>dispatch_idempotency := rows\<rparr>;
              new = \<lparr>ir_ticketKey = ticket, ir_workflowState = st, ir_agent = agent,
                     ir_updatedAt = updatedAt, ir_createdAt = toISOString now\<rparr>
          in case sel_one (\<lambda>r. ir_key r = (ticket, st, agent)) rows of
               Some row \<Rightarrow>
                 if num_less incoming (getTime (ir_updatedAt row)) then Inr (drop_stale s1)
                 else if num_eq incoming (getTime (ir_updatedAt row)) then
                   (if hasDeadZeroCallOwner opts
                    then Inr (reclaim_dead_owner new s1)
                    else Inr (suppress_dup s1))
                 else Inr (admit_fresh expired new s1)
             | None \<Rightarrow> Inr (admit_fresh expired new s1))"

definition clearAgentRows :: "string \<Rightarrow> string \<Rightarrow> IdempotencyStore \<Rightarrow> nat \<times> IdempotencyStore" where
  "clearAgentRows ticket agent s =
     (let mine = (\<lambda>r. ir_ticketKey r = ticket \<and> ir_agent r = agent)
      in (changes mine (dispatch_idempotency s),
          s\<lparr>dispatch_idempotency := del_where mine (dispatch_idempotency s)\<rparr>))"

subsection \<open>Invariant\<close>

definition idem_inv :: "IdempotencyStore \<Rightarrow> bool" where
  "idem_inv s \<longleftrightarrow> key_ok ir_key (dispatch_idempotency s) \<and>
     (\<forall>r \<in> set (dispatch_idempotency s). stamped (ir_updatedAt r) \<and> stamped (ir_createdAt r))"

text \<open>No ticket's latest snapshot moves backwards from one state to the next.\<close>

definition keeps_latest :: "IdempotencyRecord list \<Rightarrow> IdempotencyRecord list \<Rightarrow> bool" where
  "keeps_latest rows rows' \<longleftrightarrow>
     (\<forall>r \<in> set rows. \<exists>r' \<in> set rows'. ir_ticketKey r' = ir_ticketKey r \<and> ir_updatedAt r \<le> ir_updatedAt r')"

lemma keeps_latest_refl [simp]: "keeps_latest rows rows"
  by (auto simp: keeps_latest_def)

lemma keeps_latestI:
  assumes "new \<in> set rows'" "\<And>r. r \<in> set rows \<Longrightarrow> r \<in> set rows' \<or>
      ir_ticketKey r = ir_ticketKey new \<and> ir_updatedAt r \<le> ir_updatedAt new"
  shows "keeps_latest rows rows'"
  using assms unfolding keeps_latest_def by (metis order_refl)

lemma latest_max:
  "sql_max (map f (sel_all P rows)) = Some m \<Longrightarrow>
   m \<in> f ` {r \<in> set rows. P r} \<and> (\<forall>r \<in> set rows. P r \<longrightarrow> f r \<le> m)"
  by (drule sql_max_SomeD) (auto simp: sel_all_def)

lemma latest_stale:
  assumes "\<forall>r \<in> set rows. stamped (ir_updatedAt r)" "stamped u"
    and "L = sql_max (map ir_updatedAt (sel_all P rows))"
  shows "truthy L \<and> num_less (getTime u) (getTime (orElse L [])) \<longleftrightarrow> (\<exists>r \<in> set rows. P r \<and> u < ir_updatedAt r)"
proof (cases L)
  case None
  then have "sel_all P rows = []" using assms(3) by simp
  then show ?thesis using None by (auto simp: truthy_def sel_all_def filter_empty_conv)
next
  case (Some m)
  then have m: "m \<in> ir_updatedAt ` {r \<in> set rows. P r}" "\<forall>r \<in> set rows. P r \<longrightarrow> ir_updatedAt r \<le> m"
    using latest_max [of ir_updatedAt P rows m] assms(3) by simp_all
  then have "stamped m" using assms(1) by auto
  then have "truthy L \<and> num_less (getTime u) (getTime (orElse L [])) \<longleftrightarrow> u < m"
    using assms(2) by (simp add: Some truthy_def)
  then show ?thesis using m by fastforce
qed

lemma latest_dup:
  assumes "\<forall>r \<in> set rows. stamped (ir_updatedAt r)" "stamped u"
    and "L = sql_max (map ir_updatedAt (sel_all P rows))" "\<forall>r \<in> set rows. P r \<longrightarrow> ir_updatedAt r \<le> u"
  shows "truthy L \<and> num_eq (getTime u) (getTime (orElse L [])) \<longleftrightarrow> (\<exists>r \<in> set rows. P r \<and> ir_updatedAt r = u)"
proof (cases L)
  case None
  then have "sel_all P rows = []" using assms(3) by simp
  then show ?thesis using None by (auto simp: truthy_def sel_all_def filter_empty_conv)
next
  case (Some m)
  then have m: "m \<in> ir_updatedAt ` {r \<in> set rows. P r}" "\<forall>r \<in> set rows. P r \<longrightarrow> ir_updatedAt r \<le> m"
    using latest_max [of ir_updatedAt P rows m] assms(3) by simp_all
  then have "stamped m" using assms(1) by auto
  then have "truthy L \<and> num_eq (getTime u) (getTime (orElse L [])) \<longleftrightarrow> u = m"
    using assms(2) by (simp add: Some truthy_def)
  then show ?thesis using m assms(4) by force
qed

text \<open>The outcomes of one call, as cases over the rows before and after.\<close>

definition admitted :: "IdempotencyCheckResult \<Rightarrow> bool" where
  "admitted r \<longleftrightarrow> \<not> ic_suppressed r \<and> \<not> ic_stale r"

lemma result_simps [simp]:
  "fst (drop_stale s) = admit_result\<lparr>ic_stale := True\<rparr>"
  "fst (suppress_dup s) = admit_result\<lparr>ic_suppressed := True\<rparr>"
  "dispatch_idempotency (snd (drop_stale s)) = dispatch_idempotency s"
  "dispatch_idempotency (snd (suppress_dup s)) = dispatch_idempotency s"
  "dedupTtlMs (snd (drop_stale s)) = dedupTtlMs s" "dedupTtlMs (snd (suppress_dup s)) = dedupTtlMs s"
  "ic_stale admit_result = False" "ic_suppressed admit_result = False"
  by (simp_all add: drop_stale_def suppress_dup_def admit_result_def)

lemma admit_simps [simp]:
  "ic_stale (fst (admit_fresh n new s)) = False" "ic_suppressed (fst (admit_fresh n new s)) = False"
  "dispatch_idempotency (snd (admit_fresh n new s)) = sql_replace ir_key new (dispatch_idempotency s)"
  "dedupTtlMs (snd (admit_fresh n new s)) = dedupTtlMs s"
  "ic_stale (fst (reclaim_dead_owner new s)) = False" "ic_suppressed (fst (reclaim_dead_owner new s)) = False"
  "dispatch_idempotency (snd (reclaim_dead_owner new s)) = sql_replace ir_key new (dispatch_idempotency s)"
  "dedupTtlMs (snd (reclaim_dead_owner new s)) = dedupTtlMs s"
  by (simp_all add: admit_fresh_def reclaim_dead_owner_def Let_def admit_result_def)

lemma delegate_change_spec:
  assumes inv: "idem_inv s" and u: "stamped u" and now: "now < iso_max"
  obtains r s' where "check_delegate_change t st a u now s = Inr (r, s')"
    "ic_stale r \<longleftrightarrow> (\<exists>x \<in> set (dispatch_idempotency s). ir_ticketKey x = t \<and> ir_agent x = a \<and> u < ir_updatedAt x)"
    "ic_suppressed r \<longleftrightarrow> \<not> ic_stale r \<and>
       (\<exists>x \<in> set (dispatch_idempotency s). ir_ticketKey x = t \<and> ir_agent x = a \<and> ir_updatedAt x = u)"
    "dispatch_idempotency s' =
       (if admitted r then del_where (\<lambda>x. ir_ticketKey x = t \<and> ir_agent x = a) (dispatch_idempotency s) @
          [\<lparr>ir_ticketKey = t, ir_workflowState = st, ir_agent = a, ir_updatedAt = u, ir_createdAt = toISOString now\<rparr>]
        else dispatch_idempotency s)"
    "dedupTtlMs s' = dedupTtlMs s"
proof -
  let ?mine = "\<lambda>x. ir_ticketKey x = t \<and> ir_agent x = a"
  define L where "L = sql_max (map ir_updatedAt (sel_all ?mine (dispatch_idempotency s)))"
  define rows where "rows = dispatch_idempotency s"
  define new where "new = \<lparr>ir_ticketKey = t, ir_workflowState = st, ir_agent = a, ir_updatedAt = u,
      ir_createdAt = toISOString now\<rparr>"
  have st: "\<forall>r \<in> set rows. stamped (ir_updatedAt r)" using inv by (simp add: idem_inv_def rows_def)
  note stale_iff = latest_stale [OF st u L_def [folded rows_def]]
  have ins: "sql_insert ir_key new (del_where ?mine rows) = Some (del_where ?mine rows @ [new])"
    by (rule insert_ok) (auto simp: new_def ir_key_def)
  consider (stale) "\<exists>x \<in> set rows. ?mine x \<and> u < ir_updatedAt x"
    | (dup) "\<forall>x \<in> set rows. ?mine x \<longrightarrow> ir_updatedAt x \<le> u" "\<exists>x \<in> set rows. ?mine x \<and> ir_updatedAt x = u"
    | (new) "\<forall>x \<in> set rows. ?mine x \<longrightarrow> ir_updatedAt x \<le> u" "\<not> (\<exists>x \<in> set rows. ?mine x \<and> ir_updatedAt x = u)"
    by (metis not_le)
  then show ?thesis
  proof cases
    case stale
    then have "check_delegate_change t st a u now s = Inr (drop_stale s)"
      using stale_iff unfolding check_delegate_change_def Let_def L_def [symmetric] by simp
    then show ?thesis using stale
      by (intro that [of "fst (drop_stale s)" "snd (drop_stale s)"]) (auto simp: rows_def admitted_def prod_eq_iff)
  next
    case dup
    note dup' = latest_dup [OF st u L_def [folded rows_def] dup(1)]
    have no: "\<not> (\<exists>x \<in> set rows. ?mine x \<and> u < ir_updatedAt x)" using dup(1) by (metis not_le)
    then have "check_delegate_change t st a u now s = Inr (suppress_dup s)"
      using stale_iff dup' dup(2) no
      unfolding check_delegate_change_def Let_def L_def [symmetric] by (simp only: if_False if_True)
    then show ?thesis using dup
      by (intro that [of "fst (suppress_dup s)" "snd (suppress_dup s)"]) (auto simp: rows_def admitted_def not_less prod_eq_iff)
  next
    case new
    note dup' = latest_dup [OF st u L_def [folded rows_def] new(1)]
    have no: "\<not> (\<exists>x \<in> set rows. ?mine x \<and> u < ir_updatedAt x)" using new(1) by (metis not_le)
    have f1: "(truthy L \<and> num_less (getTime u) (getTime (orElse L []))) = False"
      and f2: "(truthy L \<and> num_eq (getTime u) (getTime (orElse L []))) = False"
      using stale_iff dup' new(2) no by simp_all
    let ?n = "changes ?mine (dispatch_idempotency s)"
    let ?c = "id_counters s"
    have "check_delegate_change t st a u now s = Inr (admit_result\<lparr>ic_clearedRows := Some ?n\<rparr>,
        s\<lparr>dispatch_idempotency := del_where ?mine rows @ [new],
          id_counters := if 0 < ?n then ?c\<lparr>delegateChangeCleared := delegateChangeCleared ?c + ?n\<rparr> else ?c\<rparr>)"
      using ins unfolding check_delegate_change_def Let_def L_def [symmetric] f1 f2 rows_def new_def by simp
    from this show ?thesis
      by (rule that) (use new no in \<open>auto simp: rows_def admitted_def new_def admit_result_def\<close>)
  qed
qed

text \<open>
  A dispatch with no change of delegate. \<open>live\<close> are the rows left after the time-to-live
  deletion of the row with the same key.
\<close>

definition ttl_old :: "string \<Rightarrow> string \<Rightarrow> string \<Rightarrow> nat \<Rightarrow> IdempotencyStore \<Rightarrow> IdempotencyRecord \<Rightarrow> bool" where
  "ttl_old t st a now s r \<longleftrightarrow> ir_key r = (t, st, a) \<and>
     num_less (created_secs (ir_createdAt r)) (Some ((int now - int (dedupTtlMs s)) div 1000))"

lemma Inr_pair: "x = Inr p \<Longrightarrow> x = Inr (fst p, snd p)"
  by simp

lemma plain_spec:
  assumes inv: "idem_inv s" and u: "stamped u" and now: "now < iso_max" and plain: "\<not> io_delegateChanged opts"
  obtains r s' where "checkAndRecord t st a u now opts s = Inr (r, s')"
    "ic_stale r \<longleftrightarrow> (\<exists>x \<in> set (dispatch_idempotency s). ir_ticketKey x = t \<and> u < ir_updatedAt x)"
    "ic_suppressed r \<longleftrightarrow> \<not> ic_stale r \<and> \<not> hasDeadZeroCallOwner opts \<and>
       (\<exists>x \<in> set (dispatch_idempotency s). ir_key x = (t, st, a) \<and> ir_updatedAt x = u \<and> \<not> ttl_old t st a now s x)"
    "dispatch_idempotency s' =
       (if ic_stale r then dispatch_idempotency s
        else if ic_suppressed r then del_where (ttl_old t st a now s) (dispatch_idempotency s)
        else sql_replace ir_key
          \<lparr>ir_ticketKey = t, ir_workflowState = st, ir_agent = a, ir_updatedAt = u, ir_createdAt = toISOString now\<rparr>
          (del_where (ttl_old t st a now s) (dispatch_idempotency s)))"
    "dedupTtlMs s' = dedupTtlMs s"
proof -
  define rows where "rows = dispatch_idempotency s"
  define live where "live = del_where (ttl_old t st a now s) rows"
  define L where "L = sql_max (map ir_updatedAt (sel_all (\<lambda>r. ir_ticketKey r = t) rows))"
  have st: "\<forall>r \<in> set rows. stamped (ir_updatedAt r)" using inv by (simp add: idem_inv_def rows_def)
  have ok: "key_ok ir_key live" using inv by (simp add: idem_inv_def live_def rows_def)
  note stale_iff = latest_stale [OF st u L_def]
  have old: "ttl_old t st a now s = (\<lambda>r. ir_key r = (t, st, a) \<and>
      num_less (created_secs (ir_createdAt r)) (Some ((int now - int (dedupTtlMs s)) div 1000)))"
    by (simp add: fun_eq_iff ttl_old_def)
  note unf = checkAndRecord_def Let_def L_def [symmetric] old [symmetric]
    rows_def [symmetric] live_def [symmetric]
  show ?thesis
  proof (cases "\<exists>r \<in> set rows. ir_ticketKey r = t \<and> u < ir_updatedAt r")
    case True
    then have "checkAndRecord t st a u now opts s = Inr (drop_stale s)"
      using stale_iff plain unfolding unf by simp
    from Inr_pair [OF this] show ?thesis
      by (rule that) (use True in \<open>auto simp: rows_def\<close>)
  next
    case False
    have f: "(truthy L \<and> num_less (getTime u) (getTime (orElse L []))) = False" using stale_iff False by simp
    have notless: "\<not> num_less (getTime u) (getTime (ir_updatedAt x))" if "sel_one (\<lambda>r. ir_key r = (t, st, a)) live = Some x" for x
    proof -
      have "x \<in> set rows" "ir_ticketKey x = t" using sel_one_SomeD [OF that] by (auto simp: live_def ir_key_def)
      then show ?thesis using False st u by auto
    qed
    have eq: "num_eq (getTime u) (getTime (ir_updatedAt x)) = (u = ir_updatedAt x)"
      if "sel_one (\<lambda>r. ir_key r = (t, st, a)) live = Some x" for x
      using sel_one_SomeD [OF that] st u by (auto simp: live_def)
    have dup_iff: "(\<exists>x \<in> set rows. ir_key x = (t, st, a) \<and> ir_updatedAt x = u \<and> \<not> ttl_old t st a now s x) \<longleftrightarrow>
        (\<exists>x. sel_one (\<lambda>r. ir_key r = (t, st, a)) live = Some x \<and> u = ir_updatedAt x)"
      unfolding sel_one_key_iff [OF ok] by (auto simp: live_def)
    define new where "new = \<lparr>ir_ticketKey = t, ir_workflowState = st, ir_agent = a,
        ir_updatedAt = u, ir_createdAt = toISOString now\<rparr>"
    define n where "n = changes (ttl_old t st a now s) rows"
    define s1 where "s1 = s\<lparr>dispatch_idempotency := live\<rparr>"
    have s1: "dispatch_idempotency s1 = live" "dedupTtlMs s1 = dedupTtlMs s" by (simp_all add: s1_def)
    note unf' = unf new_def [symmetric] n_def [symmetric] s1_def [symmetric]
    consider (none) "sel_one (\<lambda>r. ir_key r = (t, st, a)) live = None"
      | (dup) x where "sel_one (\<lambda>r. ir_key r = (t, st, a)) live = Some x" "u = ir_updatedAt x" "\<not> hasDeadZeroCallOwner opts"
      | (dead) x where "sel_one (\<lambda>r. ir_key r = (t, st, a)) live = Some x" "u = ir_updatedAt x" "hasDeadZeroCallOwner opts"
      | (new) x where "sel_one (\<lambda>r. ir_key r = (t, st, a)) live = Some x" "u \<noteq> ir_updatedAt x"
      by blast
    then show ?thesis
    proof cases
      case none
      have "checkAndRecord t st a u now opts s = Inr (admit_fresh n new s1)"
        using plain unfolding unf' f none by simp
      from Inr_pair [OF this] show ?thesis
        by (rule that) (use False none dup_iff in \<open>auto simp: rows_def live_def s1 new_def\<close>)
    next
      case (dup x)
      have "checkAndRecord t st a u now opts s = Inr (suppress_dup s1)"
        using plain dup(3) notless [OF dup(1)] eq [OF dup(1)] dup(2) unfolding unf' f dup(1) by simp
      from Inr_pair [OF this] show ?thesis
        by (rule that) (use False dup dup_iff in \<open>auto simp: rows_def live_def s1\<close>)
    next
      case (dead x)
      have "checkAndRecord t st a u now opts s = Inr (reclaim_dead_owner new s1)"
        using plain dead(3) notless [OF dead(1)] eq [OF dead(1)] dead(2) unfolding unf' f dead(1) by simp
      from Inr_pair [OF this] show ?thesis
        by (rule that) (use False dead in \<open>auto simp: rows_def live_def s1 new_def\<close>)
    next
      case (new x)
      have "checkAndRecord t st a u now opts s = Inr (admit_fresh n new s1)"
        using plain notless [OF new(1)] eq [OF new(1)] new(2) unfolding unf' f new(1) by simp
      from Inr_pair [OF this] show ?thesis
        by (rule that) (use False new dup_iff in \<open>auto simp: rows_def live_def s1 new_def\<close>)
    qed
  qed
qed


subsection \<open>The high-water mark and replays\<close>

abbreviation id_row :: "string \<Rightarrow> string \<Rightarrow> string \<Rightarrow> string \<Rightarrow> nat \<Rightarrow> IdempotencyRecord" where
  "id_row t st a u now \<equiv> \<lparr>ir_ticketKey = t, ir_workflowState = st, ir_agent = a, ir_updatedAt = u,
     ir_createdAt = toISOString now\<rparr>"

lemma checkAndRecord_delegate: "io_delegateChanged opts \<Longrightarrow>
   checkAndRecord t st a u now opts s = check_delegate_change t st a u now s"
  by (simp add: checkAndRecord_def)

lemma delegate_keeps:
  assumes inv: "idem_inv s" and u: "stamped u" and now: "now < iso_max"
  shows "\<exists>r s'. check_delegate_change t st a u now s = Inr (r, s') \<and> idem_inv s' \<and>
    keeps_latest (dispatch_idempotency s) (dispatch_idempotency s') \<and> dedupTtlMs s' = dedupTtlMs s \<and>
    (admitted r \<longrightarrow> id_row t st a u now \<in> set (dispatch_idempotency s') \<and>
       (\<forall>x \<in> set (dispatch_idempotency s'). ir_ticketKey x = t \<and> ir_agent x = a \<longrightarrow> ir_updatedAt x = u))"
proof (rule delegate_change_spec [OF inv u now])
  fix r s'
  let ?mine = "\<lambda>x. ir_ticketKey x = t \<and> ir_agent x = a"
  assume run: "check_delegate_change t st a u now s = Inr (r, s')" and ttl: "dedupTtlMs s' = dedupTtlMs s"
    and stale: "ic_stale r \<longleftrightarrow> (\<exists>x \<in> set (dispatch_idempotency s). ir_ticketKey x = t \<and> ir_agent x = a \<and> u < ir_updatedAt x)"
    and rows: "dispatch_idempotency s' = (if admitted r then del_where ?mine (dispatch_idempotency s) @ [id_row t st a u now]
        else dispatch_idempotency s)"
  have "key_ok ir_key (del_where ?mine (dispatch_idempotency s) @ [id_row t st a u now])"
    by (rule key_ok_insert [OF key_ok_del insert_ok]) (use inv in \<open>auto simp: idem_inv_def ir_key_def\<close>)
  then have "idem_inv s'" using rows inv u now by (auto simp: idem_inv_def)
  moreover have "keeps_latest (dispatch_idempotency s) (dispatch_idempotency s')"
  proof (cases "admitted r")
    case True
    then show ?thesis unfolding rows
      by (intro keeps_latestI [of "id_row t st a u now"]) (use stale in \<open>auto simp: admitted_def not_less\<close>)
  qed (simp add: rows)
  ultimately show ?thesis using run ttl rows by auto
qed

lemma plain_keeps:
  assumes inv: "idem_inv s" and u: "stamped u" and now: "now < iso_max" and plain: "\<not> io_delegateChanged opts"
  shows "\<exists>r s'. checkAndRecord t st a u now opts s = Inr (r, s') \<and> idem_inv s' \<and>
    keeps_latest (dispatch_idempotency s) (dispatch_idempotency s') \<and> dedupTtlMs s' = dedupTtlMs s \<and>
    (admitted r \<longrightarrow> id_row t st a u now \<in> set (dispatch_idempotency s')) \<and>
    (\<not> admitted r \<longrightarrow> dispatch_idempotency s' = dispatch_idempotency s)"
proof (rule plain_spec [OF inv u now plain])
  fix r s'
  let ?old = "ttl_old t st a now s"
  assume run: "checkAndRecord t st a u now opts s = Inr (r, s')" and ttl: "dedupTtlMs s' = dedupTtlMs s"
    and stale: "ic_stale r \<longleftrightarrow> (\<exists>x \<in> set (dispatch_idempotency s). ir_ticketKey x = t \<and> u < ir_updatedAt x)"
    and dup: "ic_suppressed r \<longleftrightarrow> \<not> ic_stale r \<and> \<not> hasDeadZeroCallOwner opts \<and>
       (\<exists>x \<in> set (dispatch_idempotency s). ir_key x = (t, st, a) \<and> ir_updatedAt x = u \<and> \<not> ?old x)"
    and rows: "dispatch_idempotency s' =
       (if ic_stale r then dispatch_idempotency s
        else if ic_suppressed r then del_where ?old (dispatch_idempotency s)
        else sql_replace ir_key (id_row t st a u now) (del_where ?old (dispatch_idempotency s)))"
  have same: "dispatch_idempotency s' = dispatch_idempotency s" if "\<not> admitted r"
  proof (cases "ic_stale r")
    case False
    then have "ic_suppressed r" using that by (simp add: admitted_def)
    then obtain x where "x \<in> set (dispatch_idempotency s)" "ir_key x = (t, st, a)" "\<not> ?old x" using dup by blast
    then have "\<forall>y \<in> set (dispatch_idempotency s). \<not> ?old y"
      using inv by (metis idem_inv_def key_okD ttl_old_def)
    then show ?thesis using rows False \<open>ic_suppressed r\<close> by (simp add: del_where_def)
  qed (simp add: rows)
  have inv': "idem_inv s'"
    using rows inv u now by (auto simp: idem_inv_def sql_replace_def split: if_splits)
       (auto simp: key_ok_replace [unfolded sql_replace_def])
  have fresh: "keeps_latest (dispatch_idempotency s) (dispatch_idempotency s') \<and>
       id_row t st a u now \<in> set (dispatch_idempotency s')" if "admitted r"
  proof -
    have rows': "dispatch_idempotency s' = sql_replace ir_key (id_row t st a u now) (del_where ?old (dispatch_idempotency s))"
      using rows that by (simp add: admitted_def)
    show ?thesis unfolding rows'
      by (intro conjI keeps_latestI [of "id_row t st a u now"])
         (use stale that in \<open>auto simp: admitted_def not_less sql_replace_def ir_key_def ttl_old_def\<close>)
  qed
  show ?thesis using run ttl inv' same fresh by (cases "admitted r") auto
qed

definition plain_options :: IdempotencyOptions where
  "plain_options = \<lparr>io_delegateChanged = False, io_existingOwnerEvidence = None\<rparr>"

lemma empty_idempotency [simp]: "idem_inv (idempotency_open [] ttl env)"
  by (simp add: idem_inv_def idempotency_open_def)

lemma checkAndRecord_keeps:
  assumes "idem_inv s" and "stamped u" and "now < iso_max"
  shows "\<exists>r s'. checkAndRecord t st a u now opts s = Inr (r, s') \<and> idem_inv s' \<and>
    keeps_latest (dispatch_idempotency s) (dispatch_idempotency s') \<and> dedupTtlMs s' = dedupTtlMs s \<and>
    (admitted r \<longrightarrow> id_row t st a u now \<in> set (dispatch_idempotency s'))"
  using delegate_keeps [OF assms, of t st a] plain_keeps [OF assms, of opts t st a]
  by (cases "io_delegateChanged opts") (auto simp: checkAndRecord_delegate)

lemma replay_refused:
  assumes row: "id_row t st a u now \<in> set (dispatch_idempotency s)" and inv: "idem_inv s" and u: "stamped u"
    and now: "now < iso_max" "now2 < iso_max" and age: "now2 \<le> now + dedupTtlMs s"
    and live: "\<not> hasDeadZeroCallOwner opts"
  shows "\<exists>r s'. checkAndRecord t st a u now2 opts s = Inr (r, s') \<and> \<not> admitted r"
proof (cases "io_delegateChanged opts")
  case True
  have hit: "\<exists>x \<in> set (dispatch_idempotency s). ir_ticketKey x = t \<and> ir_agent x = a \<and> ir_updatedAt x = u"
    using row by (intro bexI [OF _ row]) simp
  obtain r s' where r: "check_delegate_change t st a u now2 s = Inr (r, s')"
    "ic_suppressed r \<longleftrightarrow> \<not> ic_stale r \<and>
       (\<exists>x \<in> set (dispatch_idempotency s). ir_ticketKey x = t \<and> ir_agent x = a \<and> ir_updatedAt x = u)"
    by (rule delegate_change_spec [OF inv u now(2), of t st a])
  then have "\<not> admitted r" using hit unfolding admitted_def by blast
  then show ?thesis using r(1) True by (simp add: checkAndRecord_delegate)
next
  case False
  have "(int now2 - int (dedupTtlMs s)) div 1000 \<le> int now div 1000"
    using age by (intro zdiv_mono1) auto
  then have fresh: "\<not> ttl_old t st a now2 s (id_row t st a u now)"
    using now by (simp add: ttl_old_def created_secs_def num_less_def)
  have hit: "\<exists>x \<in> set (dispatch_idempotency s). ir_key x = (t, st, a) \<and> ir_updatedAt x = u \<and> \<not> ttl_old t st a now2 s x"
    by (rule bexI [OF _ row]) (simp add: fresh ir_key_def)
  obtain r s' where r: "checkAndRecord t st a u now2 opts s = Inr (r, s')"
    "ic_suppressed r \<longleftrightarrow> \<not> ic_stale r \<and> \<not> hasDeadZeroCallOwner opts \<and>
       (\<exists>x \<in> set (dispatch_idempotency s). ir_key x = (t, st, a) \<and> ir_updatedAt x = u \<and> \<not> ttl_old t st a now2 s x)"
    by (rule plain_spec [OF inv u now(2) False, of t st a])
  then have "\<not> admitted r" using hit live unfolding admitted_def by blast
  then show ?thesis using r(1) by blast
qed

text \<open>
  \<open>checkAndRecord\<close> never throws on a well-formed table, keeps the primary key and the
  form of the stored times, and never loses the newest \<open>updatedAt\<close> recorded for any ticket:
  whichever branch runs (stale, duplicate, delegate change, expiry, reclaim, admission), every
  row is matched afterwards by a row of the same ticket that is at least as new.
\<close>

theorem high_water_mark:
  assumes "idem_inv s" and "stamped updatedAt" and "now < iso_max"
  shows "\<exists>r s'. checkAndRecord ticket st agent updatedAt now opts s = Inr (r, s') \<and> idem_inv s' \<and>
    keeps_latest (dispatch_idempotency s) (dispatch_idempotency s')"
  using checkAndRecord_keeps [OF assms] by metis

theorem high_water_mark_witness:
  "\<exists>r s'. checkAndRecord ''INF-1'' ''todo'' ''ada'' (toISOString 5000) 6000 plain_options
     (idempotency_open [] None None) = Inr (r, s') \<and> idem_inv s' \<and>
     keeps_latest (dispatch_idempotency (idempotency_open [] None None)) (dispatch_idempotency s')"
  by (rule high_water_mark) (simp_all add: iso_max_def stamped_iso [unfolded iso_max_def])

text \<open>
  A plain dispatch (no change of delegate) is dropped as stale exactly when some row of the
  ticket, of any state and agent, has a later \<open>updatedAt\<close>; it is suppressed as a duplicate
  exactly when it is not stale, the owner is not known dead with zero calls, and the row of its
  own (ticket, state, agent) has the same \<open>updatedAt\<close> and has not outlived the time to live;
  otherwise it is admitted.
\<close>

theorem plain_dispatch_verdict:
  assumes "idem_inv s" and "stamped updatedAt" and "now < iso_max" and "\<not> io_delegateChanged opts"
  shows "\<exists>r s'. checkAndRecord ticket st agent updatedAt now opts s = Inr (r, s') \<and>
    ic_stale r = (\<exists>x \<in> set (dispatch_idempotency s). ir_ticketKey x = ticket \<and> updatedAt < ir_updatedAt x) \<and>
    ic_suppressed r = (\<not> ic_stale r \<and> \<not> hasDeadZeroCallOwner opts \<and>
       (\<exists>x \<in> set (dispatch_idempotency s). ir_key x = (ticket, st, agent) \<and> ir_updatedAt x = updatedAt \<and>
          \<not> ttl_old ticket st agent now s x))"
  by (rule plain_spec [OF assms]) blast

theorem plain_dispatch_verdict_witness:
  "let s = idempotency_open [id_row ''INF-1'' ''todo'' ''ada'' (toISOString 5000) 5500] None None
   in \<exists>r s'. checkAndRecord ''INF-1'' ''todo'' ''ada'' (toISOString 5000) 6000 plain_options s = Inr (r, s') \<and>
     \<not> ic_stale r \<and> ic_suppressed r"
proof -
  let ?s = "idempotency_open [id_row ''INF-1'' ''todo'' ''ada'' (toISOString 5000) 5500] None None"
  have "idem_inv ?s" by (simp add: idem_inv_def idempotency_open_def key_ok_def iso_max_def stamped_iso [unfolded iso_max_def])
  moreover have "stamped (toISOString 5000)" "(6000::nat) < iso_max" "\<not> io_delegateChanged plain_options"
    by (simp_all add: iso_max_def stamped_iso [unfolded iso_max_def] plain_options_def)
  ultimately show ?thesis
    using plain_dispatch_verdict [of ?s "toISOString 5000" 6000 plain_options "''INF-1''" "''todo''" "''ada''"]
    by (auto simp: idempotency_open_def plain_options_def hasDeadZeroCallOwner_def ir_key_def ttl_old_def
        created_secs_def num_less_def iso_max_def getTime_iso [unfolded iso_max_def] idempotency_envTtlMs_def
        truthy_def DEFAULT_DEDUP_TTL_MS_def)
qed

text \<open>
  A delivered dispatch is not delivered twice: once a call was admitted, a second call for
  the same ticket, state, agent and snapshot within the time to live is not admitted, whether
  or not the second one claims a change of delegate, unless the first owner is known dead with
  zero calls.
\<close>

theorem replay_not_admitted:
  assumes "idem_inv s" and "stamped updatedAt" and "now < iso_max" and "now2 < iso_max"
    and "now2 \<le> now + dedupTtlMs s" and "\<not> hasDeadZeroCallOwner opts2"
  shows "\<exists>r s' r2 s2. checkAndRecord ticket st agent updatedAt now opts s = Inr (r, s') \<and>
    checkAndRecord ticket st agent updatedAt now2 opts2 s' = Inr (r2, s2) \<and>
    \<not> (admitted r \<and> admitted r2)"
proof -
  obtain r s' where first: "checkAndRecord ticket st agent updatedAt now opts s = Inr (r, s')" "idem_inv s'"
    "dedupTtlMs s' = dedupTtlMs s" "admitted r \<longrightarrow> id_row ticket st agent updatedAt now \<in> set (dispatch_idempotency s')"
    using checkAndRecord_keeps [OF assms(1-3), of ticket st agent opts] by blast
  obtain r2 s2 where second: "checkAndRecord ticket st agent updatedAt now2 opts2 s' = Inr (r2, s2)"
    using checkAndRecord_keeps [OF first(2) assms(2,4), of ticket st agent opts2] by blast
  have "\<not> admitted r2" if "admitted r"
    using replay_refused [OF _ first(2) assms(2-4) _ assms(6), of ticket st agent] first(3,4) that assms(5) second by auto
  then show ?thesis using first(1) second by blast
qed

theorem replay_not_admitted_witness:
  "\<exists>r s' r2 s2. checkAndRecord ''INF-1'' ''todo'' ''ada'' (toISOString 5000) 6000 plain_options
      (idempotency_open [] (Some 60000) None) = Inr (r, s') \<and>
    checkAndRecord ''INF-1'' ''todo'' ''ada'' (toISOString 5000) 7000
      \<lparr>io_delegateChanged = True, io_existingOwnerEvidence = None\<rparr> s' = Inr (r2, s2) \<and>
    \<not> (admitted r \<and> admitted r2)"
  by (rule replay_not_admitted)
     (simp_all add: iso_max_def stamped_iso [unfolded iso_max_def] idempotency_open_def hasDeadZeroCallOwner_def
        idem_inv_def)

end
