(* ===== verification/SpawnIdempotency.thy ===== *)
theory SpawnIdempotency
  imports SqlTable "HOL-Library.Product_Lexorder"
begin

text \<open>
  \<open>src/store/session-spawn-idempotency-store.ts\<close>: one run per (ticket, task key). A live or
  pending claim inside its window answers a replay; a terminal, stale or expired one is reset
  and spawned again. Rows are in insertion order, \<open>AUTOINCREMENT\<close> is a counter that only
  grows, and \<open>Date.now()\<close> is the argument \<open>now\<close>.
\<close>

subsection \<open>Rows and state\<close>

record SessionSpawnRunRecord =
  sp_id :: nat
  sp_ticket_id :: string
  sp_task_key :: string
  sp_runtime :: string
  sp_agent_id :: string
  sp_session_key :: string
  sp_run_id :: "string option"
  sp_session_id :: "string option"
  sp_state :: string
  sp_requested_at :: string
  sp_spawned_at :: "string option"
  sp_updated_at :: string
  sp_runtime_state_path :: "string option"
  sp_rotation_from :: "string option"
  sp_rotation_reason :: "string option"

record SessionSpawnBeginInput =
  bi_ticketId :: string
  bi_taskKey :: string
  bi_runtime :: string
  bi_agentId :: string
  bi_sessionKey :: string
  bi_requestedAt :: "string option"

record SessionSpawnMarkSpawnedInput =
  mi_runId :: string
  mi_sessionId :: string
  mi_state :: string
  mi_observedAt :: "string option"
  mi_runtimeStatePath :: "string option"
  mi_rotationFrom :: "string option"
  mi_rotationReason :: "string option"

datatype spawn_action = StartNew | ReturnExisting

record SessionSpawnBeginResult =
  br_action :: spawn_action
  br_record :: SessionSpawnRunRecord
  br_existing :: "SessionSpawnRunRecord option"

record SpawnStore =
  session_spawn_runs :: "SessionSpawnRunRecord list"
  spawn_seq :: nat

datatype spawn_error = RunNotFound nat | SpawnConflict

definition sp_key :: "SessionSpawnRunRecord \<Rightarrow> string \<times> string" where
  "sp_key r = (sp_ticket_id r, sp_task_key r)"

definition STALE_INFLIGHT_MS :: nat where
  "STALE_INFLIGHT_MS = 30 * 60 * 1000"

definition LIVE_CLAIM_TTL_MS :: nat where
  "LIVE_CLAIM_TTL_MS = 30 * 60 * 1000"

subsection \<open>Operations\<close>

definition rowById :: "nat \<Rightarrow> SpawnStore \<Rightarrow> spawn_error + SessionSpawnRunRecord" where
  "rowById i s = (case sel_one (\<lambda>r. sp_id r = i) (session_spawn_runs s) of
     None \<Rightarrow> Inl (RunNotFound i) | Some r \<Rightarrow> Inr r)"

text \<open>\<open>None\<close> is \<open>NaN\<close>: the time of the last update does not parse.\<close>

definition recordAgeMs :: "SessionSpawnRunRecord \<Rightarrow> nat \<Rightarrow> int option" where
  "recordAgeMs r now =
     (let lastIso = (if sp_updated_at r \<noteq> [] then sp_updated_at r
                     else if truthy (sp_spawned_at r) then orElse (sp_spawned_at r) []
                     else sp_requested_at r)
      in if lastIso = [] then None else map_option (\<lambda>t. int now - t) (getTime lastIso))"

definition isStaleInFlight :: "SessionSpawnRunRecord \<Rightarrow> nat \<Rightarrow> bool" where
  "isStaleInFlight r now =
     (if sp_state r \<noteq> ''live'' \<and> sp_state r \<noteq> ''pending'' then False
      else if sp_state r = ''live'' \<and> (truthy (sp_run_id r) \<or> truthy (sp_session_id r)) then False
      else case recordAgeMs r now of None \<Rightarrow> False | Some age \<Rightarrow> int STALE_INFLIGHT_MS < age)"

definition isExpiredLiveClaim :: "SessionSpawnRunRecord \<Rightarrow> nat \<Rightarrow> bool" where
  "isExpiredLiveClaim r now =
     (if sp_state r \<noteq> ''live'' then False
      else if \<not> truthy (sp_run_id r) \<and> \<not> truthy (sp_session_id r) then False
      else case recordAgeMs r now of None \<Rightarrow> False | Some age \<Rightarrow> int LIVE_CLAIM_TTL_MS < age)"

definition isReplayableClaim :: "SessionSpawnRunRecord \<Rightarrow> nat \<Rightarrow> bool" where
  "isReplayableClaim r now =
     (if sp_state r \<noteq> ''pending'' \<and> sp_state r \<noteq> ''live'' then False
      else if isStaleInFlight r now then False
      else if isExpiredLiveClaim r now then False
      else True)"

definition spawn_inspect :: "string \<Rightarrow> string \<Rightarrow> SpawnStore \<Rightarrow> SessionSpawnRunRecord option" where
  "spawn_inspect ticket task s = sel_one (\<lambda>r. sp_key r = (ticket, task)) (session_spawn_runs s)"

definition reset_claim :: "string \<Rightarrow> SessionSpawnRunRecord \<Rightarrow> SessionSpawnRunRecord" where
  "reset_claim at r = r\<lparr>sp_state := ''pending'', sp_run_id := None, sp_session_id := None,
     sp_requested_at := at, sp_spawned_at := None, sp_updated_at := at\<rparr>"

definition new_claim :: "nat \<Rightarrow> SessionSpawnBeginInput \<Rightarrow> string \<Rightarrow> SessionSpawnRunRecord" where
  "new_claim i inp at = \<lparr>sp_id = i, sp_ticket_id = bi_ticketId inp, sp_task_key = bi_taskKey inp,
     sp_runtime = bi_runtime inp, sp_agent_id = bi_agentId inp, sp_session_key = bi_sessionKey inp,
     sp_run_id = None, sp_session_id = None, sp_state = ''pending'', sp_requested_at = at,
     sp_spawned_at = None, sp_updated_at = at, sp_runtime_state_path = None,
     sp_rotation_from = None, sp_rotation_reason = None\<rparr>"

definition beginOrGetExisting ::
  "SessionSpawnBeginInput \<Rightarrow> nat \<Rightarrow> SpawnStore \<Rightarrow> spawn_error + (SessionSpawnBeginResult \<times> SpawnStore)" where
  "beginOrGetExisting inp now s =
     (let existing = spawn_inspect (bi_ticketId inp) (bi_taskKey inp) s;
          at = orElse (bi_requestedAt inp) (toISOString now)
      in case existing of
           Some r \<Rightarrow>
             if isReplayableClaim r now
             then Inr (\<lparr>br_action = ReturnExisting, br_record = r, br_existing = Some r\<rparr>, s)
             else
               let s' = s\<lparr>session_spawn_runs :=
                           upd_where (\<lambda>x. sp_id x = sp_id r) (reset_claim at) (session_spawn_runs s)\<rparr>
               in (case rowById (sp_id r) s' of
                     Inl e \<Rightarrow> Inl e
                   | Inr x \<Rightarrow> Inr (\<lparr>br_action = StartNew, br_record = x, br_existing = None\<rparr>, s'))
         | None \<Rightarrow>
             let i = spawn_seq s + 1
             in (case sql_insert sp_key (new_claim i inp at) (session_spawn_runs s) of
                   None \<Rightarrow> Inl SpawnConflict
                 | Some rows \<Rightarrow>
                     let s' = s\<lparr>session_spawn_runs := rows, spawn_seq := i\<rparr>
                     in (case rowById i s' of
                           Inl e \<Rightarrow> Inl e
                         | Inr x \<Rightarrow> Inr (\<lparr>br_action = StartNew, br_record = x, br_existing = None\<rparr>, s'))))"

definition coalesce :: "'a option \<Rightarrow> 'a option \<Rightarrow> 'a option" where
  "coalesce a b = (case a of None \<Rightarrow> b | Some x \<Rightarrow> Some x)"

definition mark_claim :: "SessionSpawnMarkSpawnedInput \<Rightarrow> string \<Rightarrow> SessionSpawnRunRecord \<Rightarrow> SessionSpawnRunRecord" where
  "mark_claim inp at r = r\<lparr>sp_run_id := Some (mi_runId inp), sp_session_id := Some (mi_sessionId inp),
     sp_state := mi_state inp, sp_spawned_at := coalesce (sp_spawned_at r) (Some at), sp_updated_at := at,
     sp_runtime_state_path := coalesce (mi_runtimeStatePath inp) (sp_runtime_state_path r),
     sp_rotation_from := coalesce (mi_rotationFrom inp) (sp_rotation_from r),
     sp_rotation_reason := coalesce (mi_rotationReason inp) (sp_rotation_reason r)\<rparr>"

definition markSpawned ::
  "nat \<Rightarrow> SessionSpawnMarkSpawnedInput \<Rightarrow> nat \<Rightarrow> SpawnStore \<Rightarrow> spawn_error + (SessionSpawnRunRecord \<times> SpawnStore)" where
  "markSpawned i inp now s =
     (let at = orElse (mi_observedAt inp) (toISOString now);
          s' = s\<lparr>session_spawn_runs := upd_where (\<lambda>r. sp_id r = i) (mark_claim inp at) (session_spawn_runs s)\<rparr>
      in if changes (\<lambda>r. sp_id r = i) (session_spawn_runs s) = 0 then Inl (RunNotFound i)
         else case rowById i s' of Inl e \<Rightarrow> Inl e | Inr r \<Rightarrow> Inr (r, s'))"

definition spawn_release ::
  "string \<Rightarrow> string \<Rightarrow> string option \<Rightarrow> string option \<Rightarrow> nat \<Rightarrow> SpawnStore \<Rightarrow>
   SessionSpawnRunRecord option \<times> SpawnStore" where
  "spawn_release ticket task st observedAt now s =
     (let at = orElse observedAt (toISOString now);
          s' = s\<lparr>session_spawn_runs := upd_where (\<lambda>r. sp_key r = (ticket, task))
                   (\<lambda>r. r\<lparr>sp_state := orElse st ''completed'', sp_updated_at := at\<rparr>) (session_spawn_runs s)\<rparr>
      in if changes (\<lambda>r. sp_key r = (ticket, task)) (session_spawn_runs s) = 0 then (None, s)
         else (spawn_inspect ticket task s', s'))"

definition expired_claim :: "string \<Rightarrow> SessionSpawnRunRecord \<Rightarrow> bool" where
  "expired_claim cutoff r \<longleftrightarrow> sp_state r \<in> {''live'', ''pending''} \<and> sp_updated_at r < cutoff"

definition sweepExpiredClaims :: "nat option \<Rightarrow> string option \<Rightarrow> nat \<Rightarrow> SpawnStore \<Rightarrow> nat \<times> SpawnStore" where
  "sweepExpiredClaims olderThanMs observedAt now s =
     (let at = orElse observedAt (toISOString now);
          cutoff = toISOString (now - orElse olderThanMs LIVE_CLAIM_TTL_MS)
      in (changes (expired_claim cutoff) (session_spawn_runs s),
          s\<lparr>session_spawn_runs := upd_where (expired_claim cutoff)
              (\<lambda>r. r\<lparr>sp_state := ''completed'', sp_updated_at := at\<rparr>) (session_spawn_runs s)\<rparr>))"

definition listByTicket :: "string \<Rightarrow> SpawnStore \<Rightarrow> SessionSpawnRunRecord list" where
  "listByTicket ticket s =
     sort_key (\<lambda>r. (sp_requested_at r, sp_id r)) (sel_all (\<lambda>r. sp_ticket_id r = ticket) (session_spawn_runs s))"

subsection \<open>Invariant\<close>

definition spawn_inv :: "SpawnStore \<Rightarrow> bool" where
  "spawn_inv s \<longleftrightarrow> key_ok sp_key (session_spawn_runs s) \<and> key_ok sp_id (session_spawn_runs s) \<and>
     (\<forall>r \<in> set (session_spawn_runs s). sp_id r \<le> spawn_seq s \<and> stamped (sp_updated_at r))"

definition in_window :: "SessionSpawnRunRecord \<Rightarrow> nat \<Rightarrow> bool" where
  "in_window r now \<longleftrightarrow> sp_state r \<in> {''live'', ''pending''} \<and> now \<le> stamp (sp_updated_at r) + LIVE_CLAIM_TTL_MS"

lemma replayable_in_window:
  "stamped (sp_updated_at r) \<Longrightarrow> isReplayableClaim r now \<longleftrightarrow> in_window r now"
  by (auto simp: isReplayableClaim_def isStaleInFlight_def isExpiredLiveClaim_def recordAgeMs_def
      stamped_getTime in_window_def STALE_INFLIGHT_MS_def LIVE_CLAIM_TTL_MS_def)


subsection \<open>Lookups and the invariant\<close>

lemma inspect_iff: "spawn_inv s \<Longrightarrow>
   spawn_inspect t k s = Some r \<longleftrightarrow> r \<in> set (session_spawn_runs s) \<and> sp_key r = (t, k)"
  by (simp add: spawn_inspect_def spawn_inv_def sel_one_key_iff)

lemma claim_keys [simp]:
  "sp_key (reset_claim at r) = sp_key r" "sp_id (reset_claim at r) = sp_id r"
  "sp_key (mark_claim m at r) = sp_key r" "sp_id (mark_claim m at r) = sp_id r"
  "sp_key (r\<lparr>sp_state := x, sp_updated_at := at\<rparr>) = sp_key r"
  "sp_key (new_claim i inp at) = (bi_ticketId inp, bi_taskKey inp)" "sp_id (new_claim i inp at) = i"
  "sp_updated_at (reset_claim at r) = at" "sp_updated_at (mark_claim m at r) = at"
  "sp_updated_at (new_claim i inp at) = at" "sp_state (reset_claim at r) = ''pending''"
  "sp_state (new_claim i inp at) = ''pending''" "sp_state (mark_claim m at r) = mi_state m"
  "sp_run_id (reset_claim at r) = None" "sp_run_id (new_claim i inp at) = None"
  by (simp_all add: sp_key_def reset_claim_def mark_claim_def new_claim_def)

lemma inspect_upd:
  "(\<And>r. sp_key (f r) = sp_key r) \<Longrightarrow>
   spawn_inspect t k (s\<lparr>session_spawn_runs := upd_where P f (session_spawn_runs s)\<rparr>) =
     map_option (\<lambda>r. if P r then f r else r) (spawn_inspect t k s)"
  by (simp add: spawn_inspect_def sel_one_upd)

lemma upd_inv:
  assumes "spawn_inv s" "\<And>r. sp_key (f r) = sp_key r" "\<And>r. sp_id (f r) = sp_id r"
    "\<And>r. stamped (sp_updated_at (f r))"
  shows "spawn_inv (s\<lparr>session_spawn_runs := upd_where P f (session_spawn_runs s)\<rparr>)"
  using assms by (auto simp: spawn_inv_def upd_where_def key_ok_def comp_def if_distrib cong: if_cong)

lemma rowById_upd:
  "(\<And>r. sp_id (f r) = sp_id r) \<Longrightarrow>
   rowById i (s\<lparr>session_spawn_runs := upd_where (\<lambda>r. sp_id r = i) f (session_spawn_runs s)\<rparr>) =
     (case rowById i s of Inl e \<Rightarrow> Inl e | Inr r \<Rightarrow> Inr (f r))"
  by (auto simp: rowById_def sel_one_upd split: option.splits dest: sel_one_SomeD)

lemma rowById_iff: "spawn_inv s \<Longrightarrow> rowById i s = Inr r \<longleftrightarrow> r \<in> set (session_spawn_runs s) \<and> sp_id r = i"
proof -
  assume "spawn_inv s"
  then have "sel_one (\<lambda>r. sp_id r = i) (session_spawn_runs s) = Some r \<longleftrightarrow>
      r \<in> set (session_spawn_runs s) \<and> sp_id r = i"
    by (intro sel_one_key_iff) (simp add: spawn_inv_def)
  then show ?thesis by (auto simp: rowById_def split: option.splits)
qed

text \<open>What a call of \<open>beginOrGetExisting\<close> does, in its three cases.\<close>

lemma begin_spec:
  assumes inv: "spawn_inv s" and at: "stamped (orElse (bi_requestedAt inp) (toISOString now))"
  obtains (replay) r where "spawn_inspect (bi_ticketId inp) (bi_taskKey inp) s = Some r" "in_window r now"
      "beginOrGetExisting inp now s = Inr (\<lparr>br_action = ReturnExisting, br_record = r, br_existing = Some r\<rparr>, s)"
    | (reset) r s' where "spawn_inspect (bi_ticketId inp) (bi_taskKey inp) s = Some r" "\<not> in_window r now"
      "s' = s\<lparr>session_spawn_runs := upd_where (\<lambda>x. sp_id x = sp_id r)
         (reset_claim (orElse (bi_requestedAt inp) (toISOString now))) (session_spawn_runs s)\<rparr>"
      "beginOrGetExisting inp now s = Inr (\<lparr>br_action = StartNew,
         br_record = reset_claim (orElse (bi_requestedAt inp) (toISOString now)) r, br_existing = None\<rparr>, s')"
      "spawn_inv s'"
    | (fresh) s' where "spawn_inspect (bi_ticketId inp) (bi_taskKey inp) s = None"
      "s' = s\<lparr>session_spawn_runs := session_spawn_runs s @
         [new_claim (spawn_seq s + 1) inp (orElse (bi_requestedAt inp) (toISOString now))],
         spawn_seq := spawn_seq s + 1\<rparr>"
      "beginOrGetExisting inp now s = Inr (\<lparr>br_action = StartNew,
         br_record = new_claim (spawn_seq s + 1) inp (orElse (bi_requestedAt inp) (toISOString now)),
         br_existing = None\<rparr>, s')" "spawn_inv s'"
proof -
  define at where "at = orElse (bi_requestedAt inp) (toISOString now)"
  note unf = beginOrGetExisting_def Let_def at_def [symmetric]
  show thesis
  proof (cases "spawn_inspect (bi_ticketId inp) (bi_taskKey inp) s")
    case None
    define new where "new = new_claim (spawn_seq s + 1) inp at"
    define s' where "s' = s\<lparr>session_spawn_runs := session_spawn_runs s @ [new], spawn_seq := spawn_seq s + 1\<rparr>"
    have k: "sp_key new \<notin> sp_key ` set (session_spawn_runs s)"
      using None by (auto simp: spawn_inspect_def sel_one_None new_def)
    have inv': "spawn_inv s'"
      using inv k at by (auto simp: spawn_inv_def s'_def key_ok_def new_def at_def [symmetric] intro: le_SucI)
    have row: "rowById (spawn_seq s + 1) s' = Inr new"
      unfolding rowById_iff [OF inv'] by (simp add: s'_def new_def)
    have "beginOrGetExisting inp now s = Inr (\<lparr>br_action = StartNew, br_record = new, br_existing = None\<rparr>, s')"
      unfolding unf None using insert_ok [OF k] row by (simp add: new_def [symmetric, simplified] s'_def [symmetric, simplified])
    then show thesis using None inv' by (intro fresh [of s']) (simp_all add: s'_def new_def at_def)
  next
    case (Some r)
    have mem: "r \<in> set (session_spawn_runs s)" using inspect_iff [OF inv] Some by simp
    then have repl: "isReplayableClaim r now = in_window r now"
      using inv by (intro replayable_in_window) (simp add: spawn_inv_def)
    show thesis
    proof (cases "in_window r now")
      case True
      then show thesis using Some repl by (intro replay [of r]) (simp_all add: unf)
    next
      case False
      define s' where "s' = s\<lparr>session_spawn_runs := upd_where (\<lambda>x. sp_id x = sp_id r) (reset_claim at) (session_spawn_runs s)\<rparr>"
      have inv': "spawn_inv s'" unfolding s'_def using inv at by (intro upd_inv) (simp_all add: at_def)
      have "rowById (sp_id r) s = Inr r" using mem rowById_iff [OF inv] by simp
      then have "rowById (sp_id r) s' = Inr (reset_claim at r)" by (simp add: s'_def rowById_upd)
      then show thesis using Some False repl inv'
        by (intro reset [of r s']) (simp_all add: unf s'_def)
    qed
  qed
qed


lemma begin_seat:
  assumes inv: "spawn_inv s" and at: "stamped (orElse (bi_requestedAt inp) (toISOString now))"
  obtains res s' where "beginOrGetExisting inp now s = Inr (res, s')" "spawn_inv s'"
    "spawn_inspect (bi_ticketId inp) (bi_taskKey inp) s' = Some (br_record res)"
    "br_action res = ReturnExisting \<longleftrightarrow>
       (\<exists>r. spawn_inspect (bi_ticketId inp) (bi_taskKey inp) s = Some r \<and> in_window r now)"
    "br_action res = ReturnExisting \<longrightarrow> s' = s"
    "br_action res = StartNew \<longrightarrow> sp_state (br_record res) = ''pending'' \<and> sp_run_id (br_record res) = None \<and>
       sp_updated_at (br_record res) = orElse (bi_requestedAt inp) (toISOString now)"
    "\<forall>t k. (t, k) \<noteq> (bi_ticketId inp, bi_taskKey inp) \<longrightarrow> spawn_inspect t k s' = spawn_inspect t k s"
proof (cases rule: begin_spec [OF inv at, case_names replay reset fresh])
  case (replay r)
  then show thesis using inv by (intro that [OF replay(3)]) auto
next
  case (reset r s')
  have id_key: "sp_id x = sp_id r \<longleftrightarrow> sp_key x = sp_key r" if "x \<in> set (session_spawn_runs s)" for x
    using that reset(1) inspect_iff [OF inv] inv by (metis key_okD spawn_inv_def)
  have other: "spawn_inspect t k s' = spawn_inspect t k s" if "(t, k) \<noteq> (bi_ticketId inp, bi_taskKey inp)" for t k
  proof -
    have "sp_id x \<noteq> sp_id r" if "spawn_inspect t k s = Some x" for x
      using that id_key [of x] reset(1) \<open>(t, k) \<noteq> _\<close> inspect_iff [OF inv] by auto
    then show ?thesis unfolding reset(3) by (cases "spawn_inspect t k s") (auto simp: inspect_upd)
  qed
  have "spawn_inspect (bi_ticketId inp) (bi_taskKey inp) s' = Some (reset_claim (orElse (bi_requestedAt inp) (toISOString now)) r)"
    unfolding reset(3) using reset(1) by (simp add: inspect_upd)
  then show thesis using reset other by (intro that [OF reset(4,5)]) auto
next
  case (fresh s')
  then show thesis
    by (intro that [OF fresh(3,4)])
       (auto simp: spawn_inspect_def sel_one_append sel_one_Cons split: option.splits)
qed

subsection \<open>One spawn per window\<close>

datatype spawn_op =
    Begin SessionSpawnBeginInput
  | MarkSpawned nat SessionSpawnMarkSpawnedInput
  | Release string string "string option" "string option"
  | Sweep "nat option" "string option"

text \<open>The store after an operation; one that throws leaves it as it was.\<close>

fun spawn_step :: "nat \<times> spawn_op \<Rightarrow> SpawnStore \<Rightarrow> SpawnStore" where
  "spawn_step (now, Begin inp) s = (case beginOrGetExisting inp now s of Inl _ \<Rightarrow> s | Inr (_, s') \<Rightarrow> s')"
| "spawn_step (now, MarkSpawned i m) s = (case markSpawned i m now s of Inl _ \<Rightarrow> s | Inr (_, s') \<Rightarrow> s')"
| "spawn_step (now, Release t k st obs) s = snd (spawn_release t k st obs now s)"
| "spawn_step (now, Sweep older obs) s = snd (sweepExpiredClaims older obs now s)"

definition given_after :: "nat \<Rightarrow> string option \<Rightarrow> bool" where
  "given_after t0 u = (case u of None \<Rightarrow> True | Some x \<Rightarrow> stamped x \<and> t0 \<le> stamp x)"

text \<open>
  Operations that do not end the run of the seat \<open>(t, k)\<close>: marks keep it live or pending, a
  release is of another seat, a sweep uses at least the time to live.
\<close>

fun keeps_run :: "string \<times> string \<Rightarrow> nat \<Rightarrow> nat \<times> spawn_op \<Rightarrow> bool" where
  "keeps_run seat t0 (now, Begin inp) = given_after t0 (bi_requestedAt inp)"
| "keeps_run seat t0 (now, MarkSpawned i m) =
     (mi_state m \<in> {''live'', ''pending''} \<and> given_after t0 (mi_observedAt m))"
| "keeps_run seat t0 (now, Release t k st obs) = ((t, k) \<noteq> seat \<and> given_after t0 obs)"
| "keeps_run seat t0 (now, Sweep older obs) = (LIVE_CLAIM_TTL_MS \<le> orElse older LIVE_CLAIM_TTL_MS \<and> given_after t0 obs)"

definition run_held :: "string \<times> string \<Rightarrow> nat \<Rightarrow> nat \<Rightarrow> SpawnStore \<Rightarrow> bool" where
  "run_held seat t0 i s \<longleftrightarrow> spawn_inv s \<and> (\<exists>r. spawn_inspect (fst seat) (snd seat) s = Some r \<and> sp_id r = i \<and>
     sp_state r \<in> {''live'', ''pending''} \<and> t0 \<le> stamp (sp_updated_at r))"

lemma given_after_time:
  "given_after t0 u \<Longrightarrow> t0 \<le> now \<Longrightarrow> now < iso_max \<Longrightarrow>
   stamped (orElse u (toISOString now)) \<and> t0 \<le> stamp (orElse u (toISOString now))"
  by (cases u) (auto simp: given_after_def)

lemma markSpawned_step:
  "spawn_step (now, MarkSpawned i m) s = s \<or> spawn_step (now, MarkSpawned i m) s =
     s\<lparr>session_spawn_runs := upd_where (\<lambda>r. sp_id r = i) (mark_claim m (orElse (mi_observedAt m) (toISOString now)))
        (session_spawn_runs s)\<rparr>"
  by (auto simp: markSpawned_def Let_def split: sum.splits)

lemma release_step:
  "spawn_step (now, Release t k st obs) s = s \<or> spawn_step (now, Release t k st obs) s =
     s\<lparr>session_spawn_runs := upd_where (\<lambda>r. sp_key r = (t, k))
        (\<lambda>r. r\<lparr>sp_state := orElse st ''completed'', sp_updated_at := orElse obs (toISOString now)\<rparr>) (session_spawn_runs s)\<rparr>"
  by (auto simp: spawn_release_def Let_def)

lemma run_held_upd:
  assumes "run_held seat t0 i s" "\<And>r. sp_key (f r) = sp_key r" "\<And>r. sp_id (f r) = sp_id r"
    "\<And>r. stamped (sp_updated_at (f r))"
    "\<And>r. P r \<Longrightarrow> sp_key r = seat \<Longrightarrow> t0 \<le> stamp (sp_updated_at r) \<Longrightarrow> stamped (sp_updated_at r) \<Longrightarrow>
       sp_state r \<in> {''live'', ''pending''} \<Longrightarrow>
       sp_state (f r) \<in> {''live'', ''pending''} \<and> t0 \<le> stamp (sp_updated_at (f r))"
  shows "run_held seat t0 i (s\<lparr>session_spawn_runs := upd_where P f (session_spawn_runs s)\<rparr>)"
proof -
  obtain r where inv: "spawn_inv s" and r: "spawn_inspect (fst seat) (snd seat) s = Some r" "sp_id r = i"
    "sp_state r \<in> {''live'', ''pending''}" "t0 \<le> stamp (sp_updated_at r)"
    using assms(1) by (auto simp: run_held_def)
  have "sp_key r = seat" "stamped (sp_updated_at r)"
    using r(1) inv by (auto simp: inspect_iff [OF inv] spawn_inv_def)
  then show ?thesis
    using r assms(2,3) assms(5) [of r] upd_inv [OF inv assms(2-4), of P] by (auto simp: run_held_def inspect_upd)
qed

lemma run_held_begin:
  assumes "run_held seat t0 i s" "given_after t0 (bi_requestedAt inp)" "t0 \<le> now" "now \<le> t0 + LIVE_CLAIM_TTL_MS" "now < iso_max"
  shows "run_held seat t0 i (spawn_step (now, Begin inp) s)"
    and "(bi_ticketId inp, bi_taskKey inp) = seat \<Longrightarrow> \<exists>r. beginOrGetExisting inp now s =
      Inr (\<lparr>br_action = ReturnExisting, br_record = r, br_existing = Some r\<rparr>, s) \<and> sp_id r = i"
proof -
  obtain r where inv: "spawn_inv s" and r: "spawn_inspect (fst seat) (snd seat) s = Some r" "sp_id r = i"
    "sp_state r \<in> {''live'', ''pending''}" "t0 \<le> stamp (sp_updated_at r)"
    using assms(1) by (auto simp: run_held_def)
  have win: "in_window r now" using r assms(4) by (auto simp: in_window_def)
  have at: "stamped (orElse (bi_requestedAt inp) (toISOString now))"
    using given_after_time [OF assms(2,3,5)] by simp
  show "run_held seat t0 i (spawn_step (now, Begin inp) s)"
  proof (rule begin_seat [OF inv at])
    fix res s'
    assume b: "beginOrGetExisting inp now s = Inr (res, s')" "spawn_inv s'"
      "br_action res = ReturnExisting \<longleftrightarrow>
       (\<exists>r. spawn_inspect (bi_ticketId inp) (bi_taskKey inp) s = Some r \<and> in_window r now)"
      "br_action res = ReturnExisting \<longrightarrow> s' = s"
      "\<forall>t k. (t, k) \<noteq> (bi_ticketId inp, bi_taskKey inp) \<longrightarrow> spawn_inspect t k s' = spawn_inspect t k s"
    show ?thesis
    proof (cases "seat = (bi_ticketId inp, bi_taskKey inp)")
      case True
      then show ?thesis using b(1,3,4) r(1) win assms(1) by auto
    next
      case False
      then show ?thesis using b(1,2) b(5) [rule_format, of "fst seat" "snd seat"] r by (auto simp: run_held_def)
    qed
  qed
  assume seat: "(bi_ticketId inp, bi_taskKey inp) = seat"
  then show "\<exists>r. beginOrGetExisting inp now s =
      Inr (\<lparr>br_action = ReturnExisting, br_record = r, br_existing = Some r\<rparr>, s) \<and> sp_id r = i"
    using r win by (cases rule: begin_spec [OF inv at, case_names replay reset fresh]) auto
qed

lemma run_held_step:
  assumes h: "run_held seat t0 i s" and k: "keeps_run seat t0 (now, op)"
    and t: "t0 \<le> now" "now \<le> t0 + LIVE_CLAIM_TTL_MS" "now < iso_max"
  shows "run_held seat t0 i (spawn_step (now, op) s)"
proof (cases op)
  case (Begin inp)
  then show ?thesis using k run_held_begin(1) [OF h _ t] by simp
next
  case (MarkSpawned j m)
  then show ?thesis
    using markSpawned_step [of now j m s] k given_after_time [of t0 "mi_observedAt m" now] t h
    by (auto intro!: run_held_upd)
next
  case (Release a b st obs)
  then show ?thesis
    using release_step [of now a b st obs s] k given_after_time [of t0 obs now] t h
    by (auto intro!: run_held_upd)
next
  case (Sweep older obs)
  let ?cut = "now - orElse older LIVE_CLAIM_TTL_MS"
  have "?cut \<le> t0" "?cut < iso_max" using k t Sweep by auto
  then have "\<not> expired_claim (toISOString ?cut) r" if "t0 \<le> stamp (sp_updated_at r)" "stamped (sp_updated_at r)" for r
    using that by (simp add: expired_claim_def)
  then show ?thesis
    using Sweep k given_after_time [of t0 obs now] t h
    by (auto simp: sweepExpiredClaims_def Let_def intro!: run_held_upd)
qed


lemma run_held_fold:
  assumes "run_held seat t0 i s" "\<forall>e \<in> set ops. keeps_run seat t0 e \<and> t0 \<le> fst e \<and> fst e \<le> t0 + LIVE_CLAIM_TTL_MS \<and> fst e < iso_max"
  shows "run_held seat t0 i (fold spawn_step ops s)"
  using assms
proof (induction ops arbitrary: s)
  case (Cons e ops)
  then show ?case using run_held_step [of seat t0 i s "fst e" "snd e"] by simp
qed simp

subsection \<open>The sweep\<close>

lemma sweep_window:
  assumes "stamped (sp_updated_at r)" "now < iso_max" "LIVE_CLAIM_TTL_MS \<le> now"
  shows "expired_claim (toISOString (now - LIVE_CLAIM_TTL_MS)) r \<longleftrightarrow>
    sp_state r \<in> {''live'', ''pending''} \<and> \<not> in_window r now"
  using assms by (auto simp: expired_claim_def in_window_def)

lemma sweep_inspect:
  "spawn_inspect t k (snd (sweepExpiredClaims older obs now s)) =
     map_option (\<lambda>r. if expired_claim (toISOString (now - orElse older LIVE_CLAIM_TTL_MS)) r
       then r\<lparr>sp_state := ''completed'', sp_updated_at := orElse obs (toISOString now)\<rparr> else r) (spawn_inspect t k s)"
  by (simp add: sweepExpiredClaims_def Let_def inspect_upd)

lemma sweep_inv:
  assumes "spawn_inv s" "now < iso_max"
  shows "spawn_inv (snd (sweepExpiredClaims older None now s))"
  using assms unfolding sweepExpiredClaims_def Let_def snd_conv by (intro upd_inv) auto

definition sample_begin :: SessionSpawnBeginInput where
  "sample_begin = \<lparr>bi_ticketId = ''INF-1'', bi_taskKey = ''impl'', bi_runtime = ''codex'', bi_agentId = ''ada'',
     bi_sessionKey = ''s1'', bi_requestedAt = None\<rparr>"

lemma empty_spawn [simp]: "spawn_inv \<lparr>session_spawn_runs = [], spawn_seq = 0\<rparr>"
  by (simp add: spawn_inv_def)

lemma no_runs [simp]: "spawn_inspect t k \<lparr>session_spawn_runs = [], spawn_seq = n\<rparr> = None"
  by (simp add: spawn_inspect_def)

lemma free_seat_starts:
  assumes "spawn_inv s" "spawn_inspect (bi_ticketId inp) (bi_taskKey inp) s = None" "now < iso_max"
    "bi_requestedAt inp = None"
  shows "\<exists>res s'. beginOrGetExisting inp now s = Inr (res, s') \<and> br_action res = StartNew"
proof -
  have at: "stamped (orElse (bi_requestedAt inp) (toISOString now))" using assms(3,4) by simp
  show ?thesis using assms(2) by (cases rule: begin_spec [OF assms(1) at, case_names replay reset fresh]) auto
qed

text \<open>
  \<open>beginOrGetExisting\<close> never throws on a well-formed table and answers with the row of its
  seat: the existing run is returned, and nothing written, exactly when the seat's row is live
  or pending and was updated within the last thirty minutes; in every other case (no row, a
  terminal one, a dead one, bound to a session or not) a new pending run starts. So no seat with
  a readable time stays frozen longer than that.
\<close>

theorem spawn_verdict:
  assumes "spawn_inv s" and "bi_requestedAt inp = None" and "now < iso_max"
  shows "\<exists>res s'. beginOrGetExisting inp now s = Inr (res, s') \<and> spawn_inv s' \<and>
    spawn_inspect (bi_ticketId inp) (bi_taskKey inp) s' = Some (br_record res) \<and>
    (if \<exists>r \<in> set (session_spawn_runs s). sp_key r = (bi_ticketId inp, bi_taskKey inp) \<and>
          sp_state r \<in> {''live'', ''pending''} \<and> now \<le> stamp (sp_updated_at r) + LIVE_CLAIM_TTL_MS
     then br_action res = ReturnExisting \<and> s' = s
     else br_action res = StartNew \<and> sp_state (br_record res) = ''pending'' \<and> sp_run_id (br_record res) = None)"
proof -
  have at: "stamped (orElse (bi_requestedAt inp) (toISOString now))" using assms by simp
  have "(\<exists>r \<in> set (session_spawn_runs s). sp_key r = (bi_ticketId inp, bi_taskKey inp) \<and>
          sp_state r \<in> {''live'', ''pending''} \<and> now \<le> stamp (sp_updated_at r) + LIVE_CLAIM_TTL_MS) \<longleftrightarrow>
        (\<exists>r. spawn_inspect (bi_ticketId inp) (bi_taskKey inp) s = Some r \<and> in_window r now)"
    by (auto simp: inspect_iff [OF assms(1)] in_window_def)
  moreover obtain res s' where b: "beginOrGetExisting inp now s = Inr (res, s')" "spawn_inv s'"
    "spawn_inspect (bi_ticketId inp) (bi_taskKey inp) s' = Some (br_record res)"
    "br_action res = ReturnExisting \<longleftrightarrow>
       (\<exists>r. spawn_inspect (bi_ticketId inp) (bi_taskKey inp) s = Some r \<and> in_window r now)"
    "br_action res = ReturnExisting \<longrightarrow> s' = s"
    "br_action res = StartNew \<longrightarrow> sp_state (br_record res) = ''pending'' \<and> sp_run_id (br_record res) = None \<and>
       sp_updated_at (br_record res) = orElse (bi_requestedAt inp) (toISOString now)"
    by (rule begin_seat [OF assms(1) at])
  ultimately show ?thesis
    by (cases "br_action res") (simp_all only: if_True if_False spawn_action.distinct simp_thms, blast+)
qed

theorem spawn_verdict_witness:
  "\<exists>res s'. beginOrGetExisting sample_begin 5000 \<lparr>session_spawn_runs = [], spawn_seq = 0\<rparr> = Inr (res, s') \<and>
    spawn_inv s' \<and> br_action res = StartNew"
  using spawn_verdict [OF empty_spawn, of sample_begin 5000] by (auto simp: sample_begin_def iso_max_def)

text \<open>
  C29: No seat is spawned twice within a window: after a run of the seat began at \<open>t0\<close>, and
  whatever replays of any seat, marks that keep runs live, releases of other seats and sweeps
  follow within thirty minutes in any order, every further request for the seat in that time is
  answered with the very run that began at \<open>t0\<close>, and writes nothing.
\<close>

theorem no_double_spawn:
  assumes "spawn_inv s" and "bi_requestedAt inp = None" and "t0 < iso_max"
    and "beginOrGetExisting inp t0 s = Inr (first, s1)" and "br_action first = StartNew"
    and "\<forall>e \<in> set ops. keeps_run (bi_ticketId inp, bi_taskKey inp) t0 e \<and> t0 \<le> fst e \<and>
           fst e \<le> t0 + LIVE_CLAIM_TTL_MS \<and> fst e < iso_max"
    and "bi_ticketId again = bi_ticketId inp" and "bi_taskKey again = bi_taskKey inp"
    and "bi_requestedAt again = None" and "t0 \<le> t" and "t \<le> t0 + LIVE_CLAIM_TTL_MS" and "t < iso_max"
  shows "\<exists>r. beginOrGetExisting again t (fold spawn_step ops s1) =
      Inr (\<lparr>br_action = ReturnExisting, br_record = r, br_existing = Some r\<rparr>, fold spawn_step ops s1) \<and>
      sp_id r = sp_id (br_record first)"
proof -
  let ?seat = "(bi_ticketId inp, bi_taskKey inp)"
  have at: "stamped (orElse (bi_requestedAt inp) (toISOString t0))" using assms(2,3) by simp
  have "run_held ?seat t0 (sp_id (br_record first)) s1"
  proof -
    obtain res s' where b: "beginOrGetExisting inp t0 s = Inr (res, s')" "spawn_inv s'"
      "spawn_inspect (bi_ticketId inp) (bi_taskKey inp) s' = Some (br_record res)"
      "br_action res = StartNew \<longrightarrow> sp_state (br_record res) = ''pending'' \<and> sp_run_id (br_record res) = None \<and>
         sp_updated_at (br_record res) = orElse (bi_requestedAt inp) (toISOString t0)"
      by (rule begin_seat [OF assms(1) at])
    then have "res = first" "s' = s1" using assms(4) by simp_all
    then show ?thesis using b assms(2,3,5) by (simp add: run_held_def)
  qed
  then have "run_held ?seat t0 (sp_id (br_record first)) (fold spawn_step ops s1)"
    using assms(6) by (rule run_held_fold)
  then show ?thesis
    by (rule run_held_begin(2)) (use assms(7-) in \<open>simp_all add: given_after_def\<close>)
qed

theorem no_double_spawn_witness:
  "\<exists>first s1 r. beginOrGetExisting sample_begin 5000 \<lparr>session_spawn_runs = [], spawn_seq = 0\<rparr> = Inr (first, s1) \<and>
     beginOrGetExisting sample_begin 7000 (fold spawn_step [(6000, Begin sample_begin), (6500, Sweep None None)] s1) =
      Inr (\<lparr>br_action = ReturnExisting, br_record = r, br_existing = Some r\<rparr>,
           fold spawn_step [(6000, Begin sample_begin), (6500, Sweep None None)] s1) \<and> sp_id r = sp_id (br_record first)"
proof -
  have n: "bi_requestedAt sample_begin = None" by (simp add: sample_begin_def)
  obtain first s1 where b: "beginOrGetExisting sample_begin 5000 \<lparr>session_spawn_runs = [], spawn_seq = 0\<rparr> = Inr (first, s1)"
    "br_action first = StartNew"
    using free_seat_starts [OF empty_spawn no_runs, of 5000 sample_begin] n by (auto simp: iso_max_def)
  show ?thesis
    using no_double_spawn [OF empty_spawn n _ b, where ops = "[(6000, Begin sample_begin), (6500, Sweep None None)]"
        and again = sample_begin and t = 7000] b(1) n
    by (auto simp: iso_max_def given_after_def LIVE_CLAIM_TTL_MS_def)
qed

text \<open>
  The proactive sweep and the lazy reset agree: a sweep at the same moment changes no
  verdict of \<open>beginOrGetExisting\<close>, for any seat, and the number it reports is the number of
  live or pending runs that a request would no longer replay.
\<close>

theorem sweep_changes_no_verdict:
  assumes "spawn_inv s" and "bi_requestedAt inp = None" and "now < iso_max" and "LIVE_CLAIM_TTL_MS \<le> now"
  shows "\<exists>r1 s1 r2 s2. beginOrGetExisting inp now s = Inr (r1, s1) \<and>
    beginOrGetExisting inp now (snd (sweepExpiredClaims None None now s)) = Inr (r2, s2) \<and>
    br_action r1 = br_action r2 \<and>
    fst (sweepExpiredClaims None None now s) =
      length [r \<leftarrow> session_spawn_runs s. sp_state r \<in> {''live'', ''pending''} \<and> \<not> isReplayableClaim r now]"
proof -
  let ?swept = "snd (sweepExpiredClaims None None now s)"
  have at: "stamped (orElse (bi_requestedAt inp) (toISOString now))" using assms by simp
  note sw = sweep_window [OF _ assms(3,4)]
  have same: "(\<exists>r. spawn_inspect t k ?swept = Some r \<and> in_window r now) \<longleftrightarrow>
      (\<exists>r. spawn_inspect t k s = Some r \<and> in_window r now)" for t k
  proof (cases "spawn_inspect t k s")
    case (Some r)
    then have "stamped (sp_updated_at r)" using assms(1) by (auto simp: inspect_iff [OF assms(1)] spawn_inv_def)
    then show ?thesis using Some sw [of r] by (auto simp: sweep_inspect in_window_def)
  qed (simp add: sweep_inspect)
  have count: "fst (sweepExpiredClaims None None now s) =
      length [r \<leftarrow> session_spawn_runs s. sp_state r \<in> {''live'', ''pending''} \<and> \<not> isReplayableClaim r now]"
  proof -
    have "expired_claim (toISOString (now - LIVE_CLAIM_TTL_MS)) r \<longleftrightarrow>
        sp_state r \<in> {''live'', ''pending''} \<and> \<not> isReplayableClaim r now" if "r \<in> set (session_spawn_runs s)" for r
      using that assms(1) sw [of r] replayable_in_window [of r now] by (auto simp: spawn_inv_def)
    from filter_cong [OF refl this, of "session_spawn_runs s" "\<lambda>r. r"] show ?thesis
      by (simp add: sweepExpiredClaims_def Let_def changes_def)
  qed
  obtain r1 s1 where 1: "beginOrGetExisting inp now s = Inr (r1, s1)" "br_action r1 = ReturnExisting \<longleftrightarrow>
      (\<exists>r. spawn_inspect (bi_ticketId inp) (bi_taskKey inp) s = Some r \<and> in_window r now)"
    by (rule begin_seat [OF assms(1) at])
  obtain r2 s2 where 2: "beginOrGetExisting inp now ?swept = Inr (r2, s2)" "br_action r2 = ReturnExisting \<longleftrightarrow>
      (\<exists>r. spawn_inspect (bi_ticketId inp) (bi_taskKey inp) ?swept = Some r \<and> in_window r now)"
    by (rule begin_seat [OF sweep_inv [OF assms(1,3)] at])
  have "br_action r1 = ReturnExisting \<longleftrightarrow> br_action r2 = ReturnExisting" using 1(2) 2(2) same by simp
  then have "br_action r1 = br_action r2" by (cases "br_action r1"; cases "br_action r2") simp_all
  then show ?thesis using 1(1) 2(1) count by blast
qed

theorem sweep_changes_no_verdict_witness:
  "\<exists>r1 s1 r2 s2. beginOrGetExisting sample_begin 9000000 \<lparr>session_spawn_runs = [], spawn_seq = 0\<rparr> = Inr (r1, s1) \<and>
    beginOrGetExisting sample_begin 9000000
      (snd (sweepExpiredClaims None None 9000000 \<lparr>session_spawn_runs = [], spawn_seq = 0\<rparr>)) = Inr (r2, s2) \<and>
    br_action r1 = br_action r2"
  using sweep_changes_no_verdict [OF empty_spawn, of sample_begin 9000000]
  by (auto simp: sample_begin_def iso_max_def LIVE_CLAIM_TTL_MS_def)

end
