(* ===== verification/JsString.thy ===== *)
theory JsString
  imports Prelude
begin

text \<open>
  The string built-ins the labels of a ticket are read with: \<open>toLowerCase\<close>, \<open>trim\<close>, the
  case-insensitive prefix test of a regular expression \<open>/^p/i\<close>, and the part after the first colon.
  Strings are of 8-bit characters.
\<close>

definition js_lower :: "char \<Rightarrow> char" where
  "js_lower c = (let n = of_char c :: nat in
     if 65 \<le> n \<and> n \<le> 90 \<or> 192 \<le> n \<and> n \<le> 222 \<and> n \<noteq> 215 then char_of (n + 32) else c)"

definition toLowerCase :: "string \<Rightarrow> string" where
  "toLowerCase s = map js_lower s"

definition starts_ci :: "string \<Rightarrow> string \<Rightarrow> bool" where
  "starts_ci p s = (map ascii_lower (take (length p) s) = p)"

definition after_colon :: "string \<Rightarrow> string" where
  "after_colon s = drop 1 (dropWhile (\<lambda>c. c \<noteq> CHR '':'') s)"

fun joined :: "string list \<Rightarrow> string" where
  "joined [] = []"
| "joined [x] = x"
| "joined (x # xs) = x @ '','' @ joined xs"

definition trim :: "string \<Rightarrow> string" where
  "trim s = rev (dropWhile is_space (rev (dropWhile is_space s)))"

text \<open>\<open>s.slice(s.indexOf(":") + 1)\<close>: the whole string when there is no colon.\<close>

definition slice_colon :: "string \<Rightarrow> string" where
  "slice_colon s = (if CHR '':'' \<in> set s then after_colon s else s)"

definition starts_with :: "string \<Rightarrow> string \<Rightarrow> bool" where
  "starts_with p s = (take (length p) s = p)"

definition js_includes :: "string \<Rightarrow> string \<Rightarrow> bool" where
  "js_includes t s = (\<exists>i \<in> set [0..<length s + 1]. starts_with t (drop i s))"

text \<open>
  \<open>toUpperCase\<close> of one character: the sharp s becomes two letters; the two 8-bit characters whose
  upper case is outside Latin-1 are left alone, which no regular expression here can tell apart.
\<close>

definition js_upper :: "char \<Rightarrow> string" where
  "js_upper c = (let n = of_char c :: nat in
     if 97 \<le> n \<and> n \<le> 122 then [char_of (n - 32)]
     else if n = 223 then ''SS''
     else if 224 \<le> n \<and> n \<le> 254 \<and> n \<noteq> 247 then [char_of (n - 32)]
     else [c])"

definition toUpperCase :: "string \<Rightarrow> string" where
  "toUpperCase s = concat (map js_upper s)"

lemma starts_ci_colon: "starts_ci p s \<Longrightarrow> CHR '':'' \<in> set p \<Longrightarrow> CHR '':'' \<in> set s"
proof -
  assume *: "starts_ci p s" and p: "CHR '':'' \<in> set p"
  have "CHR '':'' \<in> ascii_lower ` set (take (length p) s)"
    using * p unfolding starts_ci_def by (metis list.set_map)
  then obtain c where c: "c \<in> set (take (length p) s)" "CHR '':'' = ascii_lower c" by auto
  have "ascii_lower c = CHR '':'' \<Longrightarrow> c = CHR '':''"
  proof (cases "65 \<le> (of_char c :: nat) \<and> (of_char c :: nat) \<le> 90")
    case True
    assume "ascii_lower c = CHR '':''"
    then have "char_of (of_char c + 32 :: nat) = CHR '':''" using True by (simp add: ascii_lower_def Let_def)
    then have "of_char (char_of (of_char c + 32 :: nat) :: char) = (58 :: nat)" by simp
    then show ?thesis using True by simp
  qed (auto simp: ascii_lower_def Let_def)
  then show ?thesis using c set_take_subset by fastforce
qed

end
