(* ===== verification/SessionKey.thy ===== *)
theory SessionKey
  imports IsoTime JsString
begin

text \<open>
  \<open>src/session-key.ts\<close>: the canonical form \<open>linear-TEAM-NUMBER\<close> of a session key, with its
  regular expressions written out as functions on strings of 8-bit characters.
\<close>

subsection \<open>Regular expressions\<close>

definition is_upper :: "char \<Rightarrow> bool" where
  "is_upper c = (65 \<le> (of_char c :: nat) \<and> (of_char c :: nat) \<le> 90)"

text \<open>\<open>LINEAR_ID_RE\<close>: one to ten capital letters, a hyphen, one to six digits.\<close>

definition linear_id :: "string \<Rightarrow> bool" where
  "linear_id s =
     (let team = takeWhile is_upper s; rest = dropWhile is_upper s
      in 1 \<le> length team \<and> length team \<le> 10 \<and>
         (case rest of c # ds \<Rightarrow> c = CHR ''-'' \<and> 1 \<le> length ds \<and> length ds \<le> 6 \<and> list_all is_digit ds
          | [] \<Rightarrow> False))"

text \<open>\<open>s.replace(/:r\d+$/i, "")\<close>\<close>

definition strip_version :: "string \<Rightarrow> string" where
  "strip_version s =
     (let ds = takeWhile is_digit (rev s); r = dropWhile is_digit (rev s)
      in case r of
           c1 # c2 # rest \<Rightarrow> if ds \<noteq> [] \<and> ascii_lower c1 = CHR ''r'' \<and> c2 = CHR '':'' then rev rest else s
         | _ \<Rightarrow> s)"

text \<open>\<open>s.replace(/^p/i, "")\<close> for a literal \<open>p\<close> in lower case\<close>

definition strip_ci :: "string \<Rightarrow> string \<Rightarrow> string" where
  "strip_ci p s = (if map ascii_lower (take (length p) s) = p then drop (length p) s else s)"

subsection \<open>Normalization\<close>

datatype key_error = InvalidKey | NotLinearId

definition normalizeSessionKey :: "string \<Rightarrow> key_error + string" where
  "normalizeSessionKey key =
     (if key = [] then Inl InvalidKey
      else
        let cleaned = strip_version key;
            cleaned = strip_ci ''wake-linear-'' cleaned;
            cleaned = strip_ci ''linear-wake-'' cleaned;
            cleaned = strip_ci ''wake-'' cleaned;
            cleaned = strip_ci ''linear-'' cleaned;
            cleaned = toUpperCase cleaned
        in if \<not> linear_id cleaned then Inl NotLinearId else Inr (''linear-'' @ cleaned))"

definition tryNormalizeSessionKey :: "string \<Rightarrow> string option" where
  "tryNormalizeSessionKey key = (case normalizeSessionKey key of Inl _ \<Rightarrow> None | Inr k \<Rightarrow> Some k)"

definition stripRecoveryVersion :: "string \<Rightarrow> string" where
  "stripRecoveryVersion sessionKey =
     (if truthy (tryNormalizeSessionKey sessionKey) then orElse (tryNormalizeSessionKey sessionKey) []
      else orElse (tryNormalizeSessionKey (strip_version sessionKey)) sessionKey)"

definition makeFreshSessionKey :: "string \<Rightarrow> nat \<Rightarrow> key_error + string" where
  "makeFreshSessionKey baseKey attemptNumber =
     (case normalizeSessionKey baseKey of
        Inl e \<Rightarrow> Inl e
      | Inr normalized \<Rightarrow> Inr (normalized @ '':r'' @ dec_text attemptNumber))"

subsection \<open>Characters\<close>

lemma digit_char_digit [simp]: "is_digit (digit_char n)"
  by (simp add: digit_char_def is_digit_def)

lemma dec_text_digits: "list_all is_digit (dec_text n) \<and> dec_text n \<noteq> []"
proof (induction n rule: dec_text.induct)
  case (1 n)
  then show ?case by (cases "n < 10") (simp_all add: dec_text.simps [of n])
qed

lemma upper_not_digit: "is_upper c \<Longrightarrow> \<not> is_digit c"
  by (simp add: is_upper_def is_digit_def)

lemma case_variant:
  assumes "ascii_lower c' = ascii_lower c" "is_upper c \<or> is_digit c \<or> c = CHR ''-''"
  shows "js_upper c' = [c]"
proof -
  let ?n = "of_char c :: nat" and ?m = "of_char c' :: nat"
  have lt: "?n < 256" "?m < 256" by simp_all
  have "of_char (ascii_lower c') = (of_char (ascii_lower c) :: nat)" using assms(1) by simp
  then have "(if 65 \<le> ?m \<and> ?m \<le> 90 then ?m + 32 else ?m) = (if 65 \<le> ?n \<and> ?n \<le> 90 then ?n + 32 else ?n)"
    using lt by (auto simp: ascii_lower_def Let_def split: if_splits)
  moreover have "?n = 45 \<or> 48 \<le> ?n \<and> ?n \<le> 57 \<or> 65 \<le> ?n \<and> ?n \<le> 90"
    using assms(2) by (auto simp: is_upper_def is_digit_def)
  ultimately have "?m = ?n \<and> \<not> (97 \<le> ?m) \<or> ?m = ?n + 32 \<and> 97 \<le> ?m \<and> ?m \<le> 122"
    by (auto split: if_splits)
  moreover have "c' = c" if "?m = ?n" using that by (metis char_of_char)
  ultimately show ?thesis by (auto simp: js_upper_def Let_def)
qed

lemma linear_id_iff:
  "linear_id s \<longleftrightarrow> (\<exists>team ds. s = team @ CHR ''-'' # ds \<and> list_all is_upper team \<and> 1 \<le> length team \<and>
     length team \<le> 10 \<and> 1 \<le> length ds \<and> length ds \<le> 6 \<and> list_all is_digit ds)"
proof
  assume "linear_id s"
  then obtain ds where "dropWhile is_upper s = CHR ''-'' # ds" "1 \<le> length (takeWhile is_upper s)"
    "length (takeWhile is_upper s) \<le> 10" "1 \<le> length ds" "length ds \<le> 6" "list_all is_digit ds"
    by (auto simp: linear_id_def Let_def split: list.splits)
  moreover have "s = takeWhile is_upper s @ dropWhile is_upper s" by simp
  moreover have "list_all is_upper (takeWhile is_upper s)" by (auto simp: list_all_iff dest: set_takeWhileD)
  ultimately show "\<exists>team ds. s = team @ CHR ''-'' # ds \<and> list_all is_upper team \<and> 1 \<le> length team \<and>
     length team \<le> 10 \<and> 1 \<le> length ds \<and> length ds \<le> 6 \<and> list_all is_digit ds" by metis
next
  assume "\<exists>team ds. s = team @ CHR ''-'' # ds \<and> list_all is_upper team \<and> 1 \<le> length team \<and>
     length team \<le> 10 \<and> 1 \<le> length ds \<and> length ds \<le> 6 \<and> list_all is_digit ds"
  then obtain team ds where s: "s = team @ CHR ''-'' # ds" and t: "list_all is_upper team" "1 \<le> length team"
    "length team \<le> 10" "1 \<le> length ds" "length ds \<le> 6" "list_all is_digit ds" by blast
  have h: "\<not> is_upper (CHR ''-'')" by (simp add: is_upper_def)
  have "takeWhile is_upper s = team" "dropWhile is_upper s = CHR ''-'' # ds"
    unfolding s using t(1) h by (simp_all add: list_all_iff takeWhile_append2 dropWhile_append2)
  then show "linear_id s" using t by (simp add: linear_id_def)
qed

lemma linear_id_nonempty [simp]: "linear_id s \<Longrightarrow> s \<noteq> []"
  by (auto simp: linear_id_iff)

definition team_of :: "string \<Rightarrow> string" where
  "team_of s = takeWhile (\<lambda>c. c \<noteq> CHR ''-'') s"

lemma linear_id_chars: "linear_id s \<Longrightarrow> c \<in> set s \<Longrightarrow> is_upper c \<or> is_digit c \<or> c = CHR ''-''"
  by (auto simp: linear_id_iff list_all_iff)

lemma case_variants:
  "map ascii_lower s' = map ascii_lower s \<Longrightarrow> (\<And>c. c \<in> set s \<Longrightarrow> is_upper c \<or> is_digit c \<or> c = CHR ''-'') \<Longrightarrow>
   toUpperCase s' = s"
proof (induction s arbitrary: s')
  case (Cons c s)
  then obtain c' r where "s' = c' # r" "ascii_lower c' = ascii_lower c" "map ascii_lower r = map ascii_lower s" by auto
  then show ?case using Cons.IH [of r] Cons.prems(2) case_variant [of c' c] by (simp add: toUpperCase_def)
qed (simp add: toUpperCase_def)

subsection \<open>Prefixes\<close>

lemma strip_ci_prefix: "map ascii_lower p' = p \<Longrightarrow> strip_ci p (p' @ s) = s"
  by (auto simp: strip_ci_def)

lemma strip_ci_other:
  "takeWhile (\<lambda>c. c \<noteq> CHR ''-'') (map ascii_lower s) \<noteq> takeWhile (\<lambda>c. c \<noteq> CHR ''-'') p \<Longrightarrow>
   CHR ''-'' \<in> set p \<Longrightarrow> strip_ci p s = s"
proof -
  assume a: "takeWhile (\<lambda>c. c \<noteq> CHR ''-'') (map ascii_lower s) \<noteq> takeWhile (\<lambda>c. c \<noteq> CHR ''-'') p" "CHR ''-'' \<in> set p"
  have "map ascii_lower (take (length p) s) \<noteq> p"
  proof
    assume "map ascii_lower (take (length p) s) = p"
    moreover have "map ascii_lower s = map ascii_lower (take (length p) s) @ map ascii_lower (drop (length p) s)"
      by (simp flip: map_append)
    ultimately have "map ascii_lower s = p @ map ascii_lower (drop (length p) s)" by simp
    then have "takeWhile (\<lambda>c. c \<noteq> CHR ''-'') (map ascii_lower s) = takeWhile (\<lambda>c. c \<noteq> CHR ''-'') p"
      using takeWhile_append1 [OF a(2), of "\<lambda>c. c \<noteq> CHR ''-''"] by simp
    then show False using a(1) by simp
  qed
  then show ?thesis by (simp add: strip_ci_def)
qed

lemma lower_hyphen: "ascii_lower c = CHR ''-'' \<longleftrightarrow> c = CHR ''-''"
proof
  assume a: "ascii_lower c = CHR ''-''"
  then have "of_char (ascii_lower c) = (45 :: nat)" by simp
  moreover have "(of_char c :: nat) < 256" by simp
  ultimately have "(of_char c :: nat) = of_char (CHR ''-'')"
    by (auto simp: ascii_lower_def Let_def split: if_splits)
  then show "c = CHR ''-''" by (simp only: of_char_eq_iff)
qed (simp add: ascii_lower_def)

lemma upper_lower: "is_upper a \<Longrightarrow> is_upper b \<Longrightarrow> ascii_lower a = ascii_lower b \<Longrightarrow> a = b"
proof -
  assume "is_upper a" "is_upper b" "ascii_lower a = ascii_lower b"
  then have "of_char (ascii_lower a) = (of_char (ascii_lower b) :: nat)" "65 \<le> (of_char a :: nat) \<and> (of_char a :: nat) \<le> 90"
    "65 \<le> (of_char b :: nat) \<and> (of_char b :: nat) \<le> 90" by (simp_all add: is_upper_def)
  then have "(of_char a :: nat) = of_char b" by (simp add: ascii_lower_def Let_def)
  then show "a = b" by (simp only: of_char_eq_iff)
qed

lemma upper_lower_list:
  "list_all is_upper xs \<Longrightarrow> list_all is_upper ys \<Longrightarrow> map ascii_lower xs = map ascii_lower ys \<Longrightarrow> xs = ys"
proof (induction xs arbitrary: ys)
  case (Cons x xs)
  then show ?case by (cases ys) (auto dest: upper_lower)
qed simp

text \<open>The team of an identifier in any case, as the prefixes see it.\<close>

lemma id_team:
  assumes "linear_id s" "map ascii_lower s' = map ascii_lower s"
  shows "takeWhile (\<lambda>c. c \<noteq> CHR ''-'') (map ascii_lower s') = map ascii_lower (team_of s)" "list_all is_upper (team_of s)"
proof -
  show "takeWhile (\<lambda>c. c \<noteq> CHR ''-'') (map ascii_lower s') = map ascii_lower (team_of s)"
    unfolding assms(2) team_of_def takeWhile_map comp_def by (simp add: lower_hyphen)
  obtain team ds where s: "s = team @ CHR ''-'' # ds" "list_all is_upper team" using assms(1) linear_id_iff by blast
  have "\<And>c. c \<in> set team \<Longrightarrow> c \<noteq> CHR ''-''" using s(2) by (auto simp: list_all_iff is_upper_def)
  then have "team_of s = team" unfolding s(1) team_of_def by (simp add: takeWhile_append2)
  then show "list_all is_upper (team_of s)" using s(2) by simp
qed

lemma lower_names: "map ascii_lower ''WAKE'' = ''wake''" "map ascii_lower ''LINEAR'' = ''linear''"
  by code_simp+

lemma id_not_stripped:
  assumes "linear_id s" "map ascii_lower s' = map ascii_lower s" "team_of s \<noteq> ''WAKE''" "team_of s \<noteq> ''LINEAR''"
  shows "strip_ci ''wake-linear-'' s' = s'" "strip_ci ''linear-wake-'' s' = s'" "strip_ci ''wake-'' s' = s'"
    "strip_ci ''linear-'' s' = s'"
proof -
  have "map ascii_lower (team_of s) \<noteq> map ascii_lower ''WAKE''" "map ascii_lower (team_of s) \<noteq> map ascii_lower ''LINEAR''"
    using upper_lower_list [OF id_team(2) [OF assms(1,2)], of "''WAKE''"]
      upper_lower_list [OF id_team(2) [OF assms(1,2)], of "''LINEAR''"] assms(3,4)
    by (auto simp del: list.map simp add: is_upper_def)
  then have "takeWhile (\<lambda>c. c \<noteq> CHR ''-'') (map ascii_lower s') \<noteq> ''wake''"
    "takeWhile (\<lambda>c. c \<noteq> CHR ''-'') (map ascii_lower s') \<noteq> ''linear''"
    unfolding id_team(1) [OF assms(1,2)] lower_names by simp_all
  then show "strip_ci ''wake-linear-'' s' = s'" "strip_ci ''linear-wake-'' s' = s'" "strip_ci ''wake-'' s' = s'"
    "strip_ci ''linear-'' s' = s'"
    by (simp_all add: strip_ci_other)
qed

subsection \<open>Version suffix\<close>

definition version_suffix :: "string \<Rightarrow> bool" where
  "version_suffix v \<longleftrightarrow> (\<exists>c ds. v = CHR '':'' # c # ds \<and> ascii_lower c = CHR ''r'' \<and> ds \<noteq> [] \<and> list_all is_digit ds)"

lemma r_not_digit: "ascii_lower c = CHR ''r'' \<Longrightarrow> \<not> is_digit c"
proof
  assume a: "ascii_lower c = CHR ''r''" "is_digit c"
  then have "of_char (ascii_lower c) = (114 :: nat)" by simp
  then show False using a(2) by (simp add: ascii_lower_def is_digit_def Let_def split: if_splits)
qed

lemma strip_version_suffix: "version_suffix v \<Longrightarrow> strip_version (x @ v) = x"
proof -
  assume "version_suffix v"
  then obtain c ds where v: "v = CHR '':'' # c # ds" "ascii_lower c = CHR ''r''" "ds \<noteq> []" "list_all is_digit ds"
    by (auto simp: version_suffix_def)
  have nd: "\<not> is_digit c" using v(2) by (rule r_not_digit)
  have "takeWhile is_digit (rev (x @ v)) = rev ds" "dropWhile is_digit (rev (x @ v)) = c # CHR '':'' # rev x"
    using v nd takeWhile_append2 [of "rev ds" is_digit "c # CHR '':'' # rev x"]
      dropWhile_append2 [of "rev ds" is_digit "c # CHR '':'' # rev x"] by (simp_all add: list_all_iff)
  then show ?thesis using v by (simp add: strip_version_def)
qed

lemma strip_version_none: "CHR '':'' \<notin> set s \<Longrightarrow> strip_version s = s"
proof -
  assume "CHR '':'' \<notin> set s"
  moreover have "c2 \<in> set s" if "dropWhile is_digit (rev s) = c1 # c2 # r" for c1 c2 r
    using that by (metis list.set_intros(1,2) set_dropWhileD set_rev)
  ultimately show ?thesis by (auto simp: strip_version_def Let_def split: list.splits)
qed

lemma id_no_colon: "linear_id s \<Longrightarrow> CHR '':'' \<notin> set s"
  using linear_id_chars [of s "CHR '':''"] by (auto simp: is_upper_def is_digit_def)

lemma lower_colon: "ascii_lower c = CHR '':'' \<Longrightarrow> c = CHR '':''"
proof -
  assume a: "ascii_lower c = CHR '':''"
  then have "of_char (ascii_lower c) = (58 :: nat)" by simp
  moreover have "(of_char c :: nat) < 256" by simp
  ultimately have "(of_char c :: nat) = of_char (CHR '':'')"
    by (auto simp: ascii_lower_def Let_def split: if_splits)
  then show ?thesis by (simp only: of_char_eq_iff)
qed

lemma lower_no_colon: "map ascii_lower s' = s \<Longrightarrow> CHR '':'' \<notin> set s \<Longrightarrow> CHR '':'' \<notin> set s'"
proof
  assume "map ascii_lower s' = s" "CHR '':'' \<in> set s'" "CHR '':'' \<notin> set s"
  moreover have "ascii_lower (CHR '':'') = CHR '':''" by code_simp
  ultimately show False by (metis image_eqI set_map)
qed

lemma variant_no_colon: "linear_id s \<Longrightarrow> map ascii_lower s' = map ascii_lower s \<Longrightarrow> CHR '':'' \<notin> set s'"
proof (rule lower_no_colon)
  assume "linear_id s"
  then show "CHR '':'' \<notin> set (map ascii_lower s)" using id_no_colon lower_colon by (metis (no_types, lifting) image_iff set_map)
qed

lemma normalize_shape: "normalizeSessionKey k = Inr k' \<Longrightarrow> \<exists>i. linear_id i \<and> k' = ''linear-'' @ i"
  by (auto simp: normalizeSessionKey_def Let_def split: if_splits)

text \<open>A spelling of the identifier \<open>i\<close>: a legacy prefix, any case, an optional version.\<close>

definition spelling :: "string \<Rightarrow> string \<Rightarrow> bool" where
  "spelling i k \<longleftrightarrow> (\<exists>pre i' v. k = pre @ i' @ v \<and>
     map ascii_lower pre \<in> {[], ''wake-linear-'', ''linear-wake-'', ''wake-'', ''linear-''} \<and>
     map ascii_lower i' = map ascii_lower i \<and> (v = [] \<or> version_suffix v))"

lemma strip_ci_after:
  assumes "strip_ci w i' = i'" "w \<noteq> []" "map ascii_lower pre = q" "p = q @ w"
  shows "strip_ci p (pre @ i') = pre @ i'"
proof -
  have "length (drop (length w) i') \<noteq> length i'" if "map ascii_lower (take (length w) i') = w"
  proof -
    have "length w \<le> length i'" using that by (metis length_map length_take min.cobounded1)
    moreover have "0 < length w" using assms(2) by simp
    ultimately show ?thesis unfolding length_drop by linarith
  qed
  then have "map ascii_lower (take (length w) i') \<noteq> w" using assms(1) by (metis strip_ci_def)
  moreover have "length pre = length q" using assms(3) by auto
  ultimately show ?thesis using assms(3) unfolding strip_ci_def assms(4) by auto
qed

subsection \<open>What normalization yields\<close>

lemma spelling_strip_version:
  assumes "linear_id i" "map ascii_lower i' = map ascii_lower i" "v = [] \<or> version_suffix v"
    "map ascii_lower pre \<in> {[], ''wake-linear-'', ''linear-wake-'', ''wake-'', ''linear-''}"
  shows "strip_version (pre @ i' @ v) = pre @ i'"
proof -
  have "CHR '':'' \<notin> set pre" using lower_no_colon [of pre, OF refl] assms(4) by auto
  then have "strip_version (pre @ i') = pre @ i'"
    using variant_no_colon [OF assms(1,2)] by (intro strip_version_none) simp
  then show ?thesis using assms(3) strip_version_suffix [of v "pre @ i'"] by auto
qed

lemma spelling_normal:
  assumes i: "linear_id i" "team_of i \<noteq> ''WAKE''" "team_of i \<noteq> ''LINEAR''" and k: "spelling i k"
  shows "normalizeSessionKey k = Inr (''linear-'' @ i)"
proof -
  obtain pre i' v where k': "k = pre @ i' @ v" and p: "map ascii_lower pre \<in> {[], ''wake-linear-'', ''linear-wake-'', ''wake-'', ''linear-''}"
    and v: "map ascii_lower i' = map ascii_lower i" "v = [] \<or> version_suffix v"
    using k unfolding spelling_def by (elim exE conjE) (rule that; assumption)
  note strip = spelling_strip_version [OF i(1) v p]
  note keep = id_not_stripped [OF i(1) v(1) i(2,3)]
  have up: "toUpperCase i' = i" using case_variants [OF v(1) linear_id_chars [OF i(1)]] by blast
  have ne: "k \<noteq> []" using k' v(1) i(1) by auto
  have "strip_ci ''linear-'' (strip_ci ''wake-'' (strip_ci ''linear-wake-'' (strip_ci ''wake-linear-'' (pre @ i')))) = i'"
    using p
  proof (elim insertE)
    assume e: "map ascii_lower pre = ''linear-wake-''"
    then have "strip_ci ''wake-linear-'' (pre @ i') = pre @ i'" by (intro strip_ci_other) simp_all
    then show ?thesis using keep strip_ci_prefix [OF e, of i'] by simp
  next
    assume e: "map ascii_lower pre = ''wake-''"
    have "strip_ci ''wake-linear-'' (pre @ i') = pre @ i'" by (rule strip_ci_after [OF keep(4) _ e]) simp_all
    moreover have "strip_ci ''linear-wake-'' (pre @ i') = pre @ i'" using e by (intro strip_ci_other) simp_all
    ultimately show ?thesis using keep strip_ci_prefix [OF e, of i'] by simp
  next
    assume e: "map ascii_lower pre = ''linear-''"
    have "strip_ci ''linear-wake-'' (pre @ i') = pre @ i'" by (rule strip_ci_after [OF keep(3) _ e]) simp_all
    moreover have "strip_ci ''wake-linear-'' (pre @ i') = pre @ i'" "strip_ci ''wake-'' (pre @ i') = pre @ i'"
      using e by (auto intro!: strip_ci_other)
    ultimately show ?thesis using strip_ci_prefix [OF e, of i'] by simp
  qed (use keep strip_ci_prefix [of pre "''wake-linear-''" i'] in auto)
  then show ?thesis using ne i(1) up unfolding normalizeSessionKey_def Let_def k' strip by simp
qed

lemma dec_text_inverse: "dec_val 0 (dec_text n) = n"
proof (induction n rule: dec_text.induct)
  case (1 n)
  then show ?case
    by (cases "n < 10") (simp_all add: dec_text.simps [of n] dec_val_append digit_val_digit_char)
qed

lemma dec_text_inject: "dec_text m = dec_text n \<longleftrightarrow> m = n"
  by (metis dec_text_inverse)

lemma version_text: "version_suffix ('':r'' @ dec_text n)"
  using dec_text_digits [of n] by (auto simp: version_suffix_def ascii_lower_def)

lemma key_no_colon: "linear_id i \<Longrightarrow> CHR '':'' \<notin> set (''linear-'' @ i)"
  using id_no_colon by auto

lemma normalize_version:
  "CHR '':'' \<notin> set k \<Longrightarrow> k \<noteq> [] \<Longrightarrow> version_suffix v \<Longrightarrow> normalizeSessionKey (k @ v) = normalizeSessionKey k"
  by (simp add: normalizeSessionKey_def strip_version_suffix strip_version_none)

lemma length_wake: "length ''linear-wake-'' = 12"
  by simp

lemma normalize_again:
  assumes "linear_id i"
  shows "normalizeSessionKey (''linear-'' @ i) =
    (if team_of i = ''WAKE'' then Inl NotLinearId else Inr (''linear-'' @ i))"
proof -
  have sv: "strip_version (''linear-'' @ i) = ''linear-'' @ i" using key_no_colon [OF assms] by (rule strip_version_none)
  obtain team ds where i: "i = team @ CHR ''-'' # ds" "list_all is_upper team" "list_all is_digit ds"
    using assms linear_id_iff by blast
  have team: "team_of i = team"
  proof -
    have "\<And>c. c \<in> set team \<Longrightarrow> c \<noteq> CHR ''-''" using i(2) by (auto simp: list_all_iff is_upper_def)
    then show ?thesis unfolding i(1) team_of_def by (simp add: takeWhile_append2)
  qed
  have first: "strip_ci ''wake-linear-'' (''linear-'' @ i) = ''linear-'' @ i"
    by (rule strip_ci_other) (simp_all add: ascii_lower_def)
  consider (wake) "team = ''WAKE''" | (linear) "team = ''LINEAR''" | (other) "team \<noteq> ''WAKE''" "team \<noteq> ''LINEAR''" by blast
  then show ?thesis
  proof cases
    case wake
    have low: "map ascii_lower ''linear-WAKE-'' = ''linear-wake-''" by code_simp
    have second: "strip_ci ''linear-wake-'' (''linear-'' @ i) = ds"
      using strip_ci_prefix [OF low, of ds] unfolding i(1) wake by simp
    have no: "CHR ''-'' \<notin> set ds" using i(3) by (auto simp: list_all_iff is_digit_def)
    then have keep: "strip_ci p ds = ds" if "CHR ''-'' \<in> set p" for p
    proof -
      have "CHR ''-'' \<notin> set (map ascii_lower (take (length p) ds))"
        using no lower_hyphen by (force dest: in_set_takeD)
      then have "map ascii_lower (take (length p) ds) \<noteq> p" using that by metis
      then show ?thesis by (simp add: strip_ci_def)
    qed
    have up: "toUpperCase ds = ds" by (rule case_variants) (use i(3) in \<open>auto simp: list_all_iff\<close>)
    have "\<not> linear_id ds" using no by (auto simp: linear_id_iff)
    then show ?thesis using team wake
      unfolding normalizeSessionKey_def Let_def sv first second by (simp add: keep up)
  next
    case linear
    have "take 12 (''linear-'' @ i) = ''linear-LINEA''" unfolding i(1) linear by simp
    moreover have "map ascii_lower ''linear-LINEA'' = ''linear-linea''" by code_simp
    ultimately have low12: "map ascii_lower (take 12 (''linear-'' @ i)) = ''linear-linea''" by metis
    have second: "strip_ci ''linear-wake-'' (''linear-'' @ i) = ''linear-'' @ i"
      unfolding strip_ci_def by (simp only: length_wake low12 list.inject char.inject simp_thms if_False)
    have third: "strip_ci ''wake-'' (''linear-'' @ i) = ''linear-'' @ i"
      by (rule strip_ci_other) (simp_all add: ascii_lower_def)
    have low: "map ascii_lower ''linear-'' = ''linear-''" by code_simp
    have up: "toUpperCase i = i" by (rule case_variants [OF refl linear_id_chars [OF assms]])
    show ?thesis using team linear assms
      unfolding normalizeSessionKey_def Let_def sv first second third strip_ci_prefix [OF low] up by simp
  next
    case other
    have "spelling i (''linear-'' @ i)" unfolding spelling_def
      by (intro exI [of _ "''linear-''"] exI [of _ i] exI [of _ "[]"]) (simp add: ascii_lower_def)
    then show ?thesis using spelling_normal [OF assms] other team by simp
  qed
qed

subsection \<open>Properties\<close>

text \<open>
  Every spelling of an identifier gets one key: for an identifier whose team is neither WAKE
  nor LINEAR, the bare identifier or any of the four legacy prefixes before it, in any mixture
  of upper and lower case, with or without a \<open>:rN\<close> version, normalizes to \<open>linear-TEAM-NUMBER\<close>.
\<close>

theorem every_spelling_one_key:
  assumes "linear_id i" and "takeWhile (\<lambda>c. c \<noteq> CHR ''-'') i \<noteq> ''WAKE''"
    and "takeWhile (\<lambda>c. c \<noteq> CHR ''-'') i \<noteq> ''LINEAR''" and "spelling i k"
  shows "normalizeSessionKey k = Inr (''linear-'' @ i)"
  using assms spelling_normal by (simp add: team_of_def)

theorem every_spelling_one_key_witness:
  "normalizeSessionKey ''Wake-Linear-inf-12:r2'' = Inr ''linear-INF-12''"
proof -
  have "linear_id ''INF-12''" "takeWhile (\<lambda>c. c \<noteq> CHR ''-'') ''INF-12'' \<noteq> ''WAKE''"
    "takeWhile (\<lambda>c. c \<noteq> CHR ''-'') ''INF-12'' \<noteq> ''LINEAR''" by code_simp+
  moreover have "map ascii_lower ''Wake-Linear-'' = ''wake-linear-''"
    "map ascii_lower ''inf-12'' = map ascii_lower ''INF-12''" by code_simp+
  moreover have "version_suffix '':r2''" by (simp add: version_suffix_def ascii_lower_def is_digit_def)
  ultimately have "spelling ''INF-12'' ''Wake-Linear-inf-12:r2''" unfolding spelling_def
    by (intro exI [of _ "''Wake-Linear-''"] exI [of _ "''inf-12''"] exI [of _ "'':r2''"]) simp
  then show ?thesis using every_spelling_one_key [of "''INF-12''" "''Wake-Linear-inf-12:r2''"]
      \<open>linear_id _\<close> by simp
qed

text \<open>
  A normalized key is a key of a valid identifier, and it normalizes to itself with one
  exception: when the team is WAKE the second pass takes the team for the legacy prefix and
  throws.
\<close>

theorem normalized_is_stable_but_for_WAKE:
  "\<forall>k. case normalizeSessionKey k of
     Inl _ \<Rightarrow> True
   | Inr k' \<Rightarrow> take 7 k' = ''linear-'' \<and> linear_id (drop 7 k') \<and>
       normalizeSessionKey k' =
         (if takeWhile (\<lambda>c. c \<noteq> CHR ''-'') (drop 7 k') = ''WAKE'' then Inl NotLinearId else Inr k')"
  using normalize_shape normalize_again by (fastforce split: sum.split simp: team_of_def)

text \<open>
  Fresh keys for a re-dispatch: for a key that normalizes to itself each attempt number
  gives its own gateway key, all different, and every one normalizes back to the key it
  was made from, so that the tracker, the bag and the ack store still find it.
\<close>

theorem fresh_keys_distinct_and_normalize_back:
  assumes "normalizeSessionKey base = Inr k" and "normalizeSessionKey k = Inr k"
  shows "\<exists>f1 f2. makeFreshSessionKey base m = Inr f1 \<and> makeFreshSessionKey base n = Inr f2 \<and>
    (f1 = f2) = (m = n) \<and> f1 \<noteq> k \<and> normalizeSessionKey f1 = Inr k \<and> stripRecoveryVersion f1 = k"
proof -
  obtain i where i: "linear_id i" "k = ''linear-'' @ i" using normalize_shape [OF assms(1)] by blast
  have "normalizeSessionKey (k @ '':r'' @ dec_text m) = Inr k"
    using normalize_version [of k "'':r'' @ dec_text m"] key_no_colon [OF i(1)] version_text i(2) assms(2) by simp
  then show ?thesis using assms i(2) dec_text_inject
    by (simp add: makeFreshSessionKey_def stripRecoveryVersion_def tryNormalizeSessionKey_def truthy_def)
qed

theorem fresh_keys_distinct_and_normalize_back_witness:
  "\<exists>f1 f2. makeFreshSessionKey ''inf-982'' 1 = Inr f1 \<and> makeFreshSessionKey ''inf-982'' 2 = Inr f2 \<and>
    f1 \<noteq> f2 \<and> normalizeSessionKey f1 = Inr ''linear-INF-982''"
proof -
  have "normalizeSessionKey ''inf-982'' = Inr ''linear-INF-982''"
    "normalizeSessionKey ''linear-INF-982'' = Inr ''linear-INF-982''" by code_simp+
  from fresh_keys_distinct_and_normalize_back [OF this, of 1 2] show ?thesis by auto
qed

end
