(* ===== verification/JsMap.thy ===== *)
theory JsMap
  imports Prelude "HOL-Library.AList"
begin

text \<open>
  The JavaScript \<open>Map\<close> and \<open>Set\<close> of the sources. A map is the list of its entries in insertion
  order; \<open>set\<close> on a key it has keeps the entry's place, \<open>delete\<close> removes the entry. A set is
  the list of its members in insertion order.
\<close>

type_synonym ('k, 'v) jsmap = "('k \<times> 'v) list"

definition map_get :: "('k, 'v) jsmap \<Rightarrow> 'k \<Rightarrow> 'v option" where
  "map_get m k = map_of m k"

definition map_has :: "('k, 'v) jsmap \<Rightarrow> 'k \<Rightarrow> bool" where
  "map_has m k = (map_of m k \<noteq> None)"

definition map_set :: "'k \<Rightarrow> 'v \<Rightarrow> ('k, 'v) jsmap \<Rightarrow> ('k, 'v) jsmap" where
  "map_set k v m = AList.update k v m"

definition map_delete :: "'k \<Rightarrow> ('k, 'v) jsmap \<Rightarrow> ('k, 'v) jsmap" where
  "map_delete k m = AList.delete k m"

definition map_keys :: "('k, 'v) jsmap \<Rightarrow> 'k list" where
  "map_keys m = map fst m"

definition map_ok :: "('k, 'v) jsmap \<Rightarrow> bool" where
  "map_ok m = distinct (map fst m)"

definition set_add :: "'a \<Rightarrow> 'a list \<Rightarrow> 'a list" where
  "set_add x xs = (if x \<in> set xs then xs else xs @ [x])"

text \<open>\<open>[...new Set(xs)]\<close>: the first occurrences, in order.\<close>

definition unique :: "'a list \<Rightarrow> 'a list" where
  "unique xs = fold set_add xs []"

subsection \<open>Laws\<close>

lemma get_set [simp]: "map_get (map_set k v m) k' = (if k' = k then Some v else map_get m k')"
  by (simp add: map_get_def map_set_def AList.update_conv')

lemma get_delete [simp]: "map_get (map_delete k m) k' = (if k' = k then None else map_get m k')"
  by (simp add: map_get_def map_delete_def AList.delete_conv')

lemma get_Nil [simp]: "map_get [] k = None"
  by (simp add: map_get_def)

lemma has_get: "map_has m k \<longleftrightarrow> map_get m k \<noteq> None"
  by (simp add: map_has_def map_get_def)

lemma map_ok_set [simp]: "map_ok m \<Longrightarrow> map_ok (map_set k v m)"
  by (simp add: map_ok_def map_set_def AList.distinct_update)

lemma map_ok_delete [simp]: "map_ok m \<Longrightarrow> map_ok (map_delete k m)"
  by (simp add: map_ok_def map_delete_def AList.distinct_delete)

lemma map_ok_Nil [simp]: "map_ok []"
  by (simp add: map_ok_def)

lemma get_mem: "map_ok m \<Longrightarrow> map_get m k = Some v \<longleftrightarrow> (k, v) \<in> set m"
  by (simp add: map_get_def map_ok_def)

lemma keys_get: "k \<in> set (map_keys m) \<longleftrightarrow> map_get m k \<noteq> None"
  by (auto simp: map_keys_def map_get_def map_of_eq_None_iff)

lemma set_set_add [simp]: "set (set_add x xs) = insert x (set xs)"
  by (auto simp: set_add_def)

lemma distinct_set_add [simp]: "distinct xs \<Longrightarrow> distinct (set_add x xs)"
  by (simp add: set_add_def)

lemma set_add_ne [simp]: "set_add x xs \<noteq> []"
  by (auto simp: set_add_def)

lemma fold_set_add: "set (fold set_add xs acc) = set acc \<union> set xs" "distinct acc \<Longrightarrow> distinct (fold set_add xs acc)"
  by (induction xs arbitrary: acc) auto

lemma set_unique [simp]: "set (unique xs) = set xs"
  by (simp add: unique_def fold_set_add)

lemma distinct_unique [simp]: "distinct (unique xs)"
  by (simp add: unique_def fold_set_add)

lemma unique_Nil [simp]: "unique xs = [] \<longleftrightarrow> xs = []"
  by (metis set_empty set_unique)

end
