(* ===== verification/CounterInterface.thy ===== *)
theory CounterInterface
  imports Prelude
begin

text \<open>
  The contract of a per-key attempt counter: the re-dispatch budget, the hold-retry attempts, the
  wake and prompt counts all promise it. \<open>count_of\<close> counts the attempts of a key since its last
  reset in a history; the locale proves once that a provider's counter is that number.
\<close>

datatype 'k count_event = Attempt 'k | Reset 'k

fun count_of :: "'k count_event list \<Rightarrow> 'k \<Rightarrow> nat \<Rightarrow> nat" where
  "count_of [] k n = n"
| "count_of (Attempt k' # es) k n = count_of es k (if k' = k then n + 1 else n)"
| "count_of (Reset k' # es) k n = count_of es k (if k' = k then 0 else n)"

definition attempts :: "'k \<Rightarrow> 'k count_event list \<Rightarrow> nat" where
  "attempts k es = length [e \<leftarrow> es. e = Attempt k]"

lemma count_of_mono: "m \<le> n \<Longrightarrow> count_of es k m \<le> count_of es k n"
  by (induction es k m arbitrary: n rule: count_of.induct) auto

lemma count_of_no_reset: "Reset k \<notin> set es \<Longrightarrow> count_of es k n = n + attempts k es"
  by (induction es k n rule: count_of.induct) (auto simp: attempts_def)

lemma count_of_append: "count_of (es @ fs) k n = count_of fs k (count_of es k n)"
  by (induction es k n rule: count_of.induct) auto

lemma count_of_other: "Attempt k \<notin> set es \<Longrightarrow> Reset k \<notin> set es \<Longrightarrow> count_of es k n = n"
  by (induction es k n rule: count_of.induct) auto

locale attempt_counter =
  fixes attempt :: "'k \<Rightarrow> 's \<Rightarrow> 's"
    and reset :: "'k \<Rightarrow> 's \<Rightarrow> 's"
    and used :: "'s \<Rightarrow> 'k \<Rightarrow> nat"
    and ok :: "'s \<Rightarrow> bool"
  assumes used_attempt: "ok s \<Longrightarrow> used (attempt k s) k' = (if k' = k then used s k + 1 else used s k')"
    and used_reset: "ok s \<Longrightarrow> used (reset k s) k' = (if k' = k then 0 else used s k')"
    and ok_attempt: "ok s \<Longrightarrow> ok (attempt k s)"
    and ok_reset: "ok s \<Longrightarrow> ok (reset k s)"
begin

definition apply_event :: "'k count_event \<Rightarrow> 's \<Rightarrow> 's" where
  "apply_event e s = (case e of Attempt k \<Rightarrow> attempt k s | Reset k \<Rightarrow> reset k s)"

lemma ok_event: "ok s \<Longrightarrow> ok (apply_event e s)"
  by (simp add: apply_event_def ok_attempt ok_reset split: count_event.split)

lemma used_trace: "ok s \<Longrightarrow> ok (fold apply_event es s) \<and> used (fold apply_event es s) k = count_of es k (used s k)"
proof (induction es arbitrary: s)
  case (Cons e es)
  then show ?case
    by (cases e) (simp_all add: apply_event_def used_attempt used_reset ok_attempt ok_reset)
qed simp

lemma capped_after:
  "ok s \<Longrightarrow> Reset k \<notin> set es \<Longrightarrow> cap \<le> attempts k es \<Longrightarrow> cap \<le> used (fold apply_event es s) k"
  by (simp add: used_trace count_of_no_reset)

end

end
