(* ===== verification/HoldRetry.thy ===== *)
theory HoldRetry
  imports SessionKey JsMap CounterInterface
begin

text \<open>
  \<open>src/bag/hold-retry-tracker.ts\<close>, the retries of runs that ended without a transition, and the
  part of the session-end handler of \<open>src/index.ts\<close> that decides and counts them.
\<close>

subsection \<open>State and operations\<close>

definition parseEnvInt :: "string option \<Rightarrow> nat \<Rightarrow> nat" where
  "parseEnvInt raw defaultVal =
     (case (case raw of Some r \<Rightarrow> parseInt r | None \<Rightarrow> None) of
        None \<Rightarrow> defaultVal
      | Some parsed \<Rightarrow> if parsed \<le> 0 then defaultVal else nat parsed)"

record HoldRetryTracker =
  transitionSeen :: "(string, string list) jsmap"
  holdAttempts :: "(string, (string, nat) jsmap) jsmap"
  graceMs :: nat
  hold_maxAttempts :: nat

definition hold_new :: "nat option \<Rightarrow> nat option \<Rightarrow> string option \<Rightarrow> string option \<Rightarrow> HoldRetryTracker" where
  "hold_new grace maxA envGrace envMax =
     \<lparr>transitionSeen = [], holdAttempts = [],
      graceMs = (case grace of Some g \<Rightarrow> g | None \<Rightarrow> parseEnvInt envGrace 120000),
      hold_maxAttempts = (case maxA of Some m \<Rightarrow> m | None \<Rightarrow> parseEnvInt envMax 2)\<rparr>"

definition recordTransition :: "string \<Rightarrow> string \<Rightarrow> HoldRetryTracker \<Rightarrow> HoldRetryTracker" where
  "recordTransition agentId ticketId s =
     s\<lparr>transitionSeen := map_set agentId (set_add ticketId (orElse (map_get (transitionSeen s) agentId) []))
         (transitionSeen s)\<rparr>"

definition hasTransition :: "HoldRetryTracker \<Rightarrow> string \<Rightarrow> string \<Rightarrow> bool" where
  "hasTransition s agentId ticketId =
     (case map_get (transitionSeen s) agentId of None \<Rightarrow> False | Some seen \<Rightarrow> ticketId \<in> set seen)"

definition getHoldAttempts :: "HoldRetryTracker \<Rightarrow> string \<Rightarrow> string \<Rightarrow> nat" where
  "getHoldAttempts s agentId ticketId =
     (case map_get (holdAttempts s) agentId of None \<Rightarrow> 0 | Some m \<Rightarrow> orElse (map_get m ticketId) 0)"

definition incrementHoldAttempt :: "string \<Rightarrow> string \<Rightarrow> HoldRetryTracker \<Rightarrow> nat \<times> HoldRetryTracker" where
  "incrementHoldAttempt agentId ticketId s =
     (let agentMap = orElse (map_get (holdAttempts s) agentId) [];
          nxt = orElse (map_get agentMap ticketId) 0 + 1
      in (nxt, s\<lparr>holdAttempts := map_set agentId (map_set ticketId nxt agentMap) (holdAttempts s)\<rparr>))"

definition shouldRetryHold :: "HoldRetryTracker \<Rightarrow> string \<Rightarrow> string \<Rightarrow> nat option \<Rightarrow> bool" where
  "shouldRetryHold s agentId ticketId dispatchAgeMs =
     (if hasTransition s agentId ticketId then False
      else if hold_maxAttempts s \<le> getHoldAttempts s agentId ticketId then False
      else if dispatchAgeMs \<noteq> None \<and> graceMs s < orElse dispatchAgeMs 0 then False
      else True)"

definition clearTransition :: "string \<Rightarrow> string \<Rightarrow> HoldRetryTracker \<Rightarrow> HoldRetryTracker" where
  "clearTransition agentId ticketId s =
     (case map_get (transitionSeen s) agentId of
        None \<Rightarrow> s
      | Some seen \<Rightarrow> s\<lparr>transitionSeen := map_set agentId (removeAll ticketId seen) (transitionSeen s)\<rparr>)"

definition clearTicket :: "string \<Rightarrow> string \<Rightarrow> HoldRetryTracker \<Rightarrow> HoldRetryTracker" where
  "clearTicket agentId ticketId s =
     (let s = clearTransition agentId ticketId s
      in case map_get (holdAttempts s) agentId of
           None \<Rightarrow> s
         | Some m \<Rightarrow> s\<lparr>holdAttempts := map_set agentId (map_delete ticketId m) (holdAttempts s)\<rparr>)"

subsection \<open>The session-end handler\<close>

text \<open>
  \<open>ages\<close> gives the age of the agent's tracked dispatches, \<open>regularPending\<close> the tickets that are
  signalled anyway and \<open>rearmed\<close> whether a deferred ticket took the freed capacity.
\<close>

fun normalize_all :: "string list \<Rightarrow> key_error + string list" where
  "normalize_all [] = Inr []"
| "normalize_all (k # ks) = (case normalizeSessionKey k of
     Inl e \<Rightarrow> Inl e
   | Inr k' \<Rightarrow> (case normalize_all ks of Inl e \<Rightarrow> Inl e | Inr ks' \<Rightarrow> Inr (k' # ks')))"

definition holdCandidates :: "HoldRetryTracker \<Rightarrow> string \<Rightarrow> (string \<Rightarrow> nat option) \<Rightarrow> string list \<Rightarrow> string list" where
  "holdCandidates s agentId ages keys =
     [k \<leftarrow> keys. case ages k of None \<Rightarrow> False | Some age \<Rightarrow> shouldRetryHold s agentId k (Some age)]"

definition settle_key :: "string \<Rightarrow> string \<Rightarrow> HoldRetryTracker \<Rightarrow> HoldRetryTracker" where
  "settle_key agentId k s =
     (if hasTransition s agentId k then clearTicket agentId k s else clearTransition agentId k s)"

definition session_end_holds ::
  "string \<Rightarrow> string list \<Rightarrow> (string \<Rightarrow> nat option) \<Rightarrow> string list \<Rightarrow> bool \<Rightarrow> HoldRetryTracker \<Rightarrow>
   key_error + (string list \<times> HoldRetryTracker)" where
  "session_end_holds agentId endedKeys ages regularPending rearmed s =
     (case normalize_all endedKeys of
        Inl e \<Rightarrow> Inl e
      | Inr keys \<Rightarrow>
          let holdIds = holdCandidates s agentId ages keys;
              s1 = fold (settle_key agentId) keys s;
              newHoldIds = (if rearmed then [] else [k \<leftarrow> holdIds. k \<notin> set regularPending])
          in Inr (newHoldIds, fold (\<lambda>k s. snd (incrementHoldAttempt agentId k s)) newHoldIds s1))"

subsection \<open>Lookups and the counter contract\<close>

lemma attempts_increment:
  "getHoldAttempts (snd (incrementHoldAttempt a t s)) a' t' =
     (if a' = a \<and> t' = t then getHoldAttempts s a t + 1 else getHoldAttempts s a' t')"
  by (auto simp: incrementHoldAttempt_def getHoldAttempts_def Let_def split: option.splits)

lemma attempts_clearTransition [simp]: "getHoldAttempts (clearTransition a t s) a' t' = getHoldAttempts s a' t'"
  by (auto simp: clearTransition_def getHoldAttempts_def split: option.splits)

lemma holdAttempts_clearTransition [simp]: "holdAttempts (clearTransition a t s) = holdAttempts s"
  by (simp add: clearTransition_def split: option.splits)

lemma attempts_clearTicket:
  "getHoldAttempts (clearTicket a t s) a' t' = (if a' = a \<and> t' = t then 0 else getHoldAttempts s a' t')"
  by (auto simp: clearTicket_def getHoldAttempts_def Let_def split: option.splits)

lemma has_simps [simp]:
  "hasTransition (clearTransition a t s) a' t' = (hasTransition s a' t' \<and> \<not> (a' = a \<and> t' = t))"
  "hasTransition (clearTicket a t s) a' t' = (hasTransition s a' t' \<and> \<not> (a' = a \<and> t' = t))"
  "hasTransition (recordTransition a t s) a' t' = (hasTransition s a' t' \<or> a' = a \<and> t' = t)"
  "hasTransition (snd (incrementHoldAttempt a t s)) a' t' = hasTransition s a' t'"
  "getHoldAttempts (recordTransition a t s) a' t' = getHoldAttempts s a' t'"
  by (auto simp: clearTransition_def clearTicket_def hasTransition_def recordTransition_def Let_def
      incrementHoldAttempt_def getHoldAttempts_def split: option.splits)

lemma config_simps [simp]:
  "hold_maxAttempts (clearTransition a t s) = hold_maxAttempts s" "hold_maxAttempts (clearTicket a t s) = hold_maxAttempts s"
  "hold_maxAttempts (recordTransition a t s) = hold_maxAttempts s"
  "hold_maxAttempts (snd (incrementHoldAttempt a t s)) = hold_maxAttempts s"
  by (auto simp: clearTransition_def clearTicket_def recordTransition_def incrementHoldAttempt_def Let_def split: option.splits)

interpretation hold: attempt_counter "\<lambda>(a, t) s. snd (incrementHoldAttempt a t s)" "\<lambda>(a, t). clearTicket a t"
    "\<lambda>s (a, t). getHoldAttempts s a t" "\<lambda>_. True"
  by unfold_locales (auto simp: attempts_increment attempts_clearTicket split: if_splits)

lemma settle_attempts:
  "getHoldAttempts (fold (settle_key a) keys s) a' t =
     (if a' = a \<and> t \<in> set keys \<and> hasTransition s a t then 0 else getHoldAttempts s a' t)"
  by (induction keys arbitrary: s) (auto simp: settle_key_def attempts_clearTicket)

lemma settle_has:
  "hasTransition (fold (settle_key a) keys s) a' t = (hasTransition s a' t \<and> \<not> (a' = a \<and> t \<in> set keys))"
  by (induction keys arbitrary: s) (auto simp: settle_key_def)

lemma settle_max [simp]: "hold_maxAttempts (fold (settle_key a) keys s) = hold_maxAttempts s"
  by (induction keys arbitrary: s) (simp_all add: settle_key_def)

lemma increments:
  "getHoldAttempts (fold (\<lambda>k s. snd (incrementHoldAttempt a k s)) ks s) a' t =
     getHoldAttempts s a' t + (if a' = a then count_list ks t else 0) \<and>
   hasTransition (fold (\<lambda>k s. snd (incrementHoldAttempt a k s)) ks s) a' t = hasTransition s a' t \<and>
   hold_maxAttempts (fold (\<lambda>k s. snd (incrementHoldAttempt a k s)) ks s) = hold_maxAttempts s"
  by (induction ks arbitrary: s) (auto simp: attempts_increment)

subsection \<open>Runs\<close>

datatype hold_event =
    Transition string string
  | SessionEnd string "string list" "string \<Rightarrow> nat option" "string list" bool

text \<open>A run collects the (agent, ticket) pairs the handler dispatches again.\<close>

fun hold_run :: "hold_event list \<Rightarrow> HoldRetryTracker \<Rightarrow> (string \<times> string) list \<times> HoldRetryTracker" where
  "hold_run [] s = ([], s)"
| "hold_run (Transition a t # es) s = hold_run es (recordTransition a t s)"
| "hold_run (SessionEnd a keys ages reg rearmed # es) s =
     (case session_end_holds a keys ages reg rearmed s of
        Inl _ \<Rightarrow> hold_run es s
      | Inr (new, s') \<Rightarrow> (let (r, s2) = hold_run es s' in (map (Pair a) new @ r, s2)))"

definition one_key_each :: "hold_event \<Rightarrow> bool" where
  "one_key_each e = (case e of Transition a t \<Rightarrow> True
     | SessionEnd a keys ages reg rearmed \<Rightarrow> (case normalize_all keys of Inl _ \<Rightarrow> True | Inr ks \<Rightarrow> distinct ks))"

lemma count_distinct_filter: "distinct ks \<Longrightarrow> count_list [k \<leftarrow> ks. P k] t \<le> 1"
  by (induction ks) auto

lemma count_filter_not: "\<not> P t \<Longrightarrow> count_list [k \<leftarrow> ks. P k] t = 0"
  by (simp add: count_list_0_iff)

lemma session_end_step:
  assumes "session_end_holds a keys ages reg rearmed s = Inr (new, s')"
    and "one_key_each (SessionEnd a keys ages reg rearmed)" and "\<not> hasTransition s b t"
    and "getHoldAttempts s b t \<le> hold_maxAttempts s"
  shows "\<not> hasTransition s' b t \<and> hold_maxAttempts s' = hold_maxAttempts s \<and>
    getHoldAttempts s' b t \<le> hold_maxAttempts s \<and>
    getHoldAttempts s' b t = getHoldAttempts s b t + (if a = b then count_list new t else 0)"
proof -
  obtain ks where ks: "normalize_all keys = Inr ks" "distinct ks"
    "new = (if rearmed then [] else [k \<leftarrow> holdCandidates s a ages ks. k \<notin> set reg])"
    "s' = fold (\<lambda>k s. snd (incrementHoldAttempt a k s)) new (fold (settle_key a) ks s)"
    using assms(1,2) by (auto simp: session_end_holds_def one_key_each_def Let_def split: sum.splits)
  have new: "new = [k \<leftarrow> ks. \<not> rearmed \<and> k \<notin> set reg \<and>
      (case ages k of None \<Rightarrow> False | Some age \<Rightarrow> shouldRetryHold s a k (Some age))]"
    unfolding ks(3) by (auto simp: holdCandidates_def intro: filter_cong)
  have "count_list new t \<le> 1" unfolding new by (rule count_distinct_filter [OF ks(2)])
  moreover have "count_list new t = 0" if "a = b" "hold_maxAttempts s \<le> getHoldAttempts s b t"
    unfolding new using that by (intro count_filter_not) (auto simp: shouldRetryHold_def split: option.splits)
  ultimately have "a = b \<Longrightarrow> getHoldAttempts s b t + count_list new t \<le> hold_maxAttempts s"
    using assms(4) by (cases "hold_maxAttempts s \<le> getHoldAttempts s b t") auto
  then show ?thesis using assms(3,4)
    by (auto simp: ks(4) increments settle_attempts settle_has)
qed

lemma hold_run_bounded:
  assumes "\<forall>e \<in> set es. one_key_each e" "Transition a t \<notin> set es" "\<not> hasTransition s a t"
    "getHoldAttempts s a t \<le> hold_maxAttempts s"
  shows "getHoldAttempts s a t + count_list (fst (hold_run es s)) (a, t) \<le> hold_maxAttempts s"
  using assms
proof (induction es arbitrary: s)
  case (Cons e es)
  show ?case
  proof (cases e)
    case (Transition b u)
    then show ?thesis using Cons.IH [of "recordTransition b u s"] Cons.prems by auto
  next
    case (SessionEnd b keys ages reg rearmed)
    show ?thesis
    proof (cases "session_end_holds b keys ages reg rearmed s")
      case (Inl x)
      then show ?thesis using Cons SessionEnd by simp
    next
      case (Inr p)
      obtain new s' where p: "p = (new, s')" by (cases p)
      have pair: "count_list (map (Pair b) new) (a, t) = (if b = a then count_list new t else 0)"
        by (induction new) auto
      note step = session_end_step [OF Inr [unfolded p], of a t]
      have "getHoldAttempts s' a t + count_list (fst (hold_run es s')) (a, t) \<le> hold_maxAttempts s"
        using Cons.IH [of s'] step Cons.prems SessionEnd by auto
      then show ?thesis using step Cons.prems SessionEnd Inr p pair by (auto simp: split_beta Let_def)
    qed
  qed
qed simp

text \<open>
  Holds are retried a bounded number of times: from a tracker with no attempts of the
  ticket, through any sequence of session ends of any agents (with whatever dispatch ages and
  pending tickets) and transitions of other tickets, the handler dispatches the agent again for
  the ticket at most \<open>maxAttempts\<close> times as long as the agent makes no transition on it.
\<close>

theorem hold_retries_bounded:
  assumes "\<forall>e \<in> set es. one_key_each e" and "Transition a t \<notin> set es"
    and "\<not> hasTransition s a t" and "getHoldAttempts s a t = 0"
  shows "count_list (fst (hold_run es s)) (a, t) \<le> hold_maxAttempts s"
  using hold_run_bounded [OF assms(1-3)] assms(4) by simp

theorem hold_retries_bounded_witness:
  "count_list (fst (hold_run (replicate 5 (SessionEnd ''ada'' [''linear-INF-1''] (\<lambda>_. Some 10) [] False))
     (hold_new None None None None))) (''ada'', ''linear-INF-1'') \<le> 2"
proof -
  have "normalize_all [''linear-INF-1''] = Inr [''linear-INF-1'']" by code_simp
  then show ?thesis
    using hold_retries_bounded [of "replicate 5 (SessionEnd ''ada'' [''linear-INF-1''] (\<lambda>_. Some 10) [] False)"
        "''ada''" "''linear-INF-1''" "hold_new None None None None"]
    by (auto simp: one_key_each_def hold_new_def hasTransition_def getHoldAttempts_def parseEnvInt_def)
qed

end
