(* ===== verification/SqlTime.thy ===== *)
theory SqlTime
  imports SqlTable
begin

text \<open>
  The other form of time in the databases: \<open>datetime('now')\<close> of SQLite, which the sources also
  build by \<open>toISOString().replace("T", " ")\<close> without milliseconds and read back by
  \<open>new Date(s.replace(" ", "T") + "Z")\<close>.
\<close>

definition clock_text :: "nat \<Rightarrow> string" where
  "clock_text r = pad 2 (r div 3600000) @ '':'' @ pad 2 (r div 60000 mod 60) @ '':'' @ pad 2 (r div 1000 mod 60)"

definition sql_datetime :: "nat \<Rightarrow> string" where
  "sql_datetime t = date_text (t div 86400000) @ '' '' @ clock_text (t mod 86400000)"

definition sql_getTime :: "string \<Rightarrow> int option" where
  "sql_getTime s = getTime (take 10 s @ ''T'' @ drop 11 s @ ''.000Z'')"

lemma less_append_same_length:
  "length xs = length ys \<Longrightarrow> xs @ us < ys @ vs \<longleftrightarrow> xs < ys \<or> xs = ys \<and> us < (vs :: 'a::linorder list)"
  by (metis list_less_append list_less_append_same less_asym neq_iff)

lemma length_clock [simp]: "length (clock_text r) = 8"
  by (simp add: clock_text_def)

lemma whole_second:
  "clock_text (1000 * (t div 1000) mod 86400000) = clock_text (t mod 86400000)"
  "1000 * (t div 1000) div 86400000 = t div 86400000" for t :: nat
proof -
  have m: "1000 * (t div 1000) mod 86400000 = 1000 * (t mod 86400000 div 1000)"
  proof -
    have "1000 * (t div 1000) mod (1000 * 86400) = 1000 * (t div 1000 mod 86400)" by (rule mult_mod_right [symmetric])
    moreover have "t mod (1000 * 86400) div 1000 = t div 1000 mod 86400"
      unfolding mod_mult2_eq [of t 1000 86400] by (simp only: div_mult_self4 div_mult_self2 div_less mod_less_divisor zero_less_numeral)
    ultimately show ?thesis by simp
  qed
  have q: "1000 * (x div 1000) div 60000 = x div 60000" "1000 * (x div 1000) div 3600000 = x div 3600000"
    "1000 * (x div 1000) div 1000 = x div 1000" for x :: nat
  proof -
    have "1000 * (x div 1000) div (1000 * k) = x div (1000 * k)" for k :: nat
      by (simp add: div_mult2_eq)
    from this [of 60] this [of 3600] show "1000 * (x div 1000) div 60000 = x div 60000"
      "1000 * (x div 1000) div 3600000 = x div 3600000" by simp_all
  qed simp
  show "clock_text (1000 * (t div 1000) mod 86400000) = clock_text (t mod 86400000)"
    unfolding m clock_text_def q ..
  show "1000 * (t div 1000) div 86400000 = t div 86400000"
    using div_mult2_eq [of "1000 * (t div 1000)" 1000 86400] div_mult2_eq [of t 1000 86400] by simp
qed

text \<open>The stamp of a second, written in either form.\<close>

lemma iso_of_second:
  "toISOString (1000 * (t div 1000)) =
     date_text (t div 86400000) @ ''T'' @ clock_text (t mod 86400000) @ ''.000Z''"
proof -
  have ms: "1000 * (t div 1000) mod 86400000 mod 1000 = 0"
    by (simp add: mod_mod_cancel)
  have "time_text r = clock_text r @ ''.000Z''" if "r mod 1000 = 0" for r
  proof -
    have "pad 3 0 = ''000''" by code_simp
    then have "pad 3 (r mod 1000) = ''000''" using that by metis
    then show ?thesis by (simp add: time_text_def clock_text_def)
  qed
  from this [OF ms] show ?thesis
    unfolding toISOString_def whole_second by (simp add: whole_second)
qed

lemma second_bound: "t < iso_max \<Longrightarrow> 1000 * (t div 1000) < iso_max"
  by (rule le_less_trans [OF times_div_less_eq_dividend])

lemma date_length: "t < iso_max \<Longrightarrow> length (date_text (t div 86400000)) = 10"
  by (rule length_date_text [OF year_below_10000])

lemma sql_datetime_less:
  assumes "a < iso_max" "b < iso_max"
  shows "sql_datetime a < sql_datetime b \<longleftrightarrow> a div 1000 < b div 1000"
proof -
  have "toISOString (1000 * (a div 1000)) < toISOString (1000 * (b div 1000)) \<longleftrightarrow> a div 1000 < b div 1000"
    using iso_less_iff [OF second_bound [OF assms(1)] second_bound [OF assms(2)]] by simp
  then show ?thesis
    unfolding iso_of_second sql_datetime_def
    by (simp add: less_append_same_length date_length assms)
qed

lemma sql_datetime_eq:
  assumes "a < iso_max" "b < iso_max"
  shows "sql_datetime a = sql_datetime b \<longleftrightarrow> a div 1000 = b div 1000"
  using sql_datetime_less [OF assms] sql_datetime_less [OF assms(2,1)] by (metis neq_iff)

lemma sql_datetime_le:
  "a < iso_max \<Longrightarrow> b < iso_max \<Longrightarrow> sql_datetime a \<le> sql_datetime b \<longleftrightarrow> a div 1000 \<le> b div 1000"
  by (metis sql_datetime_less not_le)

lemma sql_getTime_datetime: "t < iso_max \<Longrightarrow> sql_getTime (sql_datetime t) = Some (1000 * int (t div 1000))"
proof -
  assume t: "t < iso_max"
  have l: "length (date_text (t div 86400000)) = 10" using t by (rule date_length)
  have "sql_getTime (sql_datetime t) = getTime (toISOString (1000 * (t div 1000)))"
    unfolding iso_of_second sql_getTime_def sql_datetime_def by (simp add: l)
  then show ?thesis using getTime_iso [OF second_bound [OF t]] by simp
qed

end
