(* ===== verification/RedispatchBudget.thy ===== *)
theory RedispatchBudget
  imports SqlTime CounterInterface
begin

text \<open>
  \<open>src/bag/global-redispatch-budget.ts\<close>: the one re-dispatch budget of a ticket that all
  detectors share. \<open>maxAttempts\<close> is \<open>None\<close> when the environment variable does not parse, where
  every comparison with it is false.
\<close>

subsection \<open>State and operations\<close>

definition DEFAULT_MAX_ATTEMPTS :: int where
  "DEFAULT_MAX_ATTEMPTS = 3"

record BudgetRow =
  bg_ticket_id :: string
  bg_attempt_count :: nat
  bg_first_attempt_at :: string
  bg_last_attempt_at :: string

record GlobalRedispatchBudget =
  global_redispatch_budget :: "BudgetRow list"
  maxAttempts :: "int option"

definition budget_open :: "BudgetRow list \<Rightarrow> int option \<Rightarrow> string option \<Rightarrow> GlobalRedispatchBudget" where
  "budget_open rows configured env =
     \<lparr>global_redispatch_budget = rows,
      maxAttempts = (case configured of Some n \<Rightarrow> Some n | None \<Rightarrow> parseInt (orElse env ''3''))\<rparr>"

definition budget_get :: "GlobalRedispatchBudget \<Rightarrow> string \<Rightarrow> nat" where
  "budget_get s ticketId = (case sel_one (\<lambda>r. bg_ticket_id r = ticketId) (global_redispatch_budget s) of
     None \<Rightarrow> 0 | Some r \<Rightarrow> bg_attempt_count r)"

text \<open>The upsert \<open>INSERT ... ON CONFLICT(ticket_id) DO UPDATE\<close>, and \<open>consume\<close> around it.\<close>

definition budget_upsert :: "string \<Rightarrow> nat \<Rightarrow> BudgetRow list \<Rightarrow> BudgetRow list" where
  "budget_upsert ticketId now rows =
     (if \<exists>r \<in> set rows. bg_ticket_id r = ticketId
      then upd_where (\<lambda>r. bg_ticket_id r = ticketId)
             (\<lambda>r. r\<lparr>bg_attempt_count := bg_attempt_count r + 1, bg_last_attempt_at := sql_datetime now\<rparr>) rows
      else rows @ [\<lparr>bg_ticket_id = ticketId, bg_attempt_count = 1, bg_first_attempt_at = sql_datetime now,
                    bg_last_attempt_at = sql_datetime now\<rparr>])"

definition consume :: "string \<Rightarrow> nat \<Rightarrow> GlobalRedispatchBudget \<Rightarrow> nat \<times> GlobalRedispatchBudget" where
  "consume ticketId now s =
     (let s' = s\<lparr>global_redispatch_budget := budget_upsert ticketId now (global_redispatch_budget s)\<rparr>
      in (case sel_one (\<lambda>r. bg_ticket_id r = ticketId) (global_redispatch_budget s') of
            None \<Rightarrow> 1 | Some r \<Rightarrow> bg_attempt_count r, s'))"

definition isCapped :: "GlobalRedispatchBudget \<Rightarrow> string \<Rightarrow> bool" where
  "isCapped s ticketId = (\<not> num_less (Some (int (budget_get s ticketId))) (maxAttempts s) \<and> maxAttempts s \<noteq> None)"

definition seal :: "string \<Rightarrow> nat \<Rightarrow> GlobalRedispatchBudget \<Rightarrow> bool \<times> GlobalRedispatchBudget" where
  "seal ticketId now s =
     (let (count, s') = consume ticketId now s
      in (\<not> num_less (Some (int count)) (maxAttempts s') \<and> maxAttempts s' \<noteq> None, s'))"

definition budget_reset :: "string \<Rightarrow> GlobalRedispatchBudget \<Rightarrow> GlobalRedispatchBudget" where
  "budget_reset ticketId s =
     s\<lparr>global_redispatch_budget := del_where (\<lambda>r. bg_ticket_id r = ticketId) (global_redispatch_budget s)\<rparr>"

definition budget_list :: "GlobalRedispatchBudget \<Rightarrow> BudgetRow list" where
  "budget_list s = rev (sort_key bg_last_attempt_at (rev (global_redispatch_budget s)))"

subsection \<open>Invariant and the counter contract\<close>

definition budget_inv :: "GlobalRedispatchBudget \<Rightarrow> bool" where
  "budget_inv s \<longleftrightarrow> key_ok bg_ticket_id (global_redispatch_budget s) \<and>
     (\<forall>r \<in> set (global_redispatch_budget s). 1 \<le> bg_attempt_count r)"

lemma upsert_lookup:
  "sel_one (\<lambda>r. bg_ticket_id r = k) (budget_upsert t now rows) =
     (if k = t then
        (case sel_one (\<lambda>r. bg_ticket_id r = t) rows of
           None \<Rightarrow> Some \<lparr>bg_ticket_id = t, bg_attempt_count = 1, bg_first_attempt_at = sql_datetime now,
                        bg_last_attempt_at = sql_datetime now\<rparr>
         | Some r \<Rightarrow> Some (r\<lparr>bg_attempt_count := bg_attempt_count r + 1, bg_last_attempt_at := sql_datetime now\<rparr>))
      else sel_one (\<lambda>r. bg_ticket_id r = k) rows)"
proof (cases "\<exists>r \<in> set rows. bg_ticket_id r = t")
  case True
  then have "sel_one (\<lambda>r. bg_ticket_id r = t) rows \<noteq> None" by (simp add: sel_one_None)
  then show ?thesis using True
    by (cases "sel_one (\<lambda>r. bg_ticket_id r = k) rows")
       (auto simp: budget_upsert_def sel_one_upd split: option.splits dest: sel_one_SomeD)
next
  case False
  then have "sel_one (\<lambda>r. bg_ticket_id r = t) rows = None" by (simp add: sel_one_None)
  then show ?thesis using False
    by (auto simp: budget_upsert_def sel_one_append sel_one_Cons split: option.splits)
qed

lemma upsert_inv: "budget_inv s \<Longrightarrow> budget_inv (s\<lparr>global_redispatch_budget := budget_upsert t now (global_redispatch_budget s)\<rparr>)"
proof -
  assume inv: "budget_inv s"
  have k: "key_ok bg_ticket_id (upd_where (\<lambda>r. bg_ticket_id r = t)
      (\<lambda>r. r\<lparr>bg_attempt_count := bg_attempt_count r + 1, bg_last_attempt_at := sql_datetime now\<rparr>) (global_redispatch_budget s))"
    using inv by (intro key_ok_upd) (auto simp: budget_inv_def)
  show ?thesis using inv k
    by (auto simp: budget_inv_def budget_upsert_def key_ok_def upd_where_def)
qed

lemma get_consume: "budget_get (snd (consume t now s)) k = (if k = t then budget_get s t + 1 else budget_get s k)"
  by (auto simp: consume_def budget_get_def upsert_lookup Let_def split: option.splits)

lemma consume_count: "fst (consume t now s) = budget_get s t + 1"
  by (auto simp: consume_def budget_get_def upsert_lookup Let_def split: option.splits)

lemma consume_keeps [simp]: "maxAttempts (snd (consume t now s)) = maxAttempts s"
  by (simp add: consume_def Let_def)

lemma inv_consume: "budget_inv s \<Longrightarrow> budget_inv (snd (consume t now s))"
  by (simp add: consume_def Let_def upsert_inv)

lemma get_reset: "budget_get (budget_reset t s) k = (if k = t then 0 else budget_get s k)"
  by (simp add: budget_get_def budget_reset_def sel_one_del_key)

lemma inv_reset: "budget_inv s \<Longrightarrow> budget_inv (budget_reset t s)"
  by (simp add: budget_inv_def budget_reset_def)

text \<open>Attempts of all detectors go through \<open>consume\<close> (with whatever clock), resets through \<open>reset\<close>.\<close>

interpretation budget: attempt_counter "\<lambda>k s. snd (consume k now s)" budget_reset budget_get budget_inv for now
  by unfold_locales (auto simp: get_consume get_reset inv_consume inv_reset)

subsection \<open>Properties\<close>

datatype budget_op = Consume string nat | Seal string nat | ResetBudget string

fun budget_step :: "budget_op \<Rightarrow> GlobalRedispatchBudget \<Rightarrow> GlobalRedispatchBudget" where
  "budget_step (Consume t now) s = snd (consume t now s)"
| "budget_step (Seal t now) s = snd (seal t now s)"
| "budget_step (ResetBudget t) s = budget_reset t s"

fun budget_event :: "budget_op \<Rightarrow> string count_event" where
  "budget_event (Consume t now) = Attempt t"
| "budget_event (Seal t now) = Attempt t"
| "budget_event (ResetBudget t) = Reset t"

lemma budget_step_event: "\<exists>now. budget_step e s = budget.apply_event now (budget_event e) s"
  by (cases e) (auto simp: budget.apply_event_def seal_def Let_def split_beta)

lemma budget_trace:
  "budget_inv s \<Longrightarrow> budget_inv (fold budget_step es s) \<and> maxAttempts (fold budget_step es s) = maxAttempts s \<and>
   budget_get (fold budget_step es s) t = count_of (map budget_event es) t (budget_get s t)"
proof (induction es arbitrary: s)
  case (Cons e es)
  have "budget_inv (budget_step e s) \<and> maxAttempts (budget_step e s) = maxAttempts s \<and>
      budget_get (budget_step e s) t = count_of [budget_event e] t (budget_get s t)"
    using Cons.prems by (cases e) (auto simp: inv_consume inv_reset get_consume get_reset seal_def Let_def split_beta
        budget_reset_def [of _ s, THEN arg_cong [of _ _ maxAttempts]])
  then show ?case using Cons.IH [of "budget_step e s"] count_of_append [of "[budget_event e]" "map budget_event es"]
    by simp
qed simp

text \<open>
  One budget for all detectors: in any interleaving of \<open>consume\<close>, \<open>seal\<close> and \<open>reset\<close> by any
  detectors for any tickets, a ticket is capped exactly when the attempts recorded for it since
  its last reset have reached \<open>maxAttempts\<close>, whoever recorded them; with a limit that does not
  parse no ticket is ever capped.
\<close>

theorem capped_iff_attempts_since_reset:
  assumes "budget_inv s" and "budget_get s t = 0"
  shows "isCapped (fold budget_step es s) t =
    (case maxAttempts s of None \<Rightarrow> False | Some cap \<Rightarrow> cap \<le> int (count_of (map budget_event es) t 0))"
  using budget_trace [OF assms(1), of es t] assms(2) by (auto simp: isCapped_def num_less_def split: option.splits)

theorem capped_iff_attempts_since_reset_witness:
  "isCapped (fold budget_step [Consume ''INF-1'' 0, Consume ''INF-2'' 1, Seal ''INF-1'' 2, Consume ''INF-1'' 3]
     (budget_open [] None None)) ''INF-1''"
proof -
  have "maxAttempts (budget_open [] None None) = Some 3" by code_simp
  then show ?thesis
    using capped_iff_attempts_since_reset [of "budget_open [] None None" "''INF-1''"
        "[Consume ''INF-1'' 0, Consume ''INF-2'' 1, Seal ''INF-1'' 2, Consume ''INF-1'' 3]"]
    by (simp add: budget_inv_def budget_open_def budget_get_def)
qed

end
