(* ===== verification/ReliabilityController.thy ===== *)
theory ReliabilityController
  imports RedispatchBudget JsMap
begin

text \<open>
  \<open>src/dispatch-reliability-controller.ts\<close>: the wake policy (breaker, budget, prompt cap) and the
  delivery primitive \<open>dispatchWithAck\<close>. The budget is the shared one of
  \<open>RedispatchBudget\<close> when it is wired, otherwise the controller's own counters. The scheduler and
  the inline recovery are dependencies: the model returns the calls made to them, in order.
\<close>

subsection \<open>State\<close>

record TicketBreaker =
  wakeCount :: nat
  lastActivityAt :: "string option"
  shouldAlert :: bool

record ReliabilityController =
  maxConsecutiveWakes :: nat
  redispatchBudgetPerTicket :: int
  maxStuckPromptsPerTicket :: nat
  breakerState :: "(string, TicketBreaker) jsmap"
  redispatchCount :: "(string, nat) jsmap"
  stuckPromptCount :: "(string, nat) jsmap"
  rc_active :: bool
  sharedBudget :: "GlobalRedispatchBudget option"

datatype policy_reason = BreakerTripped | BudgetExhausted | StuckPromptCap
datatype breaker_reason = TransitionStuck nat | DelegateActivity string | BelowThreshold nat nat
datatype dep_call = SchedulerStart | SchedulerStop | RecoverDelegateClear string | SchedulerDispatch string

record BreakerEvalResult =
  be_shouldAlert :: bool
  be_wakeCount :: nat
  be_reason :: "breaker_reason option"

subsection \<open>Operations\<close>

definition rc_start :: "ReliabilityController \<Rightarrow> dep_call list \<times> ReliabilityController" where
  "rc_start s = (if rc_active s then ([], s) else ([SchedulerStart], s\<lparr>rc_active := True\<rparr>))"

definition rc_stop :: "ReliabilityController \<Rightarrow> dep_call list \<times> ReliabilityController" where
  "rc_stop s = (if \<not> rc_active s then ([], s) else ([SchedulerStop], s\<lparr>rc_active := False\<rparr>))"

definition record_budget :: "string \<Rightarrow> nat \<Rightarrow> ReliabilityController \<Rightarrow> ReliabilityController" where
  "record_budget ticketId now s =
     (case sharedBudget s of
        Some b \<Rightarrow> s\<lparr>sharedBudget := Some (snd (consume ticketId now b))\<rparr>
      | None \<Rightarrow> s\<lparr>redispatchCount := map_set ticketId (orElse (map_get (redispatchCount s) ticketId) 0 + 1) (redispatchCount s)\<rparr>)"

definition recordWake :: "string \<Rightarrow> nat \<Rightarrow> ReliabilityController \<Rightarrow> ReliabilityController" where
  "recordWake ticketId now s =
     (let existing = map_get (breakerState s) ticketId;
          lastAct = (case existing of None \<Rightarrow> None | Some b \<Rightarrow> lastActivityAt b);
          n = (if lastAct \<noteq> None then 1 else (case existing of None \<Rightarrow> 0 | Some b \<Rightarrow> wakeCount b) + 1);
          alert = (maxConsecutiveWakes s \<le> n \<and> lastAct = None)
      in record_budget ticketId now
           (s\<lparr>breakerState := map_set ticketId
                \<lparr>wakeCount = n, lastActivityAt = lastAct, shouldAlert = alert\<rparr> (breakerState s)\<rparr>))"

definition recordDelegateActivity :: "string \<Rightarrow> nat \<Rightarrow> ReliabilityController \<Rightarrow> ReliabilityController" where
  "recordDelegateActivity ticketId now s =
     s\<lparr>breakerState := map_set ticketId
        \<lparr>wakeCount = 0, lastActivityAt = Some (toISOString now), shouldAlert = False\<rparr> (breakerState s)\<rparr>"

definition evaluateBreaker :: "ReliabilityController \<Rightarrow> string \<Rightarrow> BreakerEvalResult" where
  "evaluateBreaker s ticketId =
     (case map_get (breakerState s) ticketId of
        None \<Rightarrow> \<lparr>be_shouldAlert = False, be_wakeCount = 0, be_reason = None\<rparr>
      | Some b \<Rightarrow>
          if shouldAlert b
          then \<lparr>be_shouldAlert = True, be_wakeCount = wakeCount b, be_reason = Some (TransitionStuck (wakeCount b))\<rparr>
          else (case lastActivityAt b of
                  Some at \<Rightarrow> \<lparr>be_shouldAlert = False, be_wakeCount = wakeCount b, be_reason = Some (DelegateActivity at)\<rparr>
                | None \<Rightarrow> \<lparr>be_shouldAlert = False, be_wakeCount = wakeCount b,
                            be_reason = Some (BelowThreshold (wakeCount b) (maxConsecutiveWakes s))\<rparr>))"

definition resetBreaker :: "string \<Rightarrow> ReliabilityController \<Rightarrow> bool \<times> ReliabilityController" where
  "resetBreaker ticketId s =
     (map_has (breakerState s) ticketId,
      s\<lparr>breakerState := map_delete ticketId (breakerState s),
        redispatchCount := map_delete ticketId (redispatchCount s),
        sharedBudget := map_option (budget_reset ticketId) (sharedBudget s)\<rparr>)"

definition checkBreaker :: "ReliabilityController \<Rightarrow> string \<Rightarrow> bool" where
  "checkBreaker s ticketId = (case map_get (breakerState s) ticketId of None \<Rightarrow> False | Some b \<Rightarrow> shouldAlert b)"

definition recordStuckPrompt :: "string \<Rightarrow> ReliabilityController \<Rightarrow> ReliabilityController" where
  "recordStuckPrompt ticketId s =
     s\<lparr>stuckPromptCount := map_set ticketId (orElse (map_get (stuckPromptCount s) ticketId) 0 + 1) (stuckPromptCount s)\<rparr>"

definition getStuckPromptCount :: "ReliabilityController \<Rightarrow> string \<Rightarrow> nat" where
  "getStuckPromptCount s ticketId = orElse (map_get (stuckPromptCount s) ticketId) 0"

definition clearStuckPromptCount :: "string \<Rightarrow> ReliabilityController \<Rightarrow> ReliabilityController" where
  "clearStuckPromptCount ticketId s = s\<lparr>stuckPromptCount := map_delete ticketId (stuckPromptCount s)\<rparr>"

definition budgetUsed :: "ReliabilityController \<Rightarrow> string \<Rightarrow> nat" where
  "budgetUsed s ticketId = (case sharedBudget s of
     Some b \<Rightarrow> budget_get b ticketId | None \<Rightarrow> orElse (map_get (redispatchCount s) ticketId) 0)"

definition budgetCap :: "ReliabilityController \<Rightarrow> int option" where
  "budgetCap s = (case sharedBudget s of Some b \<Rightarrow> maxAttempts b | None \<Rightarrow> Some (redispatchBudgetPerTicket s))"

definition enforceWakePolicy :: "ReliabilityController \<Rightarrow> string \<Rightarrow> policy_reason option" where
  "enforceWakePolicy s ticketId =
     (if checkBreaker s ticketId then Some BreakerTripped
      else if (case budgetCap s of None \<Rightarrow> False | Some cap \<Rightarrow> cap \<le> int (budgetUsed s ticketId)) then Some BudgetExhausted
      else if maxStuckPromptsPerTicket s \<le> getStuckPromptCount s ticketId then Some StuckPromptCap
      else None)"

text \<open>
  \<open>Inl\<close> is the thrown policy refusal. The recovery races against a timer and its result is
  ignored, so the dispatch follows in either case.
\<close>

definition dispatchWithAck :: "string \<Rightarrow> bool \<Rightarrow> ReliabilityController \<Rightarrow> policy_reason + dep_call list" where
  "dispatchWithAck ticketId delegateCleared s =
     (case enforceWakePolicy s ticketId of
        Some reason \<Rightarrow> Inl reason
      | None \<Rightarrow> Inr ((if delegateCleared then [RecoverDelegateClear ticketId] else []) @ [SchedulerDispatch ticketId]))"

subsection \<open>Counters of the controller\<close>

definition rc_inv :: "ReliabilityController \<Rightarrow> bool" where
  "rc_inv s \<longleftrightarrow> (case sharedBudget s of None \<Rightarrow> True | Some b \<Rightarrow> budget_inv b)"

lemma used_record: "budgetUsed (record_budget k now s) k' = (if k' = k then budgetUsed s k + 1 else budgetUsed s k')"
  by (auto simp: record_budget_def budgetUsed_def get_consume split: option.splits)

lemma record_budget_simps [simp]:
  "breakerState (record_budget k now s) = breakerState s" "stuckPromptCount (record_budget k now s) = stuckPromptCount s"
  "maxConsecutiveWakes (record_budget k now s) = maxConsecutiveWakes s"
  "maxStuckPromptsPerTicket (record_budget k now s) = maxStuckPromptsPerTicket s"
  "budgetCap (record_budget k now s) = budgetCap s" "rc_inv s \<Longrightarrow> rc_inv (record_budget k now s)"
  by (auto simp: record_budget_def budgetCap_def rc_inv_def inv_consume split: option.splits)

lemma budgetUsed_breaker [simp]: "budgetUsed (s\<lparr>breakerState := b\<rparr>) k = budgetUsed s k"
  by (simp add: budgetUsed_def split: option.split)

lemma budgetCap_breaker [simp]: "budgetCap (s\<lparr>breakerState := b\<rparr>) = budgetCap s"
  by (simp add: budgetCap_def split: option.split)

lemma rc_inv_breaker [simp]: "rc_inv (s\<lparr>breakerState := b\<rparr>) = rc_inv s"
  by (simp add: rc_inv_def)

lemma used_recordWake: "budgetUsed (recordWake k now s) k' = (if k' = k then budgetUsed s k + 1 else budgetUsed s k')"
  by (simp add: recordWake_def Let_def used_record)

interpretation wakes_budget: attempt_counter "\<lambda>k. recordWake k now" "\<lambda>k s. snd (resetBreaker k s)" budgetUsed rc_inv for now
proof unfold_locales
  fix s :: ReliabilityController and k k' :: string
  show "budgetUsed (snd (resetBreaker k s)) k' = (if k' = k then 0 else budgetUsed s k')"
    by (auto simp: resetBreaker_def budgetUsed_def get_reset split: option.splits)
  assume "rc_inv s"
  then show "rc_inv (snd (resetBreaker k s))" "rc_inv (recordWake k now s)"
    by (auto simp: resetBreaker_def recordWake_def Let_def inv_reset rc_inv_def [of "s\<lparr>breakerState := _, redispatchCount := _, sharedBudget := _\<rparr>"]
        rc_inv_def [of s] split: option.splits)
qed (simp add: used_recordWake)

interpretation prompts: attempt_counter recordStuckPrompt clearStuckPromptCount getStuckPromptCount "\<lambda>_. True"
  by unfold_locales (auto simp: recordStuckPrompt_def clearStuckPromptCount_def getStuckPromptCount_def)

subsection \<open>Runs\<close>

datatype wake_op = Wake string nat | Activity string nat | Prompt string | ClearPrompt string

text \<open>A caller dispatches through \<open>dispatchWithAck\<close> and records the wake when it was let through.\<close>

fun wake_step :: "wake_op \<Rightarrow> ReliabilityController \<Rightarrow> string list \<times> ReliabilityController" where
  "wake_step (Wake t now) s = (case dispatchWithAck t False s of Inl _ \<Rightarrow> ([], s) | Inr _ \<Rightarrow> ([t], recordWake t now s))"
| "wake_step (Activity t now) s = ([], recordDelegateActivity t now s)"
| "wake_step (Prompt t) s = ([], recordStuckPrompt t s)"
| "wake_step (ClearPrompt t) s = ([], clearStuckPromptCount t s)"

fun wake_run :: "wake_op list \<Rightarrow> ReliabilityController \<Rightarrow> string list \<times> ReliabilityController" where
  "wake_run [] s = ([], s)"
| "wake_run (e # es) s = (let (g, s') = wake_step e s; (gs, s2) = wake_run es s' in (g @ gs, s2))"

lemma dispatch_allowed: "(\<exists>calls. dispatchWithAck t c s = Inr calls) \<longleftrightarrow> enforceWakePolicy s t = None"
  by (auto simp: dispatchWithAck_def split: option.splits)

definition wakes_so_far :: "ReliabilityController \<Rightarrow> string \<Rightarrow> nat" where
  "wakes_so_far s t = (case map_get (breakerState s) t of None \<Rightarrow> 0 | Some b \<Rightarrow> wakeCount b)"

definition armed :: "ReliabilityController \<Rightarrow> string \<Rightarrow> bool" where
  "armed s t = (case map_get (breakerState s) t of None \<Rightarrow> True
     | Some b \<Rightarrow> lastActivityAt b = None \<and> (maxConsecutiveWakes s \<le> wakeCount b \<longrightarrow> shouldAlert b))"

lemma step_keeps:
  "budgetCap (snd (wake_step e s)) = budgetCap s" "maxConsecutiveWakes (snd (wake_step e s)) = maxConsecutiveWakes s"
  by (cases e; simp add: recordWake_def recordDelegateActivity_def recordStuckPrompt_def clearStuckPromptCount_def
      Let_def split: sum.split; simp add: budgetCap_def split: option.split)+

lemma step_budget:
  "budgetUsed (snd (wake_step e s)) t = budgetUsed s t + count_list (fst (wake_step e s)) t"
  by (cases e) (auto simp: used_recordWake recordDelegateActivity_def recordStuckPrompt_def clearStuckPromptCount_def
      budgetUsed_def [of "_\<lparr>stuckPromptCount := _\<rparr>"] budgetUsed_def [of s] split: sum.split option.split)

lemma step_below_cap:
  "t \<in> set (fst (wake_step e s)) \<Longrightarrow> budgetCap s = Some cap \<Longrightarrow> int (budgetUsed s t) < cap"
  by (cases e) (auto simp: dispatchWithAck_def enforceWakePolicy_def split: option.splits if_splits)

lemma step_count: "count_list (fst (wake_step e s)) t \<le> 1"
  by (cases e) (auto split: sum.split)

lemma budget_run:
  "budgetCap s = Some cap \<Longrightarrow> int (budgetUsed s t) \<le> cap \<Longrightarrow>
   int (budgetUsed s t + count_list (fst (wake_run es s)) t) \<le> cap"
proof (induction es arbitrary: s)
  case (Cons e es)
  define s' where "s' = snd (wake_step e s)"
  have "count_list (fst (wake_step e s)) t = 0 \<or> int (budgetUsed s t) < cap"
    using step_below_cap [of t e s cap] Cons.prems(1) by (auto simp: count_list_0_iff)
  then have "int (budgetUsed s' t) \<le> cap" using Cons.prems(2) step_count [of e s t] by (auto simp: s'_def step_budget)
  then have "int (budgetUsed s' t + count_list (fst (wake_run es s')) t) \<le> cap"
    using Cons.IH [of s'] Cons.prems(1) by (simp add: s'_def step_keeps)
  then show ?case by (simp add: s'_def step_budget split_beta Let_def)
qed simp

lemma step_armed:
  assumes "armed s t" "\<forall>now. e \<noteq> Activity t now"
  shows "armed (snd (wake_step e s)) t \<and>
    wakes_so_far (snd (wake_step e s)) t = wakes_so_far s t + count_list (fst (wake_step e s)) t \<and>
    (t \<in> set (fst (wake_step e s)) \<longrightarrow> wakes_so_far s t < max 1 (maxConsecutiveWakes s))"
proof (cases e)
  case (Wake u now)
  show ?thesis
  proof (cases "enforceWakePolicy s u = None")
    case True
    then obtain calls where "dispatchWithAck u False s = Inr calls" using dispatch_allowed by blast
    moreover have "\<not> checkBreaker s u" using True by (auto simp: enforceWakePolicy_def split: if_splits)
    ultimately show ?thesis using Wake assms(1)
      by (auto simp: recordWake_def Let_def armed_def wakes_so_far_def checkBreaker_def split: option.splits)
  next
    case False
    then obtain r where "dispatchWithAck u False s = Inl r" by (auto simp: dispatchWithAck_def)
    then show ?thesis using Wake assms(1) by simp
  qed
next
  case (Activity u now)
  then show ?thesis using assms by (auto simp: recordDelegateActivity_def armed_def wakes_so_far_def split: option.splits)
qed (use assms(1) in \<open>auto simp: recordStuckPrompt_def clearStuckPromptCount_def armed_def wakes_so_far_def split: option.splits\<close>)

lemma guarded_run:
  "armed s t \<Longrightarrow> \<forall>now. Activity t now \<notin> set es \<Longrightarrow> wakes_so_far s t \<le> max 1 (maxConsecutiveWakes s) \<Longrightarrow>
   wakes_so_far s t + count_list (fst (wake_run es s)) t \<le> max 1 (maxConsecutiveWakes s)"
proof (induction es arbitrary: s)
  case (Cons e es)
  define s' where "s' = snd (wake_step e s)"
  have e: "armed s' t" "wakes_so_far s' t = wakes_so_far s t + count_list (fst (wake_step e s)) t"
    "t \<in> set (fst (wake_step e s)) \<longrightarrow> wakes_so_far s t < max 1 (maxConsecutiveWakes s)"
    using step_armed [OF Cons.prems(1), of e] Cons.prems(2) by (auto simp: s'_def)
  have "wakes_so_far s' t \<le> max 1 (maxConsecutiveWakes s)"
    using e(2,3) Cons.prems(3) step_count [of e s t] by (cases "t \<in> set (fst (wake_step e s))") (auto simp: count_list_0_iff)
  then have "wakes_so_far s' t + count_list (fst (wake_run es s')) t \<le> max 1 (maxConsecutiveWakes s)"
    using Cons.IH [OF e(1)] Cons.prems(2) by (simp add: s'_def step_keeps)
  then show ?case using e(2) by (simp add: s'_def split_beta Let_def)
qed simp

subsection \<open>Properties\<close>

definition rc_new :: "nat \<Rightarrow> int \<Rightarrow> nat \<Rightarrow> GlobalRedispatchBudget option \<Rightarrow> ReliabilityController" where
  "rc_new wakes budget stuck shared = \<lparr>maxConsecutiveWakes = wakes, redispatchBudgetPerTicket = budget,
     maxStuckPromptsPerTicket = stuck, breakerState = [], redispatchCount = [], stuckPromptCount = [],
     rc_active = False, sharedBudget = shared\<rparr>"

text \<open>
  The wake policy bounds the wakes of a ticket: whatever wakes of any tickets, delegate
  activity, prompts and prompt resets occur in whatever order, a ticket that starts with no
  recorded wake is woken at most as often as the budget allows, with the shared budget or the
  local one, and at most \<open>maxConsecutiveWakes\<close> times when its delegate shows no activity.
\<close>

theorem wakes_bounded:
  assumes "budgetCap s = Some cap" and "0 \<le> cap" and "budgetUsed s t = 0" and "map_get (breakerState s) t = None"
  shows "int (count_list (fst (wake_run es s)) t) \<le> cap \<and>
    ((\<forall>now. Activity t now \<notin> set es) \<longrightarrow> count_list (fst (wake_run es s)) t \<le> max 1 (maxConsecutiveWakes s))"
  using budget_run [OF assms(1), of t es] guarded_run [of s t es] assms(2-4) by (auto simp: armed_def wakes_so_far_def)

theorem wakes_bounded_witness:
  "count_list (fst (wake_run (replicate 9 (Wake ''INF-1'' 0)) (rc_new 5 3 2 None))) ''INF-1'' \<le> 3"
proof -
  have "int (count_list (fst (wake_run (replicate 9 (Wake ''INF-1'' 0)) (rc_new 5 3 2 None))) ''INF-1'') \<le> 3"
    using wakes_bounded [of "rc_new 5 3 2 None" 3 "''INF-1''" "replicate 9 (Wake ''INF-1'' 0)"]
    by (simp add: rc_new_def budgetCap_def budgetUsed_def)
  then show ?thesis by simp
qed

lemma wakes_after_activity:
  assumes "map_get (breakerState s) t = Some b" "lastActivityAt b \<noteq> None" "\<not> shouldAlert b"
  shows "\<exists>b'. map_get (breakerState (fold (recordWake t) nows s)) t = Some b' \<and> lastActivityAt b' \<noteq> None \<and>
    \<not> shouldAlert b' \<and> (nows \<noteq> [] \<longrightarrow> wakeCount b' = 1)"
  using assms
proof (induction nows arbitrary: s b)
  case (Cons now nows)
  have "map_get (breakerState (recordWake t now s)) t =
      Some \<lparr>wakeCount = 1, lastActivityAt = lastActivityAt b, shouldAlert = False\<rparr>"
    using Cons.prems by (simp add: recordWake_def Let_def)
  from Cons.IH [OF this] Cons.prems show ?case by (cases nows) (auto simp: recordWake_def Let_def)
qed simp

text \<open>
  One sign of life disarms the breaker for good: after \<open>recordDelegateActivity\<close> no number of
  further unanswered wakes trips it, because \<open>recordWake\<close> carries \<open>lastActivityAt\<close> over; the
  count stays at one until \<open>resetBreaker\<close>.
\<close>

theorem activity_disarms_breaker:
  "let s' = fold (recordWake t) nows (recordDelegateActivity t now s)
   in \<not> checkBreaker s' t \<and> \<not> be_shouldAlert (evaluateBreaker s' t) \<and> be_wakeCount (evaluateBreaker s' t) \<le> 1"
proof -
  have "map_get (breakerState (recordDelegateActivity t now s)) t =
      Some \<lparr>wakeCount = 0, lastActivityAt = Some (toISOString now), shouldAlert = False\<rparr>"
    by (simp add: recordDelegateActivity_def)
  from wakes_after_activity [OF this, of nows] show ?thesis
    by (cases nows) (auto simp: Let_def checkBreaker_def evaluateBreaker_def recordDelegateActivity_def)
qed

end
