(* ===== verification/SessionTracker.thy ===== *)
theory SessionTracker
  imports SessionKey JsMap
begin

text \<open>
  \<open>src/bag/session-tracker.ts\<close>: which (agent, ticket) sessions are active, and the delivery
  retries queued until an agent's sessions have ended. \<open>Date.now()\<close> is the argument \<open>now\<close>; the
  timeout is \<open>None\<close> when the environment variable does not parse.
\<close>

subsection \<open>State\<close>

record StaleSessionDetail =
  sd_agentId :: string
  sd_sessionKey :: string
  sd_startedAt :: nat
  sd_timeoutMs :: "int option"
  sd_pendingTickets :: "string list"

record SessionTracker =
  activeSessions :: "(string, (string, nat) jsmap) jsmap"
  sessionTimeoutMs :: "int option"
  pendingSignals :: "(string, string list) jsmap"

definition tracker_new :: "int option \<Rightarrow> string option \<Rightarrow> SessionTracker" where
  "tracker_new timeout env =
     \<lparr>activeSessions = [],
      sessionTimeoutMs = (case timeout of Some t \<Rightarrow> Some t | None \<Rightarrow> parseInt (orElse env ''1500000'')),
      pendingSignals = []\<rparr>"

subsection \<open>Operations\<close>

definition startSession :: "string \<Rightarrow> string \<Rightarrow> nat \<Rightarrow> SessionTracker \<Rightarrow> bool \<times> SessionTracker" where
  "startSession agentId sessionKey now s =
     (let sessions = orElse (map_get (activeSessions s) agentId) []
      in if map_has sessions sessionKey then (False, s)
         else (True, s\<lparr>activeSessions := map_set agentId (map_set sessionKey now sessions) (activeSessions s)\<rparr>))"

text \<open>The end of \<open>endSession\<close>: the queued signals of an agent with no session left.\<close>

definition take_pending :: "string \<Rightarrow> SessionTracker \<Rightarrow> string list option \<times> SessionTracker" where
  "take_pending agentId s =
     (case map_get (pendingSignals s) agentId of
        Some (p # ps) \<Rightarrow> (Some (p # ps), s\<lparr>pendingSignals := map_delete agentId (pendingSignals s)\<rparr>)
      | _ \<Rightarrow> (None, s))"

definition endSession :: "string \<Rightarrow> string option \<Rightarrow> SessionTracker \<Rightarrow> string list option \<times> SessionTracker" where
  "endSession agentId sessionKey s =
     (case map_get (activeSessions s) agentId of
        None \<Rightarrow> (None, s)
      | Some [] \<Rightarrow> (None, s\<lparr>activeSessions := map_delete agentId (activeSessions s)\<rparr>)
      | Some sessions \<Rightarrow>
          if truthy sessionKey then
            (let rest = map_delete (orElse sessionKey []) sessions
             in if \<not> map_has sessions (orElse sessionKey []) then (None, s)
                else if rest \<noteq> [] then (None, s\<lparr>activeSessions := map_set agentId rest (activeSessions s)\<rparr>)
                else take_pending agentId (s\<lparr>activeSessions := map_delete agentId (activeSessions s)\<rparr>))
          else take_pending agentId (s\<lparr>activeSessions := map_delete agentId (activeSessions s)\<rparr>))"

definition tracker_isActive :: "SessionTracker \<Rightarrow> string \<Rightarrow> bool" where
  "tracker_isActive s agentId = (case map_get (activeSessions s) agentId of None \<Rightarrow> False | Some m \<Rightarrow> m \<noteq> [])"

definition isActiveForTicket :: "SessionTracker \<Rightarrow> string \<Rightarrow> string \<Rightarrow> bool" where
  "isActiveForTicket s agentId sessionKey =
     (case map_get (activeSessions s) agentId of None \<Rightarrow> False | Some m \<Rightarrow> map_has m sessionKey)"

definition isTicketActiveForAnyAgent :: "SessionTracker \<Rightarrow> string \<Rightarrow> string option \<Rightarrow> bool" where
  "isTicketActiveForAnyAgent s sessionKey exceptAgentId =
     list_ex (\<lambda>(agentId, sessions).
        \<not> (truthy exceptAgentId \<and> agentId = orElse exceptAgentId []) \<and> map_has sessions sessionKey)
       (activeSessions s)"

definition queueSignal :: "string \<Rightarrow> string list \<Rightarrow> SessionTracker \<Rightarrow> SessionTracker" where
  "queueSignal agentId ticketIds s =
     s\<lparr>pendingSignals := map_set agentId
         (unique (orElse (map_get (pendingSignals s) agentId) [] @ ticketIds)) (pendingSignals s)\<rparr>"

text \<open>
  \<open>removePendingTicket\<close> normalizes the queued tickets as it filters: an invalid one throws after the
  targets before it have been changed.
\<close>

fun filter_other :: "string \<Rightarrow> string list \<Rightarrow> key_error + string list" where
  "filter_other n [] = Inr []"
| "filter_other n (x # xs) = (case normalizeSessionKey x of
     Inl e \<Rightarrow> Inl e
   | Inr k \<Rightarrow> (case filter_other n xs of Inl e \<Rightarrow> Inl e | Inr ys \<Rightarrow> Inr (if k \<noteq> n then x # ys else ys)))"

fun remove_from :: "string \<Rightarrow> string list \<Rightarrow> nat \<Rightarrow> SessionTracker \<Rightarrow> (key_error + nat) \<times> SessionTracker" where
  "remove_from n [] removed s = (Inr removed, s)"
| "remove_from n (target # targets) removed s =
     (case map_get (pendingSignals s) target of
        None \<Rightarrow> remove_from n targets removed s
      | Some [] \<Rightarrow> remove_from n targets removed s
      | Some existing \<Rightarrow>
          (case filter_other n existing of
             Inl e \<Rightarrow> (Inl e, s)
           | Inr nxt \<Rightarrow>
               remove_from n targets (removed + (length existing - length nxt))
                 (s\<lparr>pendingSignals := if nxt \<noteq> [] then map_set target nxt (pendingSignals s)
                                     else map_delete target (pendingSignals s)\<rparr>)))"

definition removePendingTicket ::
  "string \<Rightarrow> string option \<Rightarrow> SessionTracker \<Rightarrow> (key_error + nat) \<times> SessionTracker" where
  "removePendingTicket ticketId agentId s =
     (case normalizeSessionKey ticketId of
        Inl e \<Rightarrow> (Inl e, s)
      | Inr n \<Rightarrow> remove_from n (if truthy agentId then [orElse agentId []] else map_keys (pendingSignals s)) 0 s)"

definition getActiveSessionKey :: "SessionTracker \<Rightarrow> string \<Rightarrow> string option" where
  "getActiveSessionKey s agentId = (case map_get (activeSessions s) agentId of
     None \<Rightarrow> None | Some [] \<Rightarrow> None | Some ((k, _) # _) \<Rightarrow> Some k)"

definition getActiveSessionKeys :: "SessionTracker \<Rightarrow> string \<Rightarrow> string list" where
  "getActiveSessionKeys s agentId = (case map_get (activeSessions s) agentId of None \<Rightarrow> [] | Some m \<Rightarrow> map_keys m)"

definition getActiveSessionInfo :: "SessionTracker \<Rightarrow> string \<Rightarrow> nat \<Rightarrow> (string \<times> string \<times> nat \<times> int) option" where
  "getActiveSessionInfo s agentId now = (case map_get (activeSessions s) agentId of
     None \<Rightarrow> None | Some [] \<Rightarrow> None | Some ((k, t) # _) \<Rightarrow> Some (agentId, k, t, int now - int t))"

definition getActiveAgents :: "SessionTracker \<Rightarrow> string list" where
  "getActiveAgents s = map fst [e \<leftarrow> activeSessions s. snd e \<noteq> []]"

definition is_stale :: "SessionTracker \<Rightarrow> nat \<Rightarrow> nat \<Rightarrow> bool" where
  "is_stale s now startedAt = num_less (sessionTimeoutMs s) (Some (int now - int startedAt))"

fun attach_first :: "string \<Rightarrow> string list \<Rightarrow> StaleSessionDetail list \<Rightarrow> StaleSessionDetail list" where
  "attach_first a p [] = []"
| "attach_first a p (d # ds) = (if sd_agentId d = a then d\<lparr>sd_pendingTickets := p\<rparr> # ds else d # attach_first a p ds)"

text \<open>One agent's turn of the loop; the details found so far are kept in order.\<close>

definition cleanup_agent ::
  "nat \<Rightarrow> string \<times> (string, nat) jsmap \<Rightarrow> StaleSessionDetail list \<times> SessionTracker \<Rightarrow>
   StaleSessionDetail list \<times> SessionTracker" where
  "cleanup_agent now entry acc =
     (let (agentId, sessions) = entry; (details, s) = acc;
          found = [\<lparr>sd_agentId = agentId, sd_sessionKey = k, sd_startedAt = t,
                    sd_timeoutMs = sessionTimeoutMs s, sd_pendingTickets = []\<rparr>. (k, t) \<leftarrow> sessions, is_stale s now t];
          rest = [e \<leftarrow> sessions. \<not> is_stale s now (snd e)];
          details = details @ found
      in if rest \<noteq> [] then (details, s\<lparr>activeSessions := map_set agentId rest (activeSessions s)\<rparr>)
         else
           (let (pending, s') = take_pending agentId (s\<lparr>activeSessions := map_delete agentId (activeSessions s)\<rparr>)
            in (case pending of None \<Rightarrow> details | Some p \<Rightarrow> rev (attach_first agentId p (rev details)), s')))"

definition cleanupStale :: "nat \<Rightarrow> SessionTracker \<Rightarrow> StaleSessionDetail list \<times> SessionTracker" where
  "cleanupStale now s = fold (cleanup_agent now) (activeSessions s) ([], s)"

subsection \<open>Invariant\<close>

definition tracker_inv :: "SessionTracker \<Rightarrow> bool" where
  "tracker_inv s \<longleftrightarrow> map_ok (activeSessions s) \<and> map_ok (pendingSignals s) \<and>
     (\<forall>(a, m) \<in> set (activeSessions s). m \<noteq> [] \<and> map_ok m)"

definition queued :: "SessionTracker \<Rightarrow> string \<Rightarrow> string set" where
  "queued s a = set (orElse (map_get (pendingSignals s) a) [])"

lemma take_pending_simps [simp]:
  "activeSessions (snd (take_pending a s)) = activeSessions s" "sessionTimeoutMs (snd (take_pending a s)) = sessionTimeoutMs s"
  "queued (snd (take_pending a s)) b = (if b = a then {} else queued s b)"
  "set (orElse (fst (take_pending a s)) []) = queued s a"
  "map_ok (pendingSignals s) \<Longrightarrow> map_ok (pendingSignals (snd (take_pending a s)))"
  by (auto simp: take_pending_def queued_def split: option.splits list.splits)

subsection \<open>The stale cleanup\<close>

definition reported :: "StaleSessionDetail list \<Rightarrow> string \<Rightarrow> string set" where
  "reported ds a = \<Union> (set ` sd_pendingTickets ` {d \<in> set ds. sd_agentId d = a})"

definition who :: "StaleSessionDetail \<Rightarrow> string \<times> string \<times> nat" where
  "who d = (sd_agentId d, sd_sessionKey d, sd_startedAt d)"

lemma reported_append [simp]: "reported (xs @ ys) a = reported xs a \<union> reported ys a"
  by (auto simp: reported_def)

lemma reported_Nil [simp]: "reported [] a = {}"
  by (simp add: reported_def)

lemma reported_rev [simp]: "reported (rev xs) a = reported xs a"
  by (simp add: reported_def)

lemma reported_Cons: "reported (d # ds) a = (if sd_agentId d = a then set (sd_pendingTickets d) else {}) \<union> reported ds a"
  by (auto simp: reported_def)

lemma who_attach [simp]: "map who (attach_first a p ds) = map who ds"
  by (induction ds) (auto simp: who_def)

lemma attach_reported:
  "found \<noteq> [] \<Longrightarrow> \<forall>d \<in> set found. sd_agentId d = a \<and> sd_pendingTickets d = [] \<Longrightarrow>
   reported (rev (attach_first a p (rev (ds @ found)))) b = reported ds b \<union> (if b = a then set p else {})"
proof (induction found rule: rev_induct)
  case (snoc x xs)
  have "reported xs b = {}" using snoc.prems(2) by (auto simp: reported_def)
  then show ?case using snoc.prems(2) by (auto simp: reported_Cons)
qed simp

definition fresh_sessions :: "SessionTracker \<Rightarrow> nat \<Rightarrow> (string, nat) jsmap \<Rightarrow> (string, nat) jsmap" where
  "fresh_sessions s now m = [e \<leftarrow> m. \<not> is_stale s now (snd e)]"

definition stale_of :: "SessionTracker \<Rightarrow> nat \<Rightarrow> string \<times> (string, nat) jsmap \<Rightarrow> (string \<times> string \<times> nat) list" where
  "stale_of s now entry = [(fst entry, k, t). (k, t) \<leftarrow> snd entry, is_stale s now t]"

lemma queued_active [simp]: "queued (s\<lparr>activeSessions := x\<rparr>) a = queued s a"
  by (simp add: queued_def)

lemma is_stale_cong: "sessionTimeoutMs s' = sessionTimeoutMs s \<Longrightarrow> is_stale s' = is_stale s"
  by (simp add: is_stale_def fun_eq_iff)

lemma cleanup_step:
  assumes "cleanup_agent now (a, m) (ds, s) = (ds', s')" "m \<noteq> []"
  shows "sessionTimeoutMs s' = sessionTimeoutMs s"
    and "map who ds' = map who ds @ stale_of s now (a, m)"
    and "map_get (activeSessions s') b =
      (if b = a then (if fresh_sessions s now m = [] then None else Some (fresh_sessions s now m)) else map_get (activeSessions s) b)"
    and "queued s' b \<union> reported ds' b = queued s b \<union> reported ds b"
    and "map_ok (pendingSignals s) \<Longrightarrow> map_ok (pendingSignals s')"
    and "map_ok (activeSessions s) \<Longrightarrow> map_ok (activeSessions s')"
proof -
  define found where "found = [\<lparr>sd_agentId = a, sd_sessionKey = k, sd_startedAt = t,
      sd_timeoutMs = sessionTimeoutMs s, sd_pendingTickets = []\<rparr>. (k, t) \<leftarrow> m, is_stale s now t]"
  have who: "map who found = stale_of s now (a, m)"
    unfolding found_def stale_of_def map_concat by (simp add: comp_def who_def split_def if_distrib cong: if_cong)
  have found: "\<forall>d \<in> set found. sd_agentId d = a \<and> sd_pendingTickets d = []" by (auto simp: found_def)
  have none: "reported found b = {}" for b using found by (auto simp: reported_def)
  have ne: "found \<noteq> []" if "fresh_sessions s now m = []"
  proof -
    obtain k t m' where "m = (k, t) # m'" using assms(2) by (cases m) auto
    then show ?thesis using that by (auto simp: found_def fresh_sessions_def split: if_splits)
  qed
  define s1 where "s1 = s\<lparr>activeSessions := map_delete a (activeSessions s)\<rparr>"
  have run: "(ds', s') = (if fresh_sessions s now m \<noteq> []
      then (ds @ found, s\<lparr>activeSessions := map_set a (fresh_sessions s now m) (activeSessions s)\<rparr>)
      else (case fst (take_pending a s1) of None \<Rightarrow> ds @ found | Some p \<Rightarrow> rev (attach_first a p (rev (ds @ found))),
            snd (take_pending a s1)))"
    using assms(1)
    unfolding cleanup_agent_def Let_def prod.case found_def [symmetric] fresh_sessions_def [symmetric] s1_def [symmetric]
    by (simp only: split_beta)
  show "sessionTimeoutMs s' = sessionTimeoutMs s" "map who ds' = map who ds @ stale_of s now (a, m)"
    "map_get (activeSessions s') b =
      (if b = a then (if fresh_sessions s now m = [] then None else Some (fresh_sessions s now m)) else map_get (activeSessions s) b)"
    using run who by (auto simp: s1_def rev_map [symmetric] split: if_splits option.splits)
  show "map_ok (pendingSignals s) \<Longrightarrow> map_ok (pendingSignals s')"
    "map_ok (activeSessions s) \<Longrightarrow> map_ok (activeSessions s')"
    using run by (auto simp: s1_def split: if_splits)
  show "queued s' b \<union> reported ds' b = queued s b \<union> reported ds b"
  proof (cases "fresh_sessions s now m = []")
    case False
    then show ?thesis using run none by simp
  next
    case True
    have q: "queued s b = (if b = a then set (orElse (fst (take_pending a s1)) []) else queued s b)"
      by (simp add: s1_def)
    show ?thesis using run True q attach_reported [OF ne [OF True] found, of _ ds b] none [of b]
      by (cases "fst (take_pending a s1)") (auto simp: s1_def split: if_splits)
  qed
qed

lemma cleanup_fold:
  assumes "distinct (map fst es)" "\<forall>(a, m) \<in> set es. m \<noteq> []" "fold (cleanup_agent now) es (ds, s) = (ds', s')"
  shows "sessionTimeoutMs s' = sessionTimeoutMs s \<and>
    map who ds' = map who ds @ concat (map (stale_of s now) es) \<and>
    map_get (activeSessions s') b = (case map_of es b of None \<Rightarrow> map_get (activeSessions s) b
       | Some m \<Rightarrow> if fresh_sessions s now m = [] then None else Some (fresh_sessions s now m)) \<and>
    queued s' b \<union> reported ds' b = queued s b \<union> reported ds b \<and>
    (map_ok (pendingSignals s) \<longrightarrow> map_ok (pendingSignals s')) \<and>
    (map_ok (activeSessions s) \<longrightarrow> map_ok (activeSessions s'))"
  using assms
proof (induction es arbitrary: ds s)
  case (Cons e es)
  obtain a m where e: "e = (a, m)" by (cases e)
  obtain ds1 s1 where step: "cleanup_agent now (a, m) (ds, s) = (ds1, s1)" by (metis surj_pair)
  have m: "m \<noteq> []" using Cons.prems(2) e by auto
  note c = cleanup_step [OF step m]
  have cong: "stale_of s1 now = stale_of s now" "fresh_sessions s1 now = fresh_sessions s now"
    using is_stale_cong [OF c(1)] by (simp_all add: stale_of_def fresh_sessions_def fun_eq_iff)
  have "fold (cleanup_agent now) es (ds1, s1) = (ds', s')" using Cons.prems(3) e step by simp
  note ih = Cons.IH [OF _ _ this]
  have notin: "map_of es a = None" using Cons.prems(1) e by (simp add: map_of_eq_None_iff)
  show ?case using ih Cons.prems(1,2) c e notin unfolding cong
    by (auto simp del: Un_iff split: option.splits)
qed simp

lemma cleanup_facts:
  assumes "tracker_inv s"
  shows "map_get (activeSessions (snd (cleanupStale now s))) a =
      (case map_get (activeSessions s) a of None \<Rightarrow> None
       | Some m \<Rightarrow> if fresh_sessions s now m = [] then None else Some (fresh_sessions s now m))"
    and "map who (fst (cleanupStale now s)) = concat (map (stale_of s now) (activeSessions s))"
    and "queued (snd (cleanupStale now s)) a \<union> reported (fst (cleanupStale now s)) a = queued s a"
    and "tracker_inv (snd (cleanupStale now s))"
proof -
  obtain ds' s' where run: "fold (cleanup_agent now) (activeSessions s) ([], s) = (ds', s')" by (metis surj_pair)
  have ok: "distinct (map fst (activeSessions s))" "\<forall>(a, m) \<in> set (activeSessions s). m \<noteq> []"
    using assms by (auto simp: tracker_inv_def map_ok_def)
  note f = cleanup_fold [OF ok run]
  have get: "map_get (activeSessions s') b =
      (case map_get (activeSessions s) b of None \<Rightarrow> None
       | Some m \<Rightarrow> if fresh_sessions s now m = [] then None else Some (fresh_sessions s now m))" for b
    using f [of b] by (auto simp: map_get_def split: option.splits)
  show "map_get (activeSessions (snd (cleanupStale now s))) a =
      (case map_get (activeSessions s) a of None \<Rightarrow> None
       | Some m \<Rightarrow> if fresh_sessions s now m = [] then None else Some (fresh_sessions s now m))"
    using get by (simp add: cleanupStale_def run)
  show "map who (fst (cleanupStale now s)) = concat (map (stale_of s now) (activeSessions s))"
    "queued (snd (cleanupStale now s)) a \<union> reported (fst (cleanupStale now s)) a = queued s a"
    using f [of a] by (simp_all add: cleanupStale_def run)
  have "m \<noteq> [] \<and> map_ok m" if "(b, m) \<in> set (activeSessions s')" for b m
  proof -
    have "map_ok (activeSessions s')" using f [of b] assms by (simp add: tracker_inv_def)
    then have "map_get (activeSessions s') b = Some m" using that by (simp only: get_mem)
    then obtain m0 where m0: "map_get (activeSessions s) b = Some m0" "m = fresh_sessions s now m0" "m \<noteq> []"
      unfolding get by (auto split: option.splits if_splits)
    then have "map_ok m0" using assms by (auto simp: get_mem tracker_inv_def)
    then show ?thesis using m0 by (simp add: fresh_sessions_def map_ok_def distinct_map_filter)
  qed
  then show "tracker_inv (snd (cleanupStale now s))"
    using f assms by (auto simp: cleanupStale_def run tracker_inv_def)
qed

subsection \<open>Other operations keep the invariant and the signals\<close>

lemma mem_set: "map_ok m \<Longrightarrow> (k', v') \<in> set (map_set k v m) \<longleftrightarrow> (k' = k \<and> v' = v) \<or> (k' \<noteq> k \<and> (k', v') \<in> set m)"
  using get_mem [of "map_set k v m" k' v'] get_mem [of m k' v'] by (auto split: if_splits)

lemma mem_delete: "(k', v') \<in> set (map_delete k m) \<longleftrightarrow> k' \<noteq> k \<and> (k', v') \<in> set m"
  by (auto simp: map_delete_def AList.delete_eq)

lemma tracker_inv_get: "tracker_inv s \<Longrightarrow> map_get (activeSessions s) a = Some m \<Longrightarrow> m \<noteq> [] \<and> map_ok m"
  by (auto simp: tracker_inv_def get_mem)

lemma inv_take [simp]: "tracker_inv s \<Longrightarrow> tracker_inv (snd (take_pending a s))"
  by (auto simp: tracker_inv_def)

lemma inv_drop_agent: "tracker_inv s \<Longrightarrow> tracker_inv (s\<lparr>activeSessions := map_delete a (activeSessions s)\<rparr>)"
  by (auto simp: tracker_inv_def mem_delete)

lemma inv_set_agent:
  "tracker_inv s \<Longrightarrow> m \<noteq> [] \<Longrightarrow> map_ok m \<Longrightarrow> tracker_inv (s\<lparr>activeSessions := map_set a m (activeSessions s)\<rparr>)"
  by (auto simp: tracker_inv_def mem_set)

lemma map_set_ne [simp]: "map_set k v m \<noteq> []"
  by (cases m) (auto simp: map_set_def)

lemma start_facts: "tracker_inv s \<Longrightarrow> tracker_inv (snd (startSession a k now s))"
    "queued (snd (startSession a k now s)) b = queued s b"
proof -
  assume inv: "tracker_inv s"
  have "map_ok (orElse (map_get (activeSessions s) a) [])"
    using tracker_inv_get [OF inv, of a] by (cases "map_get (activeSessions s) a") auto
  then show "tracker_inv (snd (startSession a k now s))"
    using inv by (auto simp: startSession_def Let_def intro: inv_set_agent)
qed (simp add: startSession_def Let_def)

lemma end_cases:
  assumes "tracker_inv s"
  obtains (no) "endSession a k s = (None, s)"
    | (some) rest where "endSession a k s = (None, s\<lparr>activeSessions := map_set a rest (activeSessions s)\<rparr>)" "rest \<noteq> []" "map_ok rest"
    | (last) "endSession a k s = take_pending a (s\<lparr>activeSessions := map_delete a (activeSessions s)\<rparr>)"
proof (cases "map_get (activeSessions s) a")
  case None
  then show ?thesis using no by (simp add: endSession_def)
next
  case (Some m)
  then obtain x xs where m: "m = x # xs" "map_ok m" using tracker_inv_get [OF assms] by (cases m) auto
  show ?thesis
  proof (cases "truthy k \<and> (\<not> map_has m (orElse k []) \<or> map_delete (orElse k []) m \<noteq> [])")
    case True
    then show ?thesis using Some m some [of "map_delete (orElse k []) m"] no
      by (cases "map_has m (orElse k [])") (auto simp: endSession_def Let_def)
  next
    case False
    then show ?thesis using Some m last by (auto simp: endSession_def Let_def)
  qed
qed

lemma end_facts:
  assumes "tracker_inv s"
  shows "tracker_inv (snd (endSession a k s))"
    and "queued (snd (endSession a k s)) b \<union> (if b = a then set (orElse (fst (endSession a k s)) []) else {}) = queued s b"
  using assms inv_set_agent inv_drop_agent by (cases rule: end_cases [OF assms, of a k, case_names no some last]; auto)+

lemma queue_facts:
  "tracker_inv s \<Longrightarrow> tracker_inv (queueSignal a ts s)"
  "queued (queueSignal a ts s) b = queued s b \<union> (if b = a then set ts else {})"
  by (auto simp: queueSignal_def tracker_inv_def queued_def)

lemma filter_other_keeps: "filter_other n xs = Inr ys \<Longrightarrow> set ys \<subseteq> set xs \<and>
   (\<forall>x \<in> set xs. normalizeSessionKey x \<noteq> Inr n \<longrightarrow> x \<in> set ys)"
proof (induction xs arbitrary: ys)
  case (Cons x xs)
  then obtain k zs where k: "normalizeSessionKey x = Inr k" "filter_other n xs = Inr zs" "ys = (if k \<noteq> n then x # zs else zs)"
    by (auto split: sum.splits)
  then show ?case using Cons.IH [OF k(2)] by auto
qed simp

lemma remove_facts:
  "tracker_inv s \<Longrightarrow> tracker_inv (snd (remove_from n targets r s)) \<and>
   queued (snd (remove_from n targets r s)) b \<subseteq> queued s b \<and>
   (\<forall>x \<in> queued s b. normalizeSessionKey x \<noteq> Inr n \<longrightarrow> x \<in> queued (snd (remove_from n targets r s)) b)"
proof (induction n targets r s rule: remove_from.induct)
  case (2 n target targets removed s)
  show ?case
  proof (cases "map_get (pendingSignals s) target")
    case (Some existing)
    show ?thesis
    proof (cases existing)
      case (Cons x xs)
      show ?thesis
      proof (cases "filter_other n existing")
        case (Inr nxt)
        let ?s = "s\<lparr>pendingSignals := if nxt \<noteq> [] then map_set target nxt (pendingSignals s)
            else map_delete target (pendingSignals s)\<rparr>"
        have run: "remove_from n (target # targets) removed s = remove_from n targets (removed + (length existing - length nxt)) ?s"
          using Some Cons Inr by simp
        have "tracker_inv ?s" using 2 by (auto simp: tracker_inv_def)
        moreover have "queued ?s b \<subseteq> queued s b \<and> (\<forall>x \<in> queued s b. normalizeSessionKey x \<noteq> Inr n \<longrightarrow> x \<in> queued ?s b)"
          using Some filter_other_keeps [OF Inr] by (auto simp: queued_def)
        ultimately show ?thesis using "2.IH"(3) [OF Some Cons, of nxt] Inr Cons unfolding run by fastforce
      qed (use 2 Some Cons in simp)
    qed (use 2 Some in simp)
  qed (use 2 in simp)
qed simp

subsection \<open>Properties\<close>

datatype tracker_op =
    Start string string nat
  | End string "string option"
  | Queue string "string list"
  | RemovePending string "string option"
  | Cleanup nat

text \<open>An operation with the (agent, ticket) signals it hands back to its caller.\<close>

fun tracker_step :: "tracker_op \<Rightarrow> SessionTracker \<Rightarrow> (string \<times> string) list \<times> SessionTracker" where
  "tracker_step (Start a k now) s = ([], snd (startSession a k now s))"
| "tracker_step (End a k) s = (map (Pair a) (orElse (fst (endSession a k s)) []), snd (endSession a k s))"
| "tracker_step (Queue a ts) s = ([], queueSignal a ts s)"
| "tracker_step (RemovePending t a) s = ([], snd (removePendingTicket t a s))"
| "tracker_step (Cleanup now) s =
     (concat (map (\<lambda>d. map (Pair (sd_agentId d)) (sd_pendingTickets d)) (fst (cleanupStale now s))), snd (cleanupStale now s))"

fun tracker_run :: "tracker_op list \<Rightarrow> SessionTracker \<Rightarrow> (string \<times> string) list \<times> SessionTracker" where
  "tracker_run [] s = ([], s)"
| "tracker_run (e # es) s = (let (d, s') = tracker_step e s; (ds, s2) = tracker_run es s' in (d @ ds, s2))"

lemma removePending_facts:
  "tracker_inv s \<Longrightarrow> tracker_inv (snd (removePendingTicket t ag s)) \<and>
   queued (snd (removePendingTicket t ag s)) b \<subseteq> queued s b \<and>
   (\<forall>x \<in> queued s b. normalizeSessionKey x \<noteq> normalizeSessionKey t \<longrightarrow> x \<in> queued (snd (removePendingTicket t ag s)) b)"
  using remove_facts by (cases "normalizeSessionKey t") (auto simp: removePendingTicket_def)

lemma tracker_step_inv: "tracker_inv s \<Longrightarrow> tracker_inv (snd (tracker_step e s))"
  using start_facts(1) end_facts(1) queue_facts(1) removePending_facts cleanup_facts(4) by (cases e) auto

lemma tracker_step_signals:
  assumes "tracker_inv s" "\<forall>t ag. e = RemovePending t ag \<longrightarrow> normalizeSessionKey t \<noteq> normalizeSessionKey x"
  shows "(x \<in> queued (snd (tracker_step e s)) a \<or> (a, x) \<in> set (fst (tracker_step e s))) \<longleftrightarrow>
    (x \<in> queued s a \<or> (\<exists>ts. e = Queue a ts \<and> x \<in> set ts))"
proof (cases e)
  case (Start b k now)
  then show ?thesis by (simp add: start_facts(2))
next
  case (End b k)
  then show ?thesis using end_facts(2) [OF assms(1), of b k a, symmetric] by auto
next
  case (Queue b ts)
  then show ?thesis by (auto simp: queue_facts(2))
next
  case (RemovePending t ag)
  then show ?thesis using removePending_facts [OF assms(1), of t ag a] assms(2) by auto
next
  case (Cleanup now)
  have "(a, x) \<in> set (fst (tracker_step e s)) \<longleftrightarrow> x \<in> reported (fst (cleanupStale now s)) a"
    using Cleanup by (auto simp: reported_def)
  then show ?thesis using Cleanup cleanup_facts(3) [OF assms(1), of now a, symmetric] by auto
qed

lemma tracker_run_signals:
  assumes "tracker_inv s" "\<forall>t ag. RemovePending t ag \<in> set es \<longrightarrow> normalizeSessionKey t \<noteq> normalizeSessionKey x"
  shows "tracker_inv (snd (tracker_run es s)) \<and>
    ((x \<in> queued (snd (tracker_run es s)) a \<or> (a, x) \<in> set (fst (tracker_run es s))) \<longleftrightarrow>
     (x \<in> queued s a \<or> (\<exists>ts. Queue a ts \<in> set es \<and> x \<in> set ts)))"
  using assms
proof (induction es arbitrary: s)
  case (Cons e es)
  define s' where "s' = snd (tracker_step e s)"
  have "tracker_inv s'" using Cons.prems(1) by (simp add: s'_def tracker_step_inv)
  moreover have "\<forall>t ag. RemovePending t ag \<in> set es \<longrightarrow> normalizeSessionKey t \<noteq> normalizeSessionKey x"
    using Cons.prems(2) by simp
  ultimately have ih: "tracker_inv (snd (tracker_run es s'))"
    "(x \<in> queued (snd (tracker_run es s')) a \<or> (a, x) \<in> set (fst (tracker_run es s'))) \<longleftrightarrow>
      (x \<in> queued s' a \<or> (\<exists>ts. Queue a ts \<in> set es \<and> x \<in> set ts))"
    using Cons.IH [of s'] by simp_all
  have "(x \<in> queued s' a \<or> (a, x) \<in> set (fst (tracker_step e s))) \<longleftrightarrow> (x \<in> queued s a \<or> (\<exists>ts. e = Queue a ts \<and> x \<in> set ts))"
    unfolding s'_def by (rule tracker_step_signals [OF Cons.prems(1)]) (use Cons.prems(2) in auto)
  moreover have "tracker_run (e # es) s = (fst (tracker_step e s) @ fst (tracker_run es s'), snd (tracker_run es s'))"
    by (simp add: s'_def split_beta Let_def)
  ultimately show ?case using ih by auto
qed simp

lemma tracker_inv_new [simp]: "tracker_inv (tracker_new t env)"
  by (simp add: tracker_inv_def tracker_new_def)

text \<open>
  C30: No queued signal is lost or invented: after any sequence of session starts and ends, queued
  retries, stale cleanups and removals, a ticket that no removal named is still queued for an
  agent or was handed back for that agent by a session end or a cleanup exactly when it was
  queued for that agent at the start or along the way.
\<close>

theorem signals_neither_lost_nor_invented:
  assumes "tracker_inv s" and "\<forall>t ag. RemovePending t ag \<in> set es \<longrightarrow> normalizeSessionKey t \<noteq> normalizeSessionKey x"
  shows "(x \<in> queued (snd (tracker_run es s)) a \<or> (a, x) \<in> set (fst (tracker_run es s))) =
    (x \<in> queued s a \<or> (\<exists>ts. Queue a ts \<in> set es \<and> x \<in> set ts))"
  using tracker_run_signals [OF assms] by simp

theorem signals_neither_lost_nor_invented_witness:
  "(let es = [Start ''ada'' ''k'' 0, Queue ''ada'' [''INF-7''], RemovePending ''INF-8'' None, Cleanup 9000000]
    in ''INF-7'' \<in> queued (snd (tracker_run es (tracker_new None None))) ''ada'' \<or>
       (''ada'', ''INF-7'') \<in> set (fst (tracker_run es (tracker_new None None))))"
proof -
  have "normalizeSessionKey ''INF-8'' \<noteq> normalizeSessionKey ''INF-7''" by code_simp
  then show ?thesis
    using signals_neither_lost_nor_invented [OF tracker_inv_new, of "[Start ''ada'' ''k'' 0, Queue ''ada'' [''INF-7''],
        RemovePending ''INF-8'' None, Cleanup 9000000]" "''INF-7''" None None "''ada''"] by (simp add: Let_def)
qed

text \<open>
  A cleanup ends exactly the sessions older than the timeout: afterwards an agent's session is
  active if and only if it was and is not past the timeout, each session past it is reported once
  with its start time, no agent is left with an empty set of sessions, and with a timeout that
  does not parse nothing is ever ended.
\<close>

theorem cleanup_ends_exactly_the_stale:
  assumes "tracker_inv s"
  shows "tracker_inv (snd (cleanupStale now s)) \<and>
    isActiveForTicket (snd (cleanupStale now s)) a k =
      (\<exists>m t. (a, m) \<in> set (activeSessions s) \<and> (k, t) \<in> set m \<and>
         (case sessionTimeoutMs s of None \<Rightarrow> True | Some limit \<Rightarrow> int now - int t \<le> limit)) \<and>
    map (\<lambda>d. (sd_agentId d, sd_sessionKey d, sd_startedAt d)) (fst (cleanupStale now s)) =
      [(b, j, t). (b, m) \<leftarrow> activeSessions s, (j, t) \<leftarrow> m,
         case sessionTimeoutMs s of None \<Rightarrow> False | Some limit \<Rightarrow> limit < int now - int t]"
proof (intro conjI)
  have stale: "is_stale s now t = (case sessionTimeoutMs s of None \<Rightarrow> False | Some limit \<Rightarrow> limit < int now - int t)" for t
    by (simp add: is_stale_def num_less_def split: option.split)
  show "tracker_inv (snd (cleanupStale now s))" by (rule cleanup_facts(4) [OF assms])
  have get: "map_get (activeSessions s) a = Some m \<longleftrightarrow> (a, m) \<in> set (activeSessions s)" for m
    using assms by (simp add: get_mem tracker_inv_def)
  have has: "map_has (fresh_sessions s now m) k \<longleftrightarrow> (\<exists>t. (k, t) \<in> set m \<and> \<not> is_stale s now t)" if "map_ok m" for m
    by (auto simp: map_has_def fresh_sessions_def map_of_eq_None_iff image_iff)
  have "isActiveForTicket (snd (cleanupStale now s)) a k \<longleftrightarrow>
      (\<exists>m. map_get (activeSessions s) a = Some m \<and> map_has (fresh_sessions s now m) k)"
    unfolding isActiveForTicket_def cleanup_facts(1) [OF assms] by (auto simp: map_has_def split: option.splits)
  also have "\<dots> \<longleftrightarrow> (\<exists>m t. (a, m) \<in> set (activeSessions s) \<and> (k, t) \<in> set m \<and> \<not> is_stale s now t)"
    using has tracker_inv_get [OF assms, of a] by (auto simp: get [symmetric])
  finally show "isActiveForTicket (snd (cleanupStale now s)) a k =
      (\<exists>m t. (a, m) \<in> set (activeSessions s) \<and> (k, t) \<in> set m \<and>
         (case sessionTimeoutMs s of None \<Rightarrow> True | Some limit \<Rightarrow> int now - int t \<le> limit))"
    unfolding stale by (simp split: option.split add: not_less)
  show "map (\<lambda>d. (sd_agentId d, sd_sessionKey d, sd_startedAt d)) (fst (cleanupStale now s)) =
      [(b, j, t). (b, m) \<leftarrow> activeSessions s, (j, t) \<leftarrow> m,
         case sessionTimeoutMs s of None \<Rightarrow> False | Some limit \<Rightarrow> limit < int now - int t]"
    using cleanup_facts(2) [OF assms, of now] unfolding who_def [abs_def] stale_of_def stale [symmetric]
    by (simp add: split_def)
qed

theorem cleanup_ends_exactly_the_stale_witness:
  "\<not> isActiveForTicket (snd (cleanupStale 9000000 (snd (startSession ''ada'' ''k'' 0 (tracker_new (Some 1500000) None))))) ''ada'' ''k''"
proof -
  let ?s = "snd (startSession ''ada'' ''k'' 0 (tracker_new (Some 1500000) None))"
  have s: "activeSessions ?s = [(''ada'', [(''k'', 0)])]" "sessionTimeoutMs ?s = Some 1500000"
    by (simp_all add: startSession_def tracker_new_def map_has_def map_set_def map_get_def)
  have inv: "tracker_inv ?s" by (rule start_facts(1)) simp
  show ?thesis
    using cleanup_ends_exactly_the_stale [OF inv, of 9000000 "''ada''" "''k''"] unfolding s by simp
qed

end
