(* ===== verification/CircuitBreaker.thy ===== *)
theory CircuitBreaker
  imports IsoTime JsMap JsString
begin

text \<open>
  \<open>src/dispatch-circuit-breaker.ts\<close>: the state-aware breaker of the webhook and re-poke paths
  (the module-level map is the state argument), the class for governed tickets, and the gate that
  \<open>src/webhook/index.ts\<close> builds from them. The alert sent by \<open>notify\<close> is a result.
\<close>

subsection \<open>The state-aware breaker\<close>

definition DEFAULT_MAX_WAKES :: nat where
  "DEFAULT_MAX_WAKES = 3"

definition DEFAULT_MAX_STATE_REVISITS :: "string option \<Rightarrow> nat" where
  "DEFAULT_MAX_STATE_REVISITS env =
     (case parseInt (orElse env []) of Some raw \<Rightarrow> if 0 < raw then nat raw else 10 | None \<Rightarrow> 10)"

record TicketBreakerState =
  lastStateLabel :: "string option"
  lastDispatchAt :: "string option"
  tb_wakeCount :: nat
  tripped :: bool
  trippedAt :: "string option"
  seenStates :: "string list option"
  revisitCount :: "nat option"

type_synonym breaker_map = "(string, TicketBreakerState) jsmap"

datatype breaker_alert = DeadDispatchLoop string nat | TransitionStuckAlert string string nat

definition isRevisit :: "TicketBreakerState \<Rightarrow> string \<Rightarrow> bool" where
  "isRevisit b l = (l \<in> set (orElse (seenStates b) []))"

definition withSeenState :: "TicketBreakerState option \<Rightarrow> string \<Rightarrow> string list" where
  "withSeenState existing l =
     (let prior = (case Option.bind existing seenStates of
                     Some seen \<Rightarrow> seen
                   | None \<Rightarrow> if truthy (Option.bind existing lastStateLabel)
                             then [orElse (Option.bind existing lastStateLabel) []] else [])
      in if l \<in> set prior then prior else prior @ [l])"

definition fresh_breaker :: "string option \<Rightarrow> string list \<Rightarrow> nat \<Rightarrow> TicketBreakerState" where
  "fresh_breaker l seen now = \<lparr>lastStateLabel = l, lastDispatchAt = Some (toISOString now), tb_wakeCount = 0,
     tripped = False, trippedAt = None, seenStates = Some seen, revisitCount = Some 0\<rparr>"

definition recordDispatch ::
  "string \<Rightarrow> string option \<Rightarrow> nat \<Rightarrow> nat \<Rightarrow> nat \<Rightarrow> breaker_map \<Rightarrow>
   TicketBreakerState \<times> breaker_alert option \<times> breaker_map" where
  "recordDispatch ticketId stateLabel maxWakes maxRevisits now m =
     (case stateLabel of
        None \<Rightarrow> (let f = fresh_breaker None [] now in (f, None, map_set ticketId f m))
      | Some l \<Rightarrow>
          (case map_get m ticketId of
             None \<Rightarrow> (let f = fresh_breaker (Some l) [l] now in (f, None, map_set ticketId f m))
           | Some b \<Rightarrow>
               let isNewState = \<not> isRevisit b l;
                   advanced = fresh_breaker (Some l) (withSeenState (Some b) l) now
               in if tripped b then
                    (if isNewState then (advanced, None, map_set ticketId advanced m)
                     else (b\<lparr>lastStateLabel := Some l, lastDispatchAt := Some (toISOString now)\<rparr>, None, m))
                  else if isNewState then (advanced, None, map_set ticketId advanced m)
                  else
                    let sameAsLast = (lastStateLabel b = Some l);
                        newCount = (if sameAsLast then tb_wakeCount b + 1 else 0);
                        newRevisit = orElse (revisitCount b) 0 + 1;
                        revisitTrip = (maxRevisits \<le> newRevisit);
                        shouldTrip = (sameAsLast \<and> maxWakes \<le> newCount \<or> revisitTrip);
                        u = \<lparr>lastStateLabel = Some l, lastDispatchAt = Some (toISOString now), tb_wakeCount = newCount,
                             tripped = shouldTrip, trippedAt = (if shouldTrip then Some (toISOString now) else None),
                             seenStates = (case seenStates b of Some seen \<Rightarrow> Some seen | None \<Rightarrow> Some (withSeenState (Some b) l)),
                             revisitCount = Some newRevisit\<rparr>
                    in (u, if \<not> shouldTrip then None
                           else if revisitTrip then Some (DeadDispatchLoop ticketId newRevisit)
                           else Some (TransitionStuckAlert ticketId l newCount),
                        map_set ticketId u m)))"

definition recordFailedWake ::
  "string \<Rightarrow> string option \<Rightarrow> nat \<Rightarrow> nat \<Rightarrow> breaker_map \<Rightarrow> (bool \<times> nat) \<times> breaker_alert option \<times> breaker_map" where
  "recordFailedWake ticketId stateLabel maxWakes now m =
     (case map_get m ticketId of
        None \<Rightarrow> ((False, 0), None, m)
      | Some b \<Rightarrow>
          if tripped b then ((True, tb_wakeCount b), None, m)
          else
            (case (case stateLabel of Some l \<Rightarrow> Some l | None \<Rightarrow> lastStateLabel b) of
               None \<Rightarrow> ((False, 0), None, m)
             | Some l \<Rightarrow>
                 let newCount = tb_wakeCount b + 1;
                     shouldTrip = (maxWakes \<le> newCount);
                     u = \<lparr>lastStateLabel = Some l, lastDispatchAt = Some (toISOString now), tb_wakeCount = newCount,
                          tripped = shouldTrip, trippedAt = (if shouldTrip then Some (toISOString now) else None),
                          seenStates = (case seenStates b of Some seen \<Rightarrow> Some seen | None \<Rightarrow> Some (withSeenState (Some b) l)),
                          revisitCount = Some (orElse (revisitCount b) 0)\<rparr>
                 in ((shouldTrip, newCount), if shouldTrip then Some (TransitionStuckAlert ticketId l newCount) else None,
                     map_set ticketId u m)))"

definition breaker_check :: "string \<Rightarrow> breaker_map \<Rightarrow> TicketBreakerState option" where
  "breaker_check ticketId m = (case map_get m ticketId of None \<Rightarrow> None | Some b \<Rightarrow> if tripped b then Some b else None)"

text \<open>The state is the result of \<open>recordDispatch\<close>; \<open>suppress\<close> reads the map after it.\<close>

definition recordRepokeAndCheckBreaker ::
  "string \<Rightarrow> string option \<Rightarrow> nat \<Rightarrow> nat \<Rightarrow> breaker_map \<Rightarrow> (bool \<times> TicketBreakerState) \<times> breaker_map" where
  "recordRepokeAndCheckBreaker ticketId stateLabel revisitCap now m =
     (let (state, _, m') = recordDispatch ticketId stateLabel DEFAULT_MAX_WAKES revisitCap now m
      in ((breaker_check ticketId m' \<noteq> None, state), m'))"

definition breaker_reset :: "string \<Rightarrow> breaker_map \<Rightarrow> bool \<times> breaker_map" where
  "breaker_reset ticketId m = (map_has m ticketId, map_delete ticketId m)"

record comment_event =
  ce_type :: string
  ce_actorName :: "string option"

definition checkCommentFedSuppressionForTicket ::
  "string \<Rightarrow> comment_event \<Rightarrow> string option \<Rightarrow> string \<Rightarrow> breaker_map \<Rightarrow> bool" where
  "checkCommentFedSuppressionForTicket ticketId event currentStateLabel delegateAgentName m =
     (if ce_type event \<noteq> ''Comment'' then False
      else if \<not> truthy (ce_actorName event) then False
      else
        let author = toLowerCase (orElse (ce_actorName event) []);
            delegate = toLowerCase delegateAgentName;
            same = (author = delegate \<or> take (length delegate) author = delegate \<or> take (length author) delegate = author)
        in if \<not> same then False
           else case map_get m ticketId of None \<Rightarrow> False | Some b \<Rightarrow> lastStateLabel b = currentStateLabel)"

definition getCircuitBreakerHealth :: "string option \<Rightarrow> breaker_map \<Rightarrow> nat \<times> nat \<times> nat \<times> nat" where
  "getCircuitBreakerHealth env m =
     (length m, length [e \<leftarrow> m. tripped (snd e)], DEFAULT_MAX_WAKES, DEFAULT_MAX_STATE_REVISITS env)"

subsection \<open>The gate of the webhook path\<close>

definition webhook_state_label :: "string list \<Rightarrow> string option" where
  "webhook_state_label labels =
     (let l = joined (sort (map (\<lambda>x. toLowerCase (after_colon x)) [x \<leftarrow> labels. starts_ci ''state:'' x]))
      in if l = [] then None else Some l)"

datatype webhook_outcome = CommentSuppressed | BreakerBlocked TicketBreakerState | Dispatched

definition webhook_gate ::
  "string \<Rightarrow> comment_event \<Rightarrow> string list \<Rightarrow> string \<Rightarrow> nat \<Rightarrow> nat \<Rightarrow> breaker_map \<Rightarrow> webhook_outcome \<times> breaker_map" where
  "webhook_gate ticketId event labels agentId revisitCap now m =
     (let stateLabel = webhook_state_label labels
      in if checkCommentFedSuppressionForTicket ticketId event stateLabel agentId m then (CommentSuppressed, m)
         else case breaker_check ticketId m of
                Some b \<Rightarrow> (BreakerBlocked b, m)
              | None \<Rightarrow> (Dispatched, snd (snd (recordDispatch ticketId stateLabel DEFAULT_MAX_WAKES revisitCap now m))))"

subsection \<open>The class for governed tickets\<close>

definition extractWorkflowLabel :: "string list \<Rightarrow> string option" where
  "extractWorkflowLabel labels = List.find (starts_ci ''wf:'') labels"

definition extractDesignatedApprover :: "string list \<Rightarrow> string option" where
  "extractDesignatedApprover labels =
     (case List.find (starts_ci ''designated-approver:'') labels of
        None \<Rightarrow> None
      | Some l \<Rightarrow> let v = trim (after_colon l) in if 0 < length v then Some v else None)"

record TicketState =
  ts_stateLabel :: "string option"
  ts_wakeCount :: nat
  ts_lastActivityAt :: "string option"
  ts_shouldAlert :: bool
  awaitingDesignatedApprover :: bool
  designatedApprover :: "string option"

record DispatchCircuitBreaker =
  cb_state :: "(string, TicketState) jsmap"
  cb_maxWakes :: nat

definition cb_new :: "nat option \<Rightarrow> DispatchCircuitBreaker" where
  "cb_new maxWakesBeforeAlert = \<lparr>cb_state = [], cb_maxWakes = orElse maxWakesBeforeAlert DEFAULT_MAX_WAKES\<rparr>"

definition cb_recordWake :: "string \<Rightarrow> string list \<Rightarrow> DispatchCircuitBreaker \<Rightarrow> DispatchCircuitBreaker" where
  "cb_recordWake ticketId labels s =
     (let wfLabel = extractWorkflowLabel labels;
          approver = extractDesignatedApprover labels;
          awaiting = (approver \<noteq> None);
          put = (\<lambda>t. s\<lparr>cb_state := map_set ticketId t (cb_state s)\<rparr>)
      in case map_get (cb_state s) ticketId of
           None \<Rightarrow> put \<lparr>ts_stateLabel = wfLabel, ts_wakeCount = 1, ts_lastActivityAt = None,
                       ts_shouldAlert = (if wfLabel \<noteq> None \<and> \<not> awaiting then cb_maxWakes s \<le> 1 else False),
                       awaitingDesignatedApprover = awaiting, designatedApprover = approver\<rparr>
         | Some e \<Rightarrow>
             if wfLabel = None then
               put (e\<lparr>ts_stateLabel := None, ts_wakeCount := ts_wakeCount e + 1, ts_shouldAlert := False,
                      awaitingDesignatedApprover := awaiting, designatedApprover := approver\<rparr>)
             else if ts_lastActivityAt e \<noteq> None then
               put (e\<lparr>ts_wakeCount := 1, ts_shouldAlert := False,
                      awaitingDesignatedApprover := awaiting, designatedApprover := approver\<rparr>)
             else
               let n = ts_wakeCount e + 1
               in put \<lparr>ts_stateLabel = wfLabel, ts_wakeCount = n, ts_lastActivityAt = ts_lastActivityAt e,
                       ts_shouldAlert = (\<not> awaiting \<and> cb_maxWakes s \<le> n \<and> ts_lastActivityAt e = None),
                       awaitingDesignatedApprover = awaiting, designatedApprover = approver\<rparr>)"

definition cb_recordDelegateActivity :: "string \<Rightarrow> nat \<Rightarrow> DispatchCircuitBreaker \<Rightarrow> DispatchCircuitBreaker" where
  "cb_recordDelegateActivity ticketId now s =
     (case map_get (cb_state s) ticketId of
        None \<Rightarrow> s
      | Some e \<Rightarrow> s\<lparr>cb_state := map_set ticketId
          (e\<lparr>ts_wakeCount := 0, ts_lastActivityAt := Some (toISOString now), ts_shouldAlert := False\<rparr>) (cb_state s)\<rparr>)"

datatype cb_reason = AwaitingApprover "string option" | AdHoc | Stuck nat string | ActivityAt string | Below nat nat

record DispatchCircuitBreakerResult =
  cr_shouldAlert :: bool
  cr_wakeCount :: nat
  cr_stateLabel :: "string option"
  cr_reason :: "cb_reason option"

definition cb_evaluate :: "DispatchCircuitBreaker \<Rightarrow> string \<Rightarrow> DispatchCircuitBreakerResult" where
  "cb_evaluate s ticketId =
     (case map_get (cb_state s) ticketId of
        None \<Rightarrow> \<lparr>cr_shouldAlert = False, cr_wakeCount = 0, cr_stateLabel = None, cr_reason = None\<rparr>
      | Some e \<Rightarrow>
          let res = (\<lambda>a r. \<lparr>cr_shouldAlert = a, cr_wakeCount = ts_wakeCount e, cr_stateLabel = ts_stateLabel e, cr_reason = Some r\<rparr>)
          in if awaitingDesignatedApprover e then res False (AwaitingApprover (designatedApprover e))
             else case ts_stateLabel e of
                    None \<Rightarrow> res False AdHoc
                  | Some l \<Rightarrow>
                      if ts_shouldAlert e then res True (Stuck (ts_wakeCount e) l)
                      else (case ts_lastActivityAt e of
                              Some at \<Rightarrow> res False (ActivityAt at)
                            | None \<Rightarrow> res False (Below (ts_wakeCount e) (cb_maxWakes s))))"

definition cb_reset :: "string \<Rightarrow> DispatchCircuitBreaker \<Rightarrow> DispatchCircuitBreaker" where
  "cb_reset ticketId s = s\<lparr>cb_state := map_delete ticketId (cb_state s)\<rparr>"

subsection \<open>Alerts of the class\<close>

datatype cb_op = CbWake string "string list" | CbActivity string nat | CbReset string

fun cb_step :: "cb_op \<Rightarrow> DispatchCircuitBreaker \<Rightarrow> DispatchCircuitBreaker" where
  "cb_step (CbWake t ls) s = cb_recordWake t ls s"
| "cb_step (CbActivity t now) s = cb_recordDelegateActivity t now s"
| "cb_step (CbReset t) s = cb_reset t s"

definition cb_inv :: "DispatchCircuitBreaker \<Rightarrow> bool" where
  "cb_inv s \<longleftrightarrow> (\<forall>t e. map_get (cb_state s) t = Some e \<and> ts_shouldAlert e \<longrightarrow>
     ts_stateLabel e \<noteq> None \<and> \<not> awaitingDesignatedApprover e \<and> ts_lastActivityAt e = None \<and>
     cb_maxWakes s \<le> ts_wakeCount e)"

lemma cb_keeps_max [simp]: "cb_maxWakes (cb_step e s) = cb_maxWakes s"
  by (cases e) (auto simp: cb_recordWake_def cb_recordDelegateActivity_def cb_reset_def Let_def split: option.split)

lemma cb_step_inv: "cb_inv s \<Longrightarrow> cb_inv (cb_step e s)"
  by (cases e) (auto simp: cb_inv_def cb_recordWake_def cb_recordDelegateActivity_def cb_reset_def Let_def
      split: option.splits if_splits)

lemma cb_run_inv: "cb_inv s \<Longrightarrow> cb_inv (fold cb_step es s)"
  by (induction es arbitrary: s) (auto simp: cb_step_inv)

text \<open>
  The breaker for governed tickets raises no false alarm: through any sequence of wakes with
  any labels, delegate activity and resets for any tickets, \<open>evaluate\<close> alerts only for a ticket
  that carries a \<open>wf:\<close> label, is not parked for a designated approver, shows no activity, and was
  woken at least \<open>maxWakes\<close> times; and then it names that label and that count.
\<close>

theorem alerts_only_when_stuck:
  assumes "cr_shouldAlert (cb_evaluate (fold cb_step es (cb_new limit)) t)"
  shows "\<exists>e l. map_get (cb_state (fold cb_step es (cb_new limit))) t = Some e \<and> ts_stateLabel e = Some l \<and>
    \<not> awaitingDesignatedApprover e \<and> ts_lastActivityAt e = None \<and> orElse limit DEFAULT_MAX_WAKES \<le> ts_wakeCount e \<and>
    cr_reason (cb_evaluate (fold cb_step es (cb_new limit)) t) = Some (Stuck (ts_wakeCount e) l)"
proof -
  let ?s = "fold cb_step es (cb_new limit)"
  have "cb_inv ?s" by (rule cb_run_inv) (simp add: cb_inv_def cb_new_def)
  moreover have "cb_maxWakes ?s = orElse limit DEFAULT_MAX_WAKES"
    by (induction es rule: rev_induct) (simp_all add: cb_new_def)
  ultimately show ?thesis using assms
    by (auto simp: cb_evaluate_def cb_inv_def Let_def split: option.splits if_splits)
qed

theorem alerts_only_when_stuck_witness:
  "cr_shouldAlert (cb_evaluate (fold cb_step [CbWake ''T'' [''wf:dev'']] (cb_new (Some 1))) ''T'') \<and>
   (\<exists>e l. map_get (cb_state (fold cb_step [CbWake ''T'' [''wf:dev'']] (cb_new (Some 1)))) ''T'' = Some e \<and> ts_stateLabel e = Some l)"
proof -
  have a: "cr_shouldAlert (cb_evaluate (fold cb_step [CbWake ''T'' [''wf:dev'']] (cb_new (Some 1))) ''T'')"
    by code_simp
  from alerts_only_when_stuck [OF a] a show ?thesis by blast
qed

subsection \<open>Dispatch loops\<close>

datatype wake_event =
    Webhook string comment_event "string list" string nat
  | Repoke string "string option" nat

text \<open>The tickets dispatched: by the webhook past the gate, by the re-poke that is not suppressed.\<close>

fun breaker_step :: "nat \<Rightarrow> wake_event \<Rightarrow> breaker_map \<Rightarrow> string list \<times> breaker_map" where
  "breaker_step cap (Webhook t ev labels agent now) m =
     (let (g, m') = webhook_gate t ev labels agent cap now m in (case g of Dispatched \<Rightarrow> [t] | _ \<Rightarrow> [], m'))"
| "breaker_step cap (Repoke t l now) m =
     (let (r, m') = recordRepokeAndCheckBreaker t l cap now m in (if fst r then [] else [t], m'))"

fun breaker_run :: "nat \<Rightarrow> wake_event list \<Rightarrow> breaker_map \<Rightarrow> string list \<times> breaker_map" where
  "breaker_run cap [] m = ([], m)"
| "breaker_run cap (e # es) m =
     (let (d, m') = breaker_step cap e m; (ds, m2) = breaker_run cap es m' in (d @ ds, m2))"

definition event_ticket :: "wake_event \<Rightarrow> string" where
  "event_ticket e = (case e of Webhook t _ _ _ _ \<Rightarrow> t | Repoke t _ _ \<Rightarrow> t)"

definition event_label :: "wake_event \<Rightarrow> string option" where
  "event_label e = (case e of Webhook _ _ labels _ _ \<Rightarrow> webhook_state_label labels | Repoke _ l _ \<Rightarrow> l)"

lemma record_other: "k \<noteq> t \<Longrightarrow> map_get (snd (snd (recordDispatch t l w c now m))) k = map_get m k"
  by (auto simp: recordDispatch_def Let_def split: option.split)

lemma step_other: "event_ticket e \<noteq> t \<Longrightarrow> map_get (snd (breaker_step cap e m)) t = map_get m t \<and> t \<notin> set (fst (breaker_step cap e m))"
  by (cases e) (auto simp: event_ticket_def webhook_gate_def recordRepokeAndCheckBreaker_def Let_def split_beta
      record_other split: option.split webhook_outcome.split)

lemma blocked_webhook:
  assumes "map_get m t = Some b" "tripped b"
  shows "webhook_gate t ev labels agent cap now m \<in> {(CommentSuppressed, m), (BreakerBlocked b, m)}"
  using assms by (auto simp: webhook_gate_def breaker_check_def Let_def)

text \<open>
  A tripped ticket is never dispatched by a webhook again: the gate consults the breaker before
  it records the event, so once a ticket has tripped, every later webhook for it is stopped,
  whatever state the ticket has reached in the meantime, and none of them changes the breaker.
  Only the re-poke path, which records first, can clear it.
\<close>

theorem tripped_ticket_ignores_state_advance:
  assumes "map_get m t = Some b" and "tripped b" and "\<forall>e \<in> set es. \<exists>u ev labels agent now. e = Webhook u ev labels agent now"
  shows "t \<notin> set (fst (breaker_run cap es m)) \<and> map_get (snd (breaker_run cap es m)) t = Some b"
  using assms
proof (induction es arbitrary: m)
  case (Cons e es)
  define m' where "m' = snd (breaker_step cap e m)"
  obtain u ev labels agent now where e: "e = Webhook u ev labels agent now" using Cons.prems(3) by auto
  have "map_get m' t = Some b \<and> t \<notin> set (fst (breaker_step cap e m))"
  proof (cases "u = t")
    case True
    then show ?thesis using blocked_webhook [OF Cons.prems(1,2), of ev labels agent cap now] Cons.prems(1) e
      by (auto simp: m'_def)
  next
    case False
    then show ?thesis using step_other [of e t cap m] Cons.prems(1) e by (simp add: event_ticket_def m'_def)
  qed
  then show ?case using Cons.IH [of m'] Cons.prems(2,3) by (simp add: m'_def split_beta Let_def)
qed simp

definition tripped_sample :: TicketBreakerState where
  "tripped_sample = \<lparr>lastStateLabel = Some ''doing'', lastDispatchAt = None, tb_wakeCount = 3, tripped = True,
     trippedAt = None, seenStates = Some [''doing''], revisitCount = Some 3\<rparr>"

theorem tripped_ticket_ignores_state_advance_witness:
  "''T'' \<notin> set (fst (breaker_run 10 [Webhook ''T'' \<lparr>ce_type = ''Issue'', ce_actorName = None\<rparr> [''state:done''] ''ada'' 0]
     [(''T'', tripped_sample)]))"
  using tripped_ticket_ignores_state_advance [of "[(''T'', tripped_sample)]" "''T''" tripped_sample
      "[Webhook ''T'' \<lparr>ce_type = ''Issue'', ce_actorName = None\<rparr> [''state:done''] ''ada'' 0]" 10]
  by (auto simp: map_get_def tripped_sample_def)

subsection \<open>The bound on dispatches\<close>

text \<open>
  The record of a ticket that has only seen labels of \<open>L\<close>, and the dispatches it can account for.
\<close>

definition tracks :: "string set \<Rightarrow> nat \<Rightarrow> TicketBreakerState \<Rightarrow> bool" where
  "tracks L cap b \<longleftrightarrow> (\<exists>seen r. seenStates b = Some seen \<and> revisitCount b = Some r \<and> distinct seen \<and> seen \<noteq> [] \<and>
     set seen \<subseteq> L \<and> r \<le> cap \<and> (\<not> tripped b \<longrightarrow> r < cap))"

definition accounted :: "nat \<Rightarrow> TicketBreakerState option \<Rightarrow> nat" where
  "accounted cap bo = (case bo of None \<Rightarrow> 0
     | Some b \<Rightarrow> (length (orElse (seenStates b) []) - 1) * (cap + 1) + 1 + orElse (revisitCount b) 0)"

lemma record_dispatch_account:
  assumes "l \<in> L" "0 < cap" "case map_get m t of None \<Rightarrow> True | Some b \<Rightarrow> tracks L cap b"
    and "recordDispatch t (Some l) DEFAULT_MAX_WAKES cap now m = (st, al, m')"
  shows "\<exists>b'. map_get m' t = Some b' \<and> tracks L cap b' \<and>
    (if (\<exists>b. map_get m t = Some b \<and> tripped b) \<and> tripped b' then accounted cap (Some b') = accounted cap (map_get m t)
     else accounted cap (map_get m t) < accounted cap (Some b'))"
proof (cases "map_get m t")
  case None
  then have "m' = map_set t (fresh_breaker (Some l) [l] now) m" using assms(4) by (auto simp: recordDispatch_def Let_def)
  then show ?thesis using None assms(1,2) by (auto simp: fresh_breaker_def tracks_def accounted_def)
next
  case (Some b)
  then obtain seen r where b: "seenStates b = Some seen" "revisitCount b = Some r" "distinct seen" "seen \<noteq> []"
    "set seen \<subseteq> L" "r \<le> cap" "\<not> tripped b \<longrightarrow> r < cap" using assms(3) by (auto simp: tracks_def)
  have len: "0 < length seen" using b(4) by simp
  have rev: "isRevisit b l \<longleftrightarrow> l \<in> set seen" using b(1) by (simp add: isRevisit_def)
  show ?thesis
  proof (cases "l \<in> set seen")
    case False
    define adv where "adv = fresh_breaker (Some l) (seen @ [l]) now"
    have "withSeenState (Some b) l = seen @ [l]" using b(1) False by (simp add: withSeenState_def)
    then have m': "m' = map_set t adv m"
      using assms(4) Some False rev by (auto simp: recordDispatch_def Let_def adv_def split: if_splits)
    have "length seen * (cap + 1) = (length seen - 1) * (cap + 1) + (cap + 1)"
      using len by (cases "length seen") simp_all
    then have "accounted cap (Some b) < accounted cap (Some adv)"
      using b by (simp add: accounted_def adv_def fresh_breaker_def)
    moreover have "tracks L cap adv" using b False assms(1,2) by (auto simp: tracks_def adv_def fresh_breaker_def)
    moreover have "\<not> tripped adv" by (simp add: adv_def fresh_breaker_def)
    ultimately show ?thesis using m' Some by auto
  next
    case True
    show ?thesis
    proof (cases "tripped b")
      case tr: True
      then have "m' = m" using assms(4) Some True rev by (auto simp: recordDispatch_def Let_def)
      then show ?thesis using Some tr assms(3) by auto
    next
      case False
      then obtain u where m': "m' = map_set t u m" and u: "seenStates u = Some seen" "revisitCount u = Some (r + 1)"
          "\<not> tripped u \<longrightarrow> r + 1 < cap"
        using assms(4) Some True rev b by (auto simp: recordDispatch_def Let_def not_le)
      then have "tracks L cap u" using b False by (auto simp: tracks_def)
      then show ?thesis using m' u Some False b by (auto simp: accounted_def)
    qed
  qed
qed

definition acc_ok :: "string set \<Rightarrow> nat \<Rightarrow> breaker_map \<Rightarrow> string \<Rightarrow> bool" where
  "acc_ok L cap m t = (case map_get m t of None \<Rightarrow> True | Some b \<Rightarrow> tracks L cap b)"

lemma step_account:
  assumes "acc_ok L cap m t" "0 < cap" "event_ticket e = t \<Longrightarrow> \<exists>l \<in> L. event_label e = Some l"
  shows "acc_ok L cap (snd (breaker_step cap e m)) t \<and>
    accounted cap (map_get m t) + count_list (fst (breaker_step cap e m)) t \<le>
      accounted cap (map_get (snd (breaker_step cap e m)) t)"
proof (cases "event_ticket e = t")
  case False
  then show ?thesis using step_other [OF False, of cap m] assms(1) by (simp add: acc_ok_def)
next
  case True
  then obtain l where l: "l \<in> L" "event_label e = Some l" using assms(3) by blast
  obtain now where now: "e = Repoke t (Some l) now \<or> (\<exists>ev labels agent. e = Webhook t ev labels agent now \<and>
      webhook_state_label labels = Some l)"
    using True l(2) by (cases e) (auto simp: event_ticket_def event_label_def)
  obtain st al m' where rec: "recordDispatch t (Some l) DEFAULT_MAX_WAKES cap now m = (st, al, m')" by (metis surj_pair)
  note acc = record_dispatch_account [OF l(1) assms(2) assms(1) [unfolded acc_ok_def] rec]
  from acc obtain b' where b': "map_get m' t = Some b'" "tracks L cap b'"
    "accounted cap (map_get m t) \<le> accounted cap (Some b')"
    "\<not> tripped b' \<or> (\<forall>b. map_get m t = Some b \<longrightarrow> \<not> tripped b) \<Longrightarrow> accounted cap (map_get m t) < accounted cap (Some b')"
    by (auto split: if_splits)
  from now show ?thesis
  proof
    assume "e = Repoke t (Some l) now"
    then show ?thesis using b' by (auto simp: recordRepokeAndCheckBreaker_def rec breaker_check_def acc_ok_def)
  next
    assume "\<exists>ev labels agent. e = Webhook t ev labels agent now \<and> webhook_state_label labels = Some l"
    then obtain ev labels agent where e: "e = Webhook t ev labels agent now" "webhook_state_label labels = Some l" by blast
    consider (sup) g where "webhook_gate t ev labels agent cap now m = (g, m)" "g \<noteq> Dispatched"
      | (go) "webhook_gate t ev labels agent cap now m = (Dispatched, m')" "\<forall>b. map_get m t = Some b \<longrightarrow> \<not> tripped b"
    proof (cases "checkCommentFedSuppressionForTicket t ev (Some l) agent m \<or> breaker_check t m \<noteq> None")
      case True
      then show thesis
        by (intro sup [of "fst (webhook_gate t ev labels agent cap now m)"])
           (auto simp: webhook_gate_def Let_def e(2) split: if_splits)
    next
      case False
      then show thesis
        by (intro go) (auto simp: webhook_gate_def Let_def e(2) rec breaker_check_def split: if_splits)
    qed
    then show ?thesis
    proof cases
      case sup
      then show ?thesis using e assms(1) by (cases g) (auto simp: acc_ok_def)
    next
      case go
      then show ?thesis using e b' by (auto simp: acc_ok_def)
    qed
  qed
qed

lemma run_account:
  assumes "acc_ok L cap m t" "0 < cap" "\<forall>e \<in> set es. event_ticket e = t \<longrightarrow> (\<exists>l \<in> L. event_label e = Some l)"
  shows "acc_ok L cap (snd (breaker_run cap es m)) t \<and>
    accounted cap (map_get m t) + count_list (fst (breaker_run cap es m)) t \<le>
      accounted cap (map_get (snd (breaker_run cap es m)) t)"
  using assms
proof (induction es arbitrary: m)
  case (Cons e es)
  define m' where "m' = snd (breaker_step cap e m)"
  have s: "acc_ok L cap m' t" "accounted cap (map_get m t) + count_list (fst (breaker_step cap e m)) t \<le> accounted cap (map_get m' t)"
    using step_account [OF Cons.prems(1,2), of e] Cons.prems(3) by (auto simp: m'_def)
  show ?case using Cons.IH [OF s(1) Cons.prems(2)] Cons.prems(3) s(2) by (auto simp: m'_def split_beta Let_def)
qed simp

lemma accounted_bound:
  assumes "tracks L cap b" "finite L"
  shows "accounted cap (Some b) \<le> card L * (cap + 1)"
proof -
  obtain seen r where b: "seenStates b = Some seen" "revisitCount b = Some r" "distinct seen" "seen \<noteq> []" "set seen \<subseteq> L" "r \<le> cap"
    using assms(1) by (auto simp: tracks_def)
  have "length seen \<le> card L" using b(3,5) assms(2) by (metis card_mono distinct_card)
  then obtain k where k: "length seen = Suc k" "Suc k \<le> card L" using b(4) by (cases "length seen") auto
  have "accounted cap (Some b) \<le> Suc k * (cap + 1)" using b k by (simp add: accounted_def)
  also have "\<dots> \<le> card L * (cap + 1)" using k(2) by (rule mult_le_mono1)
  finally show ?thesis .
qed

text \<open>
  A ticket that moves among finitely many workflow states is dispatched finitely often: over
  any sequence of webhooks and re-pokes, of this and other tickets, in any order, with any
  comments, as long as the ticket always carries one of the state labels in \<open>L\<close>, it is
  dispatched at most \<open>|L| * (cap + 1)\<close> times, \<open>cap\<close> being the revisit limit, however it cycles
  among the states.
\<close>

theorem dispatch_loop_bounded:
  assumes "finite L" and "0 < cap" and "map_get m t = None"
    and "\<forall>e \<in> set es. event_ticket e = t \<longrightarrow> (\<exists>l \<in> L. event_label e = Some l)"
  shows "count_list (fst (breaker_run cap es m)) t \<le> card L * (cap + 1)"
proof -
  note r = run_account [of L cap m t es] assms
  then have acc: "acc_ok L cap (snd (breaker_run cap es m)) t"
    "count_list (fst (breaker_run cap es m)) t \<le> accounted cap (map_get (snd (breaker_run cap es m)) t)"
    by (auto simp: acc_ok_def [of _ _ m] accounted_def [of _ None])
  show ?thesis
  proof (cases "map_get (snd (breaker_run cap es m)) t")
    case None
    then show ?thesis using acc(2) by (simp add: accounted_def)
  next
    case (Some b)
    then show ?thesis using acc accounted_bound [OF _ assms(1), of cap b] by (auto simp: acc_ok_def)
  qed
qed

theorem dispatch_loop_bounded_witness:
  "count_list (fst (breaker_run 10 (concat (replicate 40 [Repoke ''T'' (Some ''doing'') 0, Repoke ''T'' (Some ''intake'') 0])) [])) ''T'' \<le> 22"
proof -
  have "count_list (fst (breaker_run 10 (concat (replicate 40 [Repoke ''T'' (Some ''doing'') 0, Repoke ''T'' (Some ''intake'') 0])) [])) ''T''
      \<le> card {''doing'', ''intake''} * (10 + 1)"
    by (rule dispatch_loop_bounded) (auto simp: event_label_def)
  then show ?thesis by simp
qed

end
