(* ===== verification/AckTracker.thy ===== *)
theory AckTracker
  imports SqlTime SessionKey RedispatchBudget
begin

text \<open>
  \<open>src/bag/dispatch-ack-tracker.ts\<close>: the acknowledgment state of each dispatch, which the
  watchdog and the no-activity detector read. \<open>datetime('now')\<close> is \<open>sql_datetime now\<close>; a key that
  does not normalize throws before anything is written. The callback \<open>onFreshDispatch\<close> is a
  result: the ticket it is called with. Rows of equal time are listed in insertion order.
\<close>

subsection \<open>State\<close>

datatype AckStatus = Pending | Acknowledged | Unconfirmed | Escalated | Deferred

record DispatchAckEntry =
  da_id :: nat
  da_agentId :: string
  da_ticketId :: string
  da_dispatchedAt :: string
  da_lastSignalAt :: string
  da_ackStatus :: AckStatus
  da_attemptCount :: nat
  da_failureCount :: nat

definition DEFAULT_ACK_TTL_MS :: nat where
  "DEFAULT_ACK_TTL_MS = 24 * 60 * 60 * 1000"

record AckTracker =
  dispatch_acks :: "DispatchAckEntry list"
  ack_seq :: nat
  ack_ttlMs :: nat

definition ack_open :: "nat option \<Rightarrow> AckTracker" where
  "ack_open ttl = \<lparr>dispatch_acks = [], ack_seq = 0, ack_ttlMs = orElse ttl DEFAULT_ACK_TTL_MS\<rparr>"

definition da_key :: "DispatchAckEntry \<Rightarrow> string \<times> string" where
  "da_key r = (da_agentId r, da_ticketId r)"

definition open_ack :: "AckStatus \<Rightarrow> bool" where
  "open_ack st = (st = Pending \<or> st = Unconfirmed)"

text \<open>\<open>new Date(Date.now() - ms)\<close> in the format of \<open>datetime('now')\<close>.\<close>

definition sql_cutoff :: "nat \<Rightarrow> nat \<Rightarrow> string" where
  "sql_cutoff now ms = sql_datetime (now - ms)"

subsection \<open>Operations\<close>

definition ack_update ::
  "(DispatchAckEntry \<Rightarrow> bool) \<Rightarrow> (DispatchAckEntry \<Rightarrow> DispatchAckEntry) \<Rightarrow> AckTracker \<Rightarrow> AckTracker" where
  "ack_update P f s = s\<lparr>dispatch_acks := upd_where P f (dispatch_acks s)\<rparr>"

definition ack_insert :: "string \<Rightarrow> string \<Rightarrow> nat \<Rightarrow> nat \<Rightarrow> AckTracker \<Rightarrow> AckTracker" where
  "ack_insert agentId ticketId n now s =
     s\<lparr>dispatch_acks := dispatch_acks s @
          [\<lparr>da_id = ack_seq s + 1, da_agentId = agentId, da_ticketId = ticketId, da_dispatchedAt = sql_datetime now,
            da_lastSignalAt = sql_datetime now, da_ackStatus = Pending, da_attemptCount = n,
            da_failureCount = 0\<rparr>],
       ack_seq := ack_seq s + 1\<rparr>"

definition rearm :: "nat \<Rightarrow> DispatchAckEntry \<Rightarrow> DispatchAckEntry" where
  "rearm now r = r\<lparr>da_dispatchedAt := (if da_ackStatus r = Escalated then sql_datetime now else da_dispatchedAt r),
     da_lastSignalAt := sql_datetime now,
     da_ackStatus := (if da_ackStatus r = Acknowledged \<or> da_ackStatus r = Escalated then Pending else da_ackStatus r),
     da_attemptCount := (if da_ackStatus r = Escalated then 1 else da_attemptCount r + 1),
     da_failureCount := (if da_ackStatus r = Escalated then 0 else da_failureCount r)\<rparr>"

definition ack_recordDispatch :: "string \<Rightarrow> string \<Rightarrow> nat \<Rightarrow> AckTracker \<Rightarrow> key_error + (string \<times> AckTracker)" where
  "ack_recordDispatch agentId ticketId now s =
     (case normalizeSessionKey ticketId of
        Inl e \<Rightarrow> Inl e
      | Inr n \<Rightarrow> Inr (n, if \<exists>r \<in> set (dispatch_acks s). da_key r = (agentId, n)
                        then ack_update (\<lambda>r. da_key r = (agentId, n)) (rearm now) s
                        else ack_insert agentId n 1 now s))"

definition ensurePending :: "string \<Rightarrow> string \<Rightarrow> nat \<Rightarrow> AckTracker \<Rightarrow> key_error + AckTracker" where
  "ensurePending agentId ticketId now s =
     (case normalizeSessionKey ticketId of
        Inl e \<Rightarrow> Inl e
      | Inr n \<Rightarrow> Inr (if \<exists>r \<in> set (dispatch_acks s). da_key r = (agentId, n) then s
                     else ack_insert agentId n 0 now s))"

definition acknowledge :: "string \<Rightarrow> string option \<Rightarrow> AckTracker \<Rightarrow> key_error + (nat \<times> AckTracker)" where
  "acknowledge agentId ticketId s =
     (let ack = (\<lambda>P. Inr (changes P (dispatch_acks s), ack_update P (\<lambda>r. r\<lparr>da_ackStatus := Acknowledged\<rparr>) s))
      in if truthy ticketId then
           (case normalizeSessionKey (orElse ticketId []) of
              Inl e \<Rightarrow> Inl e
            | Inr n \<Rightarrow> ack (\<lambda>r. da_key r = (agentId, n) \<and> open_ack (da_ackStatus r)))
         else ack (\<lambda>r. da_agentId r = agentId \<and> open_ack (da_ackStatus r)))"

datatype disposition = Recovered | Surveilled | NoDispatch

definition noteAuthoredActivity ::
  "string \<Rightarrow> string \<Rightarrow> nat \<Rightarrow> AckTracker \<Rightarrow> key_error + (disposition \<times> AckTracker)" where
  "noteAuthoredActivity agentId ticketId now s =
     (case normalizeSessionKey ticketId of
        Inl e \<Rightarrow> Inl e
      | Inr n \<Rightarrow>
          (case sel_one (\<lambda>r. da_key r = (agentId, n)) (dispatch_acks s) of
             None \<Rightarrow> Inr (NoDispatch, s)
           | Some row \<Rightarrow>
               if da_ackStatus row = Unconfirmed then
                 Inr (Surveilled, ack_update (\<lambda>r. da_key r = (agentId, n)) (\<lambda>r. r\<lparr>da_lastSignalAt := sql_datetime now\<rparr>) s)
               else if da_ackStatus row = Pending then
                 (case acknowledge agentId (Some ticketId) s of
                    Inl e \<Rightarrow> Inl e
                  | Inr (k, s') \<Rightarrow> Inr (if 0 < k then Recovered else NoDispatch, s'))
               else Inr (NoDispatch, s)))"

definition getPendingTimedOut :: "int \<Rightarrow> nat \<Rightarrow> AckTracker \<Rightarrow> DispatchAckEntry list" where
  "getPendingTimedOut timeoutMs now s =
     take 100 (sort_key da_lastSignalAt
       (sel_all (\<lambda>r. open_ack (da_ackStatus r) \<and>
          (timeoutMs \<le> 0 \<or> da_lastSignalAt r \<le> sql_cutoff now (nat timeoutMs))) (dispatch_acks s)))"

definition newest_first :: "DispatchAckEntry list \<Rightarrow> DispatchAckEntry list" where
  "newest_first rows = rev (sort_key da_lastSignalAt (rev rows))"

definition cap_limit :: "int \<Rightarrow> nat" where
  "cap_limit limit = nat (min (max limit 1) 1000)"

definition listFiltered :: "string option \<Rightarrow> AckStatus option \<Rightarrow> int option \<Rightarrow> AckTracker \<Rightarrow> DispatchAckEntry list" where
  "listFiltered agentId ackStatus limit s =
     take (cap_limit (orElse limit 200)) (newest_first
       (sel_all (\<lambda>r. (truthy agentId \<longrightarrow> da_agentId r = orElse agentId []) \<and>
          (case ackStatus of None \<Rightarrow> True | Some st \<Rightarrow> da_ackStatus r = st)) (dispatch_acks s)))"

definition listRecent :: "int \<Rightarrow> AckTracker \<Rightarrow> DispatchAckEntry list" where
  "listRecent limit s = take (cap_limit limit) (newest_first (dispatch_acks s))"

definition with_key :: "string \<Rightarrow> (string \<Rightarrow> AckTracker) \<Rightarrow> key_error + AckTracker" where
  "with_key ticketId f = (case normalizeSessionKey ticketId of Inl e \<Rightarrow> Inl e | Inr n \<Rightarrow> Inr (f n))"

definition markResignaled :: "string \<Rightarrow> string \<Rightarrow> nat \<Rightarrow> AckTracker \<Rightarrow> key_error + AckTracker" where
  "markResignaled agentId ticketId now s = with_key ticketId (\<lambda>n.
     ack_update (\<lambda>r. da_key r = (agentId, n))
       (\<lambda>r. r\<lparr>da_ackStatus := Unconfirmed, da_dispatchedAt := sql_datetime now, da_lastSignalAt := sql_datetime now,
              da_attemptCount := da_attemptCount r + 1, da_failureCount := 0\<rparr>) s)"

definition markResignalFailed :: "string \<Rightarrow> string \<Rightarrow> nat \<Rightarrow> AckTracker \<Rightarrow> key_error + AckTracker" where
  "markResignalFailed agentId ticketId now s = with_key ticketId (\<lambda>n.
     ack_update (\<lambda>r. da_key r = (agentId, n))
       (\<lambda>r. r\<lparr>da_lastSignalAt := sql_datetime now, da_failureCount := da_failureCount r + 1\<rparr>) s)"

definition isEscalated :: "string \<Rightarrow> string \<Rightarrow> AckTracker \<Rightarrow> key_error + bool" where
  "isEscalated agentId ticketId s =
     (case normalizeSessionKey ticketId of
        Inl e \<Rightarrow> Inl e
      | Inr n \<Rightarrow> Inr (sel_one (\<lambda>r. da_key r = (agentId, n) \<and> da_ackStatus r = Escalated) (dispatch_acks s) \<noteq> None))"

definition markEscalated :: "string \<Rightarrow> string \<Rightarrow> AckTracker \<Rightarrow> key_error + AckTracker" where
  "markEscalated agentId ticketId s = with_key ticketId (\<lambda>n.
     ack_update (\<lambda>r. da_key r = (agentId, n)) (\<lambda>r. r\<lparr>da_ackStatus := Escalated\<rparr>) s)"

text \<open>The first component is the ticket \<open>onFreshDispatch\<close> is called with, when a row was re-armed.\<close>

definition clearEscalated :: "string \<Rightarrow> string \<Rightarrow> nat \<Rightarrow> AckTracker \<Rightarrow> key_error + (string option \<times> AckTracker)" where
  "clearEscalated agentId ticketId now s =
     (case normalizeSessionKey ticketId of
        Inl e \<Rightarrow> Inl e
      | Inr n \<Rightarrow>
          let P = (\<lambda>r. da_key r = (agentId, n) \<and> da_ackStatus r = Escalated)
          in Inr (if 0 < changes P (dispatch_acks s) then Some n else None,
                  ack_update P (\<lambda>r. r\<lparr>da_ackStatus := Pending, da_dispatchedAt := sql_datetime now,
                    da_lastSignalAt := sql_datetime now, da_attemptCount := 1, da_failureCount := 0\<rparr>) s))"

definition markDeferred :: "string \<Rightarrow> string \<Rightarrow> nat \<Rightarrow> AckTracker \<Rightarrow> key_error + AckTracker" where
  "markDeferred agentId ticketId now s = with_key ticketId (\<lambda>n.
     ack_update (\<lambda>r. da_key r = (agentId, n))
       (\<lambda>r. r\<lparr>da_ackStatus := Deferred, da_lastSignalAt := sql_datetime now\<rparr>) s)"

definition getDeferredStale :: "nat \<Rightarrow> nat \<Rightarrow> AckTracker \<Rightarrow> DispatchAckEntry list" where
  "getDeferredStale staleMs now s =
     take 50 (sort_key da_lastSignalAt
       (sel_all (\<lambda>r. da_ackStatus r = Deferred \<and> da_lastSignalAt r \<le> sql_cutoff now staleMs) (dispatch_acks s)))"

definition hasRecentPending :: "string \<Rightarrow> string \<Rightarrow> nat \<Rightarrow> nat \<Rightarrow> AckTracker \<Rightarrow> key_error + bool" where
  "hasRecentPending agentId ticketId withinMs now s =
     (case normalizeSessionKey ticketId of
        Inl e \<Rightarrow> Inl e
      | Inr n \<Rightarrow> Inr (sel_one (\<lambda>r. da_key r = (agentId, n) \<and> open_ack (da_ackStatus r) \<and>
                        sql_cutoff now withinMs \<le> da_dispatchedAt r) (dispatch_acks s) \<noteq> None))"

definition ack_cleanup :: "nat \<Rightarrow> AckTracker \<Rightarrow> nat \<times> AckTracker" where
  "ack_cleanup now s =
     (let P = (\<lambda>r. (da_ackStatus r = Acknowledged \<or> da_ackStatus r = Escalated) \<and>
                   da_lastSignalAt r < sql_cutoff now (ack_ttlMs s))
      in (changes P (dispatch_acks s), s\<lparr>dispatch_acks := del_where P (dispatch_acks s)\<rparr>))"

subsection \<open>Invariant and abstract view\<close>

definition ack_inv :: "AckTracker \<Rightarrow> bool" where
  "ack_inv s \<longleftrightarrow> key_ok da_key (dispatch_acks s)"

definition ack_row :: "AckTracker \<Rightarrow> string \<times> string \<Rightarrow> DispatchAckEntry option" where
  "ack_row s k = sel_one (\<lambda>r. da_key r = k) (dispatch_acks s)"

type_synonym ack_view = "string \<times> string \<Rightarrow> (AckStatus \<times> nat \<times> nat) option"

definition ack_abs :: "AckTracker \<Rightarrow> ack_view" where
  "ack_abs s k = map_option (\<lambda>r. (da_ackStatus r, da_attemptCount r, da_failureCount r)) (ack_row s k)"

lemma row_mem: "ack_inv s \<Longrightarrow> ack_row s k = Some r \<longleftrightarrow> r \<in> set (dispatch_acks s) \<and> da_key r = k"
  by (simp add: ack_row_def ack_inv_def sel_one_key_iff)

lemma row_exists: "(\<exists>r \<in> set (dispatch_acks s). da_key r = k) \<longleftrightarrow> ack_row s k \<noteq> None"
  by (simp add: ack_row_def sel_one_None)

lemma row_update: "(\<And>r. da_key (f r) = da_key r) \<Longrightarrow> ack_row (ack_update P f s) k = map_option (\<lambda>r. if P r then f r else r) (ack_row s k)"
  by (simp add: ack_row_def ack_update_def sel_one_upd)

lemma row_update_key:
  "(\<And>r. da_key (f r) = da_key r) \<Longrightarrow>
   ack_row (ack_update (\<lambda>r. da_key r = k' \<and> Q r) f s) k =
     (if k = k' then map_option (\<lambda>r. if Q r then f r else r) (ack_row s k) else ack_row s k)"
proof -
  assume f: "\<And>r. da_key (f r) = da_key r"
  have "da_key r = k" if "ack_row s k = Some r" for r
    using that sel_one_SomeD [of "\<lambda>r. da_key r = k"] by (auto simp: ack_row_def)
  then show ?thesis unfolding row_update [OF f] by (cases "ack_row s k") auto
qed

lemma row_insert: "ack_row s (a, t) = None \<Longrightarrow> ack_row (ack_insert a t n now s) k =
   (if k = (a, t) then Some \<lparr>da_id = ack_seq s + 1, da_agentId = a, da_ticketId = t, da_dispatchedAt = sql_datetime now,
      da_lastSignalAt = sql_datetime now, da_ackStatus = Pending, da_attemptCount = n, da_failureCount = 0\<rparr>
    else ack_row s k)"
  by (auto simp: ack_row_def ack_insert_def sel_one_append sel_one_Cons da_key_def split: option.splits)

lemma inv_update: "(\<And>r. da_key (f r) = da_key r) \<Longrightarrow> ack_inv s \<Longrightarrow> ack_inv (ack_update P f s)"
  by (simp add: ack_inv_def ack_update_def key_ok_upd)

lemma inv_insert: "ack_inv s \<Longrightarrow> ack_row s (a, t) = None \<Longrightarrow> ack_inv (ack_insert a t n now s)"
  by (auto simp: ack_inv_def ack_insert_def ack_row_def sel_one_None key_ok_def da_key_def)

lemma rearm_key [simp]: "da_key (rearm now r) = da_key r"
  by (simp add: rearm_def da_key_def)

lemma key_updates [simp]:
  "da_key (r\<lparr>da_ackStatus := x\<rparr>) = da_key r" "da_key (r\<lparr>da_lastSignalAt := y\<rparr>) = da_key r"
  "da_key (r\<lparr>da_lastSignalAt := y, da_failureCount := n\<rparr>) = da_key r"
  "da_key (r\<lparr>da_ackStatus := x, da_lastSignalAt := y\<rparr>) = da_key r"
  "da_key (r\<lparr>da_dispatchedAt := z, da_lastSignalAt := y, da_ackStatus := x, da_attemptCount := n, da_failureCount := m\<rparr>) = da_key r"
  by (simp_all add: da_key_def)

subsection \<open>The specification of the acknowledgment state\<close>

datatype ack_op =
    RecordDispatch string string
  | EnsurePending string string
  | Acknowledge string string
  | AcknowledgeAll string
  | NoteActivity string string
  | MarkResignaled string string
  | MarkResignalFailed string string
  | MarkEscalated string string
  | ClearEscalated string string
  | MarkDeferred string string

text \<open>How an operation on a ticket moves its (status, attempts, delivery failures).\<close>

fun spec_move :: "ack_op \<Rightarrow> (AckStatus \<times> nat \<times> nat) option \<Rightarrow> (AckStatus \<times> nat \<times> nat) option" where
  "spec_move (RecordDispatch a t) None = Some (Pending, 1, 0)"
| "spec_move (RecordDispatch a t) (Some (st, n, f)) =
     (case st of Escalated \<Rightarrow> Some (Pending, 1, 0) | Acknowledged \<Rightarrow> Some (Pending, n + 1, f) | _ \<Rightarrow> Some (st, n + 1, f))"
| "spec_move (EnsurePending a t) None = Some (Pending, 0, 0)"
| "spec_move (EnsurePending a t) v = v"
| "spec_move (NoteActivity a t) (Some (Pending, n, f)) = Some (Acknowledged, n, f)"
| "spec_move (NoteActivity a t) v = v"
| "spec_move (MarkResignaled a t) (Some (st, n, f)) = Some (Unconfirmed, n + 1, 0)"
| "spec_move (MarkResignalFailed a t) (Some (st, n, f)) = Some (st, n, f + 1)"
| "spec_move (MarkEscalated a t) (Some (st, n, f)) = Some (Escalated, n, f)"
| "spec_move (ClearEscalated a t) (Some (Escalated, n, f)) = Some (Pending, 1, 0)"
| "spec_move (MarkDeferred a t) (Some (st, n, f)) = Some (Deferred, n, f)"
| "spec_move (Acknowledge a t) (Some (st, n, f)) = Some (if open_ack st then Acknowledged else st, n, f)"
| "spec_move (AcknowledgeAll a) (Some (st, n, f)) = Some (if open_ack st then Acknowledged else st, n, f)"
| "spec_move _ v = v"

fun op_agent :: "ack_op \<Rightarrow> string" where
  "op_agent (RecordDispatch a t) = a" | "op_agent (EnsurePending a t) = a" | "op_agent (Acknowledge a t) = a"
| "op_agent (AcknowledgeAll a) = a" | "op_agent (NoteActivity a t) = a" | "op_agent (MarkResignaled a t) = a"
| "op_agent (MarkResignalFailed a t) = a" | "op_agent (MarkEscalated a t) = a" | "op_agent (ClearEscalated a t) = a"
| "op_agent (MarkDeferred a t) = a"

fun op_ticket :: "ack_op \<Rightarrow> string option" where
  "op_ticket (RecordDispatch a t) = Some t" | "op_ticket (EnsurePending a t) = Some t"
| "op_ticket (Acknowledge a t) = (if t = [] then None else Some t)"
| "op_ticket (AcknowledgeAll a) = None" | "op_ticket (NoteActivity a t) = Some t" | "op_ticket (MarkResignaled a t) = Some t"
| "op_ticket (MarkResignalFailed a t) = Some t" | "op_ticket (MarkEscalated a t) = Some t"
| "op_ticket (ClearEscalated a t) = Some t" | "op_ticket (MarkDeferred a t) = Some t"

text \<open>
  An operation concerns the row of its normalized ticket, or all rows of its agent; an empty
  ticket in \<open>acknowledge\<close> counts as none given.
\<close>

definition spec_step :: "ack_op \<Rightarrow> ack_view \<Rightarrow> ack_view" where
  "spec_step e v = (\<lambda>(a, n). if a = op_agent e \<and>
     (case op_ticket e of None \<Rightarrow> True | Some t \<Rightarrow> normalizeSessionKey t = Inr n)
     then spec_move e (v (a, n)) else v (a, n))"

text \<open>The tracker after an operation; one that throws leaves it as it was.\<close>

definition or_same :: "AckTracker \<Rightarrow> 'e + AckTracker \<Rightarrow> AckTracker" where
  "or_same s r = (case r of Inl _ \<Rightarrow> s | Inr s' \<Rightarrow> s')"

definition or_same_snd :: "AckTracker \<Rightarrow> 'e + ('a \<times> AckTracker) \<Rightarrow> AckTracker" where
  "or_same_snd s r = (case r of Inl _ \<Rightarrow> s | Inr p \<Rightarrow> snd p)"

fun ack_step :: "nat \<Rightarrow> ack_op \<Rightarrow> AckTracker \<Rightarrow> AckTracker" where
  "ack_step now (RecordDispatch a t) s = or_same_snd s (ack_recordDispatch a t now s)"
| "ack_step now (EnsurePending a t) s = or_same s (ensurePending a t now s)"
| "ack_step now (Acknowledge a t) s = or_same_snd s (acknowledge a (Some t) s)"
| "ack_step now (AcknowledgeAll a) s = or_same_snd s (acknowledge a None s)"
| "ack_step now (NoteActivity a t) s = or_same_snd s (noteAuthoredActivity a t now s)"
| "ack_step now (MarkResignaled a t) s = or_same s (markResignaled a t now s)"
| "ack_step now (MarkResignalFailed a t) s = or_same s (markResignalFailed a t now s)"
| "ack_step now (MarkEscalated a t) s = or_same s (markEscalated a t s)"
| "ack_step now (ClearEscalated a t) s = or_same_snd s (clearEscalated a t now s)"
| "ack_step now (MarkDeferred a t) s = or_same s (markDeferred a t now s)"

lemmas ack_op_defs = ack_recordDispatch_def ensurePending_def acknowledge_def markResignaled_def markResignalFailed_def
  markEscalated_def clearEscalated_def markDeferred_def with_key_def or_same_def or_same_snd_def

lemma acknowledge_empty: "normalizeSessionKey [] = Inl InvalidKey"
  by (simp add: normalizeSessionKey_def)

lemma abs_key:
  assumes "\<And>r. da_key (f r) = da_key r"
  shows "ack_abs (ack_update (\<lambda>r. da_key r = k' \<and> Q r) f s) k =
    (if k = k' then map_option (\<lambda>r. if Q r then (da_ackStatus (f r), da_attemptCount (f r), da_failureCount (f r))
        else (da_ackStatus r, da_attemptCount r, da_failureCount r)) (ack_row s k) else ack_abs s k)"
  using row_update_key [OF assms, of k' Q s k]
  by (auto simp: ack_abs_def option.map_comp comp_def if_distrib cong: if_cong)

definition row_view :: "DispatchAckEntry \<Rightarrow> AckStatus \<times> nat \<times> nat" where
  "row_view r = (da_ackStatus r, da_attemptCount r, da_failureCount r)"

lemma abs_view: "ack_abs s k = map_option row_view (ack_row s k)"
  by (simp add: ack_abs_def row_view_def [abs_def])

lemma keyed_step:
  assumes f: "\<And>r. da_key (f r) = da_key r" and n: "normalizeSessionKey t = Inr n"
    and e: "op_agent e = a" "op_ticket e = Some t" "spec_move e None = None"
    and m: "\<And>r. spec_move e (Some (row_view r)) = Some (if Q r then row_view (f r) else row_view r)"
  shows "ack_abs (ack_update (\<lambda>r. da_key r = (a, n) \<and> Q r) f s) = spec_step e (ack_abs s)"
proof
  fix k
  show "ack_abs (ack_update (\<lambda>r. da_key r = (a, n) \<and> Q r) f s) k = spec_step e (ack_abs s) k"
    using e n m by (cases k; cases "ack_row s k")
      (auto simp: abs_view row_update_key [OF f] spec_step_def)
qed

lemma keyed_step_all:
  assumes f: "\<And>r. da_key (f r) = da_key r" and n: "normalizeSessionKey t = Inr n"
    and e: "op_agent e = a" "op_ticket e = Some t" "spec_move e None = None"
    and m: "\<And>r. spec_move e (Some (row_view r)) = Some (row_view (f r))"
  shows "ack_abs (ack_update (\<lambda>r. da_key r = (a, n)) f s) = spec_step e (ack_abs s)"
  using keyed_step [OF f n e, of "\<lambda>_. True" s] m by simp

lemma invalid_step: "normalizeSessionKey t = Inl x \<Longrightarrow> op_ticket e = Some t \<Longrightarrow> spec_step e v = v"
  by (auto simp: spec_step_def)

lemma insert_step:
  assumes "ack_row s (a, n) = None" "normalizeSessionKey t = Inr n" "op_agent e = a" "op_ticket e = Some t"
    "spec_move e None = Some (Pending, k, 0)"
  shows "ack_abs (ack_insert a n k now s) = spec_step e (ack_abs s)"
proof
  fix x
  show "ack_abs (ack_insert a n k now s) x = spec_step e (ack_abs s) x"
    using assms by (cases x) (auto simp: abs_view row_insert spec_step_def row_view_def)
qed

lemma agent_step:
  assumes "op_agent e = a" "op_ticket e = None"
    "\<And>v. spec_move e v = map_option (\<lambda>(st, n, f). (if open_ack st then Acknowledged else st, n, f)) v"
  shows "ack_abs (ack_update (\<lambda>r. da_agentId r = a \<and> open_ack (da_ackStatus r)) (\<lambda>r. r\<lparr>da_ackStatus := Acknowledged\<rparr>) s) =
    spec_step e (ack_abs s)"
proof
  fix k
  have "da_key r = k" if "ack_row s k = Some r" for r
    using that sel_one_SomeD [of "\<lambda>r. da_key r = k"] by (auto simp: ack_row_def)
  then show "ack_abs (ack_update (\<lambda>r. da_agentId r = a \<and> open_ack (da_ackStatus r)) (\<lambda>r. r\<lparr>da_ackStatus := Acknowledged\<rparr>) s) k =
    spec_step e (ack_abs s) k"
    using assms by (cases k; cases "ack_row s k") (auto simp: abs_view row_update spec_step_def row_view_def da_key_def)
qed

lemma move_Ack: "spec_move (Acknowledge a t) v = map_option (\<lambda>(st, n, f). (if open_ack st then Acknowledged else st, n, f)) v"
    "spec_move (AcknowledgeAll a) v = map_option (\<lambda>(st, n, f). (if open_ack st then Acknowledged else st, n, f)) v"
  by (cases v; auto)+

lemma refines_record:
  assumes inv: "ack_inv s"
  shows "ack_inv (ack_step now (RecordDispatch a t) s) \<and>
    ack_abs (ack_step now (RecordDispatch a t) s) = spec_step (RecordDispatch a t) (ack_abs s)"
proof (cases "normalizeSessionKey t")
  case (Inr n)
  have m: "spec_move (RecordDispatch a t) (Some (row_view r)) = Some (row_view (rearm now r))" for r
    by (cases "da_ackStatus r") (simp_all add: row_view_def rearm_def)
  show ?thesis
  proof (cases "ack_row s (a, n)")
    case None
    then have "ack_step now (RecordDispatch a t) s = ack_insert a n 1 now s"
      using Inr by (simp add: ack_op_defs row_exists)
    then show ?thesis using insert_step [OF None Inr, of "RecordDispatch a t" 1 now] inv_insert [OF inv None] by simp
  next
    case (Some r)
    then have st: "ack_step now (RecordDispatch a t) s = ack_update (\<lambda>r. da_key r = (a, n)) (rearm now) s"
      using Inr by (simp add: ack_op_defs row_exists)
    have other: "ack_abs (ack_update (\<lambda>r. da_key r = (a, n)) (rearm now) s) = spec_step (RecordDispatch a t) (ack_abs s)"
    proof
      fix k
      show "ack_abs (ack_update (\<lambda>r. da_key r = (a, n)) (rearm now) s) k = spec_step (RecordDispatch a t) (ack_abs s) k"
        using row_update_key [where f = "rearm now" and Q = "\<lambda>_. True" and k' = "(a, n)" and s = s and k = k, OF rearm_key] Some Inr m
        by (cases k) (auto simp: abs_view spec_step_def)
    qed
    show ?thesis unfolding st using other inv_update [OF rearm_key inv] by simp
  qed
qed (simp add: ack_op_defs invalid_step inv)

lemma refines_ensure:
  assumes inv: "ack_inv s"
  shows "ack_inv (ack_step now (EnsurePending a t) s) \<and>
    ack_abs (ack_step now (EnsurePending a t) s) = spec_step (EnsurePending a t) (ack_abs s)"
proof (cases "normalizeSessionKey t")
  case (Inr n)
  show ?thesis
  proof (cases "ack_row s (a, n)")
    case None
    then have "ack_step now (EnsurePending a t) s = ack_insert a n 0 now s"
      using Inr by (simp add: ack_op_defs row_exists)
    then show ?thesis using insert_step [OF None Inr, of "EnsurePending a t" 0 now] inv_insert [OF inv None] by simp
  next
    case (Some r)
    then have "ack_step now (EnsurePending a t) s = s" using Inr by (simp add: ack_op_defs row_exists)
    then show ?thesis using Some Inr inv by (auto simp: spec_step_def fun_eq_iff abs_view)
  qed
qed (simp add: ack_op_defs invalid_step inv)

lemma refines_acknowledge:
  assumes inv: "ack_inv s"
  shows "ack_inv (ack_step now (Acknowledge a t) s) \<and>
    ack_abs (ack_step now (Acknowledge a t) s) = spec_step (Acknowledge a t) (ack_abs s)"
proof (cases "t = []")
  case True
  then show ?thesis using agent_step [of "Acknowledge a t" a s] inv_update [OF key_updates(1) inv] move_Ack
    by (simp add: ack_op_defs truthy_def)
next
  case False
  show ?thesis
  proof (cases "normalizeSessionKey t")
    case (Inr n)
    have "spec_move (Acknowledge a t) (Some (row_view r)) =
        Some (if open_ack (da_ackStatus r) then row_view (r\<lparr>da_ackStatus := Acknowledged\<rparr>) else row_view r)" for r
      by (simp add: row_view_def)
    then show ?thesis
      using False Inr keyed_step [OF key_updates(1) Inr, where e = "Acknowledge a t" and a = a and Q = "\<lambda>r. open_ack (da_ackStatus r)" and s = s]
        inv_update [OF key_updates(1) inv] by (simp add: ack_op_defs truthy_def)
  qed (simp add: False ack_op_defs invalid_step inv truthy_def)
qed

lemma refines_note:
  assumes inv: "ack_inv s"
  shows "ack_inv (ack_step now (NoteActivity a t) s) \<and>
    ack_abs (ack_step now (NoteActivity a t) s) = spec_step (NoteActivity a t) (ack_abs s)"
proof (cases "normalizeSessionKey t")
  case (Inr n)
  have ne: "t \<noteq> []" using Inr acknowledge_empty by auto
  have spec: "spec_step (NoteActivity a t) (ack_abs s) = (\<lambda>k. if k = (a, n) then spec_move (NoteActivity a t) (ack_abs s k) else ack_abs s k)"
    using Inr by (auto simp: spec_step_def)
  have same: "spec_step (NoteActivity a t) (ack_abs s) = ack_abs s"
    if "\<And>r. ack_row s (a, n) = Some r \<Longrightarrow> da_ackStatus r \<noteq> Pending"
  proof -
    have "spec_move (NoteActivity a t) (ack_abs s (a, n)) = ack_abs s (a, n)"
      using that by (cases "ack_row s (a, n)"; cases "da_ackStatus (the (ack_row s (a, n)))") (auto simp: abs_view row_view_def)
    then show ?thesis unfolding spec by (auto simp: fun_eq_iff)
  qed
  show ?thesis
  proof (cases "ack_row s (a, n)")
    case None
    then have "ack_step now (NoteActivity a t) s = s"
      using Inr by (simp add: noteAuthoredActivity_def or_same_snd_def ack_row_def)
    then show ?thesis using same None inv by simp
  next
    case (Some r)
    note run = Some [unfolded ack_row_def]
    consider (u) "da_ackStatus r = Unconfirmed" | (p) "da_ackStatus r = Pending" | (o) "\<not> open_ack (da_ackStatus r)"
      by (cases "da_ackStatus r") (auto simp: open_ack_def)
    then show ?thesis
    proof cases
      case u
      then have st: "ack_step now (NoteActivity a t) s = ack_update (\<lambda>r. da_key r = (a, n)) (\<lambda>r. r\<lparr>da_lastSignalAt := sql_datetime now\<rparr>) s"
        using Inr run by (simp add: noteAuthoredActivity_def or_same_snd_def)
      have "ack_abs (ack_update (\<lambda>r. da_key r = (a, n)) (\<lambda>r. r\<lparr>da_lastSignalAt := sql_datetime now\<rparr>) s) = ack_abs s"
        by (auto simp: fun_eq_iff abs_view row_update row_view_def option.map_comp comp_def intro!: option.map_cong0)
      then show ?thesis unfolding st using same Some u inv_update [OF key_updates(2) inv] by simp
    next
      case p
      then have st: "ack_step now (NoteActivity a t) s = ack_step now (Acknowledge a t) s"
        using Inr run ne by (simp add: noteAuthoredActivity_def ack_op_defs truthy_def)
      have "spec_step (Acknowledge a t) (ack_abs s) = (\<lambda>k. if k = (a, n) then spec_move (Acknowledge a t) (ack_abs s k) else ack_abs s k)"
        using Inr ne by (auto simp: spec_step_def)
      also have "\<dots> = spec_step (NoteActivity a t) (ack_abs s)"
        unfolding spec using Some p by (auto simp: fun_eq_iff abs_view row_view_def open_ack_def)
      finally show ?thesis unfolding st using refines_acknowledge [OF inv] by simp
    next
      case o
      then have "ack_step now (NoteActivity a t) s = s"
        using Inr run by (auto simp: noteAuthoredActivity_def or_same_snd_def open_ack_def)
      then show ?thesis using same Some o inv by (simp add: open_ack_def)
    qed
  qed
qed (simp add: noteAuthoredActivity_def or_same_snd_def invalid_step inv)

lemma refines_mark:
  assumes inv: "ack_inv s" and f: "\<And>r. da_key (f r) = da_key r"
    and step: "\<And>n. normalizeSessionKey t = Inr n \<Longrightarrow> ack_step now e s = ack_update (\<lambda>r. da_key r = (a, n) \<and> Q r) f s"
      "\<And>x. normalizeSessionKey t = Inl x \<Longrightarrow> ack_step now e s = s"
    and e: "op_agent e = a" "op_ticket e = Some t" "spec_move e None = None"
    and m: "\<And>r. spec_move e (Some (row_view r)) = Some (if Q r then row_view (f r) else row_view r)"
  shows "ack_inv (ack_step now e s) \<and> ack_abs (ack_step now e s) = spec_step e (ack_abs s)"
proof (cases "normalizeSessionKey t")
  case (Inl x)
  then show ?thesis using step(2) invalid_step [OF Inl e(2)] inv by simp
next
  case (Inr n)
  then show ?thesis using step(1) keyed_step [where f = f and Q = Q, OF f Inr e m] inv_update [OF f inv] by simp
qed

lemma ack_refines: "ack_inv s \<Longrightarrow> ack_inv (ack_step now e s) \<and> ack_abs (ack_step now e s) = spec_step e (ack_abs s)"
proof (cases e)
  case (AcknowledgeAll a)
  assume "ack_inv s"
  then show ?thesis using AcknowledgeAll agent_step [of e a s] inv_update [OF key_updates(1)] move_Ack
    by (simp add: ack_op_defs truthy_def)
next
  case (MarkResignaled a t)
  assume "ack_inv s"
  then show ?thesis using MarkResignaled
    by (intro refines_mark [where Q = "\<lambda>_. True" and a = a and t = t]) (auto simp: ack_op_defs row_view_def da_key_def)
next
  case (MarkResignalFailed a t)
  assume "ack_inv s"
  then show ?thesis using MarkResignalFailed
    by (intro refines_mark [where Q = "\<lambda>_. True" and a = a and t = t]) (auto simp: ack_op_defs row_view_def da_key_def)
next
  case (MarkEscalated a t)
  assume "ack_inv s"
  then show ?thesis using MarkEscalated
    by (intro refines_mark [where Q = "\<lambda>_. True" and a = a and t = t]) (auto simp: ack_op_defs row_view_def da_key_def)
next
  case (MarkDeferred a t)
  assume "ack_inv s"
  then show ?thesis using MarkDeferred
    by (intro refines_mark [where Q = "\<lambda>_. True" and a = a and t = t]) (auto simp: ack_op_defs row_view_def da_key_def)
next
  case (ClearEscalated a t)
  assume inv: "ack_inv s"
  have m: "spec_move e (Some (row_view r)) = Some (if da_ackStatus r = Escalated then (Pending, 1, 0) else row_view r)" for r
    using ClearEscalated by (cases "da_ackStatus r") (simp_all add: row_view_def)
  show ?thesis
    by (rule refines_mark [where Q = "\<lambda>r. da_ackStatus r = Escalated" and a = a and t = t, OF inv])
       (use ClearEscalated m in \<open>auto simp: ack_op_defs row_view_def da_key_def Let_def\<close>)
qed (use refines_record refines_ensure refines_acknowledge refines_note in \<open>auto simp del: ack_step.simps\<close>)

subsection \<open>Properties\<close>

definition concerns :: "ack_op \<Rightarrow> string \<Rightarrow> string \<Rightarrow> bool" where
  "concerns e a n \<longleftrightarrow> op_agent e = a \<and> (case op_ticket e of None \<Rightarrow> True | Some t \<Rightarrow> normalizeSessionKey t = Inr n)"

definition reopens :: "ack_op \<Rightarrow> bool" where
  "reopens e = (case e of RecordDispatch _ _ \<Rightarrow> True | ClearEscalated _ _ \<Rightarrow> True | MarkDeferred _ _ \<Rightarrow> True
     | MarkResignaled _ _ \<Rightarrow> True | _ \<Rightarrow> False)"

text \<open>
  C31: The tracker implements its state machine: on a well-formed table every operation, on every
  branch (no row, each of the five states, an invalid key, an empty ticket), moves the (status,
  attempts, delivery failures) of every (agent, ticket) as the specification says, touches no
  other row, and keeps one row per pair.
\<close>

theorem ack_tracker_refines_spec:
  assumes "ack_inv s"
  shows "ack_inv (ack_step now e s) \<and> ack_abs (ack_step now e s) = spec_step e (ack_abs s)"
  by (rule ack_refines [OF assms])

lemma ack_inv_open [simp]: "ack_inv (ack_open ttl)"
  by (simp add: ack_inv_def ack_open_def)

theorem ack_tracker_refines_spec_witness:
  "ack_abs (ack_step 5 (RecordDispatch ''ada'' ''INF-1'') (ack_open None)) =
     spec_step (RecordDispatch ''ada'' ''INF-1'') (ack_abs (ack_open None))"
  using ack_tracker_refines_spec [OF ack_inv_open, of 5 "RecordDispatch ''ada'' ''INF-1''" None] by blast

lemma escalated_run:
  assumes "ack_inv s" "ack_abs s (a, n) = Some (Escalated, k, f)" "\<forall>(now, e) \<in> set es. concerns e a n \<longrightarrow> \<not> reopens e"
  shows "ack_inv (fold (\<lambda>(now, e). ack_step now e) es s) \<and>
    (\<exists>f'. ack_abs (fold (\<lambda>(now, e). ack_step now e) es s) (a, n) = Some (Escalated, k, f'))"
  using assms
proof (induction es arbitrary: s f)
  case (Cons x es)
  obtain now e where x: "x = (now, e)" by (cases x)
  have inv: "ack_inv (ack_step now e s)" and abs: "ack_abs (ack_step now e s) = spec_step e (ack_abs s)"
    using ack_refines [OF Cons.prems(1)] by blast+
  have "\<exists>f'. spec_step e (ack_abs s) (a, n) = Some (Escalated, k, f')"
    using Cons.prems(2,3) x by (cases e) (auto simp: spec_step_def concerns_def reopens_def open_ack_def)
  then obtain f' where "ack_abs (ack_step now e s) (a, n) = Some (Escalated, k, f')" using abs by auto
  from Cons.IH [OF inv this] Cons.prems(3) x show ?case by simp
qed simp

text \<open>
  An escalated dispatch stays parked: through any sequence of operations, of which none is a
  new dispatch, a re-arming, a deferral or a re-signal of that pair, it remains escalated with
  the same attempts, the detectors never see it as overdue, and \<open>isEscalated\<close> keeps saying so:
  neither comments, nor session ends, nor failed deliveries bring it back.
\<close>

theorem escalated_stays_parked:
  assumes "ack_inv s" and "ack_abs s (a, n) = Some (Escalated, k, f)" and "normalizeSessionKey t = Inr n"
    and "\<forall>(now, e) \<in> set es. concerns e a n \<longrightarrow> \<not> reopens e"
  shows "isEscalated a t (fold (\<lambda>(now, e). ack_step now e) es s) = Inr True \<and>
    (\<forall>r \<in> set (getPendingTimedOut timeout now' (fold (\<lambda>(now, e). ack_step now e) es s)). da_key r \<noteq> (a, n))"
proof -
  let ?s = "fold (\<lambda>(now, e). ack_step now e) es s"
  have inv: "ack_inv ?s" and "\<exists>f'. ack_abs ?s (a, n) = Some (Escalated, k, f')"
    using escalated_run [OF assms(1,2,4)] by auto
  then obtain row where row: "ack_row ?s (a, n) = Some row" "da_ackStatus row = Escalated"
    by (auto simp: abs_view row_view_def)
  then have mem: "row \<in> set (dispatch_acks ?s)" "da_key row = (a, n)" using row_mem [OF inv] by auto
  have one: "r = row" if "r \<in> set (dispatch_acks ?s)" "da_key r = (a, n)" for r
    using that mem inv by (auto simp: ack_inv_def dest: key_okD)
  have "da_key r \<noteq> (a, n)" if "r \<in> set (getPendingTimedOut timeout now' ?s)" for r
    using that one [of r] row(2) by (auto simp: getPendingTimedOut_def sel_all_def open_ack_def dest!: in_set_takeD)
  moreover have "sel_one (\<lambda>r. da_key r = (a, n) \<and> da_ackStatus r = Escalated) (dispatch_acks ?s) \<noteq> None"
    using mem row(2) by (auto simp: sel_one_None)
  ultimately show ?thesis using assms(3) by (simp add: isEscalated_def)
qed

theorem escalated_stays_parked_witness:
  "let s = ack_step 6 (MarkEscalated ''ada'' ''INF-1'') (ack_step 5 (RecordDispatch ''ada'' ''INF-1'') (ack_open None))
   in isEscalated ''ada'' ''INF-1'' (fold (\<lambda>(now, e). ack_step now e)
        [(7, NoteActivity ''ada'' ''INF-1''), (8, AcknowledgeAll ''ada''), (9, MarkResignalFailed ''ada'' ''INF-1'')] s) = Inr True"
proof -
  have n: "normalizeSessionKey ''INF-1'' = Inr ''linear-INF-1''" by code_simp
  let ?s = "ack_step 6 (MarkEscalated ''ada'' ''INF-1'') (ack_step 5 (RecordDispatch ''ada'' ''INF-1'') (ack_open None))"
  have 1: "ack_inv (ack_step 5 (RecordDispatch ''ada'' ''INF-1'') (ack_open None))"
    "ack_abs (ack_step 5 (RecordDispatch ''ada'' ''INF-1'') (ack_open None)) = spec_step (RecordDispatch ''ada'' ''INF-1'') (ack_abs (ack_open None))"
    using ack_refines [OF ack_inv_open] by blast+
  have 2: "ack_inv ?s" "ack_abs ?s = spec_step (MarkEscalated ''ada'' ''INF-1'')
      (spec_step (RecordDispatch ''ada'' ''INF-1'') (ack_abs (ack_open None)))"
    using ack_refines [OF 1(1)] unfolding 1(2) [symmetric] by blast+
  have "ack_abs (ack_open None) (''ada'', ''linear-INF-1'') = None"
    by (simp add: abs_view ack_row_def ack_open_def)
  then have 3: "ack_abs ?s (''ada'', ''linear-INF-1'') = Some (Escalated, 1, 0)"
    unfolding 2(2) by (simp add: spec_step_def n)
  show ?thesis
    using escalated_stays_parked [OF 2(1) 3 n, of "[(7, NoteActivity ''ada'' ''INF-1''), (8, AcknowledgeAll ''ada''),
        (9, MarkResignalFailed ''ada'' ''INF-1'')]"] by (simp add: reopens_def Let_def)
qed

text \<open>
  The wiring of \<open>src/index.ts\<close>: \<open>onFreshDispatch\<close> is \<open>globalRedispatchBudget.reset\<close>.
\<close>

definition dispatch_fresh ::
  "string \<Rightarrow> string \<Rightarrow> nat \<Rightarrow> AckTracker \<times> GlobalRedispatchBudget \<Rightarrow> key_error + (AckTracker \<times> GlobalRedispatchBudget)" where
  "dispatch_fresh agentId ticketId now sb =
     (case ack_recordDispatch agentId ticketId now (fst sb) of
        Inl e \<Rightarrow> Inl e
      | Inr (n, s') \<Rightarrow> Inr (s', budget_reset n (snd sb)))"

text \<open>
  The escalated row and the budget seal clear together: a genuine new dispatch of an escalated
  ticket leaves its row pending with a first attempt and no delivery failures, and its shared
  budget at zero, so it is neither parked nor capped; the budget of other tickets is untouched.
\<close>

theorem fresh_dispatch_clears_both:
  assumes "ack_inv s" and "ack_abs s (a, n) = Some (Escalated, k, f)" and "normalizeSessionKey t = Inr n"
  shows "\<exists>s' b'. dispatch_fresh a t now (s, b) = Inr (s', b') \<and> ack_abs s' (a, n) = Some (Pending, 1, 0) \<and>
    isEscalated a t s' = Inr False \<and> budget_get b' n = 0 \<and>
    (\<forall>m. m \<noteq> n \<longrightarrow> budget_get b' m = budget_get b m)"
proof -
  obtain s' where rec: "ack_recordDispatch a t now s = Inr (n, s')"
    using assms(3) by (simp add: ack_recordDispatch_def)
  then have step: "ack_step now (RecordDispatch a t) s = s'" by (simp add: or_same_snd_def)
  have inv: "ack_inv s'" and abs: "ack_abs s' (a, n) = Some (Pending, 1, 0)"
    using ack_refines [OF assms(1), of now "RecordDispatch a t"] assms(2,3) unfolding step
    by (auto simp: spec_step_def)
  then obtain row where row: "ack_row s' (a, n) = Some row" "da_ackStatus row = Pending"
    by (auto simp: abs_view row_view_def)
  have "da_ackStatus r \<noteq> Escalated" if "r \<in> set (dispatch_acks s')" "da_key r = (a, n)" for r
    using row_mem [OF inv, of "(a, n)" r] that row by auto
  then have "sel_one (\<lambda>r. da_key r = (a, n) \<and> da_ackStatus r = Escalated) (dispatch_acks s') = None"
    by (auto simp: sel_one_None)
  then show ?thesis using rec abs assms(3) by (auto simp: dispatch_fresh_def isEscalated_def get_reset)
qed

theorem fresh_dispatch_clears_both_witness:
  "let s = ack_step 6 (MarkEscalated ''ada'' ''INF-1'') (ack_step 5 (RecordDispatch ''ada'' ''INF-1'') (ack_open None))
   in \<exists>s' b'. dispatch_fresh ''ada'' ''INF-1'' 9 (s, snd (consume ''linear-INF-1'' 6 (budget_open [] None None))) = Inr (s', b') \<and>
        budget_get b' ''linear-INF-1'' = 0 \<and> isEscalated ''ada'' ''INF-1'' s' = Inr False"
proof -
  have n: "normalizeSessionKey ''INF-1'' = Inr ''linear-INF-1''" by code_simp
  let ?s1 = "ack_step 5 (RecordDispatch ''ada'' ''INF-1'') (ack_open None)"
  let ?s = "ack_step 6 (MarkEscalated ''ada'' ''INF-1'') ?s1"
  have 1: "ack_inv ?s1" "ack_abs ?s1 = spec_step (RecordDispatch ''ada'' ''INF-1'') (ack_abs (ack_open None))"
    using ack_refines [OF ack_inv_open] by blast+
  have 2: "ack_inv ?s" "ack_abs ?s = spec_step (MarkEscalated ''ada'' ''INF-1'') (ack_abs ?s1)"
    using ack_refines [OF 1(1)] by blast+
  have "ack_abs (ack_open None) (''ada'', ''linear-INF-1'') = None"
    by (simp add: abs_view ack_row_def ack_open_def)
  then have "ack_abs ?s (''ada'', ''linear-INF-1'') = Some (Escalated, 1, 0)"
    unfolding 2(2) 1(2) by (simp add: spec_step_def n)
  from fresh_dispatch_clears_both [OF 2(1) this n] show ?thesis unfolding Let_def by blast
qed

subsection \<open>What the detectors see\<close>

lemma take_sorted_split:
  assumes "sorted (map f xs)" "x \<in> set (take n xs)" "y \<in> set xs" "y \<notin> set (take n xs)"
  shows "f x \<le> f (y :: 'a)"
proof -
  have "y \<in> set (drop n xs)" using assms(3,4) by (metis UnE append_take_drop_id set_append)
  moreover have "sorted (map f (take n xs) @ map f (drop n xs))" using assms(1) by (simp flip: map_append)
  ultimately show ?thesis using assms(2) by (auto simp: sorted_append)
qed

text \<open>
  The watchdog's query is exact and fair: it returns at most one hundred rows, oldest signal
  first, all pending or unconfirmed and last signalled at or before the cutoff second; every
  such row is returned when there are at most a hundred, and otherwise no row left out is older
  than one returned.
\<close>

theorem timed_out_exact_and_oldest_first:
  "let overdue = [r \<leftarrow> dispatch_acks s. (da_ackStatus r = Pending \<or> da_ackStatus r = Unconfirmed) \<and>
        (timeoutMs \<le> 0 \<or> da_lastSignalAt r \<le> sql_datetime (now - nat timeoutMs))];
       out = getPendingTimedOut timeoutMs now s
   in length out = min 100 (length overdue) \<and> sorted (map da_lastSignalAt out) \<and> set out \<subseteq> set overdue \<and>
      (length overdue \<le> 100 \<longrightarrow> set out = set overdue) \<and>
      (\<forall>x \<in> set out. \<forall>y \<in> set overdue - set out. da_lastSignalAt x \<le> da_lastSignalAt y)"
proof -
  define overdue where "overdue = [r \<leftarrow> dispatch_acks s. (da_ackStatus r = Pending \<or> da_ackStatus r = Unconfirmed) \<and>
        (timeoutMs \<le> 0 \<or> da_lastSignalAt r \<le> sql_datetime (now - nat timeoutMs))]"
  have out: "getPendingTimedOut timeoutMs now s = take 100 (sort_key da_lastSignalAt overdue)"
    by (simp add: getPendingTimedOut_def overdue_def sel_all_def open_ack_def sql_cutoff_def)
  have sorted: "sorted (map da_lastSignalAt (sort_key da_lastSignalAt overdue))" by simp
  have "\<forall>x \<in> set (take 100 (sort_key da_lastSignalAt overdue)). \<forall>y \<in> set overdue - set (take 100 (sort_key da_lastSignalAt overdue)).
      da_lastSignalAt x \<le> da_lastSignalAt y"
    using take_sorted_split [OF sorted] by simp
  moreover have "sorted (map da_lastSignalAt (take 100 (sort_key da_lastSignalAt overdue)))"
    using sorted_wrt_take [OF sorted, of 100] by (simp add: take_map)
  ultimately show ?thesis
    unfolding overdue_def [symmetric] Let_def out
    by (auto simp: min.commute dest: in_set_takeD)
qed

theorem timed_out_exact_and_oldest_first_witness:
  "getPendingTimedOut 0 5 (ack_open None) = []"
  using timed_out_exact_and_oldest_first [where s = "ack_open None" and timeoutMs = 0 and now = 5] by (simp add: Let_def ack_open_def)

text \<open>
  A comment postpones the watchdog: noting authored activity on a dispatch the watchdog has
  already poked keeps it unconfirmed with its attempts, and hides it from every check whose
  timeout has not passed since the comment, whatever its age; an agent that comments more often
  than the timeout is never poked again and never escalated by it.
\<close>

theorem comment_postpones_watchdog:
  assumes "ack_inv s" and "ack_row s (a, n) = Some row" and "da_ackStatus row = Unconfirmed"
    and "normalizeSessionKey t = Inr n" and "now < iso_max" and "later < iso_max"
    and "0 < timeout" and "(later - timeout) div 1000 < now div 1000"
  shows "\<exists>s'. noteAuthoredActivity a t now s = Inr (Surveilled, s') \<and>
    ack_abs s' (a, n) = Some (Unconfirmed, da_attemptCount row, da_failureCount row) \<and>
    (\<forall>r \<in> set (getPendingTimedOut (int timeout) later s'). da_key r \<noteq> (a, n))"
proof -
  let ?s' = "ack_update (\<lambda>r. da_key r = (a, n)) (\<lambda>r. r\<lparr>da_lastSignalAt := sql_datetime now\<rparr>) s"
  have run: "noteAuthoredActivity a t now s = Inr (Surveilled, ?s')"
    using assms(2-4) by (simp add: noteAuthoredActivity_def ack_row_def)
  have inv: "ack_inv ?s'" by (rule inv_update [OF key_updates(2) assms(1)])
  have "da_key row = (a, n)" using row_mem [OF assms(1)] assms(2) by blast
  then have row: "ack_row ?s' (a, n) = Some (row\<lparr>da_lastSignalAt := sql_datetime now\<rparr>)"
    using assms(2) by (simp add: row_update)
  have late: "\<not> sql_datetime now \<le> sql_cutoff later timeout"
    unfolding sql_cutoff_def using assms(5,6,8) sql_datetime_le [of now "later - timeout"] by auto
  have "da_lastSignalAt r = sql_datetime now" if "r \<in> set (dispatch_acks ?s')" "da_key r = (a, n)" for r
    using row_mem [OF inv, of "(a, n)" r] that row by auto
  then have "\<forall>r \<in> set (getPendingTimedOut (int timeout) later ?s'). da_key r \<noteq> (a, n)"
    using late assms(7) by (auto simp: getPendingTimedOut_def sel_all_def dest!: in_set_takeD)
  then show ?thesis using run row assms(3) by (auto simp: abs_view row_view_def)
qed

theorem comment_postpones_watchdog_witness:
  "let r = \<lparr>da_id = 1, da_agentId = ''ada'', da_ticketId = ''linear-INF-1'', da_dispatchedAt = sql_datetime 0,
         da_lastSignalAt = sql_datetime 0, da_ackStatus = Unconfirmed, da_attemptCount = 2, da_failureCount = 0\<rparr>
   in \<exists>s'. noteAuthoredActivity ''ada'' ''INF-1'' 900000 \<lparr>dispatch_acks = [r], ack_seq = 1, ack_ttlMs = 5\<rparr> = Inr (Surveilled, s') \<and>
        (\<forall>r \<in> set (getPendingTimedOut 600000 1400000 s'). da_key r \<noteq> (''ada'', ''linear-INF-1''))"
proof -
  let ?r = "\<lparr>da_id = 1, da_agentId = ''ada'', da_ticketId = ''linear-INF-1'', da_dispatchedAt = sql_datetime 0,
         da_lastSignalAt = sql_datetime 0, da_ackStatus = Unconfirmed, da_attemptCount = 2, da_failureCount = 0\<rparr>"
  let ?s = "\<lparr>dispatch_acks = [?r], ack_seq = 1, ack_ttlMs = 5\<rparr>"
  have n: "normalizeSessionKey ''INF-1'' = Inr ''linear-INF-1''" by code_simp
  have s: "ack_inv ?s" "ack_row ?s (''ada'', ''linear-INF-1'') = Some ?r"
    by (simp_all add: ack_inv_def key_ok_def ack_row_def sel_one_Cons da_key_def)
  have b: "(900000 :: nat) < iso_max" "(1400000 :: nat) < iso_max" by (simp_all add: iso_max_def)
  show ?thesis
    using comment_postpones_watchdog [OF s _ n b, of 600000] by (auto simp: Let_def)
qed

end
