(* ===== verification/PendingBag.thy ===== *)
theory PendingBag
  imports SqlTime SessionKey JsMap
begin

text \<open>
  \<open>src/bag/pending-work-bag.ts\<close>: the tickets waiting for each agent, one row per (agent, ticket),
  dropped when they have not been touched for the time to live. \<open>bag_ttlMs\<close> is \<open>None\<close> when the
  environment variable does not parse: then building the cutoff throws. The statements that give
  no order (\<open>DISTINCT\<close>, \<open>GROUP BY\<close>) list in order of first insertion.
\<close>

subsection \<open>State\<close>

record BagRow =
  pb_id :: nat
  pb_agentId :: string
  pb_ticketId :: string
  pb_eventType :: string
  pb_routingReason :: "string option"
  pb_createdAt :: string
  pb_updatedAt :: string

record PendingWorkBag =
  pending_bag :: "BagRow list"
  bag_seq :: nat
  bag_ttlMs :: "int option"
  eventsReceived :: nat
  signalsSent :: nat

datatype bag_error = InvalidTicket key_error | InvalidDate

definition bag_open :: "BagRow list \<Rightarrow> nat \<Rightarrow> int option \<Rightarrow> string option \<Rightarrow> PendingWorkBag" where
  "bag_open rows n ttl env = \<lparr>pending_bag = rows, bag_seq = n,
     bag_ttlMs = (case ttl of Some t \<Rightarrow> Some t | None \<Rightarrow> parseInt (orElse env ''3600000'')),
     eventsReceived = 0, signalsSent = 0\<rparr>"

definition pb_key :: "BagRow \<Rightarrow> string \<times> string" where
  "pb_key r = (pb_agentId r, pb_ticketId r)"

subsection \<open>Operations\<close>

definition ttlCutoff :: "nat \<Rightarrow> PendingWorkBag \<Rightarrow> bag_error + string" where
  "ttlCutoff now s = (case bag_ttlMs s of None \<Rightarrow> Inl InvalidDate | Some ttl \<Rightarrow> Inr (sql_datetime (nat (int now - ttl))))"

definition bag_upsert :: "string \<Rightarrow> string \<Rightarrow> string \<Rightarrow> string option \<Rightarrow> nat \<Rightarrow> PendingWorkBag \<Rightarrow> PendingWorkBag" where
  "bag_upsert agentId n eventType routingReason now s =
     (if \<exists>r \<in> set (pending_bag s). pb_key r = (agentId, n)
      then s\<lparr>pending_bag := upd_where (\<lambda>r. pb_key r = (agentId, n))
               (\<lambda>r. r\<lparr>pb_eventType := eventType, pb_routingReason := routingReason, pb_updatedAt := sql_datetime now\<rparr>)
               (pending_bag s)\<rparr>
      else s\<lparr>pending_bag := pending_bag s @
               [\<lparr>pb_id = bag_seq s + 1, pb_agentId = agentId, pb_ticketId = n, pb_eventType = eventType,
                 pb_routingReason = routingReason, pb_createdAt = sql_datetime now, pb_updatedAt = sql_datetime now\<rparr>],
             bag_seq := bag_seq s + 1\<rparr>)"

text \<open>The metric is counted before an invalid ticket throws.\<close>

definition bag_add ::
  "string \<Rightarrow> string \<Rightarrow> string \<Rightarrow> string option \<Rightarrow> nat \<Rightarrow> PendingWorkBag \<Rightarrow> (bag_error + bool) \<times> PendingWorkBag" where
  "bag_add agentId ticketId eventType routingReason now s =
     (let s = s\<lparr>eventsReceived := eventsReceived s + 1\<rparr>
      in case normalizeSessionKey ticketId of
           Inl e \<Rightarrow> (Inl (InvalidTicket e), s)
         | Inr n \<Rightarrow>
             (Inr (sel_one (\<lambda>r. pb_key r = (agentId, n)) (pending_bag s) = None),
              bag_upsert agentId n eventType routingReason now s))"

definition bag_pruneAgent :: "string \<Rightarrow> nat \<Rightarrow> PendingWorkBag \<Rightarrow> bag_error + PendingWorkBag" where
  "bag_pruneAgent agentId now s =
     (case ttlCutoff now s of
        Inl e \<Rightarrow> Inl e
      | Inr cutoff \<Rightarrow> Inr (s\<lparr>pending_bag := del_where (\<lambda>r. pb_agentId r = agentId \<and> pb_updatedAt r < cutoff) (pending_bag s)\<rparr>))"

definition bag_prune :: "nat \<Rightarrow> PendingWorkBag \<Rightarrow> bag_error + PendingWorkBag" where
  "bag_prune now s =
     (case ttlCutoff now s of
        Inl e \<Rightarrow> Inl e
      | Inr cutoff \<Rightarrow> Inr (s\<lparr>pending_bag := del_where (\<lambda>r. pb_updatedAt r < cutoff) (pending_bag s)\<rparr>))"

definition getPendingTickets :: "string \<Rightarrow> nat \<Rightarrow> PendingWorkBag \<Rightarrow> bag_error + (BagRow list \<times> PendingWorkBag)" where
  "getPendingTickets agentId now s =
     (case bag_pruneAgent agentId now s of
        Inl e \<Rightarrow> Inl e
      | Inr s' \<Rightarrow> Inr (rev (sort_key pb_updatedAt (rev (sel_all (\<lambda>r. pb_agentId r = agentId) (pending_bag s')))), s'))"

definition getTicketRoutingReason :: "string \<Rightarrow> string \<Rightarrow> PendingWorkBag \<Rightarrow> key_error + string option" where
  "getTicketRoutingReason agentId ticketId s =
     (case normalizeSessionKey ticketId of
        Inl e \<Rightarrow> Inl e
      | Inr n \<Rightarrow> Inr (Option.bind (sel_one (\<lambda>r. pb_key r = (agentId, n)) (pending_bag s)) pb_routingReason))"

definition bag_delete :: "(BagRow \<Rightarrow> bool) \<Rightarrow> PendingWorkBag \<Rightarrow> nat \<times> PendingWorkBag" where
  "bag_delete P s = (changes P (pending_bag s), s\<lparr>pending_bag := del_where P (pending_bag s)\<rparr>)"

definition clearAgent :: "string \<Rightarrow> PendingWorkBag \<Rightarrow> nat \<times> PendingWorkBag" where
  "clearAgent agentId s = bag_delete (\<lambda>r. pb_agentId r = agentId) s"

definition removeTicket :: "string \<Rightarrow> string \<Rightarrow> PendingWorkBag \<Rightarrow> key_error + (bool \<times> PendingWorkBag)" where
  "removeTicket agentId ticketId s =
     (case normalizeSessionKey ticketId of
        Inl e \<Rightarrow> Inl e
      | Inr n \<Rightarrow> let (k, s') = bag_delete (\<lambda>r. pb_agentId r = agentId \<and> pb_ticketId r = n) s in Inr (0 < k, s'))"

definition removeTicketForAllAgents :: "string \<Rightarrow> PendingWorkBag \<Rightarrow> key_error + (nat \<times> PendingWorkBag)" where
  "removeTicketForAllAgents ticketId s =
     (case normalizeSessionKey ticketId of Inl e \<Rightarrow> Inl e | Inr n \<Rightarrow> Inr (bag_delete (\<lambda>r. pb_ticketId r = n) s))"

definition removeTicketForOtherAgents :: "string \<Rightarrow> string \<Rightarrow> PendingWorkBag \<Rightarrow> key_error + (nat \<times> PendingWorkBag)" where
  "removeTicketForOtherAgents agentId ticketId s =
     (case normalizeSessionKey ticketId of
        Inl e \<Rightarrow> Inl e
      | Inr n \<Rightarrow> Inr (bag_delete (\<lambda>r. pb_ticketId r = n \<and> pb_agentId r \<noteq> agentId) s))"

definition agentsWithPendingWork :: "nat \<Rightarrow> PendingWorkBag \<Rightarrow> bag_error + (string list \<times> PendingWorkBag)" where
  "agentsWithPendingWork now s =
     (case bag_prune now s of Inl e \<Rightarrow> Inl e | Inr s' \<Rightarrow> Inr (unique (map pb_agentId (pending_bag s')), s'))"

definition recordSignal :: "PendingWorkBag \<Rightarrow> PendingWorkBag" where
  "recordSignal s = s\<lparr>signalsSent := signalsSent s + 1\<rparr>"

definition bag_getStats :: "PendingWorkBag \<Rightarrow> nat \<times> nat \<times> nat" where
  "bag_getStats s = (eventsReceived s, length (pending_bag s), signalsSent s)"

definition getAgentStats :: "nat \<Rightarrow> PendingWorkBag \<Rightarrow> bag_error + ((string \<times> nat) list \<times> PendingWorkBag)" where
  "getAgentStats now s =
     (case bag_prune now s of
        Inl e \<Rightarrow> Inl e
      | Inr s' \<Rightarrow> Inr (map (\<lambda>a. (a, changes (\<lambda>r. pb_agentId r = a) (pending_bag s'))) (unique (map pb_agentId (pending_bag s'))), s'))"

subsection \<open>Invariant and lookups\<close>

definition bag_inv :: "PendingWorkBag \<Rightarrow> bool" where
  "bag_inv s \<longleftrightarrow> key_ok pb_key (pending_bag s)"

definition bag_row :: "PendingWorkBag \<Rightarrow> string \<times> string \<Rightarrow> BagRow option" where
  "bag_row s k = sel_one (\<lambda>r. pb_key r = k) (pending_bag s)"

lemma bag_mem: "bag_inv s \<Longrightarrow> bag_row s k = Some r \<longleftrightarrow> r \<in> set (pending_bag s) \<and> pb_key r = k"
  by (simp add: bag_row_def bag_inv_def sel_one_key_iff)

lemma bag_exists: "(\<exists>r \<in> set (pending_bag s). pb_key r = k) \<longleftrightarrow> bag_row s k \<noteq> None"
  by (simp add: bag_row_def sel_one_None)

lemma touch_key [simp]:
  "pb_key (r\<lparr>pb_eventType := e, pb_routingReason := q, pb_updatedAt := u\<rparr>) = pb_key r"
  by (simp add: pb_key_def)

lemma upsert_row:
  "bag_row (bag_upsert a n e q now s) k =
     (if k = (a, n) then
        (case bag_row s (a, n) of
           None \<Rightarrow> Some \<lparr>pb_id = bag_seq s + 1, pb_agentId = a, pb_ticketId = n, pb_eventType = e, pb_routingReason = q,
                      pb_createdAt = sql_datetime now, pb_updatedAt = sql_datetime now\<rparr>
         | Some r \<Rightarrow> Some (r\<lparr>pb_eventType := e, pb_routingReason := q, pb_updatedAt := sql_datetime now\<rparr>))
      else bag_row s k)"
proof (cases "bag_row s (a, n)")
  case None
  then show ?thesis
    by (simp add: bag_upsert_def bag_exists)
       (auto simp: bag_row_def sel_one_append sel_one_Cons pb_key_def split: option.splits)
next
  case (Some r)
  have key: "pb_key x = k" if "bag_row s k = Some x" for x
    using that sel_one_SomeD [of "\<lambda>r. pb_key r = k"] by (auto simp: bag_row_def)
  then show ?thesis using Some
    by (cases "bag_row s k") (auto simp: bag_upsert_def bag_exists bag_row_def sel_one_upd)
qed

lemma upsert_bag_inv: "bag_inv s \<Longrightarrow> bag_inv (bag_upsert a n e q now s)"
proof (cases "bag_row s (a, n)")
  case None
  then show "bag_inv s \<Longrightarrow> ?thesis"
    by (auto simp: bag_upsert_def bag_exists bag_inv_def bag_row_def sel_one_None key_ok_def pb_key_def)
next
  case (Some r)
  then show "bag_inv s \<Longrightarrow> ?thesis" by (simp add: bag_upsert_def bag_exists bag_inv_def key_ok_upd)
qed

lemma upsert_length:
  "length (pending_bag (bag_upsert a n e q now s)) = length (pending_bag s) + (if bag_row s (a, n) = None then 1 else 0)"
  by (simp add: bag_upsert_def bag_exists upd_where_def)

subsection \<open>Properties\<close>

type_synonym bag_event = "string \<times> string \<times> string option \<times> nat"

fun add_events :: "string \<Rightarrow> bag_event list \<Rightarrow> PendingWorkBag \<Rightarrow> (bag_error + bool) list \<times> PendingWorkBag" where
  "add_events a [] s = ([], s)"
| "add_events a ((t, e, q, now) # es) s =
     (let (r, s') = bag_add a t e q now s; (rs, s2) = add_events a es s' in (r # rs, s2))"

lemma add_normal:
  assumes "normalizeSessionKey t = Inr n"
  shows "bag_add a t e q now s = (Inr (bag_row s (a, n) = None),
    bag_upsert a n e q now (s\<lparr>eventsReceived := eventsReceived s + 1\<rparr>))"
  using assms by (simp add: bag_add_def Let_def bag_row_def)

lemma upsert_metrics [simp]: "eventsReceived (bag_upsert a n e q now s) = eventsReceived s"
  "bag_row (s\<lparr>eventsReceived := x\<rparr>) k = bag_row s k" "bag_inv (s\<lparr>eventsReceived := x\<rparr>) = bag_inv s"
  by (simp_all add: bag_upsert_def bag_row_def bag_inv_def)

lemma add_events_present:
  "\<forall>ev \<in> set es. normalizeSessionKey (fst ev) = Inr n \<Longrightarrow> bag_row s (a, n) \<noteq> None \<Longrightarrow> bag_inv s \<Longrightarrow>
   bag_inv (snd (add_events a es s)) \<and> length (pending_bag (snd (add_events a es s))) = length (pending_bag s) \<and>
   eventsReceived (snd (add_events a es s)) = eventsReceived s + length es \<and>
   fst (add_events a es s) = map (\<lambda>_. Inr False) es \<and>
   (es \<noteq> [] \<longrightarrow> (\<exists>r. bag_row (snd (add_events a es s)) (a, n) = Some r \<and>
      (pb_eventType r, pb_routingReason r) = (fst (snd (last es)), fst (snd (snd (last es)))) \<and>
      pb_updatedAt r = sql_datetime (snd (snd (snd (last es))))))"
proof (induction es arbitrary: s)
  case (Cons ev es)
  obtain t e q now where ev: "ev = (t, e, q, now)" by (cases ev)
  have n: "normalizeSessionKey t = Inr n" using Cons.prems(1) ev by simp
  define s' where "s' = bag_upsert a n e q now (s\<lparr>eventsReceived := eventsReceived s + 1\<rparr>)"
  have add: "bag_add a t e q now s = (Inr False, s')" using add_normal [OF n] Cons.prems(2) by (simp add: s'_def)
  obtain r where r: "bag_row s' (a, n) = Some r" "pb_eventType r = e" "pb_routingReason r = q" "pb_updatedAt r = sql_datetime now"
    using Cons.prems(2) by (auto simp: s'_def upsert_row split: option.splits)
  have s': "bag_inv s'" "length (pending_bag s') = length (pending_bag s)" "eventsReceived s' = eventsReceived s + 1"
    using Cons.prems(2,3) by (simp_all add: s'_def upsert_bag_inv upsert_length)
  show ?case using Cons.IH [of s'] Cons.prems(1) r s' ev add by (cases "es = []") (auto simp: split_beta Let_def)
qed simp

text \<open>
  A burst of events is one entry: adding any number of events for one ticket and agent, in
  any mixture of spellings of the ticket, leaves one row for them that carries the last event's
  type, reason and time; only the first call can report a new entry, every event is counted,
  and the bag grows by at most one.
\<close>

theorem burst_is_one_entry:
  assumes "bag_inv s" and "es \<noteq> []" and "\<forall>ev \<in> set es. normalizeSessionKey (fst ev) = Inr n"
  shows "\<exists>r. bag_row (snd (add_events a es s)) (a, n) = Some r \<and>
    (pb_eventType r, pb_routingReason r) = (fst (snd (last es)), fst (snd (snd (last es)))) \<and>
    pb_updatedAt r = sql_datetime (snd (snd (snd (last es)))) \<and>
    fst (add_events a es s) = Inr (bag_row s (a, n) = None) # map (\<lambda>_. Inr False) (tl es) \<and>
    eventsReceived (snd (add_events a es s)) = eventsReceived s + length es \<and>
    length (pending_bag (snd (add_events a es s))) = length (pending_bag s) + (if bag_row s (a, n) = None then 1 else 0)"
proof -
  obtain t e q now es' where es: "es = (t, e, q, now) # es'" using assms(2) by (cases es) auto
  have n: "normalizeSessionKey t = Inr n" "\<forall>ev \<in> set es'. normalizeSessionKey (fst ev) = Inr n" using assms(3) es by auto
  define s' where "s' = bag_upsert a n e q now (s\<lparr>eventsReceived := eventsReceived s + 1\<rparr>)"
  obtain r where r: "bag_row s' (a, n) = Some r" "pb_eventType r = e" "pb_routingReason r = q" "pb_updatedAt r = sql_datetime now"
    by (cases "bag_row s (a, n)") (auto simp: s'_def upsert_row)
  have s': "bag_inv s'" "length (pending_bag s') = length (pending_bag s) + (if bag_row s (a, n) = None then 1 else 0)"
    "eventsReceived s' = eventsReceived s + 1"
    using assms(1) by (simp_all add: s'_def upsert_bag_inv upsert_length)
  have run: "fst (add_events a es s) = Inr (bag_row s (a, n) = None) # fst (add_events a es' s')"
    "snd (add_events a es s) = snd (add_events a es' s')"
    using add_normal [OF n(1), of a e q now s] es by (simp_all add: s'_def split_beta Let_def)
  show ?thesis using add_events_present [OF n(2), of s' a] r s' run es
    by (cases "es' = []") auto
qed

theorem burst_is_one_entry_witness:
  "length (pending_bag (snd (add_events ''ada'' [(''INF-1'', ''Issue'', None, 0), (''linear-inf-1'', ''Comment'', None, 9)]
     (bag_open [] 0 (Some 1000) None)))) = 1"
proof -
  have n: "normalizeSessionKey ''INF-1'' = Inr ''linear-INF-1''" "normalizeSessionKey ''linear-inf-1'' = Inr ''linear-INF-1''"
    by code_simp+
  have inv: "bag_inv (bag_open [] 0 (Some 1000) None)" by (simp add: bag_inv_def bag_open_def)
  have "length (pending_bag (snd (add_events ''ada'' [(''INF-1'', ''Issue'', None, 0), (''linear-inf-1'', ''Comment'', None, 9)]
      (bag_open [] 0 (Some 1000) None)))) = length (pending_bag (bag_open [] 0 (Some 1000) None)) +
      (if bag_row (bag_open [] 0 (Some 1000) None) (''ada'', ''linear-INF-1'') = None then 1 else 0)"
    using burst_is_one_entry [OF inv, of "[(''INF-1'', ''Issue'', None, 0), (''linear-inf-1'', ''Comment'', None, 9)]" "''linear-INF-1''" "''ada''"] n
    by (auto simp del: add_events.simps)
  then show ?thesis by (simp add: bag_row_def bag_open_def del: add_events.simps)
qed

text \<open>
  Reading an agent's bag drops exactly its expired tickets: with a time to live \<open>ttl\<close> a
  ticket last touched at \<open>t\<close> is returned exactly when it is the agent's and \<open>t\<close> is not in a second
  before \<open>now - ttl\<close>, newest first; every ticket of other agents is kept, expired or not. With a
  time to live that does not parse the call throws.
\<close>

theorem pending_tickets_exact:
  assumes "\<forall>r \<in> set (pending_bag s). \<exists>t < iso_max. pb_updatedAt r = sql_datetime t" and "now < iso_max"
  shows "case bag_ttlMs s of
      None \<Rightarrow> getPendingTickets a now s = Inl InvalidDate
    | Some ttl \<Rightarrow> 0 \<le> ttl \<longrightarrow> (\<exists>rows s'. getPendingTickets a now s = Inr (rows, s') \<and>
        set rows = {r \<in> set (pending_bag s). pb_agentId r = a \<and>
          (\<exists>t < iso_max. pb_updatedAt r = sql_datetime t \<and> nat (int now - ttl) div 1000 \<le> t div 1000)} \<and>
        sorted (rev (map pb_updatedAt rows)) \<and>
        set (pending_bag s') = set rows \<union> {r \<in> set (pending_bag s). pb_agentId r \<noteq> a})"
proof (cases "bag_ttlMs s")
  case None
  then show ?thesis by (simp add: getPendingTickets_def bag_pruneAgent_def ttlCutoff_def)
next
  case (Some ttl)
  define cut where "cut = nat (int now - ttl)"
  define kept where "kept = del_where (\<lambda>r. pb_agentId r = a \<and> pb_updatedAt r < sql_datetime cut) (pending_bag s)"
  have run: "getPendingTickets a now s = Inr (rev (sort_key pb_updatedAt (rev (sel_all (\<lambda>r. pb_agentId r = a) kept))),
      s\<lparr>pending_bag := kept\<rparr>)"
    using Some by (simp add: getPendingTickets_def bag_pruneAgent_def ttlCutoff_def cut_def kept_def)
  have "0 \<le> ttl \<Longrightarrow> cut < iso_max" using assms(2) by (simp add: cut_def)
  then have age: "0 \<le> ttl \<Longrightarrow> (\<not> pb_updatedAt r < sql_datetime cut) \<longleftrightarrow>
      (\<exists>t < iso_max. pb_updatedAt r = sql_datetime t \<and> cut div 1000 \<le> t div 1000)" if "r \<in> set (pending_bag s)" for r
    using assms(1) that sql_datetime_le by (metis not_less)
  have sorted: "sorted (map pb_updatedAt (sort_key pb_updatedAt (rev (sel_all (\<lambda>r. pb_agentId r = a) kept))))" by simp
  show ?thesis unfolding Some option.case cut_def [symmetric] run
  proof (intro impI exI conjI)
    assume ttl: "0 \<le> ttl"
    show "Inr (rev (sort_key pb_updatedAt (rev (sel_all (\<lambda>r. pb_agentId r = a) kept))), s\<lparr>pending_bag := kept\<rparr>) =
      (Inr (rev (sort_key pb_updatedAt (rev (sel_all (\<lambda>r. pb_agentId r = a) kept))), s\<lparr>pending_bag := kept\<rparr>) :: bag_error + _)" ..
    show "set (rev (sort_key pb_updatedAt (rev (sel_all (\<lambda>r. pb_agentId r = a) kept)))) =
      {r \<in> set (pending_bag s). pb_agentId r = a \<and> (\<exists>t < iso_max. pb_updatedAt r = sql_datetime t \<and> cut div 1000 \<le> t div 1000)}"
      using age [OF _ ttl] by (auto simp: sel_all_def kept_def)
    show "sorted (rev (map pb_updatedAt (rev (sort_key pb_updatedAt (rev (sel_all (\<lambda>r. pb_agentId r = a) kept))))))"
      using sorted by (simp add: rev_map)
    show "set (pending_bag (s\<lparr>pending_bag := kept\<rparr>)) =
      set (rev (sort_key pb_updatedAt (rev (sel_all (\<lambda>r. pb_agentId r = a) kept)))) \<union> {r \<in> set (pending_bag s). pb_agentId r \<noteq> a}"
      by (auto simp: sel_all_def kept_def)
  qed
qed

theorem pending_tickets_exact_witness:
  "\<exists>rows s'. getPendingTickets ''ada'' 9000 (bag_open [] 0 (Some 1000) None) = Inr (rows, s') \<and> rows = []"
  using pending_tickets_exact [of "bag_open [] 0 (Some 1000) None" 9000 "''ada''"]
  by (auto simp: bag_open_def iso_max_def)

text \<open>
  Re-delegation leaves one holder: \<open>removeTicketForOtherAgents\<close> with any spelling of the ticket
  removes exactly the entries of other agents for it and reports their number, so afterwards
  only the new delegate can hold it, and every entry of other tickets is kept.
\<close>

theorem redelegation_leaves_one_holder:
  assumes "normalizeSessionKey t = Inr n"
  shows "\<exists>k s'. removeTicketForOtherAgents a t s = Inr (k, s') \<and>
    set (pending_bag s') = {r \<in> set (pending_bag s). pb_ticketId r = n \<longrightarrow> pb_agentId r = a} \<and>
    k = length [r \<leftarrow> pending_bag s. pb_ticketId r = n \<and> pb_agentId r \<noteq> a] \<and>
    length (pending_bag s') + k = length (pending_bag s)"
proof (intro exI conjI)
  let ?P = "\<lambda>r. pb_ticketId r = n \<and> pb_agentId r \<noteq> a"
  let ?s = "s\<lparr>pending_bag := del_where ?P (pending_bag s)\<rparr>"
  show "removeTicketForOtherAgents a t s = Inr (changes ?P (pending_bag s), ?s)"
    using assms by (simp add: removeTicketForOtherAgents_def bag_delete_def)
  show "set (pending_bag ?s) = {r \<in> set (pending_bag s). pb_ticketId r = n \<longrightarrow> pb_agentId r = a}" by auto
  show "changes ?P (pending_bag s) = length (filter ?P (pending_bag s))" by (simp add: changes_def)
  show "length (pending_bag ?s) + changes ?P (pending_bag s) = length (pending_bag s)"
    using length_del [of ?P "pending_bag s"] by simp
qed

theorem redelegation_leaves_one_holder_witness:
  "let r = (\<lambda>i a. \<lparr>pb_id = i, pb_agentId = a, pb_ticketId = ''linear-INF-1'', pb_eventType = ''Issue'', pb_routingReason = None,
         pb_createdAt = [], pb_updatedAt = []\<rparr>)
   in \<exists>k s'. removeTicketForOtherAgents ''ada'' ''inf-1'' (bag_open [r 1 ''ada'', r 2 ''bob''] 2 (Some 1) None) = Inr (k, s') \<and>
        k = 1 \<and> set (pending_bag s') = {r 1 ''ada''}"
proof -
  have n: "normalizeSessionKey ''inf-1'' = Inr ''linear-INF-1''" by code_simp
  let ?r = "\<lambda>i a. \<lparr>pb_id = i, pb_agentId = a, pb_ticketId = ''linear-INF-1'', pb_eventType = ''Issue'', pb_routingReason = None,
         pb_createdAt = [], pb_updatedAt = []\<rparr>"
  define r1 r2 where "r1 = ?r 1 ''ada''" and "r2 = ?r 2 ''bob''"
  have r12: "pb_ticketId r1 = ''linear-INF-1''" "pb_agentId r1 = ''ada''" "pb_ticketId r2 = ''linear-INF-1''" "pb_agentId r2 = ''bob''"
    by (simp_all add: r1_def r2_def)
  let ?s = "bag_open [r1, r2] 2 (Some 1) None"
  have bag: "pending_bag ?s = [r1, r2]" by (simp add: bag_open_def)
  obtain k s' where r: "removeTicketForOtherAgents ''ada'' ''inf-1'' ?s = Inr (k, s')"
    "set (pending_bag s') = {r \<in> set (pending_bag ?s). pb_ticketId r = ''linear-INF-1'' \<longrightarrow> pb_agentId r = ''ada''}"
    "k = length [r \<leftarrow> pending_bag ?s. pb_ticketId r = ''linear-INF-1'' \<and> pb_agentId r \<noteq> ''ada'']"
    using redelegation_leaves_one_holder [OF n, of "''ada''" ?s] by blast
  have "set (pending_bag s') = {r1}" unfolding r(2) bag using r12 by auto
  moreover have "k = 1" unfolding r(3) bag using r12 by simp
  ultimately show ?thesis unfolding Let_def r1_def [symmetric] r2_def [symmetric] using r(1) by blast
qed

end
