(* ===== verification/QueueInterface.thy ===== *)
theory QueueInterface
  imports Prelude
begin

text \<open>
  The contract of a queue that serves several consumers one task at a time: \<open>held s a\<close> is the
  task consumer \<open>a\<close> works on followed by the ones that wait for it. The operations carry the clock,
  which must not run backwards. The locale proves once that a provider delivers to each consumer
  the tasks in the order of their arrival.
\<close>

datatype ('a, 'r) queue_event = Arrive 'r | Finish 'a

locale serial_queue =
  fixes enq :: "'t::linorder \<Rightarrow> 'r \<Rightarrow> 's \<Rightarrow> bool \<times> 's"
    and nxt :: "'t \<Rightarrow> 'a \<Rightarrow> 's \<Rightarrow> 'r option \<times> 's"
    and held :: "'s \<Rightarrow> 'a \<Rightarrow> 'r list"
    and owner :: "'r \<Rightarrow> 'a"
    and clock_ok :: "'t \<Rightarrow> bool"
    and ok :: "'t \<Rightarrow> 's \<Rightarrow> bool"
  assumes enq_ok: "ok t s \<Longrightarrow> t \<le> t' \<Longrightarrow> clock_ok t' \<Longrightarrow> ok t' (snd (enq t' r s))"
    and enq_held: "ok t s \<Longrightarrow> t \<le> t' \<Longrightarrow> clock_ok t' \<Longrightarrow>
      held (snd (enq t' r s)) a = (if a = owner r then held s a @ [r] else held s a)"
    and enq_now: "ok t s \<Longrightarrow> t \<le> t' \<Longrightarrow> clock_ok t' \<Longrightarrow> fst (enq t' r s) = (held s (owner r) = [])"
    and nxt_ok: "ok t s \<Longrightarrow> t \<le> t' \<Longrightarrow> clock_ok t' \<Longrightarrow> ok t' (snd (nxt t' b s))"
    and nxt_held: "ok t s \<Longrightarrow> t \<le> t' \<Longrightarrow> clock_ok t' \<Longrightarrow>
      held (snd (nxt t' b s)) a = (if a = b then tl (held s a) else held s a)"
    and nxt_task: "ok t s \<Longrightarrow> t \<le> t' \<Longrightarrow> clock_ok t' \<Longrightarrow>
      fst (nxt t' b s) = (case tl (held s b) of [] \<Rightarrow> None | r # _ \<Rightarrow> Some r)"
begin

text \<open>The tasks handed out by a step: an arrival to an idle consumer, or the next that waits.\<close>

definition serve :: "'t \<times> ('a, 'r) queue_event \<Rightarrow> 's \<Rightarrow> ('a \<times> 'r) list \<times> 's" where
  "serve te s = (case te of
     (t, Arrive r) \<Rightarrow> (let (now, s') = enq t r s in (if now then [(owner r, r)] else [], s'))
   | (t, Finish b) \<Rightarrow> (let (task, s') = nxt t b s in (case task of None \<Rightarrow> [] | Some r \<Rightarrow> [(b, r)], s')))"

fun serve_all :: "('t \<times> ('a, 'r) queue_event) list \<Rightarrow> 's \<Rightarrow> ('a \<times> 'r) list \<times> 's" where
  "serve_all [] s = ([], s)"
| "serve_all (e # es) s = (let (d, s') = serve e s; (ds, s2) = serve_all es s' in (d @ ds, s2))"

fun in_order :: "'t \<Rightarrow> ('t \<times> ('a, 'r) queue_event) list \<Rightarrow> bool" where
  "in_order t [] = True"
| "in_order t ((t', _) # es) = (t \<le> t' \<and> clock_ok t' \<and> in_order t' es)"

definition arrivals :: "'a \<Rightarrow> ('t \<times> ('a, 'r) queue_event) list \<Rightarrow> 'r list" where
  "arrivals a es = concat (map (\<lambda>(_, e). case e of Arrive r \<Rightarrow> if owner r = a then [r] else [] | Finish _ \<Rightarrow> []) es)"

definition delivered :: "'a \<Rightarrow> ('a \<times> 'r) list \<Rightarrow> 'r list" where
  "delivered a ds = map snd (filter (\<lambda>d. fst d = a) ds)"

lemma delivered_append [simp]: "delivered a (ds @ es) = delivered a ds @ delivered a es"
  by (simp add: delivered_def)

lemma serve_step:
  assumes "ok t s" "t \<le> t'" "clock_ok t'"
  shows "ok t' (snd (serve (t', e) s)) \<and>
    delivered a (fst (serve (t', e) s)) @ tl (held (snd (serve (t', e) s)) a) = tl (held s a) @ arrivals a [(t', e)]"
proof (cases e)
  case (Arrive r)
  then show ?thesis
    using enq_ok [OF assms, of r] enq_held [OF assms, of r] enq_now [OF assms, of r]
    by (auto simp: serve_def split_beta Let_def arrivals_def delivered_def)
next
  case (Finish b)
  then show ?thesis
    using nxt_ok [OF assms, of b] nxt_held [OF assms, of b] nxt_task [OF assms, of b]
    by (auto simp: serve_def split_beta Let_def arrivals_def delivered_def split: list.splits)
qed

lemma ok_all: "ok t s \<Longrightarrow> in_order t es \<Longrightarrow> \<exists>t'. ok t' (snd (serve_all es s))"
proof (induction es arbitrary: t s)
  case (Cons te es)
  obtain t' e where te: "te = (t', e)" by (cases te)
  have "ok t' (snd (serve te s))" "in_order t' es" using serve_step [of t s t' e] Cons.prems te by simp_all
  then show ?case using Cons.IH by (simp add: split_beta Let_def)
qed auto

lemma order_of_arrival:
  "ok t s \<Longrightarrow> in_order t es \<Longrightarrow>
   delivered a (fst (serve_all es s)) @ tl (held (snd (serve_all es s)) a) = tl (held s a) @ arrivals a es"
proof (induction es arbitrary: t s)
  case (Cons te es)
  obtain t' e where te: "te = (t', e)" by (cases te)
  have "ok t' (snd (serve te s))"
    "delivered a (fst (serve te s)) @ tl (held (snd (serve te s)) a) = tl (held s a) @ arrivals a [te]"
    using serve_step [of t s t' e a] Cons.prems te by simp_all
  moreover have "in_order t' es" using Cons.prems te by simp
  moreover have "arrivals a (te # es) = arrivals a [te] @ arrivals a es" by (simp add: arrivals_def)
  ultimately show ?case using Cons.IH [of t' "snd (serve te s)"]
    by (simp add: split_beta Let_def)
qed (simp add: arrivals_def delivered_def)

end

end
