(* ===== verification/AgentQueue.thy ===== *)
theory AgentQueue
  imports SqlTime JsMap QueueInterface
begin

text \<open>
  \<open>src/queue/agent-queue.ts\<close>: the queue that gives each agent one task at a time, and the startup
  drain of \<open>src/index.ts\<close> over it. The payload column holds the \<open>RouteResult\<close> itself (it is written by
  \<open>JSON.stringify\<close> and read back by \<open>JSON.parse\<close>); the fields the queue only carries are the parameter
  \<open>'e\<close>. Statements without an order list in order of insertion.
\<close>

subsection \<open>State\<close>

record 'e RouteResult =
  rt_agentId :: string
  rt_sessionKey :: string
  rt_rest :: 'e

datatype QStatus = Queued | Active | Completed

record 'e QueueRow =
  aq_id :: nat
  aq_agentId :: string
  aq_payload :: "'e RouteResult"
  aq_status :: QStatus
  aq_createdAt :: string
  aq_updatedAt :: string

record 'e AgentQueue =
  agent_queue :: "'e QueueRow list"
  queue_seq :: nat

datatype queue_action = Deliver | QueuedUp | Coalesced | ActiveBusy

definition in_status :: "string \<Rightarrow> QStatus \<Rightarrow> 'e QueueRow \<Rightarrow> bool" where
  "in_status agentId st r = (aq_agentId r = agentId \<and> aq_status r = st)"

definition created_order :: "'e QueueRow list \<Rightarrow> 'e QueueRow list" where
  "created_order rows = sort_key aq_createdAt (sort_key aq_id rows)"

subsection \<open>Operations\<close>

definition queue_insert :: "'e RouteResult \<Rightarrow> QStatus \<Rightarrow> nat \<Rightarrow> 'e AgentQueue \<Rightarrow> 'e AgentQueue" where
  "queue_insert result st now s =
     s\<lparr>agent_queue := agent_queue s @
          [\<lparr>aq_id = queue_seq s + 1, aq_agentId = rt_agentId result, aq_payload = result, aq_status = st,
            aq_createdAt = sql_datetime now, aq_updatedAt = sql_datetime now\<rparr>],
       queue_seq := queue_seq s + 1\<rparr>"

definition getActive :: "string \<Rightarrow> 'e AgentQueue \<Rightarrow> 'e RouteResult option" where
  "getActive agentId s = map_option aq_payload (sel_one (in_status agentId Active) (agent_queue s))"

definition enqueue :: "nat \<Rightarrow> 'e RouteResult \<Rightarrow> 'e AgentQueue \<Rightarrow> queue_action \<times> 'e AgentQueue" where
  "enqueue now result s =
     (if sel_one (in_status (rt_agentId result) Active) (agent_queue s) \<noteq> None
      then (QueuedUp, queue_insert result Queued now s)
      else (Deliver, queue_insert result Active now s))"

definition complete :: "nat \<Rightarrow> string \<Rightarrow> 'e AgentQueue \<Rightarrow> 'e RouteResult option \<times> 'e AgentQueue" where
  "complete now agentId s =
     (let rows = upd_where (in_status agentId Active)
            (\<lambda>r. r\<lparr>aq_status := Completed, aq_updatedAt := sql_datetime now\<rparr>) (agent_queue s)
      in case created_order (sel_all (in_status agentId Queued) rows) of
           [] \<Rightarrow> (None, s\<lparr>agent_queue := rows\<rparr>)
         | r # _ \<Rightarrow> (Some (aq_payload r),
             s\<lparr>agent_queue := upd_where (\<lambda>x. aq_id x = aq_id r)
                  (\<lambda>r. r\<lparr>aq_status := Active, aq_updatedAt := sql_datetime now\<rparr>) rows\<rparr>))"

definition getQueued :: "string \<Rightarrow> 'e AgentQueue \<Rightarrow> 'e RouteResult list" where
  "getQueued agentId s = map aq_payload (created_order (sel_all (in_status agentId Queued) (agent_queue s)))"

definition enqueueOrCoalesce :: "nat \<Rightarrow> 'e RouteResult \<Rightarrow> 'e AgentQueue \<Rightarrow> queue_action \<times> 'e AgentQueue" where
  "enqueueOrCoalesce now result s =
     (let active = sel_one (in_status (rt_agentId result) Active) (agent_queue s)
      in if (case active of None \<Rightarrow> False | Some r \<Rightarrow> rt_sessionKey (aq_payload r) = rt_sessionKey result)
         then (ActiveBusy, s)
         else case sel_one (\<lambda>r. in_status (rt_agentId result) Queued r \<and> rt_sessionKey (aq_payload r) = rt_sessionKey result)
                (agent_queue s) of
           Some existing \<Rightarrow>
             (Coalesced, s\<lparr>agent_queue := upd_where (\<lambda>x. aq_id x = aq_id existing)
                (\<lambda>r. r\<lparr>aq_payload := result, aq_updatedAt := sql_datetime now\<rparr>) (agent_queue s)\<rparr>)
         | None \<Rightarrow> if active \<noteq> None then (QueuedUp, queue_insert result Queued now s)
                    else (Deliver, queue_insert result Active now s))"

definition queue_getStats :: "'e AgentQueue \<Rightarrow> (string \<times> bool \<times> nat) list" where
  "queue_getStats s =
     (let rows = sel_all (\<lambda>r. aq_status r = Active \<or> aq_status r = Queued) (agent_queue s)
      in map (\<lambda>a. (a, 0 < changes (in_status a Active) rows, changes (in_status a Queued) rows))
           (unique (map aq_agentId rows)))"

definition agentsWithBacklog :: "'e AgentQueue \<Rightarrow> string list" where
  "agentsWithBacklog s =
     unique (map aq_agentId (sel_all (\<lambda>r. aq_status r = Active \<or> aq_status r = Queued) (agent_queue s)))"

text \<open>
  The startup drain of one agent: \<open>complete\<close> until nothing is promoted; a failed delivery is logged
  and the loop goes on, so the deliveries tried are the result. \<open>clock\<close> gives the time of each call.
  Each promotion takes a row out of the queued ones, so the loop ends.
\<close>

definition queued_count :: "string \<Rightarrow> 'e AgentQueue \<Rightarrow> nat" where
  "queued_count agentId s = changes (in_status agentId Queued) (agent_queue s)"

lemma upd_where_completed:
  "filter (in_status b st) (upd_where (in_status a Active) (\<lambda>r. r\<lparr>aq_status := Completed, aq_updatedAt := u\<rparr>) rows) =
     (if st = Active \<and> b = a then [] else filter (in_status b st) rows)" if "st \<noteq> Completed"
  using that by (induction rows) (auto simp: upd_where_def in_status_def [abs_def])

lemma filter_shrinks:
  "x \<in> set rows \<Longrightarrow> P x \<Longrightarrow> \<not> P (f x) \<Longrightarrow> Q x \<Longrightarrow> (\<And>y. Q y \<Longrightarrow> \<not> P (f y)) \<Longrightarrow>
   length (filter P (upd_where Q f rows)) < length (filter P rows)"
proof (induction rows)
  case (Cons y rows)
  have le: "length (filter P (upd_where Q f zs)) \<le> length (filter P zs)" for zs
    using Cons.prems(5) by (induction zs) (auto simp: upd_where_def)
  show ?case using Cons le [of rows] by (auto simp: upd_where_def)
qed simp

lemma set_created_order [simp]: "set (created_order rows) = set rows"
  by (simp add: created_order_def)

lemma complete_decreases: "complete now a s = (Some r, s') \<Longrightarrow> queued_count a s' < queued_count a s"
proof -
  assume run: "complete now a s = (Some r, s')"
  define rows where "rows = upd_where (in_status a Active)
     (\<lambda>r. r\<lparr>aq_status := Completed, aq_updatedAt := sql_datetime now\<rparr>) (agent_queue s)"
  obtain q qs where q: "created_order (sel_all (in_status a Queued) rows) = q # qs"
    using run by (auto simp: complete_def rows_def Let_def split: list.splits)
  then have mem: "q \<in> set rows" "in_status a Queued q"
    using set_created_order [of "sel_all (in_status a Queued) rows"] by (auto simp: sel_all_def)
  have s': "agent_queue s' = upd_where (\<lambda>x. aq_id x = aq_id q)
      (\<lambda>r. r\<lparr>aq_status := Active, aq_updatedAt := sql_datetime now\<rparr>) rows"
    using run q by (auto simp: complete_def rows_def [symmetric])
  have "length (filter (in_status a Queued) (agent_queue s')) < length (filter (in_status a Queued) rows)"
    unfolding s' using mem by (intro filter_shrinks [where x = q]) (auto simp: in_status_def)
  then show ?thesis by (simp add: queued_count_def changes_def rows_def upd_where_completed)
qed

function drain_agent :: "string \<Rightarrow> (nat \<Rightarrow> nat) \<Rightarrow> nat \<Rightarrow> 'e AgentQueue \<Rightarrow> 'e RouteResult list \<times> 'e AgentQueue" where
  "drain_agent agentId clock i s =
     (case complete (clock i) agentId s of
        (None, s') \<Rightarrow> ([], s')
      | (Some r, s') \<Rightarrow> (let (rs, s2) = drain_agent agentId clock (i + 1) s' in (r # rs, s2)))"
  by pat_completeness auto

termination
  by (relation "measure (\<lambda>(a, _, _, s). queued_count a s)") (auto dest!: sym [of _ "complete _ _ _"] complete_decreases)

declare drain_agent.simps [simp del]

definition drainBacklog :: "(string \<Rightarrow> nat \<Rightarrow> nat) \<Rightarrow> 'e AgentQueue \<Rightarrow> (string \<times> 'e RouteResult list) list \<times> 'e AgentQueue" where
  "drainBacklog clock s =
     fold (\<lambda>a (out, s). let (rs, s') = drain_agent a (clock a) 0 s in (out @ [(a, rs)], s')) (agentsWithBacklog s) ([], s)"

subsection \<open>Invariant and abstraction\<close>

definition rows_in :: "string \<Rightarrow> QStatus \<Rightarrow> 'e AgentQueue \<Rightarrow> 'e QueueRow list" where
  "rows_in a st s = filter (in_status a st) (agent_queue s)"

text \<open>The table is in the order of its ids and of its times, none later than \<open>t\<close>.\<close>

definition table_order :: "nat \<Rightarrow> 'e AgentQueue \<Rightarrow> bool" where
  "table_order t s \<longleftrightarrow> t < iso_max \<and> sorted_wrt (<) (map aq_id (agent_queue s)) \<and>
     sorted (map aq_createdAt (agent_queue s)) \<and>
     (\<forall>r \<in> set (agent_queue s). aq_id r \<le> queue_seq s \<and> aq_createdAt r \<le> sql_datetime t)"

text \<open>An agent has at most one active task, and waiting tasks only behind an active one.\<close>

definition queue_inv :: "nat \<Rightarrow> 'e AgentQueue \<Rightarrow> bool" where
  "queue_inv t s \<longleftrightarrow> table_order t s \<and>
     (\<forall>a. length (rows_in a Active s) \<le> 1 \<and> (rows_in a Active s = [] \<longrightarrow> rows_in a Queued s = []))"

definition held :: "'e AgentQueue \<Rightarrow> string \<Rightarrow> 'e RouteResult list" where
  "held s a = map aq_payload (rows_in a Active s) @ map aq_payload (rows_in a Queued s)"

lemma time_le: "t \<le> t' \<Longrightarrow> t' < iso_max \<Longrightarrow> sql_datetime t \<le> sql_datetime t'"
  by (simp add: sql_datetime_le div_le_mono)

lemma created_order_id: "table_order t s \<Longrightarrow> created_order (filter P (agent_queue s)) = filter P (agent_queue s)"
proof -
  assume "table_order t s"
  then have "sorted (map aq_id (agent_queue s))" "sorted (map aq_createdAt (agent_queue s))"
    by (auto simp: table_order_def strict_sorted_iff)
  then have "sorted (map aq_id (filter P (agent_queue s)))" "sorted (map aq_createdAt (filter P (agent_queue s)))"
    by (auto intro: sorted_filter)
  then show ?thesis by (simp add: created_order_def sort_key_id_if_sorted)
qed

lemma order_insert:
  "table_order t s \<Longrightarrow> t \<le> t' \<Longrightarrow> t' < iso_max \<Longrightarrow> table_order t' (queue_insert r st t' s)"
  using time_le [of t t']
  by (auto simp: table_order_def queue_insert_def sorted_wrt_append sorted_append intro: order_trans le_imp_less_Suc)

lemma order_update:
  assumes "table_order t s" "\<forall>r. aq_id (f r) = aq_id r \<and> aq_createdAt (f r) = aq_createdAt r"
  shows "table_order t (s\<lparr>agent_queue := upd_where P f (agent_queue s)\<rparr>)"
proof -
  have "map aq_id (upd_where P f rows) = map aq_id rows" "map aq_createdAt (upd_where P f rows) = map aq_createdAt rows" for rows
    using assms(2) by (auto simp: upd_where_def)
  moreover have "\<forall>r \<in> set (upd_where P f (agent_queue s)). aq_id r \<le> queue_seq s \<and> aq_createdAt r \<le> sql_datetime t"
    using assms by (auto simp: table_order_def upd_where_def)
  ultimately show ?thesis using assms(1) by (simp add: table_order_def)
qed

lemma rows_insert:
  "rows_in a st (queue_insert r st' t s) = rows_in a st s @
     (if a = rt_agentId r \<and> st = st' then
        [\<lparr>aq_id = queue_seq s + 1, aq_agentId = rt_agentId r, aq_payload = r, aq_status = st',
          aq_createdAt = sql_datetime t, aq_updatedAt = sql_datetime t\<rparr>] else [])"
  by (auto simp: rows_in_def queue_insert_def in_status_def)

lemma active_iff: "sel_one (in_status a Active) (agent_queue s) \<noteq> None \<longleftrightarrow> rows_in a Active s \<noteq> []"
  by (auto simp: rows_in_def sel_one_None filter_empty_conv)

lemma held_Nil: "queue_inv t s \<Longrightarrow> held s a = [] \<longleftrightarrow> rows_in a Active s = []"
  by (auto simp: held_def queue_inv_def)

subsection \<open>Each operation on the abstract queue\<close>

lemma enqueue_rows:
  "enqueue t r s = (if rows_in (rt_agentId r) Active s = [] then (Deliver, queue_insert r Active t s)
     else (QueuedUp, queue_insert r Queued t s))"
  unfolding enqueue_def active_iff by simp

lemma inv_statuses: "queue_inv t s \<Longrightarrow> length (rows_in a Active s) \<le> 1 \<and> (rows_in a Active s = [] \<longrightarrow> rows_in a Queued s = [])"
  by (simp add: queue_inv_def)

lemma queue_invI:
  assumes "table_order t s" and "\<And>a. length (rows_in a Active s) \<le> 1 \<and> (rows_in a Active s = [] \<longrightarrow> rows_in a Queued s = [])"
  shows "queue_inv t s"
  using assms unfolding queue_inv_def by blast

lemma enqueue_held:
  assumes "queue_inv t s" "t \<le> t'" "t' < iso_max"
  shows "queue_inv t' (snd (enqueue t' r s))"
    "held (snd (enqueue t' r s)) a = (if a = rt_agentId r then held s a @ [r] else held s a)"
    "fst (enqueue t' r s) = (if held s (rt_agentId r) = [] then Deliver else QueuedUp)"
proof -
  have ord: "table_order t' (queue_insert r st t' s)" for st
    using assms order_insert by (auto simp: queue_inv_def)
  show "fst (enqueue t' r s) = (if held s (rt_agentId r) = [] then Deliver else QueuedUp)"
    using held_Nil [OF assms(1)] by (simp add: enqueue_rows)
  show "queue_inv t' (snd (enqueue t' r s))"
  proof (rule queue_invI)
    show "table_order t' (snd (enqueue t' r s))" using ord by (simp add: enqueue_rows)
    fix b
    show "length (rows_in b Active (snd (enqueue t' r s))) \<le> 1 \<and>
      (rows_in b Active (snd (enqueue t' r s)) = [] \<longrightarrow> rows_in b Queued (snd (enqueue t' r s)) = [])"
      using inv_statuses [OF assms(1), of b] by (auto simp: enqueue_rows rows_insert)
  qed
  show "held (snd (enqueue t' r s)) a = (if a = rt_agentId r then held s a @ [r] else held s a)"
    using inv_statuses [OF assms(1), of a] by (auto simp: held_def enqueue_rows rows_insert)
qed

lemma upd_first:
  "sorted_wrt (<) (map aq_id rows) \<Longrightarrow> filter P rows = q # qs \<Longrightarrow> \<not> P (f q) \<Longrightarrow>
   filter P (upd_where (\<lambda>x. aq_id x = aq_id q) f rows) = qs"
proof (induction rows)
  case (Cons x rows)
  have others: "upd_where (\<lambda>y. aq_id y = aq_id x) f rows = rows"
    using Cons.prems(1) by (auto simp: upd_where_def intro!: map_idI)
  show ?case
  proof (cases "P x")
    case True
    then show ?thesis using Cons.prems others by (auto simp: upd_where_def)
  next
    case False
    then have "q \<in> set rows" using Cons.prems(2) by (metis filter.simps(2) filter_is_subset list.set_intros(1) subsetD)
    then have "aq_id x \<noteq> aq_id q" using Cons.prems(1) by auto
    then show ?thesis using False Cons by (auto simp: upd_where_def)
  qed
qed simp

lemma upd_other:
  "sorted_wrt (<) (map aq_id rows) \<Longrightarrow> q \<in> set rows \<Longrightarrow> \<not> P q \<Longrightarrow>
   filter P (upd_where (\<lambda>x. aq_id x = aq_id q) f rows) = (if P (f q) then
     filter P (takeWhile (\<lambda>x. x \<noteq> q) rows) @ f q # filter P (dropWhile (\<lambda>x. x \<noteq> q) rows) else filter P rows)"
proof (induction rows)
  case (Cons x rows)
  have others: "upd_where (\<lambda>y. aq_id y = aq_id x) f rows = rows"
    using Cons.prems(1) by (auto simp: upd_where_def intro!: map_idI)
  show ?case
  proof (cases "x = q")
    case True
    then show ?thesis using Cons.prems others by (auto simp: upd_where_def)
  next
    case False
    then have "aq_id x \<noteq> aq_id q" "q \<in> set rows" using Cons.prems by auto
    then show ?thesis using False Cons by (auto simp: upd_where_def)
  qed
qed simp

lemma rows_completed:
  assumes "s1 = s\<lparr>agent_queue := upd_where (in_status a Active) (\<lambda>r. r\<lparr>aq_status := Completed, aq_updatedAt := u\<rparr>) (agent_queue s)\<rparr>"
  shows "rows_in b Queued s1 = rows_in b Queued s" "rows_in b Active s1 = (if b = a then [] else rows_in b Active s)"
  by (simp_all add: rows_in_def assms upd_where_completed)

lemma rows_promoted:
  assumes "sorted_wrt (<) (map aq_id (agent_queue s))" "rows_in a Queued s = q # qs" "rows_in a Active s = []"
    and "s2 = s\<lparr>agent_queue := upd_where (\<lambda>x. aq_id x = aq_id q) (\<lambda>r. r\<lparr>aq_status := Active, aq_updatedAt := u\<rparr>) (agent_queue s)\<rparr>"
  shows "rows_in b Queued s2 = (if b = a then qs else rows_in b Queued s)"
    "rows_in b Active s2 = (if b = a then [q\<lparr>aq_status := Active, aq_updatedAt := u\<rparr>] else rows_in b Active s)"
proof -
  let ?f = "\<lambda>r. r\<lparr>aq_status := Active, aq_updatedAt := u\<rparr>"
  have "q \<in> set (rows_in a Queued s)" by (simp add: assms(2))
  then have q: "q \<in> set (agent_queue s)" "in_status a Queued q" by (simp_all add: rows_in_def)
  have none: "\<not> in_status a Active x" if "x \<in> set (agent_queue s)" for x
    using assms(3) that unfolding rows_in_def by (auto simp: filter_empty_conv)
  have other: "\<not> in_status b st q" "in_status b st (?f q) = (b = a \<and> st = Active)" if "b \<noteq> a \<or> st = Active" for st
    using q(2) that by (auto simp: in_status_def)
  show "rows_in b Queued s2 = (if b = a then qs else rows_in b Queued s)"
  proof (cases "b = a")
    case True
    then show ?thesis using upd_first [OF assms(1) assms(2) [unfolded rows_in_def], of ?f]
      by (simp add: rows_in_def assms(4) in_status_def)
  next
    case False
    then show ?thesis using upd_other [OF assms(1) q(1), of "in_status b Queued" ?f] other [of Queued]
      by (simp add: rows_in_def assms(4))
  qed
  have "filter (in_status a Active) (takeWhile (\<lambda>x. x \<noteq> q) (agent_queue s)) = []"
    "filter (in_status a Active) (dropWhile (\<lambda>x. x \<noteq> q) (agent_queue s)) = []"
    using none by (auto simp: filter_empty_conv dest: set_takeWhileD set_dropWhileD)
  then show "rows_in b Active s2 = (if b = a then [?f q] else rows_in b Active s)"
    using upd_other [OF assms(1) q(1), of "in_status b Active" ?f] other [of Active] by (simp add: rows_in_def assms(4))
qed

lemma complete_held:
  assumes "queue_inv t s"
  shows "queue_inv t (snd (complete u a s))"
    "held (snd (complete u a s)) b = (if b = a then tl (held s b) else held s b)"
    "fst (complete u a s) = (case tl (held s a) of [] \<Rightarrow> None | r # _ \<Rightarrow> Some r)"
proof -
  define s1 where "s1 = s\<lparr>agent_queue := upd_where (in_status a Active)
     (\<lambda>r. r\<lparr>aq_status := Completed, aq_updatedAt := sql_datetime u\<rparr>) (agent_queue s)\<rparr>"
  note r1 = rows_completed [OF s1_def]
  have o1: "table_order t s1"
    using assms unfolding s1_def by (intro order_update) (auto simp: queue_inv_def)
  have tls: "tl (held s c) = map aq_payload (rows_in c Queued s)" for c
    using inv_statuses [OF assms, of c] by (cases "rows_in c Active s") (auto simp: held_def)
  have next1: "created_order (sel_all (in_status a Queued) (agent_queue s1)) = rows_in a Queued s1"
    using created_order_id [OF o1] by (simp add: sel_all_def rows_in_def)
  have run: "complete u a s = (case rows_in a Queued s of [] \<Rightarrow> (None, s1) | q # _ \<Rightarrow> (Some (aq_payload q),
      s1\<lparr>agent_queue := upd_where (\<lambda>x. aq_id x = aq_id q) (\<lambda>r. r\<lparr>aq_status := Active, aq_updatedAt := sql_datetime u\<rparr>) (agent_queue s1)\<rparr>))"
    using next1 [unfolded r1] by (simp add: complete_def s1_def split: list.split)
  have "queue_inv t (snd (complete u a s)) \<and> held (snd (complete u a s)) b = (if b = a then tl (held s b) else held s b) \<and>
    fst (complete u a s) = (case tl (held s a) of [] \<Rightarrow> None | r # _ \<Rightarrow> Some r)"
  proof (cases "rows_in a Queued s")
    case Nil
    have "queue_inv t s1"
    proof (rule queue_invI [OF o1])
      show "length (rows_in c Active s1) \<le> 1 \<and> (rows_in c Active s1 = [] \<longrightarrow> rows_in c Queued s1 = [])" for c
        using inv_statuses [OF assms, of c] Nil by (simp add: r1)
    qed
    then show ?thesis using Nil tls [of a] by (auto simp: run held_def r1)
  next
    case (Cons q qs)
    define s2 where "s2 = s1\<lparr>agent_queue := upd_where (\<lambda>x. aq_id x = aq_id q)
       (\<lambda>r. r\<lparr>aq_status := Active, aq_updatedAt := sql_datetime u\<rparr>) (agent_queue s1)\<rparr>"
    have "sorted_wrt (<) (map aq_id (agent_queue s1))" using o1 by (simp add: table_order_def)
    then have r2: "rows_in c Queued s2 = (if c = a then qs else rows_in c Queued s)"
      "rows_in c Active s2 = (if c = a then [q\<lparr>aq_status := Active, aq_updatedAt := sql_datetime u\<rparr>] else rows_in c Active s)" for c
      using rows_promoted [where s = s1 and a = a, OF _ _ _ s2_def, of qs c] Cons r1 by simp_all
    have "queue_inv t s2"
    proof (rule queue_invI)
      show "table_order t s2"
        using o1 unfolding s2_def by (intro order_update) auto
      show "length (rows_in c Active s2) \<le> 1 \<and> (rows_in c Active s2 = [] \<longrightarrow> rows_in c Queued s2 = [])" for c
        using inv_statuses [OF assms, of c] by (simp add: r2)
    qed
    then show ?thesis using Cons tls [of a] by (simp add: run s2_def [symmetric] held_def r2)
  qed
  then show "queue_inv t (snd (complete u a s))"
    "held (snd (complete u a s)) b = (if b = a then tl (held s b) else held s b)"
    "fst (complete u a s) = (case tl (held s a) of [] \<Rightarrow> None | r # _ \<Rightarrow> Some r)" by blast+
qed

lemma queue_inv_later: "queue_inv t s \<Longrightarrow> t \<le> t' \<Longrightarrow> t' < iso_max \<Longrightarrow> queue_inv t' s"
  using time_le [of t t'] unfolding queue_inv_def table_order_def by (meson order_trans)

interpretation agent_fifo: serial_queue
  "\<lambda>t r s. (fst (enqueue t r s) = Deliver, snd (enqueue t r s))" complete held rt_agentId "\<lambda>t. t < iso_max" queue_inv
  by unfold_locales (simp_all add: enqueue_held complete_held queue_inv_later)

subsection \<open>Coalescing\<close>

fun replace_first :: "'e RouteResult \<Rightarrow> 'e RouteResult list \<Rightarrow> 'e RouteResult list" where
  "replace_first r [] = []"
| "replace_first r (x # xs) = (if rt_sessionKey x = rt_sessionKey r then r # xs else x # replace_first r xs)"

text \<open>What coalescing promises: the active task is not disturbed, a waiting one is replaced in place.\<close>

definition coalesce_spec :: "'e RouteResult \<Rightarrow> 'e RouteResult list \<Rightarrow> queue_action \<times> 'e RouteResult list" where
  "coalesce_spec r xs = (case xs of
     [] \<Rightarrow> (Deliver, [r])
   | x # q \<Rightarrow>
       if rt_sessionKey x = rt_sessionKey r then (ActiveBusy, xs)
       else if rt_sessionKey r \<in> rt_sessionKey ` set q then (Coalesced, x # replace_first r q)
       else (QueuedUp, xs @ [r]))"

lemma keys_replace_first [simp]: "map rt_sessionKey (replace_first r xs) = map rt_sessionKey xs"
  by (induction xs) auto

lemma length_replace_first [simp]: "length (replace_first r xs) = length xs"
  by (induction xs) auto

lemma upd_replace_first:
  "sorted_wrt (<) (map aq_id rows) \<Longrightarrow>
   sel_one (\<lambda>x. P x \<and> rt_sessionKey (aq_payload x) = rt_sessionKey r) rows = Some e \<Longrightarrow>
   (\<And>x. P (f x) = P x) \<Longrightarrow> (\<And>x. aq_payload (f x) = r) \<Longrightarrow>
   map aq_payload (filter P (upd_where (\<lambda>x. aq_id x = aq_id e) f rows)) = replace_first r (map aq_payload (filter P rows))"
proof (induction rows)
  case (Cons x rows)
  have others: "upd_where (\<lambda>y. aq_id y = aq_id x) f rows = rows"
    using Cons.prems(1) by (auto simp: upd_where_def intro!: map_idI)
  show ?case
  proof (cases "P x \<and> rt_sessionKey (aq_payload x) = rt_sessionKey r")
    case True
    then have "e = x" using Cons.prems(2) by (simp add: sel_one_Cons)
    then show ?thesis using True Cons.prems(3,4) others by (simp add: upd_where_def)
  next
    case False
    then have e: "sel_one (\<lambda>x. P x \<and> rt_sessionKey (aq_payload x) = rt_sessionKey r) rows = Some e"
      using Cons.prems(2) by (auto simp: sel_one_Cons split: if_splits)
    then have "e \<in> set rows" by (auto dest: sel_one_SomeD)
    then have "aq_id x \<noteq> aq_id e" using Cons.prems(1) by auto
    then show ?thesis using False Cons e by (auto simp: upd_where_def)
  qed
qed simp

lemma coalesced_rows:
  assumes "sorted_wrt (<) (map aq_id (agent_queue s))"
    and "sel_one (\<lambda>x. in_status a Queued x \<and> rt_sessionKey (aq_payload x) = rt_sessionKey r) (agent_queue s) = Some e"
    and "s' = s\<lparr>agent_queue := upd_where (\<lambda>x. aq_id x = aq_id e) (\<lambda>x. x\<lparr>aq_payload := r, aq_updatedAt := u\<rparr>) (agent_queue s)\<rparr>"
  shows "map aq_payload (rows_in b Queued s') =
      (if b = a then replace_first r (map aq_payload (rows_in a Queued s)) else map aq_payload (rows_in b Queued s))"
    and "rows_in b Active s' = rows_in b Active s" "rows_in b Queued s' = [] \<longleftrightarrow> rows_in b Queued s = []"
proof -
  let ?f = "\<lambda>x. x\<lparr>aq_payload := r, aq_updatedAt := u\<rparr>"
  have e: "e \<in> set (agent_queue s)" "in_status a Queued e" using assms(2) by (auto dest: sel_one_SomeD)
  have f: "in_status c st (?f x) = in_status c st x" for c st x by (simp add: in_status_def)
  have other: "\<not> in_status b st e" if "b \<noteq> a \<or> st = Active" for st using e(2) that by (auto simp: in_status_def)
  show act: "rows_in b Active s' = rows_in b Active s"
    using upd_other [OF assms(1) e(1), of "in_status b Active" ?f] other [of Active] by (simp add: rows_in_def assms(3) f)
  show q: "map aq_payload (rows_in b Queued s') =
      (if b = a then replace_first r (map aq_payload (rows_in a Queued s)) else map aq_payload (rows_in b Queued s))"
  proof (cases "b = a")
    case True
    then show ?thesis using upd_replace_first [OF assms(1,2), of ?f] by (simp add: rows_in_def assms(3) f)
  next
    case False
    then show ?thesis using upd_other [OF assms(1) e(1), of "in_status b Queued" ?f] other [of Queued]
      by (simp add: rows_in_def assms(3) f)
  qed
  have "length (rows_in b Queued s') = length (rows_in b Queued s)"
    using arg_cong [OF q, of length] by (simp split: if_splits)
  then show "rows_in b Queued s' = [] \<longleftrightarrow> rows_in b Queued s = []" by (metis length_0_conv)
qed

lemma coalesce_held:
  assumes "queue_inv t s" "t \<le> t'" "t' < iso_max"
  shows "queue_inv t' (snd (enqueueOrCoalesce t' r s)) \<and>
    held (snd (enqueueOrCoalesce t' r s)) a = (if a = rt_agentId r then snd (coalesce_spec r (held s a)) else held s a) \<and>
    fst (enqueueOrCoalesce t' r s) = fst (coalesce_spec r (held s (rt_agentId r)))"
proof -
  let ?a = "rt_agentId r"
  let ?sel = "sel_one (\<lambda>x. in_status ?a Queued x \<and> rt_sessionKey (aq_payload x) = rt_sessionKey r) (agent_queue s)"
  have inv: "queue_inv t' s" by (rule queue_inv_later [OF assms])
  have none: "?sel = None \<longleftrightarrow> rt_sessionKey r \<notin> rt_sessionKey ` set (map aq_payload (rows_in ?a Queued s))"
    by (simp add: sel_one_None rows_in_def image_iff) metis
  consider (idle) "rows_in ?a Active s = []" | (busy) x where "rows_in ?a Active s = [x]"
    using inv_statuses [OF assms(1), of ?a] by (cases "rows_in ?a Active s") auto
  then show ?thesis
  proof cases
    case idle
    then have q: "rows_in ?a Queued s = []" using inv_statuses [OF assms(1)] by blast
    then have "?sel = None" using none by simp
    moreover have "sel_one (in_status ?a Active) (agent_queue s) = None" using active_iff idle by blast
    ultimately have run: "enqueueOrCoalesce t' r s = (Deliver, queue_insert r Active t' s)"
      by (simp add: enqueueOrCoalesce_def)
    have "enqueue t' r s = (Deliver, queue_insert r Active t' s)" by (simp add: enqueue_rows idle)
    then show ?thesis using enqueue_held(1,3) [OF assms, of r] enqueue_held(2) [OF assms, of r a] idle q unfolding run
      by (simp add: coalesce_spec_def held_def)
  next
    case (busy x)
    then have held: "held s ?a = aq_payload x # map aq_payload (rows_in ?a Queued s)" by (simp add: held_def)
    have act: "sel_one (in_status ?a Active) (agent_queue s) = Some x"
      using busy by (simp add: sel_one_def find_filter rows_in_def)
    show ?thesis
    proof (cases "rt_sessionKey (aq_payload x) = rt_sessionKey r")
      case True
      then show ?thesis using inv by (simp add: enqueueOrCoalesce_def act coalesce_spec_def held)
    next
      case False
      note key = False
      show ?thesis
      proof (cases ?sel)
        case None
        then have "enqueueOrCoalesce t' r s = enqueue t' r s"
          using key busy by (simp add: enqueueOrCoalesce_def act enqueue_rows)
        then show ?thesis using enqueue_held(1,3) [OF assms, of r] enqueue_held(2) [OF assms, of r a] None none key held
          by (simp add: coalesce_spec_def)
      next
        case (Some e)
        define s' where "s' = s\<lparr>agent_queue := upd_where (\<lambda>x. aq_id x = aq_id e)
           (\<lambda>x. x\<lparr>aq_payload := r, aq_updatedAt := sql_datetime t'\<rparr>) (agent_queue s)\<rparr>"
        have run: "enqueueOrCoalesce t' r s = (Coalesced, s')"
          using key Some by (simp add: enqueueOrCoalesce_def act s'_def)
        have "sorted_wrt (<) (map aq_id (agent_queue s))" using inv by (simp add: queue_inv_def table_order_def)
        note rows = coalesced_rows [OF this Some s'_def]
        have "table_order t' s'" using inv unfolding s'_def by (intro order_update) (auto simp: queue_inv_def)
        then have "queue_inv t' s'"
          by (rule queue_invI) (use inv_statuses [OF assms(1)] rows in auto)
        moreover have "held s' a = (if a = ?a then aq_payload x # replace_first r (map aq_payload (rows_in ?a Queued s)) else held s a)"
          using busy by (simp add: held_def rows)
        ultimately show ?thesis using Some none key by (simp add: run coalesce_spec_def held)
      qed
    qed
  qed
qed

subsection \<open>Properties\<close>

lemma waiting_held: "queue_inv t s \<Longrightarrow> getQueued a s = tl (held s a)"
proof -
  assume inv: "queue_inv t s"
  then have "created_order (rows_in a Queued s) = rows_in a Queued s"
    unfolding rows_in_def queue_inv_def by (blast intro: created_order_id)
  then show ?thesis using inv_statuses [OF inv, of a]
    by (cases "rows_in a Active s") (simp_all add: getQueued_def sel_all_def held_def rows_in_def [symmetric])
qed

text \<open>The hand-outs of a run of \<open>enqueue\<close> and \<open>complete\<close> at the given times, with the state after it.\<close>

fun queue_run :: "(nat \<times> (string, 'e RouteResult) queue_event) list \<Rightarrow> 'e AgentQueue \<Rightarrow>
    (string \<times> 'e RouteResult) list \<times> 'e AgentQueue" where
  "queue_run [] s = ([], s)"
| "queue_run ((t, Arrive r) # es) s =
     (let (action, s') = enqueue t r s; (ds, s2) = queue_run es s'
      in ((if action = Deliver then [(rt_agentId r, r)] else []) @ ds, s2))"
| "queue_run ((t, Finish a) # es) s =
     (let (next_task, s') = complete t a s; (ds, s2) = queue_run es s'
      in ((case next_task of None \<Rightarrow> [] | Some r \<Rightarrow> [(a, r)]) @ ds, s2))"

lemma queue_run_serves: "queue_run es s = agent_fifo.serve_all es s"
proof (induction es arbitrary: s)
  case (Cons e es)
  obtain t ev where e: "e = (t, ev)" by (cases e)
  show ?case unfolding e
    by (cases ev) (simp_all add: agent_fifo.serve_def split_beta Let_def Cons.IH split: option.split)
qed simp

lemma in_order_iff: "agent_fifo.in_order t es \<longleftrightarrow> sorted (t # map fst es) \<and> (\<forall>e \<in> set es. fst e < iso_max)"
proof (induction es arbitrary: t)
  case (Cons e es)
  then show ?case by (cases e) (auto intro: order_trans)
qed simp

lemma delivered_comprehension: "[r. (b, r) \<leftarrow> ds, b = a] = agent_fifo.delivered a ds"
  by (induction ds) (auto simp: agent_fifo.delivered_def)

lemma arrivals_comprehension: "[r. (_, Arrive r) \<leftarrow> es, rt_agentId r = a] = agent_fifo.arrivals a es"
  by (induction es) (auto simp: agent_fifo.arrivals_def split: queue_event.splits)

definition empty_queue :: "'e AgentQueue" where
  "empty_queue = \<lparr>agent_queue = [], queue_seq = 0\<rparr>"

lemma queue_inv_empty [simp]: "queue_inv 0 empty_queue"
  by (simp add: queue_inv_def table_order_def empty_queue_def rows_in_def iso_max_def)

lemma held_empty [simp]: "held empty_queue a = []"
  by (simp add: held_def empty_queue_def rows_in_def)


definition sample_route :: "string \<Rightarrow> string \<Rightarrow> nat \<Rightarrow> nat RouteResult" where
  "sample_route a k n = \<lparr>rt_agentId = a, rt_sessionKey = k, rt_rest = n\<rparr>"


text \<open>
  \<open>enqueueOrCoalesce\<close> implements its contract and keeps the queue well formed: an idle agent gets
  the task at once, an event for the ticket the agent works on is dropped as active-busy, one for a
  waiting ticket replaces that entry in place, any other waits at the end; no other agent's queue
  changes.
\<close>

theorem coalesce_refines_spec:
  assumes "queue_inv t s" and "t \<le> now" and "now < iso_max"
  shows "queue_inv now (snd (enqueueOrCoalesce now r s)) \<and>
    (fst (enqueueOrCoalesce now r s), held (snd (enqueueOrCoalesce now r s)) (rt_agentId r)) =
      coalesce_spec r (held s (rt_agentId r)) \<and>
    (\<forall>a. a \<noteq> rt_agentId r \<longrightarrow> held (snd (enqueueOrCoalesce now r s)) a = held s a)"
  using coalesce_held [OF assms, of r] by (simp add: prod_eq_iff)

theorem coalesce_refines_spec_witness:
  "let r = sample_route ''ada''; s = snd (enqueueOrCoalesce 1 (r ''K'' 1) empty_queue)
   in (fst (enqueueOrCoalesce 2 (r ''K'' 2) s), held (snd (enqueueOrCoalesce 2 (r ''K'' 2) s)) ''ada'') =
      (ActiveBusy, [r ''K'' 1])"
proof -
  let ?s = "snd (enqueueOrCoalesce 1 (sample_route ''ada'' ''K'' 1) empty_queue)"
  have b: "(1 :: nat) < iso_max" "(2 :: nat) < iso_max" by (simp_all add: iso_max_def)
  have s: "queue_inv 1 ?s" "held ?s ''ada'' = [sample_route ''ada'' ''K'' 1]"
    using coalesce_held [OF queue_inv_empty _ b(1), of "sample_route ''ada'' ''K'' 1" "''ada''"]
    by (simp_all add: coalesce_spec_def sample_route_def)
  show ?thesis
    using coalesce_refines_spec [OF s(1) _ b(2), of "sample_route ''ada'' ''K'' 2"] s(2)
    by (simp add: Let_def coalesce_spec_def sample_route_def)
qed

fun coalesce_run :: "(nat \<times> (string, 'e RouteResult) queue_event) list \<Rightarrow> 'e AgentQueue \<Rightarrow> 'e AgentQueue" where
  "coalesce_run [] s = s"
| "coalesce_run ((t, Arrive r) # es) s = coalesce_run es (snd (enqueueOrCoalesce t r s))"
| "coalesce_run ((t, Finish a) # es) s = coalesce_run es (snd (complete t a s))"

lemma coalesce_keys: "distinct (map rt_sessionKey xs) \<Longrightarrow> distinct (map rt_sessionKey (snd (coalesce_spec r xs)))"
  by (auto simp: coalesce_spec_def split: list.split)

lemma coalesce_run_keys:
  "queue_inv t s \<Longrightarrow> (\<forall>a. distinct (map rt_sessionKey (held s a))) \<Longrightarrow> sorted (t # map fst es) \<Longrightarrow>
   \<forall>e \<in> set es. fst e < iso_max \<Longrightarrow>
   (\<exists>t'. queue_inv t' (coalesce_run es s)) \<and> (\<forall>a. distinct (map rt_sessionKey (held (coalesce_run es s) a)))"
proof (induction es arbitrary: t s)
  case (Cons e es)
  obtain u ev where e: "e = (u, ev)" by (cases e)
  have u: "t \<le> u" "u < iso_max" "sorted (u # map fst es)" "\<forall>e \<in> set es. fst e < iso_max" using Cons.prems e by auto
  show ?case
  proof (cases ev)
    case (Arrive r)
    have "\<forall>a. distinct (map rt_sessionKey (held (snd (enqueueOrCoalesce u r s)) a))"
      using coalesce_held [OF Cons.prems(1) u(1,2), of r] Cons.prems(2) by (simp add: coalesce_keys)
    then show ?thesis
      using Cons.IH [OF _ _ u(3,4)] coalesce_held [OF Cons.prems(1) u(1,2), of r] by (simp add: e Arrive)
  next
    case (Finish a)
    have "\<forall>b. distinct (map rt_sessionKey (held (snd (complete u a s)) b))"
      using Cons.prems(2) by (simp add: complete_held [OF Cons.prems(1)] map_tl distinct_tl)
    then show ?thesis
      using Cons.IH [OF queue_inv_later [OF complete_held(1) [OF Cons.prems(1)] u(1,2)] _ u(3,4)] by (simp add: e Finish)
  qed
qed auto

text \<open>
  One entry per ticket: in any run of coalescing arrivals and completions each agent holds a
  ticket at most once, as its active task or as a waiting one, and a waiting task always sits
  behind an active one.
\<close>

theorem one_entry_per_ticket:
  assumes "sorted (map fst es)" and "\<forall>e \<in> set es. fst e < iso_max"
  shows "distinct (map rt_sessionKey (held (coalesce_run es empty_queue) a)) \<and>
    (getActive a (coalesce_run es empty_queue) = None \<longrightarrow> getQueued a (coalesce_run es empty_queue) = [])"
proof -
  have "sorted (0 # map fst es)" using assms(1) by simp
  from coalesce_run_keys [OF queue_inv_empty _ this assms(2)]
  obtain t where inv: "queue_inv t (coalesce_run es empty_queue)"
    and keys: "distinct (map rt_sessionKey (held (coalesce_run es empty_queue) a))" by auto
  have "getActive a s = None \<longleftrightarrow> rows_in a Active s = []" for s :: "'a AgentQueue"
    using active_iff [of a s] by (auto simp: getActive_def)
  then show ?thesis using keys waiting_held [OF inv, of a] held_Nil [OF inv, of a] by auto
qed

theorem one_entry_per_ticket_witness:
  "distinct (map rt_sessionKey (held (coalesce_run [(1, Arrive (sample_route ''ada'' ''K'' 1)), (1, Arrive (sample_route ''ada'' ''L'' 2)),
      (3, Arrive (sample_route ''ada'' ''L'' 3))] empty_queue) ''ada''))"
  using one_entry_per_ticket [of "[(1, Arrive (sample_route ''ada'' ''K'' 1)), (1, Arrive (sample_route ''ada'' ''L'' 2)),
      (3, Arrive (sample_route ''ada'' ''L'' 3))]" "''ada''"] by (simp add: iso_max_def)

lemma drain_agent_held:
  "queue_inv t s \<Longrightarrow> fst (drain_agent a clock i s) = tl (held s a) \<and> queue_inv t (snd (drain_agent a clock i s)) \<and>
     held (snd (drain_agent a clock i s)) b = (if b = a then [] else held s b)"
proof (induction a clock i s rule: drain_agent.induct)
  case (1 a clock i s)
  note c = complete_held [OF 1(2), where u = "clock i" and a = a]
  obtain res s' where run: "complete (clock i) a s = (res, s')" by (cases "complete (clock i) a s")
  show ?case
  proof (cases "tl (held s a)")
    case Nil
    then have "res = None" using c(3) run by simp
    then show ?thesis using c(1,2) run Nil by (subst (1 2 3) drain_agent.simps) simp
  next
    case (Cons x xs)
    then have res: "res = Some x" using c(3) run by simp
    have IH: "fst (drain_agent a clock (i + 1) s') = tl (held s' a)" "queue_inv t (snd (drain_agent a clock (i + 1) s'))"
      "held (snd (drain_agent a clock (i + 1) s')) b = (if b = a then [] else held s' b)"
      using 1(1) [OF run [symmetric] res] c(1) run by auto
    have "tl (held s' a) = xs" "b \<noteq> a \<Longrightarrow> held s' b = held s b" using c(2) run Cons by auto
    then show ?thesis using IH run res Cons
      by (subst (1 2 3) drain_agent.simps) (auto simp: split_beta Let_def)
  qed
qed

lemma backlog_iff: "queue_inv t s \<Longrightarrow> a \<in> set (agentsWithBacklog s) \<longleftrightarrow> held s a \<noteq> []"
proof -
  assume inv: "queue_inv t s"
  have "a \<in> set (agentsWithBacklog s) \<longleftrightarrow> rows_in a Active s \<noteq> [] \<or> rows_in a Queued s \<noteq> []"
    by (auto simp: agentsWithBacklog_def sel_all_def rows_in_def in_status_def filter_empty_conv)
  then show ?thesis by (auto simp: held_def)
qed

lemma no_backlog: "queue_inv t s \<Longrightarrow> (\<And>a. held s a = []) \<Longrightarrow> agentsWithBacklog s = []"
  using backlog_iff [of t s] by (metis list.set_intros(1) neq_Nil_conv)

lemma drain_fold:
  "queue_inv t s \<Longrightarrow> distinct as \<Longrightarrow>
   (case fold (\<lambda>a (out, s). let (rs, s') = drain_agent a (clock a) 0 s in (out @ [(a, rs)], s')) as (out, s) of
      (out', s') \<Rightarrow> out' = out @ map (\<lambda>a. (a, tl (held s a))) as \<and> queue_inv t s' \<and>
        (\<forall>b. held s' b = (if b \<in> set as then [] else held s b)))"
proof (induction as arbitrary: out s)
  case (Cons a as)
  define s' where "s' = snd (drain_agent a (clock a) 0 s)"
  have s': "drain_agent a (clock a) 0 s = (tl (held s a), s')" "queue_inv t s'" "held s' b = (if b = a then [] else held s b)" for b
    using drain_agent_held [OF Cons.prems(1), of a "clock a" 0] by (auto simp: s'_def prod_eq_iff)
  have "map (\<lambda>b. (b, tl (held s' b))) as = map (\<lambda>b. (b, tl (held s b))) as" using Cons.prems(2) s'(3) by auto
  then show ?case using Cons.IH [OF s'(2), of "out @ [(a, tl (held s a))]"] Cons.prems(2)
    by (auto simp: s' split: prod.splits)
qed simp

text \<open>
  C33: The startup drain ends and leaves no backlog: each agent with an active or waiting task gets its
  waiting tasks in order, once. The task an agent was working on when the process stopped is marked
  completed and is not delivered again.
\<close>

theorem startup_drain_delivers_the_waiting:
  assumes "queue_inv t s"
  shows "fst (drainBacklog clock s) = map (\<lambda>a. (a, getQueued a s)) (agentsWithBacklog s) \<and>
    agentsWithBacklog (snd (drainBacklog clock s)) = [] \<and>
    (\<forall>a r. getActive a s = Some r \<longrightarrow> (\<exists>rs. (a, rs) \<in> set (fst (drainBacklog clock s)) \<and> held s a = r # rs))"
proof -
  have run: "fst (drainBacklog clock s) = map (\<lambda>a. (a, tl (held s a))) (agentsWithBacklog s)"
    "queue_inv t (snd (drainBacklog clock s))"
    "\<forall>b. held (snd (drainBacklog clock s)) b = (if b \<in> set (agentsWithBacklog s) then [] else held s b)"
    using drain_fold [OF assms, where as = "agentsWithBacklog s" and clock = clock and out = "[]"]
    by (auto simp: drainBacklog_def agentsWithBacklog_def split: prod.splits)
  have "held (snd (drainBacklog clock s)) b = []" for b
    using run(3) backlog_iff [OF assms, of b] by (cases "held s b = []") auto
  then have "agentsWithBacklog (snd (drainBacklog clock s)) = []" by (rule no_backlog [OF run(2)])
  moreover have "\<exists>rs. (a, rs) \<in> set (fst (drainBacklog clock s)) \<and> held s a = r # rs" if "getActive a s = Some r" for a r
  proof -
    from that obtain x where "sel_one (in_status a Active) (agent_queue s) = Some x" "r = aq_payload x" by (auto simp: getActive_def)
    then have "\<exists>xs. rows_in a Active s = x # xs" by (auto simp: sel_one_def find_filter rows_in_def split: list.splits)
    then obtain rs where "held s a = r # rs" using \<open>r = aq_payload x\<close> by (auto simp: held_def)
    then show ?thesis using backlog_iff [OF assms, of a] by (auto simp: run(1))
  qed
  ultimately show ?thesis by (auto simp: run(1) waiting_held [OF assms])
qed

theorem startup_drain_delivers_the_waiting_witness:
  "let s = snd (enqueue 1 (sample_route ''ada'' ''K'' 1) empty_queue)
   in agentsWithBacklog (snd (drainBacklog (\<lambda>_ i. 5 + i) s)) = []"
proof -
  have b: "(1 :: nat) < iso_max" by (simp add: iso_max_def)
  show ?thesis
    using startup_drain_delivers_the_waiting [where clock = "\<lambda>_ i. 5 + i",
      OF enqueue_held(1) [OF queue_inv_empty _ b, of "sample_route ''ada'' ''K'' 1"]] by (simp add: Let_def)
qed

end
