(* ===== verification/Yaml.thy ===== *)
theory Yaml
  imports Complex_Main JsString JsMap
begin

text \<open>
  Values of a parsed YAML file, for the fields whose type the sources test at run time
  (\<open>typeof\<close>, \<open>Array.isArray\<close>, truthiness). An absent key reads as \<open>Undefined\<close>.
\<close>

datatype yaml =
    Undefined
  | Null
  | YBool bool
  | YNum rat
  | YNaN
  | Str string
  | Seq "yaml list"
  | Mapping "(string \<times> yaml) list"

definition yaml_get :: "string \<Rightarrow> yaml \<Rightarrow> yaml" where
  "yaml_get k v = (case v of Mapping m \<Rightarrow> (case map_of m k of None \<Rightarrow> Undefined | Some x \<Rightarrow> x) | _ \<Rightarrow> Undefined)"

text \<open>\<open>a ?? b\<close>\<close>

definition yaml_or :: "yaml \<Rightarrow> yaml \<Rightarrow> yaml" where
  "yaml_or a b = (if a = Undefined \<or> a = Null then b else a)"

text \<open>\<open>v !== null && typeof v === "object"\<close>\<close>

definition is_object :: "yaml \<Rightarrow> bool" where
  "is_object v = (case v of Seq _ \<Rightarrow> True | Mapping _ \<Rightarrow> True | _ \<Rightarrow> False)"

definition is_bool :: "yaml \<Rightarrow> bool" where
  "is_bool v = (case v of YBool _ \<Rightarrow> True | _ \<Rightarrow> False)"

text \<open>\<open>typeof v === "string" && v.trim() !== ""\<close>\<close>

definition nonblank :: "yaml \<Rightarrow> bool" where
  "nonblank v = (case v of Str s \<Rightarrow> trim s \<noteq> [] | _ \<Rightarrow> False)"

definition absent_or :: "(yaml \<Rightarrow> bool) \<Rightarrow> yaml \<Rightarrow> bool" where
  "absent_or P v = (v = Undefined \<or> P v)"

definition is_true :: "yaml \<Rightarrow> bool" where
  "is_true v = (v = YBool True)"

end
