(* ===== verification/CapabilityPolicy.thy ===== *)
theory CapabilityPolicy
  imports Yaml
begin

text \<open>
  \<open>src/escalation-gate.ts\<close>: who may do what. A body (an agent) is placed in a container, the container
  grants capabilities, a body fills roles. The policy is the parsed file; \<open>resolveBodiesForRole\<close>
  throws when a scoped role is asked for without a scope (\<open>Inl\<close>).
\<close>

subsection \<open>The policy\<close>

record PolicyBody =
  body_id :: string
  openclaw_agent :: "string option"
  body_container :: string
  openclaw_container :: "string option"
  fills_roles :: "string list"
  departments :: "string list option"
  teams :: "string list option"

record PolicyContainer =
  container_id :: string
  grants :: "string list"

record PolicyCapability =
  capability_id :: string
  cap_exclusive :: bool

record PolicyRole =
  role_id :: string
  requires :: "string list"
  role_exclusive :: bool
  synthetic :: bool
  no_body :: bool

record CapabilityPolicy =
  bodies :: "PolicyBody list"
  containers :: "PolicyContainer list"
  capabilities :: "PolicyCapability list option"
  roles :: "PolicyRole list option"

subsection \<open>Structural invariants\<close>

datatype policy_violation =
    UnknownContainer string string
  | ExclusiveRole string "string list"
  | ExclusiveCapability string "string list"

text \<open>\<open>new Map(containers.map(c => [c.id, c]))\<close>: of two containers with one id the last stays.\<close>

definition containerById :: "PolicyContainer list \<Rightarrow> (string, PolicyContainer) jsmap" where
  "containerById cs = fold (\<lambda>c m. map_set (container_id c) c m) cs []"

definition reaches :: "(string, PolicyContainer) jsmap \<Rightarrow> string \<Rightarrow> PolicyBody \<Rightarrow> bool" where
  "reaches byId capability b = (case map_get byId (body_container b) of None \<Rightarrow> False | Some c \<Rightarrow> capability \<in> set (grants c))"

definition validatePolicyInvariants :: "CapabilityPolicy \<Rightarrow> policy_violation list" where
  "validatePolicyInvariants p =
     (let byId = containerById (containers p)
      in [UnknownContainer (body_id b) (body_container b). b \<leftarrow> bodies p, \<not> map_has byId (body_container b)] @
         concat (map (\<lambda>r.
           let holders = map body_id [b \<leftarrow> bodies p. role_id r \<in> set (fills_roles b)]
           in if role_exclusive r \<and> length holders \<noteq> 1 then [ExclusiveRole (role_id r) holders] else [])
           (orElse (roles p) [])) @
         concat (map (\<lambda>c.
           let holders = map body_id [b \<leftarrow> bodies p. reaches byId (capability_id c) b]
           in if cap_exclusive c \<and> length holders \<noteq> 1 then [ExclusiveCapability (capability_id c) holders] else [])
           (orElse (capabilities p) [])))"

subsection \<open>Capabilities of a body\<close>

definition named :: "string \<Rightarrow> PolicyBody \<Rightarrow> bool" where
  "named bodyId b = (body_id b = bodyId \<or> openclaw_agent b = Some bodyId)"

definition resolveBodyCapabilities :: "CapabilityPolicy \<Rightarrow> string \<Rightarrow> string list" where
  "resolveBodyCapabilities p bodyId =
     (case List.find (named bodyId) (bodies p) of
        None \<Rightarrow> []
      | Some b \<Rightarrow>
          (case List.find (\<lambda>c. container_id c = body_container b) (containers p) of
             None \<Rightarrow> []
           | Some c \<Rightarrow> grants c))"

definition bodyHasCapability :: "CapabilityPolicy \<Rightarrow> string \<Rightarrow> string \<Rightarrow> bool" where
  "bodyHasCapability p bodyId capability = (capability \<in> set (resolveBodyCapabilities p bodyId))"

definition isBodyKnown :: "CapabilityPolicy \<Rightarrow> string \<Rightarrow> bool" where
  "isBodyKnown p bodyId = (\<exists>b \<in> set (bodies p). named bodyId b)"

subsection \<open>Bodies of a role\<close>

record RoleResolutionScope =
  sc_department :: "string option"
  sc_team :: "string option"

datatype role_error = ScopeRequired

definition concreteScopeValue :: "yaml \<Rightarrow> string option" where
  "concreteScopeValue v = (case v of Str s \<Rightarrow> if trim s \<noteq> [] then Some (trim s) else None | _ \<Rightarrow> None)"

definition has_scope :: "RoleResolutionScope option \<Rightarrow> bool" where
  "has_scope sc = (case sc of None \<Rightarrow> False | Some s \<Rightarrow> truthy (sc_department s) \<or> truthy (sc_team s))"

text \<open>\<open>declared\<close> and \<open>instantiated\<close> are the mappings \<open>department_scope\<close> and \<open>instantiation\<close> of a definition.\<close>

definition departmentHeadScopeForDef :: "yaml \<Rightarrow> yaml \<Rightarrow> RoleResolutionScope option" where
  "departmentHeadScopeForDef declared instantiated =
     (let scope = \<lparr>sc_department = concreteScopeValue (yaml_or (yaml_get ''department'' declared) (yaml_get ''department'' instantiated)),
                   sc_team = concreteScopeValue (yaml_or (yaml_get ''team'' declared) (yaml_get ''team'' instantiated))\<rparr>
      in if has_scope (Some scope) then Some scope else None)"

definition roleResolutionScopeForOwnerRole :: "string \<Rightarrow> yaml \<Rightarrow> yaml \<Rightarrow> RoleResolutionScope option" where
  "roleResolutionScopeForOwnerRole ownerRole declared instantiated =
     (if ownerRole = ''department-head'' then departmentHeadScopeForDef declared instantiated else None)"

definition bodyHasDepartmentScope :: "PolicyBody \<Rightarrow> bool" where
  "bodyHasDepartmentScope b = (orElse (departments b) [] \<noteq> [] \<or> orElse (teams b) [] \<noteq> [])"

definition bodyMatchesRoleScope :: "RoleResolutionScope \<Rightarrow> PolicyBody \<Rightarrow> bool" where
  "bodyMatchesRoleScope sc b =
     (let ds = orElse (departments b) []; ts = orElse (teams b) [] in
      (ds = [] \<or> truthy (sc_department sc) \<and> the (sc_department sc) \<in> set ds) \<and>
      (ts = [] \<or> truthy (sc_team sc) \<and> the (sc_team sc) \<in> set ts))"

definition resolveBodiesForRole ::
  "CapabilityPolicy \<Rightarrow> string \<Rightarrow> RoleResolutionScope option \<Rightarrow> role_error + string list" where
  "resolveBodiesForRole p roleId scope =
     (let candidates = [b \<leftarrow> bodies p. roleId \<in> set (fills_roles b)] in
      if roleId = ''department-head'' \<and> (\<exists>b \<in> set candidates. bodyHasDepartmentScope b) then
        if \<not> has_scope scope then Inl ScopeRequired
        else let scopedMatches = [b \<leftarrow> candidates. bodyHasDepartmentScope b \<and> bodyMatchesRoleScope (the scope) b]
             in if scopedMatches \<noteq> [] then Inr (map body_id scopedMatches)
                else Inr (map body_id [b \<leftarrow> candidates. \<not> bodyHasDepartmentScope b])
      else if has_scope scope then
        Inr (map body_id [b \<leftarrow> candidates. \<not> bodyHasDepartmentScope b \<or> bodyMatchesRoleScope (the scope) b])
      else Inr (map body_id candidates))"

definition resolveAgentIdentifiersForRole :: "CapabilityPolicy \<Rightarrow> string \<Rightarrow> string list" where
  "resolveAgentIdentifiersForRole p roleId =
     fold (\<lambda>b out. if roleId \<in> set (fills_roles b) then
         let out = set_add (toLowerCase (body_id b)) out
         in if truthy (openclaw_agent b) then set_add (toLowerCase (the (openclaw_agent b))) out else out
       else out) (bodies p) []"

definition isRoleDeclared :: "CapabilityPolicy \<Rightarrow> string \<Rightarrow> bool" where
  "isRoleDeclared p roleId = (\<exists>r \<in> set (orElse (roles p) []). role_id r = roleId)"

definition isSyntheticNoBodyRole :: "CapabilityPolicy \<Rightarrow> string \<Rightarrow> bool" where
  "isSyntheticNoBodyRole p roleId =
     (case List.find (\<lambda>r. role_id r = roleId) (orElse (roles p) []) of
        None \<Rightarrow> False | Some r \<Rightarrow> synthetic r \<and> no_body r)"

definition resolveBodiesWithCapability :: "CapabilityPolicy \<Rightarrow> string \<Rightarrow> string list" where
  "resolveBodiesWithCapability p capabilityId =
     (let ids = map container_id [c \<leftarrow> containers p. capabilityId \<in> set (grants c)]
      in map body_id [b \<leftarrow> bodies p. body_container b \<in> set ids])"

subsection \<open>The rule table\<close>

record EnforcementRule =
  rule_intent :: string
  requiredCapability :: string
  legalMove :: string

definition ENFORCEMENT_RULES :: "EnforcementRule list" where
  "ENFORCEMENT_RULES = [\<lparr>rule_intent = ''needs-human'', requiredCapability = ''human:escalate'',
     legalMove = ''escalate -> Ai (human gateway)''\<rparr>]"

definition isWorkflowTicket :: "string list \<Rightarrow> bool" where
  "isWorkflowTicket labels = (\<exists>l \<in> set labels. starts_ci ''wf:'' l)"

text \<open>The labels are what the ticket service answers for the issue, none when the query failed.\<close>

definition checkEnforcementRules ::
  "CapabilityPolicy \<Rightarrow> (string \<Rightarrow> string list) \<Rightarrow> string \<Rightarrow> string option \<Rightarrow> string \<Rightarrow> EnforcementRule option" where
  "checkEnforcementRules p fetchTicketLabels intent issueId bodyId =
     (case List.find (\<lambda>r. rule_intent r = intent) ENFORCEMENT_RULES of
        None \<Rightarrow> None
      | Some rule \<Rightarrow>
          if \<not> truthy issueId then None
          else if \<not> isWorkflowTicket (fetchTicketLabels (the issueId)) then None
          else if bodyHasCapability p bodyId (requiredCapability rule) then None
          else Some rule)"

subsection \<open>Properties\<close>

lemma containerById_get:
  "map_get (containerById cs) k = List.find (\<lambda>c. container_id c = k) (rev cs)"
proof -
  have "map_get (fold (\<lambda>c m. map_set (container_id c) c m) cs m) k =
      (case List.find (\<lambda>c. container_id c = k) (rev cs) of None \<Rightarrow> map_get m k | Some c \<Rightarrow> Some c)" for m
    by (induction cs arbitrary: m) (auto simp: find_append split: option.splits)
  from this [of "[]"] show ?thesis by (simp add: containerById_def split: option.splits)
qed

lemma find_unique:
  "distinct (map f cs) \<Longrightarrow> c \<in> set cs \<Longrightarrow> List.find (\<lambda>x. f x = f c) cs = Some c"
  by (induction cs) (auto simp: image_iff)

lemma containerById_distinct:
  assumes "distinct (map container_id cs)"
  shows "map_get (containerById cs) k = List.find (\<lambda>c. container_id c = k) cs"
proof (cases "\<exists>c \<in> set cs. container_id c = k")
  case True
  then obtain c where c: "c \<in> set cs" "container_id c = k" by blast
  then have "List.find (\<lambda>x. container_id x = k) (rev cs) = Some c" "List.find (\<lambda>x. container_id x = k) cs = Some c"
    using find_unique [of container_id "rev cs" c] find_unique [of container_id cs c] assms
    by (auto simp: rev_map [symmetric])
  then show ?thesis by (simp add: containerById_get)
next
  case False
  then have "List.find (\<lambda>c. container_id c = k) (rev cs) = None" "List.find (\<lambda>c. container_id c = k) cs = None"
    by (auto simp: find_None_iff)
  then show ?thesis by (simp add: containerById_get)
qed

lemma capability_of_container:
  "bodyHasCapability p x k \<longleftrightarrow> (\<exists>b. List.find (named x) (bodies p) = Some b \<and>
     (case List.find (\<lambda>c. container_id c = body_container b) (containers p) of None \<Rightarrow> False | Some c \<Rightarrow> k \<in> set (grants c)))"
proof (cases "List.find (named x) (bodies p)")
  case (Some b)
  then show ?thesis
    by (cases "List.find (\<lambda>c. container_id c = body_container b) (containers p)")
       (simp_all add: bodyHasCapability_def resolveBodyCapabilities_def)
qed (simp add: bodyHasCapability_def resolveBodyCapabilities_def)

lemma image_unique: "distinct (map f cs) \<Longrightarrow> k \<in> set cs \<Longrightarrow> f k \<in> set (map f (filter P cs)) \<longleftrightarrow> P k"
  by (auto simp: distinct_map dest: inj_onD)

lemma filter_one: "length (map f (filter P xs)) = 1 \<Longrightarrow> \<exists>x. filter P xs = [x] \<and> x \<in> set xs \<and> P x"
proof -
  assume "length (map f (filter P xs)) = 1"
  then obtain x where x: "filter P xs = [x]" by (auto simp: length_Suc_conv)
  then have "x \<in> set (filter P xs)" by (simp only: list.set_intros)
  then have "x \<in> set xs \<and> P x" by (simp only: set_filter mem_Collect_eq)
  with x show ?thesis by blast
qed

lemma exclusive_holders:
  "validatePolicyInvariants p = [] \<Longrightarrow> c \<in> set (orElse (capabilities p) []) \<Longrightarrow> cap_exclusive c \<Longrightarrow>
   length (map body_id (filter (reaches (containerById (containers p)) (capability_id c)) (bodies p))) = 1"
proof -
  let ?holders = "\<lambda>c. map body_id (filter (reaches (containerById (containers p)) (capability_id c)) (bodies p))"
  let ?g = "\<lambda>c. if cap_exclusive c \<and> length (?holders c) \<noteq> 1 then [ExclusiveCapability (capability_id c) (?holders c)] else []"
  assume "validatePolicyInvariants p = []"
  then have "concat (map ?g (orElse (capabilities p) [])) = []"
    unfolding validatePolicyInvariants_def Let_def by (simp only: append_is_Nil_conv)
  then have "?g c = []" if "c \<in> set (orElse (capabilities p) [])" for c
    using that by (simp only: concat_eq_Nil_conv set_map ball_simps image_iff)
  moreover assume c: "c \<in> set (orElse (capabilities p) [])" "cap_exclusive c"
  ultimately have "?g c = []" by blast
  then show "length (?holders c) = 1" using c(2) if_P [OF conjI [OF c(2)]] by (metis (no_types, lifting) list.distinct(1))
qed

text \<open>
  A policy without violations gives every exclusive capability to exactly one body: one listed
  body resolves to it, under its id and its runtime alias and under no other name, and it is the
  one that rejection messages name. (Container ids are unique; the loader does not check that, and
  it looks a duplicate up differently than the validator.)
\<close>

theorem exclusive_capability_has_one_holder:
  assumes "validatePolicyInvariants p = []" and "distinct (map container_id (containers p))"
    and "c \<in> set (orElse (capabilities p) [])" and "cap_exclusive c"
  shows "\<exists>b \<in> set (bodies p). resolveBodiesWithCapability p (capability_id c) = [body_id b] \<and>
    (\<forall>x. bodyHasCapability p x (capability_id c) \<longleftrightarrow> List.find (named x) (bodies p) = Some b)"
proof -
  let ?has = "reaches (containerById (containers p)) (capability_id c)"
  have "length (map body_id (filter ?has (bodies p))) = 1" by (rule exclusive_holders [OF assms(1,3,4)])
  then obtain b where b: "filter ?has (bodies p) = [b]" "b \<in> set (bodies p)" "?has b"
    using filter_one by blast
  have iff: "?has b' \<longleftrightarrow> body_container b' \<in> set (map container_id [k \<leftarrow> containers p. capability_id c \<in> set (grants k)])" for b'
  proof (cases "List.find (\<lambda>k. container_id k = body_container b') (containers p)")
    case None
    then have "body_container b' \<notin> container_id ` set (containers p)" by (auto simp: find_None_iff)
    then show ?thesis using None by (auto simp: reaches_def containerById_distinct [OF assms(2)])
  next
    case (Some k)
    then have k: "k \<in> set (containers p)" "container_id k = body_container b'" by (auto dest: find_SomeD)
    have "body_container b' \<in> set (map container_id [k \<leftarrow> containers p. capability_id c \<in> set (grants k)]) \<longleftrightarrow>
        capability_id c \<in> set (grants k)"
      using image_unique [OF assms(2) k(1)] unfolding k(2) .
    then show ?thesis using Some by (simp only: reaches_def containerById_distinct [OF assms(2)] option.case)
  qed
  have "resolveBodiesWithCapability p (capability_id c) = map body_id (filter ?has (bodies p))"
    unfolding resolveBodiesWithCapability_def Let_def iff ..
  moreover have "bodyHasCapability p x (capability_id c) \<longleftrightarrow> List.find (named x) (bodies p) = Some b" for x
  proof -
    have "bodyHasCapability p x (capability_id c) \<longleftrightarrow> (\<exists>b'. List.find (named x) (bodies p) = Some b' \<and> ?has b')"
      by (simp add: capability_of_container reaches_def containerById_distinct [OF assms(2)])
    moreover have "?has b' \<longleftrightarrow> b' = b" if "List.find (named x) (bodies p) = Some b'" for b'
    proof -
      have "b' \<in> set (bodies p)" using that find_SomeD by fast
      then have "?has b' \<longleftrightarrow> b' \<in> set (filter ?has (bodies p))" by simp
      then show ?thesis unfolding b(1) by simp
    qed
    ultimately show ?thesis by auto
  qed
  ultimately show ?thesis using b by auto
qed

definition sample_policy :: CapabilityPolicy where
  "sample_policy = \<lparr>
     bodies = [\<lparr>body_id = ''hanzo'', openclaw_agent = Some ''deployer'', body_container = ''deployment'', openclaw_container = None,
                fills_roles = [''merge''], departments = None, teams = None\<rparr>,
               \<lparr>body_id = ''ai'', openclaw_agent = Some ''main'', body_container = ''gateway'', openclaw_container = None,
                fills_roles = [''dev''], departments = None, teams = None\<rparr>],
     containers = [\<lparr>container_id = ''deployment'', grants = [''deploy:execute'']\<rparr>, \<lparr>container_id = ''gateway'', grants = [''human:escalate'']\<rparr>],
     capabilities = Some [\<lparr>capability_id = ''human:escalate'', cap_exclusive = True\<rparr>],
     roles = None\<rparr>"

theorem exclusive_capability_has_one_holder_witness:
  "\<exists>b \<in> set (bodies sample_policy). resolveBodiesWithCapability sample_policy ''human:escalate'' = [body_id b]"
proof -
  have "validatePolicyInvariants sample_policy = []" "distinct (map container_id (containers sample_policy))"
    by code_simp+
  from exclusive_capability_has_one_holder [OF this, of "\<lparr>capability_id = ''human:escalate'', cap_exclusive = True\<rparr>"]
  show ?thesis by (auto simp: sample_policy_def)
qed

end
