(* ===== verification/WorkflowDef.thy ===== *)
theory WorkflowDef
  imports Yaml IsoTime
begin

text \<open>
  The data of \<open>src/workflow-gate.ts\<close>: a workflow definition with its states and transitions, the
  readers of a ticket's labels, and the checks a definition must pass to be activated. Definitions
  are parsed files: an absent optional field is \<open>None\<close>, an absent flag is false, and the fields whose
  type the checks test are \<open>yaml\<close> values. Error texts are constructors carrying their arguments.
\<close>

subsection \<open>Definitions\<close>

record Assign =
  a_mode :: "string option"
  a_constraint :: "string option"
  a_default :: "string option"
  a_selection_criteria :: "string option"

record WorkflowTransition =
  t_command :: "string option"
  t_to :: "string option"
  t_requires_capability :: "string option"
  t_requires_capability_statement :: bool
  t_requires_demonstration_walk :: bool
  t_designated_approver :: bool
  t_requires_artifact :: bool
  t_feedback_required :: bool
  t_assign :: "Assign option"
  t_requires_human_signoff :: bool
  t_requires_deploy_probe :: bool
  t_requires_comment :: bool
  t_requires_children_terminal :: bool
  t_requires_implementation_child :: bool
  t_capture_ac :: bool
  t_generic :: "string option"

record WorkflowState =
  s_id :: string
  s_owner_role :: "string option"
  s_owner_binding :: "string option"
  s_kind :: "string option"
  s_commitment_gate :: "(string \<times> string option) list option"
  s_fanout :: yaml
  s_barrier :: yaml
  s_barrier_scope :: "string option"
  s_native_state :: "string option"
  s_sla :: "string option"
  s_noActivityTimeout :: "int option"
  s_transitions :: "WorkflowTransition list"

record StakesLevel =
  levels :: "(string \<times> int) list"
  threshold :: int

record BreakGlass =
  bg_command :: string
  bg_to :: "string option"
  bg_owner_role :: "string option"

record WorkflowDef =
  d_id :: string
  d_version :: "nat option"
  d_entry_state :: "string option"
  d_department_scope :: yaml
  d_instantiation :: yaml
  d_break_glass :: "BreakGlass option"
  d_stakes :: "StakesLevel option"
  d_states :: "WorkflowState list"

definition stateNodeById :: "WorkflowDef \<Rightarrow> string option \<Rightarrow> WorkflowState option" where
  "stateNodeById def i = (case i of None \<Rightarrow> None | Some x \<Rightarrow> List.find (\<lambda>s. s_id s = x) (d_states def))"

subsection \<open>Labels of a ticket\<close>

definition label_value :: "string \<Rightarrow> string" where
  "label_value l = toLowerCase (slice_colon l)"

definition getWorkflowId :: "string list \<Rightarrow> string option" where
  "getWorkflowId labels = map_option label_value (List.find (starts_ci ''wf:'') labels)"

definition state_rank :: "WorkflowDef \<Rightarrow> string \<Rightarrow> int" where
  "state_rank def i = (case find_index_from 0 (\<lambda>s. s_id s = i) (d_states def) of None \<Rightarrow> - 1 | Some n \<Rightarrow> int n)"

definition getCurrentState :: "string list \<Rightarrow> WorkflowDef option \<Rightarrow> string option" where
  "getCurrentState labels def =
     (case map label_value (filter (starts_ci ''state:'') labels) of
        [] \<Rightarrow> None
      | i # ids \<Rightarrow>
          (case def of
             None \<Rightarrow> Some i
           | Some d \<Rightarrow>
               if ids = [] then Some i
               else Some (fst (fold (\<lambda>x (best, bestRank). if bestRank < state_rank d x then (x, state_rank d x) else (best, bestRank))
                      (i # ids) (i, - 1)))))"

definition resolveStakesLevel :: "string list \<Rightarrow> StakesLevel \<Rightarrow> int" where
  "resolveStakesLevel labels cfg =
     (case List.find (\<lambda>l. map_of (levels cfg) l \<noteq> None) labels of
        None \<Rightarrow> 0
      | Some l \<Rightarrow> if l = [] then 0 else the (map_of (levels cfg) l))"

subsection \<open>Load-time checks\<close>

datatype def_error =
    NoNativeState string
  | UnknownNativeState string string
  | MissingAnchor string
  | DanglingTarget string "string option" string
  | GateExits string
  | GateNoTarget string string
  | GateNoTransition string string "string option"
  | FanoutNotObject string
  | FanoutField string string
  | FanoutUnknownField string string
  | BarrierNotBoolean string
  | FanoutCollision "string list" string string

definition SEMANTIC_STATE_MAP :: "(string \<times> string list) list" where
  "SEMANTIC_STATE_MAP =
     [(''backlog'', [''Backlog'']), (''todo'', [''Todo'', ''To Do'', ''To Develop'']),
      (''thinking'', [''Thinking'', ''In Progress'']), (''doing'', [''Doing'', ''In Progress'', ''Developing'']),
      (''managing'', [''Managing'']), (''done'', [''Done'']), (''invalid'', [''Invalid'', ''Canceled'', ''Cancelled''])]"

definition validateNativeStateMappings :: "WorkflowDef \<Rightarrow> def_error list" where
  "validateNativeStateMappings def = concat (map (\<lambda>s.
     if \<not> truthy (s_native_state s) then [NoNativeState (s_id s)]
     else if the (s_native_state s) \<notin> fst ` set SEMANTIC_STATE_MAP then [UnknownNativeState (s_id s) (the (s_native_state s))]
     else []) (d_states def))"

definition validateGateAnchorDefs :: "WorkflowDef \<Rightarrow> def_error list" where
  "validateGateAnchorDefs def =
     (if d_id def \<noteq> ''dev-impl'' then []
      else if orElse (d_version def) 0 < 10 then []
      else let stateIds = map s_id (d_states def) in
        (if ''merge'' \<notin> set stateIds then [MissingAnchor ''merge''] else []) @
        (if ''deploy'' \<notin> set stateIds then [MissingAnchor ''deploy''] else []))"

definition validateTransitionTargets :: "WorkflowDef \<Rightarrow> def_error list" where
  "validateTransitionTargets def =
     (let stateIds = map s_id (d_states def) in
      concat (map (\<lambda>s. concat (map (\<lambda>t.
        case t_to t of
          None \<Rightarrow> []
        | Some to \<Rightarrow>
            if starts_with ''__'' to then []
            else if to \<notin> set stateIds then [DanglingTarget (s_id s) (t_command t) to]
            else []) (s_transitions s))) (d_states def)))"

definition REQUIRED_COMMITMENT_EXITS :: "string list" where
  "REQUIRED_COMMITMENT_EXITS = [''accept'', ''reject'', ''not-ready'']"

definition exit_errors :: "WorkflowState \<Rightarrow> (string \<times> string option) list \<Rightarrow> string \<Rightarrow> def_error list" where
  "exit_errors s exits e =
     (let target = (case map_of exits e of None \<Rightarrow> None | Some x \<Rightarrow> x) in
      (if \<not> truthy target then [GateNoTarget (s_id s) e] else []) @
      (if \<not> (\<exists>t \<in> set (s_transitions s). t_command t = Some e \<and> t_to t = target) then [GateNoTransition (s_id s) e target] else []))"

text \<open>The keys of a parsed mapping are distinct.\<close>

definition validateCommitmentGate :: "WorkflowDef \<Rightarrow> def_error list" where
  "validateCommitmentGate def = concat (map (\<lambda>s.
     case s_commitment_gate s of
       None \<Rightarrow> if s_id s = ''investigation'' then [GateExits (s_id s)] else []
     | Some exits \<Rightarrow>
         if sort (map fst exits) \<noteq> sort REQUIRED_COMMITMENT_EXITS then [GateExits (s_id s)]
         else concat (map (exit_errors s exits) REQUIRED_COMMITMENT_EXITS)) (d_states def))"

definition commitmentExitFor :: "WorkflowState \<Rightarrow> string \<Rightarrow> (string \<times> string) option" where
  "commitmentExitFor s intent =
     (case s_commitment_gate s of
        None \<Rightarrow> None
      | Some exits \<Rightarrow>
          (case map_of exits intent of
             Some (Some to) \<Rightarrow> if to \<noteq> [] then Some (intent, to) else None
           | _ \<Rightarrow> None))"

subsection \<open>Fan-out blocks\<close>

text \<open>\<open>/^wf:.+/\<close>\<close>

definition is_wf_label :: "yaml \<Rightarrow> bool" where
  "is_wf_label v = (case v of Str s \<Rightarrow> starts_with ''wf:'' s \<and>
       (case drop 3 s of [] \<Rightarrow> False | c # _ \<Rightarrow> (of_char c :: nat) \<noteq> 10 \<and> (of_char c :: nat) \<noteq> 13)
     | _ \<Rightarrow> False)"

text \<open>\<open>String(v)\<close>; how a number prints is the argument \<open>num\<close>.\<close>

fun js_String :: "(rat \<Rightarrow> string) \<Rightarrow> yaml \<Rightarrow> string" where
  "js_String num Undefined = ''undefined''"
| "js_String num Null = ''null''"
| "js_String num (YBool b) = (if b then ''true'' else ''false'')"
| "js_String num (YNum r) = num r"
| "js_String num YNaN = ''NaN''"
| "js_String num (Str s) = s"
| "js_String num (Seq vs) = joined (map (\<lambda>v. if v = Undefined \<or> v = Null then [] else js_String num v) vs)"
| "js_String num (Mapping _) = ''[object Object]''"

definition share_ok :: "yaml \<Rightarrow> bool" where
  "share_ok v = (case v of YNum r \<Rightarrow> 0 \<le> r \<and> r \<le> 1 | YNaN \<Rightarrow> True | _ \<Rightarrow> False)"

definition is_str :: "yaml \<Rightarrow> bool" where
  "is_str v = (case v of Str _ \<Rightarrow> True | _ \<Rightarrow> False)"

definition object_keys :: "yaml \<Rightarrow> string list" where
  "object_keys v = (case v of Mapping m \<Rightarrow> map fst m | Seq vs \<Rightarrow> map dec_text [0..<length vs] | _ \<Rightarrow> [])"

definition field_errors :: "string \<Rightarrow> (bool \<times> string) list \<Rightarrow> def_error list" where
  "field_errors s checks = map (\<lambda>(_, f). FanoutField s f) (filter (\<lambda>c. \<not> fst c) checks)"

definition integration_verify_errors :: "string \<Rightarrow> yaml \<Rightarrow> def_error list" where
  "integration_verify_errors s iv =
     (if iv = Undefined then []
      else if \<not> is_object iv then [FanoutField s ''integration_verify'']
      else field_errors s
        [(is_wf_label (yaml_get ''child_workflow'' iv), ''integration_verify.child_workflow''),
         (is_true (yaml_get ''per_capability'' iv), ''integration_verify.per_capability''),
         (yaml_get ''blocked_by'' iv = Str ''capability-components'', ''integration_verify.blocked_by'')])"

definition spawn_if_errors :: "string \<Rightarrow> yaml \<Rightarrow> def_error list" where
  "spawn_if_errors s si =
     (if si = Undefined then []
      else if \<not> is_object si then [FanoutField s ''spawn_if'']
      else field_errors s
        [(nonblank (yaml_get ''label_present'' si), ''spawn_if.label_present''),
         (absent_or (\<lambda>v. v = Str ''closed_children'') (yaml_get ''scope'' si), ''spawn_if.scope'')] @
        map (FanoutUnknownField s) (filter (\<lambda>k. k \<notin> {''label_present'', ''scope''}) (object_keys si)))"

definition fanout_block_errors :: "string \<Rightarrow> yaml \<Rightarrow> def_error list" where
  "fanout_block_errors s cfg =
     field_errors s
       [(nonblank (yaml_get ''spec_source'' cfg), ''spec_source''),
        (is_wf_label (yaml_get ''child_workflow'' cfg), ''child_workflow''),
        (absent_or is_str (yaml_get ''initial_delegate'' cfg), ''initial_delegate''),
        (absent_or nonblank (yaml_get ''auto_derive_from'' cfg), ''auto_derive_from''),
        (absent_or is_bool (yaml_get ''block_siblings'' cfg), ''block_siblings''),
        (absent_or is_bool (yaml_get ''classification_required'' cfg), ''classification_required''),
        (absent_or nonblank (yaml_get ''classification_field'' cfg), ''classification_field''),
        (absent_or (\<lambda>v. case v of Seq vs \<Rightarrow> list_all nonblank vs | _ \<Rightarrow> False) (yaml_get ''allowed_classifications'' cfg),
           ''allowed_classifications''),
        (absent_or share_ok (yaml_get ''standalone_share_nudge_above'' cfg), ''standalone_share_nudge_above'')] @
     integration_verify_errors s (yaml_get ''integration_verify'' cfg) @
     spawn_if_errors s (yaml_get ''spawn_if'' cfg)"

definition state_fanout_errors :: "WorkflowState \<Rightarrow> def_error list" where
  "state_fanout_errors s =
     (if s_fanout s = Undefined then []
      else if \<not> is_object (s_fanout s) then [FanoutNotObject (s_id s)]
      else fanout_block_errors (s_id s) (s_fanout s)) @
     (if absent_or is_bool (s_barrier s) then [] else [BarrierNotBoolean (s_id s)])"

text \<open>The pair a fan-out is told apart by, when its \<open>spec_source\<close> is usable.\<close>

definition fanout_key :: "(rat \<Rightarrow> string) \<Rightarrow> WorkflowState \<Rightarrow> (string \<times> string) option" where
  "fanout_key num s =
     (case yaml_get ''spec_source'' (s_fanout s) of
        Str src \<Rightarrow> if trim src = [] then None
          else Some (toLowerCase (trim src), js_String num (yaml_get ''child_workflow'' (s_fanout s)))
      | _ \<Rightarrow> None)"

definition group_fanouts ::
  "(rat \<Rightarrow> string) \<Rightarrow> WorkflowState list \<Rightarrow> (string \<times> string, string list) jsmap" where
  "group_fanouts num states = fold (\<lambda>s m. case fanout_key num s of
       None \<Rightarrow> m
     | Some k \<Rightarrow> map_set k (orElse (map_get m k) [] @ [s_id s]) m) states []"

definition validateFanoutBarrierConfig :: "(rat \<Rightarrow> string) \<Rightarrow> WorkflowDef \<Rightarrow> def_error list" where
  "validateFanoutBarrierConfig num def =
     concat (map state_fanout_errors (d_states def)) @
     concat (map (\<lambda>((src, child), ids). if 1 < length ids then [FanoutCollision ids src child] else [])
       (group_fanouts num (d_states def)))"

subsection \<open>What an activated definition guarantees\<close>

lemma concat_map_Nil: "concat (map f xs) = [] \<longleftrightarrow> (\<forall>x \<in> set xs. f x = [])"
  by auto

lemma group_lengths:
  "length (orElse (map_get (fold (\<lambda>s m. case fanout_key num s of None \<Rightarrow> m
      | Some k \<Rightarrow> map_set k (orElse (map_get m k) [] @ [s_id s]) m) states m) k) []) =
   length (orElse (map_get m k) []) + count_list (List.map_filter (fanout_key num) states) k"
  by (induction states arbitrary: m) (auto simp: map_filter_simps split: option.split)

lemma group_ok: "map_ok m \<Longrightarrow> map_ok (fold (\<lambda>s m. case fanout_key num s of None \<Rightarrow> m
      | Some k \<Rightarrow> map_set k (orElse (map_get m k) [] @ [s_id s]) m) states m)"
  by (induction states arbitrary: m) (auto split: option.split)

lemma distinct_count: "(\<And>x. count_list xs x \<le> 1) \<Longrightarrow> distinct xs"
proof (induction xs)
  case (Cons x xs)
  have "count_list xs x = 0" using Cons.prems [of x] by simp
  moreover have "count_list xs y \<le> 1" for y using Cons.prems [of y] by (auto split: if_splits)
  ultimately show ?case using Cons.IH by (auto simp: count_list_0_iff)
qed simp

text \<open>
  An activated definition fans out unambiguously: when the fan-out check reports nothing, no two
  states share the pair of section and child workflow by which the engine tells spawned children
  apart (the section compared without case and outer blanks), and every fan-out spawns workflow
  tickets only, from a named section.
\<close>

theorem fanouts_told_apart:
  assumes "validateFanoutBarrierConfig num d = []"
  shows "distinct (List.map_filter (fanout_key num) (d_states d)) \<and>
    (\<forall>s \<in> set (d_states d). s_fanout s \<noteq> Undefined \<longrightarrow>
       (\<exists>child. yaml_get ''child_workflow'' (s_fanout s) = Str child \<and> starts_with ''wf:'' child) \<and>
       (\<exists>k. fanout_key num s = Some k))"
proof (intro conjI ballI impI)
  let ?g = "group_fanouts num (d_states d)"
  have errs: "concat (map state_fanout_errors (d_states d)) = []"
    "concat (map (\<lambda>((src, child), ids). if 1 < length ids then [FanoutCollision ids src child] else []) ?g) = []"
    using assms by (simp_all only: validateFanoutBarrierConfig_def append_is_Nil_conv)
  have "map_ok ?g" unfolding group_fanouts_def by (rule group_ok) simp
  have "length (orElse (map_get ?g k) []) \<le> 1" for k
  proof (cases "map_get ?g k")
    case (Some ids)
    then have mem: "(k, ids) \<in> set ?g" using get_mem [OF \<open>map_ok ?g\<close>] by simp
    have all: "\<forall>x \<in> set ?g. (\<lambda>((src, child), ids). if 1 < length ids then [FanoutCollision ids src child] else []) x = []"
      using errs(2) unfolding concat_map_Nil .
    have "\<not> 1 < length ids" using bspec [OF all mem] by (cases k) (simp split: if_splits)
    then show ?thesis using Some by simp
  qed simp
  then show "distinct (List.map_filter (fanout_key num) (d_states d))"
    by (intro distinct_count) (simp add: group_fanouts_def group_lengths)
  fix s assume s: "s \<in> set (d_states d)" "s_fanout s \<noteq> Undefined"
  have "state_fanout_errors s = []" using errs(1) s(1) unfolding concat_map_Nil by blast
  then have "fanout_block_errors (s_id s) (s_fanout s) = []"
    using s(2) by (auto simp: state_fanout_errors_def split: if_splits)
  then have f: "nonblank (yaml_get ''spec_source'' (s_fanout s))" "is_wf_label (yaml_get ''child_workflow'' (s_fanout s))"
    by (auto simp: fanout_block_errors_def field_errors_def split: if_splits)
  show "\<exists>child. yaml_get ''child_workflow'' (s_fanout s) = Str child \<and> starts_with ''wf:'' child"
    using f(2) by (auto simp: is_wf_label_def split: yaml.splits)
  show "\<exists>k. fanout_key num s = Some k"
    using f(1) by (auto simp: nonblank_def fanout_key_def split: yaml.splits)
qed

definition sample_state :: "string \<Rightarrow> WorkflowState" where
  "sample_state i = \<lparr>s_id = i, s_owner_role = None, s_owner_binding = None, s_kind = None, s_commitment_gate = None,
     s_fanout = Undefined, s_barrier = Undefined, s_barrier_scope = None, s_native_state = None, s_sla = None,
     s_noActivityTimeout = None, s_transitions = []\<rparr>"

definition sample_def :: "WorkflowState list \<Rightarrow> WorkflowDef" where
  "sample_def states = \<lparr>d_id = ''task'', d_version = None, d_entry_state = None, d_department_scope = Undefined,
     d_instantiation = Undefined, d_break_glass = None, d_stakes = None, d_states = states\<rparr>"

theorem fanouts_told_apart_witness:
  "\<exists>child. yaml_get ''child_workflow'' (Mapping [(''spec_source'', Str ''findings''), (''child_workflow'', Str ''wf:dev-impl'')]) = Str child \<and>
     starts_with ''wf:'' child"
proof -
  let ?s = "sample_state ''arming'' \<lparr>s_fanout := Mapping [(''spec_source'', Str ''findings''), (''child_workflow'', Str ''wf:dev-impl'')]\<rparr>"
  have "validateFanoutBarrierConfig (\<lambda>_. []) (sample_def [?s]) = []" by code_simp
  from fanouts_told_apart [OF this] show ?thesis by (auto simp: sample_def_def sample_state_def)
qed

end
