(* ===== verification/RoutineVerbs.thy ===== *)
theory RoutineVerbs
  imports WorkflowDef
begin

text \<open>
  The routine-verb resolver of \<open>src/workflow-gate.ts\<close>: every transition of a state is a special hatch,
  a send-back or a step forward; \<open>continue-workflow\<close> and \<open>request-revision\<close> resolve to the one edge
  they stand for. The rank of a state is found by the work list of \<open>buildStateRank\<close>. A target that
  is absent is the key \<open>None\<close> of the rank map.
\<close>

subsection \<open>Special transitions and terminal states\<close>

definition SPECIAL_ROUTINE_COMMANDS :: "string list" where
  "SPECIAL_ROUTINE_COMMANDS =
     [''handoff'', ''force-deploy'', ''reseat-merge'', ''wait'', ''waive'', ''park'', ''hold'', ''demote'', ''retire'',
      ''cancel'', ''abandon'', ''escalate'', ''needs-human'', ''start-cycle'']"

definition TERMINAL_NATIVE_STATES :: "string list" where
  "TERMINAL_NATIVE_STATES = [''done'', ''invalid'', ''cancelled'', ''canceled'', ''rejected'']"

definition ABORT_NATIVE_STATES :: "string list" where
  "ABORT_NATIVE_STATES = [''invalid'', ''cancelled'', ''canceled'', ''rejected'']"

definition native_in :: "string list \<Rightarrow> WorkflowState \<Rightarrow> bool" where
  "native_in xs s = (case s_native_state s of None \<Rightarrow> False | Some n \<Rightarrow> n \<in> set xs)"

definition isTerminalStateId :: "WorkflowDef \<Rightarrow> string option \<Rightarrow> bool" where
  "isTerminalStateId def i =
     (case stateNodeById def i of
        None \<Rightarrow> False
      | Some s \<Rightarrow> s_kind s = Some ''terminal'' \<or> native_in TERMINAL_NATIVE_STATES s)"

definition isAbortDestination :: "WorkflowDef \<Rightarrow> string option \<Rightarrow> bool" where
  "isAbortDestination def i = (case stateNodeById def i of None \<Rightarrow> False | Some s \<Rightarrow> native_in ABORT_NATIVE_STATES s)"

definition isSpecialTransition :: "WorkflowDef \<Rightarrow> string \<Rightarrow> WorkflowTransition \<Rightarrow> bool" where
  "isSpecialTransition def stateId t =
     (case t_command t of
        None \<Rightarrow> False
      | Some c \<Rightarrow>
          (case d_break_glass def of None \<Rightarrow> False | Some bg \<Rightarrow> bg_command bg \<noteq> [] \<and> c = bg_command bg) \<or>
          c \<in> set SPECIAL_ROUTINE_COMMANDS \<or>
          c = ''handoff'' \<or> starts_with ''handoff-'' c \<or>
          t_designated_approver t \<or>
          (case t_to t of None \<Rightarrow> False | Some to \<Rightarrow> starts_with ''__'' to) \<or>
          t_to t = Some stateId \<or>
          isAbortDestination def (t_to t))"

subsection \<open>Ranks\<close>

definition forward_targets :: "WorkflowDef \<Rightarrow> WorkflowState \<Rightarrow> string option list" where
  "forward_targets def s =
     map t_to [t \<leftarrow> s_transitions s. \<not> isSpecialTransition def (s_id s) t \<and> t_generic t \<noteq> Some ''revision'']"

definition forward_adj :: "WorkflowDef \<Rightarrow> (string, string option list) jsmap" where
  "forward_adj def = fold (\<lambda>s m. map_set (s_id s) (forward_targets def s) m) (d_states def) []"

definition succs :: "(string, string option list) jsmap \<Rightarrow> string option \<Rightarrow> string option list" where
  "succs adj i = (case i of None \<Rightarrow> [] | Some x \<Rightarrow> orElse (map_get adj x) [])"

type_synonym rank_map = "(string option, nat) jsmap"

definition settled :: "rank_map \<Rightarrow> string option \<Rightarrow> nat \<Rightarrow> bool" where
  "settled rank i r = (case map_get rank i of None \<Rightarrow> False | Some cur \<Rightarrow> cur \<le> r)"

text \<open>
  The loop ends although it may visit a state again: a visit either ranks a state for the first
  time, of the finitely many that are queued or are targets, or lowers a rank, or shortens the queue.
\<close>

definition unranked :: "(string, string option list) jsmap \<Rightarrow> (string option \<times> nat) list \<Rightarrow> rank_map \<Rightarrow> string option set" where
  "unranked adj queue rank =
     (fst ` set queue \<union> (\<Union>e \<in> set adj. set (snd e))) - {i. map_get rank i \<noteq> None}"

lemma finite_unranked [simp]: "finite (unranked adj queue rank)"
  by (simp add: unranked_def)

lemma succs_targets: "v \<in> set (succs adj i) \<Longrightarrow> v \<in> (\<Union>e \<in> set adj. set (snd e))"
  by (cases i; cases "map_get adj (the i)") (force simp: succs_def map_get_def dest: map_of_SomeD)+

lemma sum_lowered:
  "map_get m k = Some cur \<Longrightarrow> r < (cur :: nat) \<Longrightarrow> sum_list (map snd (map_set k r m)) < sum_list (map snd m)"
  by (induction m) (auto simp: map_get_def map_set_def split: if_splits)

lemma expand_shrinks:
  assumes "\<not> settled rank i r" and q'_def: "q' = queue @ map (\<lambda>n. (n, r + 1)) (succs adj i)"
  shows "card (unranked adj q' (map_set i r rank)) < card (unranked adj ((i, r) # queue) rank) \<or>
    card (unranked adj q' (map_set i r rank)) = card (unranked adj ((i, r) # queue) rank) \<and>
    sum_list (map snd (map_set i r rank)) < sum_list (map snd rank)"
proof -
  let ?T = "\<Union>e \<in> set adj. set (snd e)"
  have T: "set (succs adj i) \<subseteq> ?T" using succs_targets by fast
  have "fst ` set q' = fst ` set queue \<union> set (succs adj i)" by (simp add: q'_def image_Un image_image)
  then have sub: "unranked adj q' (map_set i r rank) \<subseteq> unranked adj ((i, r) # queue) rank - {i}"
    unfolding unranked_def using T by (auto split: if_splits)
  show ?thesis
  proof (cases "map_get rank i")
  case None
  have "unranked adj q' (map_set i r rank) \<subseteq> unranked adj ((i, r) # queue) rank - {i}" by (rule sub)
  moreover have "i \<in> unranked adj ((i, r) # queue) rank" using None by (simp add: unranked_def)
  ultimately have "unranked adj q' (map_set i r rank) \<subset> unranked adj ((i, r) # queue) rank" by blast
  then show ?thesis by (simp add: psubset_card_mono)
next
  case (Some cur)
  then have lt: "r < cur" using assms(1) by (simp add: settled_def)
  have "unranked adj q' (map_set i r rank) \<subseteq> unranked adj ((i, r) # queue) rank" using sub by blast
  then have "card (unranked adj q' (map_set i r rank)) \<le> card (unranked adj ((i, r) # queue) rank)"
    by (simp add: card_mono)
  then show ?thesis using sum_lowered [OF Some lt] by linarith
  qed
qed

lemma skip_shrinks: "card (unranked adj queue rank) \<le> card (unranked adj ((i, r) # queue) rank)"
  by (rule card_mono) (auto simp: unranked_def)

function rank_loop :: "(string, string option list) jsmap \<Rightarrow> (string option \<times> nat) list \<Rightarrow> rank_map \<Rightarrow> rank_map" where
  "rank_loop adj [] rank = rank"
| "rank_loop adj ((i, r) # queue) rank =
     (if settled rank i r then rank_loop adj queue rank
      else rank_loop adj (queue @ map (\<lambda>n. (n, r + 1)) (succs adj i)) (map_set i r rank))"
  by pat_completeness auto

termination rank_loop
proof (relation "measures [\<lambda>(adj, q, rank). card (unranked adj q rank), \<lambda>(adj, q, rank). sum_list (map snd rank), \<lambda>(adj, q, rank). length q]",
    goal_cases)
  case (2 adj i r queue rank)
  then show ?case using skip_shrinks [of adj queue rank i r] by (auto simp: le_less)
next
  case (3 adj i r queue rank)
  then show ?case using expand_shrinks [of rank i r _ queue adj] by auto
qed simp

definition buildStateRank :: "WorkflowDef \<Rightarrow> rank_map" where
  "buildStateRank def =
     (if truthy (d_entry_state def) then rank_loop (forward_adj def) [(d_entry_state def, 0)] [] else [])"

subsection \<open>Classes of transitions and shapes of states\<close>

datatype RoutineClass = Forward | Revision | Special

definition classifyRoutineTransition :: "WorkflowDef \<Rightarrow> string \<Rightarrow> WorkflowTransition \<Rightarrow> rank_map \<Rightarrow> RoutineClass" where
  "classifyRoutineTransition def stateId t rank =
     (if isSpecialTransition def stateId t then Special
      else if t_generic t = Some ''revision'' then Revision
      else if t_generic t = Some ''continue'' then Forward
      else case (map_get rank (Some stateId), map_get rank (t_to t)) of
             (Some from, Some to) \<Rightarrow> if to < from then Revision else Forward
           | _ \<Rightarrow> Forward)"

datatype StateRoutineShape =
    TerminalShape
  | Linear "string option"
  | Branch "string option list"
  | Ambiguous string "string option list"

definition has_payload :: "WorkflowTransition \<Rightarrow> bool" where
  "has_payload t = (t_requires_comment t \<or> t_requires_artifact t \<or> t_feedback_required t \<or> t_requires_demonstration_walk t)"

definition forwards :: "WorkflowDef \<Rightarrow> WorkflowState \<Rightarrow> rank_map \<Rightarrow> WorkflowTransition list" where
  "forwards def node rank =
     [t \<leftarrow> s_transitions node. classifyRoutineTransition def (s_id node) t rank = Forward \<and> stateNodeById def (t_to t) \<noteq> None]"

definition analyzeStateRoutine :: "WorkflowDef \<Rightarrow> WorkflowState \<Rightarrow> rank_map \<Rightarrow> StateRoutineShape" where
  "analyzeStateRoutine def node rank =
     (let fs = forwards def node rank;
          nonTerminalDests = unique (map t_to [t \<leftarrow> fs. \<not> isTerminalStateId def (t_to t)])
      in if fs = [] then TerminalShape
         else if 2 \<le> length nonTerminalDests then Branch (map t_command fs)
         else case List.find (\<lambda>t. t_generic t = Some ''continue'') fs of
                Some t \<Rightarrow> Linear (t_command t)
              | None \<Rightarrow>
                  if length fs = 1 then Linear (t_command (hd fs))
                  else case [t \<leftarrow> fs. \<not> has_payload t] of
                         [t] \<Rightarrow> Linear (t_command t)
                       | _ \<Rightarrow> Ambiguous (s_id node) (map t_command fs))"

datatype routine_kind = ForwardKind | RevisionKind

text \<open>The distance of a send-back, \<open>Infinity\<close> as the pair with first part 1.\<close>

definition back_distance :: "rank_map \<Rightarrow> WorkflowState \<Rightarrow> WorkflowTransition \<Rightarrow> nat \<times> int" where
  "back_distance rank node t =
     (case (map_get rank (t_to t), map_get rank (Some (s_id node))) of
        (Some a, Some from) \<Rightarrow> (0, int from - int a)
      | _ \<Rightarrow> (1, 0))"

definition closest :: "(WorkflowTransition \<Rightarrow> nat \<times> int) \<Rightarrow> WorkflowTransition list \<Rightarrow> WorkflowTransition" where
  "closest d ts = hd (sort_key (snd \<circ> d) (filter (\<lambda>t. fst (d t) = 0) ts) @ filter (\<lambda>t. fst (d t) \<noteq> 0) ts)"

definition resolveRoutineEdge ::
  "WorkflowDef \<Rightarrow> WorkflowState \<Rightarrow> routine_kind \<Rightarrow> rank_map option \<Rightarrow> (string \<times> string option list) + string option option" where
  "resolveRoutineEdge def node kind rank =
     (let r = (case rank of None \<Rightarrow> buildStateRank def | Some x \<Rightarrow> x)
      in case kind of
           RevisionKind \<Rightarrow>
             (let revs = [t \<leftarrow> s_transitions node. classifyRoutineTransition def (s_id node) t r = Revision]
              in if revs = [] then Inr None
                 else case List.find (\<lambda>t. t_generic t = Some ''revision'') revs of
                        Some t \<Rightarrow> Inr (Some (t_command t))
                      | None \<Rightarrow> Inr (Some (t_command (closest (back_distance r node) revs))))
         | ForwardKind \<Rightarrow>
             (case analyzeStateRoutine def node r of
                Linear c \<Rightarrow> Inr (Some c)
              | Ambiguous s cs \<Rightarrow> Inl (s, cs)
              | _ \<Rightarrow> Inr None))"

definition validateRoutineEdges :: "WorkflowDef \<Rightarrow> (string \<times> string option list) list" where
  "validateRoutineEdges def =
     (let ids = map s_id (d_states def) in
      if \<exists>s \<in> set (d_states def). \<exists>t \<in> set (s_transitions s).
           (case t_to t of None \<Rightarrow> False | Some to \<Rightarrow> \<not> starts_with ''__'' to \<and> to \<notin> set ids)
      then []
      else concat (map (\<lambda>s. case analyzeStateRoutine def s (buildStateRank def) of Ambiguous i cs \<Rightarrow> [(i, cs)] | _ \<Rightarrow> [])
             (d_states def)))"

subsection \<open>What an agent is told\<close>

definition cliVerbFor :: "WorkflowTransition \<Rightarrow> (WorkflowDef \<times> string) option \<Rightarrow> string option" where
  "cliVerbFor t ctx =
     (case ctx of
        Some (def, stateId) \<Rightarrow>
          if stateId \<noteq> [] then
            (case classifyRoutineTransition def stateId t (buildStateRank def) of
               Forward \<Rightarrow> Some ''continue-workflow''
             | Revision \<Rightarrow> Some ''request-revision''
             | Special \<Rightarrow> t_command t)
          else if t_generic t = Some ''continue'' then Some ''continue-workflow''
          else if t_generic t = Some ''revision'' then Some ''request-revision'' else t_command t
      | None \<Rightarrow> if t_generic t = Some ''continue'' then Some ''continue-workflow''
          else if t_generic t = Some ''revision'' then Some ''request-revision'' else t_command t)"

definition legalMovesFor :: "WorkflowDef \<Rightarrow> WorkflowState option \<Rightarrow> string \<Rightarrow> string option list" where
  "legalMovesFor def node breakGlass =
     unique ((case node of None \<Rightarrow> [] | Some n \<Rightarrow> map (\<lambda>t. cliVerbFor t (Some (def, s_id n))) (s_transitions n)) @ [Some breakGlass])"

definition ROUTINE_FORWARD_COMMANDS :: "string list" where
  "ROUTINE_FORWARD_COMMANDS = [''continue'', ''begin'', ''accept'', ''submit'', ''complete'', ''resume-review'']"

subsection \<open>Meta intents\<close>

datatype meta_error =
    ContextUnavailable
  | NotAWorkflowTicket
  | NotRegistered string
  | RegistryUnavailable
  | NeedsFreshAct string string
  | NoStateLabel
  | UnknownCurrentState string
  | NoRoutineEdge routine_kind string
  | AmbiguousEdge string "string option list"

definition meta_intent :: "string \<Rightarrow> bool" where
  "meta_intent i = (i \<in> {''continue-workflow'', ''request-revision'', ''begin-workflow''})"

text \<open>
  \<open>labels\<close> is the answer of the ticket service, \<open>None\<close> when the query failed; \<open>registry\<close> is \<open>None\<close>
  when loading it throws. The command of an edge may be absent in a malformed definition.
\<close>

definition stale_gate :: "WorkflowDef \<Rightarrow> string list \<Rightarrow> string \<Rightarrow> string option \<Rightarrow> (string \<times> string) option" where
  "stale_gate def labels intent snapshot =
     (if intent = ''continue-workflow'' \<and> truthy snapshot then
        (case getCurrentState labels (Some def) of
           None \<Rightarrow> None
         | Some live \<Rightarrow>
             if live \<noteq> [] \<and> Some live \<noteq> snapshot \<and>
                (case stateNodeById def (Some live) of None \<Rightarrow> False | Some n \<Rightarrow> s_kind n = Some ''approval_gate'')
             then Some (live, the snapshot) else None)
      else None)"

definition resolveMetaIntent ::
  "string \<Rightarrow> string list option \<Rightarrow> (string \<Rightarrow> WorkflowDef option) option \<Rightarrow> string option \<Rightarrow> meta_error + string option" where
  "resolveMetaIntent intent labels registry snapshot =
     (if \<not> meta_intent intent then Inr (Some intent)
      else case labels of
        None \<Rightarrow> Inl ContextUnavailable
      | Some ls \<Rightarrow>
        if \<not> truthy (getWorkflowId ls) then Inl NotAWorkflowTicket
        else case registry of
          None \<Rightarrow> Inl RegistryUnavailable
        | Some reg \<Rightarrow>
          (case reg (the (getWorkflowId ls)) of
             None \<Rightarrow> Inl (NotRegistered (the (getWorkflowId ls)))
           | Some def \<Rightarrow>
             (case stale_gate def ls intent snapshot of
                Some (live, snap) \<Rightarrow> Inl (NeedsFreshAct live snap)
              | None \<Rightarrow>
                let currentState = (if truthy snapshot then snapshot else getCurrentState ls (Some def))
                in if \<not> truthy currentState then Inl NoStateLabel
                   else case stateNodeById def currentState of
                     None \<Rightarrow> Inl (UnknownCurrentState (the currentState))
                   | Some node \<Rightarrow>
                     let kind = (if intent = ''request-revision'' then RevisionKind else ForwardKind)
                     in (case resolveRoutineEdge def node kind None of
                           Inl (s, cs) \<Rightarrow> Inl (AmbiguousEdge s cs)
                         | Inr None \<Rightarrow> Inl (NoRoutineEdge kind (the currentState))
                         | Inr (Some c) \<Rightarrow> Inr c))))"

subsection \<open>Ranks are distances\<close>

definition forward_edges :: "(string, string option list) jsmap \<Rightarrow> (string option \<times> string option) set" where
  "forward_edges adj = {(u, v). v \<in> set (succs adj u)}"

definition ranks_sound :: "(string, string option list) jsmap \<Rightarrow> string option \<Rightarrow> (string option \<times> nat) list \<Rightarrow> rank_map \<Rightarrow> bool" where
  "ranks_sound adj s queue rank \<longleftrightarrow>
     (\<forall>i r. (i, r) \<in> set queue \<or> map_get rank i = Some r \<longrightarrow> (s, i) \<in> forward_edges adj ^^ r)"

definition bounded :: "(string option \<times> nat) list \<Rightarrow> rank_map \<Rightarrow> string option \<Rightarrow> nat \<Rightarrow> bool" where
  "bounded queue rank v n \<longleftrightarrow> settled rank v n \<or> (\<exists>m \<le> n. (v, m) \<in> set queue)"

definition ranks_closed :: "(string, string option list) jsmap \<Rightarrow> (string option \<times> nat) list \<Rightarrow> rank_map \<Rightarrow> bool" where
  "ranks_closed adj queue rank \<longleftrightarrow>
     (\<forall>u v n. map_get rank u = Some n \<and> (u, v) \<in> forward_edges adj \<longrightarrow> bounded queue rank v (n + 1))"

lemma bounded_skip: "settled rank i r \<Longrightarrow> bounded ((i, r) # queue) rank v n \<Longrightarrow> bounded queue rank v n"
  by (auto simp: bounded_def settled_def split: option.splits intro: le_trans)

lemma bounded_expand:
  "\<not> settled rank i r \<Longrightarrow> bounded ((i, r) # queue) rank v n \<Longrightarrow> bounded (queue @ extra) (map_set i r rank) v n"
  by (auto simp: bounded_def settled_def split: option.splits if_splits)

lemma rank_loop_correct:
  "ranks_sound adj s queue rank \<Longrightarrow> ranks_closed adj queue rank \<Longrightarrow> bounded queue rank s 0 \<Longrightarrow>
   ranks_sound adj s [] (rank_loop adj queue rank) \<and> ranks_closed adj [] (rank_loop adj queue rank) \<and>
   bounded [] (rank_loop adj queue rank) s 0"
proof (induction adj queue rank rule: rank_loop.induct)
  case (2 adj i r queue rank)
  show ?case
  proof (cases "settled rank i r")
    case True
    have "ranks_sound adj s queue rank" using 2(3) by (auto simp: ranks_sound_def)
    moreover have "ranks_closed adj queue rank" using 2(4) bounded_skip [OF True] by (auto simp: ranks_closed_def)
    ultimately show ?thesis using 2(1) 2(5) bounded_skip [OF True] True by simp
  next
    case False
    let ?q = "queue @ map (\<lambda>n. (n, r + 1)) (succs adj i)"
    have reach: "(s, i) \<in> forward_edges adj ^^ r" using 2(3) by (simp add: ranks_sound_def)
    have "ranks_sound adj s ?q (map_set i r rank)"
      unfolding ranks_sound_def
    proof (intro allI impI)
      fix v m assume "(v, m) \<in> set ?q \<or> map_get (map_set i r rank) v = Some m"
      then consider "(v, m) \<in> set queue \<or> map_get rank v = Some m" | "v = i" "m = r" | "v \<in> set (succs adj i)" "m = r + 1"
        by (auto split: if_splits)
      then show "(s, v) \<in> forward_edges adj ^^ m"
      proof cases
        case 1
        then show ?thesis using 2(3) by (auto simp: ranks_sound_def)
      next
        case 3
        then show ?thesis using reach by (auto simp: forward_edges_def)
      qed (simp add: reach)
    qed
    moreover have "ranks_closed adj ?q (map_set i r rank)"
      unfolding ranks_closed_def
    proof (intro allI impI)
      fix u v n
      assume *: "map_get (map_set i r rank) u = Some n \<and> (u, v) \<in> forward_edges adj"
      show "bounded ?q (map_set i r rank) v (n + 1)"
      proof (cases "u = i")
        case True
        then have "(v, n + 1) \<in> set ?q" using * by (auto simp: forward_edges_def)
        then show ?thesis by (auto simp: bounded_def)
      next
        case u: False
        then have "bounded ((i, r) # queue) rank v (n + 1)" using * 2(4) by (simp add: ranks_closed_def)
        then show ?thesis by (rule bounded_expand [OF False])
      qed
    qed
    moreover have "bounded ?q (map_set i r rank) s 0" by (rule bounded_expand [OF False 2(5)])
    ultimately show ?thesis using 2(2) False by simp
  qed
qed simp

declare rank_loop.simps [simp del]

lemma closed_reach:
  assumes "ranks_closed adj [] rank" "bounded [] rank s 0" "(s, v) \<in> forward_edges adj ^^ n"
  shows "\<exists>m \<le> n. map_get rank v = Some m"
  using assms(3)
proof (induction n arbitrary: v)
  case 0
  then show ?case using assms(2) by (auto simp: bounded_def settled_def split: option.splits)
next
  case (Suc n)
  then obtain u where u: "(s, u) \<in> forward_edges adj ^^ n" "(u, v) \<in> forward_edges adj" by auto
  from Suc.IH [OF u(1)] obtain m where m: "m \<le> n" "map_get rank u = Some m" by blast
  then have "bounded [] rank v (m + 1)" using assms(1) u(2) unfolding ranks_closed_def by blast
  then show ?case using m(1) by (auto simp: bounded_def settled_def split: option.splits)
qed

text \<open>
  The work list of \<open>buildStateRank\<close> ends on every definition, cyclic or malformed, and computes
  distances: the rank of a target is the least number of forward steps that reach it from the
  entry state, and exactly the targets that can be reached have one.
\<close>

theorem ranks_are_distances:
  assumes "d_entry_state def = Some e" and "e \<noteq> []"
  shows "map_get (buildStateRank def) v = Some n \<longleftrightarrow>
    (Some e, v) \<in> forward_edges (forward_adj def) ^^ n \<and>
    (\<forall>m < n. (Some e, v) \<notin> forward_edges (forward_adj def) ^^ m)"
proof -
  let ?E = "forward_edges (forward_adj def)" and ?rank = "buildStateRank def"
  have "ranks_sound (forward_adj def) (Some e) [(Some e, 0)] []" by (simp add: ranks_sound_def)
  moreover have "ranks_closed (forward_adj def) [(Some e, 0)] []" by (simp add: ranks_closed_def)
  moreover have "bounded [(Some e, 0)] [] (Some e) 0" by (simp add: bounded_def)
  ultimately have r: "ranks_sound (forward_adj def) (Some e) [] ?rank" "ranks_closed (forward_adj def) [] ?rank"
    "bounded [] ?rank (Some e) 0"
    using rank_loop_correct assms by (auto simp: buildStateRank_def truthy_def)
  have sound: "map_get ?rank v = Some m \<Longrightarrow> (Some e, v) \<in> ?E ^^ m" for m using r(1) by (simp add: ranks_sound_def)
  show ?thesis
  proof
    assume n: "map_get ?rank v = Some n"
    have "(Some e, v) \<notin> ?E ^^ m" if "m < n" for m
      using closed_reach [OF r(2,3), of v m] n that by auto
    then show "(Some e, v) \<in> ?E ^^ n \<and> (\<forall>m < n. (Some e, v) \<notin> ?E ^^ m)" using sound [OF n] by blast
  next
    assume *: "(Some e, v) \<in> ?E ^^ n \<and> (\<forall>m < n. (Some e, v) \<notin> ?E ^^ m)"
    then obtain m where m: "m \<le> n" "map_get ?rank v = Some m" using closed_reach [OF r(2,3), of v n] by blast
    then show "map_get ?rank v = Some n" using sound [OF m(2)] * by (cases "m < n") auto
  qed
qed

definition verb :: "string \<Rightarrow> string \<Rightarrow> WorkflowTransition" where
  "verb c to = \<lparr>t_command = Some c, t_to = Some to, t_requires_capability = None, t_requires_capability_statement = False,
     t_requires_demonstration_walk = False, t_designated_approver = False, t_requires_artifact = False, t_feedback_required = False,
     t_assign = None, t_requires_human_signoff = False, t_requires_deploy_probe = False, t_requires_comment = False,
     t_requires_children_terminal = False, t_requires_implementation_child = False, t_capture_ac = False, t_generic = None\<rparr>"

definition review_def :: WorkflowDef where
  "review_def = (sample_def
     [sample_state ''intake'' \<lparr>s_transitions := [verb ''accept'' ''doing'']\<rparr>,
      sample_state ''doing'' \<lparr>s_transitions := [verb ''submit'' ''review'', verb ''scope'' ''split'']\<rparr>,
      sample_state ''review'' \<lparr>s_transitions := [verb ''approve'' ''done'', verb ''reject'' ''doing'']\<rparr>,
      sample_state ''split'' \<lparr>s_transitions := [verb ''join'' ''review'']\<rparr>,
      sample_state ''done'' \<lparr>s_kind := Some ''terminal''\<rparr>]) \<lparr>d_entry_state := Some ''intake''\<rparr>"

lemmas run_defs = review_def_def sample_def_def sample_state_def verb_def

theorem ranks_are_distances_witness:
  "(Some ''intake'', Some ''review'') \<in> forward_edges (forward_adj review_def) ^^ 2"
proof -
  have "map_get (buildStateRank review_def) (Some ''review'') = Some 2" by code_simp
  moreover have "d_entry_state review_def = Some ''intake''" by (simp add: review_def_def)
  ultimately show ?thesis using ranks_are_distances [of review_def "''intake''" "Some ''review''" 2] by simp
qed

subsection \<open>Routine verbs\<close>

lemma classify_revision:
  "classifyRoutineTransition def i t rank = Revision \<longleftrightarrow> \<not> isSpecialTransition def i t \<and>
     (t_generic t = Some ''revision'' \<or> t_generic t \<noteq> Some ''continue'' \<and>
        (\<exists>from to. map_get rank (Some i) = Some from \<and> map_get rank (t_to t) = Some to \<and> to < from))"
  by (auto simp: classifyRoutineTransition_def split: option.split)

text \<open>
  \<open>request-revision\<close> sends the work back, and no further than it must: when no edge of the state
  carries an explicit tag, the verb resolves to an edge whose target lies strictly nearer to the
  entry state, and of all such edges to one with the latest target; it resolves to nothing exactly
  when the state has no send-back.
\<close>

theorem revision_goes_back_nearest:
  assumes "\<forall>t \<in> set (s_transitions node). t_generic t \<noteq> Some ''revision''"
  shows "resolveRoutineEdge def node RevisionKind None = Inr None \<and>
      (\<forall>t \<in> set (s_transitions node). classifyRoutineTransition def (s_id node) t (buildStateRank def) \<noteq> Revision) \<or>
    (\<exists>t \<in> set (s_transitions node). \<exists>from to. resolveRoutineEdge def node RevisionKind None = Inr (Some (t_command t)) \<and>
      map_get (buildStateRank def) (Some (s_id node)) = Some from \<and> map_get (buildStateRank def) (t_to t) = Some to \<and> to < from \<and>
      (\<forall>u \<in> set (s_transitions node). classifyRoutineTransition def (s_id node) u (buildStateRank def) = Revision \<longrightarrow>
         (\<exists>k. map_get (buildStateRank def) (t_to u) = Some k \<and> k \<le> to)))"
proof -
  let ?r = "buildStateRank def" and ?d = "back_distance (buildStateRank def) node"
  define revs where "revs = [t \<leftarrow> s_transitions node. classifyRoutineTransition def (s_id node) t ?r = Revision]"
  have rev: "\<exists>from to. map_get ?r (Some (s_id node)) = Some from \<and> map_get ?r (t_to t) = Some to \<and> to < from \<and> ?d t = (0, int from - int to)"
    if "t \<in> set revs" for t
    using that assms by (auto simp: revs_def classify_revision back_distance_def)
  have untagged: "List.find (\<lambda>t. t_generic t = Some ''revision'') revs = None"
    using assms by (auto simp: find_None_iff revs_def)
  show ?thesis
  proof (cases "revs = []")
    case True
    then have "resolveRoutineEdge def node RevisionKind None = Inr None"
      by (simp add: resolveRoutineEdge_def revs_def [symmetric])
    moreover have "\<forall>t \<in> set (s_transitions node). classifyRoutineTransition def (s_id node) t ?r \<noteq> Revision"
      using True by (simp add: revs_def filter_empty_conv)
    ultimately show ?thesis by blast
  next
    case False
    define t where "t = closest ?d revs"
    have fin: "filter (\<lambda>t. fst (?d t) = 0) revs = revs" using rev by (fastforce simp: filter_id_conv)
    then have t: "t = hd (sort_key (snd \<circ> ?d) revs)"
      using False by (simp add: t_def closest_def hd_append) (metis length_0_conv length_sort)
    have "sort_key (snd \<circ> ?d) revs \<noteq> []" using False by (metis length_0_conv length_sort)
    then have mem: "t \<in> set revs" and least: "\<forall>u \<in> set revs. snd (?d t) \<le> snd (?d u)"
      using t sorted_sort_key [of "snd \<circ> ?d" revs] set_sort [of "snd \<circ> ?d" revs]
      by (cases "sort_key (snd \<circ> ?d) revs"; auto)+
    have run: "resolveRoutineEdge def node RevisionKind None = Inr (Some (t_command t))"
      using False untagged by (simp add: resolveRoutineEdge_def revs_def [symmetric] t_def)
    obtain f to where ft: "map_get ?r (Some (s_id node)) = Some f" "map_get ?r (t_to t) = Some to" "to < f"
      "?d t = (0, int f - int to)" using rev [OF mem] by blast
    have "\<exists>k. map_get ?r (t_to u) = Some k \<and> k \<le> to" if u: "u \<in> set revs" for u
      using rev [OF u] least u ft by fastforce
    then have "\<forall>u \<in> set (s_transitions node). classifyRoutineTransition def (s_id node) u ?r = Revision \<longrightarrow>
        (\<exists>k. map_get ?r (t_to u) = Some k \<and> k \<le> to)" by (simp add: revs_def)
    moreover have "t \<in> set (s_transitions node)" using mem by (simp add: revs_def)
    ultimately show ?thesis using run ft by blast
  qed
qed

theorem revision_goes_back_nearest_witness:
  "resolveRoutineEdge review_def (sample_state ''review'' \<lparr>s_transitions := [verb ''approve'' ''done'', verb ''reject'' ''doing'']\<rparr>)
     RevisionKind None \<noteq> Inr None"
proof -
  let ?node = "sample_state ''review'' \<lparr>s_transitions := [verb ''approve'' ''done'', verb ''reject'' ''doing'']\<rparr>"
  have "classifyRoutineTransition review_def (s_id ?node) (verb ''reject'' ''doing'') (buildStateRank review_def) = Revision"
    by code_simp
  then show ?thesis using revision_goes_back_nearest [of ?node review_def] by (auto simp: verb_def)
qed

lemma set_closest: "ts \<noteq> [] \<Longrightarrow> closest d ts \<in> set ts"
proof -
  assume "ts \<noteq> []"
  let ?xs = "sort_key (snd \<circ> d) (filter (\<lambda>t. fst (d t) = 0) ts) @ filter (\<lambda>t. fst (d t) \<noteq> 0) ts"
  have "set ?xs = set ts" by auto
  then have "?xs \<noteq> []" "hd ?xs \<in> set ?xs" using \<open>ts \<noteq> []\<close> by (metis set_empty, metis hd_in_set set_empty)
  then show ?thesis unfolding closest_def using \<open>set ?xs = set ts\<close> by blast
qed

lemma resolved_edge:
  assumes "resolveRoutineEdge def node kind None = Inr (Some c)"
  shows "\<exists>t \<in> set (s_transitions node). t_command t = c \<and>
    classifyRoutineTransition def (s_id node) t (buildStateRank def) = (case kind of ForwardKind \<Rightarrow> Forward | RevisionKind \<Rightarrow> Revision) \<and>
    (kind = ForwardKind \<longrightarrow> t \<in> set (forwards def node (buildStateRank def)))"
proof (cases kind)
  case ForwardKind
  let ?fs = "forwards def node (buildStateRank def)"
  have "analyzeStateRoutine def node (buildStateRank def) = Linear c"
    using assms ForwardKind by (auto simp: resolveRoutineEdge_def split: StateRoutineShape.splits)
  then consider t where "List.find (\<lambda>t. t_generic t = Some ''continue'') ?fs = Some t" "c = t_command t"
    | "length ?fs = 1" "c = t_command (hd ?fs)" | t where "[t \<leftarrow> ?fs. \<not> has_payload t] = [t]" "c = t_command t"
    by (auto simp: analyzeStateRoutine_def Let_def split: if_splits option.splits list.splits)
  then have "\<exists>t \<in> set ?fs. t_command t = c"
  proof cases
    case (1 t)
    then show ?thesis using find_SomeD [of _ ?fs t] by auto
  next
    case 2
    then show ?thesis using hd_in_set [of ?fs] by fastforce
  next
    case (3 t)
    then have "t \<in> set [t \<leftarrow> ?fs. \<not> has_payload t]" by (simp only: list.set_intros)
    then have "t \<in> set ?fs" by (simp only: set_filter mem_Collect_eq)
    then show ?thesis using 3(2) by blast
  qed
  then show ?thesis using ForwardKind by (auto simp: forwards_def)
next
  case RevisionKind
  let ?revs = "[t \<leftarrow> s_transitions node. classifyRoutineTransition def (s_id node) t (buildStateRank def) = Revision]"
  have ne: "?revs \<noteq> []" and c: "c = (case List.find (\<lambda>t. t_generic t = Some ''revision'') ?revs of Some t \<Rightarrow> t_command t
      | None \<Rightarrow> t_command (closest (back_distance (buildStateRank def) node) ?revs))"
    using assms RevisionKind by (auto simp: resolveRoutineEdge_def Let_def split: if_splits option.splits)
  have "\<exists>t \<in> set ?revs. t_command t = c"
  proof (cases "List.find (\<lambda>t. t_generic t = Some ''revision'') ?revs")
    case None
    then show ?thesis using c set_closest [OF ne] by fastforce
  next
    case (Some t)
    then show ?thesis using c find_SomeD [of _ ?revs t] by fastforce
  qed
  then show ?thesis using RevisionKind by auto
qed

lemma unique_two: "2 \<le> length (unique xs) \<Longrightarrow> \<exists>a \<in> set xs. \<exists>b \<in> set xs. a \<noteq> b"
proof -
  assume "2 \<le> length (unique xs)"
  then obtain a b ys where "unique xs = a # b # ys"
    by (metis (no_types) One_nat_def Suc_1 Suc_le_length_iff)
  then show ?thesis using distinct_unique [of xs] set_unique [of xs] by (metis distinct_length_2_or_more list.set_intros)
qed

text \<open>
  In an activated definition \<open>continue-workflow\<close> is never ambiguous: it resolves to one command of
  an edge that steps forward to a defined state and is no special hatch, and it resolves to
  nothing only where the state has no such edge or branches to two different unfinished states.
\<close>

theorem continue_takes_the_forward_edge:
  assumes "validateTransitionTargets def = []" and "validateRoutineEdges def = []" and "node \<in> set (d_states def)"
  shows "case resolveRoutineEdge def node ForwardKind None of
      Inl _ \<Rightarrow> False
    | Inr (Some c) \<Rightarrow> \<exists>t \<in> set (s_transitions node). t_command t = c \<and> \<not> isSpecialTransition def (s_id node) t \<and>
        (\<exists>n \<in> set (d_states def). t_to t = Some (s_id n))
    | Inr None \<Rightarrow> forwards def node (buildStateRank def) = [] \<or>
        (\<exists>t \<in> set (s_transitions node). \<exists>u \<in> set (s_transitions node). t_to t \<noteq> t_to u \<and>
           \<not> isTerminalStateId def (t_to t) \<and> \<not> isTerminalStateId def (t_to u))"
proof -
  let ?shape = "analyzeStateRoutine def node (buildStateRank def)"
  have "\<not> (\<exists>s \<in> set (d_states def). \<exists>t \<in> set (s_transitions s).
      (case t_to t of None \<Rightarrow> False | Some to \<Rightarrow> \<not> starts_with ''__'' to \<and> to \<notin> set (map s_id (d_states def))))"
  proof (intro notI, elim bexE)
    fix s t
    assume s: "s \<in> set (d_states def)" and t: "t \<in> set (s_transitions s)"
      and bad: "case t_to t of None \<Rightarrow> False | Some to \<Rightarrow> \<not> starts_with ''__'' to \<and> to \<notin> set (map s_id (d_states def))"
    from bad obtain to where to: "t_to t = Some to" "\<not> starts_with ''__'' to" "to \<notin> set (map s_id (d_states def))"
      by (auto split: option.splits)
    show False using assms(1) s t to unfolding validateTransitionTargets_def Let_def concat_map_Nil by fastforce
  qed
  then have "concat (map (\<lambda>s. case analyzeStateRoutine def s (buildStateRank def) of Ambiguous i cs \<Rightarrow> [(i, cs)] | _ \<Rightarrow> [])
      (d_states def)) = []"
    using assms(2) unfolding validateRoutineEdges_def Let_def by (simp only: if_False)
  then have clear: "?shape \<noteq> Ambiguous i cs" for i cs
    using assms(3) unfolding concat_map_Nil by fastforce
  show ?thesis
  proof (cases "resolveRoutineEdge def node ForwardKind None")
    case (Inl e)
    then show ?thesis using clear by (auto simp: resolveRoutineEdge_def split: StateRoutineShape.splits)
  next
    case (Inr co)
    show ?thesis
    proof (cases co)
      case None
      then have "?shape = TerminalShape \<or> (\<exists>cs. ?shape = Branch cs)"
        using Inr by (auto simp: resolveRoutineEdge_def split: StateRoutineShape.splits)
      then consider "forwards def node (buildStateRank def) = []"
        | "2 \<le> length (unique (map t_to [t \<leftarrow> forwards def node (buildStateRank def). \<not> isTerminalStateId def (t_to t)]))"
        by (auto simp: analyzeStateRoutine_def Let_def split: if_splits option.splits list.splits)
      then show ?thesis
      proof cases
        case 2
        then show ?thesis using unique_two [OF 2] None Inr by (auto simp: forwards_def)
      qed (simp add: Inr None)
    next
      case (Some c)
      then obtain t where t: "t \<in> set (s_transitions node)" "t_command t = c" "t \<in> set (forwards def node (buildStateRank def))"
        using resolved_edge [of def node ForwardKind c] Inr by auto
      then have "classifyRoutineTransition def (s_id node) t (buildStateRank def) = Forward" "stateNodeById def (t_to t) \<noteq> None"
        by (auto simp: forwards_def)
      moreover have "\<exists>n \<in> set (d_states def). t_to t = Some (s_id n)"
        using calculation(2) by (auto simp: stateNodeById_def split: option.splits dest: find_SomeD)
      ultimately show ?thesis using t Inr Some by (auto simp: classifyRoutineTransition_def split: if_splits)
    qed
  qed
qed

theorem continue_takes_the_forward_edge_witness:
  "resolveRoutineEdge review_def (sample_state ''intake'' \<lparr>s_transitions := [verb ''accept'' ''doing'']\<rparr>) ForwardKind None = Inr (Some (Some ''accept'')) \<and>
   (\<exists>n \<in> set (d_states review_def). Some ''doing'' = Some (s_id n))"
proof -
  let ?node = "sample_state ''intake'' \<lparr>s_transitions := [verb ''accept'' ''doing'']\<rparr>"
  have run: "resolveRoutineEdge review_def ?node ForwardKind None = Inr (Some (Some ''accept''))" by code_simp
  have "validateTransitionTargets review_def = []" "validateRoutineEdges review_def = []" by code_simp+
  moreover have "?node \<in> set (d_states review_def)" by (simp add: review_def_def sample_def_def)
  ultimately show ?thesis using continue_takes_the_forward_edge [of review_def ?node] unfolding run by (auto simp: verb_def sample_state_def)
qed

text \<open>
  In a state that branches, the legal moves shown to an agent are a dead end: every forward command
  is shown as \<open>continue-workflow\<close> and under no name of its own, and \<open>continue-workflow\<close> resolves to
  nothing there. (The design keeps the named verbs of a branch explicit.)
\<close>

theorem branch_guidance_is_a_dead_end:
  assumes "analyzeStateRoutine def node (buildStateRank def) = Branch cs" and "s_id node \<noteq> []"
  shows "Some ''continue-workflow'' \<in> set (legalMovesFor def (Some node) bg) \<and>
    resolveRoutineEdge def node ForwardKind None = Inr None \<and>
    (\<forall>t \<in> set (s_transitions node). t_command t \<in> set (legalMovesFor def (Some node) bg) \<longrightarrow>
       t_command t \<in> {Some ''continue-workflow'', Some ''request-revision'', Some bg} \<or>
       (\<exists>u \<in> set (s_transitions node). isSpecialTransition def (s_id node) u \<and> t_command t = t_command u))"
proof -
  have "forwards def node (buildStateRank def) \<noteq> []"
    using assms(1) by (auto simp: analyzeStateRoutine_def Let_def split: if_splits option.splits list.splits)
  then obtain t where t: "t \<in> set (s_transitions node)" "classifyRoutineTransition def (s_id node) t (buildStateRank def) = Forward"
    by (auto simp: forwards_def filter_empty_conv)
  then have "cliVerbFor t (Some (def, s_id node)) = Some ''continue-workflow''" using assms(2) by (simp add: cliVerbFor_def)
  then have 1: "Some ''continue-workflow'' \<in> set (legalMovesFor def (Some node) bg)"
    using t(1) by (force simp: legalMovesFor_def)
  have 2: "resolveRoutineEdge def node ForwardKind None = Inr None" using assms(1) by (simp add: resolveRoutineEdge_def)
  have 3: "v \<in> {Some ''continue-workflow'', Some ''request-revision'', Some bg} \<or>
      (\<exists>u \<in> set (s_transitions node). isSpecialTransition def (s_id node) u \<and> v = t_command u)"
    if v: "v \<in> set (legalMovesFor def (Some node) bg)" for v
  proof -
    from v consider "v = Some bg" | u where "u \<in> set (s_transitions node)" "v = cliVerbFor u (Some (def, s_id node))"
      by (auto simp: legalMovesFor_def)
    then show ?thesis
    proof cases
      case (2 u)
      then show ?thesis using assms(2)
        by (cases "classifyRoutineTransition def (s_id node) u (buildStateRank def)")
           (auto simp: cliVerbFor_def classifyRoutineTransition_def split: if_splits option.splits)
    qed simp
  qed
  show ?thesis using 1 2 3 by blast
qed

theorem branch_guidance_is_a_dead_end_witness:
  "let node = sample_state ''doing'' \<lparr>s_transitions := [verb ''submit'' ''review'', verb ''scope'' ''split'']\<rparr>
   in legalMovesFor review_def (Some node) ''escape'' = [Some ''continue-workflow'', Some ''escape''] \<and>
      resolveRoutineEdge review_def node ForwardKind None = Inr None"
proof -
  let ?node = "sample_state ''doing'' \<lparr>s_transitions := [verb ''submit'' ''review'', verb ''scope'' ''split'']\<rparr>"
  have "analyzeStateRoutine review_def ?node (buildStateRank review_def) = Branch [Some ''submit'', Some ''scope'']" by code_simp
  moreover have "s_id ?node \<noteq> []" by (simp add: sample_state_def)
  moreover have "legalMovesFor review_def (Some ?node) ''escape'' = [Some ''continue-workflow'', Some ''escape'']" by code_simp
  ultimately show ?thesis using branch_guidance_is_a_dead_end [of review_def ?node] by (simp add: Let_def)
qed

text \<open>
  A routine verb never fires a hatch and never passes an approval gate on an old act: whenever a meta
  intent resolves to a command, that command belongs to an edge, not a special one, that leaves the
  ticket's state in its registered definition, a step forward unless a revision was asked for; and
  when \<open>continue-workflow\<close> was started in an earlier state, the ticket does not rest in a gate now.
\<close>

theorem meta_intent_fires_no_hatch:
  assumes "resolveMetaIntent intent labels registry snapshot = Inr c" and "meta_intent intent"
  shows "\<exists>ls reg w def node t. labels = Some ls \<and> registry = Some reg \<and> getWorkflowId ls = Some w \<and> reg w = Some def \<and>
    node \<in> set (d_states def) \<and> Some (s_id node) = (if truthy snapshot then snapshot else getCurrentState ls (Some def)) \<and>
    t \<in> set (s_transitions node) \<and> t_command t = c \<and> \<not> isSpecialTransition def (s_id node) t \<and>
    (intent = ''request-revision'' \<longleftrightarrow> classifyRoutineTransition def (s_id node) t (buildStateRank def) = Revision) \<and>
    (intent = ''continue-workflow'' \<longrightarrow> (\<forall>live g. getCurrentState ls (Some def) = Some live \<and> live \<noteq> [] \<and>
       stateNodeById def (Some live) = Some g \<and> s_kind g = Some ''approval_gate'' \<longrightarrow> live = s_id node))"
proof -
  obtain ls where ls: "labels = Some ls" using assms by (auto simp: resolveMetaIntent_def split: option.splits)
  obtain w where w: "getWorkflowId ls = Some w" "truthy (Some w)"
    using assms ls by (cases "getWorkflowId ls") (auto simp: resolveMetaIntent_def truthy_def split: option.splits if_splits)
  obtain reg where reg: "registry = Some reg" using assms ls w by (auto simp: resolveMetaIntent_def split: option.splits)
  obtain def where def: "reg w = Some def" using assms ls w reg by (auto simp: resolveMetaIntent_def split: option.splits)
  let ?cur = "if truthy snapshot then snapshot else getCurrentState ls (Some def)"
  let ?kind = "if intent = ''request-revision'' then RevisionKind else ForwardKind"
  have gate: "stale_gate def ls intent snapshot = None" using assms ls w reg def
    by (cases "stale_gate def ls intent snapshot") (auto simp: resolveMetaIntent_def)
  have cur: "truthy ?cur" using assms ls w reg def gate by (auto simp: resolveMetaIntent_def Let_def split: if_splits)
  obtain node where node: "stateNodeById def ?cur = Some node"
    using assms ls w reg def gate cur by (cases "stateNodeById def ?cur") (auto simp: resolveMetaIntent_def Let_def)
  then have mem: "node \<in> set (d_states def)" "Some (s_id node) = ?cur"
    by (auto simp: stateNodeById_def split: option.splits dest: find_SomeD)
  have "resolveRoutineEdge def node ?kind None = Inr (Some c)"
    using assms ls w reg def gate cur node
    by (auto simp: resolveMetaIntent_def Let_def split: sum.splits option.splits)
  then obtain t where t: "t \<in> set (s_transitions node)" "t_command t = c"
    "classifyRoutineTransition def (s_id node) t (buildStateRank def) = (case ?kind of ForwardKind \<Rightarrow> Forward | RevisionKind \<Rightarrow> Revision)"
    using resolved_edge by blast
  have "\<not> isSpecialTransition def (s_id node) t" "intent = ''request-revision'' \<longleftrightarrow>
      classifyRoutineTransition def (s_id node) t (buildStateRank def) = Revision"
    using t(3) by (auto simp: classifyRoutineTransition_def split: if_splits)
  moreover have "live = s_id node" if "intent = ''continue-workflow''" "getCurrentState ls (Some def) = Some live" "live \<noteq> []"
    "stateNodeById def (Some live) = Some g" "s_kind g = Some ''approval_gate''" for live g
  proof -
    have "truthy snapshot \<longrightarrow> snapshot = Some live"
      using gate that by (auto simp: stale_gate_def split: if_splits)
    then have "Some (s_id node) = Some live" using mem(2) that(2) by (cases "truthy snapshot") simp_all
    then show ?thesis by simp
  qed
  ultimately show ?thesis using ls w reg def mem t by blast
qed

theorem meta_intent_fires_no_hatch_witness:
  "let reg = (\<lambda>w. if w = ''task'' then Some review_def else None)
   in resolveMetaIntent ''request-revision'' (Some [''wf:task'', ''state:review'']) (Some reg) None = Inr (Some ''reject'') \<and>
      (\<exists>node t. t \<in> set (s_transitions (node :: WorkflowState)) \<and> t_command t = Some ''reject'' \<and> \<not> isSpecialTransition review_def (s_id node) t)"
proof -
  let ?reg = "\<lambda>w. if w = ''task'' then Some review_def else None"
  have run: "resolveMetaIntent ''request-revision'' (Some [''wf:task'', ''state:review'']) (Some ?reg) None = Inr (Some ''reject'')"
    by code_simp
  have intent: "meta_intent ''request-revision''" by (simp add: meta_intent_def)
  obtain ls reg w def t and node :: WorkflowState where facts:
    "Some [''wf:task'', ''state:review''] = Some ls" "Some ?reg = Some reg" "getWorkflowId ls = Some w" "reg w = Some def"
    "t \<in> set (s_transitions node)" "t_command t = Some ''reject''" "\<not> isSpecialTransition def (s_id node) t"
    using meta_intent_fires_no_hatch [OF run intent] by (elim exE conjE) (rule that)
  have "reg = ?reg" using facts(2) by simp
  then have "(if w = ''task'' then Some review_def else None) = Some def" using facts(4) by simp
  then have "def = review_def" by (metis option.inject option.distinct(1))
  then have "\<exists>node t. t \<in> set (s_transitions (node :: WorkflowState)) \<and> t_command t = Some ''reject'' \<and>
      \<not> isSpecialTransition review_def (s_id node) t"
    using facts(5-7) by blast
  with run show ?thesis unfolding Let_def by (rule conjI)
qed

end
