(* ===== verification/LinearActionable.thy ===== *)
theory LinearActionable
  imports SessionKey
begin

text \<open>
  \<open>src/linear-actionable.ts\<close>: is a ticket still work for the agent it was routed to? The check reads the
  ticket from the service before a wake is sent. Its answer is \<open>Threw\<close> when the request failed or
  could not be parsed; the roster of agents is the list of their user ids.
\<close>

subsection \<open>Issue states\<close>

record IssueState =
  is_type :: "string option"
  is_name :: "string option"

definition TERMINAL_STATE_TYPES :: "string list" where
  "TERMINAL_STATE_TYPES = [''completed'', ''canceled'', ''cancelled'', ''duplicate'']"

definition TERMINAL_STATE_NAMES :: "string list" where
  "TERMINAL_STATE_NAMES = [''done'', ''canceled'', ''cancelled'', ''duplicate'']"

definition lower_or_empty :: "string option \<Rightarrow> string" where
  "lower_or_empty s = (case s of None \<Rightarrow> [] | Some x \<Rightarrow> toLowerCase x)"

definition isTerminalIssueState :: "IssueState option \<Rightarrow> bool" where
  "isTerminalIssueState st =
     (case st of
        None \<Rightarrow> False
      | Some r \<Rightarrow> lower_or_empty (is_type r) \<in> set TERMINAL_STATE_TYPES \<or> lower_or_empty (is_name r) \<in> set TERMINAL_STATE_NAMES)"

definition isParkedIssueState :: "IssueState option \<Rightarrow> bool" where
  "isParkedIssueState st =
     (case st of None \<Rightarrow> False | Some r \<Rightarrow> lower_or_empty (is_type r) = ''backlog'' \<or> lower_or_empty (is_name r) = ''backlog'')"

subsection \<open>Issues, relations and users\<close>

record IssueRef =
  ir_id :: "string option"
  ir_identifier :: "string option"
  ir_state :: "IssueState option"

record IssueRelation =
  rel_type :: "string option"
  rel_issue :: "IssueRef option"
  rel_relatedIssue :: "IssueRef option"

record UserRef =
  u_id :: "string option"
  u_app :: "bool option"

record LinearIssue =
  li_ref :: IssueRef
  li_delegate :: "UserRef option"
  li_assignee :: "UserRef option"
  li_relations :: "IssueRelation list"
  li_inverseRelations :: "IssueRelation list"
  li_trashed :: bool
  li_archivedAt :: "string option"

datatype RoutingReason = Delegate | Assignee | Mention | BodyMention | DepartmentPrefix | StewardEscalation

definition OWNERSHIP_REASONS :: "RoutingReason list" where
  "OWNERSHIP_REASONS = [Delegate, Assignee]"

definition ROSTER_FANOUT_REASONS :: "RoutingReason list" where
  "ROSTER_FANOUT_REASONS = [DepartmentPrefix, StewardEscalation]"

definition isHumanLinearUser :: "UserRef option \<Rightarrow> string list \<Rightarrow> bool" where
  "isHumanLinearUser user agentIds =
     (case user of
        None \<Rightarrow> False
      | Some u \<Rightarrow>
          if u_app u = Some True then False
          else if truthy (u_id u) \<and> the (u_id u) \<in> set agentIds then False
          else u_app u = Some False)"

definition same_text :: "string option \<Rightarrow> string option \<Rightarrow> bool" where
  "same_text a b = (truthy a \<and> truthy b \<and> a = b)"

definition isSameIssue :: "IssueRef option \<Rightarrow> IssueRef \<Rightarrow> bool" where
  "isSameIssue a b =
     (case a of None \<Rightarrow> False
      | Some x \<Rightarrow> same_text (ir_id x) (ir_id b) \<or> same_text (ir_identifier x) (ir_identifier b))"

definition blockerOf :: "IssueRef \<Rightarrow> IssueRelation \<Rightarrow> IssueRef option" where
  "blockerOf issue r =
     (let t = lower_or_empty (rel_type r) in
      if t = [] then None
      else if t \<in> {''blocks'', ''blocking''} \<and> isSameIssue (rel_relatedIssue r) issue then rel_issue r
      else if t \<in> {''blocked_by'', ''blocked-by'', ''blockedby''} \<and> isSameIssue (rel_issue r) issue then rel_relatedIssue r
      else None)"

definition isBlockedByOpenIssue :: "LinearIssue \<Rightarrow> bool" where
  "isBlockedByOpenIssue issue =
     (\<exists>r \<in> set (li_relations issue @ li_inverseRelations issue).
        case blockerOf (li_ref issue) r of None \<Rightarrow> False | Some b \<Rightarrow> \<not> isTerminalIssueState (ir_state b))"

text \<open>\<open>normalizeSessionKey(ticketId).replace(/^linear-/, "")\<close>\<close>

definition issueIdentifierFromSessionKey :: "string \<Rightarrow> key_error + string" where
  "issueIdentifierFromSessionKey ticketId =
     (case normalizeSessionKey ticketId of
        Inl e \<Rightarrow> Inl e
      | Inr k \<Rightarrow> Inr (if starts_with ''linear-'' k then drop 7 k else k))"

subsection \<open>The routing check\<close>

record RoutingCheckResult =
  actionable :: bool
  failOpen :: bool
  terminalNotFound :: bool

datatype routing_answer = Threw | HttpStatus nat | GraphqlErrors | Answered "LinearIssue option"

definition verdict :: "bool \<Rightarrow> RoutingCheckResult" where
  "verdict b = \<lparr>actionable = b, failOpen = False, terminalNotFound = False\<rparr>"

definition fail_open :: RoutingCheckResult where
  "fail_open = \<lparr>actionable = True, failOpen = True, terminalNotFound = False\<rparr>"

definition is_user :: "UserRef option \<Rightarrow> string option \<Rightarrow> bool" where
  "is_user u i = (case u of None \<Rightarrow> False | Some x \<Rightarrow> u_id x = i)"

text \<open>The first gate: nobody is woken for dead work.\<close>

definition dead_work :: "LinearIssue \<Rightarrow> bool" where
  "dead_work issue =
     (isTerminalIssueState (ir_state (li_ref issue)) \<or> isParkedIssueState (ir_state (li_ref issue)) \<or>
      isBlockedByOpenIssue issue \<or> li_trashed issue \<or> truthy (li_archivedAt issue))"

definition roster_gate :: "LinearIssue \<Rightarrow> string option \<Rightarrow> string list \<Rightarrow> bool" where
  "roster_gate issue agentUser roster =
     (if li_delegate issue = None \<and> isHumanLinearUser (li_assignee issue) roster then False
      else if li_delegate issue \<noteq> None \<and> truthy agentUser \<and> \<not> is_user (li_delegate issue) agentUser then False
      else True)"

definition owner_gate :: "UserRef option \<Rightarrow> string option \<Rightarrow> bool" where
  "owner_gate owner agentUser =
     (if owner = None then False
      else if truthy agentUser then is_user owner agentUser
      else True)"

definition checkLinearIssueRouting ::
  "string option \<Rightarrow> string option \<Rightarrow> string list \<Rightarrow> routing_answer \<Rightarrow> string \<Rightarrow> RoutingReason option \<Rightarrow> key_error + RoutingCheckResult" where
  "checkLinearIssueRouting token agentUser roster answer ticketId routingReason =
     (if \<not> truthy token then Inr fail_open
      else case issueIdentifierFromSessionKey ticketId of
        Inl e \<Rightarrow> Inl e
      | Inr _ \<Rightarrow> Inr
          (case answer of
             Threw \<Rightarrow> fail_open
           | HttpStatus _ \<Rightarrow> fail_open
           | GraphqlErrors \<Rightarrow> fail_open
           | Answered None \<Rightarrow> \<lparr>actionable = False, failOpen = False, terminalNotFound = True\<rparr>
           | Answered (Some issue) \<Rightarrow>
               if dead_work issue then verdict False
               else case routingReason of
                 None \<Rightarrow> verdict True
               | Some r \<Rightarrow>
                   if r \<in> set ROSTER_FANOUT_REASONS then verdict (roster_gate issue agentUser roster)
                   else if r \<notin> set OWNERSHIP_REASONS then verdict True
                   else if r = Delegate then verdict (owner_gate (li_delegate issue) agentUser)
                   else verdict (owner_gate (li_assignee issue) agentUser)))"

definition isLinearIssueStillRoutedToAgent ::
  "string option \<Rightarrow> string option \<Rightarrow> string list \<Rightarrow> routing_answer \<Rightarrow> string \<Rightarrow> RoutingReason option \<Rightarrow> key_error + bool" where
  "isLinearIssueStillRoutedToAgent token agentUser roster answer ticketId routingReason =
     (case checkLinearIssueRouting token agentUser roster answer ticketId routingReason of
        Inl e \<Rightarrow> Inl e | Inr r \<Rightarrow> Inr (actionable r))"

definition isLinearIssueActionable :: "string option \<Rightarrow> routing_answer \<Rightarrow> string \<Rightarrow> key_error + bool" where
  "isLinearIssueActionable token answer ticketId =
     (if \<not> truthy token then Inr True
      else case issueIdentifierFromSessionKey ticketId of
        Inl e \<Rightarrow> Inl e
      | Inr _ \<Rightarrow> Inr
          (case answer of
             Answered None \<Rightarrow> False
           | Answered (Some issue) \<Rightarrow>
               if li_trashed issue \<or> truthy (li_archivedAt issue) then False
               else \<not> (isTerminalIssueState (ir_state (li_ref issue)) \<or> isParkedIssueState (ir_state (li_ref issue)) \<or>
                        isBlockedByOpenIssue issue)
           | _ \<Rightarrow> True))"

subsection \<open>Properties\<close>

text \<open>
  A wake goes only to live work of its owner: when the check confirms a route, the ticket exists, is
  not finished, parked, blocked by unfinished work, trashed or archived; a route by delegation or
  assignment is confirmed only to the holder, as far as the agent's user id is known; and a route
  by department never goes past a delegate who is someone else, nor to a ticket that only a human
  holds. An outage never drops a wake: every failure of the service leaves it actionable.
\<close>

theorem confirmed_route_is_live_and_owned:
  assumes "checkLinearIssueRouting token user roster answer ticket r = Inr res"
  shows "(failOpen res \<longrightarrow> actionable res) \<and>
    (failOpen res \<longleftrightarrow> \<not> truthy token \<or> answer \<in> {Threw, GraphqlErrors} \<union> range HttpStatus) \<and>
    (actionable res \<and> \<not> failOpen res \<longrightarrow> (\<exists>issue. answer = Answered (Some issue) \<and> \<not> dead_work issue \<and>
       (r = Some Delegate \<longrightarrow> (\<exists>u. li_delegate issue = Some u \<and> (truthy user \<longrightarrow> u_id u = user))) \<and>
       (r = Some Assignee \<longrightarrow> (\<exists>u. li_assignee issue = Some u \<and> (truthy user \<longrightarrow> u_id u = user))) \<and>
       (r \<in> {Some DepartmentPrefix, Some StewardEscalation} \<longrightarrow>
          (case li_delegate issue of Some u \<Rightarrow> truthy user \<longrightarrow> u_id u = user
           | None \<Rightarrow> \<not> isHumanLinearUser (li_assignee issue) roster))))"
proof (cases "truthy token")
  case True
  then obtain k where k: "issueIdentifierFromSessionKey ticket = Inr k"
    using assms by (cases "issueIdentifierFromSessionKey ticket") (auto simp: checkLinearIssueRouting_def)
  show ?thesis
  proof (cases answer)
    case (Answered found)
    show ?thesis
    proof (cases found)
      case None
      then show ?thesis using assms True k Answered by (auto simp: checkLinearIssueRouting_def)
    next
      case (Some issue)
      have res: "res = verdict (\<not> dead_work issue \<and>
          (r \<in> {Some DepartmentPrefix, Some StewardEscalation} \<longrightarrow> roster_gate issue user roster) \<and>
          (r = Some Delegate \<longrightarrow> owner_gate (li_delegate issue) user) \<and> (r = Some Assignee \<longrightarrow> owner_gate (li_assignee issue) user))"
        using assms True k Answered Some
        by (cases r; cases "dead_work issue"; cases "the r")
           (simp_all add: checkLinearIssueRouting_def ROSTER_FANOUT_REASONS_def OWNERSHIP_REASONS_def)
      have owner: "owner_gate u user \<Longrightarrow> \<exists>x. u = Some x \<and> (truthy user \<longrightarrow> u_id x = user)" for u
        by (cases u) (auto simp: owner_gate_def is_user_def split: if_splits)
      have fanout: "roster_gate issue user roster \<Longrightarrow> (case li_delegate issue of Some u \<Rightarrow> truthy user \<longrightarrow> u_id u = user
          | None \<Rightarrow> \<not> isHumanLinearUser (li_assignee issue) roster)"
        by (auto simp: roster_gate_def is_user_def split: option.splits if_splits)
      show ?thesis unfolding res using Answered Some True owner fanout by (auto simp: verdict_def)
    qed
  qed (use assms True k in \<open>auto simp: checkLinearIssueRouting_def fail_open_def\<close>)
qed (use assms in \<open>auto simp: checkLinearIssueRouting_def fail_open_def\<close>)

theorem confirmed_route_is_live_and_owned_witness:
  "\<exists>res. checkLinearIssueRouting (Some ''t'') (Some ''u1'') [] GraphqlErrors ''AI-7'' (Some Delegate) = Inr res \<and> actionable res"
proof -
  have run: "checkLinearIssueRouting (Some ''t'') (Some ''u1'') [] GraphqlErrors ''AI-7'' (Some Delegate) = Inr fail_open"
    by code_simp
  show ?thesis using confirmed_route_is_live_and_owned [OF run] run by (auto simp: truthy_def)
qed

text \<open>The two checks agree on what is live: they differ only in the ownership gates.\<close>

lemma actionable_is_unrouted:
  "isLinearIssueActionable token answer ticket = isLinearIssueStillRoutedToAgent token user roster answer ticket None"
  by (auto simp: isLinearIssueActionable_def isLinearIssueStillRoutedToAgent_def checkLinearIssueRouting_def dead_work_def
        verdict_def fail_open_def split: sum.splits routing_answer.splits option.splits)

end
