(* ===== verification/AppliedState.thy ===== *)
theory AppliedState
  imports SessionKey JsMap
begin

text \<open>
  \<open>src/store/applied-state-store.ts\<close>: the state the engine has just written for a ticket, trusted over
  the label the ticket service still shows, for sixty seconds. The store is a map from the upper
  case identifier; an expired entry is dropped when it is read.
\<close>

definition APPLIED_STATE_TTL_MS :: int where
  "APPLIED_STATE_TTL_MS = 60000"

record AppliedState =
  ap_state :: string
  appliedAt :: int

type_synonym applied_store = "(string, AppliedState) jsmap"

definition normalizeKey :: "string \<Rightarrow> string" where
  "normalizeKey issueId = toUpperCase (trim issueId)"

definition recordAppliedState :: "string \<Rightarrow> string \<Rightarrow> int \<Rightarrow> applied_store \<Rightarrow> applied_store" where
  "recordAppliedState issueId s now st =
     (if issueId = [] then st else map_set (normalizeKey issueId) \<lparr>ap_state = s, appliedAt = now\<rparr> st)"

definition getAppliedState :: "string \<Rightarrow> int \<Rightarrow> applied_store \<Rightarrow> string option \<times> applied_store" where
  "getAppliedState issueId now st =
     (if issueId = [] then (None, st)
      else case map_get st (normalizeKey issueId) of
        None \<Rightarrow> (None, st)
      | Some e \<Rightarrow>
          if APPLIED_STATE_TTL_MS < now - appliedAt e then (None, map_delete (normalizeKey issueId) st)
          else (Some (ap_state e), st))"

definition clearAppliedState :: "string \<Rightarrow> applied_store \<Rightarrow> applied_store" where
  "clearAppliedState issueId st = (if issueId = [] then st else map_delete (normalizeKey issueId) st)"

datatype applied_op = Record string string int | Read string int | Clear string

fun applied_step :: "applied_op \<Rightarrow> applied_store \<Rightarrow> applied_store" where
  "applied_step (Record i s t) st = recordAppliedState i s t st"
| "applied_step (Read i t) st = snd (getAppliedState i t st)"
| "applied_step (Clear i) st = clearAppliedState i st"

definition applied_run :: "applied_op list \<Rightarrow> applied_store \<Rightarrow> applied_store" where
  "applied_run ops st = fold applied_step ops st"

text \<open>What was last written for a key, if nothing cleared it since.\<close>

fun last_write :: "string \<Rightarrow> applied_op list \<Rightarrow> (string \<times> int) option" where
  "last_write k [] = None"
| "last_write k (op # later) =
     (case last_write k later of
        Some w \<Rightarrow> Some w
      | None \<Rightarrow>
          (case op of
             Record i s t \<Rightarrow> if i \<noteq> [] \<and> normalizeKey i = k \<and> \<not> (\<exists>j. Clear j \<in> set later \<and> j \<noteq> [] \<and> normalizeKey j = k) then Some (s, t) else None
           | _ \<Rightarrow> None))"

definition op_time :: "applied_op \<Rightarrow> int option" where
  "op_time op = (case op of Read _ t \<Rightarrow> Some t | _ \<Rightarrow> None)"

lemma reads_kept:
  "map_get st k = Some e \<Longrightarrow> appliedAt e + APPLIED_STATE_TTL_MS \<ge> now \<Longrightarrow> \<forall>op \<in> set ops. \<forall>t. op_time op = Some t \<longrightarrow> t \<le> now \<Longrightarrow>
   last_write k ops = None \<Longrightarrow> \<not> (\<exists>j. Clear j \<in> set ops \<and> j \<noteq> [] \<and> normalizeKey j = k) \<Longrightarrow>
   map_get (applied_run ops st) k = Some e"
  unfolding applied_run_def
proof (induction ops arbitrary: st)
  case (Cons op ops)
  have "map_get (applied_step op st) k = Some e"
  proof (cases op)
    case (Record i s t)
    then show ?thesis using Cons.prems by (auto simp: recordAppliedState_def split: option.splits if_splits)
  next
    case (Read i t)
    then have "t \<le> now" using Cons.prems(3) by (auto simp: op_time_def)
    then show ?thesis using Read Cons.prems(1,2) by (auto simp: getAppliedState_def split: option.splits)
  next
    case (Clear j)
    then show ?thesis using Cons.prems by (auto simp: clearAppliedState_def)
  qed
  moreover have "last_write k ops = None" using Cons.prems(4) by (auto split: option.splits)
  ultimately show ?case using Cons by (auto split: option.splits)
qed simp

lemma last_write_in_store:
  "last_write k ops = Some (s, t) \<Longrightarrow> t + APPLIED_STATE_TTL_MS \<ge> now \<Longrightarrow> \<forall>op \<in> set ops. \<forall>t. op_time op = Some t \<longrightarrow> t \<le> now \<Longrightarrow>
   map_get (applied_run ops st) k = Some \<lparr>ap_state = s, appliedAt = t\<rparr>"
proof (induction ops arbitrary: st)
  case (Cons op ops)
  show ?case
  proof (cases "last_write k ops")
    case (Some w)
    then show ?thesis using Cons by (simp add: applied_run_def)
  next
    case None
    then obtain i where i: "op = Record i s t" "i \<noteq> []" "normalizeKey i = k"
      "\<not> (\<exists>j. Clear j \<in> set ops \<and> j \<noteq> [] \<and> normalizeKey j = k)"
      using Cons.prems(1) by (auto split: applied_op.splits if_splits)
    then have "map_get (applied_step op st) k = Some \<lparr>ap_state = s, appliedAt = t\<rparr>" by (simp add: recordAppliedState_def)
    then have "map_get (applied_run ops (applied_step op st)) k = Some \<lparr>ap_state = s, appliedAt = t\<rparr>"
      using Cons.prems(2,3) None i(4) by (intro reads_kept [of _ _ _ now]) auto
    then show ?thesis by (simp add: applied_run_def)
  qed
qed simp

text \<open>
  Read your own write: within the sixty seconds after the engine recorded a state, every spelling
  of the identifier reads that state back, whatever other writes, clears of other tickets and
  reads (which evict) come between, unless a later write or a clear of the same ticket replaced it.
\<close>

theorem applied_state_reads_back:
  assumes "last_write (normalizeKey i) ops = Some (s, t)" and "i \<noteq> []" and "now \<le> t + APPLIED_STATE_TTL_MS"
    and "\<forall>op \<in> set ops. \<forall>u. op_time op = Some u \<longrightarrow> u \<le> now"
  shows "fst (getAppliedState i now (applied_run ops st)) = Some s"
  using last_write_in_store [OF assms(1,3,4), of st] assms(2,3) by (simp add: getAppliedState_def)

theorem applied_state_reads_back_witness:
  "fst (getAppliedState ''ai-7'' 60000 (applied_run [Record ''AI-7'' ''doing'' 0, Clear ''AI-8'', Read ''AI-7'' 5] [])) = Some ''doing''"
  by (rule applied_state_reads_back [where t = 0])
     (simp_all add: APPLIED_STATE_TTL_MS_def op_time_def, code_simp)

end
