(* ===== verification/Barrier.thy ===== *)
theory Barrier
  imports WorkflowDef AppliedState LinearActionable
begin

text \<open>
  The barrier of a parent ticket, \<open>src/barrier.ts\<close>: a state declared \<open>barrier: true\<close> is left by the engine
  when every child that counts has finished. \<open>src/fanout-outcome-store.ts\<close> holds what the last fan-out
  produced. What the ticket
  service answers is the record \<open>BarrierWorld\<close>; a query that throws or whose answer is malformed is
  \<open>None\<close>. Comments, alarms and mutations are the list of effects, in their order.
\<close>

subsection \<open>Children\<close>

definition TERMINAL_WORKFLOW_STATES :: "string list" where
  "TERMINAL_WORKFLOW_STATES = [''done'', ''escape'']"

record ChildNode =
  n_identifier :: string
  n_state :: "IssueState option"
  n_labels :: "string list"

record ChildState =
  c_identifier :: string
  c_labels :: "string list"
  isTerminal :: bool
  workflowState :: "string option"
  isOrphaned :: bool

record BarrierResult =
  allTerminal :: bool
  totalChildren :: nat
  terminalCount :: nat
  orphanedCount :: nat
  br_children :: "ChildState list"
  readFailed :: bool

definition isBarrierState :: "WorkflowState option \<Rightarrow> bool" where
  "isBarrierState s = (case s of None \<Rightarrow> False | Some x \<Rightarrow> is_true (s_barrier x))"

definition isChildTerminal :: "string list \<Rightarrow> bool" where
  "isChildTerminal labels =
     (let s = getCurrentState labels None in truthy s \<and> the s \<in> set TERMINAL_WORKFLOW_STATES)"

definition child_state :: "ChildNode \<Rightarrow> ChildState" where
  "child_state n =
     (let ws = getCurrentState (n_labels n) None in
      \<lparr>c_identifier = n_identifier n, c_labels = n_labels n,
       isTerminal = isTerminalIssueState (n_state n) \<or> isChildTerminal (n_labels n),
       workflowState = ws, isOrphaned = ws = None \<and> n_labels n \<noteq> []\<rparr>)"

text \<open>\<open>None\<close>: the request threw, had a bad status, GraphQL errors, or no children connection.\<close>

definition fetchChildren :: "ChildNode list option \<Rightarrow> ChildState list option" where
  "fetchChildren answer = map_option (map child_state) answer"

subsection \<open>Evaluation\<close>

definition childIsInBarrierScope :: "string option \<Rightarrow> ChildState \<Rightarrow> bool" where
  "childIsInBarrierScope scope c =
     (if scope = Some ''owned-infra'' then ''dept-output:owned-infra'' \<in> set (c_labels c) else True)"

definition tally :: "ChildState list \<Rightarrow> BarrierResult" where
  "tally cs =
     (let terminal = length (filter isTerminal cs); orphaned = length (filter isOrphaned cs) in
      \<lparr>allTerminal = orphaned = 0 \<and> terminal = length cs, totalChildren = length cs, terminalCount = terminal,
       orphanedCount = orphaned, br_children = cs, readFailed = False\<rparr>)"

definition no_children :: "bool \<Rightarrow> bool \<Rightarrow> BarrierResult" where
  "no_children all failed =
     \<lparr>allTerminal = all, totalChildren = 0, terminalCount = 0, orphanedCount = 0, br_children = [], readFailed = failed\<rparr>"

definition expected_ok :: "string list option \<Rightarrow> ChildState \<Rightarrow> bool" where
  "expected_ok expected c = (orElse expected [] = [] \<or> c_identifier c \<in> set (orElse expected []))"

definition evaluateBarrier :: "string list option \<Rightarrow> string option \<Rightarrow> ChildState list option \<Rightarrow> BarrierResult" where
  "evaluateBarrier expected scope children =
     (case children of
        None \<Rightarrow> no_children False True
      | Some cs \<Rightarrow>
          if orElse expected [] \<noteq> [] \<or> truthy scope then
            (let filtered = filter (childIsInBarrierScope scope) (filter (expected_ok expected) cs)
             in if filtered = [] then no_children False False else tally filtered)
          else if cs = [] then no_children True False
          else tally cs)"

subsection \<open>What the last fan-out produced\<close>

datatype FanoutOutcomeType = NotDeclared | Waived | Awaiting | Refused | PendingApproval | FanoutFailed

record FanoutOutcome =
  outcome :: FanoutOutcomeType
  childIdentifiers :: "string list option"
  recordedAt :: string

type_synonym outcome_store = "(string, FanoutOutcome) jsmap"

definition recordFanoutOutcome :: "string \<Rightarrow> FanoutOutcome \<Rightarrow> outcome_store \<Rightarrow> outcome_store" where
  "recordFanoutOutcome p o' st = map_set p o' st"

definition getFanoutOutcome :: "string \<Rightarrow> outcome_store \<Rightarrow> FanoutOutcome option" where
  "getFanoutOutcome p st = map_get st p"

definition removeFanoutOutcome :: "string \<Rightarrow> outcome_store \<Rightarrow> bool \<times> outcome_store" where
  "removeFanoutOutcome p st = (map_has st p, map_delete p st)"

definition awaited :: "FanoutOutcome option \<Rightarrow> string list option" where
  "awaited fo = (case fo of
       Some f \<Rightarrow> if outcome f = Awaiting \<and> orElse (childIdentifiers f) [] \<noteq> [] then childIdentifiers f else None
     | None \<Rightarrow> None)"

subsection \<open>A manual continue out of a barrier\<close>

datatype barrier_block =
    BadOutcome FanoutOutcomeType
  | AwaitingApproval
  | ChildrenUnreadable
  | NoRelevantChildren
  | OrphanedChildren "(string \<times> string) list"
  | PendingChildren "(string \<times> string) list"

definition summarizeBarrierChildren :: "ChildState list \<Rightarrow> (string \<times> string) list" where
  "summarizeBarrierChildren cs = map (\<lambda>c. (c_identifier c, orElse (workflowState c) ''unknown'')) cs"

definition getManualBarrierContinueBlockReason :: "FanoutOutcome option \<Rightarrow> ChildState list option \<Rightarrow> barrier_block option" where
  "getManualBarrierContinueBlockReason fo children =
     (let oc = map_option outcome fo; b = evaluateBarrier (awaited fo) None children in
      if awaited fo = None \<and> oc \<in> {Some Refused, Some FanoutFailed} then map_option BadOutcome oc
      else if awaited fo = None \<and> oc = Some PendingApproval then Some AwaitingApproval
      else if readFailed b then Some ChildrenUnreadable
      else if totalChildren b = 0 then Some NoRelevantChildren
      else if 0 < orphanedCount b then Some (OrphanedChildren (summarizeBarrierChildren (filter isOrphaned (br_children b))))
      else if \<not> allTerminal b then Some (PendingChildren (summarizeBarrierChildren (filter (\<lambda>c. \<not> isTerminal c) (br_children b))))
      else None)"

subsection \<open>The transition of the parent\<close>

definition resolveBarrierTarget :: "WorkflowDef \<Rightarrow> WorkflowState \<Rightarrow> string option" where
  "resolveBarrierTarget def st =
     (case List.find (\<lambda>t. t_command t = Some ''complete'') (s_transitions st) of
        Some t \<Rightarrow> t_to t
      | None \<Rightarrow>
          let breakGlass = (case d_break_glass def of None \<Rightarrow> ''escape'' | Some bg \<Rightarrow> bg_command bg)
          in case List.find (\<lambda>t. t_command t \<noteq> Some breakGlass) (s_transitions st) of
               None \<Rightarrow> None | Some t \<Rightarrow> t_to t)"

record ParentState =
  ps_labels :: "string list"
  ps_internalId :: string

record IssueWithLabels =
  il_labels :: "(string \<times> string) list"
  il_internalId :: string

text \<open>
  The answers of the services during one attempt: the parent with its label ids, the label found or
  created for a name, the native state for a semantic one, and whether the update succeeded.
\<close>

record BarrierWorld =
  bw_outcome :: "FanoutOutcome option"
  bw_parent :: "ParentState option"
  bw_registry :: "(string \<Rightarrow> WorkflowDef option) option"
  bw_children :: "ChildNode list option"
  bw_labels :: "IssueWithLabels option"
  bw_findOrCreateLabel :: "string \<Rightarrow> string option"
  bw_nativeStateId :: "string \<Rightarrow> string option"
  bw_updated :: bool

datatype barrier_error =
    OutcomeHeld FanoutOutcomeType
  | ParentUnreadable
  | NoWorkflow
  | NoState
  | NotABarrier string string
  | UnreadableChildren
  | Orphans nat
  | NoTarget string
  | LabelsUnreadable
  | StateLabelMissing string
  | TargetLabelMissing string
  | NativeStateUnresolved string string
  | UpdateFailed

datatype barrier_effect =
    AlarmUnreadable
  | AlarmOrphans "string list"
  | UpdateIssue string "string list" "string option" bool
  | Summary "(string \<times> string) list"

record BarrierTransitionResult =
  transitioned :: bool
  tr_terminalCount :: nat
  tr_totalChildren :: nat
  tr_error :: "barrier_error option"

definition not_yet :: "nat \<Rightarrow> nat \<Rightarrow> barrier_error option \<Rightarrow> BarrierTransitionResult" where
  "not_yet n m e = \<lparr>transitioned = False, tr_terminalCount = n, tr_totalChildren = m, tr_error = e\<rparr>"

definition find_state :: "WorkflowDef option \<Rightarrow> string \<Rightarrow> WorkflowState option" where
  "find_state d i = (case d of None \<Rightarrow> None | Some def \<Rightarrow> stateNodeById def (Some i))"

text \<open>The swap of the state label, once the barrier is satisfied: from the target of the state on.\<close>

definition swap_state ::
  "BarrierWorld \<Rightarrow> WorkflowDef \<Rightarrow> WorkflowState \<Rightarrow> string \<Rightarrow> BarrierResult \<Rightarrow> BarrierTransitionResult \<times> barrier_effect list" where
  "swap_state w def st currentState b =
     (let fail = (\<lambda>e. (not_yet (terminalCount b) (totalChildren b) (Some e), []));
          target = resolveBarrierTarget def st
      in if \<not> truthy target then fail (NoTarget currentState)
         else case bw_labels w of
           None \<Rightarrow> fail LabelsUnreadable
         | Some parent \<Rightarrow>
             (case List.find (\<lambda>l. snd l = ''state:'' @ currentState) (il_labels parent) of
                None \<Rightarrow> fail (StateLabelMissing currentState)
              | Some current \<Rightarrow>
                  (case bw_findOrCreateLabel w (''state:'' @ the target) of
                     None \<Rightarrow> fail (TargetLabelMissing (the target))
                   | Some reviewLabelId \<Rightarrow>
                       (let newLabelIds = map fst (filter (\<lambda>l. fst l \<noteq> fst current) (il_labels parent)) @ [reviewLabelId];
                            targetDef = stateNodeById def target;
                            ownerless = (case targetDef of None \<Rightarrow> True | Some t \<Rightarrow> s_kind t = Some ''terminal'' \<or> \<not> truthy (s_owner_role t));
                            native = (case targetDef of None \<Rightarrow> None | Some t \<Rightarrow> s_native_state t);
                            nativeId = (if truthy native then bw_nativeStateId w (the native) else None)
                        in if ownerless \<and> truthy native \<and> nativeId = None then fail (NativeStateUnresolved (the native) (the target))
                           else if \<not> bw_updated w
                           then (not_yet (terminalCount b) (totalChildren b) (Some UpdateFailed),
                                 [UpdateIssue (il_internalId parent) newLabelIds nativeId ownerless])
                           else (\<lparr>transitioned = True, tr_terminalCount = terminalCount b, tr_totalChildren = totalChildren b, tr_error = None\<rparr>,
                                 [UpdateIssue (il_internalId parent) newLabelIds nativeId ownerless,
                                  Summary (summarizeBarrierChildren (br_children b))])))))"

text \<open>From the reading of the children on; \<open>childFilter\<close> is the set of children to wait for.\<close>

definition evaluate_and_swap ::
  "BarrierWorld \<Rightarrow> WorkflowDef \<Rightarrow> WorkflowState \<Rightarrow> string \<Rightarrow> string list option \<Rightarrow> BarrierTransitionResult \<times> barrier_effect list" where
  "evaluate_and_swap w def st currentState childFilter =
     (let b = evaluateBarrier childFilter (s_barrier_scope st) (fetchChildren (bw_children w)) in
      if readFailed b then (not_yet (terminalCount b) (totalChildren b) (Some UnreadableChildren), [AlarmUnreadable])
      else if 0 < orphanedCount b
      then (not_yet (terminalCount b) (totalChildren b) (Some (Orphans (orphanedCount b))),
            [AlarmOrphans (map c_identifier (filter isOrphaned (br_children b)))])
      else if \<not> allTerminal b then (not_yet (terminalCount b) (totalChildren b) None, [])
      else swap_state w def st currentState b)"

definition attemptBarrierTransition ::
  "BarrierWorld \<Rightarrow> WorkflowDef option \<Rightarrow> string list option \<Rightarrow> string option \<Rightarrow> BarrierTransitionResult \<times> barrier_effect list" where
  "attemptBarrierTransition w workflowDef expected prefetchedState =
     (let outcomeType = (if expected = None then map_option outcome (bw_outcome w) else None);
          childFilter = (if expected = None then awaited (bw_outcome w) else expected)
      in if outcomeType \<in> {Some Refused, Some FanoutFailed, Some PendingApproval}
         then (not_yet 0 0 (Some (OutcomeHeld (the outcomeType))), [])
         else case bw_parent w of
           None \<Rightarrow> (not_yet 0 0 (Some ParentUnreadable), [])
         | Some parent \<Rightarrow>
             (let workflowId = getWorkflowId (ps_labels parent);
                  currentState = (case prefetchedState of Some s \<Rightarrow> Some s | None \<Rightarrow> getCurrentState (ps_labels parent) None)
              in if \<not> truthy workflowId then (not_yet 0 0 (Some NoWorkflow), [])
                 else if \<not> truthy currentState then (not_yet 0 0 (Some NoState), [])
                 else let wfDef = (case workflowDef of Some d \<Rightarrow> Some d
                                   | None \<Rightarrow> (case bw_registry w of None \<Rightarrow> None | Some reg \<Rightarrow> reg (the workflowId)));
                          stateDef = find_state wfDef (the currentState)
                      in if \<not> isBarrierState stateDef then (not_yet 0 0 (Some (NotABarrier (the currentState) (the workflowId))), [])
                         else evaluate_and_swap w (the wfDef) (the stateDef) (the currentState) childFilter))"

text \<open>
  The check when a parent enters a barrier state; \<open>applied\<close> is the state the engine has just written.
  Nothing is returned when the children are still at work. The children are read twice, before the
  attempt and in it: \<open>w\<close> and \<open>w'\<close> are the answers at the two times.
\<close>

definition onManagingEntry ::
  "BarrierWorld \<Rightarrow> BarrierWorld \<Rightarrow> string option \<Rightarrow> (BarrierTransitionResult \<times> barrier_effect list) option" where
  "onManagingEntry w w' applied =
     (let liveState = (case bw_parent w of None \<Rightarrow> None | Some p \<Rightarrow> getCurrentState (ps_labels p) None);
          currentState = (case applied of Some s \<Rightarrow> Some s | None \<Rightarrow> liveState);
          wfDef = (case bw_parent w of
              None \<Rightarrow> None
            | Some p \<Rightarrow> if truthy currentState \<and> truthy (getWorkflowId (ps_labels p))
                then (case bw_registry w of None \<Rightarrow> None | Some reg \<Rightarrow> reg (the (getWorkflowId (ps_labels p)))) else None);
          stateDef = (if wfDef = None then None else find_state wfDef (the currentState));
          scope = (case stateDef of None \<Rightarrow> None | Some s \<Rightarrow> s_barrier_scope s);
          oc = map_option outcome (bw_outcome w);
          b = evaluateBarrier (awaited (bw_outcome w)) scope (fetchChildren (bw_children w));
          attempt = attemptBarrierTransition (if bw_parent w = None then w' else w'\<lparr>bw_parent := bw_parent w\<rparr>) wfDef
      in if oc \<in> {Some Refused, Some FanoutFailed, Some PendingApproval} then Some (not_yet 0 0 (Some (OutcomeHeld (the oc))), [])
         else if readFailed b then Some (not_yet 0 0 (Some UnreadableChildren), [AlarmUnreadable])
         else if awaited (bw_outcome w) \<noteq> None
         then if \<not> allTerminal b then None else Some (attempt (awaited (bw_outcome w)) currentState)
         else if 0 < orphanedCount b
         then Some (not_yet (terminalCount b) (totalChildren b) (Some (Orphans (orphanedCount b))),
                    [AlarmOrphans (map c_identifier (filter isOrphaned (br_children b)))])
         else if \<not> allTerminal b then None
         else Some (attempt None currentState))"

definition onChildTerminal ::
  "string option \<Rightarrow> BarrierWorld \<Rightarrow> string option \<Rightarrow> (BarrierTransitionResult \<times> barrier_effect list) option" where
  "onChildTerminal parentIdentifier w applied =
     (if \<not> truthy parentIdentifier then None
      else case bw_parent w of
        None \<Rightarrow> None
      | Some p \<Rightarrow>
          (let currentState = (case applied of Some s \<Rightarrow> Some s | None \<Rightarrow> getCurrentState (ps_labels p) None);
               workflowId = getWorkflowId (ps_labels p)
           in if \<not> truthy workflowId \<or> \<not> truthy currentState then None
              else let wfDef = (case bw_registry w of None \<Rightarrow> None | Some reg \<Rightarrow> reg (the workflowId))
                   in if \<not> isBarrierState (find_state wfDef (the currentState)) then None
                      else Some (attemptBarrierTransition w wfDef None currentState)))"

subsection \<open>Properties\<close>

definition counts :: "string list option \<Rightarrow> string option \<Rightarrow> ChildState \<Rightarrow> bool" where
  "counts expected scope c = (expected_ok expected c \<and> childIsInBarrierScope scope c)"

lemma tally_all: "allTerminal (tally cs) \<longleftrightarrow> (\<forall>c \<in> set cs. isTerminal c \<and> \<not> isOrphaned c)"
proof -
  have "length (filter isTerminal cs) = length cs \<longleftrightarrow> (\<forall>c \<in> set cs. isTerminal c)"
    by (metis filter_True length_filter_less nat_neq_iff)
  then show ?thesis by (auto simp: tally_def Let_def filter_empty_conv)
qed

lemma not_scoped: "\<not> truthy scope \<Longrightarrow> childIsInBarrierScope scope c"
  by (auto simp: childIsInBarrierScope_def truthy_def)

lemma evaluate_read:
  "evaluateBarrier expected scope (Some cs) =
     (let cs' = filter (counts expected scope) cs in
      if cs' = [] then no_children (orElse expected [] = [] \<and> \<not> truthy scope) False else tally cs')"
proof (cases "orElse expected [] \<noteq> [] \<or> truthy scope")
  case True
  moreover have "filter (childIsInBarrierScope scope) (filter (expected_ok expected) cs) = filter (counts expected scope) cs"
    by (simp add: counts_def [abs_def])
  ultimately show ?thesis by (auto simp: evaluateBarrier_def Let_def)
next
  case False
  then have "filter (counts expected scope) cs = cs"
    by (auto simp: filter_id_conv counts_def expected_ok_def not_scoped)
  then show ?thesis using False by (simp add: evaluateBarrier_def Let_def)
qed

lemma evaluate_done:
  assumes "allTerminal (evaluateBarrier expected scope children)"
  shows "\<exists>cs. children = Some cs \<and> (\<forall>c \<in> set cs. counts expected scope c \<longrightarrow> isTerminal c \<and> \<not> isOrphaned c) \<and>
    ((orElse expected [] \<noteq> [] \<or> truthy scope) \<longrightarrow> (\<exists>c \<in> set cs. counts expected scope c))"
proof (cases children)
  case (Some cs)
  show ?thesis
  proof (cases "filter (counts expected scope) cs = []")
    case True
    then show ?thesis using assms Some by (simp add: evaluate_read no_children_def filter_empty_conv)
  next
    case False
    then show ?thesis using assms Some by (auto simp: evaluate_read Let_def tally_all filter_empty_conv split: if_splits)
  qed
qed (use assms in \<open>simp add: evaluateBarrier_def no_children_def\<close>)

lemma swap_updates:
  "UpdateIssue i ls n clear \<in> set (snd (swap_state w def st s b)) \<Longrightarrow>
   \<exists>target parent cur l. resolveBarrierTarget def st = Some target \<and> target \<noteq> [] \<and> bw_labels w = Some parent \<and> i = il_internalId parent \<and>
     (cur, ''state:'' @ s) \<in> set (il_labels parent) \<and> bw_findOrCreateLabel w (''state:'' @ target) = Some l \<and>
     ls = map fst (filter (\<lambda>x. fst x \<noteq> cur) (il_labels parent)) @ [l]"
  by (auto simp: swap_state_def not_yet_def Let_def truthy_def split: if_splits option.splits dest!: find_SomeD)

lemma attempt_updates:
  assumes "UpdateIssue i ls n clear \<in> set (snd (attemptBarrierTransition w d expected st))"
  obtains parent wf s def node where
    "bw_parent w = Some parent" "getWorkflowId (ps_labels parent) = Some wf"
    "Some s = (case st of Some x \<Rightarrow> Some x | None \<Rightarrow> getCurrentState (ps_labels parent) None)"
    "Some def = (case d of Some x \<Rightarrow> Some x | None \<Rightarrow> (case bw_registry w of None \<Rightarrow> None | Some reg \<Rightarrow> reg wf))"
    "stateNodeById def (Some s) = Some node" "is_true (s_barrier node)"
    "expected = None \<Longrightarrow> map_option outcome (bw_outcome w) \<notin> {Some Refused, Some FanoutFailed, Some PendingApproval}"
    "allTerminal (evaluateBarrier (if expected = None then awaited (bw_outcome w) else expected) (s_barrier_scope node)
       (fetchChildren (bw_children w)))"
    "UpdateIssue i ls n clear \<in> set (snd (swap_state w def node s
       (evaluateBarrier (if expected = None then awaited (bw_outcome w) else expected) (s_barrier_scope node) (fetchChildren (bw_children w)))))"
proof -
  let ?oc = "if expected = None then map_option outcome (bw_outcome w) else None"
  let ?f = "if expected = None then awaited (bw_outcome w) else expected"
  have oc: "?oc \<notin> {Some Refused, Some FanoutFailed, Some PendingApproval}"
    using assms unfolding attemptBarrierTransition_def Let_def by (auto split: if_splits)
  then obtain parent where p: "bw_parent w = Some parent"
    using assms unfolding attemptBarrierTransition_def Let_def by (cases "bw_parent w") auto
  obtain wf where wf: "getWorkflowId (ps_labels parent) = Some wf" "truthy (Some wf)"
    using assms oc p unfolding attemptBarrierTransition_def Let_def
    by (cases "getWorkflowId (ps_labels parent)") (auto simp: truthy_def split: if_splits)
  let ?cur = "case st of Some x \<Rightarrow> Some x | None \<Rightarrow> getCurrentState (ps_labels parent) None"
  obtain s where s: "?cur = Some s" "truthy (Some s)"
    using assms oc p wf unfolding attemptBarrierTransition_def Let_def 
    by (cases st; cases "getCurrentState (ps_labels parent) None") (auto simp: truthy_def split: if_splits)
  let ?def = "case d of Some x \<Rightarrow> Some x | None \<Rightarrow> (case bw_registry w of None \<Rightarrow> None | Some reg \<Rightarrow> reg wf)"
  have bar: "isBarrierState (find_state ?def s)"
    using assms oc p wf s unfolding attemptBarrierTransition_def Let_def
    by (auto split: if_splits cong del: option.case_cong_weak)
  then obtain def node where def: "?def = Some def" "stateNodeById def (Some s) = Some node" "is_true (s_barrier node)"
    by (cases ?def) (auto simp: isBarrierState_def find_state_def split: option.splits)
  have "UpdateIssue i ls n clear \<in> set (snd (evaluate_and_swap w def node s ?f))"
    using assms oc p wf s def bar unfolding attemptBarrierTransition_def Let_def
    by (simp add: find_state_def cong del: option.case_cong_weak)
  then have e: "allTerminal (evaluateBarrier ?f (s_barrier_scope node) (fetchChildren (bw_children w)))"
    "UpdateIssue i ls n clear \<in> set (snd (swap_state w def node s (evaluateBarrier ?f (s_barrier_scope node) (fetchChildren (bw_children w)))))"
    by (auto simp: evaluate_and_swap_def Let_def split: if_splits)
  show thesis
    by (rule that [OF p wf(1) s(1) [symmetric] def(1) [symmetric] def(2,3) _ e]) (use oc in auto)
qed


lemma swap_ignores_children: "swap_state (w\<lparr>bw_children := c\<rparr>) = swap_state w"
  by (intro ext) (simp add: swap_state_def Let_def cong del: option.case_cong_weak if_weak_cong)

lemma counts_expected:
  assumes "orElse ids [] \<noteq> []"
    and "filter (\<lambda>n. n_identifier n \<in> set (orElse ids [])) ns = filter (\<lambda>n. n_identifier n \<in> set (orElse ids [])) ns'"
  shows "evaluateBarrier ids scope (fetchChildren (Some ns)) = evaluateBarrier ids scope (fetchChildren (Some ns'))"
proof -
  have f: "filter (counts ids scope) (map child_state ms) =
      filter (childIsInBarrierScope scope) (map child_state (filter (\<lambda>n. n_identifier n \<in> set (orElse ids [])) ms))" for ms
    using assms(1) by (induction ms) (auto simp: counts_def expected_ok_def child_state_def Let_def)
  show ?thesis unfolding fetchChildren_def option.map evaluate_read f assms(2) ..
qed

text \<open>
  Siblings of earlier cycles do not matter: when the fan-out recorded the children it waits for, two
  worlds that agree on those children make the same attempt, however many other children there are
  and in whatever state.
\<close>

theorem stale_siblings_do_not_count:
  assumes "awaited (bw_outcome w) = Some ids" and "bw_children w = Some ns"
    and "filter (\<lambda>n. n_identifier n \<in> set ids) ns' = filter (\<lambda>n. n_identifier n \<in> set ids) ns"
  shows "attemptBarrierTransition (w\<lparr>bw_children := Some ns'\<rparr>) d None st = attemptBarrierTransition w d None st"
proof -
  have ne: "ids \<noteq> []" using assms(1) by (auto simp: awaited_def split: option.splits if_splits)
  then have "evaluateBarrier (Some ids) scope (fetchChildren (Some ns')) = evaluateBarrier (Some ids) scope (fetchChildren (Some ns))" for scope
    by (intro counts_expected) (simp_all add: assms(3))
  then have "evaluate_and_swap (w\<lparr>bw_children := Some ns'\<rparr>) def node s (Some ids) = evaluate_and_swap w def node s (Some ids)" for def node s
    by (simp add: evaluate_and_swap_def assms(2) swap_ignores_children Let_def)
  then show ?thesis by (simp add: attemptBarrierTransition_def assms(1) Let_def cong del: option.case_cong_weak if_weak_cong)
qed

text \<open>
  A child that is finished natively but carries labels of no workflow state counts as orphaned as well
  as finished, and its parent then never leaves the barrier by itself.
\<close>

theorem finished_child_off_workflow_blocks:
  assumes "bw_children w = Some ns" and "n \<in> set ns" and "getCurrentState (n_labels n) None = None" and "n_labels n \<noteq> []"
    and "isTerminalIssueState (n_state n)" and "awaited (bw_outcome w) = None" and "\<forall>s \<in> set (d_states def). s_barrier_scope s = None"
  shows "isTerminal (child_state n) \<and> UpdateIssue i ls m clear \<notin> set (snd (attemptBarrierTransition w (Some def) None st))"
proof
  show "isTerminal (child_state n)" using assms(5) by (simp add: child_state_def Let_def)
  have orphan: "isOrphaned (child_state n)" using assms(3,4) by (simp add: child_state_def Let_def)
  have waits: "\<not> allTerminal (evaluateBarrier None None (fetchChildren (bw_children w)))"
    using evaluate_done [of None None "fetchChildren (bw_children w)"] assms(1,2) orphan
    by (auto simp: fetchChildren_def counts_def expected_ok_def not_scoped truthy_def)
  show "UpdateIssue i ls m clear \<notin> set (snd (attemptBarrierTransition w (Some def) None st))"
  proof
    assume upd: "UpdateIssue i ls m clear \<in> set (snd (attemptBarrierTransition w (Some def) None st))"
    have scope: "stateNodeById def k = Some node \<Longrightarrow> s_barrier_scope node = None" for k node
      using assms(7) by (auto simp: stateNodeById_def split: option.splits dest: find_SomeD)
    show False by (rule attempt_updates [OF upd]) (use waits assms(6) scope in auto)
  qed
qed

definition sample_barrier :: BarrierWorld where
  "sample_barrier = \<lparr>bw_outcome = Some \<lparr>outcome = Awaiting, childIdentifiers = Some [''AI-2''], recordedAt = []\<rparr>,
     bw_parent = Some \<lparr>ps_labels = [''wf:task'', ''state:managing''], ps_internalId = ''p''\<rparr>, bw_registry = None,
     bw_children = Some [\<lparr>n_identifier = ''AI-2'', n_state = None, n_labels = [''state:done'']\<rparr>,
                         \<lparr>n_identifier = ''AI-1'', n_state = Some \<lparr>is_type = Some ''completed'', is_name = None\<rparr>, n_labels = [''repo:x'']\<rparr>],
     bw_labels = Some \<lparr>il_labels = [(''l1'', ''wf:task''), (''l2'', ''state:managing'')], il_internalId = ''p''\<rparr>,
     bw_findOrCreateLabel = (\<lambda>_. Some ''l3''), bw_nativeStateId = (\<lambda>_. None), bw_updated = True\<rparr>"

definition managing_def :: WorkflowDef where
  "managing_def = sample_def [sample_state ''managing'' \<lparr>s_barrier := YBool True,
     s_transitions := [\<lparr>t_command = Some ''complete'', t_to = Some ''review'', t_requires_capability = None,
       t_requires_capability_statement = False, t_requires_demonstration_walk = False, t_designated_approver = False,
       t_requires_artifact = False, t_feedback_required = False, t_assign = None, t_requires_human_signoff = False,
       t_requires_deploy_probe = False, t_requires_comment = False, t_requires_children_terminal = False,
       t_requires_implementation_child = False, t_capture_ac = False, t_generic = None\<rparr>]\<rparr>, sample_state ''review'']"


theorem stale_siblings_do_not_count_witness:
  "attemptBarrierTransition (sample_barrier\<lparr>bw_children := Some [\<lparr>n_identifier = ''AI-2'', n_state = None, n_labels = [''state:done'']\<rparr>]\<rparr>)
     (Some managing_def) None None = attemptBarrierTransition sample_barrier (Some managing_def) None None"
  by (rule stale_siblings_do_not_count) (auto simp: sample_barrier_def awaited_def)

theorem finished_child_off_workflow_blocks_witness:
  "UpdateIssue ''p'' [''l1'', ''l3''] None True \<notin> set (snd (attemptBarrierTransition (sample_barrier\<lparr>bw_outcome := None\<rparr>) (Some managing_def) None None))"
proof -
  let ?n = "\<lparr>n_identifier = ''AI-1'', n_state = Some \<lparr>is_type = Some ''completed'', is_name = None\<rparr>, n_labels = [''repo:x'']\<rparr>"
  have "getCurrentState (n_labels ?n) None = None" "isTerminalIssueState (n_state ?n)" by code_simp+
  then show ?thesis
    using finished_child_off_workflow_blocks [of "sample_barrier\<lparr>bw_outcome := None\<rparr>" _ ?n managing_def]
    by (auto simp: sample_barrier_def awaited_def managing_def_def sample_def_def sample_state_def)
qed

end
