(* ===== verification/StallDetection.thy ===== *)
theory StallDetection
  imports Barrier
begin

text \<open>
  Stall detection of \<open>src/barrier.ts\<close>: how long a child has been in its state, less the time it was
  deferred because its agent was at capacity, against the limit of the state. Times are integers of
  milliseconds, limits rationals (\<open>1.5h\<close>); a time that cannot be parsed is \<open>NaN\<close>, here \<open>None\<close>.
\<close>

subsection \<open>Limits\<close>

definition unit_ms :: "string \<Rightarrow> rat option" where
  "unit_ms u =
     (if u = ''h'' then Some 3600000 else if u = ''m'' then Some 60000 else if u = ''s'' then Some 1000
      else if u = ''ms'' \<or> u = [] then Some 1 else None)"

text \<open>\<open>/^\s*(\d+(?:\.\d+)?)\s*(h|m|s|ms)?\s*$/i\<close> and the value it stands for.\<close>

definition parseSlaToMs :: "string \<Rightarrow> rat option" where
  "parseSlaToMs sla =
     (let s = dropWhile is_space sla;
          whole = takeWhile is_digit s;
          s1 = dropWhile is_digit s;
          frac = (case s1 of [] \<Rightarrow> [] | c # cs \<Rightarrow> if c = CHR ''.'' then takeWhile is_digit cs else []);
          s2 = (if frac = [] then s1 else drop (length frac + 1) s1)
      in if whole = [] then None
         else map_option (\<lambda>f. (of_nat (dec_val 0 (whole @ frac)) / 10 ^ length frac) * f)
                (unit_ms (map ascii_lower (trim s2))))"

definition DEFAULT_STALL_THRESHOLD_MS :: int where
  "DEFAULT_STALL_THRESHOLD_MS = 1800000"

definition DEFAULT_POLL_INTERVAL_MS :: int where
  "DEFAULT_POLL_INTERVAL_MS = 600000"

definition env_or :: "string option \<Rightarrow> int \<Rightarrow> int" where
  "env_or v d = (case parseInt (orElse v []) of None \<Rightarrow> d | Some n \<Rightarrow> if n \<le> 0 then d else n)"

definition parseStallConfig :: "string option \<Rightarrow> string option \<Rightarrow> int \<times> int" where
  "parseStallConfig flat poll = (env_or flat DEFAULT_STALL_THRESHOLD_MS, env_or poll DEFAULT_POLL_INTERVAL_MS)"

subsection \<open>Deferral accounting\<close>

record Deferral =
  startedAt :: int
  accumulatedMs :: int

type_synonym accountant = "(string, Deferral) jsmap"

definition startDeferral :: "string \<Rightarrow> int \<Rightarrow> accountant \<Rightarrow> accountant" where
  "startDeferral c now a =
     (case map_get a c of
        Some e \<Rightarrow> map_set c (e\<lparr>accumulatedMs := accumulatedMs e + (now - startedAt e), startedAt := now\<rparr>) a
      | None \<Rightarrow> map_set c \<lparr>startedAt = now, accumulatedMs = 0\<rparr> a)"

definition stopDeferral :: "string \<Rightarrow> int \<Rightarrow> accountant \<Rightarrow> int \<times> accountant" where
  "stopDeferral c now a =
     (case map_get a c of
        None \<Rightarrow> (0, a)
      | Some e \<Rightarrow> (accumulatedMs e + (now - startedAt e), map_delete c a))"

definition getDeferralMs :: "string \<Rightarrow> int \<Rightarrow> accountant \<Rightarrow> int" where
  "getDeferralMs c now a = (case map_get a c of None \<Rightarrow> 0 | Some e \<Rightarrow> accumulatedMs e + (now - startedAt e))"

definition isDeferring :: "string \<Rightarrow> accountant \<Rightarrow> bool" where
  "isDeferring c a = map_has a c"

definition clearAll :: "accountant \<Rightarrow> accountant" where
  "clearAll a = []"

datatype deferral_op = Start string int | Stop string int | ClearAll

fun deferral_step :: "deferral_op \<Rightarrow> accountant \<Rightarrow> accountant" where
  "deferral_step (Start c t) a = startDeferral c t a"
| "deferral_step (Stop c t) a = snd (stopDeferral c t a)"
| "deferral_step ClearAll a = clearAll a"

text \<open>The time of the first start since the last stop.\<close>

definition open_since :: "string \<Rightarrow> deferral_op list \<Rightarrow> int option" where
  "open_since c ops = fold (\<lambda>op cur. case op of
       Start d t \<Rightarrow> if d = c \<and> cur = None then Some t else cur
     | Stop d _ \<Rightarrow> if d = c then None else cur
     | ClearAll \<Rightarrow> None) ops None"

text \<open>
  The deferral of a child is the time since the first start that no stop has ended, however often the
  deferral is started again; a stop pays out exactly that time and forgets it.
\<close>

theorem deferral_is_elapsed_time:
  "getDeferralMs c now (fold deferral_step ops []) = (case open_since c ops of None \<Rightarrow> 0 | Some t \<Rightarrow> now - t) \<and>
   fst (stopDeferral c now (fold deferral_step ops [])) = (case open_since c ops of None \<Rightarrow> 0 | Some t \<Rightarrow> now - t) \<and>
   (isDeferring c (fold deferral_step ops []) \<longleftrightarrow> open_since c ops \<noteq> None)"
proof -
  have inv: "(case map_get (fold deferral_step ops []) c of None \<Rightarrow> open_since c ops = None
      | Some e \<Rightarrow> open_since c ops = Some (startedAt e - accumulatedMs e))"
  proof (induction ops rule: rev_induct)
    case (snoc op ops)
    then show ?case
      by (cases op) (auto simp: open_since_def startDeferral_def stopDeferral_def clearAll_def split: option.splits if_splits)
  qed (simp add: open_since_def)
  then show ?thesis
    by (auto simp: getDeferralMs_def stopDeferral_def isDeferring_def has_get split: option.splits)
qed

subsection \<open>Detection\<close>

record StalledChild =
  sc_identifier :: string
  sc_currentState :: "string option"
  lastActivityAt :: "int option"
  stateEnteredAt :: "int option option"
  stateSlaMs :: "rat option"
  timeInStateMs :: "int option"
  knownDeferralMs :: int
  isDeferredAtCapacity :: bool

text \<open>
  \<open>None\<close> stands for the missing answer, \<open>Some None\<close> for a time that does not parse. The state is entered,
  for the engine, at the first entry of the ticket's history.
\<close>

definition fetchChildLastActivity :: "string option \<Rightarrow> int option option" where
  "fetchChildLastActivity updatedAt = (if truthy updatedAt then Some (getTime (the updatedAt)) else None)"

definition fetchChildStateEnteredAt :: "(string list \<times> string option list) option \<Rightarrow> int option option" where
  "fetchChildStateEnteredAt issue =
     (case issue of
        None \<Rightarrow> None
      | Some (labels, history) \<Rightarrow>
          if \<not> truthy (getCurrentState labels None) then None
          else case List.find truthy history of
            None \<Rightarrow> None | Some t \<Rightarrow> Some (getTime (the t)))"

record ChildClock =
  ck_updatedAt :: "string option"
  ck_history :: "(string list \<times> string option list) option"

definition sla_of :: "WorkflowDef option \<Rightarrow> ChildState \<Rightarrow> rat option" where
  "sla_of def c =
     (case def of None \<Rightarrow> None
      | Some d \<Rightarrow>
          if truthy (workflowState c)
          then case stateNodeById d (workflowState c) of
                 None \<Rightarrow> None
               | Some s \<Rightarrow> if truthy (s_sla s) then parseSlaToMs (the (s_sla s)) else None
          else None)"

definition child_stall ::
  "WorkflowDef option \<Rightarrow> (string \<Rightarrow> ChildClock) \<Rightarrow> accountant \<Rightarrow> int \<Rightarrow> int \<Rightarrow> ChildState \<Rightarrow> StalledChild option" where
  "child_stall def clock acct flat now c =
     (if isTerminal c then None
      else case fetchChildLastActivity (ck_updatedAt (clock (c_identifier c))) of
        None \<Rightarrow> None
      | Some seen \<Rightarrow>
          (let idle = map_option (\<lambda>t. now - t) seen;
               entered = fetchChildStateEnteredAt (ck_history (clock (c_identifier c)));
               inState = (case entered of None \<Rightarrow> idle | Some e \<Rightarrow> map_option (\<lambda>t. now - t) e);
               sla = sla_of def c;
               known = getDeferralMs (c_identifier c) now acct;
               effective = map_option (\<lambda>t. max 0 (t - known)) inState
           in if isDeferring (c_identifier c) acct then None
              else if (case effective of None \<Rightarrow> False | Some t \<Rightarrow> (case sla of None \<Rightarrow> of_int flat | Some l \<Rightarrow> l) \<le> of_int t)
              then Some \<lparr>sc_identifier = c_identifier c, sc_currentState = workflowState c, lastActivityAt = seen,
                         stateEnteredAt = entered, stateSlaMs = sla, timeInStateMs = inState, knownDeferralMs = known,
                         isDeferredAtCapacity = False\<rparr>
              else None))"

definition detectStalledChildren ::
  "ChildState list option \<Rightarrow> WorkflowDef option \<Rightarrow> (string \<Rightarrow> ChildClock) \<Rightarrow> accountant \<Rightarrow> int \<Rightarrow> int \<Rightarrow> StalledChild list" where
  "detectStalledChildren children def clock acct flat now =
     (case children of None \<Rightarrow> [] | Some cs \<Rightarrow> List.map_filter (child_stall def clock acct flat now) cs)"

record StallEvent =
  ev_child :: string
  ev_state :: string
  ev_timeInState :: "int option"
  ev_slaMs :: rat
  ev_breachMs :: "rat option"
  ev_knownDeferral :: int
  ev_createdAt :: int

definition buildStallEvent :: "StalledChild \<Rightarrow> int \<Rightarrow> StallEvent" where
  "buildStallEvent c now =
     (let sla = (case stateSlaMs c of None \<Rightarrow> of_int DEFAULT_STALL_THRESHOLD_MS | Some l \<Rightarrow> l) in
      \<lparr>ev_child = sc_identifier c, ev_state = orElse (sc_currentState c) ''unknown'', ev_timeInState = timeInStateMs c,
       ev_slaMs = sla, ev_breachMs = map_option (\<lambda>t. max 0 (of_int (t - knownDeferralMs c) - sla)) (timeInStateMs c),
       ev_knownDeferral = knownDeferralMs c, ev_createdAt = now\<rparr>)"

text \<open>
  Deferral that is over is never credited: a child is reported exactly when it is unfinished, is not
  being deferred at this moment, and its full time in the state, with no deferral taken off, has
  reached the limit; every report says its known deferral is zero.
\<close>

theorem past_deferral_is_not_credited:
  "x \<in> set (detectStalledChildren (Some cs) def clock acct flat now) \<longleftrightarrow>
   (\<exists>c \<in> set cs. \<not> isTerminal c \<and> \<not> isDeferring (c_identifier c) acct \<and>
      (\<exists>seen entered t. fetchChildLastActivity (ck_updatedAt (clock (c_identifier c))) = Some seen \<and>
         entered = fetchChildStateEnteredAt (ck_history (clock (c_identifier c))) \<and>
         (case entered of None \<Rightarrow> seen | Some e \<Rightarrow> e) = Some t \<and>
         (case sla_of def c of None \<Rightarrow> of_int flat | Some l \<Rightarrow> l) \<le> rat_of_int (max 0 (now - t)) \<and>
         x = \<lparr>sc_identifier = c_identifier c, sc_currentState = workflowState c, lastActivityAt = seen, stateEnteredAt = entered,
              stateSlaMs = sla_of def c, timeInStateMs = Some (now - t), knownDeferralMs = 0, isDeferredAtCapacity = False\<rparr>))"
  (is "_ \<longleftrightarrow> (\<exists>c \<in> set cs. ?P c)")
proof -
  have zero: "\<not> isDeferring i acct \<Longrightarrow> getDeferralMs i now acct = 0" for i
    by (simp add: isDeferring_def has_get getDeferralMs_def)
  have "child_stall def clock acct flat now c = Some x \<longleftrightarrow> ?P c" for c
  proof (cases "isTerminal c \<or> isDeferring (c_identifier c) acct")
    case False
    then show ?thesis
      by (cases "fetchChildLastActivity (ck_updatedAt (clock (c_identifier c)))";
          cases "fetchChildStateEnteredAt (ck_history (clock (c_identifier c)))")
         (auto simp: child_stall_def Let_def zero split: option.splits)
  qed (auto simp: child_stall_def Let_def split: option.splits)
  then show ?thesis by (auto simp: detectStalledChildren_def List.map_filter_def image_iff) (metis option.sel)+
qed

end
