(* ===== verification/ConfigHealth.thy ===== *)
theory ConfigHealth
  imports Prelude
begin

text \<open>
  \<open>src/config-health.ts\<close>: the health of the three configuration artifacts. Every load reports a success
  or a failure; the gate refuses to advance tickets while any artifact is unhealthy. An alert is
  the number of callbacks that were registered when it fired, with the status it carried; a
  callback that throws does not stop the others.
\<close>

datatype ArtifactKind = WorkflowDefArtifact | CapabilityPolicyArtifact | AgentsArtifact

record ArtifactHealth =
  healthy :: bool
  lastSuccess :: "string option"
  lastFailure :: "string option"
  lastError :: "string option"
  consecutiveFailures :: nat

type_synonym artifacts = "ArtifactKind \<Rightarrow> ArtifactHealth"

record 'cb ConfigHealth =
  artifactState :: artifacts
  alertCallbacks :: "'cb list"

definition never_loaded :: ArtifactHealth where
  "never_loaded = \<lparr>healthy = True, lastSuccess = None, lastFailure = None, lastError = None, consecutiveFailures = 0\<rparr>"

definition all_kinds :: "ArtifactKind list" where
  "all_kinds = [WorkflowDefArtifact, CapabilityPolicyArtifact, AgentsArtifact]"

definition isHealthy :: "artifacts \<Rightarrow> bool" where
  "isHealthy st = list_all (\<lambda>k. healthy (st k)) all_kinds"

definition recordSuccess :: "ArtifactKind \<Rightarrow> string \<Rightarrow> 'cb ConfigHealth \<Rightarrow> 'cb ConfigHealth" where
  "recordSuccess k now c =
     (let a = artifactState c k in
      c\<lparr>artifactState := (artifactState c)(k := a\<lparr>healthy := True, lastSuccess := Some now, lastError := None, consecutiveFailures := 0\<rparr>)\<rparr>)"

text \<open>The callbacks that are called, in their order.\<close>

definition recordFailure :: "ArtifactKind \<Rightarrow> string \<Rightarrow> string \<Rightarrow> 'cb ConfigHealth \<Rightarrow> 'cb ConfigHealth \<times> 'cb list" where
  "recordFailure k err now c =
     (let a = artifactState c k;
          a' = a\<lparr>healthy := False, lastFailure := Some now, lastError := Some err, consecutiveFailures := consecutiveFailures a + 1\<rparr>;
          c' = c\<lparr>artifactState := (artifactState c)(k := a')\<rparr>
      in (c', if healthy a \<or> consecutiveFailures a' mod 5 = 0 then alertCallbacks c else []))"

definition onAlert :: "'cb \<Rightarrow> 'cb ConfigHealth \<Rightarrow> 'cb ConfigHealth" where
  "onAlert cb c = c\<lparr>alertCallbacks := alertCallbacks c @ [cb]\<rparr>"

definition unsubscribe :: "'cb \<Rightarrow> 'cb ConfigHealth \<Rightarrow> 'cb ConfigHealth" where
  "unsubscribe cb c = c\<lparr>alertCallbacks := filter (\<lambda>x. x \<noteq> cb) (alertCallbacks c)\<rparr>"

definition resetConfigHealth :: "'cb ConfigHealth \<Rightarrow> 'cb ConfigHealth" where
  "resetConfigHealth c = \<lparr>artifactState = (\<lambda>_. never_loaded), alertCallbacks = []\<rparr>"

datatype load = Loaded ArtifactKind string | Failed ArtifactKind string string

fun load_step :: "load \<Rightarrow> 'cb ConfigHealth \<times> 'cb list list \<Rightarrow> 'cb ConfigHealth \<times> 'cb list list" where
  "load_step (Loaded k now) (c, fired) = (recordSuccess k now c, fired)"
| "load_step (Failed k err now) (c, fired) =
     (let (c', f) = recordFailure k err now c in (c', if f = [] then fired else fired @ [f]))"

definition load_run :: "load list \<Rightarrow> 'cb ConfigHealth \<Rightarrow> 'cb ConfigHealth \<times> 'cb list list" where
  "load_run es c = fold load_step es (c, [])"

fun load_kind :: "load \<Rightarrow> ArtifactKind" where
  "load_kind (Loaded k _) = k"
| "load_kind (Failed k _ _) = k"

fun is_failure :: "load \<Rightarrow> bool" where
  "is_failure (Loaded _ _) = False"
| "is_failure (Failed _ _ _) = True"

text \<open>The failures of an artifact since its last success.\<close>

definition failing_since :: "ArtifactKind \<Rightarrow> load list \<Rightarrow> nat" where
  "failing_since k es = length (takeWhile is_failure (rev (filter (\<lambda>e. load_kind e = k) es)))"

lemma failing_since_simps [simp]:
  "failing_since k [] = 0"
  "failing_since k (es @ [e]) =
     (if load_kind e = k then if is_failure e then Suc (failing_since k es) else 0 else failing_since k es)"
  by (simp_all add: failing_since_def)

definition start :: "'cb list \<Rightarrow> 'cb ConfigHealth" where
  "start cbs = \<lparr>artifactState = (\<lambda>_. never_loaded), alertCallbacks = cbs\<rparr>"

lemma load_run_snoc [simp]: "load_run (es @ [e]) c = load_step e (load_run es c)" "load_run [] c = (c, [])"
  by (simp_all add: load_run_def)

lemma load_run_tracks:
  "alertCallbacks (fst (load_run es (start cbs))) = cbs \<and>
   (\<forall>k. healthy (artifactState (fst (load_run es (start cbs))) k) \<longleftrightarrow> failing_since k es = 0) \<and>
   (\<forall>k. consecutiveFailures (artifactState (fst (load_run es (start cbs))) k) = failing_since k es)"
proof (induction es rule: rev_induct)
  case (snoc e es)
  obtain c fired where run: "load_run es (start cbs) = (c, fired)" by fastforce
  show ?case using snoc run
    by (cases e) (auto simp: recordSuccess_def recordFailure_def Let_def)
qed (simp add: start_def never_loaded_def)

text \<open>
  Enforcement is trusted exactly when every artifact loaded last time: in any history of loads the
  configuration counts as healthy exactly when no artifact has failed since its last success, and
  the alert of a failure fires exactly on the first failure after a success and on every fifth of
  an unbroken run, to every callback.
\<close>

theorem healthy_iff_all_loaded:
  "(isHealthy (artifactState (fst (load_run es (start cbs)))) \<longleftrightarrow> (\<forall>k. failing_since k es = 0)) \<and>
   snd (recordFailure k err now (fst (load_run es (start cbs)))) =
     (if failing_since k es = 0 \<or> (failing_since k es + 1) mod 5 = 0 then cbs else [])"
proof -
  have "isHealthy (artifactState (fst (load_run es (start cbs)))) \<longleftrightarrow> (\<forall>k. healthy (artifactState (fst (load_run es (start cbs))) k))"
    unfolding isHealthy_def all_kinds_def using ArtifactKind.exhaust by (simp, metis (full_types))
  then show ?thesis using load_run_tracks [of es cbs] by (simp add: recordFailure_def Let_def)
qed

end
