(* ===== verification/DeployProbe.thy ===== *)
theory DeployProbe
  imports JsString
begin

text \<open>
  \<open>src/deploy-probe.ts\<close>: the probe of the running service. The HTTP request and \<open>JSON.parse\<close> are the
  argument \<open>answer\<close>: it failed, it has a bad status, or it has a body with the \<open>commit\<close> its JSON
  carries (\<open>Inl\<close> when the body is no JSON object, \<open>Inr None\<close> when the object has no commit; a commit is
  a text).
\<close>

datatype http_answer =
    RequestFailed string
  | BadStatus nat
  | Body string "unit + string option"

datatype probe_reason = NoUrl | Status nat | HallmarkMissing string | Stale string string | ProbeFailed string

record DeployProbeResult =
  success :: bool
  reason :: "probe_reason option"
  runningCommit :: "string option"

definition running_commit :: "string \<Rightarrow> unit + string option \<Rightarrow> string" where
  "running_commit body json =
     (case json of Inl _ \<Rightarrow> take 40 (trim body) | Inr c \<Rightarrow> if truthy c then the c else ''unknown'')"

definition probeDeployOutcome ::
  "string \<Rightarrow> string option \<Rightarrow> (string \<times> string) option \<Rightarrow> http_answer \<Rightarrow> DeployProbeResult" where
  "probeDeployOutcome expectedCommit url behaviorProbe answer =
     (if \<not> truthy url then \<lparr>success = True, reason = Some NoUrl, runningCommit = None\<rparr>
      else case answer of
        RequestFailed m \<Rightarrow> \<lparr>success = False, reason = Some (ProbeFailed m), runningCommit = None\<rparr>
      | BadStatus n \<Rightarrow> \<lparr>success = False, reason = Some (Status n), runningCommit = Some ''unknown''\<rparr>
      | Body body json \<Rightarrow>
          (let running = running_commit body json in
           case behaviorProbe of
             Some (pattern, description) \<Rightarrow>
               if js_includes pattern body then \<lparr>success = True, reason = None, runningCommit = Some running\<rparr>
               else \<lparr>success = False, reason = Some (HallmarkMissing description), runningCommit = Some running\<rparr>
           | None \<Rightarrow>
               if running = expectedCommit \<or> starts_with expectedCommit running \<or> starts_with running expectedCommit
               then \<lparr>success = True, reason = None, runningCommit = Some running\<rparr>
               else \<lparr>success = False, reason = Some (Stale running expectedCommit), runningCommit = Some running\<rparr>))"

text \<open>
  When the probe reports success although a URL is configured, the service answered, and either the
  hallmark is in its answer or one of the two commits is a prefix of the other. The empty text is a
  prefix of every commit: a service that answers with an empty (or blank) body passes the commit
  check whatever is running.
\<close>

theorem probe_success_means:
  "(success (probeDeployOutcome expected url hallmark answer) \<longleftrightarrow> url \<in> {None, Some []} \<or>
     (\<exists>body json. answer = Body body json \<and>
       (case hallmark of Some (p, _) \<Rightarrow> js_includes p body
        | None \<Rightarrow> starts_with expected (running_commit body json) \<or> starts_with (running_commit body json) expected))) \<and>
   success (probeDeployOutcome expected url None (Body (replicate n CHR '' '') (Inl ())))"
proof -
  have "dropWhile is_space (replicate n CHR '' '') = []" by (induction n) (auto simp: is_space_def)
  then have blank: "running_commit (replicate n CHR '' '') (Inl ()) = []" by (simp add: running_commit_def trim_def)
  show ?thesis
    by (cases answer; cases hallmark) (auto simp: probeDeployOutcome_def Let_def blank starts_with_def truthy_def split: if_splits option.splits)
qed

end
