(* ===== verification/DeployPolicy.thy ===== *)
theory DeployPolicy
  imports Yaml
begin

text \<open>
  \<open>src/deploy-policy.ts\<close>: which repositories have no automatic deployment. The policy file is read
  again when its path or its modification time changes; a missing file flags nothing, and so does a
  malformed one, which is reported. The file system and the YAML parser are the arguments \<open>mtime\<close>
  (\<open>None\<close>: no such file) and \<open>content\<close> (\<open>None\<close>: cannot be read or parsed).
\<close>

type_synonym deploy_policy = "(string \<times> yaml) list"

record PolicyCache =
  pc_policy :: deploy_policy
  pc_path :: string
  pc_mtimeMs :: int

definition entry_ok :: "string \<times> yaml \<Rightarrow> bool" where
  "entry_ok e = (case snd e of Mapping _ \<Rightarrow> True | _ \<Rightarrow> False)"

text \<open>The repositories of a parsed file, \<open>None\<close> when it is malformed.\<close>

definition policy_of :: "yaml \<Rightarrow> deploy_policy option" where
  "policy_of raw =
     (if raw = Null \<or> raw = Undefined then (if raw = Null then Some [] else None)
      else if \<not> is_object raw then None
      else case yaml_get ''repos'' raw of
        Undefined \<Rightarrow> Some []
      | Mapping m \<Rightarrow> if list_all entry_ok m then Some m else None
      | _ \<Rightarrow> None)"

definition loadDeployPolicy ::
  "string \<Rightarrow> int option \<Rightarrow> yaml option \<Rightarrow> PolicyCache option \<Rightarrow> deploy_policy \<times> PolicyCache option \<times> bool" where
  "loadDeployPolicy file mtime content cache =
     (case mtime of
        None \<Rightarrow> ([], Some \<lparr>pc_policy = [], pc_path = file, pc_mtimeMs = - 1\<rparr>, False)
      | Some m \<Rightarrow>
          if (case cache of None \<Rightarrow> False | Some c \<Rightarrow> pc_path c = file \<and> pc_mtimeMs c = m)
          then (pc_policy (the cache), cache, False)
          else case (case content of None \<Rightarrow> None | Some y \<Rightarrow> policy_of y) of
            Some p \<Rightarrow> (p, Some \<lparr>pc_policy = p, pc_path = file, pc_mtimeMs = m\<rparr>, False)
          | None \<Rightarrow> ([], Some \<lparr>pc_policy = [], pc_path = file, pc_mtimeMs = m\<rparr>, True))"

definition ends_with :: "string \<Rightarrow> string \<Rightarrow> bool" where
  "ends_with t s = starts_with (rev t) (rev s)"

definition normalizeRepoRef :: "string \<Rightarrow> string" where
  "normalizeRepoRef ref =
     (let s = toLowerCase (trim ref) in if ends_with ''.git'' s then take (length s - 4) s else s)"

definition has_owner :: "string \<Rightarrow> bool" where
  "has_owner s = (CHR ''/'' \<in> set s)"

definition repo_name :: "string \<Rightarrow> string" where
  "repo_name s = rev (takeWhile (\<lambda>c. c \<noteq> CHR ''/'') (rev s))"

definition repoMatchesKey :: "string \<Rightarrow> string \<Rightarrow> bool" where
  "repoMatchesKey repoRef key =
     (let ref = normalizeRepoRef repoRef; k = normalizeRepoRef key in
      ref = k \<or> \<not> has_owner k \<and> repo_name ref = repo_name k \<or> \<not> has_owner ref \<and> repo_name ref = repo_name k)"

definition flagged_keys :: "deploy_policy \<Rightarrow> string list" where
  "flagged_keys p = map fst (filter (\<lambda>e. yaml_get ''ci_auto_deploy'' (snd e) = YBool False) p)"

definition reposWithoutCiAutoDeploy :: "deploy_policy \<Rightarrow> string list \<Rightarrow> string list" where
  "reposWithoutCiAutoDeploy p repoRefs =
     fold (\<lambda>ref hits. fold (\<lambda>key hits. if repoMatchesKey ref key then set_add key hits else hits) (flagged_keys p) hits) repoRefs []"

lemma hits_set:
  "set (fold (\<lambda>key hits. if P key then set_add key hits else hits) ks hits) = set hits \<union> {k \<in> set ks. P k}"
  by (induction ks arbitrary: hits) auto

lemma flagged_repos:
  "set (reposWithoutCiAutoDeploy p refs) = {k \<in> set (flagged_keys p). \<exists>r \<in> set refs. repoMatchesKey r k}"
proof -
  have "set (fold (\<lambda>ref hits. fold (\<lambda>key hits. if repoMatchesKey ref key then set_add key hits else hits) (flagged_keys p) hits) refs hits) =
      set hits \<union> {k \<in> set (flagged_keys p). \<exists>r \<in> set refs. repoMatchesKey r k}" for hits
    by (induction refs arbitrary: hits) (auto simp: hits_set)
  then show ?thesis by (simp add: reposWithoutCiAutoDeploy_def)
qed

lemma matching_is_symmetric: "repoMatchesKey a b = repoMatchesKey b a"
  by (auto simp: repoMatchesKey_def Let_def)

lemma qualified_match_is_exact:
  "has_owner (normalizeRepoRef a) \<Longrightarrow> has_owner (normalizeRepoRef b) \<Longrightarrow>
   repoMatchesKey a b \<longleftrightarrow> normalizeRepoRef a = normalizeRepoRef b"
  by (auto simp: repoMatchesKey_def Let_def)

end
