(* ===== verification/JsRegex.thy ===== *)
theory JsRegex
  imports JsString JsMap
begin

text \<open>
  Regular expressions as the sources use them with \<open>test\<close>: only whether a pattern occurs matters, so a
  pattern is matched by the set of positions at which a match that starts at a given position may
  end. Greedy and lazy repetition differ in which end they prefer, not in this set. As in the
  language, an iteration of a star that consumes nothing is not taken. \<open>matches\<close> is the declarative
  meaning and \<open>ends\<close> computes it.
\<close>

datatype rx =
    Eps
  | Cls "char \<Rightarrow> bool"
  | Lit string
  | LitCI string
  | WordBoundary
  | LineStart
  | Cat rx rx
  | Alt rx rx
  | Star rx

definition is_word :: "char \<Rightarrow> bool" where
  "is_word c = (let n = of_char c :: nat in 48 \<le> n \<and> n \<le> 57 \<or> 65 \<le> n \<and> n \<le> 90 \<or> 97 \<le> n \<and> n \<le> 122 \<or> n = 95)"

definition line_end :: "char \<Rightarrow> bool" where
  "line_end c = (of_char c \<in> {10, 13 :: nat})"

definition hex_ci :: "char \<Rightarrow> bool" where
  "hex_ci c = (is_digit c \<or> (let n = of_char (ascii_lower c) :: nat in 97 \<le> n \<and> n \<le> 102))"

definition char_at :: "(char \<Rightarrow> bool) \<Rightarrow> string \<Rightarrow> nat \<Rightarrow> bool" where
  "char_at P s i = (i < length s \<and> P (s ! i))"

definition boundary :: "string \<Rightarrow> nat \<Rightarrow> bool" where
  "boundary s i = ((0 < i \<and> char_at is_word s (i - 1)) \<noteq> char_at is_word s i)"

definition has_at :: "(char \<Rightarrow> char) \<Rightarrow> string \<Rightarrow> string \<Rightarrow> nat \<Rightarrow> bool" where
  "has_at f t s i = (i + length t \<le> length s \<and> map f (take (length t) (drop i s)) = t)"

function star_ends :: "(nat \<Rightarrow> nat list) \<Rightarrow> nat \<Rightarrow> nat \<Rightarrow> nat list" where
  "star_ends f n i = unique (i # concat (map (star_ends f n) (filter (\<lambda>j. i < j \<and> j \<le> n) (f i))))"
  by pat_completeness auto

termination star_ends
  by (relation "measure (\<lambda>(f, n, i). n - i)") auto

declare star_ends.simps [simp del]

primrec ends :: "rx \<Rightarrow> string \<Rightarrow> nat \<Rightarrow> nat list" where
  "ends Eps s i = [i]"
| "ends (Cls P) s i = (if char_at P s i then [i + 1] else [])"
| "ends (Lit t) s i = (if has_at id t s i then [i + length t] else [])"
| "ends (LitCI t) s i = (if has_at ascii_lower t s i then [i + length t] else [])"
| "ends WordBoundary s i = (if boundary s i then [i] else [])"
| "ends LineStart s i = (if i = 0 \<or> char_at line_end s (i - 1) then [i] else [])"
| "ends (Cat p q) s i = unique (concat (map (ends q s) (ends p s i)))"
| "ends (Alt p q) s i = unique (ends p s i @ ends q s i)"
| "ends (Star p) s i = star_ends (ends p s) (length s) i"

text \<open>\<open>/p/.test(s)\<close>\<close>

definition occurs_in :: "rx \<Rightarrow> string \<Rightarrow> bool" where
  "occurs_in p s = (\<exists>i \<in> set [0..<length s + 1]. ends p s i \<noteq> [])"

primrec times :: "nat \<Rightarrow> rx \<Rightarrow> rx" where
  "times 0 p = Eps"
| "times (Suc n) p = Cat p (times n p)"

primrec at_most :: "nat \<Rightarrow> rx \<Rightarrow> rx" where
  "at_most 0 p = Eps"
| "at_most (Suc n) p = Alt (Cat p (at_most n p)) Eps"

definition opt :: "rx \<Rightarrow> rx" where
  "opt p = Alt p Eps"

definition plus :: "rx \<Rightarrow> rx" where
  "plus p = Cat p (Star p)"

fun cat :: "rx list \<Rightarrow> rx" where
  "cat [] = Eps"
| "cat [p] = p"
| "cat (p # ps) = Cat p (cat ps)"

fun alts :: "rx list \<Rightarrow> rx" where
  "alts [] = Cls (\<lambda>_. False)"
| "alts [p] = p"
| "alts (p # ps) = Alt p (alts ps)"

subsection \<open>The matcher is exact\<close>

inductive matches :: "rx \<Rightarrow> string \<Rightarrow> nat \<Rightarrow> nat \<Rightarrow> bool" where
  "matches Eps s i i"
| "char_at P s i \<Longrightarrow> matches (Cls P) s i (i + 1)"
| "has_at id t s i \<Longrightarrow> matches (Lit t) s i (i + length t)"
| "has_at ascii_lower t s i \<Longrightarrow> matches (LitCI t) s i (i + length t)"
| "boundary s i \<Longrightarrow> matches WordBoundary s i i"
| "i = 0 \<or> char_at line_end s (i - 1) \<Longrightarrow> matches LineStart s i i"
| "matches p s i j \<Longrightarrow> matches q s j k \<Longrightarrow> matches (Cat p q) s i k"
| "matches p s i j \<Longrightarrow> matches (Alt p q) s i j"
| "matches q s i j \<Longrightarrow> matches (Alt p q) s i j"
| "matches (Star p) s i i"
| "matches p s i j \<Longrightarrow> i < j \<Longrightarrow> matches (Star p) s j k \<Longrightarrow> matches (Star p) s i k"

inductive_cases matchesE:
  "matches Eps s i j" "matches (Cls P) s i j" "matches (Lit t) s i j" "matches (LitCI t) s i j"
  "matches WordBoundary s i j" "matches LineStart s i j" "matches (Cat p q) s i j" "matches (Alt p q) s i j"

lemma matches_span: "matches p s i j \<Longrightarrow> i \<le> length s \<Longrightarrow> i \<le> j \<and> j \<le> length s"
  by (induction rule: matches.induct) (auto simp: char_at_def has_at_def)

lemma star_sound:
  assumes "\<And>i j. j \<in> set (ends p s i) \<Longrightarrow> matches p s i j" and "k \<in> set (star_ends (ends p s) n i)"
  shows "matches (Star p) s i k"
  using assms(2)
proof (induction "n - i" arbitrary: i rule: less_induct)
  case less
  consider "k = i" | j where "j \<in> set (ends p s i)" "i < j" "j \<le> n" "k \<in> set (star_ends (ends p s) n j)"
    using less.prems by (subst (asm) star_ends.simps) auto
  then show ?case
  proof cases
    case 1
    then show ?thesis by (simp add: matches.intros)
  next
    case 2
    have "matches (Star p) s j k" using less.hyps [of j] 2 by auto
    then show ?thesis using assms(1) [OF 2(1)] 2(2) matches.intros(11) by blast
  qed
qed

lemma star_complete:
  "matches r s i k \<Longrightarrow> r = Star p \<Longrightarrow> i \<le> length s \<Longrightarrow> (\<And>i j. matches p s i j \<Longrightarrow> i \<le> length s \<Longrightarrow> j \<in> set (ends p s i)) \<Longrightarrow>
   k \<in> set (star_ends (ends p s) (length s) i)"
proof (induction rule: matches.induct)
  case (10 q s i)
  then show ?case by (simp add: star_ends.simps [of _ _ i])
next
  case (11 q s i j k)
  have j: "j \<in> set (ends p s i)" "j \<le> length s" using 11 matches_span by auto
  then show ?case using 11 by (subst star_ends.simps) auto
qed simp_all

theorem ends_exact: "i \<le> length s \<Longrightarrow> j \<in> set (ends p s i) \<longleftrightarrow> matches p s i j"
proof
  show "matches p s i j" if "j \<in> set (ends p s i)" using that
  proof (induction p arbitrary: i j)
    case (Star p)
    then show ?case using star_sound [of p s] by simp
  next
    case (Cat p q)
    from Cat.prems obtain x where "x \<in> set (ends p s i)" "j \<in> set (ends q s x)" by auto
    then show ?case using matches.intros(7) [OF Cat.IH(1) Cat.IH(2)] by blast
  next
    case (Cls P)
    then show ?case using matches.intros(2) [of P s i] by (auto split: if_splits)
  qed (auto split: if_splits intro: matches.intros)
  show "j \<in> set (ends p s i)" if "i \<le> length s" "matches p s i j" using that
  proof (induction p arbitrary: i j)
    case (Cat p q)
    from Cat.prems(2) obtain k where k: "matches p s i k" "matches q s k j" by (rule matchesE(7))
    then have "k \<le> length s" using matches_span Cat.prems(1) by blast
    then show ?case using Cat.IH(1) [OF Cat.prems(1) k(1)] Cat.IH(2) [OF _ k(2)] by auto
  next
    case (Star p)
    then show ?case using star_complete [of "Star p" s i j p] by simp
  qed (auto elim: matchesE)
qed

corollary occurs_iff: "occurs_in p s \<longleftrightarrow> (\<exists>i j. i \<le> length s \<and> matches p s i j)"
proof -
  have "ends p s i \<noteq> [] \<longleftrightarrow> (\<exists>j. matches p s i j)" if "i \<le> length s" for i
    using ends_exact [OF that, of _ p] by (metis list.set_intros(1) neq_Nil_conv empty_iff empty_set)
  moreover have "set [0..<length s + 1] = {i. i \<le> length s}" by auto
  ultimately show ?thesis unfolding occurs_in_def by auto
qed

end
