(* ===== verification/GateBase.thy ===== *)
theory GateBase
  imports RoutineVerbs CapabilityPolicy Barrier DeployPolicy DeployProbe ConfigHealth JsRegex
begin

text \<open>
  \<open>checkWorkflowRules\<close> of \<open>src/workflow-gate.ts\<close>: every command an agent sends through the proxy passes
  this gate first. The function is a sequence of checks of which the first that decides wins; each
  check is a definition here, and the function composes them in its order. What the ticket service,
  GitHub, the probe and the files answer during the call is the record \<open>GateWorld\<close>, one field per
  place where an answer is read. A refused command carries the reason (the message texts are not
  modelled); alerts sent to the alert bus are returned with the verdict. The policy is the loaded
  one. A role that needs a scope throws, and where the code does not catch it, so does the gate.
\<close>

subsection \<open>Request, world and verdict\<close>

record TicketContext =
  tc_labels :: "string list"
  tc_delegateId :: "string option"
  tc_nativeState :: "IssueState option"
  tc_identifier :: "string option"
  fetchFailed :: bool

record ContextAnswer =
  ca_identifier :: "string option"
  ca_labels :: "string list"
  ca_delegate :: "string option"
  ca_state :: "IssueState option"

text \<open>\<open>None\<close>: the request threw, or the answer has no issue.\<close>

definition fetchTicketContext :: "ContextAnswer option \<Rightarrow> TicketContext" where
  "fetchTicketContext answer =
     (case answer of
        None \<Rightarrow> \<lparr>tc_labels = [], tc_delegateId = None, tc_nativeState = None, tc_identifier = None, fetchFailed = True\<rparr>
      | Some i \<Rightarrow> \<lparr>tc_labels = ca_labels i, tc_delegateId = ca_delegate i, tc_nativeState = ca_state i,
                   tc_identifier = ca_identifier i, fetchFailed = False\<rparr>)"

record BranchAndPRStatus =
  hasBranch :: bool
  hasPR :: bool
  hasMergedPR :: bool
  prMetadataAvailable :: bool
  prUrls :: "string list"
  mergeSha :: "string option"

datatype evidence_site = AtDemote | AtProbe | AtClose | AtRelease | AtReleaseRetry

record GateRequest =
  r_intent :: string
  r_issueId :: "string option"
  r_body :: string
  r_target :: "string option"
  r_caller :: "string option"
  r_artifactRef :: "string option"
  r_breakGlass :: bool
  r_isMeta :: bool
  r_hasComment :: bool
  r_snapshotDelegate :: "string option option"
  r_snapshotState :: "string option"
  r_commentBody :: "string option"

record GateWorld =
  w_context :: "ContextAnswer option"
  w_config :: artifacts
  w_registry :: "(string \<Rightarrow> WorkflowDef option) option"
  w_policy :: CapabilityPolicy
  w_applied :: applied_store
  w_now :: int
  w_branchStatus :: "evidence_site \<Rightarrow> BranchAndPRStatus option"
  w_ghToken :: bool
  w_ghApi :: "string \<Rightarrow> bool option"
  w_description :: "string option"
  w_probeDescription :: "string option"
  w_fanoutOutcome :: "FanoutOutcome option"
  w_manualChildren :: "ChildNode list option"
  w_children :: "ChildNode list option"
  w_attachmentRepos :: "string list"
  w_connectorRepo :: "string option"
  w_healthUrl :: "string option"
  w_probeAnswer :: http_answer
  w_deployPolicy :: deploy_policy

type_synonym moves = "string option list"

datatype missing_evidence = BranchNotPushed | NoPullRequest | NotMerged

datatype block_reason =
    BreakGlassUnauthorized | ContextUnreadable | NotOnWorkflow | ConfigDegraded | RegistryUnloadable
  | UnknownCaller moves | CycleRoll | EscapeNotYours moves | RefuseNotYours | RefuseNeedsComment
  | DemoteInFlight bool bool | RetireNotSteward | RetireNotWorkflow | Unverifiable moves | NotDelegate moves
  | NeedsHumanStateUnknown | StateUnknown | StateNotDefined string | CommitmentExitMissing string
  | NeedsHumanNeedsComment moves | NeedsHumanIllegal moves | NotLegal string string moves
  | ForceDeployNotAllowed "string list" | RecoveryNeedsComment | RecoveryNeedsEvidence | BarrierHolds barrier_block
  | SignoffRequested string "string list" moves | CapabilityMissing string moves | RoleMissing string moves
  | CommentMissing | ArtifactMissing | DescriptionUnreadable | CapabilityStatementMissing | DemonstrationMissing
  | ConvergeUnreadable | NothingToConverge | ChildrenInFlight nat nat nat | NoImplementationChild nat
  | StakesNeedHuman int moves | NoMergeSha | DeploymentNotVerified "probe_reason option" "string option"
  | CloseUnmerged | NoEvidence | ReleaseUnmerged "missing_evidence list" | StaleArtifact "string list" moves
  | TargetRequired string "string list" | TargetNotCandidate string "string list" | TargetNotSingleton string string
  | SelfReview | SelfAssignment

datatype gate_result = Allow | Block block_reason | Throws role_error

datatype gate_alert =
    AlertUnmergedClose "string list" | AlertForceDeploy | AlertNoEvidence | AlertMergedOnGitHub
  | AlertUnverifiable "string list" | AlertNoToken | AlertNoAutoDeploy "string list"

type_synonym gate = "gate_result option \<times> gate_alert list"

definition pass :: gate where "pass = (None, [])"
definition allow :: gate where "allow = (Some Allow, [])"
definition block :: "block_reason \<Rightarrow> gate" where "block r = (Some (Block r), [])"
definition throws :: "role_error \<Rightarrow> gate" where "throws e = (Some (Throws e), [])"

text \<open>The first check that decides wins; alerts of the checks before it have been sent.\<close>

fun first_of :: "gate list \<Rightarrow> gate" where
  "first_of [] = pass"
| "first_of ((Some v, a) # gs) = (Some v, a)"
| "first_of ((None, a) # gs) = (let (v, b) = first_of gs in (v, a @ b))"

lemmas gate_defs = pass_def allow_def block_def throws_def

lemma first_of_pass [simp]: "first_of (pass # gs) = first_of gs"
  by (simp add: pass_def split: prod.split)

lemma first_of_None: "fst (first_of gs) = None \<longleftrightarrow> (\<forall>g \<in> set gs. fst g = None)"
  by (induction gs rule: first_of.induct) (auto simp: pass_def split: prod.splits)

subsection \<open>Text evidence\<close>

definition any_char :: rx where "any_char = Cls (\<lambda>_. True)"
definition spaces :: rx where "spaces = Star (Cls is_space)"
definition hex_run :: rx where "hex_run = Cat (times 7 (Cls hex_ci)) (at_most 33 (Cls hex_ci))"

definition hasMergeEvidenceReference :: "string option \<Rightarrow> bool" where
  "hasMergeEvidenceReference commentBody =
     (let body = (case commentBody of None \<Rightarrow> [] | Some b \<Rightarrow> trim b) in
      body \<noteq> [] \<and>
      (occurs_in (cat [LitCI ''https://github.com/'', plus (Cls (\<lambda>c. \<not> is_space c \<and> c \<noteq> CHR '')'')), LitCI ''/pull/'', plus (Cls is_digit)]) body \<or>
       occurs_in (cat [WordBoundary, times 40 (Cls hex_ci), WordBoundary]) body \<or>
       occurs_in (cat [WordBoundary,
         alts [LitCI ''merge'', LitCI ''merged'', LitCI ''squash'', LitCI ''commit'', LitCI ''sha'', LitCI ''pr'', LitCI ''pull request''],
         WordBoundary, Star any_char, WordBoundary, hex_run, WordBoundary]) body))"

definition heading :: rx where
  "heading = cat [LineStart, Cls (\<lambda>c. c = CHR ''#''), at_most 5 (Cls (\<lambda>c. c = CHR ''#'')), plus (Cls is_space)]"

definition hasCapabilityStatementEvidence :: "string option \<Rightarrow> bool" where
  "hasCapabilityStatementEvidence description =
     (truthy description \<and>
      (occurs_in (cat [LitCI ''<!--'', spaces, LitCI ''capability-statement'', WordBoundary, Star any_char, LitCI ''-->'']) (the description) \<or>
       occurs_in (cat [heading, LitCI ''capability statement'', opt (LitCI ''s''), WordBoundary]) (the description)))"

definition hasPassedDemonstrationWalkEvidence :: "string option \<Rightarrow> bool" where
  "hasPassedDemonstrationWalkEvidence description =
     (truthy description \<and>
      (occurs_in (cat [LitCI ''<!--'', spaces, LitCI ''demonstration-walk:'', spaces, LitCI ''pass'', opt (LitCI ''ed''), spaces, LitCI ''-->''])
         (the description) \<or>
       occurs_in (cat [heading, LitCI ''demonstration walk'', WordBoundary, Star any_char, WordBoundary,
         Alt (LitCI ''pass'') (LitCI ''passed''), WordBoundary]) (the description)))"

text \<open>\<open>/Hallmark:\s*\[(.*?)\]/i\<close>, its group.\<close>

definition hallmark_at :: "string \<Rightarrow> string option" where
  "hallmark_at s =
     (if starts_ci ''hallmark:'' s
      then case dropWhile is_space (drop 9 s) of
             [] \<Rightarrow> None
           | c # cs \<Rightarrow>
               (let p = takeWhile (\<lambda>c. c \<noteq> CHR '']'' \<and> \<not> line_end c) cs
                in if c = CHR ''['' \<and> starts_with '']'' (drop (length p) cs) then Some p else None)
      else None)"

fun hallmark :: "string \<Rightarrow> string option" where
  "hallmark [] = None"
| "hallmark (c # cs) = (case hallmark_at (c # cs) of Some p \<Rightarrow> Some p | None \<Rightarrow> hallmark cs)"

definition github_pr_url :: rx where
  "github_pr_url = cat [LitCI ''github.com/'', plus (Cls (\<lambda>c. c \<noteq> CHR ''/'')), LitCI ''/'', plus (Cls (\<lambda>c. c \<noteq> CHR ''/'')),
     LitCI ''/pull/'', plus (Cls is_digit)]"

text \<open>The answer of the API is \<open>None\<close> when its status is bad or the request failed.\<close>

definition checkPRMergedFromGitHub :: "bool \<Rightarrow> (string \<Rightarrow> bool option) \<Rightarrow> string \<Rightarrow> bool option" where
  "checkPRMergedFromGitHub token api url =
     (if \<not> occurs_in github_pr_url url then None else if \<not> token then None else api url)"

definition resolveTicketRepoRefs :: "string list \<Rightarrow> string list \<Rightarrow> string list" where
  "resolveTicketRepoRefs labels fromAttachments =
     unique (filter (\<lambda>l. l \<noteq> []) (map (\<lambda>l. trim (drop 5 l)) (filter (\<lambda>l. starts_with ''repo:'' (toLowerCase l)) labels)) @ fromAttachments)"

definition resolveBodiesForOwnerRole :: "CapabilityPolicy \<Rightarrow> string \<Rightarrow> WorkflowDef \<Rightarrow> role_error + string list" where
  "resolveBodiesForOwnerRole p ownerRole def =
     resolveBodiesForRole p ownerRole (roleResolutionScopeForOwnerRole ownerRole (d_department_scope def) (d_instantiation def))"

end
