(* ===== verification/WorkflowGate.thy ===== *)
theory WorkflowGate
  imports GateBase
begin

text \<open>
  The checks of \<open>checkWorkflowRules\<close> in \<open>src/workflow-gate.ts\<close>, one definition each, in the order of the
  code, and the function that composes them. \<open>w\<close> is the world, \<open>r\<close> the request, \<open>wid\<close> the workflow of the
  ticket, \<open>def\<close> its definition, \<open>node\<close> the current state and \<open>m\<close> the transition the command matched.
\<close>

subsection \<open>Readings the checks share\<close>

definition ticket :: "GateWorld \<Rightarrow> TicketContext" where
  "ticket w = fetchTicketContext (w_context w)"

definition labels_of :: "GateWorld \<Rightarrow> string list" where
  "labels_of w = tc_labels (ticket w)"

definition delegate_of :: "GateWorld \<Rightarrow> GateRequest \<Rightarrow> string option" where
  "delegate_of w r = (case r_snapshotDelegate r of Some d \<Rightarrow> d | None \<Rightarrow> tc_delegateId (ticket w))"

definition capable :: "GateWorld \<Rightarrow> GateRequest \<Rightarrow> string \<Rightarrow> bool" where
  "capable w r c = bodyHasCapability (w_policy w) (r_body r) c"

definition break_glass_command :: "WorkflowDef \<Rightarrow> string" where
  "break_glass_command def = (case d_break_glass def of None \<Rightarrow> ''escape'' | Some bg \<Rightarrow> bg_command bg)"

definition steward_role :: "WorkflowDef \<Rightarrow> string option" where
  "steward_role def = (case d_break_glass def of None \<Rightarrow> None | Some bg \<Rightarrow> bg_owner_role bg)"

text \<open>The state the labels show, without the definition, and its node.\<close>

definition live_node :: "GateWorld \<Rightarrow> WorkflowDef \<Rightarrow> WorkflowState option" where
  "live_node w def =
     (let s = getCurrentState (labels_of w) None in if truthy s then stateNodeById def s else None)"

definition live_moves :: "GateWorld \<Rightarrow> WorkflowDef \<Rightarrow> moves" where
  "live_moves w def = legalMovesFor def (live_node w def) (break_glass_command def)"

definition transition_named :: "string \<Rightarrow> WorkflowState option \<Rightarrow> WorkflowTransition option" where
  "transition_named c node =
     (case node of None \<Rightarrow> None | Some s \<Rightarrow> List.find (\<lambda>t. t_command t = Some c) (s_transitions s))"

definition stakes_reached :: "GateWorld \<Rightarrow> WorkflowDef \<Rightarrow> bool" where
  "stakes_reached w def =
     (case d_stakes def of None \<Rightarrow> False | Some st \<Rightarrow> threshold st \<le> resolveStakesLevel (labels_of w) st)"

definition approver_of :: "GateWorld \<Rightarrow> GateRequest \<Rightarrow> WorkflowTransition \<Rightarrow> bool" where
  "approver_of w r t =
     (t_designated_approver t \<and> truthy (t_requires_capability t) \<and> capable w r (the (t_requires_capability t)))"

subsection \<open>Before the definition is known\<close>

definition gate_break_glass :: "GateWorld \<Rightarrow> GateRequest \<Rightarrow> gate" where
  "gate_break_glass w r =
     (if r_breakGlass r \<and> \<not> capable w r ''workflow:break-glass'' then block BreakGlassUnauthorized else pass)"

definition gate_unreadable :: "GateWorld \<Rightarrow> GateRequest \<Rightarrow> gate" where
  "gate_unreadable w r =
     (if fetchFailed (ticket w) \<and> \<not> r_breakGlass r \<and> r_intent r \<notin> {''begin-work'', ''note'', ''complete'', ''cancel''}
      then block ContextUnreadable else pass)"

definition safeOnUnarmed :: "string list" where
  "safeOnUnarmed = [''note'', ''begin-work'', ''observe-issue'', ''comment'', ''parent'', ''migrate-state'', ''rewind'',
     ''handoff-work'', ''set-state'', ''complete'', ''cancel'']"

definition gate_unarmed :: "GateWorld \<Rightarrow> GateRequest \<Rightarrow> gate" where
  "gate_unarmed w r =
     (if truthy (getWorkflowId (labels_of w)) then pass
      else if r_breakGlass r then allow
      else if r_intent r \<notin> set safeOnUnarmed then block NotOnWorkflow
      else allow)"

definition gate_config :: "GateWorld \<Rightarrow> GateRequest \<Rightarrow> gate" where
  "gate_config w r = (if \<not> r_breakGlass r \<and> \<not> isHealthy (w_config w) then block ConfigDegraded else pass)"

subsection \<open>The caller\<close>

definition human_signoff_path :: "GateWorld \<Rightarrow> GateRequest \<Rightarrow> WorkflowDef \<Rightarrow> bool" where
  "human_signoff_path w r def =
     (case transition_named (r_intent r) (live_node w def) of
        None \<Rightarrow> False
      | Some t \<Rightarrow> t_requires_human_signoff t \<and> stakes_reached w def)"

definition caller_known :: "GateWorld \<Rightarrow> GateRequest \<Rightarrow> bool" where
  "caller_known w r = isBodyKnown (w_policy w) (r_body r)"

definition gate_unknown_caller :: "GateWorld \<Rightarrow> GateRequest \<Rightarrow> WorkflowDef \<Rightarrow> gate" where
  "gate_unknown_caller w r def =
     (if \<not> caller_known w r \<and> \<not> human_signoff_path w r def then block (UnknownCaller (live_moves w def)) else pass)"

definition gate_cycle_roll :: "GateWorld \<Rightarrow> GateRequest \<Rightarrow> string \<Rightarrow> WorkflowDef \<Rightarrow> gate" where
  "gate_cycle_roll w r wid def =
     (if r_intent r = break_glass_command def \<and> wid = ''sprint-spawner'' \<and> \<not> r_breakGlass r \<and>
         getCurrentState (labels_of w) None = Some ''retrospecting''
      then block CycleRoll else pass)"

text \<open>Whether the caller is one of the stewards of the definition; the role may need a scope.\<close>

definition is_steward :: "GateWorld \<Rightarrow> GateRequest \<Rightarrow> WorkflowDef \<Rightarrow> role_error + bool" where
  "is_steward w r def =
     (if truthy (steward_role def)
      then (case resolveBodiesForRole (w_policy w) (the (steward_role def)) None of
              Inl e \<Rightarrow> Inl e
            | Inr bs \<Rightarrow> Inr (r_body r \<in> set bs))
      else Inr False)"

definition is_delegate :: "GateWorld \<Rightarrow> GateRequest \<Rightarrow> bool" where
  "is_delegate w r = (truthy (r_caller r) \<and> r_caller r = delegate_of w r)"

definition gate_escape :: "GateWorld \<Rightarrow> GateRequest \<Rightarrow> WorkflowDef \<Rightarrow> gate" where
  "gate_escape w r def =
     (if r_intent r \<noteq> break_glass_command def then pass
      else if \<not> truthy (delegate_of w r) \<or> \<not> truthy (r_caller r) \<or> is_delegate w r then allow
      else case is_steward w r def of
        Inl e \<Rightarrow> throws e
      | Inr steward \<Rightarrow> if steward then allow else block (EscapeNotYours (live_moves w def)))"

definition gate_refuse :: "GateWorld \<Rightarrow> GateRequest \<Rightarrow> WorkflowDef \<Rightarrow> gate" where
  "gate_refuse w r def =
     (if r_intent r \<noteq> ''refuse-work'' then pass
      else case (if \<not> truthy (delegate_of w r) \<or> is_delegate w r then Inr True else is_steward w r def) of
        Inl e \<Rightarrow> throws e
      | Inr authorized \<Rightarrow>
          if \<not> authorized then block RefuseNotYours
          else if \<not> r_hasComment r \<and> \<not> r_breakGlass r then block RefuseNeedsComment
          else allow)"

definition gate_demote :: "GateWorld \<Rightarrow> GateRequest \<Rightarrow> string \<Rightarrow> gate" where
  "gate_demote w r wid =
     (if r_intent r = ''demote'' \<and> wid = ''dev-impl'' \<and> \<not> r_breakGlass r
      then (case w_branchStatus w AtDemote of
              None \<Rightarrow> pass
            | Some b \<Rightarrow>
                if hasBranch b \<or> hasPR b
                then if \<not> hasMergedPR b then block (DemoteInFlight (hasBranch b) (hasPR b)) else allow
                else pass)
      else pass)"

definition gate_retire :: "GateWorld \<Rightarrow> GateRequest \<Rightarrow> string \<Rightarrow> gate" where
  "gate_retire w r wid =
     (if r_intent r \<noteq> ''retire'' then pass
      else if \<not> capable w r ''workflow:steward'' then block RetireNotSteward
      else if wid = [] then block RetireNotWorkflow
      else allow)"

definition gate_unverified :: "GateWorld \<Rightarrow> GateRequest \<Rightarrow> WorkflowDef \<Rightarrow> gate" where
  "gate_unverified w r def =
     (if \<not> truthy (r_caller r) \<and> truthy (delegate_of w r) then block (Unverifiable (live_moves w def)) else pass)"

definition snapshot_or_live :: "GateWorld \<Rightarrow> GateRequest \<Rightarrow> string option" where
  "snapshot_or_live w r =
     (if truthy (r_snapshotState r) then r_snapshotState r else getCurrentState (labels_of w) None)"

definition designated_here :: "GateWorld \<Rightarrow> GateRequest \<Rightarrow> WorkflowDef \<Rightarrow> bool" where
  "designated_here w r def =
     (let s = snapshot_or_live w r;
          node = (if truthy s then stateNodeById def s else None)
      in case transition_named (r_intent r) node of None \<Rightarrow> False | Some t \<Rightarrow> approver_of w r t)"

definition gate_delegate_only :: "GateWorld \<Rightarrow> GateRequest \<Rightarrow> WorkflowDef \<Rightarrow> gate" where
  "gate_delegate_only w r def =
     (if truthy (r_caller r) \<and> truthy (delegate_of w r) \<and> r_caller r \<noteq> delegate_of w r
      then if designated_here w r def then pass
           else if capable w r ''workflow:break-glass'' then pass
           else block (NotDelegate (live_moves w def))
      else pass)"

subsection \<open>The state and the transition\<close>

definition current_state :: "GateWorld \<Rightarrow> GateRequest \<Rightarrow> WorkflowDef \<Rightarrow> string option" where
  "current_state w r def =
     (if truthy (r_snapshotState r) then r_snapshotState r
      else case fst (getAppliedState (orElse (tc_identifier (ticket w)) (orElse (r_issueId r) [])) (w_now w) (w_applied w)) of
        Some s \<Rightarrow> Some s
      | None \<Rightarrow> getCurrentState (labels_of w) (Some def))"

definition gate_no_state :: "GateRequest \<Rightarrow> string option \<Rightarrow> gate" where
  "gate_no_state r cur =
     (if truthy cur then pass
      else if r_intent r = ''needs-human'' then block NeedsHumanStateUnknown
      else block StateUnknown)"

definition gate_commitment :: "GateRequest \<Rightarrow> WorkflowState \<Rightarrow> gate" where
  "gate_commitment r node =
     (if s_commitment_gate node \<noteq> None \<and> commitmentExitFor node (r_intent r) = None
      then block (CommitmentExitMissing (s_id node)) else pass)"

definition gate_handoff :: "GateRequest \<Rightarrow> gate" where
  "gate_handoff r = (if r_intent r \<in> {''handoff'', ''handoff-work''} then allow else pass)"

definition matched :: "string \<Rightarrow> WorkflowState \<Rightarrow> WorkflowTransition option" where
  "matched intent node =
     (case transition_named intent (Some node) of
        Some t \<Rightarrow> Some t
      | None \<Rightarrow> if intent = ''force-deploy'' then transition_named ''continue'' (Some node) else None)"

definition gate_no_match :: "GateWorld \<Rightarrow> GateRequest \<Rightarrow> WorkflowDef \<Rightarrow> WorkflowState \<Rightarrow> gate" where
  "gate_no_match w r def node =
     (let legalMoves = legalMovesFor def (Some node) (break_glass_command def) in
      if r_intent r = ''complete'' \<and> isTerminalIssueState (tc_nativeState (ticket w)) then allow
      else if r_intent r = ''needs-human''
      then if \<not> r_hasComment r \<and> \<not> r_breakGlass r then block (NeedsHumanNeedsComment legalMoves)
           else block (NeedsHumanIllegal legalMoves)
      else block (NotLegal (r_intent r) (s_id node) legalMoves))"

definition gate_force_deploy :: "GateWorld \<Rightarrow> GateRequest \<Rightarrow> gate" where
  "gate_force_deploy w r =
     (if r_intent r = ''force-deploy'' \<and> caller_known w r \<and> \<not> capable w r ''workflow:force-deploy''
      then block (ForceDeployNotAllowed (resolveBodiesWithCapability (w_policy w) ''workflow:force-deploy''))
      else pass)"

definition gate_intake_recovery :: "GateRequest \<Rightarrow> string \<Rightarrow> WorkflowState \<Rightarrow> WorkflowTransition \<Rightarrow> gate" where
  "gate_intake_recovery r wid node m =
     (if wid = ''dev-impl'' \<and> s_id node = ''intake'' \<and> r_intent r = ''force-deploy'' \<and> t_to m = Some ''deploy'' \<and> \<not> r_breakGlass r
      then if \<not> r_hasComment r then block RecoveryNeedsComment
           else if \<not> hasMergeEvidenceReference (r_commentBody r) then block RecoveryNeedsEvidence
           else pass
      else pass)"

definition gate_manual_barrier :: "GateWorld \<Rightarrow> GateRequest \<Rightarrow> WorkflowState \<Rightarrow> WorkflowTransition \<Rightarrow> gate" where
  "gate_manual_barrier w r node m =
     (if r_isMeta r \<and> r_intent r = ''continue'' \<and> t_generic m = Some ''continue'' \<and> is_true (s_barrier node) \<and> \<not> r_breakGlass r
      then (case getManualBarrierContinueBlockReason (w_fanoutOutcome w) (fetchChildren (w_manualChildren w)) of
              None \<Rightarrow> pass | Some b \<Rightarrow> block (BarrierHolds b))
      else pass)"

definition gate_capability :: "GateWorld \<Rightarrow> GateRequest \<Rightarrow> WorkflowDef \<Rightarrow> WorkflowState \<Rightarrow> WorkflowTransition \<Rightarrow> gate" where
  "gate_capability w r def node m =
     (if truthy (t_requires_capability m) \<and> caller_known w r \<and> r_intent r \<noteq> ''force-deploy''
      then let c = the (t_requires_capability m);
               legalMoves = legalMovesFor def (Some node) (break_glass_command def)
           in if capable w r c then pass
              else if t_designated_approver m
              then block (SignoffRequested c (resolveBodiesWithCapability (w_policy w) c) legalMoves)
              else block (CapabilityMissing c legalMoves)
      else pass)"

definition gate_owner_role :: "GateWorld \<Rightarrow> GateRequest \<Rightarrow> WorkflowDef \<Rightarrow> WorkflowState \<Rightarrow> WorkflowTransition \<Rightarrow> gate" where
  "gate_owner_role w r def node m =
     (if caller_known w r \<and> r_intent r \<noteq> ''force-deploy'' \<and> truthy (s_owner_role node) \<and> \<not> t_designated_approver m
      then let role = the (s_owner_role node) in
           case resolveBodiesForOwnerRole (w_policy w) role def of
             Inl e \<Rightarrow> throws e
           | Inr bs \<Rightarrow>
               if bs \<noteq> [] \<and> r_body r \<notin> set bs \<and> \<not> (s_owner_role node = steward_role def \<and> capable w r ''workflow:break-glass'')
               then block (RoleMissing role (map (\<lambda>t. cliVerbFor t None) (s_transitions node) @ [Some (break_glass_command def)]))
               else pass
      else pass)"

subsection \<open>Evidence\<close>

definition gate_comment :: "GateRequest \<Rightarrow> WorkflowTransition \<Rightarrow> gate" where
  "gate_comment r m =
     (if t_requires_comment m \<and> \<not> r_hasComment r \<and> \<not> r_breakGlass r \<and>
         (case t_command m of None \<Rightarrow> True | Some c \<Rightarrow> c \<notin> set ROUTINE_FORWARD_COMMANDS)
      then block CommentMissing else pass)"

definition gate_artifact :: "GateRequest \<Rightarrow> WorkflowTransition \<Rightarrow> gate" where
  "gate_artifact r m = (if t_requires_artifact m \<and> \<not> truthy (r_artifactRef r) then block ArtifactMissing else pass)"

definition gate_evidence :: "GateWorld \<Rightarrow> GateRequest \<Rightarrow> WorkflowTransition \<Rightarrow> gate" where
  "gate_evidence w r m =
     (if (t_requires_capability_statement m \<or> t_requires_demonstration_walk m) \<and> \<not> r_breakGlass r
      then if w_description w = None then block DescriptionUnreadable
           else if t_requires_capability_statement m \<and> \<not> hasCapabilityStatementEvidence (w_description w)
           then block CapabilityStatementMissing
           else if t_requires_demonstration_walk m \<and> \<not> hasPassedDemonstrationWalkEvidence (w_description w)
           then block DemonstrationMissing
           else pass
      else pass)"

definition IMPLEMENTATION_CHILD_WORKFLOW_LABELS :: "string list" where
  "IMPLEMENTATION_CHILD_WORKFLOW_LABELS = [''wf:dev-impl'', ''wf:task'']"

definition implementation_child :: "ChildState \<Rightarrow> bool" where
  "implementation_child c = (isTerminal c \<and> (\<exists>l \<in> set (c_labels c). l \<in> set IMPLEMENTATION_CHILD_WORKFLOW_LABELS))"

definition gate_children :: "GateWorld \<Rightarrow> GateRequest \<Rightarrow> WorkflowTransition \<Rightarrow> gate" where
  "gate_children w r m =
     (if (t_requires_children_terminal m \<or> t_requires_implementation_child m) \<and> \<not> r_breakGlass r
      then let b = evaluateBarrier None None (fetchChildren (w_children w)) in
           if readFailed b then block ConvergeUnreadable
           else if t_requires_children_terminal m \<and> totalChildren b = 0 then block NothingToConverge
           else if t_requires_children_terminal m \<and> \<not> allTerminal b
           then block (ChildrenInFlight (terminalCount b) (totalChildren b) (orphanedCount b))
           else if t_requires_implementation_child m \<and> filter implementation_child (br_children b) = []
           then block (NoImplementationChild (totalChildren b))
           else pass
      else pass)"

definition gate_stakes :: "GateWorld \<Rightarrow> GateRequest \<Rightarrow> WorkflowDef \<Rightarrow> WorkflowState \<Rightarrow> WorkflowTransition \<Rightarrow> gate" where
  "gate_stakes w r def node m =
     (if t_requires_human_signoff m \<and> stakes_reached w def
      then if approver_of w r m then pass
           else if caller_known w r
           then block (StakesNeedHuman (resolveStakesLevel (labels_of w) (the (d_stakes def)))
                  (legalMovesFor def (Some node) (break_glass_command def)))
           else pass
      else pass)"

definition gate_probe :: "GateWorld \<Rightarrow> GateRequest \<Rightarrow> WorkflowTransition \<Rightarrow> gate" where
  "gate_probe w r m =
     (if t_requires_deploy_probe m \<and> \<not> r_breakGlass r \<and>
         (\<exists>ref \<in> set (resolveTicketRepoRefs (labels_of w) (w_attachmentRepos w)).
            js_includes ''fancy-openclaw-linear-connector'' ref \<or>
            truthy (w_connectorRepo w) \<and> js_includes (the (w_connectorRepo w)) ref)
      then let expectedCommit = (case w_branchStatus w AtProbe of None \<Rightarrow> None | Some b \<Rightarrow> mergeSha b) in
           if \<not> truthy expectedCommit then block NoMergeSha
           else let behaviorProbe = map_option (\<lambda>p. (p, ''Hallmark in description'')) (hallmark (orElse (w_probeDescription w) []));
                    probe = probeDeployOutcome (the expectedCommit) (w_healthUrl w) behaviorProbe (w_probeAnswer w)
                in if \<not> success probe then block (DeploymentNotVerified (reason probe) (runningCommit probe)) else pass
      else pass)"

subsection \<open>Release\<close>

definition closes_to_done :: "string \<Rightarrow> WorkflowState option \<Rightarrow> bool" where
  "closes_to_done wid dest =
     (wid = ''task'' \<and> (case dest of None \<Rightarrow> False | Some d \<Rightarrow> s_kind d = Some ''terminal'' \<and> s_native_state d = Some ''done''))"

definition gate_close :: "GateWorld \<Rightarrow> GateRequest \<Rightarrow> string \<Rightarrow> WorkflowState option \<Rightarrow> gate" where
  "gate_close w r wid dest =
     (if closes_to_done wid dest \<and> \<not> r_breakGlass r
      then (case w_branchStatus w AtClose of
              None \<Rightarrow> pass
            | Some b \<Rightarrow>
                if hasPR b \<and> \<not> hasMergedPR b \<and> prMetadataAvailable b
                then (Some (Block CloseUnmerged), [AlertUnmergedClose (prUrls b)])
                else pass)
      else pass)"

definition missing_of :: "BranchAndPRStatus \<Rightarrow> missing_evidence list" where
  "missing_of b =
     (let missing = (if hasBranch b then [] else [BranchNotPushed]) @ (if hasPR b then [] else [NoPullRequest])
      in if missing = [] then [NotMerged] else missing)"

text \<open>The merge status that Linear did not record, from GitHub: the loop stops at the first merged one.\<close>

definition github_fallback :: "GateWorld \<Rightarrow> BranchAndPRStatus \<Rightarrow> gate" where
  "github_fallback w b =
     (let answers = map (checkPRMergedFromGitHub (w_ghToken w) (w_ghApi w)) (prUrls b);
          unreachable = None \<in> set (takeWhile (\<lambda>a. a \<noteq> Some True) answers)
      in if Some True \<in> set answers then (None, [AlertMergedOnGitHub])
         else if \<not> w_ghToken w \<or> unreachable
         then if w_ghToken w \<and> unreachable then (None, [AlertUnverifiable (prUrls b)]) else (None, [AlertNoToken])
         else block (ReleaseUnmerged (missing_of b)))"

definition gate_release :: "GateWorld \<Rightarrow> GateRequest \<Rightarrow> WorkflowState \<Rightarrow> gate" where
  "gate_release w r node =
     (if s_id node \<in> {''merge'', ''deploy''} \<and> r_intent r \<in> {''continue'', ''force-deploy''}
      then if r_intent r = ''force-deploy'' then (None, [AlertForceDeploy])
           else case (case w_branchStatus w AtRelease of None \<Rightarrow> w_branchStatus w AtReleaseRetry | Some b \<Rightarrow> Some b) of
             None \<Rightarrow> pass
           | Some b \<Rightarrow>
               if hasMergedPR b then pass
               else if \<not> hasBranch b \<and> \<not> hasPR b then (Some (Block NoEvidence), [AlertNoEvidence])
               else if hasPR b \<and> \<not> hasMergedPR b \<and> \<not> prMetadataAvailable b then github_fallback w b
               else block (ReleaseUnmerged (missing_of b))
      else pass)"

definition gate_auto_deploy ::
  "GateWorld \<Rightarrow> GateRequest \<Rightarrow> string \<Rightarrow> WorkflowDef \<Rightarrow> WorkflowState \<Rightarrow> WorkflowTransition \<Rightarrow> gate" where
  "gate_auto_deploy w r wid def node m =
     (let skips = wid = ''dev-impl'' \<and> s_id node = ''merge'' \<and> r_intent r = ''continue'' \<and> t_to m = Some ''ac-validate'' \<and>
                  (\<exists>s \<in> set (d_states def). s_id s = ''deploy'')
      in if (r_intent r = ''deploy'' \<or> skips) \<and> \<not> r_breakGlass r
         then let flagged = reposWithoutCiAutoDeploy (w_deployPolicy w) (resolveTicketRepoRefs (labels_of w) (w_attachmentRepos w)) in
              if flagged \<noteq> []
              then (Some (Block (StaleArtifact flagged
                      (map (\<lambda>t. cliVerbFor t None) (filter (\<lambda>t. t_command t \<noteq> Some ''deploy'') (s_transitions node)) @
                       [Some (break_glass_command def)]))), [AlertNoAutoDeploy flagged])
              else pass
         else pass)"

subsection \<open>The target\<close>

definition gate_target :: "GateWorld \<Rightarrow> GateRequest \<Rightarrow> WorkflowDef \<Rightarrow> WorkflowState option \<Rightarrow> WorkflowTransition \<Rightarrow> gate" where
  "gate_target w r def dest m =
     (let ownerRole = (case dest of None \<Rightarrow> None | Some d \<Rightarrow> s_owner_role d) in
      if truthy ownerRole \<and> (case dest of None \<Rightarrow> True | Some d \<Rightarrow> s_kind d \<noteq> Some ''terminal'')
      then let legalBodies = (case resolveBodiesForOwnerRole (w_policy w) (the ownerRole) def of Inl _ \<Rightarrow> [] | Inr bs \<Rightarrow> bs) in
           if 1 < length legalBodies
           then if \<not> truthy (r_target r) \<and> (case t_assign m of None \<Rightarrow> False | Some a \<Rightarrow> a_mode a = Some ''required'')
                then block (TargetRequired (the ownerRole) legalBodies)
                else if truthy (r_target r) \<and> the (r_target r) \<notin> set legalBodies
                then block (TargetNotCandidate (the (r_target r)) legalBodies)
                else pass
           else if length legalBodies = 1
           then if truthy (r_target r) \<and> the (r_target r) \<noteq> hd legalBodies
                then block (TargetNotSingleton (the (r_target r)) (hd legalBodies))
                else pass
           else pass
      else pass)"

definition gate_self :: "GateRequest \<Rightarrow> WorkflowTransition \<Rightarrow> gate" where
  "gate_self r m =
     (let constraint = (case t_assign m of None \<Rightarrow> None | Some a \<Rightarrow> a_constraint a) in
      if constraint = Some ''not-implementer'' \<and> truthy (r_target r) \<and> r_target r = Some (r_body r) then block SelfReview
      else if constraint = Some ''not-self'' \<and> truthy (r_target r) \<and> r_target r = Some (r_body r) then block SelfAssignment
      else pass)"

subsection \<open>The composition\<close>

definition transition_checks ::
  "GateWorld \<Rightarrow> GateRequest \<Rightarrow> string \<Rightarrow> WorkflowDef \<Rightarrow> WorkflowState \<Rightarrow> WorkflowTransition \<Rightarrow> gate list" where
  "transition_checks w r wid def node m =
     (let dest = stateNodeById def (t_to m) in
      [gate_force_deploy w r, gate_intake_recovery r wid node m, gate_manual_barrier w r node m, gate_capability w r def node m,
       gate_owner_role w r def node m, gate_comment r m, gate_artifact r m, gate_evidence w r m, gate_children w r m,
       gate_stakes w r def node m, gate_probe w r m, gate_close w r wid dest, gate_release w r node,
       gate_auto_deploy w r wid def node m, gate_target w r def dest m, gate_self r m])"

definition state_rules :: "GateWorld \<Rightarrow> GateRequest \<Rightarrow> string \<Rightarrow> WorkflowDef \<Rightarrow> WorkflowState \<Rightarrow> gate" where
  "state_rules w r wid def node =
     first_of [gate_commitment r node, gate_handoff r,
       (case matched (r_intent r) node of
          None \<Rightarrow> gate_no_match w r def node
        | Some m \<Rightarrow> first_of (transition_checks w r wid def node m))]"

definition caller_checks :: "GateWorld \<Rightarrow> GateRequest \<Rightarrow> string \<Rightarrow> WorkflowDef \<Rightarrow> gate list" where
  "caller_checks w r wid def =
     [gate_unknown_caller w r def, gate_cycle_roll w r wid def, gate_escape w r def, gate_refuse w r def, gate_demote w r wid,
      gate_retire w r wid, gate_unverified w r def, gate_delegate_only w r def]"

definition defined_rules :: "GateWorld \<Rightarrow> GateRequest \<Rightarrow> string \<Rightarrow> WorkflowDef \<Rightarrow> gate" where
  "defined_rules w r wid def =
     first_of (caller_checks w r wid def @
       [let cur = current_state w r def in
        first_of [gate_no_state r cur,
          (case stateNodeById def cur of
             None \<Rightarrow> block (StateNotDefined (orElse cur []))
           | Some node \<Rightarrow> state_rules w r wid def node)]])"

definition armed_rules :: "GateWorld \<Rightarrow> GateRequest \<Rightarrow> string \<Rightarrow> gate" where
  "armed_rules w r wid =
     (case w_registry w of
        None \<Rightarrow> if r_breakGlass r then allow else block RegistryUnloadable
      | Some registry \<Rightarrow> (case registry wid of None \<Rightarrow> allow | Some def \<Rightarrow> defined_rules w r wid def))"

definition checkWorkflowRules :: "GateWorld \<Rightarrow> GateRequest \<Rightarrow> gate_result \<times> gate_alert list" where
  "checkWorkflowRules w r =
     (if \<not> truthy (r_issueId r) then (Allow, [])
      else case first_of [gate_break_glass w r, gate_unreadable w r, gate_unarmed w r, gate_config w r,
                          armed_rules w r (orElse (getWorkflowId (labels_of w)) [])] of
        (v, alerts) \<Rightarrow> (orElse v Allow, alerts))"

subsection \<open>What passes\<close>

definition open_gate :: "gate \<Rightarrow> bool" where
  "open_gate g = (fst g \<noteq> Some Allow \<longrightarrow> fst g = None)"

definition passed :: "gate \<Rightarrow> bool" where
  "passed g = (fst g = None)"

definition allowed :: "gate \<Rightarrow> bool" where
  "allowed g = (fst g = Some Allow)"

lemma passed_simps [simp]: "passed pass" "\<not> passed allow" "\<not> passed (block b)" "\<not> passed (throws e)" "\<not> passed (Some v, a)" "passed (None, a)"
  by (simp_all add: passed_def gate_defs)

lemma allowed_simps [simp]: "\<not> allowed pass" "allowed allow" "\<not> allowed (block b)" "\<not> allowed (throws e)" "\<not> allowed (None, a)"
    "allowed (Some v, a) \<longleftrightarrow> v = Allow"
  by (simp_all add: allowed_def gate_defs)

lemma passed_first_of: "passed (first_of gs) \<longleftrightarrow> (\<forall>g \<in> set gs. passed g)"
  by (simp add: passed_def first_of_None)

lemma allowed_Cons: "allowed (first_of (g # gs)) \<longleftrightarrow> allowed g \<or> passed g \<and> allowed (first_of gs)"
  by (cases g; cases "fst g") (auto simp: allowed_def passed_def split: prod.split)

lemma allowed_Nil: "\<not> allowed (first_of [])"
  by simp

lemma first_of_single: "passed (first_of [g]) = passed g" "allowed (first_of [g]) = allowed g"
  by (simp_all add: passed_first_of allowed_Cons)

lemma first_of_skip: "first_of (xs @ pass # gs) = first_of (xs @ gs)"
  by (induction xs rule: first_of.induct) (simp_all add: case_prod_unfold)

lemma never_allow:
  assumes "\<forall>g \<in> set gs. \<not> allowed g"
  shows "\<not> allowed (first_of gs)"
  using assms by (induction gs) (auto simp: allowed_Cons)

lemma never_allow_checks [simp]:
  "\<not> allowed (gate_force_deploy w r)" "\<not> allowed (gate_intake_recovery r wid node m)" "\<not> allowed (gate_manual_barrier w r node m)"
  "\<not> allowed (gate_capability w r def node m)" "\<not> allowed (gate_owner_role w r def node m)" "\<not> allowed (gate_comment r m)"
  "\<not> allowed (gate_artifact r m)" "\<not> allowed (gate_evidence w r m)" "\<not> allowed (gate_children w r m)"
  "\<not> allowed (gate_stakes w r def node m)" "\<not> allowed (gate_probe w r m)" "\<not> allowed (gate_close w r wid dest)"
  "\<not> allowed (github_fallback w b)" "\<not> allowed (gate_auto_deploy w r wid def node m)" "\<not> allowed (gate_target w r def dest m)"
  "\<not> allowed (gate_self r m)"
  by (simp_all add: Let_def gate_force_deploy_def gate_intake_recovery_def gate_manual_barrier_def gate_capability_def
      gate_owner_role_def gate_comment_def gate_artifact_def gate_evidence_def gate_children_def gate_stakes_def gate_probe_def
      gate_close_def github_fallback_def gate_auto_deploy_def gate_target_def gate_self_def
      split: option.split sum.split)

lemma release_never_allows [simp]: "\<not> allowed (gate_release w r node)"
  by (simp add: gate_release_def split: option.split)

lemma checks_never_allow: "g \<in> set (transition_checks w r wid def node m) \<Longrightarrow> \<not> allowed g"
  by (simp only: transition_checks_def Let_def list.set insert_iff empty_iff)
     (elim disjE FalseE; simp)

lemma never_allow_callers [simp]:
  "\<not> allowed (gate_unknown_caller w r def)" "\<not> allowed (gate_cycle_roll w r wid def)" "\<not> allowed (gate_unverified w r def)"
  "\<not> allowed (gate_delegate_only w r def)" "\<not> allowed (gate_no_state r cur)" "\<not> allowed (gate_commitment r node)"
  "\<not> allowed (gate_break_glass w r)" "\<not> allowed (gate_unreadable w r)" "\<not> allowed (gate_config w r)"
  by (simp_all add: gate_unknown_caller_def gate_cycle_roll_def gate_unverified_def gate_delegate_only_def gate_no_state_def
      gate_commitment_def gate_break_glass_def gate_unreadable_def gate_config_def)

text \<open>Every way through the checks of a governed ticket.\<close>

definition governed :: "GateWorld \<Rightarrow> GateRequest \<Rightarrow> string \<Rightarrow> WorkflowDef \<Rightarrow> bool" where
  "governed w r wid def \<longleftrightarrow> truthy (r_issueId r) \<and> getWorkflowId (labels_of w) = Some wid \<and> wid \<noteq> [] \<and>
     (\<exists>reg. w_registry w = Some reg \<and> reg wid = Some def)"

definition at_state :: "GateWorld \<Rightarrow> GateRequest \<Rightarrow> WorkflowDef \<Rightarrow> WorkflowState \<Rightarrow> bool" where
  "at_state w r def node \<longleftrightarrow> truthy (current_state w r def) \<and> stateNodeById def (current_state w r def) = Some node"

lemma governed_runs:
  assumes "governed w r wid def"
  shows "checkWorkflowRules w r = (let (v, a) = first_of [gate_break_glass w r, gate_unreadable w r, gate_config w r, defined_rules w r wid def]
    in (orElse v Allow, a))"
proof -
  have "gate_unarmed w r = pass" using assms by (simp add: governed_def gate_unarmed_def truthy_def)
  moreover have "armed_rules w r wid = defined_rules w r wid def" using assms by (auto simp: governed_def armed_rules_def)
  ultimately show ?thesis using assms
    using first_of_skip [of "[gate_break_glass w r, gate_unreadable w r]" "[gate_config w r, defined_rules w r wid def]"]
    by (simp add: checkWorkflowRules_def governed_def case_prod_unfold Let_def)
qed

lemma allowed_governed:
  assumes g: "governed w r wid def" and ok: "fst (checkWorkflowRules w r) = Allow"
  shows "passed (gate_break_glass w r)" "passed (gate_unreadable w r)" "passed (gate_config w r)"
    "passed (gate_unknown_caller w r def)" "passed (gate_cycle_roll w r wid def)"
    "allowed (gate_escape w r def) \<or> passed (gate_escape w r def) \<and>
      (allowed (gate_refuse w r def) \<or> passed (gate_refuse w r def) \<and>
      (allowed (gate_demote w r wid) \<or> passed (gate_demote w r wid) \<and>
      (allowed (gate_retire w r wid) \<or> passed (gate_retire w r wid) \<and>
       passed (gate_unverified w r def) \<and> passed (gate_delegate_only w r def) \<and>
       (\<exists>node. at_state w r def node \<and> passed (gate_commitment r node) \<and>
          (allowed (gate_handoff r) \<or>
           (case matched (r_intent r) node of
              None \<Rightarrow> allowed (gate_no_match w r def node)
            | Some m \<Rightarrow> \<forall>c \<in> set (transition_checks w r wid def node m). passed c))))))"
proof -
  have "allowed (first_of [gate_break_glass w r, gate_unreadable w r, gate_config w r, defined_rules w r wid def]) \<or>
      passed (first_of [gate_break_glass w r, gate_unreadable w r, gate_config w r, defined_rules w r wid def])"
    using ok unfolding governed_runs [OF g] Let_def
    by (auto simp: allowed_def passed_def orElse_def split: prod.splits option.splits)
  then have pre: "passed (gate_break_glass w r)" "passed (gate_unreadable w r)" "passed (gate_config w r)"
    and d: "allowed (defined_rules w r wid def) \<or> passed (defined_rules w r wid def)"
    by (auto simp: allowed_Cons passed_first_of)
  show "passed (gate_break_glass w r)" "passed (gate_unreadable w r)" "passed (gate_config w r)" by (rule pre)+
  let ?rest = "let cur = current_state w r def in
        first_of [gate_no_state r cur, (case stateNodeById def cur of
             None \<Rightarrow> block (StateNotDefined (orElse cur [])) | Some node \<Rightarrow> state_rules w r wid def node)]"
  have rest: "\<exists>node. at_state w r def node \<and> passed (gate_commitment r node) \<and>
          (allowed (gate_handoff r) \<or>
           (case matched (r_intent r) node of
              None \<Rightarrow> allowed (gate_no_match w r def node)
            | Some m \<Rightarrow> \<forall>c \<in> set (transition_checks w r wid def node m). passed c))"
    if o: "allowed ?rest \<or> passed ?rest"
  proof -
    have cur: "truthy (current_state w r def)" using o
      by (auto simp: Let_def allowed_Cons passed_first_of gate_no_state_def split: if_splits)
    obtain node where node: "stateNodeById def (current_state w r def) = Some node"
      using o by (cases "stateNodeById def (current_state w r def)") (auto simp: Let_def allowed_Cons passed_first_of)
    have s: "allowed (state_rules w r wid def node) \<or> passed (state_rules w r wid def node)"
      using o node by (auto simp: Let_def allowed_Cons passed_first_of)
    have no_match: "\<not> passed (gate_no_match w r def node)" by (simp add: gate_no_match_def Let_def)
    have checks: "\<not> allowed (first_of (transition_checks w r wid def node m))" for m
      by (rule never_allow) (use checks_never_allow in blast)
    show ?thesis using s cur node no_match checks
      by (intro exI [of _ node])
         (auto simp: at_state_def state_rules_def allowed_Cons passed_first_of split: option.splits)
  qed
  from d show "passed (gate_unknown_caller w r def)" "passed (gate_cycle_roll w r wid def)"
    by (auto simp: defined_rules_def caller_checks_def allowed_Cons passed_first_of)
  from d rest show "allowed (gate_escape w r def) \<or> passed (gate_escape w r def) \<and>
      (allowed (gate_refuse w r def) \<or> passed (gate_refuse w r def) \<and>
      (allowed (gate_demote w r wid) \<or> passed (gate_demote w r wid) \<and>
      (allowed (gate_retire w r wid) \<or> passed (gate_retire w r wid) \<and>
       passed (gate_unverified w r def) \<and> passed (gate_delegate_only w r def) \<and>
       (\<exists>node. at_state w r def node \<and> passed (gate_commitment r node) \<and>
          (allowed (gate_handoff r) \<or>
           (case matched (r_intent r) node of
              None \<Rightarrow> allowed (gate_no_match w r def node)
            | Some m \<Rightarrow> \<forall>c \<in> set (transition_checks w r wid def node m). passed c))))))"
    by (simp only: defined_rules_def caller_checks_def append_Cons append_Nil allowed_Cons passed_first_of never_allow_callers
          list.set insert_iff empty_iff ball_simps allowed_Nil first_of_single) blast
qed

text \<open>
  C1: No command passes without someone entitled to it: on a governed ticket whose definition is loaded, a
  command that the gate allows comes from a caller the policy knows (or is a human's sign-off on
  high stakes), never under a break-glass claim without the capability nor with degraded
  configuration otherwise, and it is the escape or refusal of the delegate, a steward or of a ticket
  nobody holds, the demotion of merged work, a steward's retirement, or, from the delegate, a
  nominated approver, the recovery steward or on a ticket nobody holds, a hand-over, the completion of
  a ticket that is natively finished, or an edge the definition declares for the authoritative state,
  past no commitment gate.
\<close>

theorem nothing_passes_unentitled:
  assumes "governed w r wid def" and "fst (checkWorkflowRules w r) = Allow"
  shows "(r_breakGlass r \<longrightarrow> capable w r ''workflow:break-glass'') \<and> (\<not> r_breakGlass r \<longrightarrow> isHealthy (w_config w)) \<and>
    (caller_known w r \<or> human_signoff_path w r def) \<and>
    (r_intent r = break_glass_command def \<and>
       (\<not> truthy (delegate_of w r) \<or> \<not> truthy (r_caller r) \<or> is_delegate w r \<or> is_steward w r def = Inr True) \<or>
     r_intent r = ''refuse-work'' \<and> (r_hasComment r \<or> r_breakGlass r) \<and>
       (\<not> truthy (delegate_of w r) \<or> is_delegate w r \<or> is_steward w r def = Inr True) \<or>
     r_intent r = ''demote'' \<and> wid = ''dev-impl'' \<and> (\<exists>b. w_branchStatus w AtDemote = Some b \<and> hasMergedPR b) \<or>
     r_intent r = ''retire'' \<and> capable w r ''workflow:steward'' \<or>
     (\<not> truthy (delegate_of w r) \<or> is_delegate w r \<or> designated_here w r def \<or> capable w r ''workflow:break-glass'') \<and>
     (\<exists>node. at_state w r def node \<and> (s_commitment_gate node = None \<or> commitmentExitFor node (r_intent r) \<noteq> None) \<and>
        (r_intent r \<in> {''handoff'', ''handoff-work''} \<or>
         r_intent r = ''complete'' \<and> isTerminalIssueState (tc_nativeState (ticket w)) \<or>
         (\<exists>m \<in> set (s_transitions node). t_command m = Some (r_intent r) \<or> r_intent r = ''force-deploy'' \<and> t_command m = Some ''continue''))))"
proof -
  note a = allowed_governed [OF assms]
  have edge: "\<exists>m \<in> set (s_transitions node). t_command m = Some (r_intent r) \<or> r_intent r = ''force-deploy'' \<and> t_command m = Some ''continue''"
    if "matched (r_intent r) node = Some m" for node m
    using that by (auto simp: matched_def transition_named_def split: option.splits if_splits dest!: find_SomeD)
  have state: "r_intent r \<in> {''handoff'', ''handoff-work''} \<or>
         r_intent r = ''complete'' \<and> isTerminalIssueState (tc_nativeState (ticket w)) \<or>
         (\<exists>m \<in> set (s_transitions node). t_command m = Some (r_intent r) \<or> r_intent r = ''force-deploy'' \<and> t_command m = Some ''continue'')"
    if "allowed (gate_handoff r) \<or> (case matched (r_intent r) node of None \<Rightarrow> allowed (gate_no_match w r def node)
            | Some m \<Rightarrow> \<forall>c \<in> set (transition_checks w r wid def node m). passed c)" for node
    using that edge [of node]
    by (cases "matched (r_intent r) node") (auto simp: gate_handoff_def gate_no_match_def Let_def split: if_splits)
  have 1: "r_breakGlass r \<longrightarrow> capable w r ''workflow:break-glass''" using a(1) by (auto simp: gate_break_glass_def split: if_splits)
  have 2: "\<not> r_breakGlass r \<longrightarrow> isHealthy (w_config w)" using a(3) by (auto simp: gate_config_def split: if_splits)
  have 3: "caller_known w r \<or> human_signoff_path w r def" using a(4) by (auto simp: gate_unknown_caller_def split: if_splits)
  have esc: "allowed (gate_escape w r def) \<Longrightarrow> r_intent r = break_glass_command def \<and>
      (\<not> truthy (delegate_of w r) \<or> \<not> truthy (r_caller r) \<or> is_delegate w r \<or> is_steward w r def = Inr True)"
    by (auto simp: gate_escape_def split: if_splits sum.splits)
  have ref: "allowed (gate_refuse w r def) \<Longrightarrow> r_intent r = ''refuse-work'' \<and> (r_hasComment r \<or> r_breakGlass r) \<and>
      (\<not> truthy (delegate_of w r) \<or> is_delegate w r \<or> is_steward w r def = Inr True)"
    by (auto simp: gate_refuse_def split: if_splits sum.splits)
  have dem: "allowed (gate_demote w r wid) \<Longrightarrow> r_intent r = ''demote'' \<and> wid = ''dev-impl'' \<and>
      (\<exists>b. w_branchStatus w AtDemote = Some b \<and> hasMergedPR b)"
    by (auto simp: gate_demote_def split: if_splits option.splits)
  have ret: "allowed (gate_retire w r wid) \<Longrightarrow> r_intent r = ''retire'' \<and> capable w r ''workflow:steward''"
    by (auto simp: gate_retire_def split: if_splits)
  have del: "passed (gate_unverified w r def) \<Longrightarrow> passed (gate_delegate_only w r def) \<Longrightarrow>
      \<not> truthy (delegate_of w r) \<or> is_delegate w r \<or> designated_here w r def \<or> capable w r ''workflow:break-glass''"
    by (auto simp: gate_unverified_def gate_delegate_only_def is_delegate_def split: if_splits)
  have com: "passed (gate_commitment r node) \<Longrightarrow> s_commitment_gate node = None \<or> commitmentExitFor node (r_intent r) \<noteq> None" for node
    by (auto simp: gate_commitment_def split: if_splits)
  from a(6) consider (escape) "allowed (gate_escape w r def)" | (refuse) "allowed (gate_refuse w r def)"
    | (demote) "allowed (gate_demote w r wid)" | (retire) "allowed (gate_retire w r wid)"
    | (edge) node where "passed (gate_unverified w r def)" "passed (gate_delegate_only w r def)" "at_state w r def node"
        "passed (gate_commitment r node)"
        "allowed (gate_handoff r) \<or> (case matched (r_intent r) node of None \<Rightarrow> allowed (gate_no_match w r def node)
            | Some m \<Rightarrow> \<forall>c \<in> set (transition_checks w r wid def node m). passed c)"
    by blast
  then show ?thesis
  proof cases
    case escape
    then show ?thesis using 1 2 3 esc by simp
  next
    case refuse
    then show ?thesis using 1 2 3 ref by simp
  next
    case demote
    then show ?thesis using 1 2 3 dem by simp
  next
    case retire
    then show ?thesis using 1 2 3 ret by simp
  next
    case edge
    have "\<exists>node. at_state w r def node \<and> (s_commitment_gate node = None \<or> commitmentExitFor node (r_intent r) \<noteq> None) \<and>
        (r_intent r \<in> {''handoff'', ''handoff-work''} \<or>
         r_intent r = ''complete'' \<and> isTerminalIssueState (tc_nativeState (ticket w)) \<or>
         (\<exists>m \<in> set (s_transitions node). t_command m = Some (r_intent r) \<or> r_intent r = ''force-deploy'' \<and> t_command m = Some ''continue''))"
      using edge(3) com [OF edge(4)] state [OF edge(5)] by blast
    then show ?thesis using 1 2 3 del [OF edge(1,2)] by simp
  qed
qed

text \<open>A command that is no hatch of its own: the checks of its transition decide.\<close>

definition ordinary :: "GateRequest \<Rightarrow> WorkflowDef \<Rightarrow> bool" where
  "ordinary r def \<longleftrightarrow>
     r_intent r \<notin> {break_glass_command def, ''refuse-work'', ''demote'', ''retire'', ''handoff'', ''handoff-work'', ''complete''}"

lemma ordinary_gates:
  assumes "ordinary r def"
  shows "gate_escape w r def = pass" "gate_refuse w r def = pass" "gate_demote w r wid = pass" "gate_retire w r wid = pass"
    "gate_handoff r = pass" "\<not> allowed (gate_no_match w r def node)"
  using assms by (simp_all add: ordinary_def gate_escape_def gate_refuse_def gate_demote_def gate_retire_def gate_handoff_def
      gate_no_match_def Let_def)

lemma edge_checked:
  assumes "governed w r wid def" "fst (checkWorkflowRules w r) = Allow" "at_state w r def node" "ordinary r def"
  obtains m where "matched (r_intent r) node = Some m" "\<forall>c \<in> set (transition_checks w r wid def node m). passed c"
proof -
  obtain node' where n: "at_state w r def node'" "case matched (r_intent r) node' of
              None \<Rightarrow> allowed (gate_no_match w r def node')
            | Some m \<Rightarrow> \<forall>c \<in> set (transition_checks w r wid def node' m). passed c"
    using allowed_governed(6) [OF assms(1,2)] ordinary_gates(1-5) [OF assms(4)] by auto
  then have "node' = node" using assms(3) by (simp add: at_state_def)
  then show thesis using that n(2) ordinary_gates(6) [OF assms(4)] by (auto split: option.splits)
qed

lemma first_of_alerts: "\<forall>g \<in> set gs. passed g \<Longrightarrow> snd (first_of gs) = concat (map snd gs)"
  by (induction gs rule: first_of.induct) (auto simp: pass_def split: prod.split)

lemma edge_alerts:
  assumes "governed w r wid def" "fst (checkWorkflowRules w r) = Allow" "at_state w r def node" "ordinary r def"
    and "matched (r_intent r) node = Some m" and "c \<in> set (transition_checks w r wid def node m)"
  shows "set (snd c) \<subseteq> set (snd (checkWorkflowRules w r))"
proof -
  note a = allowed_governed [OF assms(1,2)]
  have checks: "\<forall>c \<in> set (transition_checks w r wid def node m). passed c"
    using edge_checked [OF assms(1-4)] assms(5) by (metis option.inject)
  have com: "passed (gate_commitment r node)"
    using a(6) ordinary_gates(1-5) [OF assms(4)] assms(3) by (auto simp: at_state_def)
  have del: "passed (gate_unverified w r def)" "passed (gate_delegate_only w r def)"
    using a(6) ordinary_gates(1-5) [OF assms(4)] by auto
  have cur: "passed (gate_no_state r (current_state w r def))" using assms(3) by (simp add: at_state_def gate_no_state_def)
  have s: "passed (state_rules w r wid def node)" "set (snd c) \<subseteq> set (snd (state_rules w r wid def node))"
    using com checks assms(5,6) ordinary_gates(5) [OF assms(4)]
    by (auto simp: state_rules_def passed_first_of first_of_alerts)
  have d: "passed (defined_rules w r wid def)" "set (snd c) \<subseteq> set (snd (defined_rules w r wid def))"
    using s cur del a(4,5) ordinary_gates(1-4) [OF assms(4)] assms(3)
    by (auto simp: defined_rules_def caller_checks_def passed_first_of first_of_alerts at_state_def Let_def)
  then show ?thesis using a(1-3) unfolding governed_runs [OF assms(1)] Let_def
    by (auto simp: case_prod_unfold passed_first_of first_of_alerts)
qed

text \<open>
  C2: Authority for the edge: when the gate allows a known agent an ordinary command, the agent holds the
  capability the edge names (and \<open>workflow:force-deploy\<close> for a forced release), fills the role that
  owns the state, unless the edge nominates an approver, the role has no members, or the state is
  the recovery steward's, and above the stakes threshold it is the nominated approver: no other agent
  signs off high-stakes work. The comment and the artifact the edge demands are there.
\<close>

theorem edges_need_authority:
  assumes "governed w r wid def" and "fst (checkWorkflowRules w r) = Allow" and "at_state w r def node" and "ordinary r def"
    and "caller_known w r"
  shows "\<exists>m \<in> set (s_transitions node).
    (t_command m = Some (r_intent r) \<or> r_intent r = ''force-deploy'' \<and> t_command m = Some ''continue'') \<and>
    (truthy (t_requires_capability m) \<and> r_intent r \<noteq> ''force-deploy'' \<longrightarrow> capable w r (the (t_requires_capability m))) \<and>
    (r_intent r = ''force-deploy'' \<longrightarrow> capable w r ''workflow:force-deploy'') \<and>
    (truthy (s_owner_role node) \<and> \<not> t_designated_approver m \<and> r_intent r \<noteq> ''force-deploy'' \<longrightarrow>
       (\<exists>bs. resolveBodiesForOwnerRole (w_policy w) (the (s_owner_role node)) def = Inr bs \<and>
          (bs = [] \<or> r_body r \<in> set bs \<or> s_owner_role node = steward_role def \<and> capable w r ''workflow:break-glass''))) \<and>
    (t_requires_human_signoff m \<and> stakes_reached w def \<longrightarrow>
       t_designated_approver m \<and> truthy (t_requires_capability m) \<and> capable w r (the (t_requires_capability m))) \<and>
    (t_requires_comment m \<and> r_intent r \<notin> set ROUTINE_FORWARD_COMMANDS \<and> r_intent r \<noteq> ''force-deploy'' \<and> \<not> r_breakGlass r \<longrightarrow> r_hasComment r) \<and>
    (t_requires_artifact m \<longrightarrow> truthy (r_artifactRef r))"
proof -
  obtain m where m: "matched (r_intent r) node = Some m" and c: "\<forall>c \<in> set (transition_checks w r wid def node m). passed c"
    by (rule edge_checked [OF assms(1-4)])
  have cmd: "m \<in> set (s_transitions node)" "t_command m = Some (r_intent r) \<or> r_intent r = ''force-deploy'' \<and> t_command m = Some ''continue''"
    using m by (auto simp: matched_def transition_named_def split: option.splits if_splits dest!: find_SomeD)
  have p: "passed (gate_force_deploy w r)" "passed (gate_capability w r def node m)" "passed (gate_owner_role w r def node m)"
    "passed (gate_comment r m)" "passed (gate_artifact r m)" "passed (gate_stakes w r def node m)"
    using c by (simp_all add: transition_checks_def Let_def)
  have "truthy (t_requires_capability m) \<and> r_intent r \<noteq> ''force-deploy'' \<longrightarrow> capable w r (the (t_requires_capability m))"
    using p(2) assms(5) by (auto simp: gate_capability_def Let_def split: if_splits)
  moreover have "r_intent r = ''force-deploy'' \<longrightarrow> capable w r ''workflow:force-deploy''"
    using p(1) assms(5) by (auto simp: gate_force_deploy_def split: if_splits)
  moreover have "truthy (s_owner_role node) \<and> \<not> t_designated_approver m \<and> r_intent r \<noteq> ''force-deploy'' \<longrightarrow>
       (\<exists>bs. resolveBodiesForOwnerRole (w_policy w) (the (s_owner_role node)) def = Inr bs \<and>
          (bs = [] \<or> r_body r \<in> set bs \<or> s_owner_role node = steward_role def \<and> capable w r ''workflow:break-glass''))"
    using p(3) assms(5) by (auto simp: gate_owner_role_def Let_def split: if_splits sum.splits)
  moreover have "t_requires_human_signoff m \<and> stakes_reached w def \<longrightarrow>
       t_designated_approver m \<and> truthy (t_requires_capability m) \<and> capable w r (the (t_requires_capability m))"
    using p(6) assms(5) by (auto simp: gate_stakes_def approver_of_def split: if_splits)
  moreover have "t_requires_comment m \<and> r_intent r \<notin> set ROUTINE_FORWARD_COMMANDS \<and> r_intent r \<noteq> ''force-deploy'' \<and> \<not> r_breakGlass r \<longrightarrow> r_hasComment r"
    using p(4) cmd(2) by (auto simp: gate_comment_def split: if_splits)
  moreover have "t_requires_artifact m \<longrightarrow> truthy (r_artifactRef r)"
    using p(5) by (auto simp: gate_artifact_def split: if_splits)
  ultimately show ?thesis using cmd by blast
qed

text \<open>
  C3: Nothing is released unmerged in silence: when \<open>continue\<close> is allowed out of \<open>merge\<close> or \<open>deploy\<close>, the pull
  request is merged, or its metadata is missing and GitHub confirms the merge, or GitHub cannot be
  asked, and each of these last cases raises an alert. The one silent exception is a status that
  could not be read twice in a row.
\<close>

theorem release_needs_evidence:
  assumes "governed w r wid def" and "fst (checkWorkflowRules w r) = Allow" and "at_state w r def node" and "ordinary r def"
    and "s_id node \<in> {''merge'', ''deploy''}" and "r_intent r = ''continue''"
  shows "w_branchStatus w AtRelease = None \<and> w_branchStatus w AtReleaseRetry = None \<or>
    (\<exists>b. (w_branchStatus w AtRelease = Some b \<or> w_branchStatus w AtRelease = None \<and> w_branchStatus w AtReleaseRetry = Some b) \<and>
       (hasMergedPR b \<or>
        hasPR b \<and> \<not> prMetadataAvailable b \<and>
          ((\<exists>u \<in> set (prUrls b). checkPRMergedFromGitHub (w_ghToken w) (w_ghApi w) u = Some True) \<and>
             AlertMergedOnGitHub \<in> set (snd (checkWorkflowRules w r)) \<or>
           \<not> w_ghToken w \<and> AlertNoToken \<in> set (snd (checkWorkflowRules w r)) \<or>
           (\<exists>u \<in> set (prUrls b). checkPRMergedFromGitHub (w_ghToken w) (w_ghApi w) u = None) \<and>
             AlertUnverifiable (prUrls b) \<in> set (snd (checkWorkflowRules w r)))))"
proof -
  obtain m where m: "matched (r_intent r) node = Some m" and c: "\<forall>c \<in> set (transition_checks w r wid def node m). passed c"
    by (rule edge_checked [OF assms(1-4)])
  have mem: "gate_release w r node \<in> set (transition_checks w r wid def node m)" by (simp add: transition_checks_def Let_def)
  have alerts: "set (snd (gate_release w r node)) \<subseteq> set (snd (checkWorkflowRules w r))"
    by (rule edge_alerts [OF assms(1-4) m mem])
  have p: "passed (gate_release w r node)" using c mem by blast
  define st where "st = (case w_branchStatus w AtRelease of None \<Rightarrow> w_branchStatus w AtReleaseRetry | Some b \<Rightarrow> Some b)"
  have rel: "gate_release w r node = (case st of None \<Rightarrow> pass | Some b \<Rightarrow>
               if hasMergedPR b then pass
               else if \<not> hasBranch b \<and> \<not> hasPR b then (Some (Block NoEvidence), [AlertNoEvidence])
               else if hasPR b \<and> \<not> hasMergedPR b \<and> \<not> prMetadataAvailable b then github_fallback w b
               else block (ReleaseUnmerged (missing_of b)))"
    using assms(5,6) by (simp add: gate_release_def st_def)
  show ?thesis
  proof (cases st)
    case None
    then show ?thesis by (auto simp: st_def split: option.splits)
  next
    case (Some b)
    then have b: "w_branchStatus w AtRelease = Some b \<or> w_branchStatus w AtRelease = None \<and> w_branchStatus w AtReleaseRetry = Some b"
      by (auto simp: st_def split: option.splits)
    show ?thesis
    proof (cases "hasMergedPR b")
      case False
      then have h: "hasPR b" "\<not> prMetadataAvailable b" "gate_release w r node = github_fallback w b"
        using p Some unfolding rel by (auto split: if_splits)
      have "passed (github_fallback w b)" "set (snd (github_fallback w b)) \<subseteq> set (snd (checkWorkflowRules w r))"
        using p alerts h(3) by simp_all
      then have "(\<exists>u \<in> set (prUrls b). checkPRMergedFromGitHub (w_ghToken w) (w_ghApi w) u = Some True) \<and>
             AlertMergedOnGitHub \<in> set (snd (checkWorkflowRules w r)) \<or>
           \<not> w_ghToken w \<and> AlertNoToken \<in> set (snd (checkWorkflowRules w r)) \<or>
           (\<exists>u \<in> set (prUrls b). checkPRMergedFromGitHub (w_ghToken w) (w_ghApi w) u = None) \<and>
             AlertUnverifiable (prUrls b) \<in> set (snd (checkWorkflowRules w r))"
        by (auto simp: github_fallback_def Let_def image_iff eq_commute dest!: set_takeWhileD split: if_splits)
      then show ?thesis using b h by blast
    qed (use b in blast)
  qed
qed

text \<open>
  C14: The gate fails closed: without break-glass, a workflow command on a ticket whose context cannot be
  read, a degraded configuration and a registry that cannot be loaded are refused whatever else
  holds, and a break-glass claim without the capability is refused before anything is read.
\<close>

theorem gate_fails_closed:
  assumes "truthy (r_issueId r)"
    and "r_breakGlass r \<and> \<not> capable w r ''workflow:break-glass'' \<or>
      \<not> r_breakGlass r \<and> (w_context w = None \<and> r_intent r \<notin> {''begin-work'', ''note'', ''complete'', ''cancel''} \<or>
        truthy (getWorkflowId (labels_of w)) \<and> (\<not> isHealthy (w_config w) \<or> w_registry w = None))"
  shows "\<exists>b \<in> {BreakGlassUnauthorized, ContextUnreadable, ConfigDegraded, RegistryUnloadable}. checkWorkflowRules w r = (Block b, [])"
proof (cases "r_breakGlass r")
  case True
  then have "gate_break_glass w r = block BreakGlassUnauthorized" using assms(2) by (simp add: gate_break_glass_def)
  then show ?thesis using assms(1) by (simp add: checkWorkflowRules_def gate_defs)
next
  case False
  then have bg: "gate_break_glass w r = pass" by (simp add: gate_break_glass_def)
  show ?thesis
  proof (cases "gate_unreadable w r = pass")
    case True
    then have armed: "truthy (getWorkflowId (labels_of w))" "\<not> isHealthy (w_config w) \<or> w_registry w = None"
      using False assms(2) by (auto simp: gate_unreadable_def ticket_def fetchTicketContext_def gate_defs split: if_splits)
    then have "gate_unarmed w r = pass" by (simp add: gate_unarmed_def)
    moreover have "gate_config w r = block ConfigDegraded \<or>
        gate_config w r = pass \<and> armed_rules w r (orElse (getWorkflowId (labels_of w)) []) = block RegistryUnloadable"
      using armed(2) False by (auto simp: gate_config_def armed_rules_def)
    ultimately show ?thesis using assms(1) bg True by (auto simp: checkWorkflowRules_def gate_defs)
  next
    case nofetch: False
    then have "gate_unreadable w r = block ContextUnreadable" by (simp add: gate_unreadable_def split: if_splits)
    then show ?thesis using assms(1) bg by (simp add: checkWorkflowRules_def gate_defs)
  qed
qed

text \<open>
  Work goes to someone who may do it: when an ordinary command is allowed into a state that a role
  owns, a target it names belongs to that role, one is named where several candidates and the edge
  require a choice, and an edge that forbids it never targets the caller.
\<close>

theorem target_belongs_to_role:
  assumes "governed w r wid def" and "fst (checkWorkflowRules w r) = Allow" and "at_state w r def node" and "ordinary r def"
  shows "\<exists>m \<in> set (s_transitions node).
    (\<forall>dest role bs. stateNodeById def (t_to m) = Some dest \<and> s_kind dest \<noteq> Some ''terminal'' \<and> s_owner_role dest = Some role \<and> role \<noteq> [] \<and>
       resolveBodiesForOwnerRole (w_policy w) role def = Inr bs \<and> bs \<noteq> [] \<longrightarrow>
       (truthy (r_target r) \<longrightarrow> the (r_target r) \<in> set bs) \<and>
       (1 < length bs \<and> map_option a_mode (t_assign m) = Some (Some ''required'') \<longrightarrow> truthy (r_target r))) \<and>
    (map_option a_constraint (t_assign m) \<in> {Some (Some ''not-implementer''), Some (Some ''not-self'')} \<and> r_body r \<noteq> [] \<longrightarrow>
       r_target r \<noteq> Some (r_body r))"
proof -
  obtain m where m: "matched (r_intent r) node = Some m" and c: "\<forall>c \<in> set (transition_checks w r wid def node m). passed c"
    by (rule edge_checked [OF assms(1-4)])
  have mem: "m \<in> set (s_transitions node)"
    using m by (auto simp: matched_def transition_named_def split: option.splits if_splits dest!: find_SomeD)
  have p: "passed (gate_target w r def (stateNodeById def (t_to m)) m)" "passed (gate_self r m)"
    using c by (simp_all add: transition_checks_def Let_def)
  have "(truthy (r_target r) \<longrightarrow> the (r_target r) \<in> set bs) \<and>
       (1 < length bs \<and> map_option a_mode (t_assign m) = Some (Some ''required'') \<longrightarrow> truthy (r_target r))"
    if h: "stateNodeById def (t_to m) = Some dest" "s_kind dest \<noteq> Some ''terminal''" "s_owner_role dest = Some role" "role \<noteq> []"
      "resolveBodiesForOwnerRole (w_policy w) role def = Inr bs" "bs \<noteq> []" for dest role bs
  proof (cases "1 < length bs")
    case True
    then show ?thesis using p(1) h
      by (auto simp: gate_target_def Let_def truthy_def split: if_splits option.splits)
  next
    case False
    then obtain b where "bs = [b]" using h(6) by (cases bs) auto
    then show ?thesis using p(1) h by (auto simp: gate_target_def Let_def truthy_def split: if_splits option.splits)
  qed
  moreover have "map_option a_constraint (t_assign m) \<in> {Some (Some ''not-implementer''), Some (Some ''not-self'')} \<and> r_body r \<noteq> [] \<longrightarrow>
       r_target r \<noteq> Some (r_body r)"
    using p(2) by (auto simp: gate_self_def Let_def truthy_def split: if_splits option.splits)
  ultimately show ?thesis using mem by blast
qed

text \<open>
  C15: Done means done: without break-glass an ordinary command is allowed along an edge that completes
  only when it may: the children could be read, there are some, all have finished on their
  workflow, one of them finished an implementation, the demanded sections are in the description,
  and a \<open>wf:task\<close> ticket is not closed over a pull request that is known to be unmerged.
\<close>

theorem done_means_done:
  assumes "governed w r wid def" and "fst (checkWorkflowRules w r) = Allow" and "at_state w r def node" and "ordinary r def"
    and "\<not> r_breakGlass r"
  shows "\<exists>m \<in> set (s_transitions node).
    (t_requires_children_terminal m \<longrightarrow>
       (\<exists>cs. fetchChildren (w_children w) = Some cs \<and> cs \<noteq> [] \<and> (\<forall>c \<in> set cs. isTerminal c \<and> \<not> isOrphaned c))) \<and>
    (t_requires_implementation_child m \<longrightarrow>
       (\<exists>cs. fetchChildren (w_children w) = Some cs \<and> (\<exists>c \<in> set cs. isTerminal c \<and> {''wf:dev-impl'', ''wf:task''} \<inter> set (c_labels c) \<noteq> {}))) \<and>
    (t_requires_capability_statement m \<longrightarrow> hasCapabilityStatementEvidence (w_description w)) \<and>
    (t_requires_demonstration_walk m \<longrightarrow> hasPassedDemonstrationWalkEvidence (w_description w)) \<and>
    (closes_to_done wid (stateNodeById def (t_to m)) \<longrightarrow>
       (\<forall>b. w_branchStatus w AtClose = Some b \<and> hasPR b \<and> prMetadataAvailable b \<longrightarrow> hasMergedPR b))"
proof -
  obtain m where m: "matched (r_intent r) node = Some m" and c: "\<forall>c \<in> set (transition_checks w r wid def node m). passed c"
    by (rule edge_checked [OF assms(1-4)])
  have mem: "m \<in> set (s_transitions node)"
    using m by (auto simp: matched_def transition_named_def split: option.splits if_splits dest!: find_SomeD)
  have p: "passed (gate_children w r m)" "passed (gate_evidence w r m)" "passed (gate_close w r wid (stateNodeById def (t_to m)))"
    using c by (simp_all add: transition_checks_def Let_def)
  let ?b = "evaluateBarrier None None (fetchChildren (w_children w))"
  have all: "counts None None = (\<lambda>c. True)" by (simp add: fun_eq_iff counts_def expected_ok_def not_scoped truthy_def)
  have read: "\<exists>cs. fetchChildren (w_children w) = Some cs \<and> br_children ?b = cs \<and> (totalChildren ?b \<noteq> 0 \<longrightarrow> cs \<noteq> []) \<and>
      (totalChildren ?b \<noteq> 0 \<and> allTerminal ?b \<longrightarrow> (\<forall>c \<in> set cs. isTerminal c \<and> \<not> isOrphaned c))" if "\<not> readFailed ?b"
  proof (cases "fetchChildren (w_children w)")
    case (Some cs)
    have "?b = (if cs = [] then no_children True False else tally cs)"
      using evaluate_read [of None None cs] Some by (simp add: all truthy_def)
    moreover have "totalChildren (tally cs) = length cs" "br_children (tally cs) = cs" "br_children (no_children True False) = []"
      "totalChildren (no_children True False) = 0"
      by (simp_all add: tally_def no_children_def Let_def)
    ultimately show ?thesis using Some tally_all [of cs] by auto
  qed (use that in \<open>simp add: evaluateBarrier_def no_children_def\<close>)
  have ch: "t_requires_children_terminal m \<or> t_requires_implementation_child m \<longrightarrow> \<not> readFailed ?b"
    "t_requires_children_terminal m \<longrightarrow> totalChildren ?b \<noteq> 0 \<and> allTerminal ?b"
    "t_requires_implementation_child m \<longrightarrow> (\<exists>c \<in> set (br_children ?b). implementation_child c)"
    using p(1) assms(5) by (auto simp: gate_children_def Let_def filter_empty_conv split: if_splits)
  have "t_requires_children_terminal m \<longrightarrow>
       (\<exists>cs. fetchChildren (w_children w) = Some cs \<and> cs \<noteq> [] \<and> (\<forall>c \<in> set cs. isTerminal c \<and> \<not> isOrphaned c))"
  proof
    assume i: "t_requires_children_terminal m"
    then obtain cs where "fetchChildren (w_children w) = Some cs" "totalChildren ?b \<noteq> 0 \<longrightarrow> cs \<noteq> []"
      "totalChildren ?b \<noteq> 0 \<and> allTerminal ?b \<longrightarrow> (\<forall>c \<in> set cs. isTerminal c \<and> \<not> isOrphaned c)" using ch(1) read by metis
    then show "\<exists>cs. fetchChildren (w_children w) = Some cs \<and> cs \<noteq> [] \<and> (\<forall>c \<in> set cs. isTerminal c \<and> \<not> isOrphaned c)"
      using ch(2) i by simp
  qed
  moreover have "t_requires_implementation_child m \<longrightarrow>
       (\<exists>cs. fetchChildren (w_children w) = Some cs \<and> (\<exists>c \<in> set cs. isTerminal c \<and> {''wf:dev-impl'', ''wf:task''} \<inter> set (c_labels c) \<noteq> {}))"
  proof
    assume i: "t_requires_implementation_child m"
    then obtain cs c where "fetchChildren (w_children w) = Some cs" "c \<in> set cs" "implementation_child c"
      using ch(1,3) read by metis
    then show "\<exists>cs. fetchChildren (w_children w) = Some cs \<and> (\<exists>c \<in> set cs. isTerminal c \<and> {''wf:dev-impl'', ''wf:task''} \<inter> set (c_labels c) \<noteq> {})"
      by (auto simp: implementation_child_def IMPLEMENTATION_CHILD_WORKFLOW_LABELS_def)
  qed
  moreover have "t_requires_capability_statement m \<longrightarrow> hasCapabilityStatementEvidence (w_description w)"
    "t_requires_demonstration_walk m \<longrightarrow> hasPassedDemonstrationWalkEvidence (w_description w)"
    using p(2) assms(5) by (auto simp: gate_evidence_def split: if_splits)
  moreover have "closes_to_done wid (stateNodeById def (t_to m)) \<longrightarrow>
       (\<forall>b. w_branchStatus w AtClose = Some b \<and> hasPR b \<and> prMetadataAvailable b \<longrightarrow> hasMergedPR b)"
    using p(3) assms(5) by (auto simp: gate_close_def split: if_splits option.splits)
  ultimately show ?thesis by (intro bexI [OF _ mem] conjI)
qed

subsection \<open>A command of several mutations is judged once\<close>

definition similar :: "gate \<Rightarrow> gate \<Rightarrow> bool" where
  "similar g g' \<longleftrightarrow> (allowed g \<longleftrightarrow> allowed g') \<and> (passed g \<longleftrightarrow> passed g')"

lemma similar_refl: "similar g g"
  by (simp add: similar_def)

lemma similar_first_of: "list_all2 similar gs gs' \<Longrightarrow> similar (first_of gs) (first_of gs')"
  by (induction rule: list_all2_induct) (auto simp: similar_def allowed_Cons passed_first_of)

definition moved_on :: "GateWorld \<Rightarrow> ContextAnswer \<Rightarrow> string list \<Rightarrow> string option \<Rightarrow> applied_store \<Rightarrow> int \<Rightarrow> GateWorld" where
  "moved_on w c ls d applied now = w\<lparr>w_context := Some (c\<lparr>ca_labels := ls, ca_delegate := d\<rparr>), w_applied := applied, w_now := now\<rparr>"

definition non_state :: "string list \<Rightarrow> string list" where
  "non_state ls = filter (\<lambda>l. \<not> starts_ci ''state:'' l) ls"

lemma find_non_state:
  "(\<And>l. P l \<Longrightarrow> \<not> starts_ci ''state:'' l) \<Longrightarrow> List.find P (non_state ls) = List.find P ls"
  by (induction ls) (auto simp: non_state_def)

lemma find_same: "non_state ls = non_state ls' \<Longrightarrow> (\<And>l. P l \<Longrightarrow> \<not> starts_ci ''state:'' l) \<Longrightarrow> List.find P ls = List.find P ls'"
  by (metis find_non_state)

lemma first_letter: "starts_ci (c # p) l \<Longrightarrow> l \<noteq> [] \<and> ascii_lower (hd l) = c"
  by (cases l) (auto simp: starts_ci_def)

lemma workflow_id_same: "non_state ls = non_state ls' \<Longrightarrow> getWorkflowId ls = getWorkflowId ls'"
  unfolding getWorkflowId_def
  by (rule arg_cong [of _ _ "map_option label_value"], rule find_same) (auto dest!: first_letter)

lemma js_lower_ascii: "(of_char c :: nat) < 128 \<Longrightarrow> js_lower c = ascii_lower c"
  by (simp add: js_lower_def ascii_lower_def Let_def)

lemma lower_r: "js_lower c = CHR ''r'' \<Longrightarrow> ascii_lower c \<noteq> CHR ''s''"
  by (auto simp: js_lower_def ascii_lower_def Let_def split: if_splits)

lemma repo_refs_same: "non_state ls = non_state ls' \<Longrightarrow> resolveTicketRepoRefs ls rs = resolveTicketRepoRefs ls' rs"
proof -
  let ?P = "\<lambda>l. starts_with ''repo:'' (toLowerCase l)"
  have "\<not> starts_ci ''state:'' l" if "?P l" for l
    using that lower_r by (cases l) (auto simp: starts_with_def toLowerCase_def dest!: first_letter)
  then have "filter ?P ls = filter ?P (non_state ls)" for ls by (induction ls) (auto simp: non_state_def)
  then show "non_state ls = non_state ls' \<Longrightarrow> ?thesis" by (simp add: resolveTicketRepoRefs_def) metis
qed

lemma stakes_same:
  assumes "non_state ls = non_state ls'" and "\<forall>l \<in> fst ` set (levels st). \<not> starts_ci ''state:'' l"
  shows "resolveStakesLevel ls st = resolveStakesLevel ls' st"
proof -
  have "List.find (\<lambda>l. map_of (levels st) l \<noteq> None) ls = List.find (\<lambda>l. map_of (levels st) l \<noteq> None) ls'"
    by (rule find_same [OF assms(1)]) (use assms(2) in \<open>force dest: map_of_SomeD\<close>)
  then show ?thesis by (simp add: resolveStakesLevel_def)
qed

text \<open>The world after the ticket has moved on, as the command that carries snapshots sees it.\<close>

definition later :: "GateWorld \<Rightarrow> GateWorld \<Rightarrow> GateRequest \<Rightarrow> bool" where
  "later w w' r \<longleftrightarrow> truthy (r_snapshotState r) \<and> r_snapshotDelegate r \<noteq> None \<and>
     (\<exists>c ls d applied now. w_context w = Some c \<and> non_state ls = non_state (ca_labels c) \<and> w' = moved_on w c ls d applied now)"

lemma later_labels: "later w w' r \<Longrightarrow> non_state (labels_of w') = non_state (labels_of w)"
  by (auto simp: later_def moved_on_def labels_of_def ticket_def fetchTicketContext_def)

lemma later_readings:
  assumes "later w w' r"
  shows "getWorkflowId (labels_of w') = getWorkflowId (labels_of w)" "fetchFailed (ticket w') = fetchFailed (ticket w)"
    "tc_nativeState (ticket w') = tc_nativeState (ticket w)" "delegate_of w' r = delegate_of w r"
    "current_state w' r def = current_state w r def" "designated_here w' r def = designated_here w r def"
    "capable w' = capable w" "caller_known w' = caller_known w" "is_steward w' = is_steward w"
    "resolveTicketRepoRefs (labels_of w') (w_attachmentRepos w') = resolveTicketRepoRefs (labels_of w) (w_attachmentRepos w)"
  using assms workflow_id_same [OF later_labels [OF assms]] repo_refs_same [OF later_labels [OF assms]]
  by (auto simp: later_def moved_on_def ticket_def fetchTicketContext_def delegate_of_def current_state_def designated_here_def
      snapshot_or_live_def capable_def caller_known_def is_steward_def approver_of_def fun_eq_iff Let_def split: option.splits)

lemma later_world:
  assumes "later w w' r"
  shows "w_config w' = w_config w" "w_registry w' = w_registry w" "w_policy w' = w_policy w" "w_branchStatus w' = w_branchStatus w"
    "w_ghToken w' = w_ghToken w" "w_ghApi w' = w_ghApi w" "w_description w' = w_description w"
    "w_probeDescription w' = w_probeDescription w" "w_fanoutOutcome w' = w_fanoutOutcome w" "w_manualChildren w' = w_manualChildren w"
    "w_children w' = w_children w" "w_connectorRepo w' = w_connectorRepo w" "w_healthUrl w' = w_healthUrl w"
    "w_probeAnswer w' = w_probeAnswer w" "w_deployPolicy w' = w_deployPolicy w"
  using assms by (auto simp: later_def moved_on_def)

lemma later_checks:
  assumes "later w w' r" and "stakes_reached w' def = stakes_reached w def"
  shows "list_all2 similar (transition_checks w' r wid def node m) (transition_checks w r wid def node m)"
proof -
  note eqs = later_readings [OF assms(1)] later_world [OF assms(1)] assms(2)
  note simps = gate_force_deploy_def gate_manual_barrier_def gate_capability_def gate_owner_role_def gate_evidence_def
    gate_children_def gate_probe_def gate_close_def gate_release_def github_fallback_def gate_auto_deploy_def gate_target_def eqs
  have "gate_force_deploy w' r = gate_force_deploy w r" "gate_manual_barrier w' r node m = gate_manual_barrier w r node m"
    "gate_capability w' r def node m = gate_capability w r def node m" "gate_owner_role w' r def node m = gate_owner_role w r def node m"
    "gate_evidence w' r m = gate_evidence w r m" "gate_children w' r m = gate_children w r m" "gate_probe w' r m = gate_probe w r m"
    "gate_close w' r wid dest = gate_close w r wid dest" "gate_release w' r node = gate_release w r node"
    "gate_auto_deploy w' r wid def node m = gate_auto_deploy w r wid def node m"
    "gate_target w' r def dest m = gate_target w r def dest m" for dest
    unfolding simps Let_def by (rule refl)+
  moreover have "similar (gate_stakes w' r def node m) (gate_stakes w r def node m)"
    by (simp add: gate_stakes_def similar_def eqs approver_of_def)
  ultimately show ?thesis by (simp add: transition_checks_def Let_def similar_refl)
qed

lemma later_defined:
  assumes "later w w' r" and "stakes_reached w' def = stakes_reached w def" and "caller_known w r" and "r_intent r \<noteq> break_glass_command def"
  shows "similar (defined_rules w' r wid def) (defined_rules w r wid def)"
proof -
  note eqs = later_readings [OF assms(1)] later_world [OF assms(1)]
  have callers: "list_all2 similar (caller_checks w' r wid def) (caller_checks w r wid def)"
    using assms(3,4)
    by (simp add: caller_checks_def gate_unknown_caller_def gate_cycle_roll_def gate_escape_def gate_refuse_def gate_demote_def
        gate_retire_def gate_unverified_def gate_delegate_only_def eqs is_delegate_def similar_def split: sum.split)
  have state: "similar (state_rules w' r wid def node) (state_rules w r wid def node)" for node
    unfolding state_rules_def
    by (rule similar_first_of)
       (auto simp: similar_refl gate_no_match_def eqs split: option.split intro!: similar_first_of later_checks assms(1,2))
  show ?thesis unfolding defined_rules_def eqs(5)
    by (intro similar_first_of list_all2_appendI callers)
       (auto simp: Let_def similar_refl intro!: similar_first_of state split: option.split)
qed

text \<open>
  A governed command that needs several mutations is judged once: when its later mutations carry the
  state and the delegate seen at its start, the gate allows them exactly as it allowed the first, in
  whatever state, with whatever delegate and after whatever time the ticket is by then, as long as
  the labels that are not state labels (and the other answers) are the same. (A known agent; not the
  escape command; stakes are not read off state labels.)
\<close>

theorem follow_up_not_judged_again:
  assumes "later w w' r" and "governed w r wid def" and "caller_known w r" and "r_intent r \<noteq> break_glass_command def"
    and "\<forall>st. d_stakes def = Some st \<longrightarrow> (\<forall>l \<in> fst ` set (levels st). \<not> starts_ci ''state:'' l)"
  shows "fst (checkWorkflowRules w' r) = Allow \<longleftrightarrow> fst (checkWorkflowRules w r) = Allow"
proof -
  note eqs = later_readings [OF assms(1)] later_world [OF assms(1)]
  have g': "governed w' r wid def" using assms(2) by (simp add: governed_def eqs)
  have "stakes_reached w' def = stakes_reached w def"
    using stakes_same [OF later_labels [OF assms(1)]] assms(5) by (simp add: stakes_reached_def split: option.split)
  then have "similar (defined_rules w' r wid def) (defined_rules w r wid def)" by (rule later_defined [OF assms(1) _ assms(3,4)])
  moreover have "gate_break_glass w' r = gate_break_glass w r" "gate_unreadable w' r = gate_unreadable w r" "gate_config w' r = gate_config w r"
    by (simp_all add: gate_break_glass_def gate_unreadable_def gate_config_def eqs)
  ultimately have "similar (first_of [gate_break_glass w' r, gate_unreadable w' r, gate_config w' r, defined_rules w' r wid def])
      (first_of [gate_break_glass w r, gate_unreadable w r, gate_config w r, defined_rules w r wid def])"
    by (intro similar_first_of) (simp add: similar_refl)
  moreover have "fst (let (v, a) = g in (orElse v Allow, a)) = Allow \<longleftrightarrow> allowed g \<or> passed g" for g
    by (cases g; cases "fst g") (auto simp: allowed_def passed_def)
  ultimately show ?thesis unfolding governed_runs [OF assms(2)] governed_runs [OF g'] by (simp only: similar_def)
qed

subsection \<open>A release\<close>

definition release_def :: WorkflowDef where
  "release_def = sample_def
     [sample_state ''merge'' \<lparr>s_owner_role := Some ''merge'',
        s_transitions := [(verb ''continue'' ''check'')
          \<lparr>t_requires_capability := Some ''deploy:execute'', t_requires_artifact := True,
           t_requires_capability_statement := True,
           t_assign := Some \<lparr>a_mode = Some ''required'', a_constraint = Some ''not-self'', a_default = None,
             a_selection_criteria = None\<rparr>\<rparr>]\<rparr>,
      sample_state ''check'' \<lparr>s_owner_role := Some ''dev''\<rparr>]"

definition release_world :: GateWorld where
  "release_world = \<lparr>w_context = Some \<lparr>ca_identifier = Some ''AI-1'', ca_labels = [''wf:task'', ''state:merge''],
       ca_delegate = Some ''u1'', ca_state = None\<rparr>,
     w_config = (\<lambda>_. never_loaded), w_registry = Some [''task'' \<mapsto> release_def], w_policy = sample_policy, w_applied = [], w_now = 0,
     w_branchStatus = (\<lambda>_. Some \<lparr>hasBranch = True, hasPR = True, hasMergedPR = True, prMetadataAvailable = True, prUrls = [],
        mergeSha = None\<rparr>),
     w_ghToken = False, w_ghApi = (\<lambda>_. None), w_description = Some ''<!-- capability-statement -->'', w_probeDescription = None,
     w_fanoutOutcome = None, w_manualChildren = None, w_children = None, w_attachmentRepos = [], w_connectorRepo = None,
     w_healthUrl = None, w_probeAnswer = RequestFailed ''timeout'', w_deployPolicy = []\<rparr>"

definition release_request :: GateRequest where
  "release_request = \<lparr>r_intent = ''continue'', r_issueId = Some ''AI-1'', r_body = ''hanzo'', r_target = Some ''ai'', r_caller = Some ''u1'',
     r_artifactRef = Some ''v1'', r_breakGlass = False, r_isMeta = False, r_hasComment = False, r_snapshotDelegate = Some (Some ''u1''),
     r_snapshotState = Some ''merge'', r_commentBody = None\<rparr>"

definition merge_node :: WorkflowState where
  "merge_node = hd (d_states release_def)"

lemma release_governed: "governed release_world release_request ''task'' release_def"
proof -
  have "truthy (r_issueId release_request)" "getWorkflowId (labels_of release_world) = Some ''task''" by code_simp+
  then show ?thesis by (simp add: governed_def release_world_def)
qed

lemma release_at: "at_state release_world release_request release_def merge_node"
proof -
  have "truthy (current_state release_world release_request release_def)"
    "current_state release_world release_request release_def = Some ''merge''" by code_simp+
  then show ?thesis by (simp add: at_state_def stateNodeById_def merge_node_def release_def_def sample_def_def sample_state_def)
qed

lemma release_allowed: "fst (checkWorkflowRules release_world release_request) = Allow"
  by code_simp

text \<open>The samples meet the hypotheses of the theorems above.\<close>

lemma release_ordinary: "ordinary release_request release_def" "caller_known release_world release_request"
  by code_simp+

lemmas merge_node_simps = merge_node_def release_def_def sample_def_def sample_state_def verb_def release_request_def truthy_def

theorem nothing_passes_unentitled_witness:
  "caller_known release_world release_request \<or> human_signoff_path release_world release_request release_def"
  using nothing_passes_unentitled [OF release_governed release_allowed] by (elim conjE)

theorem edges_need_authority_witness:
  "capable release_world release_request ''deploy:execute''"
  using edges_need_authority [OF release_governed release_allowed release_at release_ordinary]
  by (simp add: merge_node_simps)

theorem release_needs_evidence_witness:
  "\<exists>b. w_branchStatus release_world AtRelease = Some b \<and> hasMergedPR b"
proof -
  have "s_id merge_node \<in> {''merge'', ''deploy''}" "r_intent release_request = ''continue''" by code_simp+
  from release_needs_evidence [OF release_governed release_allowed release_at release_ordinary(1) this]
  show ?thesis by (auto simp: release_world_def)
qed

theorem target_belongs_to_role_witness:
  "r_target release_request \<noteq> Some (r_body release_request)"
  using target_belongs_to_role [OF release_governed release_allowed release_at release_ordinary(1)]
  by (simp add: merge_node_simps)

theorem done_means_done_witness:
  "hasCapabilityStatementEvidence (w_description release_world)"
  using done_means_done [OF release_governed release_allowed release_at release_ordinary(1)] by (simp add: merge_node_simps)

definition degraded_world :: GateWorld where
  "degraded_world = release_world\<lparr>w_config := (\<lambda>_. never_loaded\<lparr>healthy := False\<rparr>)\<rparr>"

theorem gate_fails_closed_witness:
  "\<exists>b \<in> {BreakGlassUnauthorized, ContextUnreadable, ConfigDegraded, RegistryUnloadable}.
     checkWorkflowRules degraded_world release_request = (Block b, [])"
proof -
  have "truthy (r_issueId release_request)" "\<not> r_breakGlass release_request"
    "truthy (getWorkflowId (labels_of degraded_world))" "\<not> isHealthy (w_config degraded_world)" by code_simp+
  then show ?thesis using gate_fails_closed [of release_request degraded_world] by blast
qed

definition checked_world :: GateWorld where
  "checked_world = moved_on release_world (the (w_context release_world)) [''wf:task'', ''state:check''] (Some ''u2'') [] 9000"

theorem follow_up_not_judged_again_witness:
  "fst (checkWorkflowRules checked_world release_request) = Allow"
proof -
  have w: "w_context release_world = Some (the (w_context release_world))"
    "truthy (r_snapshotState release_request)" "r_snapshotDelegate release_request \<noteq> None"
    "non_state [''wf:task'', ''state:check''] = non_state (ca_labels (the (w_context release_world)))" by code_simp+
  have "later release_world checked_world release_request"
    unfolding later_def checked_world_def using w by (intro conjI exI) (assumption | rule refl)+
  moreover have "r_intent release_request \<noteq> break_glass_command release_def" by code_simp
  moreover have "d_stakes release_def = None" by code_simp
  ultimately show ?thesis
    using follow_up_not_judged_again [OF _ release_governed release_ordinary(2), of checked_world] release_allowed by simp
qed

end
