(* ===== verification/TicketWrite.thy ===== *)
theory TicketWrite
  imports AppliedState WorkflowDef
begin

text \<open>
  How \<open>src/workflow-gate.ts\<close> writes a governed ticket: the labels a write keeps, the label of the new
  state (found or created), and the write itself, which is one mutation of labels, delegate and native
  state, read back, retried, and rolled back when it did not persist. What the ticket service answers
  to each attempt is an argument; what is sent to it, and what is written to the applied-state store,
  is returned in order. The pauses between attempts are not modelled.
\<close>

subsection \<open>Labels\<close>

record LabelNode =
  lb_id :: string
  lb_name :: string
  lb_isGroup :: bool
  lb_parent :: "string option"
  lb_team :: "string option"

definition labelBelongsToIssueTeam :: "LabelNode \<Rightarrow> string \<Rightarrow> bool" where
  "labelBelongsToIssueTeam l team = (lb_team l = None \<or> lb_team l = Some team)"

definition retainedLabelIdsForIssue :: "LabelNode list \<Rightarrow> string \<Rightarrow> bool \<Rightarrow> string list" where
  "retainedLabelIdsForIssue labels team stripWorkflowLabels =
     map lb_id (filter (\<lambda>l. labelBelongsToIssueTeam l team)
       (filter (\<lambda>l. \<not> stripWorkflowLabels \<or> \<not> starts_with ''wf:'' (lb_name l))
         (filter (\<lambda>l. \<not> starts_with ''state:'' (lb_name l)) labels)))"

definition issueTeamLabelIds :: "LabelNode list \<Rightarrow> string \<Rightarrow> string list" where
  "issueTeamLabelIds labels team = map lb_id (filter (\<lambda>l. labelBelongsToIssueTeam l team) labels)"

text \<open>
  \<open>findOrCreateLabel\<close>. The answers: the labels of the team (\<open>None\<close> when the request threw), the id
  the creation returned or why it was refused, and the id of the creation without a team. The search
  through the other teams, which follows a duplicate name, never yields an id and only logs.
\<close>

datatype create_answer = CreatedLabel string | InheritedConflict | CreateRefused | CreateThrew

record LabelWorld =
  lw_labels :: "LabelNode list option"
  lw_create :: create_answer
  lw_workspaceCreate :: "string option"

datatype label_create = TeamLabel string "string option" | WorkspaceLabel string

definition split_group :: "string \<Rightarrow> string option \<times> string" where
  "split_group name =
     (if CHR '':'' \<in> set name \<and> hd name \<noteq> CHR '':''
      then (Some (takeWhile (\<lambda>c. c \<noteq> CHR '':'') name), after_colon name)
      else (None, name))"

definition find_label :: "LabelNode list \<Rightarrow> string \<Rightarrow> string \<Rightarrow> string option" where
  "find_label nodes team name =
     (case List.find (\<lambda>n. lb_name n = name \<and> \<not> lb_isGroup n \<and> labelBelongsToIssueTeam n team) nodes of
        Some n \<Rightarrow> Some (lb_id n)
      | None \<Rightarrow>
          (case split_group name of
             (None, _) \<Rightarrow> None
           | (Some g, child) \<Rightarrow>
               map_option lb_id (List.find (\<lambda>n. \<not> lb_isGroup n \<and> lb_parent n = Some g \<and> lb_name n = child \<and>
                 labelBelongsToIssueTeam n team) nodes)))"

definition findOrCreateLabel :: "LabelWorld \<Rightarrow> string \<Rightarrow> string \<Rightarrow> string option \<times> label_create list" where
  "findOrCreateLabel w team name =
     (case lw_labels w of
        None \<Rightarrow> (None, [])
      | Some nodes \<Rightarrow>
          (case find_label nodes team name of
             Some i \<Rightarrow> (Some i, [])
           | None \<Rightarrow>
               (let group = (case fst (split_group name) of None \<Rightarrow> None | Some g \<Rightarrow> List.find (\<lambda>n. lb_isGroup n \<and> lb_name n = g) nodes);
                    createName = (if group \<noteq> None then snd (split_group name) else name);
                    sent = TeamLabel createName (map_option lb_id group)
                in case lw_create w of
                     CreatedLabel i \<Rightarrow> (Some i, [sent])
                   | InheritedConflict \<Rightarrow> (lw_workspaceCreate w, [sent, WorkspaceLabel createName])
                   | _ \<Rightarrow> (None, [sent]))))"

subsection \<open>One mutation\<close>

text \<open>
  The input of the mutation; an outer \<open>None\<close> is a field that is not sent, an inner one clears it. The
  assignee is sent exactly when the delegate is.
\<close>

record AtomicInput =
  in_labelIds :: "string list"
  in_delegateId :: "string option option"
  in_stateId :: "string option option"
  in_assigneeId :: "string option option"

definition issueUpdateAtomic :: "string list \<Rightarrow> string option option \<Rightarrow> string option option \<Rightarrow> string option \<Rightarrow> AtomicInput" where
  "issueUpdateAtomic labelIds delegateId nativeStateId assigneeId =
     \<lparr>in_labelIds = labelIds, in_delegateId = delegateId, in_stateId = nativeStateId,
      in_assigneeId = (if delegateId = None then None else Some assigneeId)\<rparr>"

definition issueUpdateLabels :: "string list \<Rightarrow> AtomicInput" where
  "issueUpdateLabels labelIds = issueUpdateAtomic labelIds None None None"

subsection \<open>Reading back\<close>

record ReadBack =
  rb_labels :: "string list"
  rb_delegate :: "string option"
  rb_assignee :: "string option"
  rb_state :: "string option"

datatype facet =
    StateLabelDiffers "string option"
  | DelegateDiffers "string option" "string option"
  | AssigneeDiffers "string option" "string option"
  | NativeStateDiffers string "string option"
  | NotReadable
  | RollbackMutationFailed
  | RollbackDiffers "facet list"

definition differs :: "(string option \<Rightarrow> string option \<Rightarrow> facet) \<Rightarrow> string option option \<Rightarrow> string option \<Rightarrow> facet list" where
  "differs f expected got = (case expected of None \<Rightarrow> [] | Some e \<Rightarrow> if got = e then [] else [f e got])"

text \<open>What was written and is not there, or \<open>None\<close> when the ticket could not be read.\<close>

definition verifyTransitionWritePersisted ::
  "string \<Rightarrow> string option option \<Rightarrow> string option option \<Rightarrow> string option option \<Rightarrow> ReadBack option \<Rightarrow> facet list option" where
  "verifyTransitionWritePersisted s delegateId assigneeId nativeStateId read =
     (case read of
        None \<Rightarrow> None
      | Some rb \<Rightarrow> Some (
          (if ''state:'' @ s \<in> set (rb_labels rb) then [] else [StateLabelDiffers (List.find (starts_with ''state:'') (rb_labels rb))]) @
          differs DelegateDiffers delegateId (rb_delegate rb) @
          differs AssigneeDiffers assigneeId (rb_assignee rb) @
          (case nativeStateId of
             Some (Some i) \<Rightarrow> if rb_state rb = Some i then [] else [NativeStateDiffers i (rb_state rb)]
           | _ \<Rightarrow> [])))"

subsection \<open>The verified write\<close>

definition DEFAULT_TRANSITION_WRITE_POLICY :: nat where
  "DEFAULT_TRANSITION_WRITE_POLICY = 3"

record WriteSnapshot =
  sn_labelIds :: "string list"
  sn_stateName :: string
  sn_delegateId :: "string option"
  sn_assigneeId :: "string option"
  sn_nativeStateId :: "string option"

record WriteRequest =
  wr_labelIds :: "string list"
  wr_delegateId :: "string option option"
  wr_nativeStateId :: "string option option"
  wr_stateName :: string
  wr_identifier :: "string option"
  wr_snapshot :: "WriteSnapshot option"
  wr_requireReadable :: bool
  wr_allowLag :: bool
  wr_assigneeOverride :: "string option"

text \<open>The service: whether the n-th mutation reported success and what the read after it returned.\<close>

record WriteWorld =
  ww_applied :: "nat \<Rightarrow> bool"
  ww_read :: "nat \<Rightarrow> ReadBack option"
  ww_rollback :: bool
  ww_rollbackRead :: "ReadBack option"
  ww_repair :: bool

datatype write_effect = Sent AtomicInput | AppliedRecorded string string | AppliedCleared string

datatype failure_kind = NoFailure | MutationFailed | VerificationFailed

record VerifiedWriteOutcome =
  vo_ok :: bool
  vo_attempts :: nat
  vo_failureKind :: failure_kind
  vo_divergent :: "facet list"
  vo_unverified :: bool

definition accepted :: "nat \<Rightarrow> facet list \<Rightarrow> bool \<Rightarrow> VerifiedWriteOutcome" where
  "accepted n ds unverified =
     \<lparr>vo_ok = True, vo_attempts = n, vo_failureKind = NoFailure, vo_divergent = ds, vo_unverified = unverified\<rparr>"

definition forward :: "WriteRequest \<Rightarrow> AtomicInput" where
  "forward q = issueUpdateAtomic (wr_labelIds q) (wr_delegateId q) (wr_nativeStateId q) (wr_assigneeOverride q)"

definition read_back :: "WriteRequest \<Rightarrow> ReadBack option \<Rightarrow> facet list option" where
  "read_back q = verifyTransitionWritePersisted (wr_stateName q) (wr_delegateId q)
     (if wr_delegateId q = None then None else Some (wr_assigneeOverride q)) (wr_nativeStateId q)"

definition record_applied :: "WriteRequest \<Rightarrow> write_effect list" where
  "record_applied q = (case wr_identifier q of Some i \<Rightarrow> if i = [] then [] else [AppliedRecorded i (wr_stateName q)] | None \<Rightarrow> [])"

text \<open>The attempts from the n-th on, k of them left; \<open>st\<close> is how the attempt before failed.\<close>

fun write_attempts ::
  "WriteWorld \<Rightarrow> WriteRequest \<Rightarrow> nat \<Rightarrow> nat \<Rightarrow> failure_kind \<times> facet list \<Rightarrow>
   (VerifiedWriteOutcome + failure_kind \<times> facet list) \<times> write_effect list" where
  "write_attempts w q 0 n st = (Inr st, [])"
| "write_attempts w q (Suc k) n st =
     (if \<not> ww_applied w n
      then case write_attempts w q k (n + 1) (MutationFailed, []) of (r, es) \<Rightarrow> (r, Sent (forward q) # es)
      else case read_back q (ww_read w n) of
        None \<Rightarrow>
          if wr_requireReadable q
          then case write_attempts w q k (n + 1) (VerificationFailed, [NotReadable]) of
                 (r, es) \<Rightarrow> (r, Sent (forward q) # record_applied q @ es)
          else (Inl (accepted n [] True), Sent (forward q) # record_applied q)
      | Some ds \<Rightarrow>
          if ds = [] then (Inl (accepted n [] False), Sent (forward q) # record_applied q)
          else case write_attempts w q k (n + 1) (VerificationFailed, ds) of
                 (r, es) \<Rightarrow> (r, Sent (forward q) # record_applied q @ es))"

fun is_label_lag :: "facet \<Rightarrow> bool" where
  "is_label_lag (StateLabelDiffers _) = True"
| "is_label_lag _ = False"

text \<open>The rollback: one mutation to the snapshot, and if that fails one more to the destination.\<close>

definition rollback :: "WriteWorld \<Rightarrow> WriteRequest \<Rightarrow> WriteSnapshot \<Rightarrow> facet list \<times> write_effect list" where
  "rollback w q s =
     (let back = Sent (issueUpdateAtomic (sn_labelIds s) (Some (sn_delegateId s)) (Some (sn_nativeStateId s)) (sn_assigneeId s)) in
      if \<not> ww_rollback w
      then ([RollbackMutationFailed],
            back # (case wr_delegateId q of Some (Some _) \<Rightarrow> [Sent (forward q)] | _ \<Rightarrow> []))
      else ((case verifyTransitionWritePersisted (sn_stateName s) (Some (sn_delegateId s)) (Some (sn_assigneeId s))
                    (Some (sn_nativeStateId s)) (ww_rollbackRead w) of
               None \<Rightarrow> []
             | Some ds \<Rightarrow> if ds = [] then [] else [RollbackDiffers ds]),
            [back]))"

definition issueUpdateAtomicVerified :: "nat \<Rightarrow> WriteWorld \<Rightarrow> WriteRequest \<Rightarrow> VerifiedWriteOutcome \<times> write_effect list" where
  "issueUpdateAtomicVerified maxAttempts w q =
     (case write_attempts w q maxAttempts 1 (MutationFailed, []) of
        (Inl out, es) \<Rightarrow> (out, es)
      | (Inr (kind, ds), es) \<Rightarrow>
          if kind = VerificationFailed \<and> wr_allowLag q \<and> ds \<noteq> [] \<and> list_all is_label_lag ds
          then (accepted maxAttempts ds True, es)
          else
            (let cleared = (case wr_identifier q of Some i \<Rightarrow> if i = [] then [] else [AppliedCleared i] | None \<Rightarrow> []);
                 (more_ds, back) = (case wr_snapshot q of
                    Some s \<Rightarrow> if kind = VerificationFailed then rollback w q s else ([], [])
                  | None \<Rightarrow> ([], []))
             in (\<lparr>vo_ok = False, vo_attempts = maxAttempts, vo_failureKind = kind, vo_divergent = ds @ more_ds, vo_unverified = False\<rparr>,
                 es @ cleared @ back)))"

definition sent :: "write_effect list \<Rightarrow> AtomicInput list" where
  "sent es = List.map_filter (\<lambda>e. case e of Sent i \<Rightarrow> Some i | _ \<Rightarrow> None) es"

fun store_effect :: "int \<Rightarrow> write_effect \<Rightarrow> applied_store \<Rightarrow> applied_store" where
  "store_effect now (AppliedRecorded i s) st = recordAppliedState i s now st"
| "store_effect now (AppliedCleared i) st = clearAppliedState i st"
| "store_effect now (Sent _) st = st"

subsection \<open>What an accepted write has done\<close>

lemma sent_simps [simp]:
  "sent [] = []" "sent (Sent i # es) = i # sent es" "sent (AppliedRecorded k s # es) = sent es" "sent (AppliedCleared k # es) = sent es"
  "sent (es @ fs) = sent es @ sent fs"
  by (simp_all add: sent_def List.map_filter_def)

lemma sent_recorded [simp]: "sent (record_applied q) = []"
  by (simp add: record_applied_def split: option.split)

lemma attempts_ok:
  "write_attempts w q k n st = (Inl out, es) \<Longrightarrow>
     \<exists>m. n \<le> m \<and> m < n + k \<and> ww_applied w m \<and> vo_ok out \<and> vo_attempts out = m \<and>
       (read_back q (ww_read w m) = None \<and> \<not> wr_requireReadable q \<and> vo_unverified out \<or>
        read_back q (ww_read w m) = Some [] \<and> \<not> vo_unverified out) \<and>
       (\<exists>pre. es = pre @ Sent (forward q) # record_applied q)"
proof (induction k arbitrary: n st es)
  case (Suc k)
  show ?case
  proof (cases "write_attempts w q (Suc k) n st = (Inl (accepted n [] True), Sent (forward q) # record_applied q) \<and> ww_applied w n \<and>
      read_back q (ww_read w n) = None \<and> \<not> wr_requireReadable q \<or>
      write_attempts w q (Suc k) n st = (Inl (accepted n [] False), Sent (forward q) # record_applied q) \<and> ww_applied w n \<and>
      read_back q (ww_read w n) = Some []")
    case True
    then show ?thesis using Suc.prems by (intro exI [of _ n]) (auto simp: accepted_def)
  next
    case False
    then obtain st' pre es' where r: "write_attempts w q k (n + 1) st' = (Inl out, es')" "es = pre @ es'"
      using Suc.prems by (force split: if_splits option.splits prod.splits)
    from Suc.IH [OF r(1)] r(2) show ?thesis by (elim exE conjE) (intro exI conjI; force)
  qed
qed simp

lemma attempts_failed:
  "write_attempts w q (Suc k) n st = (Inr (kind, ds), es) \<Longrightarrow>
     sent es = replicate (Suc k) (forward q) \<and>
     (ww_applied w (n + k) \<longrightarrow> (\<exists>pre. es = pre @ Sent (forward q) # record_applied q)) \<and>
     (\<not> ww_applied w (n + k) \<and> kind = MutationFailed \<and> ds = [] \<or>
      ww_applied w (n + k) \<and> kind = VerificationFailed \<and>
        (read_back q (ww_read w (n + k)) = None \<and> ds = [NotReadable] \<or> read_back q (ww_read w (n + k)) = Some ds \<and> ds \<noteq> []))"
proof (induction k arbitrary: n st es)
  case 0
  then show ?case by (auto split: if_splits option.splits)
next
  case (Suc k)
  then obtain st' pre es' where r: "write_attempts w q (Suc k) (n + 1) st' = (Inr (kind, ds), es')" "es = pre @ es'" "sent pre = [forward q]"
    by (force simp del: write_attempts.simps(2) simp: write_attempts.simps(2) [of w q "Suc k" n] split: if_splits option.splits prod.splits)
  from Suc.IH [OF r(1)] r(2,3) show ?case by (auto simp del: write_attempts.simps)
qed

definition persisted :: "WriteRequest \<Rightarrow> ReadBack \<Rightarrow> bool" where
  "persisted q rb \<longleftrightarrow>
     (\<forall>d. wr_delegateId q = Some d \<longrightarrow> rb_delegate rb = d \<and> rb_assignee rb = wr_assigneeOverride q) \<and>
     (\<forall>i. wr_nativeStateId q = Some (Some i) \<longrightarrow> rb_state rb = Some i)"

lemma read_back_Some:
  "read_back q (Some rb) = Some ds \<Longrightarrow>
     (list_all is_label_lag ds \<longleftrightarrow> persisted q rb) \<and>
     (StateLabelDiffers (List.find (starts_with ''state:'') (rb_labels rb)) \<notin> set ds \<longleftrightarrow> ''state:'' @ wr_stateName q \<in> set (rb_labels rb))"
  by (auto simp: read_back_def verifyTransitionWritePersisted_def differs_def persisted_def split: option.splits if_splits)

lemma read_back_None [simp]: "read_back q None = None"
  by (simp add: read_back_def verifyTransitionWritePersisted_def)

lemma read_back_ne [simp]: "read_back q (Some rb) \<noteq> None"
  by (simp add: read_back_def verifyTransitionWritePersisted_def)


text \<open>
  C18: What a failed write leaves behind: when a write with a snapshot is given up, all attempts were sent,
  and the snapshot is written back exactly when the mutation of the last attempt was applied (and
  once more the destination, when writing back fails and there is a delegate to repair). So when
  the last attempt fails outright, whatever part of an earlier attempt the service kept stays on
  the ticket: nothing undoes it.
\<close>

theorem rolled_back_iff_last_attempt_applied:
  assumes "\<not> vo_ok (fst (issueUpdateAtomicVerified (Suc k) w q))" and "wr_snapshot q = Some s"
  shows "sent (snd (issueUpdateAtomicVerified (Suc k) w q)) =
    replicate (Suc k) (forward q) @
    (if ww_applied w (Suc k)
     then issueUpdateAtomic (sn_labelIds s) (Some (sn_delegateId s)) (Some (sn_nativeStateId s)) (sn_assigneeId s) #
          (if \<not> ww_rollback w \<and> (\<exists>d. wr_delegateId q = Some (Some d)) then [forward q] else [])
     else [])"
proof (cases "write_attempts w q (Suc k) 1 (MutationFailed, [])")
  case (Pair r es)
  then obtain kind ds where r: "r = Inr (kind, ds)"
    using assms(1) attempts_ok [of w q "Suc k" 1 _ _ es]
    by (cases r) (fastforce simp: issueUpdateAtomicVerified_def simp del: write_attempts.simps)+
  have f: "sent es = replicate (Suc k) (forward q)" "ww_applied w (Suc k) \<longleftrightarrow> kind = VerificationFailed"
    using attempts_failed [of w q k 1 _ kind ds es] Pair r by (auto simp del: write_attempts.simps)
  have "sent (case wr_identifier q of Some i \<Rightarrow> if i = [] then [] else [AppliedCleared i] | None \<Rightarrow> []) = []"
    by (simp split: option.split)
  then show ?thesis using assms Pair r f
    by (auto simp: issueUpdateAtomicVerified_def rollback_def Let_def accepted_def split: if_splits option.splits)
qed

lemma stores_append: "fold (store_effect now) (es @ fs) st = fold (store_effect now) fs (fold (store_effect now) es st)"
  by simp

lemma stores_sent: "list_all (\<lambda>e. \<exists>i. e = Sent i) es \<Longrightarrow> fold (store_effect now) es st = st"
  by (induction es) auto

lemma rollback_sends: "list_all (\<lambda>e. \<exists>i. e = Sent i) (snd (rollback w q s))"
  by (simp add: rollback_def Let_def split: option.split)

text \<open>
  C19: The store agrees with the outcome: after a write for an identified ticket the applied-state store
  answers the new state when the write was accepted and nothing when it was given up, whatever it
  held before and whatever was recorded between the attempts.
\<close>

theorem applied_state_follows_outcome:
  assumes "wr_identifier q = Some i" and "i \<noteq> []"
  shows "fst (getAppliedState i now (fold (store_effect now) (snd (issueUpdateAtomicVerified (Suc k) w q)) st)) =
    (if vo_ok (fst (issueUpdateAtomicVerified (Suc k) w q)) then Some (wr_stateName q) else None)"
proof (cases "write_attempts w q (Suc k) 1 (MutationFailed, [])")
  case (Pair r es)
  let ?now = "\<lambda>fs. fst (getAppliedState i now (fold (store_effect now) fs st))"
  have recorded: "?now (pre @ Sent (forward q) # record_applied q) = Some (wr_stateName q)" for pre
    using assms by (simp add: record_applied_def getAppliedState_def recordAppliedState_def APPLIED_STATE_TTL_MS_def)
  have forgotten: "?now (es @ AppliedCleared i # undo) = None" if h: "list_all (\<lambda>e. \<exists>i. e = Sent i) undo" for undo
    using assms h by (simp add: stores_sent getAppliedState_def clearAppliedState_def)
  show ?thesis
  proof (cases r)
    case (Inl out)
    then obtain pre where "es = pre @ Sent (forward q) # record_applied q" "vo_ok out"
      using attempts_ok [of w q "Suc k" 1 _ out es] Pair by (auto simp del: write_attempts.simps)
    then show ?thesis using Pair Inl recorded by (simp add: issueUpdateAtomicVerified_def del: write_attempts.simps)
  next
    case (Inr f)
    obtain kind ds where f: "f = (kind, ds)" by (cases f)
    show ?thesis
    proof (cases "kind = VerificationFailed \<and> wr_allowLag q \<and> ds \<noteq> [] \<and> list_all is_label_lag ds")
      case True
      then obtain pre where "es = pre @ Sent (forward q) # record_applied q"
        using attempts_failed [of w q k 1 "(MutationFailed, [])" kind ds es] Pair Inr f by (auto simp del: write_attempts.simps)
      then show ?thesis using Pair Inr f True recorded
        by (simp add: issueUpdateAtomicVerified_def accepted_def del: write_attempts.simps)
    next
      case False
      have out: "issueUpdateAtomicVerified (Suc k) w q =
          (let (more_ds, undo) = (case wr_snapshot q of
                    Some s \<Rightarrow> if kind = VerificationFailed then rollback w q s else ([], [])
                  | None \<Rightarrow> ([], []))
             in (\<lparr>vo_ok = False, vo_attempts = Suc k, vo_failureKind = kind, vo_divergent = ds @ more_ds, vo_unverified = False\<rparr>,
                 es @ [AppliedCleared i] @ undo))"
        unfolding issueUpdateAtomicVerified_def Pair Inr f prod.case sum.case if_not_P [OF False] using assms by simp
      show ?thesis unfolding out using forgotten rollback_sends
        by (simp add: case_prod_unfold Let_def del: fold_append split: option.split)
    qed
  qed
qed

text \<open>All mutations before the rollback are the same one.\<close>

lemma attempts_send_one:
  "write_attempts w q k n st = (res, es) \<Longrightarrow> Sent i \<in> set es \<Longrightarrow> i = forward q"
proof (induction k arbitrary: n st res es)
  case (Suc k)
  have rec: "Sent i \<in> set es' \<Longrightarrow> i = forward q" if "write_attempts w q k m st' = (res', es')" for m st' res' es'
    using Suc.IH [OF that] by blast
  show ?case using Suc.prems
    by (auto simp: record_applied_def split: if_splits option.splits prod.splits dest: rec)
qed simp

lemma accepted_sends_one:
  assumes "issueUpdateAtomicVerified (Suc k) w q = (out, es)" and "vo_ok out"
  shows "Sent i \<in> set es \<longleftrightarrow> i = forward q"
proof -
  obtain res fs where a: "write_attempts w q (Suc k) 1 (MutationFailed, []) = (res, fs)" by (metis surj_pair)
  have es: "es = fs"
    using assms a by (auto simp: issueUpdateAtomicVerified_def Let_def split: sum.splits prod.splits if_splits)
  have "Sent (forward q) \<in> set fs"
  proof (cases res)
    case (Inl o1)
    then show ?thesis using attempts_ok [of w q "Suc k" 1 _ o1 fs] a by auto
  next
    case (Inr kd)
    then have "sent fs = replicate (Suc k) (forward q)" using attempts_failed [of w q k 1 _ "fst kd" "snd kd" fs] a by simp
    then have "forward q \<in> set (sent fs)" by simp
    then show ?thesis by (auto simp: sent_def List.map_filter_def split: write_effect.splits)
  qed
  then show ?thesis using attempts_send_one [OF a] es by blast
qed

subsection \<open>A write whose first attempt loses the delegate\<close>

definition doing_write :: WriteRequest where
  "doing_write = \<lparr>wr_labelIds = [''wf'', ''doing''], wr_delegateId = Some (Some ''u2''), wr_nativeStateId = None, wr_stateName = ''doing'',
     wr_identifier = Some ''AI-1'', wr_snapshot = Some \<lparr>sn_labelIds = [''wf'', ''todo''], sn_stateName = ''todo'', sn_delegateId = Some ''u1'',
       sn_assigneeId = None, sn_nativeStateId = Some ''n1''\<rparr>,
     wr_requireReadable = False, wr_allowLag = True, wr_assigneeOverride = None\<rparr>"

definition lossy :: "(nat \<Rightarrow> bool) \<Rightarrow> string option \<Rightarrow> WriteWorld" where
  "lossy applied holder = \<lparr>ww_applied = applied,
     ww_read = (\<lambda>_. Some \<lparr>rb_labels = [''state:doing''], rb_delegate = holder, rb_assignee = None, rb_state = None\<rparr>),
     ww_rollback = True, ww_rollbackRead = None, ww_repair = False\<rparr>"


theorem rolled_back_iff_last_attempt_applied_witness:
  "sent (snd (issueUpdateAtomicVerified 3 (lossy (\<lambda>n. n = 1) None) doing_write)) = replicate 3 (forward doing_write)"
proof -
  have "\<not> vo_ok (fst (issueUpdateAtomicVerified (Suc 2) (lossy (\<lambda>n. n = 1) None) doing_write))" by code_simp
  from rolled_back_iff_last_attempt_applied [OF this] show ?thesis
    by (simp add: doing_write_def lossy_def eval_nat_numeral)
qed

theorem applied_state_follows_outcome_witness:
  "fst (getAppliedState ''AI-1'' 7 (fold (store_effect 7)
     (snd (issueUpdateAtomicVerified (Suc 2) (lossy (\<lambda>n. n = 1) None) doing_write)) [])) = None"
proof -
  have "\<not> vo_ok (fst (issueUpdateAtomicVerified (Suc 2) (lossy (\<lambda>n. n = 1) None) doing_write))" by code_simp
  moreover have "wr_identifier doing_write = Some ''AI-1''" by (simp add: doing_write_def)
  ultimately show ?thesis by (subst applied_state_follows_outcome) simp_all
qed

end
