(* ===== verification/AcGate.thy ===== *)
theory AcGate
  imports TicketWrite Barrier JsRegex
begin

text \<open>
  \<open>src/review.ts\<close>: the disposition of a parent in review. The acceptance criteria are the check boxes of
  the ticket's description; the parent is done only when there is one and all are ticked. The answers
  of the ticket service are the record \<open>ReviewWorld\<close>; what is sent to it is returned in order.
\<close>

subsection \<open>The check list\<close>

record AcChecklistItem =
  ac_text :: string
  ac_checked :: bool

text \<open>
  \<open>/[-*]\s*\[([ xX])\]\s*(.+)/\<close> at the start of a string: the mark, the text, and what follows. White
  space, line ends too, is skipped before the text; nothing but white space is no text.
\<close>

definition box_at :: "string \<Rightarrow> (char \<times> string \<times> string) option" where
  "box_at s =
     (case s of
        c # cs \<Rightarrow>
          if c \<in> {CHR ''-'', CHR ''*''}
          then (case dropWhile is_space cs of
                  a # m # b # r \<Rightarrow>
                    if a = CHR ''['' \<and> m \<in> {CHR '' '', CHR ''x'', CHR ''X''} \<and> b = CHR '']'' \<and> dropWhile is_space r \<noteq> []
                    then let t = dropWhile is_space r; text = takeWhile (\<lambda>c. \<not> line_end c) t
                         in Some (m, text, drop (length text) t)
                    else None
                | _ \<Rightarrow> None)
          else None
      | [] \<Rightarrow> None)"

lemma dropWhile_length: "length (dropWhile P xs) \<le> length xs"
  by (induction xs) auto

lemma box_at_shorter: "box_at s = Some (m, text, rest) \<Longrightarrow> length rest < length s"
proof -
  assume "box_at s = Some (m, text, rest)"
  then obtain c cs a m' b r where s: "s = c # cs" "dropWhile is_space cs = a # m' # b # r"
    "rest = drop (length text) (dropWhile is_space r)"
    by (auto simp: box_at_def Let_def split: list.splits if_splits)
  then show ?thesis using dropWhile_length [of is_space cs] dropWhile_length [of is_space r] by simp
qed

function boxes :: "string \<Rightarrow> (char \<times> string) list" where
  "boxes [] = []"
| "boxes (c # cs) = (case box_at (c # cs) of Some (m, text, rest) \<Rightarrow> (m, text) # boxes rest | None \<Rightarrow> boxes cs)"
  by pat_completeness auto
termination by (relation "measure length") (auto dest: box_at_shorter)

definition parseAcChecklist :: "string option \<Rightarrow> AcChecklistItem list" where
  "parseAcChecklist description =
     (case description of None \<Rightarrow> []
      | Some d \<Rightarrow> map (\<lambda>(m, t). \<lparr>ac_text = trim t, ac_checked = (m \<noteq> CHR '' '')\<rparr>) (filter (\<lambda>(m, t). trim t \<noteq> []) (boxes d)))"

datatype ac_reason = NoCriteria | Unchecked nat nat "string list" | AllSatisfied nat

definition evaluateAcGate :: "AcChecklistItem list \<Rightarrow> bool \<times> ac_reason" where
  "evaluateAcGate items =
     (if items = [] then (False, NoCriteria)
      else let unchecked = filter (\<lambda>i. \<not> ac_checked i) items in
           if unchecked \<noteq> [] then (False, Unchecked (length unchecked) (length items) (map ac_text unchecked))
           else (True, AllSatisfied (length items)))"

record ParentAcGateResult =
  pg_satisfied :: bool
  pg_reason :: ac_reason
  pg_checklist :: "AcChecklistItem list option"

text \<open>The description is \<open>None\<close> when it could not be read.\<close>

definition evaluateParentAcGate :: "string option \<Rightarrow> ParentAcGateResult" where
  "evaluateParentAcGate description =
     (let items = parseAcChecklist description; (satisfied, r) = evaluateAcGate items
      in \<lparr>pg_satisfied = satisfied, pg_reason = r, pg_checklist = (if items \<noteq> [] then Some items else None)\<rparr>)"

subsection \<open>The dispositions\<close>

record ReviewIssue =
  ri_internalId :: string
  ri_teamId :: string
  ri_labels :: "LabelNode list"

record ReviewWorld =
  vw_description :: "string option"
  vw_internalId :: "string option"
  vw_children :: "ChildNode list option"
  vw_issue :: "ReviewIssue option"
  vw_labels :: LabelWorld
  vw_updated :: bool

datatype disposition_error = AcGateFailed ac_reason | NoIssue | NoReviewLabel | NoTargetLabel | SwapFailed

record DispositionResult =
  dr_applied :: bool
  dr_error :: "disposition_error option"

datatype review_effect =
    GateComment string ac_reason
  | LabelCreated label_create
  | LabelsReplaced string "string list"
  | DoneComment string ac_reason "(string \<times> string) list option"
  | SpawningComment string

definition refused :: "disposition_error \<Rightarrow> DispositionResult" where
  "refused e = \<lparr>dr_applied = False, dr_error = Some e\<rparr>"

text \<open>Both dispositions swap \<open>state:review\<close> for their target in one update of the labels.\<close>

definition swap_review :: "ReviewWorld \<Rightarrow> string \<Rightarrow> (string \<Rightarrow> review_effect) \<Rightarrow> DispositionResult \<times> review_effect list" where
  "swap_review w target announce =
     (case vw_issue w of
        None \<Rightarrow> (refused NoIssue, [])
      | Some issue \<Rightarrow>
          (case List.find (\<lambda>l. lb_name l = ''state:review'') (ri_labels issue) of
             None \<Rightarrow> (refused NoReviewLabel, [])
           | Some reviewLabel \<Rightarrow>
               (case findOrCreateLabel (vw_labels w) (ri_teamId issue) target of
                  (None, created) \<Rightarrow> (refused NoTargetLabel, map LabelCreated created)
                | (Some i, created) \<Rightarrow>
                    (let replaced = LabelsReplaced (ri_internalId issue)
                       (map lb_id (filter (\<lambda>l. lb_id l \<noteq> lb_id reviewLabel) (ri_labels issue)) @ [i])
                     in if \<not> vw_updated w then (refused SwapFailed, map LabelCreated created @ [replaced])
                        else (\<lparr>dr_applied = True, dr_error = None\<rparr>,
                              map LabelCreated created @ [replaced, announce (ri_internalId issue)])))))"

definition dispositionToDone :: "ReviewWorld \<Rightarrow> DispositionResult \<times> review_effect list" where
  "dispositionToDone w =
     (let acGate = evaluateParentAcGate (vw_description w) in
      if \<not> pg_satisfied acGate
      then (refused (AcGateFailed (pg_reason acGate)),
            (case vw_internalId w of Some i \<Rightarrow> if i = [] then [] else [GateComment i (pg_reason acGate)] | None \<Rightarrow> []))
      else swap_review w ''state:done''
             (\<lambda>i. DoneComment i (pg_reason acGate) (map_option summarizeBarrierChildren (fetchChildren (vw_children w)))))"

definition dispositionToSpawning :: "ReviewWorld \<Rightarrow> DispositionResult \<times> review_effect list" where
  "dispositionToSpawning w = swap_review w ''state:spawning'' SpawningComment"

datatype disposition = ToDone | ToSpawning

definition resolveDisposition :: "string \<Rightarrow> string \<Rightarrow> string \<Rightarrow> disposition option" where
  "resolveDisposition workflowId currentState intent =
     (if workflowId \<noteq> ''ux-audit'' \<or> currentState \<noteq> ''review'' then None
      else if intent = ''approve'' then Some ToDone
      else if intent = ''request-rework'' then Some ToSpawning
      else None)"

subsection \<open>What the gate demands\<close>

lemma gate_satisfied: "fst (evaluateAcGate items) \<longleftrightarrow> items \<noteq> [] \<and> list_all ac_checked items"
  by (auto simp: evaluateAcGate_def Let_def filter_empty_conv list_all_iff)

lemma swap_replaces:
  "LabelsReplaced i ids \<in> set (snd (swap_review w target announce)) \<Longrightarrow> (\<And>x. LabelsReplaced i ids \<noteq> announce x) \<Longrightarrow>
     \<exists>issue r l cs. vw_issue w = Some issue \<and> i = ri_internalId issue \<and> r \<in> set (ri_labels issue) \<and> lb_name r = ''state:review'' \<and>
       findOrCreateLabel (vw_labels w) (ri_teamId issue) target = (Some l, cs) \<and>
       ids = map lb_id (filter (\<lambda>x. lb_id x \<noteq> lb_id r) (ri_labels issue)) @ [l]"
  unfolding swap_review_def
  by (auto simp: Let_def split: option.splits prod.splits if_splits dest!: find_SomeD)

text \<open>
  A parent is done only by its own criteria: the labels of a parent are replaced by the disposition to
  done only when its description was read and has at least one criterion, all of them ticked, and
  then by its labels without the review label and with the label for done, whatever its children
  are.
\<close>

theorem done_by_its_own_criteria:
  assumes "LabelsReplaced i ids \<in> set (snd (dispositionToDone w))"
  shows "\<exists>d issue r l cs. vw_description w = Some d \<and> parseAcChecklist (Some d) \<noteq> [] \<and> list_all ac_checked (parseAcChecklist (Some d)) \<and>
    vw_issue w = Some issue \<and> i = ri_internalId issue \<and> r \<in> set (ri_labels issue) \<and> lb_name r = ''state:review'' \<and>
    findOrCreateLabel (vw_labels w) (ri_teamId issue) ''state:done'' = (Some l, cs) \<and>
    ids = map lb_id (filter (\<lambda>x. lb_id x \<noteq> lb_id r) (ri_labels issue)) @ [l]"
proof -
  have s: "pg_satisfied (evaluateParentAcGate (vw_description w))"
    using assms by (auto simp: dispositionToDone_def Let_def split: if_splits option.splits)
  then have items: "parseAcChecklist (vw_description w) \<noteq> []" "list_all ac_checked (parseAcChecklist (vw_description w))"
    using gate_satisfied [of "parseAcChecklist (vw_description w)"]
    by (auto simp: evaluateParentAcGate_def Let_def case_prod_unfold)
  then obtain d where d: "vw_description w = Some d" by (cases "vw_description w") (auto simp: parseAcChecklist_def)
  show ?thesis
    using assms s swap_replaces [of i ids w "''state:done''"] items d by (auto simp: dispositionToDone_def Let_def)
qed

text \<open>
  An empty criterion hides the next one: a ticked box without a text of its own takes the following
  line as its text, an unticked box included, so a description whose only real criterion is open
  passes the gate.
\<close>

theorem empty_box_hides_open_criterion:
  assumes "u \<noteq> []" and "list_all (\<lambda>c. \<not> line_end c) u" and "\<not> is_space (last u)"
  shows "parseAcChecklist (Some (''- [x]'' @ [CHR 0x0A] @ ''- [ ] '' @ u)) = [\<lparr>ac_text = ''- [ ] '' @ u, ac_checked = True\<rparr>] \<and>
    pg_satisfied (evaluateParentAcGate (Some (''- [x]'' @ [CHR 0x0A] @ ''- [ ] '' @ u)))"
proof -
  let ?line = "''- [ ] '' @ u"
  have chars: "\<not> is_space CHR ''-''" "is_space CHR 0x0A" "is_space CHR '' ''" "\<not> is_space CHR ''[''" by code_simp+
  have "takeWhile (\<lambda>c. \<not> line_end c) ?line = ?line"
    using assms(2) by (simp add: takeWhile_eq_all_conv list_all_iff line_end_def)
  then have "box_at (''- [x]'' @ [CHR 0x0A] @ ?line) = Some (CHR ''x'', ?line, [])"
    using assms(1) chars by (simp add: box_at_def Let_def)
  then have b: "boxes (''- [x]'' @ [CHR 0x0A] @ ?line) = [(CHR ''x'', ?line)]" by simp
  obtain v c where u: "u = v @ [c]" using assms(1) by (cases u rule: rev_cases) auto
  then have "\<not> is_space c" using assms(3) by simp
  then have "trim ?line = rev (rev u @ rev ''- [ ] '')" using u chars by (simp add: trim_def)
  then have t: "trim ?line = ?line" by simp
  have "parseAcChecklist (Some (''- [x]'' @ [CHR 0x0A] @ ?line)) = [\<lparr>ac_text = ?line, ac_checked = True\<rparr>]"
    using b t by (simp add: parseAcChecklist_def del: boxes.simps)
  then show ?thesis by (simp add: evaluateParentAcGate_def evaluateAcGate_def Let_def)
qed

subsection \<open>Witnesses\<close>

definition sample_review :: ReviewWorld where
  "sample_review = \<lparr>vw_description = Some ''- [x] shipped'', vw_internalId = Some ''p'', vw_children = None,
     vw_issue = Some \<lparr>ri_internalId = ''p'', ri_teamId = ''t'',
       ri_labels = [\<lparr>lb_id = ''l1'', lb_name = ''state:review'', lb_isGroup = False, lb_parent = None, lb_team = None\<rparr>]\<rparr>,
     vw_labels = \<lparr>lw_labels = Some [], lw_create = CreatedLabel ''l2'', lw_workspaceCreate = None\<rparr>, vw_updated = True\<rparr>"

theorem done_by_its_own_criteria_witness:
  "list_all ac_checked (parseAcChecklist (vw_description sample_review))"
proof -
  have "snd (dispositionToDone sample_review) =
      [LabelCreated (TeamLabel ''state:done'' None), LabelsReplaced ''p'' [''l2''], DoneComment ''p'' (AllSatisfied 1) None]"
    by code_simp
  then have "LabelsReplaced ''p'' [''l2''] \<in> set (snd (dispositionToDone sample_review))" by simp
  from done_by_its_own_criteria [OF this] show ?thesis by (simp add: sample_review_def)
qed

theorem empty_box_hides_open_criterion_witness:
  "pg_satisfied (evaluateParentAcGate (Some (''- [x]'' @ [CHR 0x0A] @ ''- [ ] '' @ ''restore works'')))"
proof -
  have "''restore works'' \<noteq> []" "list_all (\<lambda>c. \<not> line_end c) ''restore works''" "\<not> is_space (last ''restore works'')" by code_simp+
  from empty_box_hides_open_criterion [OF this] show ?thesis by blast
qed

end
