(* ===== verification/FanoutSpec.thy ===== *)
theory FanoutSpec
  imports WorkflowDef JsRegex "HOL-Library.Word"
begin

text \<open>
  The spawn specification of \<open>src/fanout.ts\<close>: the entries of a section of the ticket's description, their
  markers and metadata, their content-derived ids, the checks a specification passes before a
  transition, and the partition of the entries against the children that exist. Strings are of 8-bit
  characters, so of the arrows and dashes the patterns list only the ASCII ones occur; a section name
  does not start with white space. \<open>JSON.parse\<close> is the argument \<open>json\<close>.
\<close>

unbundle bit_operations_syntax

subsection \<open>Entries\<close>

record Finding =
  fi_title :: string
  fi_description :: "string option"
  fi_id :: "string option"
  fi_child_workflow :: "string option"
  fi_target_state :: "string option"
  fi_delegate :: "string option"
  unsupportedArmType :: bool
  fi_classification :: "string option"
  fi_capability :: "string option"

definition plain_finding :: "string \<Rightarrow> string option \<Rightarrow> Finding" where
  "plain_finding t d = \<lparr>fi_title = t, fi_description = d, fi_id = None, fi_child_workflow = None, fi_target_state = None,
     fi_delegate = None, unsupportedArmType = False, fi_classification = None, fi_capability = None\<rparr>"

definition some_text :: "string \<Rightarrow> string option" where
  "some_text s = (if s = [] then None else Some s)"

text \<open>\<open>/^[-*]\s+\*\*(.+?)\*\*(?:[:\s-]+(.*))?$/\<close>: the title and the text after it. A line has no line feed.\<close>

definition separator :: "char \<Rightarrow> bool" where
  "separator c = (c = CHR '':'' \<or> is_space c \<or> c = CHR ''-'')"

definition bold_end :: "string \<Rightarrow> nat \<Rightarrow> bool" where
  "bold_end t n =
     (list_all (\<lambda>c. \<not> line_end c) (take n t) \<and> starts_with ''**'' (drop n t) \<and>
      (let tail = drop (n + 2) t in
       tail = [] \<or> separator (hd tail) \<and> list_all (\<lambda>c. \<not> line_end c) (dropWhile separator tail)))"

definition after_bullet :: "string \<Rightarrow> string option" where
  "after_bullet l =
     (case l of
        c # r \<Rightarrow> if c \<in> {CHR ''-'', CHR ''*''} \<and> r \<noteq> [] \<and> is_space (hd r) then Some (dropWhile is_space r) else None
      | [] \<Rightarrow> None)"

definition boldBullet :: "string \<Rightarrow> (string \<times> string option) option" where
  "boldBullet l =
     (case after_bullet l of
        None \<Rightarrow> None
      | Some r \<Rightarrow>
          if starts_with ''**'' r
          then let t = drop 2 r in
               map_option (\<lambda>n. (trim (take n t), some_text (trim (dropWhile separator (drop (n + 2) t)))))
                 (List.find (bold_end t) [1..<length t + 1])
          else None)"

text \<open>\<open>(.+?)\s*$\<close> after the mark: the text without the white space around it, when it is on one line.\<close>

definition one_line :: "string \<Rightarrow> string option" where
  "one_line r = (if list_all (\<lambda>c. \<not> line_end c) (trim r) then Some (trim r) else None)"

definition plainBullet :: "string \<Rightarrow> string option" where
  "plainBullet l = (case after_bullet l of None \<Rightarrow> None | Some r \<Rightarrow> one_line r)"

definition numberedBullet :: "string \<Rightarrow> string option" where
  "numberedBullet l =
     (let ds = takeWhile is_digit l; r = drop (length ds) l
      in if ds \<noteq> [] \<and> starts_with ''.'' r \<and> tl r \<noteq> [] \<and> is_space (hd (tl r)) then one_line (tl r) else None)"

definition bullet :: "string \<Rightarrow> (string \<times> string option) option" where
  "bullet l =
     (if l = [] \<or> is_space (hd l) then None
      else case boldBullet l of
        Some (t, d) \<Rightarrow> if t = [] then None else Some (t, d)
      | None \<Rightarrow>
          (case (case plainBullet l of Some t \<Rightarrow> Some t | None \<Rightarrow> numberedBullet l) of
             Some t \<Rightarrow> if t = [] then None else Some (t, None)
           | None \<Rightarrow> None))"

fun split_lines :: "string \<Rightarrow> string list" where
  "split_lines [] = [[]]"
| "split_lines (c # cs) =
     (if c = CHR 0x0A then [] # split_lines cs
      else case split_lines cs of l # ls \<Rightarrow> (c # l) # ls | [] \<Rightarrow> [[c]])"

fun join_lines :: "string list \<Rightarrow> string" where
  "join_lines [] = []"
| "join_lines [l] = l"
| "join_lines (l # ls) = l @ CHR 0x0A # join_lines ls"

text \<open>The entries so far, the last one still open; each is a title and the lines of its description.\<close>

fun parse_lines :: "string list \<Rightarrow> (string \<times> string list) option \<Rightarrow> (string \<times> string list) list" where
  "parse_lines [] cur = (case cur of None \<Rightarrow> [] | Some e \<Rightarrow> [e])"
| "parse_lines (l # ls) cur =
     (case bullet l of
        Some (t, d) \<Rightarrow>
          (case cur of None \<Rightarrow> [] | Some e \<Rightarrow> [e]) @ parse_lines ls (Some (t, case d of Some x \<Rightarrow> [x] | None \<Rightarrow> []))
      | None \<Rightarrow>
          (case cur of
             Some (t, ds) \<Rightarrow> if trim l = [] \<or> l \<noteq> [] \<and> is_space (hd l) then parse_lines ls (Some (t, ds @ [l])) else parse_lines ls cur
           | None \<Rightarrow> parse_lines ls cur))"

definition parseSpecEntries :: "string \<Rightarrow> (string \<times> string option) list" where
  "parseSpecEntries body = map (\<lambda>(t, ds). (t, some_text (trim (join_lines ds)))) (parse_lines (split_lines body) None)"

subsection \<open>Ids and metadata\<close>

text \<open>FNV-1a on 32 bits, and its eight hexadecimal digits.\<close>

definition fnv1a :: "string \<Rightarrow> 32 word" where
  "fnv1a s = fold (\<lambda>c h. (h XOR of_nat (of_char c)) * 0x01000193) s 0x811c9dc5"

definition hex_digit :: "nat \<Rightarrow> char" where
  "hex_digit n = (if n < 10 then char_of (48 + n) else char_of (87 + n))"

fun hex_digits :: "nat \<Rightarrow> nat \<Rightarrow> string" where
  "hex_digits 0 n = []"
| "hex_digits (Suc k) n = hex_digits k (n div 16) @ [hex_digit (n mod 16)]"

definition slug_char :: "char \<Rightarrow> bool" where
  "slug_char c = (is_digit c \<or> (let n = of_char c :: nat in 97 \<le> n \<and> n \<le> 122))"

fun dashed :: "string \<Rightarrow> string" where
  "dashed [] = []"
| "dashed (c # cs) = (if slug_char c then c # dashed cs else case dashed cs of CHR ''-'' # r \<Rightarrow> CHR ''-'' # r | r \<Rightarrow> CHR ''-'' # r)"

definition slug :: "string \<Rightarrow> string" where
  "slug title =
     (let d = dashed (toLowerCase title);
          s = take 32 (rev (dropWhile (\<lambda>c. c = CHR ''-'') (rev (dropWhile (\<lambda>c. c = CHR ''-'') d))))
      in if s = [] then ''entry'' else s)"

definition deriveFindingId :: "string \<Rightarrow> string option \<Rightarrow> string" where
  "deriveFindingId title description =
     slug title @ ''-'' @ hex_digits 8 (unat (fnv1a (title @ CHR 0x0A # orElse description [])))"

definition withStableIds :: "Finding list \<Rightarrow> Finding list" where
  "withStableIds fs = map (\<lambda>f. f\<lparr>fi_id := Some (deriveFindingId (fi_title f) (fi_description f))\<rparr>) fs"

text \<open>\<open>(?:^|[;\n])\s*field\s*:\s*([^;\n]+)\<close>, its group trimmed.\<close>

definition value_end :: "char \<Rightarrow> bool" where
  "value_end c = (c = CHR '';'' \<or> c = CHR 0x0A)"

definition metadata_at :: "string \<Rightarrow> string \<Rightarrow> string option" where
  "metadata_at field s =
     (let a = dropWhile is_space s; b = dropWhile is_space (drop (length field) a) in
      if map ascii_lower (take (length field) a) = map ascii_lower field \<and> starts_with '':'' b
      then let r = tl b; t = dropWhile is_space r in
           if t \<noteq> [] \<and> \<not> value_end (hd t) then Some (trim (takeWhile (\<lambda>c. \<not> value_end c) t))
           else if list_ex (\<lambda>c. \<not> value_end c) (takeWhile is_space r) then Some []
           else None
      else None)"

fun metadata_from :: "string \<Rightarrow> string \<Rightarrow> string option" where
  "metadata_from field [] = None"
| "metadata_from field (c # cs) =
     (case (if value_end c then metadata_at field cs else None) of Some v \<Rightarrow> Some v | None \<Rightarrow> metadata_from field cs)"

definition extractMetadataValue :: "string \<Rightarrow> string \<Rightarrow> string option" where
  "extractMetadataValue material field =
     (case metadata_at field material of Some v \<Rightarrow> Some v | None \<Rightarrow> metadata_from field material)"

definition material :: "Finding \<Rightarrow> string" where
  "material f = fi_title f @ CHR 0x0A # orElse (fi_description f) []"

definition withFindingMetadata :: "Finding \<Rightarrow> Finding" where
  "withFindingMetadata f = f\<lparr>
     fi_classification := (case fi_classification f of Some c \<Rightarrow> Some c | None \<Rightarrow> extractMetadataValue (material f) ''classification''),
     fi_capability := (case fi_capability f of Some c \<Rightarrow> Some c | None \<Rightarrow> extractMetadataValue (material f) ''capability'')\<rparr>"

text \<open>\<open>/^(w)\s+arm\b/\<close>\<close>

definition arm_title :: "string \<Rightarrow> string \<Rightarrow> bool" where
  "arm_title w lower =
     (let r = drop (length w) lower; a = dropWhile is_space r; b = drop 3 a in
      starts_with w lower \<and> r \<noteq> [] \<and> is_space (hd r) \<and> starts_with ''arm'' a \<and> (b = [] \<or> \<not> is_word (hd b)))"

definition applyDevSprintArmInference :: "Finding \<Rightarrow> Finding" where
  "applyDevSprintArmInference f =
     (if truthy (fi_child_workflow f) then f
      else let lower = toLowerCase (trim (fi_title f));
               arm = (\<lambda>w d. f\<lparr>fi_child_workflow := Some w, fi_delegate := Some d\<rparr>)
           in if arm_title ''scope'' lower \<or> arm_title ''scoping'' lower then arm ''wf:sprint-arm-scope'' ''astrid''
              else if arm_title ''spike'' lower then arm ''wf:sprint-arm-spike'' ''igor''
              else if arm_title ''ux'' lower \<or> arm_title ''user experience'' lower then arm ''wf:sprint-arm-ux'' ''signe''
              else if arm_title ''design'' lower then arm ''wf:sprint-arm-design'' ''laren''
              else if arm_title ''impl'' lower \<or> arm_title ''implementation'' lower then f\<lparr>unsupportedArmType := True\<rparr>
              else f)"

subsection \<open>The section and its markers\<close>

text \<open>
  The section \<open>/(?:#{1,4}\s+name)\s*\n([\s\S]*?)(?=\n#{1,4}\s|\n*$)/i\<close>: after the heading the white space
  up to its last line feed is skipped. A heading is recognised at the \<open>#\<close> before the white space.
\<close>

definition heading_rest :: "string \<Rightarrow> string \<Rightarrow> string option" where
  "heading_rest name s =
     (case s of
        c # r \<Rightarrow>
          (let a = dropWhile is_space r; b = drop (length name) a; ws = takeWhile is_space b in
           if c = CHR ''#'' \<and> r \<noteq> [] \<and> is_space (hd r) \<and> map ascii_lower (take (length name) a) = map ascii_lower name \<and>
              CHR 0x0A \<in> set ws
           then Some (rev (takeWhile (\<lambda>c. c \<noteq> CHR 0x0A) (rev ws)) @ dropWhile is_space b)
           else None)
      | [] \<Rightarrow> None)"

definition section_ends :: "string \<Rightarrow> bool" where
  "section_ends s =
     (list_all (\<lambda>c. c = CHR 0x0A) s \<or>
      (let h = takeWhile (\<lambda>c. c = CHR ''#'') (tl s); r = drop (length h) (tl s)
       in s \<noteq> [] \<and> hd s = CHR 0x0A \<and> 1 \<le> length h \<and> length h \<le> 4 \<and> r \<noteq> [] \<and> is_space (hd r)))"

fun until_section_end :: "string \<Rightarrow> string" where
  "until_section_end [] = []"
| "until_section_end (c # cs) = (if section_ends (c # cs) then [] else c # until_section_end cs)"

fun spec_section :: "string \<Rightarrow> string \<Rightarrow> string option" where
  "spec_section name [] = None"
| "spec_section name (c # cs) =
     (case heading_rest name (c # cs) of Some r \<Rightarrow> Some (until_section_end r) | None \<Rightarrow> spec_section name cs)"

text \<open>
  The marker \<open>[wf:id#state -> delegate]\<close> at the start of a title: the id is the shortest run
  of its characters with which the marker closes, the state and the delegate are the longest.
\<close>

definition token_char :: "char \<Rightarrow> bool" where
  "token_char c = (\<not> is_space c \<and> (of_char c :: nat) \<noteq> 92 \<and> c \<noteq> CHR '']'')"

definition id_char :: "char \<Rightarrow> bool" where
  "id_char c = (token_char c \<and> c \<noteq> CHR ''>'' \<and> c \<noteq> CHR ''#'')"

definition skip_backslash :: "string \<Rightarrow> string" where
  "skip_backslash s = (case s of c # r \<Rightarrow> if (of_char c :: nat) = 92 then r else s | [] \<Rightarrow> s)"

definition marker_close :: "string \<Rightarrow> string option" where
  "marker_close s =
     (let r = skip_backslash (dropWhile is_space s)
      in if starts_with '']'' r then Some (dropWhile is_space (tl r)) else None)"

definition marker_delegate :: "string \<Rightarrow> string option \<times> string" where
  "marker_delegate s =
     (let a = dropWhile is_space s;
          r = (if starts_with ''->'' a then drop 2 a else if starts_with ''>'' a then drop 1 a else a);
          b = dropWhile is_space r; d = takeWhile token_char b
      in if r \<noteq> a \<and> d \<noteq> [] then (Some d, drop (length d) b) else (None, s))"

definition after_state :: "string option \<Rightarrow> string \<Rightarrow> (string option \<times> string option \<times> string) option" where
  "after_state st s = (let (d, e) = marker_delegate s in map_option (\<lambda>rest. (st, d, rest)) (marker_close e))"

definition marker_tail :: "string \<Rightarrow> (string option \<times> string option \<times> string) option" where
  "marker_tail s =
     (if starts_with ''#'' s
      then let r = tl s in
           case List.find (\<lambda>n. after_state (Some (take n r)) (drop n r) \<noteq> None) (rev [1..<length (takeWhile token_char r) + 1]) of
             None \<Rightarrow> None
           | Some n \<Rightarrow> after_state (Some (take n r)) (drop n r)
      else after_state None s)"

definition entry_marker :: "string \<Rightarrow> (string \<times> string option \<times> string option \<times> string) option" where
  "entry_marker title =
     (let a = skip_backslash title; b = dropWhile is_space (tl a); c = dropWhile is_space (drop 3 b); ids = takeWhile id_char c in
      if starts_with ''['' a \<and> starts_with ''wf:'' b
      then case List.find (\<lambda>n. marker_tail (drop n c) \<noteq> None) [1..<length ids + 1] of
             None \<Rightarrow> None
           | Some n \<Rightarrow> map_option (\<lambda>(st, d, rest). (take n c, st, d, rest)) (marker_tail (drop n c))
      else None)"

text \<open>\<open>title.replace(/:\s*$/, "")\<close>\<close>

definition drop_colon :: "string \<Rightarrow> string" where
  "drop_colon t =
     (let r = dropWhile is_space (rev t) in if starts_with '':'' r then rev (tl r) else t)"

definition marked_finding :: "string \<times> string option \<Rightarrow> Finding list" where
  "marked_finding e =
     (let title = drop_colon (fst e) in
      if title = [] then []
      else case entry_marker title of
        None \<Rightarrow> [plain_finding title (snd e)]
      | Some (i, st, d, rest) \<Rightarrow>
          [(plain_finding rest (snd e))\<lparr>fi_child_workflow := Some (''wf:'' @ i), fi_target_state := st, fi_delegate := d\<rparr>])"

text \<open>The items of a fenced JSON block; \<open>json\<close> is \<open>JSON.parse\<close>, \<open>None\<close> when it throws.\<close>

fun after_text :: "string \<Rightarrow> string \<Rightarrow> string option" where
  "after_text t [] = (if t = [] then Some [] else None)"
| "after_text t (c # cs) = (if starts_with t (c # cs) then Some (drop (length t) (c # cs)) else after_text t cs)"

fun before_text :: "string \<Rightarrow> string \<Rightarrow> string option" where
  "before_text t [] = (if t = [] then Some [] else None)"
| "before_text t (c # cs) = (if starts_with t (c # cs) then Some [] else map_option ((#) c) (before_text t cs))"

function json_block :: "string \<Rightarrow> string option" where
  "json_block s =
     (case after_text ''```json'' s of
        None \<Rightarrow> None
      | Some r \<Rightarrow>
          (let ws = takeWhile is_space r;
               body = rev (takeWhile (\<lambda>c. c \<noteq> CHR 0x0A) (rev ws)) @ dropWhile is_space r
           in case (if CHR 0x0A \<in> set ws then before_text (CHR 0x0A # ''```'') body else None) of
                Some b \<Rightarrow> Some b
              | None \<Rightarrow> json_block r))"
  by pat_completeness auto

lemma after_text_shorter: "after_text t s = Some r \<Longrightarrow> t \<noteq> [] \<Longrightarrow> length r < length s"
  by (induction s) (auto simp: starts_with_def split: if_splits)

termination json_block
  by (relation "measure length") (auto dest: after_text_shorter)

declare json_block.simps [simp del]

definition yaml_truthy :: "yaml \<Rightarrow> bool" where
  "yaml_truthy v = (v \<notin> {Undefined, Null, YBool False, YNum 0, YNaN, Str []})"

definition json_field :: "(rat \<Rightarrow> string) \<Rightarrow> string \<Rightarrow> yaml \<Rightarrow> string option" where
  "json_field num k v = (let x = yaml_get k v in if yaml_truthy x then Some (trim (js_String num x)) else None)"

definition json_item :: "(rat \<Rightarrow> string) \<Rightarrow> yaml \<Rightarrow> Finding list" where
  "json_item num v =
     (case v of
        Str s \<Rightarrow> if trim s = [] then [] else [plain_finding (trim s) None]
      | _ \<Rightarrow>
          (case json_field num ''title'' v of
             Some t \<Rightarrow> [(plain_finding t (json_field num ''description'' v))
               \<lparr>fi_classification := json_field num ''classification'' v, fi_capability := json_field num ''capability'' v\<rparr>]
           | None \<Rightarrow> []))"

definition json_findings :: "(rat \<Rightarrow> string) \<Rightarrow> (string \<Rightarrow> yaml option) \<Rightarrow> string \<Rightarrow> Finding list" where
  "json_findings num json description =
     (case json_block description of
        None \<Rightarrow> []
      | Some b \<Rightarrow> (case json b of Some (Seq items) \<Rightarrow> concat (map (json_item num) items) | _ \<Rightarrow> []))"

definition extractSpecFindings :: "(rat \<Rightarrow> string) \<Rightarrow> (string \<Rightarrow> yaml option) \<Rightarrow> string option \<Rightarrow> string \<Rightarrow> Finding list" where
  "extractSpecFindings num json description specSource =
     (if \<not> truthy description \<or> specSource = [] then []
      else let listed = (case spec_section specSource (the description) of
                           None \<Rightarrow> []
                         | Some body \<Rightarrow> concat (map marked_finding (parseSpecEntries body)));
               found = (if listed = [] then json_findings num json (the description) else listed)
           in withStableIds (map withFindingMetadata (map applyDevSprintArmInference found)))"

subsection \<open>The configuration\<close>

text \<open>
  A state's \<open>fanout\<close> block. The loader has checked that \<open>spec_source\<close> is a text and \<open>child_workflow\<close> a
  \<open>wf:\<close> label; a value of another type reads as absent here.
\<close>

record SpawnIfConfig =
  label_present :: string

record FanoutConfig =
  spec_source :: string
  child_workflow :: string
  initial_delegate :: "string option"
  block_siblings :: bool
  spawn_if :: "SpawnIfConfig option"
  auto_derive_from :: "string option"
  classification_required :: bool
  classification_field :: "string option"
  allowed_classifications :: "string list"
  integration_verify :: "(string \<times> bool \<times> string) option"

definition yaml_text :: "yaml \<Rightarrow> string option" where
  "yaml_text v = (case v of Str s \<Rightarrow> Some s | _ \<Rightarrow> None)"

definition yaml_texts :: "yaml \<Rightarrow> string list" where
  "yaml_texts v = (case v of Seq vs \<Rightarrow> List.map_filter yaml_text vs | _ \<Rightarrow> [])"

definition fanout_config :: "yaml \<Rightarrow> FanoutConfig" where
  "fanout_config v = \<lparr>
     spec_source = orElse (yaml_text (yaml_get ''spec_source'' v)) [],
     child_workflow = orElse (yaml_text (yaml_get ''child_workflow'' v)) [],
     initial_delegate = yaml_text (yaml_get ''initial_delegate'' v),
     block_siblings = yaml_truthy (yaml_get ''block_siblings'' v),
     spawn_if = (let s = yaml_get ''spawn_if'' v in
       if yaml_truthy s then Some \<lparr>label_present = orElse (yaml_text (yaml_get ''label_present'' s)) []\<rparr> else None),
     auto_derive_from = yaml_text (yaml_get ''auto_derive_from'' v),
     classification_required = yaml_truthy (yaml_get ''classification_required'' v),
     classification_field = yaml_text (yaml_get ''classification_field'' v),
     allowed_classifications = yaml_texts (yaml_get ''allowed_classifications'' v),
     integration_verify = (let i = yaml_get ''integration_verify'' v in
       if yaml_truthy i
       then Some (orElse (yaml_text (yaml_get ''child_workflow'' i)) [], is_true (yaml_get ''per_capability'' i),
                  orElse (yaml_text (yaml_get ''blocked_by'' i)) [])
       else None)\<rparr>"

definition shouldTriggerFanout :: "WorkflowDef \<Rightarrow> string \<Rightarrow> string \<Rightarrow> yaml option" where
  "shouldTriggerFanout def currentState intent =
     (case stateNodeById def (Some currentState) of
        None \<Rightarrow> None
      | Some s \<Rightarrow>
          if \<not> yaml_truthy (s_fanout s) then None
          else if intent = (case d_break_glass def of None \<Rightarrow> ''escape'' | Some bg \<Rightarrow> bg_command bg) then None
          else case List.find (\<lambda>t. t_command t = Some intent) (s_transitions s) of
            None \<Rightarrow> None
          | Some t \<Rightarrow> if t_requires_children_terminal t then None else Some (s_fanout s))"

subsection \<open>Checking a specification\<close>

record DevSprintTitleParts =
  ti_icon :: string

definition alnum :: "char \<Rightarrow> bool" where
  "alnum c = (is_word c \<and> c \<noteq> CHR ''_'')"

definition space_rx :: rx where "space_rx = Cls is_space"

definition cycle_number :: rx where
  "cycle_number = cat [WordBoundary, LitCI ''cycle'', plus space_rx, plus (Cls is_digit), WordBoundary]"

definition dash_theme :: rx where
  "dash_theme = cat [space_rx, Lit ''-'', plus space_rx, Cls (\<lambda>c. \<not> is_space c)]"

definition parseDevSprintTitle :: "string \<Rightarrow> DevSprintTitleParts option" where
  "parseDevSprintTitle title =
     (let trimmed = trim title; icon = takeWhile (\<lambda>c. \<not> is_space c) trimmed in
      if icon = [] \<or> alnum (hd icon) then None
      else if \<not> occurs_in cycle_number trimmed then None
      else if \<not> occurs_in dash_theme trimmed then None
      else Some \<lparr>ti_icon = icon\<rparr>)"

definition workflow_of :: "string \<Rightarrow> Finding \<Rightarrow> string" where
  "workflow_of childWorkflow f = orElse (fi_child_workflow f) childWorkflow"

definition validateSprintChildTitleShapes :: "Finding list \<Rightarrow> string \<Rightarrow> (nat \<times> string) option" where
  "validateSprintChildTitleShapes findings childWorkflow =
     map_option (\<lambda>n. (n, fi_title (findings ! n)))
       (find_index_from 0 (\<lambda>f. workflow_of childWorkflow f = ''wf:dev-sprint'' \<and> parseDevSprintTitle (fi_title f) = None) findings)"

record EnrollmentPolicy =
  deprecatedWorkflowIds :: "string list"
  defaultEnrollmentWorkflow :: string

datatype spec_refusal =
    NotWfLabel string | EmptySpec string | ImplementationArm string | BadSprintTitle string
  | Unclassified string string | UnsupportedClassification string string | DeprecatedChild string string
  | UnregisteredChild string string | DeprecatedDefault string | UnregisteredDefault string

definition def_id :: "string \<Rightarrow> string" where
  "def_id w = (if starts_with ''wf:'' w then drop 3 w else w)"

definition registered_in :: "string list \<Rightarrow> string \<Rightarrow> bool" where
  "registered_in reg w = (w \<in> set reg \<or> def_id w \<in> set reg)"

text \<open>\<open>/\[\s*wf:\s*id\b/\<close> in the text of an entry.\<close>

definition wf_mention :: "string \<Rightarrow> rx" where
  "wf_mention i = cat [Lit ''['', Star space_rx, Lit ''wf:'', Star space_rx, Lit i, WordBoundary]"

definition deprecated_target :: "EnrollmentPolicy \<Rightarrow> Finding \<Rightarrow> string option" where
  "deprecated_target p f =
     (case (if truthy (fi_child_workflow f)
            then List.find (\<lambda>i. fi_child_workflow f = Some (''wf:'' @ i) \<or> fi_child_workflow f = Some i) (deprecatedWorkflowIds p)
            else None) of
        Some i \<Rightarrow> Some i
      | None \<Rightarrow> List.find (\<lambda>i. occurs_in (wf_mention i) (material f)) (deprecatedWorkflowIds p))"

definition entry_refusal :: "EnrollmentPolicy \<Rightarrow> string list \<Rightarrow> Finding \<Rightarrow> spec_refusal option" where
  "entry_refusal p reg f =
     (case deprecated_target p f of
        Some i \<Rightarrow> if i = [] then (if truthy (fi_child_workflow f) \<and> \<not> registered_in reg (the (fi_child_workflow f))
                                then Some (UnregisteredChild (fi_title f) (the (fi_child_workflow f))) else None)
                  else Some (DeprecatedChild (fi_title f) i)
      | None \<Rightarrow>
          if truthy (fi_child_workflow f) \<and> \<not> registered_in reg (the (fi_child_workflow f))
          then Some (UnregisteredChild (fi_title f) (the (fi_child_workflow f)))
          else None)"

definition class_refusal :: "FanoutConfig \<Rightarrow> Finding \<Rightarrow> spec_refusal option" where
  "class_refusal config f =
     (let field = (case classification_field config of None \<Rightarrow> ''classification'' | Some x \<Rightarrow> if trim x = [] then ''classification'' else trim x);
          c = (case fi_classification f of Some c \<Rightarrow> Some c | None \<Rightarrow> extractMetadataValue (material f) field)
      in if \<not> truthy c then Some (Unclassified (fi_title f) field)
         else if allowed_classifications config \<noteq> [] \<and> the c \<notin> set (allowed_classifications config)
         then Some (UnsupportedClassification (fi_title f) (the c))
         else None)"

definition first_refusal :: "(Finding \<Rightarrow> spec_refusal option) \<Rightarrow> Finding list \<Rightarrow> spec_refusal option" where
  "first_refusal check fs = (case List.find (\<lambda>f. check f \<noteq> None) fs of None \<Rightarrow> None | Some f \<Rightarrow> check f)"

definition default_refusal :: "EnrollmentPolicy \<Rightarrow> string list \<Rightarrow> FanoutConfig \<Rightarrow> Finding list \<Rightarrow> spec_refusal option" where
  "default_refusal p reg config findings =
     (let w = child_workflow config in
      if (\<exists>f \<in> set findings. \<not> truthy (fi_child_workflow f)) \<and> w \<noteq> []
      then if def_id w \<in> set (deprecatedWorkflowIds p) then Some (DeprecatedDefault (def_id w))
           else if \<not> registered_in reg w then Some (UnregisteredDefault w)
           else None
      else None)"

definition wf_label :: "string \<Rightarrow> bool" where
  "wf_label w = (starts_with ''wf:'' w \<and> drop 3 w \<noteq> [] \<and> \<not> line_end (hd (drop 3 w)))"

definition validateFanoutSpec ::
  "(rat \<Rightarrow> string) \<Rightarrow> (string \<Rightarrow> yaml option) \<Rightarrow> EnrollmentPolicy \<Rightarrow> string option \<Rightarrow> FanoutConfig \<Rightarrow> string list option \<Rightarrow>
   spec_refusal + Finding list" where
  "validateFanoutSpec num json p description config registered =
     (if \<not> wf_label (child_workflow config) then Inl (NotWfLabel (child_workflow config))
      else let findings = extractSpecFindings num json description (spec_source config) in
      if findings = [] then Inl (EmptySpec (spec_source config))
      else case List.find unsupportedArmType findings of Some f \<Rightarrow> Inl (ImplementationArm (fi_title f))
      | None \<Rightarrow>
      case validateSprintChildTitleShapes findings (child_workflow config) of Some (_, t) \<Rightarrow> Inl (BadSprintTitle t)
      | None \<Rightarrow>
      case (if classification_required config then first_refusal (class_refusal config) findings else None) of Some e \<Rightarrow> Inl e
      | None \<Rightarrow>
      case (case registered of None \<Rightarrow> None
            | Some reg \<Rightarrow> (case first_refusal (entry_refusal p reg) findings of Some e \<Rightarrow> Some e
                          | None \<Rightarrow> default_refusal p reg config findings)) of Some e \<Rightarrow> Inl e
      | None \<Rightarrow> Inr findings)"

subsection \<open>Entries against existing children\<close>

record ExistingChild =
  ec_identifier :: string
  ec_specEntryId :: string
  ec_state :: "string option"
  ec_title :: "string option"
  ec_childWorkflow :: "string option"

definition normalizedWorkflowState :: "string option \<Rightarrow> string option" where
  "normalizedWorkflowState s =
     map_option (\<lambda>x. let l = toLowerCase (trim x) in if starts_with ''state:'' l then drop 6 l else l) s"

definition isEscapedSpawnChild :: "ExistingChild \<Rightarrow> bool" where
  "isEscapedSpawnChild c = (normalizedWorkflowState (ec_state c) = Some ''escape'')"

record DedupeResult =
  dd_toSpawn :: "Finding list"
  dd_unmatched :: "ExistingChild list"
  dd_legacy :: "ExistingChild list"

definition same_entry :: "ExistingChild list \<Rightarrow> Finding \<Rightarrow> ExistingChild list" where
  "same_entry existing f = filter (\<lambda>c. Some (ec_specEntryId c) = fi_id f \<and> \<not> isEscapedSpawnChild c) existing"

definition scoped_match :: "ExistingChild list \<Rightarrow> string option \<Rightarrow> Finding \<Rightarrow> bool" where
  "scoped_match existing childWorkflow f =
     (let effective = (case fi_child_workflow f of Some w \<Rightarrow> Some w | None \<Rightarrow> childWorkflow)
      in \<exists>c \<in> set (same_entry existing f). ec_childWorkflow c \<noteq> None \<and> ec_childWorkflow c = effective)"

definition legacy_match :: "ExistingChild list \<Rightarrow> Finding \<Rightarrow> ExistingChild option" where
  "legacy_match existing f = List.find (\<lambda>c. ec_childWorkflow c = None) (same_entry existing f)"

definition dedupeSpawnSpec :: "Finding list \<Rightarrow> ExistingChild list \<Rightarrow> string option \<Rightarrow> DedupeResult" where
  "dedupeSpawnSpec findings existing childWorkflow = \<lparr>
     dd_toSpawn = filter (\<lambda>f. \<not> scoped_match existing childWorkflow f \<and> legacy_match existing f = None) findings,
     dd_unmatched = filter (\<lambda>c. Some (ec_specEntryId c) \<notin> fi_id ` set findings \<and>
       (ec_childWorkflow c = None \<or> ec_childWorkflow c = childWorkflow)) existing,
     dd_legacy = List.map_filter (\<lambda>f. if scoped_match existing childWorkflow f then None else legacy_match existing f) findings\<rparr>"

subsection \<open>The spawn predicate\<close>

record ParentChild =
  pc_identifier :: string
  pc_stateType :: "string option"
  pc_labels :: "string list"

datatype children_answer = ChildrenThrew | ChildrenHttp nat | ChildrenErrors | NoPayload | ChildrenRead "ParentChild list"

datatype SpawnIfOutcome = Fire | WaivedIf | FailedIf

definition evaluateSpawnIf :: "children_answer \<Rightarrow> SpawnIfConfig \<Rightarrow> SpawnIfOutcome \<times> string list" where
  "evaluateSpawnIf answer cfg =
     (case answer of
        ChildrenRead children \<Rightarrow>
          (let matched = map pc_identifier (filter (\<lambda>c. label_present cfg \<in> set (pc_labels c))
             (filter (\<lambda>c. pc_stateType c = Some ''completed'') children))
           in if matched \<noteq> [] then (Fire, matched) else (WaivedIf, []))
      | _ \<Rightarrow> (FailedIf, []))"

subsection \<open>Reading spawned children back\<close>

text \<open>
  \<open>cleanSpawnChildDescription\<close> without a parent id: the two markers and the first line naming the
  parent are removed. \<open>marker_cut\<close> removes the first \<open><!--\s*name:\s*(\S+?)\s*-->\<close>.
\<close>

definition marker_at :: "string \<Rightarrow> string \<Rightarrow> (string \<times> string) option" where
  "marker_at name s =
     (let a = dropWhile is_space (drop 4 s); b = dropWhile is_space (drop (length name) a); w = takeWhile (\<lambda>c. \<not> is_space c) b in
      if starts_with ''<!--'' s \<and> starts_with name a
      then case List.find (\<lambda>n. starts_with ''-->'' (dropWhile is_space (drop n b))) [1..<length w + 1] of
             None \<Rightarrow> None
           | Some n \<Rightarrow> Some (take n b, drop 3 (dropWhile is_space (drop n b)))
      else None)"

fun marker_in :: "string \<Rightarrow> string \<Rightarrow> string option" where
  "marker_in name [] = None"
| "marker_in name (c # cs) = (case marker_at name (c # cs) of Some (v, _) \<Rightarrow> Some v | None \<Rightarrow> marker_in name cs)"

fun marker_cut :: "string \<Rightarrow> string \<Rightarrow> string" where
  "marker_cut name [] = []"
| "marker_cut name (c # cs) = (case marker_at name (c # cs) of Some (_, r) \<Rightarrow> r | None \<Rightarrow> c # marker_cut name cs)"

definition spec_marker :: string where "spec_marker = ''ai-1994:spec-entry-id:''"
definition workflow_marker :: string where "workflow_marker = ''inf-32:child-workflow:''"

text \<open>\<open>/^Parent:\s*.+\n?/i\<close>: what follows the line, when it is there.\<close>

definition parent_line :: "string \<Rightarrow> string option" where
  "parent_line s =
     (let r = drop 7 s; t = dropWhile is_space r in
      if map ascii_lower (take 7 s) \<noteq> ''parent:'' then None
      else if t \<noteq> [] then (let u = dropWhile (\<lambda>c. \<not> line_end c) t in Some (if starts_with [CHR 0x0A] u then tl u else u))
      else if list_ex (\<lambda>c. \<not> line_end c) r then Some [] else None)"

definition cleanSpawnChildDescription :: "string option \<Rightarrow> string option" where
  "cleanSpawnChildDescription d =
     (let a = marker_cut workflow_marker (marker_cut spec_marker (orElse d []))
      in some_text (trim (case parent_line a of Some r \<Rightarrow> r | None \<Rightarrow> a)))"

record SpawnNode =
  sp_identifier :: string
  sp_title :: "string option"
  sp_description :: "string option"
  sp_state :: "string option"
  sp_labels :: "string list"

definition existing_child :: "SpawnNode \<Rightarrow> ExistingChild option" where
  "existing_child n =
     (let d = orElse (sp_description n) [];
          wfLabel = List.find wf_label (sp_labels n);
          entry = (case marker_in spec_marker d of
                     Some i \<Rightarrow> Some i
                   | None \<Rightarrow> if parent_line d \<noteq> None \<and> truthy (sp_title n)
                             then Some (deriveFindingId (the (sp_title n)) (cleanSpawnChildDescription (sp_description n))) else None)
      in case (entry, wfLabel) of
           (Some i, Some w) \<Rightarrow> Some \<lparr>ec_identifier = sp_identifier n, ec_specEntryId = i, ec_state = sp_state n, ec_title = sp_title n,
              ec_childWorkflow = Some (case marker_in workflow_marker d of Some v \<Rightarrow> v | None \<Rightarrow> w)\<rparr>
         | _ \<Rightarrow> None)"

definition fetchExistingSpawnChildren :: "SpawnNode list option \<Rightarrow> ExistingChild list" where
  "fetchExistingSpawnChildren nodes = (case nodes of None \<Rightarrow> [] | Some ns \<Rightarrow> List.map_filter existing_child ns)"

subsection \<open>What a checked specification guarantees\<close>

lemma first_refusal_None: "first_refusal check fs = None \<longleftrightarrow> (\<forall>f \<in> set fs. check f = None)"
  by (induction fs) (auto simp: first_refusal_def)

lemma wf_split: "starts_with ''wf:'' w \<Longrightarrow> w = ''wf:'' @ drop 3 w"
  using append_take_drop_id [of 3 w] by (simp add: starts_with_def numeral_3_eq_3)

lemma not_deprecated:
  assumes "deprecated_target p f = None" and "truthy (fi_child_workflow f)"
  shows "def_id (the (fi_child_workflow f)) \<notin> set (deprecatedWorkflowIds p)"
proof
  let ?w = "the (fi_child_workflow f)"
  assume d: "def_id ?w \<in> set (deprecatedWorkflowIds p)"
  have "fi_child_workflow f = Some (''wf:'' @ def_id ?w) \<or> fi_child_workflow f = Some (def_id ?w)"
    using assms(2) wf_split [of ?w] by (cases "fi_child_workflow f") (auto simp: truthy_def def_id_def)
  then have "List.find (\<lambda>i. fi_child_workflow f = Some (''wf:'' @ i) \<or> fi_child_workflow f = Some i) (deprecatedWorkflowIds p) \<noteq> None"
    using d by (auto simp: find_None_iff)
  then show False using assms by (auto simp: deprecated_target_def split: option.splits)
qed

lemma entry_accepted:
  assumes "entry_refusal p reg f = None" and "truthy (fi_child_workflow f)" and "[] \<notin> set (deprecatedWorkflowIds p)"
  shows "registered_in reg (the (fi_child_workflow f))" "def_id (the (fi_child_workflow f)) \<notin> set (deprecatedWorkflowIds p)"
proof -
  have "deprecated_target p f \<noteq> Some []"
    using assms(3) by (auto simp: deprecated_target_def split: option.splits if_splits dest!: find_SomeD)
  then have t: "deprecated_target p f = None" using assms(1) by (auto simp: entry_refusal_def split: option.splits if_splits)
  then show "registered_in reg (the (fi_child_workflow f))" using assms(1,2) by (auto simp: entry_refusal_def split: if_splits)
  show "def_id (the (fi_child_workflow f)) \<notin> set (deprecatedWorkflowIds p)" by (rule not_deprecated [OF t assms(2)])
qed

lemma find_index_None: "find_index_from n P xs = None \<longleftrightarrow> (\<forall>x \<in> set xs. \<not> P x)"
  by (induction xs arbitrary: n) auto

text \<open>
  A checked specification spawns only into live workflows: when the check passes against the loaded
  registry, there is at least one entry, none is an implementation arm, every entry's workflow, its
  own or the configured default, is registered and not deprecated, and every sprint has a well-formed
  title. (No deprecated id is the empty text.)
\<close>

theorem checked_spec_spawns_into_live_workflows:
  assumes "validateFanoutSpec num json p description config (Some reg) = Inr findings" and "[] \<notin> set (deprecatedWorkflowIds p)"
    and "f \<in> set findings" and "fi_child_workflow f \<noteq> Some []"
  shows "\<not> unsupportedArmType f \<and> registered_in reg (workflow_of (child_workflow config) f) \<and>
    def_id (workflow_of (child_workflow config) f) \<notin> set (deprecatedWorkflowIds p) \<and>
    (workflow_of (child_workflow config) f = ''wf:dev-sprint'' \<longrightarrow> parseDevSprintTitle (fi_title f) \<noteq> None) \<and>
    (classification_required config \<and> allowed_classifications config \<noteq> [] \<longrightarrow>
       (\<exists>c \<in> set (allowed_classifications config). fi_classification f = Some c \<or>
          (\<exists>field. extractMetadataValue (material f) field = Some c)))"
proof -
  have c: "wf_label (child_workflow config)" "List.find unsupportedArmType findings = None"
    "validateSprintChildTitleShapes findings (child_workflow config) = None"
    "(if classification_required config then first_refusal (class_refusal config) findings else None) = None"
    "first_refusal (entry_refusal p reg) findings = None" "default_refusal p reg config findings = None"
    using assms(1) by (auto simp: validateFanoutSpec_def Let_def split: if_splits option.splits prod.splits)
  have e: "entry_refusal p reg f = None" using c(5) assms(3) by (simp add: first_refusal_None)
  have w: "registered_in reg (workflow_of (child_workflow config) f) \<and>
      def_id (workflow_of (child_workflow config) f) \<notin> set (deprecatedWorkflowIds p)"
  proof (cases "fi_child_workflow f")
    case None
    then have "\<exists>f \<in> set findings. \<not> truthy (fi_child_workflow f)" using assms(3) by (intro bexI [of _ f]) (auto simp: truthy_def)
    moreover have "child_workflow config \<noteq> []" using c(1) by (auto simp: wf_label_def starts_with_def)
    ultimately show ?thesis using None c(6) by (auto simp: default_refusal_def Let_def workflow_of_def orElse_def split: if_splits)
  next
    case (Some w)
    then have "truthy (fi_child_workflow f)" using assms(4) by (simp add: truthy_def)
    then show ?thesis using entry_accepted [OF e _ assms(2)] Some by (simp add: workflow_of_def)
  qed
  have "class_refusal config f = None" if "classification_required config"
    using c(4) assms(3) that by (simp add: first_refusal_None)
  then have k: "\<exists>c \<in> set (allowed_classifications config). fi_classification f = Some c \<or>
      (\<exists>field. extractMetadataValue (material f) field = Some c)"
    if "classification_required config" "allowed_classifications config \<noteq> []"
    using that by (fastforce simp: class_refusal_def Let_def truthy_def split: if_splits option.splits)
  then have "classification_required config \<and> allowed_classifications config \<noteq> [] \<longrightarrow>
       (\<exists>c \<in> set (allowed_classifications config). fi_classification f = Some c \<or>
          (\<exists>field. extractMetadataValue (material f) field = Some c))"
    by blast
  moreover have "\<not> unsupportedArmType f" using c(2) assms(3) by (simp add: find_None_iff)
  moreover have "workflow_of (child_workflow config) f = ''wf:dev-sprint'' \<longrightarrow> parseDevSprintTitle (fi_title f) \<noteq> None"
    using c(3) assms(3) by (auto simp: validateSprintChildTitleShapes_def find_index_None)
  ultimately show ?thesis using w by blast
qed

subsection \<open>Re-entry\<close>

definition minted :: "string \<Rightarrow> Finding \<Rightarrow> string \<Rightarrow> string option \<Rightarrow> ExistingChild" where
  "minted cw f i state = \<lparr>ec_identifier = i, ec_specEntryId = the (fi_id f), ec_state = state, ec_title = Some (fi_title f),
     ec_childWorkflow = Some (workflow_of cw f)\<rparr>"

lemma scoped_match_mono: "set xs \<subseteq> set ys \<Longrightarrow> scoped_match xs cw f \<Longrightarrow> scoped_match ys cw f"
  by (auto simp: scoped_match_def same_entry_def Let_def)

lemma legacy_match_None: "legacy_match xs f = None \<longleftrightarrow> (\<forall>c \<in> set (same_entry xs f). ec_childWorkflow c \<noteq> None)"
  by (auto simp: legacy_match_def find_None_iff)

text \<open>
  Spawning is incremental: once every entry that was to be spawned has a child that is not escaped,
  spawning the same specification again spawns nothing, and an entry is to be spawned exactly when
  no live child of its workflow, or of unknown workflow, carries its id: children of another
  workflow do not count.
\<close>

theorem respawn_spawns_nothing:
  assumes "\<forall>f \<in> set (dd_toSpawn (dedupeSpawnSpec findings existing (Some cw))). fi_id f \<noteq> None \<and>
      (\<exists>i state. minted cw f i state \<in> set later \<and> normalizedWorkflowState state \<noteq> Some ''escape'')"
    and "set existing \<subseteq> set later"
  shows "dd_toSpawn (dedupeSpawnSpec findings later (Some cw)) = [] \<and>
    (\<forall>f. f \<in> set (dd_toSpawn (dedupeSpawnSpec findings existing (Some cw))) \<longleftrightarrow> f \<in> set findings \<and>
       (\<forall>c \<in> set existing. Some (ec_specEntryId c) = fi_id f \<and> \<not> isEscapedSpawnChild c \<longrightarrow>
          ec_childWorkflow c \<noteq> None \<and> ec_childWorkflow c \<noteq> Some (workflow_of cw f)))"
proof -
  have spawned: "scoped_match later (Some cw) f \<or> legacy_match later f \<noteq> None" if f: "f \<in> set findings" for f
  proof (cases "f \<in> set (dd_toSpawn (dedupeSpawnSpec findings existing (Some cw)))")
    case True
    then obtain i state where m: "minted cw f i state \<in> set later" "normalizedWorkflowState state \<noteq> Some ''escape''" "fi_id f \<noteq> None"
      using assms(1) by blast
    then have "minted cw f i state \<in> set (same_entry later f)"
      by (auto simp: same_entry_def minted_def isEscapedSpawnChild_def)
    then have "scoped_match later (Some cw) f" unfolding scoped_match_def Let_def
      by (rule bexI [rotated]) (auto simp: minted_def workflow_of_def orElse_def split: option.splits)
    then show ?thesis by blast
  next
    case False
    then have "scoped_match existing (Some cw) f \<or> legacy_match existing f \<noteq> None" using f by (auto simp: dedupeSpawnSpec_def)
    then show ?thesis
    proof
      assume "legacy_match existing f \<noteq> None"
      then have "legacy_match later f \<noteq> None"
        using assms(2) by (auto simp: legacy_match_None same_entry_def subset_eq)
      then show ?thesis by blast
    qed (use scoped_match_mono [OF assms(2)] in blast)
  qed
  then have "dd_toSpawn (dedupeSpawnSpec findings later (Some cw)) = []"
    by (auto simp: dedupeSpawnSpec_def filter_empty_conv)
  then show ?thesis
    by (auto simp: dedupeSpawnSpec_def scoped_match_def legacy_match_None same_entry_def workflow_of_def orElse_def Let_def split: option.splits)
qed

text \<open>Since a child is read back only when it has a workflow label, the path for children of unknown workflow is dead.\<close>

lemma read_children_have_workflow: "c \<in> set (fetchExistingSpawnChildren nodes) \<Longrightarrow> ec_childWorkflow c \<noteq> None"
  by (auto simp: fetchExistingSpawnChildren_def existing_child_def Let_def List.map_filter_def split: option.splits)

lemma no_legacy_match: "dd_legacy (dedupeSpawnSpec findings (fetchExistingSpawnChildren nodes) cw) = []"
proof -
  have "legacy_match (fetchExistingSpawnChildren nodes) f = None" for f
    using read_children_have_workflow by (auto simp: legacy_match_None same_entry_def)
  then show ?thesis by (simp add: dedupeSpawnSpec_def List.map_filter_def)
qed

lemma respawn_spawns_nothing_witness:
  "dd_toSpawn (dedupeSpawnSpec [(plain_finding ''A'' None)\<lparr>fi_id := Some ''a''\<rparr>]
     [\<lparr>ec_identifier = ''I-1'', ec_specEntryId = ''a'', ec_state = None, ec_title = Some ''A'', ec_childWorkflow = Some ''wf:task''\<rparr>]
     (Some ''wf:task'')) = []"
proof -
  let ?f = "(plain_finding ''A'' None)\<lparr>fi_id := Some ''a''\<rparr>"
  let ?c = "\<lparr>ec_identifier = ''I-1'', ec_specEntryId = ''a'', ec_state = None, ec_title = Some ''A'', ec_childWorkflow = Some ''wf:task''\<rparr>"
  have m: "minted ''wf:task'' ?f ''I-1'' None = ?c" by (simp add: minted_def plain_finding_def workflow_of_def orElse_def)
  have "minted ''wf:task'' ?f ''I-1'' None \<in> set [?c] \<and> normalizedWorkflowState None \<noteq> Some ''escape''"
    using m by (simp add: normalizedWorkflowState_def)
  then have "\<forall>f \<in> set (dd_toSpawn (dedupeSpawnSpec [?f] [] (Some ''wf:task''))). fi_id f \<noteq> None \<and>
      (\<exists>i state. minted ''wf:task'' f i state \<in> set [?c] \<and> normalizedWorkflowState state \<noteq> Some ''escape'')"
    by (auto simp: dedupeSpawnSpec_def)
  then show ?thesis using respawn_spawns_nothing [of "[?f]" "[]" "''wf:task''" "[?c]"] by simp
qed

lemma checked_spec_spawns_into_live_workflows_witness:
  "registered_in [''task''] ''wf:task''"
proof -
  let ?config = "\<lparr>spec_source = ''Spec'', child_workflow = ''wf:task'', initial_delegate = None, block_siblings = False, spawn_if = None,
    auto_derive_from = None, classification_required = False, classification_field = None, allowed_classifications = [],
    integration_verify = None\<rparr>"
  let ?p = "\<lparr>deprecatedWorkflowIds = [''dev-impl''], defaultEnrollmentWorkflow = ''task''\<rparr>"
  let ?d = "''# Spec'' @ [CHR 0x0A] @ ''- One''"
  let ?f = "(plain_finding ''One'' None)\<lparr>fi_id := Some (deriveFindingId ''One'' None)\<rparr>"
  have s: "spec_section ''Spec'' ?d = Some ''- One''" by code_simp
  have l: "concat (map marked_finding (parseSpecEntries ''- One'')) = [plain_finding ''One'' None]" by code_simp
  have m: "withFindingMetadata (applyDevSprintArmInference (plain_finding ''One'' None)) = plain_finding ''One'' None" by code_simp
  have "truthy (Some ?d)" "''Spec'' \<noteq> []" by (simp_all add: truthy_def)
  then have e: "extractSpecFindings (\<lambda>_. []) (\<lambda>_. None) (Some ?d) ''Spec'' = [?f]"
    unfolding extractSpecFindings_def Let_def option.sel s option.case l
    by (simp only: if_False not_True_eq_False simp_thms list.map m withStableIds_def list.distinct) (simp add: plain_finding_def)
  have "occurs_in (wf_mention ''dev-impl'') (''One'' @ [CHR 0x0A]) = False" by code_simp
  then have r: "entry_refusal ?p [''task''] ?f = None" "default_refusal ?p [''task''] ?config [?f] = None"
    by (simp_all add: entry_refusal_def deprecated_target_def plain_finding_def truthy_def material_def orElse_def default_refusal_def
        def_id_def starts_with_def registered_in_def)
  have "wf_label ''wf:task''" by code_simp
  then have "validateFanoutSpec (\<lambda>_. []) (\<lambda>_. None) ?p (Some ?d) ?config (Some [''task'']) = Inr [?f]"
    using r by (simp add: validateFanoutSpec_def e [simplified] Let_def plain_finding_def validateSprintChildTitleShapes_def workflow_of_def orElse_def first_refusal_def)
  then show ?thesis
    using checked_spec_spawns_into_live_workflows [of "\<lambda>_. []" "\<lambda>_. None" ?p "Some ?d" ?config "[''task'']" "[?f]" ?f]
    by (simp add: workflow_of_def orElse_def plain_finding_def)
qed

subsection \<open>Children are recognised when they are read back\<close>

text \<open>The description a child is created with.\<close>

definition child_description :: "string \<Rightarrow> Finding \<Rightarrow> string" where
  "child_description parent f =
     ''Parent: '' @ parent @ (if truthy (fi_description f) then [CHR 0x0A, CHR 0x0A] @ the (fi_description f) else [])"

lemma trim_line_feed: "trim (CHR 0x0A # s) = trim s"
  by (simp add: trim_def is_space_def)

lemma marker_cut_absent: "marker_in name s = None \<Longrightarrow> marker_cut name s = s"
  by (induction s) (auto split: option.splits)

lemma dropWhile_plain: "list_all P xs \<Longrightarrow> dropWhile P (xs @ ys) = dropWhile P ys"
  by (induction xs) auto

lemma parent_line_of_child:
  assumes "parent \<noteq> []" and "list_all (\<lambda>c. \<not> is_space c \<and> \<not> line_end c) parent"
  shows "parent_line (child_description parent f) =
    Some (if truthy (fi_description f) then CHR 0x0A # the (fi_description f) else [])"
proof -
  have p: "list_all (\<lambda>c. \<not> line_end c) parent" "dropWhile is_space (parent @ x) = parent @ x" "\<exists>c \<in> set parent. \<not> is_space c" for x
    using assms by (auto simp: list_all_iff neq_Nil_conv)
  have b: "is_space (CHR '' '')" "line_end (CHR 0x0A)" by (code_simp, code_simp)
  have h: "map ascii_lower ''Parent:'' = ''parent:''" by code_simp
  show ?thesis using assms(1) p b h
    by (auto simp: parent_line_def child_description_def Let_def dropWhile_plain starts_with_def)
qed

text \<open>
  C25: A minted child is recognised: the description a child is created with names its parent, and reading
  the child back, with any label of a workflow, gives exactly the id and the workflow its entry has in
  the specification, so the next run finds it. (The title is a text, the description is trimmed and
  holds neither of the two hidden markers, the parent's name is one word.)
\<close>

theorem minted_child_reads_back:
  assumes "parent \<noteq> []" and "list_all (\<lambda>c. \<not> is_space c \<and> \<not> line_end c) parent"
    and "fi_title f \<noteq> []" and "fi_description f \<noteq> Some []"
    and "trim (orElse (fi_description f) []) = orElse (fi_description f) []"
    and "marker_in spec_marker (child_description parent f) = None" and "marker_in workflow_marker (child_description parent f) = None"
    and "List.find wf_label labels = Some w" and "workflow_of cw f = w"
  shows "existing_child \<lparr>sp_identifier = i, sp_title = Some (fi_title f), sp_description = Some (child_description parent f),
      sp_state = state, sp_labels = labels\<rparr> = Some (minted cw (hd (withStableIds [f])) i state)"
proof -
  have c: "cleanSpawnChildDescription (Some (child_description parent f)) = fi_description f"
    using assms(4,5) parent_line_of_child [OF assms(1,2), of f]
    by (cases "fi_description f")
       (simp_all add: cleanSpawnChildDescription_def marker_cut_absent assms(6,7) orElse_def truthy_def some_text_def trim_line_feed Let_def)
  show ?thesis
    using assms(3,6-9) parent_line_of_child [OF assms(1,2), of f]
    by (simp add: existing_child_def c minted_def withStableIds_def orElse_def truthy_def workflow_of_def Let_def)
qed

lemma minted_child_reads_back_witness:
  "let f = plain_finding ''Fix it'' (Some ''Now'') in
   existing_child \<lparr>sp_identifier = ''I-2'', sp_title = Some ''Fix it'', sp_description = Some (child_description ''I-1'' f),
     sp_state = None, sp_labels = [''wf:task'']\<rparr> = Some (minted ''wf:task'' (hd (withStableIds [f])) ''I-2'' None)"
proof -
  let ?f = "plain_finding ''Fix it'' (Some ''Now'')"
  have h: "marker_in spec_marker (child_description ''I-1'' ?f) = None" "marker_in workflow_marker (child_description ''I-1'' ?f) = None"
    "list_all (\<lambda>c. \<not> is_space c \<and> \<not> line_end c) ''I-1''" "trim ''Now'' = ''Now''" "List.find wf_label [''wf:task''] = Some ''wf:task''"
    by (code_simp, code_simp, code_simp, code_simp, code_simp)
  show ?thesis
    using minted_child_reads_back [of "''I-1''" ?f "[''wf:task'']" "''wf:task''" "''wf:task''" "''I-2''" None] h
    by (simp add: plain_finding_def workflow_of_def orElse_def Let_def)
qed

text \<open>The two writings of a marker: without a space before the arrow the state absorbs the delegate.\<close>

lemma arrow_without_space:
  "entry_marker ''[wf:task#todo->igor] One'' = Some (''task'', Some ''todo->igor'', None, ''One'') \<and>
   entry_marker ''[wf:task#todo -> igor] One'' = Some (''task'', Some ''todo'', Some ''igor'', ''One'') \<and>
   entry_marker ''[wf:task#todo> igor] One'' = Some (''task'', Some ''todo'', Some ''igor'', ''One'')"
  by code_simp

end
