(* ===== verification/SpawnPreview.thy ===== *)
theory SpawnPreview
  imports JsString
begin

text \<open>
  \<open>src/spawn-preview.ts\<close>: the caps on a fan-out, the depth of a ticket in the tree, and the preview that
  is posted before any child exists. The parent of a ticket is what the ticket service answers,
  \<open>None\<close> when there is none and also when it could not be read.
\<close>

subsection \<open>Caps\<close>

record SpawnCaps =
  maxChildren :: int
  maxDepth :: int
  approvalAbove :: int

definition DEFAULT_SPAWN_CAPS :: SpawnCaps where
  "DEFAULT_SPAWN_CAPS = \<lparr>maxChildren = 20, maxDepth = 3, approvalAbove = 10\<rparr>"

definition cap_or :: "string option \<Rightarrow> int \<Rightarrow> int" where
  "cap_or v d = (case parseInt (orElse v []) of None \<Rightarrow> d | Some n \<Rightarrow> if n \<le> 0 then d else n)"

definition parseSpawnCaps :: "string option \<Rightarrow> string option \<Rightarrow> string option \<Rightarrow> SpawnCaps" where
  "parseSpawnCaps children depth approval =
     \<lparr>maxChildren = cap_or children (maxChildren DEFAULT_SPAWN_CAPS), maxDepth = cap_or depth (maxDepth DEFAULT_SPAWN_CAPS),
      approvalAbove = cap_or approval (approvalAbove DEFAULT_SPAWN_CAPS)\<rparr>"

datatype cap_refusal = DepthCap int int | ChildrenCap int int

record CapCheckResult =
  allowed_by_caps :: bool
  refusalReason :: "cap_refusal option"
  needsApproval :: bool
  cc_caps :: SpawnCaps
  cc_depth :: int
  proposedCount :: int

definition checkCaps :: "int \<Rightarrow> int \<Rightarrow> SpawnCaps \<Rightarrow> CapCheckResult" where
  "checkCaps proposed depth caps =
     (let result = \<lparr>allowed_by_caps = True, refusalReason = None, needsApproval = False, cc_caps = caps, cc_depth = depth,
            proposedCount = proposed\<rparr>
      in if maxDepth caps \<le> depth then result\<lparr>allowed_by_caps := False, refusalReason := Some (DepthCap depth (maxDepth caps))\<rparr>
         else if maxChildren caps < proposed
         then result\<lparr>allowed_by_caps := False, refusalReason := Some (ChildrenCap proposed (maxChildren caps))\<rparr>
         else result\<lparr>needsApproval := approvalAbove caps < proposed\<rparr>)"

subsection \<open>Depth\<close>

definition MAX_WALK :: nat where "MAX_WALK = 50"

fun walk_up :: "nat \<Rightarrow> (string \<Rightarrow> string option) \<Rightarrow> string \<Rightarrow> nat" where
  "walk_up 0 parent i = 0"
| "walk_up (Suc n) parent i =
     (if i = [] then 0 else case parent i of None \<Rightarrow> 0 | Some p \<Rightarrow> if p = [] then 0 else Suc (walk_up n parent p))"

definition resolveDepth :: "(string \<Rightarrow> string option) \<Rightarrow> string \<Rightarrow> nat" where
  "resolveDepth parent i = walk_up MAX_WALK parent i"

subsection \<open>The preview\<close>

record FindingInput =
  fin_title :: string
  fin_description :: "string option"
  fin_child_workflow :: "string option"

record ProposedChild =
  pc_index :: nat
  pc_title :: string
  pc_description :: "string option"
  pc_workflow :: string
  pc_seedAc :: string

record SpawnPreview =
  pv_parent :: string
  pv_children :: "ProposedChild list"
  pv_depth :: nat
  requiresApproval :: bool
  capResult :: CapCheckResult

definition proposed_child :: "nat \<times> FindingInput \<Rightarrow> ProposedChild" where
  "proposed_child x = (let f = snd x in
     \<lparr>pc_index = fst x, pc_title = fin_title f, pc_description = fin_description f,
      pc_workflow = orElse (fin_child_workflow f) ''dev-impl'',
      pc_seedAc = (if truthy (fin_description f) then fin_title f @ '': '' @ the (fin_description f) else fin_title f)\<rparr>)"

definition generateSpawnPreview :: "(string \<Rightarrow> string option) \<Rightarrow> string \<Rightarrow> FindingInput list \<Rightarrow> SpawnCaps \<Rightarrow> SpawnPreview" where
  "generateSpawnPreview parent i findings caps =
     (let depth = resolveDepth parent i;
          children = map proposed_child (enumerate 0 findings);
          cap = checkCaps (int (length children)) (int depth) caps
      in \<lparr>pv_parent = i, pv_children = children, pv_depth = depth, requiresApproval = needsApproval cap, capResult = cap\<rparr>)"

subsection \<open>What the caps promise\<close>

lemma cap_positive: "0 < cap_or v d \<longleftrightarrow> (parseInt (orElse v []) \<noteq> None \<and> 0 < the (parseInt (orElse v [])) \<or> 0 < d)"
  by (auto simp: cap_or_def split: option.splits)

lemma parseSpawnCaps_positive:
  "0 < maxChildren (parseSpawnCaps c d a)" "0 < maxDepth (parseSpawnCaps c d a)" "0 < approvalAbove (parseSpawnCaps c d a)"
  by (simp_all add: parseSpawnCaps_def DEFAULT_SPAWN_CAPS_def cap_positive)

lemma caps_allow: "allowed_by_caps (checkCaps n d caps) \<longleftrightarrow> d < maxDepth caps \<and> n \<le> maxChildren caps"
  by (auto simp: checkCaps_def Let_def)

lemma caps_approval: "needsApproval (checkCaps n d caps) \<longleftrightarrow> allowed_by_caps (checkCaps n d caps) \<and> approvalAbove caps < n"
  by (auto simp: checkCaps_def Let_def)

lemma refusal_iff: "refusalReason (checkCaps n d caps) = None \<longleftrightarrow> allowed_by_caps (checkCaps n d caps)"
  by (auto simp: checkCaps_def Let_def)

lemma walk_up_bound: "walk_up n parent i \<le> n"
  by (induction n arbitrary: i) (auto split: option.splits)

text \<open>The k-th ancestor.\<close>

fun ancestor :: "(string \<Rightarrow> string option) \<Rightarrow> nat \<Rightarrow> string \<Rightarrow> string option" where
  "ancestor parent 0 i = Some i"
| "ancestor parent (Suc k) i = (case parent i of None \<Rightarrow> None | Some p \<Rightarrow> ancestor parent k p)"

definition real_parents :: "(string \<Rightarrow> string option) \<Rightarrow> bool" where
  "real_parents parent = (\<forall>i. parent i \<noteq> Some [])"

lemma walk_up_counts:
  assumes "real_parents parent" and "i \<noteq> []"
  shows "d \<le> walk_up n parent i \<longleftrightarrow> d \<le> n \<and> ancestor parent d i \<noteq> None"
  using assms(2)
proof (induction n arbitrary: i d)
  case 0
  then show ?case by (cases d) auto
next
  case (Suc n)
  show ?case
  proof (cases "parent i")
    case None
    then show ?thesis using Suc.prems by (cases d) auto
  next
    case (Some p)
    then have "p \<noteq> []" using assms(1) by (auto simp: real_parents_def)
    then show ?thesis using Suc.IH [of p] Suc.prems Some by (cases d) auto
  qed
qed

text \<open>
  The caps are exact: a preview allows a spawn exactly when the parent has no ancestor at the depth
  of the cap and there are no more children than the cap, whatever the tree is, cycles included;
  and it asks for approval exactly above the threshold. (The depth cap is at most the length of
  the walk, fifty.)
\<close>

theorem caps_are_exact:
  assumes "real_parents parent" and "i \<noteq> []" and "0 < maxDepth caps" and "maxDepth caps \<le> 50"
  shows "let p = generateSpawnPreview parent i findings caps in
    (allowed_by_caps (capResult p) \<longleftrightarrow> ancestor parent (nat (maxDepth caps)) i = None \<and> int (length findings) \<le> maxChildren caps) \<and>
    (requiresApproval p \<longleftrightarrow> allowed_by_caps (capResult p) \<and> approvalAbove caps < int (length findings))"
proof -
  have "int (resolveDepth parent i) < maxDepth caps \<longleftrightarrow> \<not> nat (maxDepth caps) \<le> walk_up 50 parent i"
    using assms(3) by (auto simp: resolveDepth_def MAX_WALK_def)
  also have "\<dots> \<longleftrightarrow> ancestor parent (nat (maxDepth caps)) i = None"
    using walk_up_counts [OF assms(1,2), of "nat (maxDepth caps)" 50] assms(4) by auto
  finally have "int (resolveDepth parent i) < maxDepth caps \<longleftrightarrow> ancestor parent (nat (maxDepth caps)) i = None" .
  then show ?thesis by (simp add: generateSpawnPreview_def Let_def caps_allow caps_approval length_enumerate)
qed

theorem caps_are_exact_witness:
  "ancestor (\<lambda>i. if i = ''I-2'' then Some ''I-1'' else Some ''I-2'') 3 ''I-1'' \<noteq> None"
proof -
  let ?parent = "\<lambda>i. if i = ''I-2'' then Some ''I-1'' else Some ''I-2''"
  have "real_parents ?parent" by (simp add: real_parents_def)
  then have "let p = generateSpawnPreview ?parent ''I-1'' [] DEFAULT_SPAWN_CAPS in
      allowed_by_caps (capResult p) \<longleftrightarrow> ancestor ?parent 3 ''I-1'' = None"
    using caps_are_exact [of ?parent "''I-1''" DEFAULT_SPAWN_CAPS "[]"] by (simp add: DEFAULT_SPAWN_CAPS_def Let_def)
  moreover have "\<not> allowed_by_caps (capResult (generateSpawnPreview ?parent ''I-1'' [] DEFAULT_SPAWN_CAPS))" by code_simp
  ultimately show ?thesis by (simp add: Let_def)
qed

text \<open>A cap above fifty never refuses, in a cycle either; an unreadable parent counts as a root.\<close>

lemma deep_cap_is_off: "50 < maxDepth caps \<Longrightarrow> int n \<le> maxChildren caps \<Longrightarrow> allowed_by_caps (checkCaps (int n) (int (resolveDepth parent i)) caps)"
  using walk_up_bound [of 50 parent i] by (simp add: caps_allow resolveDepth_def MAX_WALK_def)

end
