(* ===== verification/FanoutRun.thy ===== *)
theory FanoutRun
  imports FanoutSpec SpawnPreview TicketWrite
begin

text \<open>
  \<open>executeFanout\<close> of \<open>src/fanout.ts\<close>, wired as \<open>applyStateTransition\<close> of \<open>src/workflow-gate.ts\<close> wires it: the
  refusals before anything is created, the minting of one child per entry, the verification children
  per capability, the relations between siblings, and what the barrier is told. What the services
  answer is the record \<open>FanoutWorld\<close>; what is sent to them is the list of effects, in order. The guard
  for an empty specification after the partition is not reachable and is left out.
\<close>

subsection \<open>The services and the result\<close>

record FanoutParent =
  fp_internalId :: string
  fp_teamId :: string
  fp_description :: "string option"

record FanoutWorld =
  fw_parent :: "FanoutParent option"
  fw_nodes :: "SpawnNode list option"
  fw_spawnIf :: children_answer
  fw_parentOf :: "string \<Rightarrow> string option"
  fw_caps :: SpawnCaps
  fw_teamLabels :: "string \<Rightarrow> LabelNode list option"
  fw_stateLabel :: "nat \<Rightarrow> string \<Rightarrow> LabelWorld"
  fw_defs :: "string \<Rightarrow> WorkflowDef option"
  fw_native :: "string \<Rightarrow> string option"
  fw_agents :: "(string option \<times> string option) list"
  fw_create :: "nat \<Rightarrow> (string \<times> string) option"
  fw_dispatches :: bool
  fw_wakes :: "string \<Rightarrow> bool"

record FanoutOptions =
  fo_skipPreview :: bool
  fo_findings :: "Finding list option"
  fo_existing :: "ExistingChild list option"

datatype fanout_error =
    ChildNotWorkflow string | ParentContextUnread | NoEntriesFound string | EngineeringSolicit "string list"
  | ImplementationSeed string | InvalidSprintTitle string | TargetUndefined string string string | TargetNotThere string string string
  | SpawnIfUnread | CapExceeded "cap_refusal option" | LabelMissing string
  | MarkerTitle string | SprintTitleShape string | SprintTitleTaken string string | SprintIconTaken string string
  | WorkflowLabelUnresolved string | StateLabelUnresolved string string | CreateFailed string
  | VerifyLabelUnresolved string | VerifyStateUnresolved string | VerifyCreateFailed string

record FanoutResult =
  fr_created :: nat
  fr_childIdentifiers :: "string list"
  fr_errors :: "(int \<times> fanout_error) list"
  fr_preview :: "SpawnPreview option"
  fr_refused :: bool
  fr_pendingApproval :: bool
  fr_unmatched :: "string list"
  fr_spawnIf :: "SpawnIfOutcome option"
  fr_attempted :: nat
  fr_specMatched :: "string list"
  fr_delegates :: "(string \<times> string option) list"

record ChildInput =
  ci_teamId :: string
  ci_title :: string
  ci_description :: string
  ci_parentId :: string
  ci_labelIds :: "string list"
  ci_delegateId :: "string option"
  ci_stateId :: "string option"

datatype fanout_effect =
    TitleRefusedComment | UnmatchedNote "string list" | SpawnIfComment SpawnIfOutcome | SpawnIfErrorComment | PreviewComment SpawnPreview
  | LabelMade label_create | ChildCreate ChildInput | WakeChild string string | DispatchRecorded string string | Blocks string string

definition empty_result :: FanoutResult where
  "empty_result = \<lparr>fr_created = 0, fr_childIdentifiers = [], fr_errors = [], fr_preview = None, fr_refused = False,
     fr_pendingApproval = False, fr_unmatched = [], fr_spawnIf = None, fr_attempted = 0, fr_specMatched = [], fr_delegates = []\<rparr>"

definition refuse_fanout :: "(int \<times> fanout_error) list \<Rightarrow> FanoutResult \<Rightarrow> FanoutResult" where
  "refuse_fanout es r = r\<lparr>fr_refused := True, fr_errors := fr_errors r @ es\<rparr>"

definition fail_fanout :: "int \<Rightarrow> fanout_error \<Rightarrow> FanoutResult \<Rightarrow> FanoutResult" where
  "fail_fanout n e r = r\<lparr>fr_errors := fr_errors r @ [(n, e)]\<rparr>"

subsection \<open>Engineering solicitations\<close>

definition ENGINEERING_SOLICIT_RECIPIENTS :: "string list" where
  "ENGINEERING_SOLICIT_RECIPIENTS = [''felix'', ''noah'', ''sage'', ''igor'', ''tdd'']"

definition ENGINEERING_SOLICIT_ROLES :: "string list" where
  "ENGINEERING_SOLICIT_ROLES =
     [''backend'', ''dev'', ''frontend'', ''mobile'', ''owned-resource'', ''react-native'', ''test-author'', ''web'']"

definition metadataToken :: "string \<Rightarrow> string \<Rightarrow> string option" where
  "metadataToken m field =
     map_option (\<lambda>v. let l = toLowerCase (trim v) in if starts_with ''@'' l then tl l else l) (extractMetadataValue m field)"

definition engineering_words :: rx where
  "engineering_words = cat [WordBoundary, LitCI ''engineering'', plus space_rx, LitCI ''solicitation'', WordBoundary]"

definition isEngineeringSolicitFinding :: "Finding \<Rightarrow> bool" where
  "isEngineeringSolicitFinding f =
     (let recipient = metadataToken (material f) ''recipient''; role = metadataToken (material f) ''role''
      in (recipient \<noteq> None \<and> the recipient \<in> set ENGINEERING_SOLICIT_RECIPIENTS) \<or>
         (role \<noteq> None \<and> the role \<in> set ENGINEERING_SOLICIT_ROLES) \<or>
         occurs_in engineering_words (material f))"

subsection \<open>Workflow definitions, states and delegates\<close>

type_synonym registry = "(string, WorkflowDef) jsmap"

definition strip_state :: "string \<Rightarrow> string" where
  "strip_state l = (if starts_with ''state:'' l then drop 6 l else l)"

definition workflowDefForLabel :: "registry \<Rightarrow> string \<Rightarrow> WorkflowDef option" where
  "workflowDefForLabel reg l = (case map_get reg l of Some d \<Rightarrow> Some d | None \<Rightarrow> map_get reg (def_id l))"

definition isWorkflowStateActionable :: "WorkflowDef option \<Rightarrow> string \<Rightarrow> bool" where
  "isWorkflowStateActionable def stateLabel =
     (case def of None \<Rightarrow> False
      | Some d \<Rightarrow> (case List.find (\<lambda>s. s_id s = strip_state stateLabel) (d_states d) of
                     None \<Rightarrow> False | Some s \<Rightarrow> truthy (s_owner_role s) \<and> s_kind s \<noteq> Some ''terminal''))"

definition load_def :: "FanoutWorld \<Rightarrow> string \<Rightarrow> registry \<Rightarrow> WorkflowDef option \<times> registry" where
  "load_def w l reg = (case fw_defs w (def_id l) of None \<Rightarrow> (None, reg) | Some d \<Rightarrow> (Some d, map_set (def_id l) d reg))"

definition lookupEntryState :: "FanoutWorld \<Rightarrow> string \<Rightarrow> registry \<Rightarrow> string option \<times> registry" where
  "lookupEntryState w l reg =
     (case load_def w l reg of (d, reg') \<Rightarrow>
        (case d of Some d \<Rightarrow> if truthy (d_entry_state d) then Some (''state:'' @ the (d_entry_state d)) else None | None \<Rightarrow> None, reg'))"

definition lookupEntryStateId :: "FanoutWorld \<Rightarrow> string \<Rightarrow> string option \<Rightarrow> registry \<Rightarrow> string option \<times> registry" where
  "lookupEntryStateId w l stateLabel reg =
     (case load_def w l reg of (d, reg') \<Rightarrow>
        (case d of None \<Rightarrow> None
         | Some d \<Rightarrow>
             (let target = (case stateLabel of Some s \<Rightarrow> Some (strip_state s) | None \<Rightarrow> d_entry_state d) in
              if \<not> truthy target then None
              else case List.find (\<lambda>s. s_id s = the target) (d_states d) of
                     None \<Rightarrow> None
                   | Some s \<Rightarrow> if truthy (s_native_state s) then fw_native w (the (s_native_state s)) else None), reg'))"

definition resolveInitialDelegate :: "FanoutWorld \<Rightarrow> string \<Rightarrow> string option" where
  "resolveInitialDelegate w body =
     (case List.find (\<lambda>(n, i). n \<noteq> None \<and> toLowerCase (the n) = toLowerCase body) (fw_agents w) of None \<Rightarrow> None | Some (_, i) \<Rightarrow> i)"

definition findLabel :: "FanoutWorld \<Rightarrow> string \<Rightarrow> string \<Rightarrow> string option" where
  "findLabel w team name = (case fw_teamLabels w name of None \<Rightarrow> None | Some nodes \<Rightarrow> find_label nodes team name)"

subsection \<open>Minting one child\<close>

record Mint =
  m_registry :: registry
  m_stateLabels :: "(string, string) jsmap"
  m_stateIds :: "(string, string option) jsmap"
  m_result :: FanoutResult
  m_internalIds :: "string list"
  m_components :: "(string \<times> string \<times> Finding) list"
  m_creates :: nat
  m_effects :: "fanout_effect list"

definition emit :: "fanout_effect list \<Rightarrow> Mint \<Rightarrow> Mint" where
  "emit es m = m\<lparr>m_effects := m_effects m @ es\<rparr>"

definition mint_error :: "int \<Rightarrow> fanout_error \<Rightarrow> Mint \<Rightarrow> Mint" where
  "mint_error n e m = m\<lparr>m_result := fail_fanout n e (m_result m)\<rparr>"

text \<open>The label of a state, resolved once per run; a failure is not remembered. \<open>n\<close> tells the requests apart.\<close>

definition state_label_id :: "FanoutWorld \<Rightarrow> string \<Rightarrow> nat \<Rightarrow> string \<Rightarrow> Mint \<Rightarrow> string option \<times> Mint" where
  "state_label_id w team n name m =
     (case map_get (m_stateLabels m) name of
        Some i \<Rightarrow> (Some i, m)
      | None \<Rightarrow>
          (case findOrCreateLabel (fw_stateLabel w n name) team name of
             (None, created) \<Rightarrow> (None, emit (map LabelMade created) m)
           | (Some i, created) \<Rightarrow> (Some i, (emit (map LabelMade created) m)\<lparr>m_stateLabels := map_set name i (m_stateLabels m)\<rparr>)))"

definition native_id_of :: "FanoutWorld \<Rightarrow> string \<Rightarrow> string \<Rightarrow> string option \<Rightarrow> Mint \<Rightarrow> string option \<times> Mint" where
  "native_id_of w key cwf stateLabel m =
     (case map_get (m_stateIds m) key of
        Some i \<Rightarrow> (i, m)
      | None \<Rightarrow>
          (case lookupEntryStateId w cwf stateLabel (m_registry m) of
             (i, reg) \<Rightarrow> (i, m\<lparr>m_registry := reg, m_stateIds := map_set key i (m_stateIds m)\<rparr>)))"

text \<open>The refusals of a title; the siblings are the children that existed before the run.\<close>

definition same_title :: "string \<Rightarrow> string option \<Rightarrow> bool" where
  "same_title t o2 = (case o2 of None \<Rightarrow> False | Some x \<Rightarrow> toLowerCase (trim x) = toLowerCase (trim t))"

definition title_refusal :: "ExistingChild list \<Rightarrow> string \<Rightarrow> string \<Rightarrow> fanout_error option" where
  "title_refusal existing cwf title =
     (if js_includes ''-->'' title then Some (MarkerTitle title)
      else if cwf \<noteq> ''wf:dev-sprint'' then None
      else case parseDevSprintTitle title of None \<Rightarrow> Some (SprintTitleShape title)
      | Some parts \<Rightarrow>
      case List.find (\<lambda>c. ec_childWorkflow c = Some cwf \<and> same_title title (ec_title c)) existing of
        Some c \<Rightarrow> Some (SprintTitleTaken title (ec_identifier c))
      | None \<Rightarrow>
      case List.find (\<lambda>c. ec_childWorkflow c = Some cwf \<and> truthy (ec_title c) \<and>
             map_option ti_icon (parseDevSprintTitle (the (ec_title c))) = Some (ti_icon parts)) existing of
        Some c \<Rightarrow> Some (SprintIconTaken title (ec_identifier c))
      | None \<Rightarrow> None)"

definition created_child ::
  "FanoutWorld \<Rightarrow> FanoutConfig \<Rightarrow> string \<Rightarrow> string \<Rightarrow> string option \<Rightarrow> Finding \<Rightarrow> string \<times> string \<Rightarrow> Mint \<Rightarrow> Mint" where
  "created_child w config cwf stateLabel delegateId f child m =
     (let (internalId, i) = child;
          agent = (case fi_delegate f of Some d \<Rightarrow> Some d | None \<Rightarrow> initial_delegate config);
          seated = truthy agent \<and> truthy delegateId;
          r = m_result m
      in emit (if seated \<and> fw_dispatches w \<and> isWorkflowStateActionable (workflowDefForLabel (m_registry m) cwf) stateLabel
               then WakeChild (the agent) i # (if fw_wakes w i then [DispatchRecorded (the agent) i] else [])
               else [])
           (m\<lparr>m_result := r\<lparr>fr_created := fr_created r + 1, fr_childIdentifiers := fr_childIdentifiers r @ [i],
                 fr_delegates := fr_delegates r @ [(i, if seated then agent else None)]\<rparr>,
              m_internalIds := m_internalIds m @ [internalId],
              m_components := m_components m @ [(internalId, i, f)]\<rparr>))"

definition mint_child ::
  "FanoutWorld \<Rightarrow> FanoutConfig \<Rightarrow> string \<Rightarrow> FanoutParent \<Rightarrow> ExistingChild list \<Rightarrow> (string \<Rightarrow> string option) \<Rightarrow> string option \<Rightarrow>
   nat \<times> Finding \<Rightarrow> Mint \<Rightarrow> Mint" where
  "mint_child w config parentId p existing wfLabels configDelegateId x m =
     (let (n, f) = x; title = fi_title f; cwf = workflow_of (child_workflow config) f in
      case title_refusal existing cwf title of Some e \<Rightarrow> mint_error (int n) e m
      | None \<Rightarrow>
      case wfLabels cwf of None \<Rightarrow> mint_error (int n) (WorkflowLabelUnresolved cwf) m
      | Some wfLabelId \<Rightarrow>
      let (entryLabel, reg) = (if truthy (fi_target_state f) then (Some (''state:'' @ the (fi_target_state f)), m_registry m)
                               else lookupEntryState w cwf (m_registry m));
          stateLabel = orElse entryLabel ''state:todo'';
          (stateLabelId, m1) = state_label_id w (fp_teamId p) n stateLabel (m\<lparr>m_registry := reg\<rparr>)
      in case stateLabelId of None \<Rightarrow> mint_error (int n) (StateLabelUnresolved stateLabel cwf) m1
      | Some sl \<Rightarrow>
      let (nativeId, m2) = native_id_of w (cwf @ ''|'' @ stateLabel) cwf (Some stateLabel) m1;
          delegateId = (if truthy (fi_delegate f) then resolveInitialDelegate w (the (fi_delegate f)) else configDelegateId);
          m3 = (emit [ChildCreate \<lparr>ci_teamId = fp_teamId p, ci_title = title, ci_description = child_description parentId f,
                  ci_parentId = fp_internalId p, ci_labelIds = [wfLabelId, sl],
                  ci_delegateId = (if truthy delegateId then delegateId else None),
                  ci_stateId = (if truthy nativeId then nativeId else None)\<rparr>] m2)\<lparr>m_creates := m_creates m2 + 1\<rparr>
      in case fw_create w (m_creates m2) of
           None \<Rightarrow> mint_error (int n) (CreateFailed title) m3
         | Some child \<Rightarrow> created_child w config cwf stateLabel delegateId f child m3)"

subsection \<open>Verification children and relations\<close>

definition capability_groups :: "(string \<times> string \<times> Finding) list \<Rightarrow> (string, (string \<times> string \<times> Finding) list) jsmap" where
  "capability_groups components =
     fold (\<lambda>c groups. let f = snd (snd c); capability = (case fi_capability f of None \<Rightarrow> None | Some x \<Rightarrow> Some (trim x)) in
        if fi_classification f \<noteq> Some ''traces-to-capability'' \<or> \<not> truthy capability then groups
        else map_set (the capability) (orElse (map_get groups (the capability)) [] @ [c]) groups) components []"

definition verify_description :: "string \<Rightarrow> string \<Rightarrow> (string \<times> string \<times> Finding) list \<Rightarrow> string" where
  "verify_description parentId capability components =
     join_lines ([''Parent: '' @ parentId, ''Capability: '' @ capability, [], ''Blocked by component tickets:''] @
       map (\<lambda>(_, i, f). ''- '' @ i @ '': '' @ fi_title f) components)"

definition mint_verify ::
  "FanoutWorld \<Rightarrow> FanoutConfig \<Rightarrow> string \<Rightarrow> FanoutParent \<Rightarrow> string \<Rightarrow> string \<Rightarrow> string option \<Rightarrow>
   nat \<times> string \<times> (string \<times> string \<times> Finding) list \<Rightarrow> Mint \<Rightarrow> Mint" where
  "mint_verify w config parentId p verifyWorkflow wfLabelId configDelegateId x m =
     (let (n, capability, components) = x;
          (entryLabel, reg) = lookupEntryState w verifyWorkflow (m_registry m);
          stateLabel = orElse entryLabel ''state:intake'';
          (stateLabelId, m1) = state_label_id w (fp_teamId p) n stateLabel (m\<lparr>m_registry := reg\<rparr>)
      in case stateLabelId of None \<Rightarrow> mint_error (- 1) (VerifyStateUnresolved stateLabel) m1
      | Some sl \<Rightarrow>
      let (nativeId, m2) = native_id_of w verifyWorkflow verifyWorkflow None m1;
          m3 = (emit [ChildCreate \<lparr>ci_teamId = fp_teamId p, ci_title = ''Integration verify: '' @ capability,
                  ci_description = verify_description parentId capability components, ci_parentId = fp_internalId p,
                  ci_labelIds = [wfLabelId, sl], ci_delegateId = (if truthy configDelegateId then configDelegateId else None),
                  ci_stateId = (if truthy nativeId then nativeId else None)\<rparr>] m2)\<lparr>m_creates := m_creates m2 + 1\<rparr>
      in case fw_create w (m_creates m2) of
           None \<Rightarrow> mint_error (- 1) (VerifyCreateFailed capability) m3
         | Some (internalId, i) \<Rightarrow>
             (let r = m_result m3 in
              emit (map (\<lambda>(c, _, _). Blocks c internalId) components)
                (m3\<lparr>m_result := r\<lparr>fr_created := fr_created r + 1, fr_childIdentifiers := fr_childIdentifiers r @ [i],
                   fr_delegates := fr_delegates r @ [(i, if truthy (initial_delegate config) \<and> truthy configDelegateId then initial_delegate config else None)],
                   fr_specMatched := fr_specMatched r @ [i]\<rparr>\<rparr>)))"

definition mint_verifies ::
  "FanoutWorld \<Rightarrow> FanoutConfig \<Rightarrow> string \<Rightarrow> FanoutParent \<Rightarrow> (string \<Rightarrow> string option) \<Rightarrow> string option \<Rightarrow> nat \<Rightarrow> Mint \<Rightarrow> Mint" where
  "mint_verifies w config parentId p wfLabels configDelegateId n m =
     (case integration_verify config of
        Some (verifyWorkflow, perCapability, blockedBy) \<Rightarrow>
          if perCapability \<and> blockedBy = ''capability-components'' \<and> m_components m \<noteq> []
          then (case wfLabels verifyWorkflow of
                  None \<Rightarrow> mint_error (- 1) (VerifyLabelUnresolved verifyWorkflow) m
                | Some l \<Rightarrow> fold (mint_verify w config parentId p verifyWorkflow l configDelegateId)
                              (enumerate n (capability_groups (m_components m))) m)
          else m
      | None \<Rightarrow> m)"

definition sibling_relations :: "FanoutConfig \<Rightarrow> string list \<Rightarrow> fanout_effect list" where
  "sibling_relations config ids = (if block_siblings config then map (\<lambda>(a, b). Blocks a b) (zip ids (drop 1 ids)) else [])"

subsection \<open>Before anything is created\<close>

type_synonym fanout_exit = "FanoutResult \<times> fanout_effect list"

text \<open>The specification: refused, or the entries to spawn, the children there are and the result so far.\<close>

definition fanout_findings :: "(rat \<Rightarrow> string) \<Rightarrow> (string \<Rightarrow> yaml option) \<Rightarrow> FanoutWorld \<Rightarrow> FanoutOptions \<Rightarrow> FanoutConfig \<Rightarrow>
    fanout_exit + FanoutParent \<times> Finding list" where
  "fanout_findings num json w opts config =
     (if \<not> wf_label (child_workflow config)
      then Inl (refuse_fanout [(- 1, ChildNotWorkflow (child_workflow config))] empty_result, [])
      else case fw_parent w of None \<Rightarrow> Inl (fail_fanout (- 1) ParentContextUnread empty_result, [])
      | Some p \<Rightarrow>
      let findings = map withFindingMetadata (case fo_findings opts of Some fs \<Rightarrow> fs
                       | None \<Rightarrow> extractSpecFindings num json (fp_description p) (spec_source config));
          engineering = filter isEngineeringSolicitFinding findings
      in if findings = [] then Inl (refuse_fanout [(- 1, NoEntriesFound (spec_source config))] empty_result, [])
      else if toLowerCase (spec_source config) = ''solicitations'' \<and> child_workflow config = ''wf:task'' \<and> engineering \<noteq> []
      then Inl (refuse_fanout [(int (the (find_index_from 0 isEngineeringSolicitFinding findings)),
                                EngineeringSolicit (map fi_title engineering))] empty_result, [])
      else case find_index_from 0 unsupportedArmType findings of
        Some n \<Rightarrow> Inl (refuse_fanout [(int n, ImplementationSeed (fi_title (findings ! n)))] empty_result, [])
      | None \<Rightarrow>
      case validateSprintChildTitleShapes findings (child_workflow config) of
        Some (n, t) \<Rightarrow> Inl (refuse_fanout [(int n, InvalidSprintTitle t)] empty_result, [TitleRefusedComment])
      | None \<Rightarrow> Inr (p, findings))"

definition matched_existing :: "Finding list \<Rightarrow> ExistingChild list \<Rightarrow> string list" where
  "matched_existing findings existing =
     map ec_identifier (filter (\<lambda>c. Some (ec_specEntryId c) \<in> fi_id ` set findings \<and> ec_specEntryId c \<noteq> [] \<and> \<not> isEscapedSpawnChild c) existing)"

definition partition_result :: "DedupeResult \<Rightarrow> Finding list \<Rightarrow> ExistingChild list \<Rightarrow> FanoutResult" where
  "partition_result d findings existing =
     empty_result\<lparr>fr_unmatched := map ec_identifier (dd_unmatched d), fr_attempted := length (dd_toSpawn d),
       fr_specMatched := matched_existing findings existing\<rparr>"

text \<open>The declared initial states of the entries, and the definitions loaded for them.\<close>

fun check_targets :: "FanoutWorld \<Rightarrow> string \<Rightarrow> (nat \<times> Finding) list \<Rightarrow> registry \<Rightarrow> (int \<times> fanout_error) + registry" where
  "check_targets w cw [] reg = Inr reg"
| "check_targets w cw ((n, f) # fs) reg =
     (if \<not> truthy (fi_target_state f) then check_targets w cw fs reg
      else let l = workflow_of cw f; s = the (fi_target_state f);
               reg' = (if workflowDefForLabel reg l = None then snd (load_def w l reg) else reg)
           in case workflowDefForLabel reg' l of
                None \<Rightarrow> Inl (int n, TargetUndefined (fi_title f) s l)
              | Some d \<Rightarrow> if List.find (\<lambda>x. s_id x = s) (d_states d) = None then Inl (int n, TargetNotThere (fi_title f) s l)
                          else check_targets w cw fs reg')"

definition preview_input :: "string \<Rightarrow> Finding \<Rightarrow> FindingInput" where
  "preview_input cw f = \<lparr>fin_title = fi_title f, fin_description = fi_description f, fin_child_workflow = Some (workflow_of cw f)\<rparr>"

text \<open>The preview and the caps: an exit, or the result and effects with the preview.\<close>

definition preview_gate :: "FanoutWorld \<Rightarrow> FanoutOptions \<Rightarrow> FanoutConfig \<Rightarrow> string \<Rightarrow> Finding list \<Rightarrow> FanoutResult \<Rightarrow>
    fanout_exit + fanout_exit" where
  "preview_gate w opts config parentId toSpawn r =
     (if fo_skipPreview opts then Inr (r, [])
      else let pv = generateSpawnPreview (fw_parentOf w) parentId (map (preview_input (child_workflow config)) toSpawn) (fw_caps w);
               r1 = r\<lparr>fr_preview := Some pv\<rparr>
           in if \<not> allowed_by_caps (capResult pv)
              then Inl (refuse_fanout [(- 1, CapExceeded (refusalReason (capResult pv)))] r1, [PreviewComment pv])
              else if requiresApproval pv then Inl (r1\<lparr>fr_pendingApproval := True\<rparr>, [PreviewComment pv])
              else Inr (r1, [PreviewComment pv]))"

definition spawn_if_gate :: "FanoutWorld \<Rightarrow> FanoutConfig \<Rightarrow> FanoutResult \<Rightarrow> fanout_exit + fanout_exit" where
  "spawn_if_gate w config r =
     (case spawn_if config of None \<Rightarrow> Inr (r, [])
      | Some cfg \<Rightarrow>
          (let out = fst (evaluateSpawnIf (fw_spawnIf w) cfg); r1 = r\<lparr>fr_spawnIf := Some out\<rparr> in
           if out = FailedIf then Inl (fail_fanout (- 1) SpawnIfUnread r1, [SpawnIfErrorComment])
           else if out = WaivedIf then Inl (r1, [SpawnIfComment out])
           else Inr (r1, [SpawnIfComment out])))"

definition workflow_labels :: "FanoutConfig \<Rightarrow> Finding list \<Rightarrow> string list" where
  "workflow_labels config toSpawn =
     unique (map (workflow_of (child_workflow config)) toSpawn) @
     (case integration_verify config of Some (v, _) \<Rightarrow> if v = [] then [] else [v] | None \<Rightarrow> [])"

definition label_gate :: "FanoutWorld \<Rightarrow> string \<Rightarrow> FanoutConfig \<Rightarrow> Finding list \<Rightarrow> FanoutResult \<Rightarrow> FanoutResult option" where
  "label_gate w team config toSpawn r =
     (let missing = filter (\<lambda>l. findLabel w team l = None) (workflow_labels config toSpawn) in
      if missing = [] then None
      else Some (refuse_fanout (List.map_filter (\<lambda>(n, f). let l = workflow_of (child_workflow config) f in
             if l \<in> set missing then Some (int n, LabelMissing l) else None) (enumerate 0 toSpawn)) r))"

subsection \<open>The run\<close>

definition mint_all ::
  "FanoutWorld \<Rightarrow> FanoutConfig \<Rightarrow> string \<Rightarrow> FanoutParent \<Rightarrow> ExistingChild list \<Rightarrow> Finding list \<Rightarrow> registry \<Rightarrow> FanoutResult \<Rightarrow> Mint" where
  "mint_all w config parentId p existing toSpawn reg r =
     (let wfLabels = (\<lambda>l. if l \<in> set (workflow_labels config toSpawn) then findLabel w (fp_teamId p) l else None);
          configDelegateId = (if truthy (initial_delegate config) then resolveInitialDelegate w (the (initial_delegate config)) else None);
          start = \<lparr>m_registry = reg, m_stateLabels = [], m_stateIds = [], m_result = r, m_internalIds = [], m_components = [],
                   m_creates = 0, m_effects = []\<rparr>;
          m1 = fold (mint_child w config parentId p existing wfLabels configDelegateId) (enumerate 0 toSpawn) start;
          m2 = m1\<lparr>m_result := (m_result m1)\<lparr>fr_specMatched := fr_specMatched (m_result m1) @ fr_childIdentifiers (m_result m1)\<rparr>\<rparr>;
          m3 = mint_verifies w config parentId p wfLabels configDelegateId (length toSpawn) m2
      in emit (sibling_relations config (m_internalIds m3)) m3)"

definition executeFanout ::
  "(rat \<Rightarrow> string) \<Rightarrow> (string \<Rightarrow> yaml option) \<Rightarrow> FanoutWorld \<Rightarrow> FanoutOptions \<Rightarrow> FanoutConfig \<Rightarrow> string \<Rightarrow> fanout_exit" where
  "executeFanout num json w opts config parentId =
     (case fanout_findings num json w opts config of Inl e \<Rightarrow> e
      | Inr (p, findings) \<Rightarrow>
      let existing = (case fo_existing opts of Some cs \<Rightarrow> cs | None \<Rightarrow> fetchExistingSpawnChildren (fw_nodes w));
          d = dedupeSpawnSpec findings existing (Some (child_workflow config));
          toSpawn = dd_toSpawn d;
          r = partition_result d findings existing;
          notes = (if dd_unmatched d = [] then [] else [UnmatchedNote (map ec_identifier (dd_unmatched d))])
      in if toSpawn = [] then (r, notes)
      else case check_targets w (child_workflow config) (enumerate 0 toSpawn) [] of Inl e \<Rightarrow> (refuse_fanout [e] r, notes)
      | Inr reg \<Rightarrow>
      case spawn_if_gate w config r of Inl (r1, es) \<Rightarrow> (r1, notes @ es)
      | Inr (r1, es1) \<Rightarrow>
      case preview_gate w opts config parentId toSpawn r1 of Inl (r2, es) \<Rightarrow> (r2, notes @ es1 @ es)
      | Inr (r2, es2) \<Rightarrow>
      case label_gate w (fp_teamId p) config toSpawn r2 of Some r3 \<Rightarrow> (r3, notes @ es1 @ es2)
      | None \<Rightarrow>
      let m = mint_all w config parentId p existing toSpawn reg r2
      in (m_result m, notes @ es1 @ es2 @ m_effects m))"

subsection \<open>What the barrier is told\<close>

datatype fanout_verdict = VRefused | VPendingApproval | VWaived | VFailed | VAwaiting "string list"

definition deriveFanoutBarrierOutcome :: "FanoutResult \<Rightarrow> fanout_verdict" where
  "deriveFanoutBarrierOutcome r =
     (if fr_refused r then VRefused
      else if fr_pendingApproval r then VPendingApproval
      else if fr_spawnIf r \<noteq> None \<and> fr_spawnIf r \<noteq> Some Fire then (if fr_spawnIf r = Some FailedIf then VFailed else VWaived)
      else if fr_created r = 0 \<and> fr_errors r \<noteq> [] then VFailed
      else if 0 < fr_attempted r \<and> fr_created r = 0 then VFailed
      else if fr_specMatched r \<noteq> [] then VAwaiting (fr_specMatched r)
      else if 0 < fr_created r then VAwaiting (fr_childIdentifiers r)
      else VWaived)"

subsection \<open>What one minting does\<close>

definition children :: "fanout_effect list \<Rightarrow> ChildInput list" where
  "children es = List.map_filter (\<lambda>e. case e of ChildCreate c \<Rightarrow> Some c | _ \<Rightarrow> None) es"

lemma children_simps [simp]:
  "children [] = []" "children (es @ fs) = children es @ children fs" "children (map LabelMade cs) = []"
  "children (ChildCreate c # es) = c # children es" "children (WakeChild a i # es) = children es"
  "children (DispatchRecorded a i # es) = children es" "children (Blocks a i # es) = children es"
  "children (PreviewComment pv # es) = children es" "children (UnmatchedNote u # es) = children es"
  "children (SpawnIfComment s # es) = children es" "children (SpawnIfErrorComment # es) = children es"
  "children (TitleRefusedComment # es) = children es"
  by (simp_all add: children_def List.map_filter_def filter_empty_conv)

lemma children_blocks [simp]: "children (map (\<lambda>(a, b). Blocks a b) xs) = []" "children (map (\<lambda>(c, _, _). Blocks c i) ys) = []"
  by (auto simp: children_def List.map_filter_def filter_empty_conv)

lemma children_relations [simp]: "children (sibling_relations config ids) = []"
  by (simp add: sibling_relations_def)

definition same_run :: "Mint \<Rightarrow> Mint \<Rightarrow> bool" where
  "same_run m m' = (m_result m' = m_result m \<and> m_internalIds m' = m_internalIds m \<and> m_components m' = m_components m \<and>
     m_creates m' = m_creates m \<and> children (m_effects m') = children (m_effects m))"

lemma emit_simps [simp]:
  "m_result (emit es m) = m_result m" "m_effects (emit es m) = m_effects m @ es" "m_components (emit es m) = m_components m"
  "m_internalIds (emit es m) = m_internalIds m" "m_registry (emit es m) = m_registry m" "m_creates (emit es m) = m_creates m"
  "m_stateLabels (emit es m) = m_stateLabels m" "m_stateIds (emit es m) = m_stateIds m"
  by (simp_all add: emit_def)

lemma mint_error_simps [simp]:
  "m_result (mint_error n e m) = fail_fanout n e (m_result m)" "m_effects (mint_error n e m) = m_effects m"
  "m_components (mint_error n e m) = m_components m" "m_internalIds (mint_error n e m) = m_internalIds m"
  by (simp_all add: mint_error_def)

lemma state_label_keeps: "state_label_id w team n name m = (i, m') \<Longrightarrow> same_run m m'"
  by (auto simp: state_label_id_def same_run_def split: option.splits prod.splits)

lemma native_id_keeps: "native_id_of w key cwf l m = (i, m') \<Longrightarrow> same_run m m'"
  by (auto simp: native_id_of_def same_run_def split: option.splits prod.splits)

text \<open>A result counts what was created, one identifier each; one more entry was handled by a child or an error.\<close>

definition flags :: "FanoutResult \<Rightarrow> bool \<times> bool \<times> SpawnIfOutcome option \<times> nat \<times> string list \<times> SpawnPreview option" where
  "flags r = (fr_refused r, fr_pendingApproval r, fr_spawnIf r, fr_attempted r, fr_unmatched r, fr_preview r)"

definition handled :: "FanoutResult \<Rightarrow> FanoutResult \<Rightarrow> bool" where
  "handled r r' = (flags r' = flags r \<and>
     ((\<exists>n e. fr_errors r' = fr_errors r @ [(n, e)] \<and> fr_created r' = fr_created r \<and> fr_childIdentifiers r' = fr_childIdentifiers r) \<or>
      (\<exists>i. fr_errors r' = fr_errors r \<and> fr_created r' = fr_created r + 1 \<and> fr_childIdentifiers r' = fr_childIdentifiers r @ [i])))"

lemma handled_error: "handled r (fail_fanout n e r)"
  by (auto simp: handled_def flags_def fail_fanout_def)

lemma created_child_does:
  "handled (m_result m) (m_result (created_child w config cwf l d f child m)) \<and>
   fr_specMatched (m_result (created_child w config cwf l d f child m)) = fr_specMatched (m_result m) \<and>
   children (m_effects (created_child w config cwf l d f child m)) = children (m_effects m) \<and>
   length (m_components (created_child w config cwf l d f child m)) = Suc (length (m_components m))"
  by (auto simp: created_child_def Let_def handled_def flags_def split: prod.splits)

definition declared :: "FanoutWorld \<Rightarrow> FanoutConfig \<Rightarrow> string \<Rightarrow> FanoutParent \<Rightarrow> ExistingChild list \<Rightarrow> (string \<Rightarrow> string option) \<Rightarrow>
    Finding \<Rightarrow> ChildInput \<Rightarrow> bool" where
  "declared w config parentId p existing wfLabels f c =
     (let l = workflow_of (child_workflow config) f in
      title_refusal existing l (fi_title f) = None \<and> ci_title c = fi_title f \<and> ci_description c = child_description parentId f \<and>
      ci_parentId c = fp_internalId p \<and> ci_teamId c = fp_teamId p \<and>
      (\<exists>wl sl. wfLabels l = Some wl \<and> ci_labelIds c = [wl, sl]))"

lemma mint_child_does:
  assumes "m' = mint_child w config parentId p existing wfLabels cd (n, f) m"
  shows "handled (m_result m) (m_result m') \<and> fr_specMatched (m_result m') = fr_specMatched (m_result m) \<and>
    (children (m_effects m') = children (m_effects m) \<or>
     (\<exists>c. children (m_effects m') = children (m_effects m) @ [c] \<and> declared w config parentId p existing wfLabels f c))"
proof -
  note err = handled_error fail_fanout_def
  let ?l = "workflow_of (child_workflow config) f"
  show ?thesis
  proof (cases "title_refusal existing ?l (fi_title f)")
    case (Some e)
    then show ?thesis using assms by (simp add: mint_child_def handled_error) (simp add: fail_fanout_def)
  next
    case None
    note t = None
    show ?thesis
    proof (cases "wfLabels ?l")
      case None
      then show ?thesis using assms t by (simp add: mint_child_def handled_error) (simp add: fail_fanout_def)
    next
      case (Some wl)
      obtain entryLabel reg where e: "(if truthy (fi_target_state f) then (Some (''state:'' @ the (fi_target_state f)), m_registry m)
          else lookupEntryState w ?l (m_registry m)) = (entryLabel, reg)" by (metis surj_pair)
      let ?sl = "orElse entryLabel ''state:todo''"
      obtain si m1 where s: "state_label_id w (fp_teamId p) n ?sl (m\<lparr>m_registry := reg\<rparr>) = (si, m1)" by (metis surj_pair)
      have k1: "same_run m m1" using state_label_keeps [OF s] by (simp add: same_run_def)
      show ?thesis
      proof (cases si)
        case None
        then have "m' = mint_error (int n) (StateLabelUnresolved ?sl ?l) m1"
          using assms t Some e s by (simp add: mint_child_def Let_def)
        then show ?thesis using k1 by (simp add: same_run_def handled_error) (simp add: fail_fanout_def)
      next
        case si: (Some sl)
        obtain ni m2 where n2: "native_id_of w (?l @ ''|'' @ ?sl) ?l (Some ?sl) m1 = (ni, m2)" by (metis surj_pair)
        have k2: "same_run m m2" using native_id_keeps [OF n2] k1 by (simp add: same_run_def)
        define c where "c = \<lparr>ci_teamId = fp_teamId p, ci_title = fi_title f, ci_description = child_description parentId f,
            ci_parentId = fp_internalId p, ci_labelIds = [wl, sl],
            ci_delegateId = (let d = (if truthy (fi_delegate f) then resolveInitialDelegate w (the (fi_delegate f)) else cd)
              in if truthy d then d else None),
            ci_stateId = (if truthy ni then ni else None)\<rparr>"
        define m3 where "m3 = (emit [ChildCreate c] m2)\<lparr>m_creates := m_creates m2 + 1\<rparr>"
        have "m' = (case fw_create w (m_creates m2) of None \<Rightarrow> mint_error (int n) (CreateFailed (fi_title f)) m3
            | Some child \<Rightarrow> created_child w config ?l ?sl
                (if truthy (fi_delegate f) then resolveInitialDelegate w (the (fi_delegate f)) else cd) f child m3)"
          using assms t Some e s n2 si
          by (cases "fw_create w (m_creates m2)") (simp_all add: mint_child_def Let_def m3_def c_def)
        moreover have m3: "m_result m3 = m_result m" "children (m_effects m3) = children (m_effects m) @ [c]"
          using k2 by (simp_all add: m3_def same_run_def)
        moreover note created_child_does [where m = m3, unfolded m3]
        ultimately have "handled (m_result m) (m_result m') \<and> fr_specMatched (m_result m') = fr_specMatched (m_result m) \<and>
            children (m_effects m') = children (m_effects m) @ [c]"
          by (cases "fw_create w (m_creates m2)") (simp_all add: handled_error, simp add: fail_fanout_def)
        moreover have "declared w config parentId p existing wfLabels f c"
          using t Some by (simp add: declared_def c_def Let_def)
        ultimately show ?thesis by blast
      qed
    qed
  qed
qed

subsection \<open>What a whole run does\<close>

definition grew :: "bool \<Rightarrow> nat \<Rightarrow> FanoutResult \<Rightarrow> FanoutResult \<Rightarrow> bool" where
  "grew b k r r' = (flags r' = flags r \<and>
     (\<exists>es ids. fr_errors r' = fr_errors r @ es \<and> fr_childIdentifiers r' = fr_childIdentifiers r @ ids \<and>
        fr_created r' = fr_created r + length ids \<and> length es + length ids = k \<and>
        fr_specMatched r' = fr_specMatched r @ (if b then ids else [])))"

lemma grewI:
  "flags r' = flags r \<Longrightarrow> fr_errors r' = fr_errors r @ es \<Longrightarrow> fr_childIdentifiers r' = fr_childIdentifiers r @ ids \<Longrightarrow>
   fr_created r' = fr_created r + length ids \<Longrightarrow> length es + length ids = k \<Longrightarrow>
   fr_specMatched r' = fr_specMatched r @ (if b then ids else []) \<Longrightarrow> grew b k r r'"
  unfolding grew_def by blast

lemma grew_refl: "grew b 0 r r"
  by (rule grewI [of _ _ "[]" "[]"]) simp_all

lemma grew_trans:
  assumes "grew b j r1 r2" and "grew b k r2 r3"
  shows "grew b (j + k) r1 r3"
proof -
  obtain es ids where 1: "flags r2 = flags r1" "fr_errors r2 = fr_errors r1 @ es" "fr_childIdentifiers r2 = fr_childIdentifiers r1 @ ids"
    "fr_created r2 = fr_created r1 + length ids" "length es + length ids = j"
    "fr_specMatched r2 = fr_specMatched r1 @ (if b then ids else [])" using assms(1) unfolding grew_def by blast
  obtain fs jds where 2: "flags r3 = flags r2" "fr_errors r3 = fr_errors r2 @ fs" "fr_childIdentifiers r3 = fr_childIdentifiers r2 @ jds"
    "fr_created r3 = fr_created r2 + length jds" "length fs + length jds = k"
    "fr_specMatched r3 = fr_specMatched r2 @ (if b then jds else [])" using assms(2) unfolding grew_def by blast
  show ?thesis by (rule grewI [of _ _ "es @ fs" "ids @ jds"]) (use 1 2 in simp_all)
qed

lemma handled_grew: "handled r r' \<Longrightarrow> fr_specMatched r' = fr_specMatched r \<Longrightarrow> grew False 1 r r'"
proof -
  assume h: "handled r r'" and s: "fr_specMatched r' = fr_specMatched r"
  then consider n e where "fr_errors r' = fr_errors r @ [(n, e)]" "fr_created r' = fr_created r" "fr_childIdentifiers r' = fr_childIdentifiers r"
    | i where "fr_errors r' = fr_errors r" "fr_created r' = fr_created r + 1" "fr_childIdentifiers r' = fr_childIdentifiers r @ [i]"
    unfolding handled_def by blast
  then show ?thesis
  proof cases
    case (1 n e)
    then show ?thesis using h s by (intro grewI [of _ _ "[(n, e)]" "[]"]) (simp_all add: handled_def)
  next
    case (2 i)
    then show ?thesis using h s by (intro grewI [of _ _ "[]" "[i]"]) (simp_all add: handled_def)
  qed
qed

lemma mint_fold:
  "\<exists>cs. children (m_effects (fold (mint_child w config parentId p existing wfLabels cd) xs m)) = children (m_effects m) @ cs \<and>
     length cs \<le> length xs \<and> (\<forall>c \<in> set cs. \<exists>f \<in> snd ` set xs. declared w config parentId p existing wfLabels f c) \<and>
     grew False (length xs) (m_result m) (m_result (fold (mint_child w config parentId p existing wfLabels cd) xs m))"
proof (induction xs arbitrary: m)
  case (Cons x xs)
  obtain n f where x: "x = (n, f)" by (cases x)
  let ?m = "mint_child w config parentId p existing wfLabels cd x m"
  have one: "handled (m_result m) (m_result ?m)" "fr_specMatched (m_result ?m) = fr_specMatched (m_result m)"
    "children (m_effects ?m) = children (m_effects m) \<or>
     (\<exists>c. children (m_effects ?m) = children (m_effects m) @ [c] \<and> declared w config parentId p existing wfLabels f c)"
    using mint_child_does [of ?m w config parentId p existing wfLabels cd n f m] x by blast+
  have g: "grew False (Suc (length xs)) (m_result m) (m_result (fold (mint_child w config parentId p existing wfLabels cd) xs ?m))"
    using grew_trans [OF handled_grew [OF one(1,2)], of "length xs"] Cons.IH [of ?m] by auto
  obtain cs where cs: "children (m_effects (fold (mint_child w config parentId p existing wfLabels cd) xs ?m)) = children (m_effects ?m) @ cs"
    "length cs \<le> length xs" "\<forall>c \<in> set cs. \<exists>f \<in> snd ` set xs. declared w config parentId p existing wfLabels f c"
    using Cons.IH [of ?m] by blast
  from one(3) show ?case
  proof
    assume "children (m_effects ?m) = children (m_effects m)"
    then show ?thesis using cs g by (intro exI [of _ cs]) auto
  next
    assume "\<exists>c. children (m_effects ?m) = children (m_effects m) @ [c] \<and> declared w config parentId p existing wfLabels f c"
    then obtain c where "children (m_effects ?m) = children (m_effects m) @ [c]" "declared w config parentId p existing wfLabels f c" by blast
    then show ?thesis using cs g x by (intro exI [of _ "c # cs"]) auto
  qed
qed (simp add: grew_refl)

text \<open>The verification children.\<close>

definition verification :: "FanoutParent \<Rightarrow> string \<Rightarrow> ChildInput \<Rightarrow> bool" where
  "verification p wl c = ((\<exists>capability. ci_title c = ''Integration verify: '' @ capability) \<and> ci_parentId c = fp_internalId p \<and>
     ci_teamId c = fp_teamId p \<and> (\<exists>sl. ci_labelIds c = [wl, sl]))"

lemma mint_verify_does:
  assumes "m' = mint_verify w config parentId p v wl cd (n, capability, comps) m"
  shows "grew True 1 (m_result m) (m_result m') \<and>
    (children (m_effects m') = children (m_effects m) \<or>
     (\<exists>c. children (m_effects m') = children (m_effects m) @ [c] \<and> verification p wl c))"
proof -
  obtain entryLabel reg where e: "lookupEntryState w v (m_registry m) = (entryLabel, reg)" by (metis surj_pair)
  let ?sl = "orElse entryLabel ''state:intake''"
  obtain si m1 where s: "state_label_id w (fp_teamId p) n ?sl (m\<lparr>m_registry := reg\<rparr>) = (si, m1)" by (metis surj_pair)
  have k1: "same_run m m1" using state_label_keeps [OF s] by (simp add: same_run_def)
  have err: "grew True 1 r (fail_fanout k er r)" for k er r
    by (rule grewI [of _ _ "[(k, er)]" "[]"]) (simp_all add: fail_fanout_def flags_def)
  show ?thesis
  proof (cases si)
    case None
    then have "m' = mint_error (- 1) (VerifyStateUnresolved ?sl) m1" using assms e s by (simp add: mint_verify_def Let_def)
    then show ?thesis using k1 err by (simp add: same_run_def)
  next
    case (Some sl)
    obtain ni m2 where n2: "native_id_of w v v None m1 = (ni, m2)" by (metis surj_pair)
    have k2: "same_run m m2" using native_id_keeps [OF n2] k1 by (simp add: same_run_def)
    define c where "c = \<lparr>ci_teamId = fp_teamId p, ci_title = ''Integration verify: '' @ capability,
        ci_description = verify_description parentId capability comps, ci_parentId = fp_internalId p,
        ci_labelIds = [wl, sl], ci_delegateId = (if truthy cd then cd else None), ci_stateId = (if truthy ni then ni else None)\<rparr>"
    define m3 where "m3 = (emit [ChildCreate c] m2)\<lparr>m_creates := m_creates m2 + 1\<rparr>"
    have m3: "m_result m3 = m_result m" "children (m_effects m3) = children (m_effects m) @ [c]"
      using k2 by (simp_all add: m3_def same_run_def)
    have "verification p wl c" by (simp add: verification_def c_def)
    moreover have "grew True 1 (m_result m) (m_result m') \<and> children (m_effects m') = children (m_effects m) @ [c]"
    proof (cases "fw_create w (m_creates m2)")
      case None
      then have "m' = mint_error (- 1) (VerifyCreateFailed capability) m3"
        using assms e s Some n2 by (simp add: mint_verify_def Let_def m3_def c_def)
      then show ?thesis using m3 err by simp
    next
      case created: (Some child)
      obtain a i where child: "child = (a, i)" by (cases child)
      have "children (m_effects m') = children (m_effects m) @ [c]"
        and "\<exists>ds. m_result m' = (m_result m)\<lparr>fr_created := fr_created (m_result m) + 1,
          fr_childIdentifiers := fr_childIdentifiers (m_result m) @ [i], fr_delegates := ds, fr_specMatched := fr_specMatched (m_result m) @ [i]\<rparr>"
        using assms e s Some n2 created child m3 by (auto simp: mint_verify_def Let_def m3_def c_def)
      moreover from this(2) have "grew True 1 (m_result m) (m_result m')"
        by (elim exE) (rule grewI [of _ _ "[]" "[i]"], simp_all add: flags_def)
      ultimately show ?thesis by blast
    qed
    ultimately show ?thesis by blast
  qed
qed

lemma verify_fold:
  "\<exists>cs. children (m_effects (fold (mint_verify w config parentId p v wl cd) xs m)) = children (m_effects m) @ cs \<and>
     length cs \<le> length xs \<and> (\<forall>c \<in> set cs. verification p wl c) \<and>
     grew True (length xs) (m_result m) (m_result (fold (mint_verify w config parentId p v wl cd) xs m))"
proof (induction xs arbitrary: m)
  case (Cons x xs)
  obtain n cap comps where x: "x = (n, cap, comps)" by (cases x)
  let ?m = "mint_verify w config parentId p v wl cd x m"
  have one: "grew True 1 (m_result m) (m_result ?m)"
    "children (m_effects ?m) = children (m_effects m) \<or> (\<exists>c. children (m_effects ?m) = children (m_effects m) @ [c] \<and> verification p wl c)"
    using mint_verify_does [of ?m w config parentId p v wl cd n cap comps m] x by blast+
  have g: "grew True (Suc (length xs)) (m_result m) (m_result (fold (mint_verify w config parentId p v wl cd) xs ?m))"
    using grew_trans [OF one(1), of "length xs"] Cons.IH [of ?m] by auto
  obtain cs where cs: "children (m_effects (fold (mint_verify w config parentId p v wl cd) xs ?m)) = children (m_effects ?m) @ cs"
    "length cs \<le> length xs" "\<forall>c \<in> set cs. verification p wl c" using Cons.IH [of ?m] by blast
  from one(2) show ?case
  proof
    assume "children (m_effects ?m) = children (m_effects m)"
    then show ?thesis using cs g by (intro exI [of _ cs]) auto
  next
    assume "\<exists>c. children (m_effects ?m) = children (m_effects m) @ [c] \<and> verification p wl c"
    then obtain c where "children (m_effects ?m) = children (m_effects m) @ [c]" "verification p wl c" by blast
    then show ?thesis using cs g by (intro exI [of _ "c # cs"]) auto
  qed
qed (simp add: grew_refl)

lemma mint_verifies_does:
  "\<exists>k cs. grew True k (m_result m) (m_result (mint_verifies w config parentId p wfLabels cd n m)) \<and>
     children (m_effects (mint_verifies w config parentId p wfLabels cd n m)) = children (m_effects m) @ cs \<and> length cs \<le> k \<and>
     (\<forall>c \<in> set cs. \<exists>v wl. wfLabels v = Some wl \<and> verification p wl c)"
proof -
  have idle: "\<exists>k cs. grew True k (m_result m) (m_result m) \<and> children (m_effects m) = children (m_effects m) @ cs \<and> length cs \<le> k \<and>
     (\<forall>c \<in> set cs. \<exists>v wl. wfLabels v = Some wl \<and> verification p wl c)"
    by (rule exI [of _ 0], rule exI [of _ "[]"]) (simp add: grew_refl)
  have unlabelled: "grew True 1 (m_result m) (fail_fanout k e (m_result m))" for k e
    by (rule grewI [of _ _ "[(k, e)]" "[]"]) (simp_all add: fail_fanout_def flags_def)
  show ?thesis
  proof (cases "integration_verify config")
    case None
    then have m: "mint_verifies w config parentId p wfLabels cd n m = m" by (simp add: mint_verifies_def)
    show ?thesis unfolding m by (fact idle)
  next
    case (Some iv)
    obtain v per b where iv: "iv = (v, per, b)" by (cases iv)
    show ?thesis
    proof (cases "per \<and> b = ''capability-components'' \<and> m_components m \<noteq> []")
      case False
      then have m: "mint_verifies w config parentId p wfLabels cd n m = m" using Some iv by (auto simp: mint_verifies_def)
      show ?thesis unfolding m by (fact idle)
    next
      case True
      show ?thesis
      proof (cases "wfLabels v")
        case None
        then have "mint_verifies w config parentId p wfLabels cd n m = mint_error (- 1) (VerifyLabelUnresolved v) m"
          using Some iv True by (simp add: mint_verifies_def)
        then show ?thesis using unlabelled by (intro exI [of _ 1] exI [of _ "[]"]) simp
      next
        case wl: (Some wl)
        let ?xs = "enumerate n (capability_groups (m_components m))"
        have "mint_verifies w config parentId p wfLabels cd n m = fold (mint_verify w config parentId p v wl cd) ?xs m"
          using Some iv True wl by (simp add: mint_verifies_def)
        then show ?thesis using verify_fold [of w config parentId p v wl cd ?xs m] wl
          by (intro exI [of _ "length ?xs"]) auto
      qed
    qed
  qed
qed

definition fanout_label :: "FanoutWorld \<Rightarrow> FanoutConfig \<Rightarrow> FanoutParent \<Rightarrow> Finding list \<Rightarrow> string \<Rightarrow> string option" where
  "fanout_label w config p toSpawn l = (if l \<in> set (workflow_labels config toSpawn) then findLabel w (fp_teamId p) l else None)"

lemma mint_all_does:
  assumes "fr_childIdentifiers r = []"
  shows "\<exists>k cs vs. grew True k r (m_result (mint_all w config parentId p existing toSpawn reg r)) \<and> length toSpawn \<le> k \<and>
    children (m_effects (mint_all w config parentId p existing toSpawn reg r)) = cs @ vs \<and> length (cs @ vs) \<le> k \<and> length cs \<le> length toSpawn \<and>
    (\<forall>c \<in> set cs. \<exists>f \<in> set toSpawn. declared w config parentId p existing (fanout_label w config p toSpawn) f c) \<and>
    (\<forall>c \<in> set vs. \<exists>v wl. fanout_label w config p toSpawn v = Some wl \<and> verification p wl c)"
proof -
  let ?L = "fanout_label w config p toSpawn"
  let ?cd = "if truthy (initial_delegate config) then resolveInitialDelegate w (the (initial_delegate config)) else None"
  define start where "start = \<lparr>m_registry = reg, m_stateLabels = [], m_stateIds = [], m_result = r, m_internalIds = [], m_components = [],
                   m_creates = 0, m_effects = []\<rparr>"
  define m1 where "m1 = fold (mint_child w config parentId p existing ?L ?cd) (enumerate 0 toSpawn) start"
  define m2 where "m2 = m1\<lparr>m_result := (m_result m1)\<lparr>fr_specMatched := fr_specMatched (m_result m1) @ fr_childIdentifiers (m_result m1)\<rparr>\<rparr>"
  define m3 where "m3 = mint_verifies w config parentId p ?L ?cd (length toSpawn) m2"
  have L: "(\<lambda>l. if l \<in> set (workflow_labels config toSpawn) then findLabel w (fp_teamId p) l else None) = ?L"
    by (auto simp: fanout_label_def)
  have run: "mint_all w config parentId p existing toSpawn reg r = emit (sibling_relations config (m_internalIds m3)) m3"
    unfolding mint_all_def L Let_def by (simp add: m3_def m2_def m1_def start_def)
  obtain cs where cs: "children (m_effects m1) = children (m_effects start) @ cs" "length cs \<le> length toSpawn"
    "\<forall>c \<in> set cs. \<exists>f \<in> set toSpawn. declared w config parentId p existing ?L f c" "grew False (length toSpawn) (m_result start) (m_result m1)"
    using mint_fold [of w config parentId p existing ?L ?cd "enumerate 0 toSpawn" start]
    by (auto simp: m1_def length_enumerate simp flip: set_map)
  obtain es ids where g: "flags (m_result m1) = flags r" "fr_errors (m_result m1) = fr_errors r @ es" "fr_childIdentifiers (m_result m1) = ids"
    "fr_created (m_result m1) = fr_created r + length ids" "length es + length ids = length toSpawn"
    "fr_specMatched (m_result m1) = fr_specMatched r"
    using cs(4) assms unfolding grew_def start_def by auto
  have g2: "grew True (length toSpawn) r (m_result m2)"
    by (rule grewI [of _ _ es ids]) (use g assms in \<open>simp_all add: m2_def flags_def\<close>)
  obtain k vs where v: "grew True k (m_result m2) (m_result m3)" "children (m_effects m3) = children (m_effects m2) @ vs" "length vs \<le> k"
    "\<forall>c \<in> set vs. \<exists>v wl. ?L v = Some wl \<and> verification p wl c"
    using mint_verifies_does [of m2 w config parentId p ?L ?cd "length toSpawn"] unfolding m3_def by blast
  have "grew True (length toSpawn + k) r (m_result m3)" by (rule grew_trans [OF g2 v(1)])
  moreover have "children (m_effects m3) = cs @ vs" using v(2) cs(1) by (simp add: m2_def start_def)
  ultimately show ?thesis using cs(2,3) v(3,4) run
    by (intro exI [of _ "length toSpawn + k"] exI [of _ cs] exI [of _ vs]) simp
qed

text \<open>A run either ends before minting, with no request for a child, or mints after every check has passed.\<close>

definition early_exit :: "fanout_exit \<Rightarrow> bool" where
  "early_exit x = (children (snd x) = [] \<and> fr_created (fst x) = 0 \<and> fr_childIdentifiers (fst x) = [])"

lemma findings_exit: "fanout_findings num json w opts config = Inl x \<Longrightarrow> early_exit x"
  by (auto simp: fanout_findings_def early_exit_def empty_result_def refuse_fanout_def fail_fanout_def Let_def
      split: if_splits option.splits prod.splits)

lemma spawn_if_exit: "spawn_if_gate w config r = Inl x \<Longrightarrow> fr_created r = 0 \<Longrightarrow> fr_childIdentifiers r = [] \<Longrightarrow> early_exit x"
  by (auto simp: spawn_if_gate_def early_exit_def fail_fanout_def Let_def split: if_splits option.splits)

lemma spawn_if_pass:
  "spawn_if_gate w config r = Inr (r', es) \<Longrightarrow> children es = [] \<and> fr_created r' = fr_created r \<and> fr_childIdentifiers r' = fr_childIdentifiers r \<and>
     fr_errors r' = fr_errors r \<and> fr_refused r' = fr_refused r \<and> fr_pendingApproval r' = fr_pendingApproval r \<and> fr_attempted r' = fr_attempted r \<and>
     fr_specMatched r' = fr_specMatched r \<and> fr_spawnIf r' \<in> {fr_spawnIf r, Some Fire} \<and>
     (\<forall>cfg. spawn_if config = Some cfg \<longrightarrow> fst (evaluateSpawnIf (fw_spawnIf w) cfg) = Fire)"
  by (cases "case spawn_if config of None \<Rightarrow> Fire | Some cfg \<Rightarrow> fst (evaluateSpawnIf (fw_spawnIf w) cfg)")
     (auto simp: spawn_if_gate_def Let_def split: if_splits option.splits)

lemma preview_exit: "preview_gate w opts config parentId toSpawn r = Inl x \<Longrightarrow> fr_created r = 0 \<Longrightarrow> fr_childIdentifiers r = [] \<Longrightarrow> early_exit x"
  by (auto simp: preview_gate_def early_exit_def refuse_fanout_def Let_def split: if_splits)

lemma preview_pass:
  "preview_gate w opts config parentId toSpawn r = Inr (r', es) \<Longrightarrow> children es = [] \<and> fr_created r' = fr_created r \<and>
     fr_childIdentifiers r' = fr_childIdentifiers r \<and> fr_errors r' = fr_errors r \<and> fr_refused r' = fr_refused r \<and>
     fr_pendingApproval r' = fr_pendingApproval r \<and> fr_attempted r' = fr_attempted r \<and> fr_specMatched r' = fr_specMatched r \<and>
     fr_spawnIf r' = fr_spawnIf r \<and>
     (fo_skipPreview opts \<or> int (resolveDepth (fw_parentOf w) parentId) < maxDepth (fw_caps w) \<and>
        int (length toSpawn) \<le> maxChildren (fw_caps w) \<and> int (length toSpawn) \<le> approvalAbove (fw_caps w))"
  by (auto simp: preview_gate_def generateSpawnPreview_def caps_allow caps_approval length_enumerate Let_def split: if_splits)

lemma label_exit: "label_gate w team config toSpawn r = Some r' \<Longrightarrow> fr_refused r' \<and> fr_created r' = fr_created r \<and> fr_childIdentifiers r' = fr_childIdentifiers r"
  by (auto simp: label_gate_def refuse_fanout_def Let_def split: if_splits)

lemma label_pass: "label_gate w team config toSpawn r = None \<longleftrightarrow> (\<forall>l \<in> set (workflow_labels config toSpawn). findLabel w team l \<noteq> None)"
  by (auto simp: label_gate_def Let_def filter_empty_conv)

text \<open>The declared initial states are states of loaded definitions.\<close>

definition from_defs :: "FanoutWorld \<Rightarrow> registry \<Rightarrow> bool" where
  "from_defs w reg = (\<forall>k d. map_get reg k = Some d \<longrightarrow> fw_defs w k = Some d)"

lemma load_from_defs: "from_defs w reg \<Longrightarrow> from_defs w (snd (load_def w l reg))"
  by (auto simp: from_defs_def load_def_def split: option.splits)

lemma targets_exist:
  "check_targets w cw fs reg = Inr reg' \<Longrightarrow> from_defs w reg \<Longrightarrow> (n, f) \<in> set fs \<Longrightarrow> truthy (fi_target_state f) \<Longrightarrow>
     \<exists>d. (fw_defs w (workflow_of cw f) = Some d \<or> fw_defs w (def_id (workflow_of cw f)) = Some d) \<and>
       (\<exists>s \<in> set (d_states d). Some (s_id s) = fi_target_state f)"
proof (induction w cw fs reg rule: check_targets.induct)
  case (2 w cw k g fs reg)
  show ?case
  proof (cases "truthy (fi_target_state g)")
    case False
    then show ?thesis using 2 by (auto split: if_splits)
  next
    case True
    let ?l = "workflow_of cw g"
    let ?reg = "if workflowDefForLabel reg ?l = None then snd (load_def w ?l reg) else reg"
    obtain d where d: "workflowDefForLabel ?reg ?l = Some d" "List.find (\<lambda>x. s_id x = the (fi_target_state g)) (d_states d) \<noteq> None"
      "check_targets w cw fs ?reg = Inr reg'"
      using 2(3) True by (auto simp: Let_def split: option.splits if_splits)
    have reg: "from_defs w ?reg" using 2(4) load_from_defs by simp
    show ?thesis
    proof (cases "(n, f) = (k, g)")
      case True
      have "fw_defs w ?l = Some d \<or> fw_defs w (def_id ?l) = Some d"
        using d(1) reg by (auto simp: workflowDefForLabel_def from_defs_def split: option.splits)
      moreover have "\<exists>s \<in> set (d_states d). Some (s_id s) = fi_target_state g"
        using d(2) \<open>truthy (fi_target_state g)\<close> by (auto simp: find_None_iff truthy_def split: option.splits)
      ultimately show ?thesis using True by auto
    next
      case False
      then show ?thesis using 2(2) [OF _ refl refl refl d(1) _ d(3) reg] True d(2) 2(5,6) by auto
    qed
  qed
qed simp

text \<open>Where a run that asks for a child has come to.\<close>

lemma fanout_cases:
  assumes "executeFanout num json w opts config parentId = (r, es)"
  obtains (stopped) "children es = []" "fr_created r = 0" "fr_childIdentifiers r = []"
      "fr_refused r \<or> fr_pendingApproval r \<or> fr_errors r \<noteq> [] \<or> fr_spawnIf r = Some WaivedIf \<or> fr_attempted r = 0"
  | (minted) p findings reg r2 existing toSpawn where
      "fanout_findings num json w opts config = Inr (p, findings)"
      "existing = (case fo_existing opts of Some cs \<Rightarrow> cs | None \<Rightarrow> fetchExistingSpawnChildren (fw_nodes w))"
      "toSpawn = dd_toSpawn (dedupeSpawnSpec findings existing (Some (child_workflow config)))" "toSpawn \<noteq> []"
      "check_targets w (child_workflow config) (enumerate 0 toSpawn) [] = Inr reg"
      "\<forall>cfg. spawn_if config = Some cfg \<longrightarrow> fst (evaluateSpawnIf (fw_spawnIf w) cfg) = Fire"
      "fo_skipPreview opts \<or> int (resolveDepth (fw_parentOf w) parentId) < maxDepth (fw_caps w) \<and>
        int (length toSpawn) \<le> maxChildren (fw_caps w) \<and> int (length toSpawn) \<le> approvalAbove (fw_caps w)"
      "\<forall>l \<in> set (workflow_labels config toSpawn). findLabel w (fp_teamId p) l \<noteq> None"
      "r = m_result (mint_all w config parentId p existing toSpawn reg r2)"
      "children es = children (m_effects (mint_all w config parentId p existing toSpawn reg r2))"
      "fr_created r2 = 0" "fr_childIdentifiers r2 = []" "fr_errors r2 = []" "\<not> fr_refused r2" "\<not> fr_pendingApproval r2"
      "fr_attempted r2 = length toSpawn" "fr_specMatched r2 = matched_existing findings existing" "fr_spawnIf r2 \<in> {None, Some Fire}"
proof (cases "fanout_findings num json w opts config")
  case (Inl x)
  then have x: "x = (r, es)" using assms by (simp add: executeFanout_def)
  have "fr_refused r \<or> fr_errors r \<noteq> []" using Inl x
    by (auto simp: fanout_findings_def refuse_fanout_def fail_fanout_def Let_def split: if_splits option.splits prod.splits)
  then show ?thesis using findings_exit [OF Inl] x stopped by (auto simp: early_exit_def)
next
  case (Inr y)
  obtain p findings where y: "y = (p, findings)" by (cases y)
  define existing where "existing = (case fo_existing opts of Some cs \<Rightarrow> cs | None \<Rightarrow> fetchExistingSpawnChildren (fw_nodes w))"
  define d where "d = dedupeSpawnSpec findings existing (Some (child_workflow config))"
  define r0 where "r0 = partition_result d findings existing"
  define orphan_note where "orphan_note = (if dd_unmatched d = [] then [] else [UnmatchedNote (map ec_identifier (dd_unmatched d))])"
  have orphan_note: "children orphan_note = []" by (simp add: orphan_note_def)
  have r0: "fr_created r0 = 0" "fr_childIdentifiers r0 = []" "fr_errors r0 = []" "\<not> fr_refused r0" "\<not> fr_pendingApproval r0"
    "fr_attempted r0 = length (dd_toSpawn d)" "fr_specMatched r0 = matched_existing findings existing" "fr_spawnIf r0 = None"
    by (simp_all add: r0_def partition_result_def empty_result_def)
  note run = assms [unfolded executeFanout_def Inr y sum.case prod.case Let_def, folded existing_def, folded d_def, folded r0_def orphan_note_def]
  show ?thesis
  proof (cases "dd_toSpawn d = []")
    case True
    then show ?thesis using run orphan_note r0 stopped by simp
  next
    case spawn: False
    show ?thesis
    proof (cases "check_targets w (child_workflow config) (enumerate 0 (dd_toSpawn d)) []")
      case (Inl e)
      then show ?thesis using run spawn orphan_note r0 stopped by (auto simp: refuse_fanout_def)
    next
      case targets: (Inr reg)
      show ?thesis
      proof (cases "spawn_if_gate w config r0")
        case (Inl x)
        have "fr_errors (fst x) \<noteq> [] \<or> fr_spawnIf (fst x) = Some WaivedIf" using Inl
          by (auto simp: spawn_if_gate_def fail_fanout_def Let_def split: option.splits if_splits)
        then show ?thesis using run spawn targets Inl orphan_note spawn_if_exit [OF Inl r0(1,2)] stopped
          by (auto simp: early_exit_def split: prod.splits)
      next
        case (Inr z)
        obtain r1 es1 where z: "z = (r1, es1)" by (cases z)
        note p1 = spawn_if_pass [OF Inr [unfolded z]]
        show ?thesis
        proof (cases "preview_gate w opts config parentId (dd_toSpawn d) r1")
          case (Inl x)
          have "fr_refused (fst x) \<or> fr_pendingApproval (fst x)" using Inl
            by (auto simp: preview_gate_def refuse_fanout_def Let_def split: if_splits)
          then show ?thesis using run spawn targets Inr z Inl orphan_note p1 preview_exit [OF Inl] r0 stopped
            by (auto simp: early_exit_def split: prod.splits)
        next
          case preview: (Inr u)
          obtain r2 es2 where u: "u = (r2, es2)" by (cases u)
          note p2 = preview_pass [OF preview [unfolded u]]
          show ?thesis
          proof (cases "label_gate w (fp_teamId p) config (dd_toSpawn d) r2")
            case (Some r3)
            then show ?thesis using run spawn targets Inr z preview u orphan_note p1 p2 label_exit [OF Some] r0 stopped by auto
          next
            case None
            have out: "r = m_result (mint_all w config parentId p existing (dd_toSpawn d) reg r2)"
              "es = orphan_note @ es1 @ es2 @ m_effects (mint_all w config parentId p existing (dd_toSpawn d) reg r2)"
              using run spawn targets Inr z preview u None by auto
            show ?thesis
              by (rule minted [of p findings existing "dd_toSpawn d" reg r2])
                 (use \<open>fanout_findings num json w opts config = Inr y\<close> y existing_def d_def spawn targets p1 p2 None label_pass out orphan_note r0 in auto)
          qed
        qed
      qed
    qed
  qed
qed

lemma in_set_indexed: "f \<in> set xs \<Longrightarrow> \<exists>k. (k, f) \<in> set (enumerate 0 xs)"
proof -
  assume "f \<in> set xs"
  then have "f \<in> snd ` set (enumerate 0 xs)" by (simp flip: set_map)
  then show ?thesis by force
qed

lemma children_iff: "c \<in> set (children es) \<longleftrightarrow> ChildCreate c \<in> set es"
  by (induction es) (auto simp: children_def List.map_filter_def split: fanout_effect.splits)

lemma findings_checked:
  "fanout_findings num json w opts config = Inr (p, findings) \<Longrightarrow>
     fw_parent w = Some p \<and> wf_label (child_workflow config) \<and> (\<forall>f \<in> set findings. \<not> unsupportedArmType f) \<and>
     validateSprintChildTitleShapes findings (child_workflow config) = None"
  by (auto simp: fanout_findings_def find_index_None Let_def split: if_splits option.splits prod.splits)


text \<open>
  The barrier is told the truth: a run counts one identifier per child it created; when it created one,
  the barrier awaits all of them and the live children that already stood for an entry, and every
  entry to spawn was created or has left an error; when the barrier is told that there is nothing to
  wait for, no child was even asked for.
\<close>

theorem verdict_accounts_for_children:
  assumes "executeFanout num json w opts config parentId = (r, es)"
  shows "fr_created r = length (fr_childIdentifiers r) \<and>
    (fr_created r \<noteq> 0 \<longrightarrow>
       (\<exists>ids. deriveFanoutBarrierOutcome r = VAwaiting (ids @ fr_childIdentifiers r)) \<and>
       fr_attempted r \<le> fr_created r + length (fr_errors r)) \<and>
    (deriveFanoutBarrierOutcome r = VWaived \<longrightarrow> children es = [])"
proof (cases rule: fanout_cases [OF assms])
  case 1
  then show ?thesis by simp
next
  case minted: (2 p findings reg r2 existing toSpawn)
  obtain k cs vs where m: "grew True k r2 r" "length toSpawn \<le> k" "children es = cs @ vs" "length (cs @ vs) \<le> k"
    using mint_all_does [OF minted(12), of w config parentId p existing toSpawn reg] minted(9,10) by auto
  obtain fs ids where g: "flags r = flags r2" "fr_errors r = fs" "fr_childIdentifiers r = ids" "fr_created r = length ids"
    "length fs + length ids = k" "fr_specMatched r = matched_existing findings existing @ ids"
    using m(1) minted(11,12,13,17) unfolding grew_def by auto
  have f: "\<not> fr_refused r" "\<not> fr_pendingApproval r" "fr_attempted r = length toSpawn" "fr_spawnIf r \<in> {None, Some Fire}"
    using g(1) minted(14,15,16,18) by (auto simp: flags_def)
  have "deriveFanoutBarrierOutcome r = VAwaiting (matched_existing findings existing @ ids)" if "ids \<noteq> []"
    using f g that by (auto simp: deriveFanoutBarrierOutcome_def)
  moreover have "deriveFanoutBarrierOutcome r \<noteq> VWaived"
    using f g minted(4) by (auto simp: deriveFanoutBarrierOutcome_def)
  ultimately show ?thesis using g f m by auto
qed

subsection \<open>Witnesses\<close>

definition plain_label :: "string \<Rightarrow> string \<Rightarrow> LabelNode" where
  "plain_label i n = \<lparr>lb_id = i, lb_name = n, lb_isGroup = False, lb_parent = None, lb_team = None\<rparr>"

definition sample_fanout :: FanoutWorld where
  "sample_fanout = \<lparr>fw_parent = Some \<lparr>fp_internalId = ''p'', fp_teamId = ''t'', fp_description = None\<rparr>, fw_nodes = None,
     fw_spawnIf = ChildrenThrew, fw_parentOf = (\<lambda>_. None), fw_caps = DEFAULT_SPAWN_CAPS,
     fw_teamLabels = (\<lambda>_. Some [plain_label ''l1'' ''wf:task'', plain_label ''l3'' ''wf:dev-sprint'']),
     fw_stateLabel = (\<lambda>_ _. \<lparr>lw_labels = Some [plain_label ''l2'' ''state:todo''], lw_create = CreateRefused, lw_workspaceCreate = None\<rparr>),
     fw_defs = (\<lambda>_. None), fw_native = (\<lambda>_. None), fw_agents = [],
     fw_create = (\<lambda>n. if n = 0 then Some (''u1'', ''I-2'') else if n = 1 then Some (''u2'', ''I-3'') else None),
     fw_dispatches = False, fw_wakes = (\<lambda>_. False)\<rparr>"

definition sample_config :: "string \<Rightarrow> FanoutConfig" where
  "sample_config cw = \<lparr>spec_source = ''Spec'', child_workflow = cw, initial_delegate = None, block_siblings = False, spawn_if = None,
    auto_derive_from = None, classification_required = False, classification_field = None, allowed_classifications = [],
    integration_verify = None\<rparr>"

definition entry_of :: "string \<Rightarrow> string \<Rightarrow> Finding" where
  "entry_of t i = (plain_finding t None)\<lparr>fi_id := Some i\<rparr>"

definition sample_run :: fanout_exit where
  "sample_run = executeFanout (\<lambda>_. []) (\<lambda>_. None) sample_fanout
     \<lparr>fo_skipPreview = False, fo_findings = Some [entry_of ''Fix'' ''a''], fo_existing = Some []\<rparr> (sample_config ''wf:task'') ''I-1''"

definition sample_child :: ChildInput where
  "sample_child = \<lparr>ci_teamId = ''t'', ci_title = ''Fix'', ci_description = ''Parent: I-1'', ci_parentId = ''p'',
     ci_labelIds = [''l1'', ''l2''], ci_delegateId = None, ci_stateId = None\<rparr>"

lemma sample_run_value:
  "fr_created (fst sample_run) = 1 \<and> fr_childIdentifiers (fst sample_run) = [''I-2''] \<and> children (snd sample_run) = [sample_child]"
  by code_simp


theorem verdict_accounts_for_children_witness:
  "\<exists>ids. deriveFanoutBarrierOutcome (fst sample_run) = VAwaiting (ids @ [''I-2''])"
proof -
  obtain r es where run: "sample_run = (r, es)" by (metis surj_pair)
  from verdict_accounts_for_children [OF run [unfolded sample_run_def]]
  show ?thesis using sample_run_value unfolding run by simp
qed

text \<open>Two sprints of one specification may carry the same icon and title: only older siblings are compared.\<close>

lemma sprints_of_one_run_are_not_compared:
  "fr_childIdentifiers (fst (executeFanout (\<lambda>_. []) (\<lambda>_. None) sample_fanout
     \<lparr>fo_skipPreview = False, fo_findings = Some [entry_of ''* Con Cycle 3 - Gate'' ''a'', entry_of ''* Con Cycle 3 - Gate'' ''b''],
        fo_existing = Some []\<rparr> (sample_config ''wf:dev-sprint'') ''I-1'')) = [''I-2'', ''I-3'']"
  by code_simp

end
