(* ===== verification/DelegateChoice.thy ===== *)
theory DelegateChoice
  imports GateBase
begin

text \<open>
  Who holds a ticket after a transition (\<open>src/workflow-gate.ts\<close>): the delegate the proxy computes before
  it forwards a request (\<open>resolveTransitionDelegate\<close>) and the delegate \<open>applyStateTransition\<close> writes
  (its step 2), with the scope of a department-headed instance. A delegate is the Linear user id of a
  registered agent. Nested options stand for the three values of the code: \<open>None\<close> is \<open>undefined\<close> (not
  decided, not written), \<open>Some None\<close> is \<open>null\<close> (cleared), \<open>Some (Some u)\<close> is the user \<open>u\<close>. The
  records of pins and of implementers are read once and given as values.
\<close>

subsection \<open>The scope of an instance\<close>

record WorkflowInstanceContext =
  ic_department :: "string option"
  ic_team :: "string option"
  ic_teamKey :: "string option"
  ic_teamName :: "string option"

definition nullish :: "'a option \<Rightarrow> 'a option \<Rightarrow> 'a option" where
  "nullish a b = (case a of None \<Rightarrow> b | Some _ \<Rightarrow> a)"

definition needs_instance_scope :: "WorkflowDef \<Rightarrow> bool" where
  "needs_instance_scope def = (d_id def = ''dept-engine'' \<or> d_id def = ''task'')"

definition deriveWorkflowInstanceScope :: "WorkflowDef \<Rightarrow> WorkflowInstanceContext option \<Rightarrow> RoleResolutionScope option" where
  "deriveWorkflowInstanceScope def context =
     (if d_id def = ''dept-engine'' \<or> d_id def = ''task''
      then (let department = Option.bind context (\<lambda>c. nullish (ic_department c) (ic_teamKey c));
                team = Option.bind context (\<lambda>c. nullish (ic_team c) (ic_teamName c))
            in if truthy department \<or> truthy team then Some \<lparr>sc_department = department, sc_team = team\<rparr> else None)
      else roleResolutionScopeForOwnerRole ''department-head'' (d_department_scope def) (d_instantiation def))"

text \<open>Whether the code has a reason to report; the text is not modelled.\<close>

definition describeMissingInstanceScope :: "WorkflowDef \<Rightarrow> bool" where
  "describeMissingInstanceScope def = (d_id def = ''dept-engine'' \<or> d_id def = ''task'')"

definition resolveBodiesForOwnerRoleInContext ::
  "CapabilityPolicy \<Rightarrow> string \<Rightarrow> WorkflowDef \<Rightarrow> WorkflowInstanceContext option \<Rightarrow> role_error + string list" where
  "resolveBodiesForOwnerRoleInContext p ownerRole def context =
     resolveBodiesForRole p ownerRole
       (if ownerRole = ''department-head'' then deriveWorkflowInstanceScope def context
        else roleResolutionScopeForOwnerRole ownerRole (d_department_scope def) (d_instantiation def))"

subsection \<open>Agents\<close>

record Agent =
  ag_name :: string
  ag_linearUserId :: string

definition getAgent :: "Agent list \<Rightarrow> string \<Rightarrow> Agent option" where
  "getAgent agents name = List.find (\<lambda>a. ag_name a = name) agents"

definition agent_of_user :: "Agent list \<Rightarrow> string \<Rightarrow> Agent option" where
  "agent_of_user agents u = List.find (\<lambda>a. ag_linearUserId a = u) agents"

text \<open>\<open>agent?.linearUserId\<close> where it is truthy.\<close>

definition user_of :: "Agent list \<Rightarrow> string \<Rightarrow> string option" where
  "user_of agents name = (case getAgent agents name of None \<Rightarrow> None
     | Some a \<Rightarrow> if ag_linearUserId a = [] then None else Some (ag_linearUserId a))"

definition resolveIssueBoundRequesterDelegate :: "Agent list \<Rightarrow> string list \<Rightarrow> string option \<Rightarrow> string option" where
  "resolveIssueBoundRequesterDelegate agents roleBodies requester =
     (if \<not> truthy requester then None
      else if \<exists>b \<in> set roleBodies. map_option ag_linearUserId (getAgent agents b) = requester then requester else None)"

datatype singleton_answer = SingletonUser string | NotASingleton nat | SingletonUnresolved string

definition resolveSingletonDelegate :: "Agent list \<Rightarrow> string list \<Rightarrow> singleton_answer" where
  "resolveSingletonDelegate agents roleBodies =
     (case roleBodies of
        [b] \<Rightarrow> (case user_of agents b of Some u \<Rightarrow> SingletonUser u | None \<Rightarrow> SingletonUnresolved b)
      | _ \<Rightarrow> NotASingleton (length roleBodies))"

subsection \<open>The targets of a transition\<close>

datatype target_mode = ModeNone | ModeAuto | ModeRequired

text \<open>A role that needs a scope throws.\<close>

definition resolveTransitionTargets ::
  "CapabilityPolicy \<Rightarrow> WorkflowTransition \<Rightarrow> WorkflowDef \<Rightarrow> WorkflowInstanceContext option \<Rightarrow> role_error + string list \<times> target_mode" where
  "resolveTransitionTargets p t def context =
     (let dest = stateNodeById def (t_to t);
          ownerRole = Option.bind dest s_owner_role
      in if \<not> truthy ownerRole \<or> Option.bind dest s_kind = Some ''terminal'' then Inr ([], ModeNone)
         else
           let scope = (if ownerRole = Some ''department-head'' then deriveWorkflowInstanceScope def context else None) in
           if describeMissingInstanceScope def \<and> scope = None then Inr ([], ModeNone)
           else case resolveBodiesForOwnerRoleInContext p (the ownerRole) def context of
                  Inl e \<Rightarrow> Inl e
                | Inr bs \<Rightarrow> Inr (if bs = [] then ([], ModeNone) else if length bs = 1 then (bs, ModeAuto) else (bs, ModeRequired)))"

subsection \<open>Before the request is forwarded\<close>

record DelegateWorld =
  dw_agents :: "Agent list"
  dw_policy :: CapabilityPolicy
  dw_binding :: "string \<Rightarrow> string option"
  dw_implementer :: "string option"

definition named_user :: "DelegateWorld \<Rightarrow> string option \<Rightarrow> string option" where
  "named_user w name = (if truthy name then user_of (dw_agents w) (the name) else None)"

definition wants_prior :: "WorkflowTransition option \<Rightarrow> bool" where
  "wants_prior t = (Option.bind (Option.bind t t_assign) a_default = Some ''prior-implementer'')"

definition mode_none :: "WorkflowTransition option \<Rightarrow> bool" where
  "mode_none t = (Option.bind (Option.bind t t_assign) a_mode = Some ''none'')"

definition is_terminal_node :: "WorkflowState option \<Rightarrow> bool" where
  "is_terminal_node node = (Option.bind node s_kind = Some ''terminal'' \<or> \<not> truthy (Option.bind node s_owner_role))"

fun first_some :: "'a option list \<Rightarrow> 'a option" where
  "first_some [] = None"
| "first_some (x # xs) = (case x of None \<Rightarrow> first_some xs | Some y \<Rightarrow> Some y)"

definition resolveTransitionDelegate ::
  "DelegateWorld \<Rightarrow> string \<Rightarrow> WorkflowTransition option \<Rightarrow> WorkflowDef \<Rightarrow> string option \<Rightarrow> WorkflowInstanceContext option \<Rightarrow>
   string option option" where
  "resolveTransitionDelegate w to t def cliTarget context =
     (case stateNodeById def (Some to) of
        None \<Rightarrow> None
      | Some node \<Rightarrow>
          if is_terminal_node (Some node) then Some None
          else if mode_none t then None
          else
            let role = the (s_owner_role node) in
            map_option Some (first_some
              [named_user w cliTarget,
               if s_owner_binding node = Some ''bound'' then named_user w (dw_binding w role) else None,
               if wants_prior t then named_user w (dw_implementer w) else None,
               case resolveBodiesForOwnerRoleInContext (dw_policy w) role def context of
                 Inr [b] \<Rightarrow> user_of (dw_agents w) b
               | _ \<Rightarrow> None]))"

subsection \<open>When the transition is applied\<close>

datatype delegate_refusal =
    NotABodyOf string "string list"
  | PriorImplementerUnresolved string
  | InstanceScopeMissing
  | NoDepartmentHead
  | SingletonHasNoUser string
  | ManyBodies "string list"
  | NoBodies string
  | RoleResolutionFailed role_error

datatype delegate_choice =
    Undecided
  | Chosen "string option"
  | DelegateUnresolved delegate_refusal
  | TargetUnresolved string
  | RoleThrows role_error

record DelegateQuestion =
  dq_intent :: string
  dq_def :: WorkflowDef
  dq_to :: string
  dq_transition :: "WorkflowTransition option"
  dq_from :: "string option"
  dq_target :: "string option"
  dq_override :: "string option option"
  dq_body :: "string option"
  dq_seated :: "string option"
  dq_requester :: "string option"
  dq_context :: "WorkflowInstanceContext option"
  dq_spinePreserved :: bool

definition breakGlassCommand :: "WorkflowDef \<Rightarrow> string" where
  "breakGlassCommand def = (case d_break_glass def of None \<Rightarrow> ''escape'' | Some b \<Rightarrow> bg_command b)"

definition dq_node :: "DelegateQuestion \<Rightarrow> WorkflowState option" where
  "dq_node q = stateNodeById (dq_def q) (Some (dq_to q))"

definition dq_role :: "DelegateQuestion \<Rightarrow> string" where
  "dq_role q = the (Option.bind (dq_node q) s_owner_role)"

definition dq_bodies :: "DelegateWorld \<Rightarrow> DelegateQuestion \<Rightarrow> role_error + string list" where
  "dq_bodies w q = resolveBodiesForOwnerRoleInContext (dw_policy w) (dq_role q) (dq_def q) (dq_context q)"

definition chosen_user :: "string option \<Rightarrow> delegate_choice" where
  "chosen_user u = (case u of None \<Rightarrow> Undecided | Some x \<Rightarrow> Chosen (Some x))"

definition enforces_selection :: "DelegateQuestion \<Rightarrow> bool" where
  "enforces_selection q = (case Option.bind (Option.bind (dq_transition q) t_assign) a_selection_criteria of
     None \<Rightarrow> False | Some s \<Rightarrow> trim s \<noteq> [])"

definition explicit_target :: "DelegateWorld \<Rightarrow> DelegateQuestion \<Rightarrow> delegate_choice" where
  "explicit_target w q =
     (if \<not> truthy (dq_target q) then Undecided
      else
        let target = the (dq_target q);
            user = (case user_of (dw_agents w) target of Some u \<Rightarrow> Chosen (Some u) | None \<Rightarrow> TargetUnresolved target)
        in if enforces_selection q
           then case dq_bodies w q of
                  Inl e \<Rightarrow> RoleThrows e
                | Inr legal \<Rightarrow>
                    let roleDeclared = (legal \<noteq> [] \<or> isRoleDeclared (dw_policy w) (dq_role q)) in
                    if (1 < length legal \<or> legal = [] \<and> roleDeclared) \<and> target \<notin> set legal
                    then DelegateUnresolved (NotABodyOf target legal) else user
           else user)"

definition bound_seat :: "DelegateWorld \<Rightarrow> DelegateQuestion \<Rightarrow> delegate_choice" where
  "bound_seat w q =
     (if Option.bind (dq_node q) s_owner_binding = Some ''bound'' \<and> truthy (Option.bind (dq_node q) s_owner_role)
      then chosen_user (named_user w (dw_binding w (dq_role q))) else Undecided)"

definition break_glass_invoker :: "DelegateWorld \<Rightarrow> DelegateQuestion \<Rightarrow> delegate_choice" where
  "break_glass_invoker w q =
     (if dq_intent q = breakGlassCommand (dq_def q) then chosen_user (named_user w (dq_body q)) else Undecided)"

definition prior_implementer :: "DelegateWorld \<Rightarrow> DelegateQuestion \<Rightarrow> delegate_choice" where
  "prior_implementer w q =
     (if wants_prior (dq_transition q) \<and> truthy (dw_implementer w)
      then (case named_user w (dw_implementer w) of
              Some u \<Rightarrow> Chosen (Some u)
            | None \<Rightarrow> DelegateUnresolved (PriorImplementerUnresolved (the (dw_implementer w))))
      else Undecided)"

definition same_role_seat :: "DelegateWorld \<Rightarrow> DelegateQuestion \<Rightarrow> delegate_choice" where
  "same_role_seat w q =
     (let sourceOwnerRole = (if truthy (dq_from q) then Option.bind (stateNodeById (dq_def q) (dq_from q)) s_owner_role else None) in
      if truthy (dq_seated q) \<and> truthy sourceOwnerRole \<and> sourceOwnerRole = Option.bind (dq_node q) s_owner_role
      then case dq_bodies w q of
             Inl e \<Rightarrow> RoleThrows e
           | Inr legal \<Rightarrow>
               (case agent_of_user (dw_agents w) (the (dq_seated q)) of
                  Some a \<Rightarrow> if ag_name a \<noteq> [] \<and> ag_name a \<in> set legal then Chosen (dq_seated q) else Undecided
                | None \<Rightarrow> Undecided)
      else Undecided)"

definition role_based :: "DelegateWorld \<Rightarrow> DelegateQuestion \<Rightarrow> delegate_choice" where
  "role_based w q =
     (let def = dq_def q; role = dq_role q; scope = deriveWorkflowInstanceScope def (dq_context q) in
      if describeMissingInstanceScope def \<and> role = ''department-head'' \<and> scope = None
      then DelegateUnresolved InstanceScopeMissing
      else case dq_bodies w q of
        Inl e \<Rightarrow> DelegateUnresolved (RoleResolutionFailed e)
      | Inr bs \<Rightarrow>
          if bs = [] \<and> role = ''department-head'' \<and> d_id def = ''dept-engine'' \<and> scope \<noteq> None
          then DelegateUnresolved NoDepartmentHead
          else if length bs = 1
          then (case resolveSingletonDelegate (dw_agents w) bs of
                  SingletonUser u \<Rightarrow> Chosen (Some u)
                | _ \<Rightarrow> DelegateUnresolved (SingletonHasNoUser (hd bs)))
          else if 1 < length bs
          then (case (if role = ''requester'' then resolveIssueBoundRequesterDelegate (dw_agents w) bs (dq_requester q) else None) of
                  Some u \<Rightarrow> Chosen (Some u)
                | None \<Rightarrow> DelegateUnresolved (ManyBodies bs))
          else if isSyntheticNoBodyRole (dw_policy w) role then Undecided
          else if dq_intent q \<in> {''approve'', ''reject'', ''submit''} \<or> isRoleDeclared (dw_policy w) role
          then DelegateUnresolved (NoBodies role)
          else Undecided)"

fun first_decided :: "delegate_choice list \<Rightarrow> delegate_choice" where
  "first_decided [] = Undecided"
| "first_decided (Undecided # cs) = first_decided cs"
| "first_decided (c # cs) = c"

definition resolved_by_rules :: "DelegateWorld \<Rightarrow> DelegateQuestion \<Rightarrow> delegate_choice" where
  "resolved_by_rules w q =
     first_decided [explicit_target w q, bound_seat w q, break_glass_invoker w q, prior_implementer w q, same_role_seat w q, role_based w q]"

text \<open>Step 2: the override, the two cases that do not ask, the terminal case, the rules.\<close>

definition chooseDelegate :: "DelegateWorld \<Rightarrow> DelegateQuestion \<Rightarrow> delegate_choice" where
  "chooseDelegate w q =
     (let isTerminal = is_terminal_node (dq_node q);
          spine = (dq_intent q = breakGlassCommand (dq_def q) \<and> dq_spinePreserved q);
          preserve = (\<not> isTerminal \<and> \<not> spine \<and> mode_none (dq_transition q))
      in if spine then Chosen None
         else case dq_override q of
           Some d \<Rightarrow> Chosen d
         | None \<Rightarrow> if preserve then Undecided else if isTerminal then Chosen None else resolved_by_rules w q)"

subsection \<open>Load-time check of the holders\<close>

text \<open>
  The part of \<open>reloadWorkflowDefs\<close> on owner roles: every state that needs a holder has a candidate, and
  where there are several, some transition into it says how to choose.
\<close>

datatype holder_error = NoCandidate string string | NoSelectionCriteria string string "string list"

definition has_selection :: "WorkflowTransition \<Rightarrow> bool" where
  "has_selection t = (case t_assign t of None \<Rightarrow> False
     | Some a \<Rightarrow> truthy (a_default a) \<or> a_mode a = Some ''none'' \<or> truthy (a_constraint a) \<or>
         (case a_selection_criteria a of None \<Rightarrow> False | Some s \<Rightarrow> trim s \<noteq> []))"

definition inbound :: "WorkflowDef \<Rightarrow> string \<Rightarrow> WorkflowTransition list" where
  "inbound def i = filter (\<lambda>t. t_to t = Some i) (concat (map s_transitions (d_states def)))"

definition holder_errors :: "CapabilityPolicy \<Rightarrow> WorkflowDef \<Rightarrow> WorkflowState \<Rightarrow> holder_error list" where
  "holder_errors p def s =
     (if \<not> truthy (s_owner_role s) \<or> s_kind s = Some ''terminal'' \<or> s_owner_binding s = Some ''bound'' then []
      else
        let role = the (s_owner_role s);
            bs = (case resolveBodiesForOwnerRole p role def of Inl _ \<Rightarrow> [] | Inr bs \<Rightarrow> bs)
        in if bs = []
           then (if isSyntheticNoBodyRole p role then [] else [NoCandidate (s_id s) role])
           else if 1 < length bs \<and> d_entry_state def \<noteq> Some (s_id s) \<and> inbound def (s_id s) \<noteq> [] \<and>
                   \<not> (\<exists>t \<in> set (inbound def (s_id s)). has_selection t)
           then [NoSelectionCriteria (s_id s) role bs] else [])"

definition validateHolders :: "CapabilityPolicy \<Rightarrow> WorkflowDef \<Rightarrow> holder_error list" where
  "validateHolders p def = concat (map (holder_errors p def) (d_states def))"

subsection \<open>What the choices mean\<close>

lemma first_decided_Cons:
  "first_decided (c # cs) = (if c = Undecided then first_decided cs else c)"
  by (cases c) auto

lemma chosen_user_simps [simp]:
  "(chosen_user u = Undecided) = (u = None)" "(chosen_user u = Chosen d) = (u \<noteq> None \<and> d = u)"
  "chosen_user u \<noteq> DelegateUnresolved r" "chosen_user u \<noteq> RoleThrows e"
  by (auto simp: chosen_user_def split: option.splits)

lemma user_of_SomeD:
  "user_of agents n = Some u \<Longrightarrow> u \<noteq> [] \<and> (\<exists>a \<in> set agents. ag_name a = n \<and> ag_linearUserId a = u)"
  by (auto simp: user_of_def getAgent_def dest!: find_SomeD split: option.splits if_splits)

lemma named_user_SomeD: "named_user w n = Some u \<Longrightarrow> \<exists>m. n = Some m \<and> user_of (dw_agents w) m = Some u"
  by (auto simp: named_user_def truthy_def split: if_splits option.splits)

lemma user_of_named:
  assumes "distinct (map ag_name agents)" and "a \<in> set agents" and "ag_linearUserId a \<noteq> []"
  shows "user_of agents (ag_name a) = Some (ag_linearUserId a)"
proof -
  have "List.find (\<lambda>b. ag_name b = ag_name a) agents = Some a"
    using assms(1,2) by (induction agents) auto
  then show ?thesis using assms(3) by (simp add: user_of_def getAgent_def)
qed

lemma scope_is_irrelevant:
  assumes "resolveBodiesForRole p role None = Inr bs"
  shows "resolveBodiesForRole p role scope = Inr bs \<or> role \<noteq> ''department-head''"
proof (cases "role = ''department-head''")
  case True
  then have "\<not> (\<exists>b \<in> set [b \<leftarrow> bodies p. role \<in> set (fills_roles b)]. bodyHasDepartmentScope b)"
    using assms by (auto simp: resolveBodiesForRole_def has_scope_def Let_def split: if_splits)
  then show ?thesis using assms
    by (auto simp: resolveBodiesForRole_def has_scope_def Let_def split: if_splits
        intro!: arg_cong [where f = "map body_id"] filter_cong)
qed simp

lemma bodies_without_context:
  assumes "resolveBodiesForOwnerRoleInContext p role def None = Inr bs"
  shows "resolveBodiesForOwnerRoleInContext p role def ctx = Inr bs"
proof (cases "needs_instance_scope def \<and> role = ''department-head''")
  case True
  then have "deriveWorkflowInstanceScope def None = None"
    by (auto simp: needs_instance_scope_def deriveWorkflowInstanceScope_def truthy_def)
  then show ?thesis
    using assms True scope_is_irrelevant [of p role bs] by (auto simp: resolveBodiesForOwnerRoleInContext_def)
next
  case False
  then show ?thesis
    using assms by (auto simp: resolveBodiesForOwnerRoleInContext_def needs_instance_scope_def deriveWorkflowInstanceScope_def)
qed

text \<open>The reasons a user may be written as the holder.\<close>

definition entitled :: "DelegateWorld \<Rightarrow> DelegateQuestion \<Rightarrow> string \<Rightarrow> bool" where
  "entitled w q u \<longleftrightarrow>
     named_user w (dq_target q) = Some u \<or>
     Option.bind (dq_node q) s_owner_binding = Some ''bound'' \<and> named_user w (dw_binding w (dq_role q)) = Some u \<or>
     dq_intent q = breakGlassCommand (dq_def q) \<and> named_user w (dq_body q) = Some u \<or>
     wants_prior (dq_transition q) \<and> named_user w (dw_implementer w) = Some u \<or>
     (\<exists>bs. dq_bodies w q = Inr bs \<and>
        (dq_seated q = Some u \<and> u \<noteq> [] \<and> (\<exists>a \<in> set (dw_agents w). ag_linearUserId a = u \<and> ag_name a \<in> set bs) \<or>
         (\<exists>b. bs = [b] \<and> user_of (dw_agents w) b = Some u) \<or>
         dq_role q = ''requester'' \<and> dq_requester q = Some u \<and> u \<noteq> [] \<and>
           (\<exists>a \<in> set (dw_agents w). ag_linearUserId a = u \<and> ag_name a \<in> set bs)))"

lemma explicit_target_cases:
  "explicit_target w q = Chosen d \<Longrightarrow> d \<noteq> None \<and> named_user w (dq_target q) = d"
  "explicit_target w q = Undecided \<Longrightarrow> \<not> truthy (dq_target q)"
  by (auto simp: explicit_target_def named_user_def Let_def eq_commute [of "Some _" "user_of _ _"] split: if_splits sum.splits option.splits)

lemma agent_of_user_SomeD: "agent_of_user agents u = Some a \<Longrightarrow> a \<in> set agents \<and> ag_linearUserId a = u"
  by (auto simp: agent_of_user_def dest: find_SomeD)

lemma getAgent_SomeD: "getAgent agents n = Some a \<Longrightarrow> a \<in> set agents \<and> ag_name a = n"
  by (auto simp: getAgent_def dest: find_SomeD)

lemma same_role_seat_Chosen:
  "same_role_seat w q = Chosen d \<Longrightarrow> \<exists>u bs. d = Some u \<and> dq_seated q = Some u \<and> u \<noteq> [] \<and> dq_bodies w q = Inr bs \<and>
     (\<exists>a \<in> set (dw_agents w). ag_linearUserId a = u \<and> ag_name a \<in> set bs)"
  by (auto simp: same_role_seat_def Let_def truthy_def split: if_splits sum.splits option.splits dest!: agent_of_user_SomeD)

lemma requester_Some:
  "resolveIssueBoundRequesterDelegate agents bs r = Some u \<Longrightarrow>
     r = Some u \<and> u \<noteq> [] \<and> (\<exists>a \<in> set agents. ag_linearUserId a = u \<and> ag_name a \<in> set bs)"
  by (fastforce simp: resolveIssueBoundRequesterDelegate_def truthy_def dest!: getAgent_SomeD split: if_splits option.splits)

lemma singleton_cases:
  "length bs = 1 \<Longrightarrow> resolveSingletonDelegate agents bs =
     (case user_of agents (hd bs) of Some u \<Rightarrow> SingletonUser u | None \<Rightarrow> SingletonUnresolved (hd bs))"
  by (cases bs) (auto simp: resolveSingletonDelegate_def split: option.split)

lemma few: "length xs \<noteq> Suc 0 \<Longrightarrow> \<not> Suc 0 < length xs \<Longrightarrow> xs = []"
  by (cases xs) auto

lemma role_based_Chosen:
  "role_based w q = Chosen d \<Longrightarrow> \<exists>u bs. d = Some u \<and> dq_bodies w q = Inr bs \<and>
     ((\<exists>b. bs = [b] \<and> user_of (dw_agents w) b = Some u) \<or>
      dq_role q = ''requester'' \<and> dq_requester q = Some u \<and> u \<noteq> [] \<and>
           (\<exists>a \<in> set (dw_agents w). ag_linearUserId a = u \<and> ag_name a \<in> set bs))"
  by (auto simp: role_based_def Let_def singleton_cases length_Suc_conv eq_commute [of "Some _" "user_of _ _"]
      eq_commute [of "Some _" "resolveIssueBoundRequesterDelegate _ _ _"] dest!: requester_Some
      split: if_splits sum.splits option.splits)

lemma role_based_Undecided:
  "role_based w q = Undecided \<Longrightarrow> dq_bodies w q = Inr [] \<and>
     (isSyntheticNoBodyRole (dw_policy w) (dq_role q) \<or>
      \<not> isRoleDeclared (dw_policy w) (dq_role q) \<and> dq_intent q \<notin> {''approve'', ''reject'', ''submit''})"
  by (auto simp: role_based_def Let_def singleton_cases dest!: few split: if_splits sum.splits option.splits)

lemma rules_Chosen:
  assumes "resolved_by_rules w q = Chosen d"
  shows "\<exists>u. d = Some u \<and> entitled w q u"
proof -
  from assms consider
      "explicit_target w q = Chosen d" | "bound_seat w q = Chosen d" | "break_glass_invoker w q = Chosen d"
    | "prior_implementer w q = Chosen d" | "same_role_seat w q = Chosen d" | "role_based w q = Chosen d"
    by (auto simp: resolved_by_rules_def first_decided_Cons split: if_splits)
  then show ?thesis
  proof cases
    case 1 then show ?thesis by (auto simp: entitled_def dest: explicit_target_cases)
  next
    case 2 then show ?thesis by (auto simp: entitled_def bound_seat_def split: if_splits)
  next
    case 3 then show ?thesis by (auto simp: entitled_def break_glass_invoker_def split: if_splits)
  next
    case 4 then show ?thesis by (auto simp: entitled_def prior_implementer_def eq_commute [of "Some _" "named_user _ _"] split: if_splits option.splits)
  next
    case 5 from same_role_seat_Chosen [OF this] show ?thesis by (auto simp: entitled_def)
  next
    case 6 from role_based_Chosen [OF this] show ?thesis by (auto simp: entitled_def)
  qed
qed

lemma entitled_agent:
  "entitled w q u \<Longrightarrow> u \<noteq> [] \<and> (\<exists>a \<in> set (dw_agents w). ag_linearUserId a = u)"
  by (auto simp: entitled_def dest!: named_user_SomeD user_of_SomeD)

text \<open>
  C8: Every holder is entitled: where no override was given, the user a transition makes the delegate is the
  Linear identity of a registered agent, and that agent was named by the caller, is pinned to the seat,
  is the invoker of break-glass, is the recorded implementer of a transition that returns to it, already
  holds the ticket in the same role, is the only body of the role, or is the issue's requester among its
  bodies.
\<close>

theorem every_holder_is_entitled:
  assumes "dq_override q = None" and "chooseDelegate w q = Chosen (Some u)"
  shows "u \<noteq> [] \<and> (\<exists>a \<in> set (dw_agents w). ag_linearUserId a = u) \<and> entitled w q u"
proof -
  have "resolved_by_rules w q = Chosen (Some u)"
    using assms by (auto simp: chooseDelegate_def Let_def split: if_splits)
  from rules_Chosen [OF this] show ?thesis using entitled_agent by auto
qed

text \<open>
  A ticket is not left without a holder by accident: where no override was given and the transition is
  neither refused nor gives the ticket to a user, it is a break-glass that keeps the position, or it leads
  to a terminal state or one without an owner role, or it says to assign nobody, or the role has no
  body and is either the engine's own or not declared at all (and then not on approve, reject or submit).
\<close>

theorem ownerless_only_by_design:
  assumes "dq_override q = None" and "chooseDelegate w q = Undecided \<or> chooseDelegate w q = Chosen None"
  shows "dq_intent q = breakGlassCommand (dq_def q) \<and> dq_spinePreserved q \<or>
     is_terminal_node (dq_node q) \<or> mode_none (dq_transition q) \<or>
     dq_bodies w q = Inr [] \<and>
       (isSyntheticNoBodyRole (dw_policy w) (dq_role q) \<or>
        \<not> isRoleDeclared (dw_policy w) (dq_role q) \<and> dq_intent q \<notin> {''approve'', ''reject'', ''submit''})"
proof (rule ccontr)
  assume n: "\<not> ?thesis"
  then have "resolved_by_rules w q = Undecided \<or> resolved_by_rules w q = Chosen None"
    using assms by (auto simp: chooseDelegate_def Let_def)
  then have "resolved_by_rules w q = Undecided" using rules_Chosen by fastforce
  then have "role_based w q = Undecided" by (auto simp: resolved_by_rules_def first_decided_Cons split: if_splits)
  from role_based_Undecided [OF this] n show False by auto
qed

lemma first_of_four:
  "first_some [a, b, c, e] = Some u \<Longrightarrow>
     a = Some u \<or> a = None \<and> b = Some u \<or> a = None \<and> b = None \<and> c = Some u \<or> a = None \<and> b = None \<and> c = None \<and> e = Some u"
  by (auto split: option.splits)

lemma only_body:
  "(case r of Inr [b] \<Rightarrow> f b | _ \<Rightarrow> None) = Some u \<Longrightarrow> \<exists>b. r = Inr [b] \<and> f b = Some u"
  by (auto split: sum.splits list.splits)

text \<open>A seated agent that is the only body of the role is the body's user.\<close>

lemma seat_is_singleton:
  assumes "distinct (map ag_name (dw_agents w))" and "same_role_seat w q = Chosen d" and "dq_bodies w q = Inr [b]"
  shows "d = user_of (dw_agents w) b"
proof -
  from same_role_seat_Chosen [OF assms(2)] assms(3) obtain u a
    where u: "d = Some u" "u \<noteq> []" and a: "a \<in> set (dw_agents w)" "ag_linearUserId a = u" "ag_name a = b" by auto
  from user_of_named [OF assms(1) a(1)] u a show ?thesis by auto
qed

lemma explicit_named:
  assumes "named_user w (dq_target q) = Some u"
  shows "explicit_target w q \<noteq> Undecided" "explicit_target w q = Chosen d \<Longrightarrow> d = Some u"
proof -
  have "truthy (dq_target q)" using assms by (auto simp: named_user_def split: if_splits)
  then show "explicit_target w q \<noteq> Undecided" using explicit_target_cases(2) by blast
  show "explicit_target w q = Chosen d \<Longrightarrow> d = Some u" using assms explicit_target_cases(1) by fastforce
qed

lemma forwarded_choice_cases:
  assumes pre: "resolveTransitionDelegate w (dq_to q) (dq_transition q) (dq_def q) (dq_target q) ctx = Some d"
    and ctx: "ctx = None \<or> ctx = dq_context q" and live: "\<not> is_terminal_node (dq_node q)"
  obtains u where "d = Some u" "\<not> mode_none (dq_transition q)" "named_user w (dq_target q) = Some u"
    | u where "d = Some u" "\<not> mode_none (dq_transition q)" "named_user w (dq_target q) = None" "bound_seat w q = Chosen (Some u)"
    | u where "d = Some u" "\<not> mode_none (dq_transition q)" "named_user w (dq_target q) = None" "bound_seat w q = Undecided"
        "wants_prior (dq_transition q)" "named_user w (dw_implementer w) = Some u"
    | u b where "d = Some u" "\<not> mode_none (dq_transition q)" "named_user w (dq_target q) = None" "bound_seat w q = Undecided"
        "wants_prior (dq_transition q) \<longrightarrow> named_user w (dw_implementer w) = None"
        "dq_bodies w q = Inr [b]" "user_of (dw_agents w) b = Some u"
proof -
  obtain node where node: "dq_node q = Some node" "\<not> mode_none (dq_transition q)"
    and first: "map_option Some (first_some
       [named_user w (dq_target q),
        if s_owner_binding node = Some ''bound'' then named_user w (dw_binding w (dq_role q)) else None,
        if wants_prior (dq_transition q) then named_user w (dw_implementer w) else None,
        case resolveBodiesForOwnerRoleInContext (dw_policy w) (dq_role q) (dq_def q) ctx of
          Inr [b] \<Rightarrow> user_of (dw_agents w) b | _ \<Rightarrow> None]) = Some d"
    using pre live by (cases "stateNodeById (dq_def q) (Some (dq_to q))")
      (simp_all del: first_some.simps add: resolveTransitionDelegate_def dq_node_def dq_role_def Let_def split: if_splits)
  have role: "truthy (s_owner_role node)" using live node by (auto simp: is_terminal_node_def)
  have bound: "bound_seat w q = chosen_user (if s_owner_binding node = Some ''bound'' then named_user w (dw_binding w (dq_role q)) else None)"
    using node(1) role by (auto simp: bound_seat_def chosen_user_def)
  obtain u where d: "d = Some u" and by_step: "first_some
       [named_user w (dq_target q),
        if s_owner_binding node = Some ''bound'' then named_user w (dw_binding w (dq_role q)) else None,
        if wants_prior (dq_transition q) then named_user w (dw_implementer w) else None,
        case resolveBodiesForOwnerRoleInContext (dw_policy w) (dq_role q) (dq_def q) ctx of
          Inr [b] \<Rightarrow> user_of (dw_agents w) b | _ \<Rightarrow> None] = Some u"
    using first unfolding map_option_eq_Some by blast
  have sole: "dq_bodies w q = Inr [b]" if "resolveBodiesForOwnerRoleInContext (dw_policy w) (dq_role q) (dq_def q) ctx = Inr [b]" for b
    using ctx
  proof
    assume "ctx = None"
    then show ?thesis unfolding dq_bodies_def using that by (auto intro: bodies_without_context)
  next
    assume "ctx = dq_context q"
    then show ?thesis unfolding dq_bodies_def using that by simp
  qed
  note steps = first_of_four [OF by_step]
  have prior_step: "wants_prior (dq_transition q) \<and> named_user w (dw_implementer w) = Some u"
    if "(if wants_prior (dq_transition q) then named_user w (dw_implementer w) else None) = Some u"
    using that by (simp split: if_splits)
  have no_prior: "wants_prior (dq_transition q) \<longrightarrow> named_user w (dw_implementer w) = None"
    if "(if wants_prior (dq_transition q) then named_user w (dw_implementer w) else None) = None"
    using that by (simp split: if_splits)
  have pin_step: "bound_seat w q = chosen_user p"
    if "(if s_owner_binding node = Some ''bound'' then named_user w (dw_binding w (dq_role q)) else None) = p" for p
    using that bound by simp
  from steps show thesis
  proof (elim disjE conjE)
    assume "named_user w (dq_target q) = Some u" then show thesis using that(1) d node(2) by simp
  next
    assume "named_user w (dq_target q) = None"
      "(if s_owner_binding node = Some ''bound'' then named_user w (dw_binding w (dq_role q)) else None) = Some u"
    then show thesis using that(2) d node(2) pin_step by simp
  next
    assume "named_user w (dq_target q) = None"
      "(if s_owner_binding node = Some ''bound'' then named_user w (dw_binding w (dq_role q)) else None) = None"
      "(if wants_prior (dq_transition q) then named_user w (dw_implementer w) else None) = Some u"
    then show thesis using that(3) d node(2) pin_step prior_step by simp
  next
    assume a: "named_user w (dq_target q) = None"
      "(if s_owner_binding node = Some ''bound'' then named_user w (dw_binding w (dq_role q)) else None) = None"
      "(if wants_prior (dq_transition q) then named_user w (dw_implementer w) else None) = None"
      "(case resolveBodiesForOwnerRoleInContext (dw_policy w) (dq_role q) (dq_def q) ctx of
          Inr [b] \<Rightarrow> user_of (dw_agents w) b | _ \<Rightarrow> None) = Some u"
    from only_body [OF a(4)] obtain b where b: "resolveBodiesForOwnerRoleInContext (dw_policy w) (dq_role q) (dq_def q) ctx = Inr [b]"
      "user_of (dw_agents w) b = Some u" by blast
    have "bound_seat w q = Undecided" using pin_step [OF a(2)] by simp
    then show thesis using that(4) d node(2) a(1) no_prior [OF a(3)] sole [OF b(1)] b(2) by blast
  qed
qed

text \<open>
  C13: The forwarded delegate is the applied one: a delegate the proxy computes before it forwards a request
  (with or without the instance's context, and for any command but break-glass) is the one the
  transition would choose itself, unless the transition is refused; it never chooses another and never
  leaves the ticket undecided. So the override the proxy passes on changes nothing but the order.
\<close>

theorem forwarded_delegate_is_the_applied_one:
  assumes pre: "resolveTransitionDelegate w (dq_to q) (dq_transition q) (dq_def q) (dq_target q) ctx = Some d"
    and ctx: "ctx = None \<or> ctx = dq_context q"
    and q: "dq_override q = None" "dq_intent q \<noteq> breakGlassCommand (dq_def q)"
    and agents: "distinct (map ag_name (dw_agents w))"
  shows "chooseDelegate w q \<noteq> Undecided \<and> (\<forall>e. chooseDelegate w q = Chosen e \<longrightarrow> e = d)"
proof (cases "is_terminal_node (dq_node q)")
  case True
  then show ?thesis using pre q by (auto simp: resolveTransitionDelegate_def chooseDelegate_def dq_node_def split: option.splits)
next
  case False
  have glass: "break_glass_invoker w q = Undecided" using q by (simp add: break_glass_invoker_def)
  have rules: "chooseDelegate w q = first_decided [explicit_target w q, bound_seat w q, Undecided, prior_implementer w q, same_role_seat w q, role_based w q]"
    if "\<not> mode_none (dq_transition q)"
    using False that q glass by (simp add: chooseDelegate_def resolved_by_rules_def Let_def)
  from pre ctx False show ?thesis
  proof (cases rule: forwarded_choice_cases)
    case (1 u)
    then show ?thesis using explicit_named [OF 1(3)] by (auto simp: rules first_decided_Cons)
  next
    case (2 u)
    then show ?thesis using explicit_target_cases [of w q] by (auto simp: rules first_decided_Cons)
  next
    case (3 u)
    then have "prior_implementer w q = Chosen (Some u)" by (auto simp: prior_implementer_def named_user_def split: if_splits)
    then show ?thesis using 3 explicit_target_cases [of w q] by (auto simp: rules first_decided_Cons)
  next
    case (4 u b)
    have "role_based w q = Chosen (Some u) \<or> (\<exists>r. role_based w q = DelegateUnresolved r)"
      using 4 by (auto simp: role_based_def resolveSingletonDelegate_def Let_def)
    moreover have "prior_implementer w q = Undecided \<or> (\<exists>r. prior_implementer w q = DelegateUnresolved r)"
      using 4 by (auto simp: prior_implementer_def)
    ultimately show ?thesis
      using 4 explicit_target_cases [of w q] seat_is_singleton [OF agents _ 4(6)] by (auto simp: rules first_decided_Cons)
  qed
qed

lemma other_roles_resolve:
  "role \<noteq> ''department-head'' \<Longrightarrow>
     resolveBodiesForOwnerRoleInContext p role def ctx = resolveBodiesForOwnerRole p role def"
  "role \<noteq> ''department-head'' \<Longrightarrow> \<exists>bs. resolveBodiesForOwnerRole p role def = Inr bs"
  by (auto simp: resolveBodiesForOwnerRoleInContext_def resolveBodiesForOwnerRole_def resolveBodiesForRole_def Let_def)

lemma role_based_refusal:
  assumes "dq_bodies w q = Inr bs" and "dq_role q \<noteq> ''department-head''"
  shows "role_based w q = DelegateUnresolved (NoBodies r) \<Longrightarrow> bs = [] \<and> \<not> isSyntheticNoBodyRole (dw_policy w) (dq_role q)"
    and "role_based w q = DelegateUnresolved (ManyBodies cs) \<Longrightarrow> 1 < length bs"
    and "role_based w q \<noteq> DelegateUnresolved (RoleResolutionFailed e)"
  using assms by (auto simp: role_based_def Let_def dest!: few split: if_splits singleton_answer.splits option.splits)

lemma refused_by_role:
  assumes "chooseDelegate w q = DelegateUnresolved r"
    and "\<And>n bs. r \<noteq> NotABodyOf n bs" "\<And>n. r \<noteq> PriorImplementerUnresolved n"
  shows "role_based w q = DelegateUnresolved r" "\<not> is_terminal_node (dq_node q)"
proof -
  have n: "explicit_target w q \<noteq> DelegateUnresolved r" "prior_implementer w q \<noteq> DelegateUnresolved r"
    "same_role_seat w q \<noteq> DelegateUnresolved r" "bound_seat w q \<noteq> DelegateUnresolved r" "break_glass_invoker w q \<noteq> DelegateUnresolved r"
    using assms(2,3) by (auto simp: explicit_target_def prior_implementer_def same_role_seat_def bound_seat_def
      break_glass_invoker_def Let_def split: sum.splits option.splits)
  have "resolved_by_rules w q = DelegateUnresolved r"
    and t: "\<not> is_terminal_node (dq_node q)"
    using assms(1) by (auto simp: chooseDelegate_def Let_def split: if_splits option.splits)
  then show "role_based w q = DelegateUnresolved r"
    using n unfolding resolved_by_rules_def first_decided_Cons by (auto split: if_splits)
  show "\<not> is_terminal_node (dq_node q)" by (rule t)
qed

lemma holders_checked:
  assumes "validateHolders p def = []" and "stateNodeById def (Some i) = Some node"
  shows "holder_errors p def node = [] \<and> s_id node = i"
  using assms by (auto simp: validateHolders_def stateNodeById_def dest!: find_SomeD)

text \<open>
  An activated definition has somebody for every step: where the load-time check found nothing, a
  transition into a state of a role other than department head, whose seat is not bound, is never
  refused because the role has no body or could not be resolved; and it is refused for an ambiguous
  role only at the entry state, or when no transition leads there, or when a transition that leads there
  declares how the holder is chosen.
\<close>

theorem activated_definition_has_holders:
  assumes checked: "validateHolders (dw_policy w) (dq_def q) = []"
    and node: "dq_node q = Some node" "s_owner_binding node \<noteq> Some ''bound''" "dq_role q \<noteq> ''department-head''"
  shows "chooseDelegate w q \<noteq> DelegateUnresolved (NoBodies r) \<and>
     chooseDelegate w q \<noteq> DelegateUnresolved (RoleResolutionFailed e) \<and>
     (chooseDelegate w q = DelegateUnresolved (ManyBodies bs) \<longrightarrow>
        d_entry_state (dq_def q) = Some (dq_to q) \<or> inbound (dq_def q) (dq_to q) = [] \<or>
        (\<exists>t \<in> set (inbound (dq_def q) (dq_to q)). has_selection t))"
proof -
  from holders_checked [OF checked node(1) [unfolded dq_node_def]]
  have h: "holder_errors (dw_policy w) (dq_def q) node = []" "s_id node = dq_to q" by auto
  from other_roles_resolve [OF node(3)] obtain cs
    where cs: "resolveBodiesForOwnerRole (dw_policy w) (dq_role q) (dq_def q) = Inr cs" "dq_bodies w q = Inr cs"
    unfolding dq_bodies_def by metis
  have role: "the (s_owner_role node) = dq_role q" using node by (simp add: dq_role_def)
  note refused = refused_by_role [of w q]
  note why = role_based_refusal [OF cs(2) node(3)]
  have live: "truthy (s_owner_role node) \<and> s_kind node \<noteq> Some ''terminal''" if "\<not> is_terminal_node (dq_node q)"
    using that node(1) by (auto simp: is_terminal_node_def)
  have "cs \<noteq> [] \<or> isSyntheticNoBodyRole (dw_policy w) (dq_role q)" if "\<not> is_terminal_node (dq_node q)"
    using h(1) cs(1) role node(2) live [OF that] by (auto simp: holder_errors_def Let_def split: if_splits)
  moreover have "d_entry_state (dq_def q) = Some (dq_to q) \<or> inbound (dq_def q) (dq_to q) = [] \<or>
        (\<exists>t \<in> set (inbound (dq_def q) (dq_to q)). has_selection t)"
    if "\<not> is_terminal_node (dq_node q)" "1 < length cs"
    using h cs(1) role node(2) live [OF that(1)] that(2) by (auto simp: holder_errors_def Let_def split: if_splits)
  ultimately show ?thesis using refused why by blast
qed

text \<open>
  The brief of a ticket of \<open>wf:task\<close> or \<open>wf:dept-engine\<close> names candidates only for the department head:
  the scope it asks for is computed for that role alone, so any other role looks unscoped.
\<close>

lemma task_brief_names_no_candidates:
  assumes "needs_instance_scope def" and "Option.bind (stateNodeById def (t_to t)) s_owner_role \<noteq> Some ''department-head''"
  shows "resolveTransitionTargets p t def context = Inr ([], ModeNone)"
  using assms by (auto simp: resolveTransitionTargets_def describeMissingInstanceScope_def needs_instance_scope_def Let_def)

subsection \<open>A ticket handed on\<close>

definition handover_def :: WorkflowDef where
  "handover_def = sample_def
     [sample_state ''doing'' \<lparr>s_owner_role := Some ''dev'', s_transitions := [verb ''submit'' ''merge'']\<rparr>,
      sample_state ''merge'' \<lparr>s_owner_role := Some ''merge'', s_transitions := [verb ''continue'' ''done'']\<rparr>,
      sample_state ''done'' \<lparr>s_kind := Some ''terminal''\<rparr>]"

definition handover_world :: DelegateWorld where
  "handover_world = \<lparr>dw_agents = [\<lparr>ag_name = ''hanzo'', ag_linearUserId = ''u1''\<rparr>, \<lparr>ag_name = ''ai'', ag_linearUserId = ''u2''\<rparr>],
     dw_policy = sample_policy, dw_binding = (\<lambda>_. None), dw_implementer = Some ''ai''\<rparr>"

definition handover :: DelegateQuestion where
  "handover = \<lparr>dq_intent = ''submit'', dq_def = handover_def, dq_to = ''merge'', dq_transition = Some (verb ''submit'' ''merge''),
     dq_from = Some ''doing'', dq_target = None, dq_override = None, dq_body = Some ''ai'', dq_seated = Some ''u2'',
     dq_requester = None, dq_context = None, dq_spinePreserved = False\<rparr>"

lemma handover_chosen: "chooseDelegate handover_world handover = Chosen (Some ''u1'')"
  by code_simp

theorem every_holder_is_entitled_witness: "entitled handover_world handover ''u1''"
  using every_holder_is_entitled [of handover handover_world "''u1''"] handover_chosen by (simp add: handover_def)

definition kept :: WorkflowTransition where
  "kept = (verb ''submit'' ''merge'')
     \<lparr>t_assign := Some \<lparr>a_mode = Some ''none'', a_constraint = None, a_default = None, a_selection_criteria = None\<rparr>\<rparr>"

theorem ownerless_only_by_design_witness: "mode_none (Some kept)"
proof -
  let ?q = "handover\<lparr>dq_transition := Some kept\<rparr>"
  have c: "chooseDelegate handover_world ?q = Undecided" by code_simp
  have o: "dq_override ?q = None" "\<not> dq_spinePreserved ?q" "dq_transition ?q = Some kept" by (simp_all add: handover_def)
  have n: "\<not> is_terminal_node (dq_node ?q)" by code_simp
  have "dq_bodies handover_world ?q = Inr [''hanzo'']" by code_simp
  then show ?thesis using ownerless_only_by_design [OF o(1), of handover_world] c o n by simp
qed

theorem forwarded_delegate_is_the_applied_one_witness:
  "chooseDelegate handover_world handover \<noteq> Undecided \<and> chooseDelegate handover_world handover \<noteq> Chosen None"
proof -
  have "resolveTransitionDelegate handover_world ''merge'' (Some (verb ''submit'' ''merge'')) handover_def None None = Some (Some ''u1'')"
    by code_simp
  moreover have "dq_intent handover \<noteq> breakGlassCommand (dq_def handover)" by code_simp
  moreover have "distinct (map ag_name (dw_agents handover_world))" by code_simp
  ultimately show ?thesis
    using forwarded_delegate_is_the_applied_one [of handover_world handover None "Some ''u1''"] by (auto simp: handover_def)
qed

theorem activated_definition_has_holders_witness:
  "chooseDelegate handover_world handover \<noteq> DelegateUnresolved (NoBodies ''merge'')"
proof -
  have "validateHolders (dw_policy handover_world) (dq_def handover) = []" by code_simp
  moreover have "dq_node handover = Some (sample_state ''merge'' \<lparr>s_owner_role := Some ''merge'', s_transitions := [verb ''continue'' ''done'']\<rparr>)"
    by (simp add: dq_node_def handover_def handover_def_def sample_def_def sample_state_def stateNodeById_def)
  moreover have "s_owner_binding (sample_state ''merge'' \<lparr>s_owner_role := Some ''merge'', s_transitions := [verb ''continue'' ''done'']\<rparr>) \<noteq> Some ''bound''"
    by (simp add: sample_state_def)
  moreover have "dq_role handover \<noteq> ''department-head''" by code_simp
  ultimately show ?thesis using activated_definition_has_holders [of handover_world handover] by blast
qed

end
