(* ===== verification/TicketRecords.thy ===== *)
theory TicketRecords
  imports Yaml JsMap JsString JsRegex CapabilityPolicy WorkflowDef
begin

text \<open>
  What the engine remembers about a ticket outside the ticket service: the seats bound on it
  (\<open>src/implementer-store.ts\<close>), the acceptance criteria of record (\<open>src/ac-record-store.ts\<close>) and the
  artifact bound at intake (\<open>src/artifact-store.ts\<close>). The stores are maps from the ticket; writing them
  to their files fails open and is modelled by the value written and its reading. JSON values are
  those of the theory \<open>Yaml\<close>; texts stand where the files hold texts.
\<close>

subsection \<open>Seats\<close>

definition IMPLEMENTER_ROLE :: string where "IMPLEMENTER_ROLE = ''implementer''"

record BindingRecord =
  bd_bindings :: "(string, string) jsmap"
  bd_workflowId :: string
  bd_recordedAt :: string

type_synonym seat_store = "(string, BindingRecord) jsmap"

definition recordBinding :: "string \<Rightarrow> string \<Rightarrow> string \<Rightarrow> string \<Rightarrow> string \<Rightarrow> seat_store \<Rightarrow> seat_store" where
  "recordBinding issueId role body workflowId now st =
     (let existing = (case map_get st issueId of None \<Rightarrow> [] | Some r \<Rightarrow> bd_bindings r)
      in map_set issueId \<lparr>bd_bindings = map_set role body existing, bd_workflowId = workflowId, bd_recordedAt = now\<rparr> st)"

definition getBinding :: "string \<Rightarrow> string \<Rightarrow> seat_store \<Rightarrow> string option" where
  "getBinding issueId role st = (case map_get st issueId of None \<Rightarrow> None | Some r \<Rightarrow> map_get (bd_bindings r) role)"

definition getBindings :: "string \<Rightarrow> seat_store \<Rightarrow> (string, string) jsmap option" where
  "getBindings issueId st = map_option bd_bindings (map_get st issueId)"

definition removeBinding :: "string \<Rightarrow> string \<Rightarrow> seat_store \<Rightarrow> seat_store" where
  "removeBinding issueId role st =
     (case map_get st issueId of
        None \<Rightarrow> st
      | Some r \<Rightarrow>
          if \<not> map_has (bd_bindings r) role then st
          else let left = map_delete role (bd_bindings r) in
               if left = [] then map_delete issueId st else map_set issueId (r\<lparr>bd_bindings := left\<rparr>) st)"

definition clearTicketBindings :: "string \<Rightarrow> seat_store \<Rightarrow> seat_store" where
  "clearTicketBindings issueId st = (if map_has st issueId then map_delete issueId st else st)"

definition recordImplementer :: "string \<Rightarrow> string \<Rightarrow> string \<Rightarrow> string \<Rightarrow> seat_store \<Rightarrow> seat_store" where
  "recordImplementer issueId body workflowId now st = recordBinding issueId IMPLEMENTER_ROLE body workflowId now st"

definition getImplementer :: "string \<Rightarrow> seat_store \<Rightarrow> string option" where
  "getImplementer issueId st = getBinding issueId IMPLEMENTER_ROLE st"

definition removeImplementer :: "string \<Rightarrow> seat_store \<Rightarrow> seat_store" where
  "removeImplementer issueId st = clearTicketBindings issueId st"

definition boundSeatFor :: "WorkflowState option \<Rightarrow> string \<Rightarrow> seat_store \<Rightarrow> string option" where
  "boundSeatFor state issueId st =
     (case state of
        None \<Rightarrow> None
      | Some s \<Rightarrow> if s_owner_binding s \<noteq> Some ''bound'' \<or> \<not> truthy (s_owner_role s) then None
                  else getBinding issueId (the (s_owner_role s)) st)"

text \<open>The file: what is written, and the reading of an entry, of the current shape or the one before.\<close>

definition binding_json :: "BindingRecord \<Rightarrow> yaml" where
  "binding_json r = Mapping [(''bindings'', Mapping (map (\<lambda>(k, v). (k, Str v)) (bd_bindings r))),
     (''workflowId'', Str (bd_workflowId r)), (''recordedAt'', Str (bd_recordedAt r))]"

definition persist_seats :: "seat_store \<Rightarrow> yaml" where
  "persist_seats st = Mapping (map (\<lambda>(k, r). (k, binding_json r)) st)"

definition json_text :: "yaml \<Rightarrow> string \<Rightarrow> string" where
  "json_text v d = (case v of Str s \<Rightarrow> s | _ \<Rightarrow> d)"

definition text_fields :: "(string \<times> yaml) list \<Rightarrow> (string, string) jsmap" where
  "text_fields fs = List.map_filter (\<lambda>(k, v). case v of Str s \<Rightarrow> Some (k, s) | _ \<Rightarrow> None) fs"

definition EPOCH :: string where "EPOCH = ''1970-01-01T00:00:00.000Z''"

definition normalizeRecord :: "yaml \<Rightarrow> BindingRecord option" where
  "normalizeRecord entry =
     (case yaml_get ''bindings'' entry of
        Mapping fs \<Rightarrow> Some \<lparr>bd_bindings = text_fields fs, bd_workflowId = json_text (yaml_get ''workflowId'' entry) [],
                            bd_recordedAt = json_text (yaml_get ''recordedAt'' entry) EPOCH\<rparr>
      | _ \<Rightarrow>
          (case yaml_get ''bodyId'' entry of
             Str b \<Rightarrow> Some \<lparr>bd_bindings = [(IMPLEMENTER_ROLE, b)], bd_workflowId = json_text (yaml_get ''workflowId'' entry) [],
                            bd_recordedAt = json_text (yaml_get ''recordedAt'' entry) EPOCH\<rparr>
           | _ \<Rightarrow> None))"

definition load_seats :: "yaml option \<Rightarrow> seat_store" where
  "load_seats file =
     (case file of
        Some (Mapping fs) \<Rightarrow>
          fold (\<lambda>(k, e) st. case normalizeRecord e of None \<Rightarrow> st | Some r \<Rightarrow> map_set k r st) fs []
      | _ \<Rightarrow> [])"

subsection \<open>Artifacts\<close>

record BoundArtifact =
  ba_ref :: string
  ba_boundAt :: string
  ba_boundBy :: string

type_synonym artifact_store = "(string, BoundArtifact) jsmap"

definition bindArtifact :: "string \<Rightarrow> BoundArtifact \<Rightarrow> artifact_store \<Rightarrow> artifact_store" where
  "bindArtifact ticketId a st = map_set ticketId a st"

definition getBoundArtifact :: "string \<Rightarrow> artifact_store \<Rightarrow> BoundArtifact option" where
  "getBoundArtifact ticketId st = map_get st ticketId"

definition removeArtifact :: "string \<Rightarrow> artifact_store \<Rightarrow> bool \<times> artifact_store" where
  "removeArtifact ticketId st = (map_has st ticketId, map_delete ticketId st)"

subsection \<open>Acceptance criteria of record\<close>

record AcRecord =
  verbatimAc :: string
  capturedAt :: string
  capturedBy :: string
  ac_source :: string

type_synonym ac_store = "(string, AcRecord) jsmap"

definition captureAc :: "string \<Rightarrow> AcRecord \<Rightarrow> ac_store \<Rightarrow> ac_store" where
  "captureAc ticketId r st = map_set ticketId r st"

definition getAcRecord :: "string \<Rightarrow> ac_store \<Rightarrow> AcRecord option" where
  "getAcRecord ticketId st = map_get st ticketId"

definition hasAcRecord :: "string \<Rightarrow> ac_store \<Rightarrow> bool" where
  "hasAcRecord ticketId st = map_has st ticketId"

definition removeAcRecord :: "string \<Rightarrow> ac_store \<Rightarrow> bool \<times> ac_store" where
  "removeAcRecord ticketId st = (map_has st ticketId, map_delete ticketId st)"

text \<open>
  \<open>/^#{1,3}\s*(?:Acceptance(?:\s+Criteria)?|AC)\b.*$/mi\<close> at the start of a line: what follows the match, which
  runs to the end of the line of its last word. And \<open>/^#{1,3}\s/m\<close> at the start of a line.
\<close>

definition hashes :: "string \<Rightarrow> nat" where
  "hashes s = length (takeWhile (\<lambda>c. c = CHR ''#'') s)"

definition after_word :: "string \<Rightarrow> string \<Rightarrow> string option" where
  "after_word w s =
     (let r = drop (length w) s in if starts_ci w s \<and> (r = [] \<or> \<not> is_word (hd r)) then Some r else None)"

definition rest_of_line :: "string \<Rightarrow> string" where
  "rest_of_line s = dropWhile (\<lambda>c. \<not> line_end c) s"

definition ac_heading :: "string \<Rightarrow> string option" where
  "ac_heading s =
     (let h = hashes s; t = dropWhile is_space (drop h s) in
      if h < 1 \<or> 3 < h then None
      else case after_word ''acceptance'' t of
        Some r \<Rightarrow>
          (case (if r \<noteq> [] \<and> is_space (hd r) then after_word ''criteria'' (dropWhile is_space r) else None) of
             Some r' \<Rightarrow> Some (rest_of_line r')
           | None \<Rightarrow> Some (rest_of_line r))
      | None \<Rightarrow> map_option rest_of_line (after_word ''ac'' t))"

definition is_heading :: "string \<Rightarrow> bool" where
  "is_heading s = (let h = hashes s; r = drop h s in 1 \<le> h \<and> h \<le> 3 \<and> r \<noteq> [] \<and> is_space (hd r))"

text \<open>The flag says whether the string is at the start of a line.\<close>

fun find_ac_heading :: "bool \<Rightarrow> string \<Rightarrow> string option" where
  "find_ac_heading b [] = None"
| "find_ac_heading b (c # cs) =
     (case (if b then ac_heading (c # cs) else None) of
        Some r \<Rightarrow> Some r
      | None \<Rightarrow> find_ac_heading (line_end c) cs)"

fun until_heading :: "bool \<Rightarrow> string \<Rightarrow> string" where
  "until_heading b [] = []"
| "until_heading b (c # cs) = (if b \<and> is_heading (c # cs) then [] else c # until_heading (line_end c) cs)"

definition extractAcFromDescription :: "string \<Rightarrow> string option" where
  "extractAcFromDescription description =
     (if description = [] then None
      else map_option (\<lambda>remaining. trim (until_heading True remaining)) (find_ac_heading True description))"

datatype recapture_error = RoleUnresolved role_error | NotSteward | RecordExists string | DescriptionUnread | NoSection

text \<open>The description is \<open>None\<close> when it could not be fetched or is null; the flag is the comment on a forced overwrite.\<close>

definition recaptureAc ::
  "CapabilityPolicy \<Rightarrow> string option \<Rightarrow> string \<Rightarrow> string \<Rightarrow> bool \<Rightarrow> string \<Rightarrow> ac_store \<Rightarrow> recapture_error + ac_store \<times> bool" where
  "recaptureAc p description ticketId caller force now st =
     (case resolveBodiesForRole p ''steward'' None of
        Inl e \<Rightarrow> Inl (RoleUnresolved e)
      | Inr stewards \<Rightarrow>
          if caller \<notin> set stewards then Inl NotSteward
          else case getAcRecord ticketId st of
            Some r \<Rightarrow>
              if \<not> force then Inl (RecordExists (capturedBy r))
              else (case description of None \<Rightarrow> Inl DescriptionUnread
                    | Some d \<Rightarrow>
                        if \<not> truthy (extractAcFromDescription d) then Inl NoSection
                        else Inr (captureAc ticketId \<lparr>verbatimAc = the (extractAcFromDescription d), capturedAt = now,
                               capturedBy = caller, ac_source = ''description''\<rparr> st, True))
          | None \<Rightarrow>
              (case description of None \<Rightarrow> Inl DescriptionUnread
               | Some d \<Rightarrow>
                   if \<not> truthy (extractAcFromDescription d) then Inl NoSection
                   else Inr (captureAc ticketId \<lparr>verbatimAc = the (extractAcFromDescription d), capturedAt = now,
                          capturedBy = caller, ac_source = ''description''\<rparr> st, False)))"

subsection \<open>The contract of the seats\<close>

text \<open>
  What the engine relies on: a seat reads back as it was last bound, binding it touches no other seat, and
  clearing a ticket frees all its seats and no other. From these two laws alone every history of
  seatings has one reading.
\<close>

datatype 'x seat_op = Bind 'x string string string | ClearTicket string

fun seat_spec :: "'x seat_op \<Rightarrow> (string \<times> string \<Rightarrow> string option) \<Rightarrow> string \<times> string \<Rightarrow> string option" where
  "seat_spec (Bind x i r b) f = f((i, r) := Some b)"
| "seat_spec (ClearTicket i) f = (\<lambda>k. if fst k = i then None else f k)"

locale seat_contract =
  fixes seat :: "string \<Rightarrow> string \<Rightarrow> 'st \<Rightarrow> string option"
    and bind :: "'x \<Rightarrow> string \<Rightarrow> string \<Rightarrow> string \<Rightarrow> 'st \<Rightarrow> 'st"
    and vacate :: "string \<Rightarrow> 'st \<Rightarrow> 'st"
  assumes seat_bind: "seat j q (bind x i r b st) = (if j = i \<and> q = r then Some b else seat j q st)"
    and seat_vacate: "seat j q (vacate i st) = (if j = i then None else seat j q st)"
begin

fun perform :: "'x seat_op \<Rightarrow> 'st \<Rightarrow> 'st" where
  "perform (Bind x i r b) st = bind x i r b st"
| "perform (ClearTicket i) st = vacate i st"

definition seats :: "'st \<Rightarrow> string \<times> string \<Rightarrow> string option" where
  "seats st k = seat (fst k) (snd k) st"

lemma perform_refines: "seats (perform op st) = seat_spec op (seats st)"
  by (cases op) (auto simp: seats_def seat_bind seat_vacate fun_eq_iff)

lemma run_refines: "seats (fold perform ops st) = fold seat_spec ops (seats st)"
  by (induction ops arbitrary: st) (simp_all add: perform_refines)

end

lemma getBinding_record:
  "getBinding j q (recordBinding i r b w t st) = (if j = i \<and> q = r then Some b else getBinding j q st)"
  by (auto simp: getBinding_def recordBinding_def Let_def split: option.split)

lemma getBinding_clear: "getBinding j q (clearTicketBindings i st) = (if j = i then None else getBinding j q st)"
  by (auto simp: getBinding_def clearTicketBindings_def has_get split: option.split)

text \<open>A seating carries the workflow and the time.\<close>

interpretation seats: seat_contract getBinding "\<lambda>x i r b. recordBinding i r b (fst x) (snd x)" clearTicketBindings
  by unfold_locales (simp_all add: getBinding_record getBinding_clear)

text \<open>The operations of the store, in the order they are called.\<close>

datatype record_op =
    OpBind string string string string string | OpImplementer string string string string | OpClear string | OpRemoveImplementer string

fun record_step :: "record_op \<Rightarrow> seat_store \<Rightarrow> seat_store" where
  "record_step (OpBind i r b w t) st = recordBinding i r b w t st"
| "record_step (OpImplementer i b w t) st = recordImplementer i b w t st"
| "record_step (OpClear i) st = clearTicketBindings i st"
| "record_step (OpRemoveImplementer i) st = removeImplementer i st"

fun seat_of_op :: "record_op \<Rightarrow> (string \<times> string) seat_op" where
  "seat_of_op (OpBind i r b w t) = Bind (w, t) i r b"
| "seat_of_op (OpImplementer i b w t) = Bind (w, t) i IMPLEMENTER_ROLE b"
| "seat_of_op (OpClear i) = ClearTicket i"
| "seat_of_op (OpRemoveImplementer i) = ClearTicket i"

lemma record_step_performs: "record_step op st = seats.perform (seat_of_op op) st"
  by (cases op) (simp_all add: recordImplementer_def removeImplementer_def)

lemma fold_record_step: "fold record_step ops st = fold seats.perform (map seat_of_op ops) st"
  by (induction ops arbitrary: st) (simp_all add: record_step_performs)

text \<open>
  The seats are the last ones given: after any history of seatings, recordings of an implementer and
  clearings, each role of each ticket reads as the body it was last given since the ticket was last
  cleared, and the implementer is the seat of that role, whichever call wrote it.
\<close>

theorem seats_refine_their_history:
  "(\<lambda>k. getBinding (fst k) (snd k) (fold record_step ops st)) =
     fold seat_spec (map seat_of_op ops) (\<lambda>k. getBinding (fst k) (snd k) st)"
  using seats.run_refines [of "map seat_of_op ops" st] unfolding fold_record_step seats.seats_def [abs_def] .

subsection \<open>The file of the seats\<close>

lemma text_fields_of_texts: "text_fields (map (\<lambda>(k, v). (k, Str v)) m) = m"
  by (induction m) (auto simp: text_fields_def List.map_filter_def)

lemma normalize_written: "normalizeRecord (binding_json r) = Some r"
  by (simp add: normalizeRecord_def binding_json_def yaml_get_def text_fields_of_texts json_text_def)

lemma map_set_new: "k \<notin> set (map fst m) \<Longrightarrow> map_set k v m = m @ [(k, v)]"
  by (induction m) (auto simp: map_set_def)

lemma fold_fresh:
  "distinct (map fst (acc @ m)) \<Longrightarrow> fold (\<lambda>(k, e) st. case normalizeRecord e of None \<Rightarrow> st | Some r \<Rightarrow> map_set k r st)
     (map (\<lambda>(k, r). (k, binding_json r)) m) acc = acc @ m"
proof (induction m arbitrary: acc)
  case (Cons x m)
  obtain k r where x: "x = (k, r)" by (cases x)
  have "map_set k r acc = acc @ [(k, r)]" using Cons.prems unfolding x by (intro map_set_new) auto
  then show ?case using Cons unfolding x by (simp add: normalize_written)
qed simp

text \<open>
  Seats survive a restart: the file that is written reads back as the same store, entry for entry.
\<close>

theorem seats_survive_restart: "map_ok st \<Longrightarrow> load_seats (Some (persist_seats st)) = st"
  using fold_fresh [of "[]" st] by (simp add: load_seats_def persist_seats_def map_ok_def)

lemma legacy_entry_is_the_implementer:
  "getImplementer i (load_seats (Some (Mapping [(i, Mapping [(''bodyId'', Str b)])]))) = Some b"
  by (simp add: load_seats_def normalizeRecord_def yaml_get_def getImplementer_def getBinding_def json_text_def map_get_def map_set_def)

subsection \<open>The criteria of record\<close>

text \<open>
  The criteria of record are taken from the ticket: a recapture by hand changes only the record of its
  ticket, only for a steward, over an earlier record only when forced (and then a comment is left),
  and what it stores is the non-empty acceptance section of the description; otherwise nothing changes.
\<close>

theorem recapture_is_entitled:
  assumes "recaptureAc p description i caller force now st = Inr (st', comment)"
  shows "\<exists>stewards d ac. resolveBodiesForRole p ''steward'' None = Inr stewards \<and> caller \<in> set stewards \<and>
     (getAcRecord i st \<noteq> None \<longrightarrow> force) \<and> (comment \<longleftrightarrow> getAcRecord i st \<noteq> None) \<and>
     description = Some d \<and> extractAcFromDescription d = Some ac \<and> ac \<noteq> [] \<and>
     map_option verbatimAc (getAcRecord i st') = Some ac \<and> (\<forall>j. j \<noteq> i \<longrightarrow> getAcRecord j st' = getAcRecord j st)"
  using assms
  by (cases description)
    (auto simp: recaptureAc_def getAcRecord_def captureAc_def truthy_def split: sum.splits if_splits option.splits)

definition ac_ticket :: string where
  "ac_ticket = ''# Goal'' @ [CHR 0x0A] @ ''## Acceptance criteria (draft)'' @ [CHR 0x0A] @ ''- works'' @ [CHR 0x0A] @ ''## Notes'' @ [CHR 0x0A] @ ''- none''"

theorem recapture_is_entitled_witness: "\<exists>d. Some ac_ticket = Some d \<and> extractAcFromDescription d = Some ''- works''"
proof -
  let ?p = "sample_policy\<lparr>bodies := map (\<lambda>b. b\<lparr>fills_roles := [''steward'']\<rparr>) (bodies sample_policy)\<rparr>"
  have "recaptureAc ?p (Some ac_ticket) ''AI-1'' ''ai'' False ''t'' [] =
      Inr ([(''AI-1'', \<lparr>verbatimAc = ''- works'', capturedAt = ''t'', capturedBy = ''ai'', ac_source = ''description''\<rparr>)], False)"
    by code_simp
  from recapture_is_entitled [OF this] show ?thesis by (auto simp: getAcRecord_def map_get_def)
qed

theorem seats_survive_restart_witness:
  "load_seats (Some (persist_seats [(''AI-1'', \<lparr>bd_bindings = [(''reviewer'', ''ai'')], bd_workflowId = ''chore'', bd_recordedAt = ''t''\<rparr>)])) =
     [(''AI-1'', \<lparr>bd_bindings = [(''reviewer'', ''ai'')], bd_workflowId = ''chore'', bd_recordedAt = ''t''\<rparr>)]"
  by (rule seats_survive_restart) (simp add: map_ok_def)

end
