(* ===== verification/TransitionBase.thy ===== *)
theory TransitionBase
  imports DelegateChoice TicketRecords FanoutRun AcGate
begin

text \<open>
  The types of \<open>applyStateTransition\<close> (\<open>src/workflow-gate.ts\<close>): its options, its result, what the services
  answer during the call (\<open>TransitionWorld\<close>, one field per place where an answer is read), and what it
  does (\<open>transition_effect\<close>, in order). A stage of the function returns early with a result (\<open>Inl\<close>) or
  goes on with a value (\<open>Inr\<close>); \<open>andThen\<close> runs two stages one after the other.
\<close>

subsection \<open>Results and effects\<close>

datatype apply_status = Applied | Noop | Blocked | Failed

record TransitionApplyResult =
  ta_status :: apply_status
  ta_code :: string
  ta_from :: "string option"
  ta_to :: "string option"

datatype transition_outcome = Returned TransitionApplyResult | Threw role_error

datatype comment_kind =
    FanoutRefused spec_refusal | DestinationSpecMissing string | ArtifactGateComment | AcCaptureWarning
  | DelegateRemedy delegate_refusal | FanoutFailedComment "(int \<times> fanout_error) list" | FanoutSummary "string list" | DerivedComment nat

datatype transition_effect =
    LabelsSent AtomicInput
  | Wrote write_effect
  | LabelMade label_create
  | AppliedForgotten string
  | AppliedNoted string string
  | ArtifactBound string BoundArtifact
  | ArtifactRemoved string
  | AcCaptured string AcRecord
  | AcRemoved string
  | SeatBound string string string string
  | ImplementerRecorded string string string
  | SeatsCleared string
  | ImplementerRemoved string
  | MirrorDemoted string
  | MirrorRetired string
  | MirrorTerminal string string
  | MirrorMoved string string "string option" string
  | TimeoutSet string int
  | TimeoutCleared string
  | ExitRecorded string yaml
  | NeverSetRecorded string string
  | Woken string string
  | WriteFailureReported "string option" string
  | TerminalSync string "string option" "string option"
  | Commented comment_kind
  | SpecAlert
  | UnverifiableAlert "string list"
  | FindingsWritten "Finding list"
  | DescriptionSent string
  | Fanned fanout_effect
  | OutcomeRecorded string FanoutOutcome
  | Reviewed review_effect
  | Barred barrier_effect
  | Observed string "string option"

type_synonym 'a stage = "(transition_outcome + 'a) \<times> transition_effect list"

definition goOn :: "'a \<Rightarrow> 'a stage" where "goOn x = (Inr x, [])"

definition andThen :: "'a stage \<Rightarrow> ('a \<Rightarrow> 'b stage) \<Rightarrow> 'b stage" where
  "andThen m f = (case m of (Inl r, es) \<Rightarrow> (Inl r, es) | (Inr x, es) \<Rightarrow> (case f x of (y, fs) \<Rightarrow> (y, es @ fs)))"

definition does :: "transition_effect list \<Rightarrow> 'a \<Rightarrow> 'a stage" where "does es x = (Inr x, es)"

definition stop :: "apply_status \<Rightarrow> string \<Rightarrow> string option \<Rightarrow> string option \<Rightarrow> 'a stage" where
  "stop s code f t = (Inl (Returned \<lparr>ta_status = s, ta_code = code, ta_from = f, ta_to = t\<rparr>), [])"

definition stopAfter :: "transition_effect list \<Rightarrow> apply_status \<Rightarrow> string \<Rightarrow> string option \<Rightarrow> string option \<Rightarrow> 'a stage" where
  "stopAfter es s code f t = (Inl (Returned \<lparr>ta_status = s, ta_code = code, ta_from = f, ta_to = t\<rparr>), es)"

lemmas stage_defs = goOn_def does_def stop_def stopAfter_def

subsection \<open>The ticket and the options\<close>

record TicketIssue =
  ti_internalId :: string
  ti_identifier :: string
  ti_teamId :: string
  ti_teamKey :: "string option"
  ti_teamName :: "string option"
  ti_labels :: "LabelNode list"
  ti_delegateId :: "string option"
  ti_assigneeId :: "string option"
  ti_nativeStateId :: "string option"
  ti_requesterUserId :: "string option"

text \<open>The commitment exits recorded for the ticket, in the order the event store returns them.\<close>

datatype event_sink = NoSink | AppendOnly | EventStore "yaml list"

record ApplyOptions =
  ao_bodyId :: "string option"
  ao_artifactRef :: "string option"
  ao_sourceState :: "string option"
  ao_target :: "string option"
  ao_override :: "string option option"
  ao_codeArtifact :: "string option"
  ao_originRepository :: "string option"
  ao_autoAccept :: bool
  ao_mirror :: bool
  ao_wakes :: bool
  ao_verifiesFanout :: bool
  ao_events :: event_sink

definition no_options :: ApplyOptions where
  "no_options = \<lparr>ao_bodyId = None, ao_artifactRef = None, ao_sourceState = None, ao_target = None, ao_override = None,
     ao_codeArtifact = None, ao_originRepository = None, ao_autoAccept = False, ao_mirror = False, ao_wakes = False,
     ao_verifiesFanout = False, ao_events = NoSink\<rparr>"

subsection \<open>What the services answer\<close>

text \<open>The description of the ticket and the bodies of its last comments, oldest first.\<close>

record SpecPage =
  sp_description :: "string option"
  sp_comments :: "string list"

record ReleaseStatus = BranchAndPRStatus +
  githubVerifyUnreachable :: bool

datatype compare_answer = CompareThrew | CompareHttp nat | Compared "string option" bool

datatype retire_answer = RetireThrew | RetireRead "IssueState option"

text \<open>What the engine keeps itself: the states it has just written, the seats, the criteria, the artifacts.\<close>

record Engine =
  en_applied :: applied_store
  en_seats :: seat_store
  en_ac :: ac_store
  en_artifacts :: artifact_store

record TransitionWorld =
  tw_issue :: "TicketIssue option"
  tw_registry :: "(string, WorkflowDef) jsmap option"
  tw_engine :: Engine
  tw_now :: int
  tw_stamp :: string
  tw_manualOutcome :: "FanoutOutcome option"
  tw_manualChildren :: "ChildNode list option"
  tw_labelsWrite :: bool
  tw_retire :: retire_answer
  tw_native :: "(string option \<times> IssueState) option"
  tw_terminalSync :: bool
  tw_specPage :: "nat \<Rightarrow> SpecPage option"
  tw_specRegistry :: "nat \<Rightarrow> string list option"
  tw_armFindings :: "Finding list"
  tw_armWritten :: bool
  tw_structured :: "Finding list"
  tw_structuredThrew :: bool
  tw_enrollment :: EnrollmentPolicy
  tw_destPage :: "SpecPage option"
  tw_labels :: LabelWorld
  tw_release :: "nat \<Rightarrow> ReleaseStatus option"
  tw_token :: bool
  tw_attachmentRepos :: "string list"
  tw_compare :: "string \<Rightarrow> string \<Rightarrow> string \<Rightarrow> string \<Rightarrow> compare_answer"
  tw_review :: "ReviewWorld option"
  tw_description :: "string option"
  tw_agents :: "Agent list"
  tw_policy :: CapabilityPolicy
  tw_teamStates :: "(string \<times> string) list"
  tw_fanout :: "FanoutWorld option"
  tw_write :: WriteWorld
  tw_dispatchRefused :: bool
  tw_outcomeWritten :: bool
  tw_derived :: "Finding list option"
  tw_derivedText :: "string option"
  tw_derivedWritten :: bool
  tw_entryPage :: "SpecPage option"
  tw_barrier :: "(BarrierWorld \<times> BarrierWorld) option"
  tw_parent :: "(string option \<times> BarrierWorld) option"

text \<open>The ticket under way, once it is known to be governed.\<close>

record Run =
  ru_intent :: string
  ru_issueId :: string
  ru_issue :: TicketIssue
  ru_workflow :: string
  ru_def :: WorkflowDef
  ru_from :: "string option"
  ru_options :: ApplyOptions

definition node_at :: "WorkflowDef \<Rightarrow> string option \<Rightarrow> WorkflowState option" where
  "node_at def i = (if truthy i then stateNodeById def i else None)"

definition ru_node :: "Run \<Rightarrow> WorkflowState option" where
  "ru_node r = node_at (ru_def r) (ru_from r)"

definition applied_state :: "TransitionWorld \<Rightarrow> string \<Rightarrow> string option" where
  "applied_state w i = fst (getAppliedState i (tw_now w) (en_applied (tw_engine w)))"

definition label_names :: "TicketIssue \<Rightarrow> string list" where
  "label_names i = map lb_name (ti_labels i)"

definition kept_labels :: "Run \<Rightarrow> bool \<Rightarrow> string list" where
  "kept_labels r strip = retainedLabelIdsForIssue (ti_labels (ru_issue r)) (ti_teamId (ru_issue r)) strip"

definition mirrored :: "Run \<Rightarrow> transition_effect \<Rightarrow> transition_effect list" where
  "mirrored r e = (if ao_mirror (ru_options r) then [e] else [])"

subsection \<open>What the effects leave behind\<close>

definition forget_applied :: "string \<Rightarrow> Engine \<Rightarrow> Engine" where
  "forget_applied i s = s\<lparr>en_applied := clearAppliedState i (en_applied s)\<rparr>"

fun engine_step :: "int \<Rightarrow> string \<Rightarrow> transition_effect \<Rightarrow> Engine \<Rightarrow> Engine" where
  "engine_step now clock (Wrote e) s = s\<lparr>en_applied := store_effect now e (en_applied s)\<rparr>"
| "engine_step now clock (AppliedForgotten i) s = forget_applied i s"
| "engine_step now clock (AppliedNoted i x) s = s\<lparr>en_applied := recordAppliedState i x now (en_applied s)\<rparr>"
| "engine_step now clock (ArtifactBound i a) s = s\<lparr>en_artifacts := bindArtifact i a (en_artifacts s)\<rparr>"
| "engine_step now clock (ArtifactRemoved i) s = s\<lparr>en_artifacts := snd (removeArtifact i (en_artifacts s))\<rparr>"
| "engine_step now clock (AcCaptured i r) s = s\<lparr>en_ac := captureAc i r (en_ac s)\<rparr>"
| "engine_step now clock (AcRemoved i) s = s\<lparr>en_ac := snd (removeAcRecord i (en_ac s))\<rparr>"
| "engine_step now clock (SeatBound i role b cwf) s = s\<lparr>en_seats := recordBinding i role b cwf clock (en_seats s)\<rparr>"
| "engine_step now clock (ImplementerRecorded i b cwf) s = s\<lparr>en_seats := recordImplementer i b cwf clock (en_seats s)\<rparr>"
| "engine_step now clock (SeatsCleared i) s = s\<lparr>en_seats := clearTicketBindings i (en_seats s)\<rparr>"
| "engine_step now clock (ImplementerRemoved i) s = s\<lparr>en_seats := removeImplementer i (en_seats s)\<rparr>"
| "engine_step now clock _ s = s"

definition engine_after :: "int \<Rightarrow> string \<Rightarrow> transition_effect list \<Rightarrow> Engine \<Rightarrow> Engine" where
  "engine_after now clock es s = fold (engine_step now clock) es s"

text \<open>What the ticket service is asked to write on the ticket itself.\<close>

definition writes_ticket :: "transition_effect \<Rightarrow> bool" where
  "writes_ticket e = (case e of LabelsSent _ \<Rightarrow> True | Wrote (Sent _) \<Rightarrow> True | TerminalSync _ _ _ \<Rightarrow> True
     | Reviewed (LabelsReplaced _ _) \<Rightarrow> True | _ \<Rightarrow> False)"

subsection \<open>Laws of the stages\<close>

lemma andThen_simps [simp]:
  "andThen (goOn x) f = f x"
  "andThen (stop s c a b) f = stop s c a b"
  "andThen (stopAfter es s c a b) f = stopAfter es s c a b"
  "andThen (Inl r, es) f = (Inl r, es)"
  "andThen (does [] x) f = f x"
  by (simp_all add: andThen_def stage_defs split: prod.split)

lemma andThen_does: "andThen (does es x) f = (fst (f x), es @ snd (f x))"
  by (simp add: andThen_def stage_defs split: prod.split)

lemma andThen_cases:
  assumes "andThen m f = (y, es)"
  obtains (stopped) out where "m = (Inl out, es)" "y = Inl out"
    | (went_on) x es1 es2 where "m = (Inr x, es1)" "f x = (y, es2)" "es = es1 @ es2"
  using assms by (auto simp: andThen_def split: prod.splits sum.splits)

lemma andThen_assoc: "andThen (andThen m f) g = andThen m (\<lambda>x. andThen (f x) g)"
  by (auto simp: andThen_def split: prod.split sum.split)

text \<open>A stage is quiet about \<open>P\<close> when none of its effects has it.\<close>

definition quiet :: "(transition_effect \<Rightarrow> bool) \<Rightarrow> 'a stage \<Rightarrow> bool" where
  "quiet P m = (\<forall>e \<in> set (snd m). \<not> P e)"

lemma quiet_simps [simp]:
  "quiet P (goOn x)" "quiet P (stop s c a b)"
  "quiet P (does es x) \<longleftrightarrow> (\<forall>e \<in> set es. \<not> P e)"
  "quiet P (stopAfter es s c a b) \<longleftrightarrow> (\<forall>e \<in> set es. \<not> P e)"
  by (auto simp: quiet_def stage_defs)

lemma quiet_andThen: "quiet P m \<Longrightarrow> (\<And>x es. m = (Inr x, es) \<Longrightarrow> quiet P (f x)) \<Longrightarrow> quiet P (andThen m f)"
  by (fastforce simp: quiet_def andThen_def split: prod.split sum.split)

end
