(* ===== verification/TransitionTarget.thy ===== *)
theory TransitionTarget
  imports TransitionBase
begin

text \<open>
  The first half of \<open>applyStateTransition\<close> (\<open>src/workflow-gate.ts\<close>): whether the ticket is governed, the
  guards that refuse a transition by what has been recorded already, the state the intent leads to, and
  the three targets that leave the workflow or follow the native state. The pseudo states of the code
  keep their names.
\<close>

subsection \<open>Whether the ticket is governed\<close>

definition find_ticket :: "TransitionWorld \<Rightarrow> string \<Rightarrow> string option \<Rightarrow> ApplyOptions \<Rightarrow> Run stage" where
  "find_ticket w intent issueId opts =
     (if \<not> truthy issueId then stop Noop ''no-issue-id'' None None
      else case tw_issue w of None \<Rightarrow> stop Failed ''context-fetch-failed'' None None
      | Some issue \<Rightarrow>
      case getWorkflowId (label_names issue) of
        None \<Rightarrow> stop Noop ''ad-hoc'' None None
      | Some workflowId \<Rightarrow>
          if workflowId = [] then stop Noop ''ad-hoc'' None None
          else case tw_registry w of None \<Rightarrow> stop Failed ''registry-load-failed'' None None
          | Some reg \<Rightarrow>
          case map_get reg workflowId of None \<Rightarrow> stop Noop ''unknown-workflow'' None None
          | Some def \<Rightarrow>
              goOn \<lparr>ru_intent = intent, ru_issueId = the issueId, ru_issue = issue, ru_workflow = workflowId, ru_def = def,
                    ru_from = nullish (ao_sourceState opts) (getCurrentState (label_names issue) (Some def)),
                    ru_options = opts\<rparr>)"

subsection \<open>Commitments\<close>

definition getCommitmentGateState :: "WorkflowDef \<Rightarrow> WorkflowState option" where
  "getCommitmentGateState def = List.find (\<lambda>s. s_commitment_gate s \<noteq> None) (d_states def)"

definition accept_target :: "WorkflowDef \<Rightarrow> string option" where
  "accept_target def =
     Option.bind (Option.bind (Option.bind (getCommitmentGateState def) s_commitment_gate) (\<lambda>exits. map_of exits ''accept'')) id"

record CommitmentExit =
  ce_workflow :: string
  ce_from :: string
  ce_exit :: string
  ce_to :: string

definition recorded_events :: "event_sink \<Rightarrow> yaml list" where
  "recorded_events s = (case s of EventStore es \<Rightarrow> es | _ \<Rightarrow> [])"

definition hasRecordedCommitmentExit :: "event_sink \<Rightarrow> bool" where
  "hasRecordedCommitmentExit s = (recorded_events s \<noteq> [])"

definition getRecordedCommitmentExit :: "event_sink \<Rightarrow> CommitmentExit option" where
  "getRecordedCommitmentExit s =
     (case recorded_events s of
        [] \<Rightarrow> None
      | detail # _ \<Rightarrow>
          (case (yaml_get ''workflow'' detail, yaml_get ''from'' detail, yaml_get ''exit'' detail, yaml_get ''to'' detail) of
             (Str a, Str b, Str c, Str d) \<Rightarrow> Some \<lparr>ce_workflow = a, ce_from = b, ce_exit = c, ce_to = d\<rparr>
           | _ \<Rightarrow> None))"

definition exit_detail :: "string \<Rightarrow> string \<Rightarrow> string \<Rightarrow> string \<Rightarrow> bool \<Rightarrow> yaml" where
  "exit_detail workflow source exit to auto =
     Mapping [(''workflow'', Str workflow), (''from'', Str source), (''exit'', Str exit), (''to'', Str to), (''auto'', YBool auto)]"

definition recordCommitmentExitIfMissing :: "Run \<Rightarrow> string \<Rightarrow> string \<Rightarrow> transition_effect list" where
  "recordCommitmentExitIfMissing r exit to =
     (if ao_events (ru_options r) = NoSink \<or> hasRecordedCommitmentExit (ao_events (ru_options r)) then []
      else [ExitRecorded (ti_identifier (ru_issue r))
              (exit_detail (ru_workflow r) (orElse (ru_from r) []) exit to (ao_autoAccept (ru_options r)))])"

definition recordDoingNeverSet :: "Run \<Rightarrow> transition_effect list" where
  "recordDoingNeverSet r =
     (if ao_events (ru_options r) = NoSink then [] else [NeverSetRecorded (ti_identifier (ru_issue r)) (the (ru_from r))])"

definition current_exit :: "Run \<Rightarrow> (string \<times> string) option" where
  "current_exit r = Option.bind (ru_node r) (\<lambda>s. commitmentExitFor s (ru_intent r))"

definition gate_commitment_exit :: "TransitionWorld \<Rightarrow> Run \<Rightarrow> unit stage" where
  "gate_commitment_exit w r =
     (let recorded = getRecordedCommitmentExit (ao_events (ru_options r)) in
      if truthy (ru_from r) \<and> ru_intent r \<noteq> breakGlassCommand (ru_def r) \<and> truthy (accept_target (ru_def r)) \<and>
         ru_from r = accept_target (ru_def r) \<and> recorded = None
      then stopAfter (recordDoingNeverSet r) Failed ''doing-never-set'' (ru_from r) (ru_from r)
      else case (current_exit r, recorded) of
        (Some (exit, to), Some c) \<Rightarrow>
          if ce_exit c \<noteq> exit \<or> ce_to c \<noteq> to then stop Blocked ''commitment-exit-conflict'' (ru_from r) (Some (ce_to c))
          else if applied_state w (ti_identifier (ru_issue r)) = Some (ce_to c)
          then stop Noop ''commitment-exit-already-recorded'' (ru_from r) (Some (ce_to c))
          else goOn ()
      | _ \<Rightarrow> goOn ())"

subsection \<open>The terminal guard\<close>

text \<open>What the engine has just written, else what the ticket shows.\<close>

definition resolved_source :: "TransitionWorld \<Rightarrow> Run \<Rightarrow> string option" where
  "resolved_source w r = nullish (applied_state w (ti_identifier (ru_issue r))) (ru_from r)"

definition gate_terminal :: "TransitionWorld \<Rightarrow> Run \<Rightarrow> unit stage" where
  "gate_terminal w r =
     (if ru_intent r = breakGlassCommand (ru_def r) then goOn ()
      else case node_at (ru_def r) (resolved_source w r) of
        None \<Rightarrow> goOn ()
      | Some s \<Rightarrow>
          if s_kind s = Some ''terminal'' \<and> \<not> (\<exists>t \<in> set (s_transitions s). t_command t = Some (ru_intent r))
          then stop Blocked ''terminal-reentry-guard'' (resolved_source w r) None
          else goOn ())"

subsection \<open>Where the intent leads\<close>

record Destination =
  de_to :: string
  de_transition :: "WorkflowTransition option"
  de_spinePreserved :: bool

definition to_state :: "string \<Rightarrow> Destination" where
  "to_state s = \<lparr>de_to = s, de_transition = None, de_spinePreserved = False\<rparr>"

definition breakGlassTarget :: "WorkflowDef \<Rightarrow> string" where
  "breakGlassTarget def = orElse (Option.bind (d_break_glass def) bg_to) ''escape''"

definition spine_index :: "WorkflowDef \<Rightarrow> string option \<Rightarrow> int" where
  "spine_index def i = (if truthy i then state_rank def (the i) else - 1)"

definition escape_target :: "TransitionWorld \<Rightarrow> Run \<Rightarrow> Destination" where
  "escape_target w r =
     (let source = resolved_source w r; target = breakGlassTarget (ru_def r);
          targetIdx = spine_index (ru_def r) (Some target); currentIdx = spine_index (ru_def r) source;
          terminal = (Option.bind (node_at (ru_def r) source) s_kind = Some ''terminal'')
      in if target = ''__ad_hoc__'' then to_state ''__ad_hoc__''
         else if truthy source \<and> \<not> terminal \<and> targetIdx < currentIdx \<and> 0 \<le> currentIdx
         then (to_state (the source))\<lparr>de_spinePreserved := True\<rparr>
         else if truthy source \<and> \<not> terminal \<and> source = Some target then to_state ''__ad_hoc__''
         else to_state target)"

definition find_command :: "WorkflowState option \<Rightarrow> string \<Rightarrow> WorkflowTransition option" where
  "find_command s c = Option.bind s (\<lambda>n. List.find (\<lambda>t. t_command t = Some c) (s_transitions n))"

definition matched_transition :: "Run \<Rightarrow> WorkflowTransition option" where
  "matched_transition r =
     (case find_command (ru_node r) (ru_intent r) of
        Some t \<Rightarrow> Some t
      | None \<Rightarrow> if ru_intent r = ''force-deploy'' then find_command (ru_node r) ''continue'' else None)"

definition ordinary_target :: "TransitionWorld \<Rightarrow> Run \<Rightarrow> Destination stage" where
  "ordinary_target w r =
     (if \<not> truthy (ru_from r) then stop Failed ''no-state-label'' None None
      else case matched_transition r of
        None \<Rightarrow>
          if ru_intent r = ''complete'' then goOn (to_state ''__terminal_sync__'')
          else stop Failed ''no-transition'' (ru_from r) None
      | Some t \<Rightarrow>
          if ru_intent r = ''continue'' \<and> isBarrierState (ru_node r) \<and>
             getManualBarrierContinueBlockReason (tw_manualOutcome w) (fetchChildren (tw_manualChildren w)) \<noteq> None
          then stop Blocked ''barrier-not-satisfied'' (ru_from r) (t_to t)
          else goOn \<lparr>de_to = orElse (t_to t) [], de_transition = Some t, de_spinePreserved = False\<rparr>)"

definition resolve_target :: "TransitionWorld \<Rightarrow> Run \<Rightarrow> Destination stage" where
  "resolve_target w r =
     (if ru_intent r = breakGlassCommand (ru_def r) then goOn (escape_target w r)
      else if ru_intent r = ''park'' then goOn (to_state ''__ad_hoc__'')
      else if ru_intent r = ''retire'' then goOn (to_state ''__retired__'')
      else if ru_intent r \<in> {''handoff'', ''handoff-work''}
      then if \<not> truthy (ru_from r) then stop Failed ''no-state-label'' None None
           else goOn \<lparr>de_to = the (ru_from r), de_transition = find_command (ru_node r) ''handoff'', de_spinePreserved = False\<rparr>
      else ordinary_target w r)"

subsection \<open>Leaving the workflow\<close>

definition strip_labels :: "Run \<Rightarrow> transition_effect" where
  "strip_labels r = LabelsSent (issueUpdateLabels (kept_labels r True))"

definition leave_ad_hoc :: "TransitionWorld \<Rightarrow> Run \<Rightarrow> Destination \<Rightarrow> unit stage" where
  "leave_ad_hoc w r d =
     (if de_to d \<noteq> ''__ad_hoc__'' then goOn ()
      else let cleaned = (if ru_intent r = ''escape'' then [ArtifactRemoved (ru_issueId r), AcRemoved (ru_issueId r)] else []) in
           if \<not> tw_labelsWrite w
           then stopAfter (cleaned @ [strip_labels r, WriteFailureReported (ru_from r) ''__ad_hoc__''])
                  Failed ''atomic-mutation-failed'' (ru_from r) (Some ''__ad_hoc__'')
           else stopAfter (cleaned @ [strip_labels r, AppliedForgotten (ti_identifier (ru_issue r))] @
                  mirrored r (MirrorDemoted (ti_identifier (ru_issue r))))
                  Applied ''demoted-ad-hoc'' (ru_from r) (Some ''__ad_hoc__''))"

definition leave_retired :: "TransitionWorld \<Rightarrow> Run \<Rightarrow> Destination \<Rightarrow> unit stage" where
  "leave_retired w r d =
     (if de_to d \<noteq> ''__retired__'' then goOn ()
      else let terminal = (case tw_retire w of RetireThrew \<Rightarrow> True | RetireRead s \<Rightarrow> s \<noteq> None \<and> isTerminalIssueState s) in
           if \<not> terminal then stop Blocked ''native-state-not-terminal'' (ru_from r) (Some ''__retired__'')
           else if \<not> tw_labelsWrite w
           then stopAfter [strip_labels r, WriteFailureReported (ru_from r) ''__retired__'']
                  Failed ''atomic-mutation-failed'' (ru_from r) (Some ''__retired__'')
           else stopAfter ([strip_labels r, AppliedForgotten (ti_identifier (ru_issue r))] @
                  mirrored r (MirrorRetired (ti_identifier (ru_issue r))))
                  Applied ''retired'' (ru_from r) (Some ''__retired__''))"

definition sync_terminal :: "TransitionWorld \<Rightarrow> Run \<Rightarrow> Destination \<Rightarrow> unit stage" where
  "sync_terminal w r d =
     (if de_to d \<noteq> ''__terminal_sync__'' then goOn ()
      else if \<not> isTerminalIssueState (map_option snd (tw_native w))
      then stop Blocked ''native-state-not-terminal'' (ru_from r) (Some ''__terminal_sync__'')
      else let native = the (tw_native w);
               idOverride = (if truthy (fst native) then fst native else None);
               nameOverride = (if idOverride \<noteq> None \<or> lower_or_empty (is_type (snd native)) = ''completed'' \<or>
                                  lower_or_empty (is_name (snd native)) = ''done'' then None else Some ''invalid'');
               sync = TerminalSync (ti_identifier (ru_issue r)) idOverride nameOverride
           in if \<not> tw_terminalSync w
              then stopAfter [sync, WriteFailureReported (ru_from r) ''done''] Failed ''atomic-mutation-failed'' (ru_from r) (Some ''done'')
              else stopAfter [sync] Applied ''terminal-sync'' (ru_from r) (Some ''done''))"

definition find_destination :: "TransitionWorld \<Rightarrow> Run \<Rightarrow> Destination stage" where
  "find_destination w r =
     andThen (gate_commitment_exit w r) (\<lambda>_.
     andThen (gate_terminal w r) (\<lambda>_.
     andThen (resolve_target w r) (\<lambda>d.
     andThen (leave_ad_hoc w r d) (\<lambda>_.
     andThen (leave_retired w r d) (\<lambda>_.
     andThen (sync_terminal w r d) (\<lambda>_. goOn d))))))"

end
