(* ===== verification/TransitionGates.thy ===== *)
theory TransitionGates
  imports TransitionTarget
begin

text \<open>
  The gates between the target of a transition and its write (\<open>applyStateTransition\<close> of
  \<open>src/workflow-gate.ts\<close>): the specification of a fan-out on either side, the state that is already there,
  the evidence of a release, the pushed commit of a submission (with \<open>src/artifact.ts\<close>), the disposition
  of a review, the artifact of a sprint and the acceptance criteria of record.
\<close>

subsection \<open>Where a specification is read\<close>

text \<open>\<open>/<!--\s*inf-131:spec-hash:(\S+)\s*for\s*(\S+)\s*-->/\<close>\<close>

definition spec_hash_rx :: rx where
  "spec_hash_rx = cat [Lit ''<!--'', spaces, Lit ''inf-131:spec-hash:'', plus (Cls (\<lambda>c. \<not> is_space c)), spaces, Lit ''for'', spaces,
     plus (Cls (\<lambda>c. \<not> is_space c)), spaces, Lit ''-->'']"

text \<open>
  The description, unless it does not hold the section or has been fanned out from before; then the newest
  comment that holds it; then the description all the same.
\<close>

definition fetchFanoutSpecDescription ::
  "(rat \<Rightarrow> string) \<Rightarrow> (string \<Rightarrow> yaml option) \<Rightarrow> SpecPage option \<Rightarrow> string \<Rightarrow> string option" where
  "fetchFanoutSpecDescription num json page specSource =
     (case page of
        None \<Rightarrow> None
      | Some p \<Rightarrow>
          (let desc = orElse (sp_description p) []; plain = (if desc = [] then None else Some desc) in
           if specSource = [] then plain
           else if extractSpecFindings num json (Some desc) specSource \<noteq> [] \<and> \<not> occurs_in spec_hash_rx desc then Some desc
           else case List.find (\<lambda>b. extractSpecFindings num json (Some b) specSource \<noteq> []) (rev (sp_comments p)) of
                  Some b \<Rightarrow> Some b
                | None \<Rightarrow> plain))"

subsection \<open>The specification of the fan-out being left\<close>

type_synonym pending_fanout = "(FanoutConfig \<times> Finding list) option"

definition structured_section :: "string option \<Rightarrow> Finding list \<Rightarrow> string" where
  "structured_section desc fs =
     (let lf = [CHR 0x0A];
          line = (\<lambda>f. ''- **'' @ fi_title f @ ''**'' @ (if truthy (fi_description f) then '': '' @ the (fi_description f) else []));
          section = ''## Structured'' @ lf @ lf @ join_lines (map line fs)
      in if truthy desc then the desc @ lf @ lf @ section else section)"

definition refuse_spec :: "Run \<Rightarrow> Destination \<Rightarrow> transition_effect list \<Rightarrow> spec_refusal \<Rightarrow> pending_fanout stage" where
  "refuse_spec r d es e = stopAfter (es @ [Commented (FanoutRefused e), SpecAlert]) Failed ''fanout-spec-invalid'' (ru_from r) (Some (de_to d))"

definition read_spec ::
  "(rat \<Rightarrow> string) \<Rightarrow> (string \<Rightarrow> yaml option) \<Rightarrow> TransitionWorld \<Rightarrow> FanoutConfig \<Rightarrow> nat \<Rightarrow> string option \<times> (spec_refusal + Finding list)" where
  "read_spec num json w config attempt =
     (let desc = fetchFanoutSpecDescription num json (tw_specPage w attempt) (spec_source config)
      in (desc, validateFanoutSpec num json (tw_enrollment w) desc config (tw_specRegistry w attempt)))"

text \<open>What is derived from the children before a first refusal, and whether the specification is read again.\<close>

definition derive_spec :: "TransitionWorld \<Rightarrow> FanoutConfig \<Rightarrow> string option \<Rightarrow> bool \<times> transition_effect list" where
  "derive_spec w config desc =
     (if spec_source config = ''findings'' \<and> tw_armFindings w \<noteq> [] then (tw_armWritten w, [FindingsWritten (tw_armFindings w)])
      else if spec_source config = ''structured'' \<and> tw_structured w \<noteq> []
      then (\<not> tw_structuredThrew w, [DescriptionSent (structured_section desc (tw_structured w))])
      else (False, []))"

definition gate_fanout_spec ::
  "(rat \<Rightarrow> string) \<Rightarrow> (string \<Rightarrow> yaml option) \<Rightarrow> TransitionWorld \<Rightarrow> Run \<Rightarrow> Destination \<Rightarrow> pending_fanout stage" where
  "gate_fanout_spec num json w r d =
     (case (if ru_intent r = breakGlassCommand (ru_def r) then None
            else shouldTriggerFanout (ru_def r) (orElse (ru_from r) []) (ru_intent r)) of
        None \<Rightarrow> goOn None
      | Some fanout \<Rightarrow>
          (let config = fanout_config fanout in
           case read_spec num json w config 0 of
             (_, Inr fs) \<Rightarrow> goOn (Some (config, fs))
           | (desc, Inl e) \<Rightarrow>
               (case derive_spec w config desc of
                  (False, es) \<Rightarrow> refuse_spec r d es e
                | (True, es) \<Rightarrow>
                    (case read_spec num json w config 1 of
                       (_, Inr fs) \<Rightarrow> does es (Some (config, fs))
                     | (_, Inl e') \<Rightarrow> refuse_spec r d es e'))))"

subsection \<open>The specification of the fan-out being entered\<close>

definition gate_destination_spec ::
  "(rat \<Rightarrow> string) \<Rightarrow> (string \<Rightarrow> yaml option) \<Rightarrow> TransitionWorld \<Rightarrow> Run \<Rightarrow> Destination \<Rightarrow> pending_fanout \<Rightarrow> unit stage" where
  "gate_destination_spec num json w r d pending =
     (if pending = None \<and> ru_intent r \<noteq> breakGlassCommand (ru_def r) \<and> ru_from r \<noteq> Some (de_to d)
      then (case stateNodeById (ru_def r) (Some (de_to d)) of
              None \<Rightarrow> goOn ()
            | Some s \<Rightarrow>
                (let source = spec_source (fanout_config (s_fanout s)) in
                 if source = [] then goOn ()
                 else if extractSpecFindings num json (fetchFanoutSpecDescription num json (tw_destPage w) source) source = []
                 then stopAfter [Commented (DestinationSpecMissing source), SpecAlert] Failed ''pre-fanout-spec-invalid''
                        (ru_from r) (Some (de_to d))
                 else goOn ()))
      else goOn ())"

subsection \<open>A state that is already there\<close>

definition label_ids_with :: "Run \<Rightarrow> string \<Rightarrow> transition_effect" where
  "label_ids_with r i = LabelsSent (issueUpdateLabels (kept_labels r False @ [i]))"

definition gate_same_state :: "TransitionWorld \<Rightarrow> Run \<Rightarrow> Destination \<Rightarrow> unit stage" where
  "gate_same_state w r d =
     (if ru_intent r = ''handoff-work'' \<or> ru_intent r = breakGlassCommand (ru_def r) \<and> de_spinePreserved d \<or>
         ru_from r \<noteq> Some (de_to d)
      then goOn ()
      else
        let target = ''state:'' @ de_to d; labels = ti_labels (ru_issue r) in
        case List.find (\<lambda>l. lb_name l = target) labels of
          Some own \<Rightarrow>
            if \<exists>l \<in> set labels. starts_with ''state:'' (lb_name l) \<and> lb_name l \<noteq> target
            then stopAfter [label_ids_with r (lb_id own)] (if tw_labelsWrite w then Applied else Failed)
                   (if tw_labelsWrite w then ''stale-label-purged'' else ''atomic-mutation-failed'') (ru_from r) (Some (de_to d))
            else stop Noop ''already-in-state'' (ru_from r) (Some (de_to d))
        | None \<Rightarrow>
            (case findOrCreateLabel (tw_labels w) (ti_teamId (ru_issue r)) target of
               (None, made) \<Rightarrow> stopAfter (map LabelMade made) Failed ''label-resolve-failed'' (ru_from r) (Some (de_to d))
             | (Some i, made) \<Rightarrow>
                 stopAfter (map LabelMade made @ [label_ids_with r i]) (if tw_labelsWrite w then Applied else Failed)
                   (if tw_labelsWrite w then ''re-stamped'' else ''atomic-mutation-failed'') (ru_from r) (Some (de_to d))))"

subsection \<open>Evidence of a release\<close>

definition gate_release_evidence :: "TransitionWorld \<Rightarrow> Run \<Rightarrow> Destination \<Rightarrow> unit stage" where
  "gate_release_evidence w r d =
     (if \<not> (ru_from r \<in> {Some ''merge'', Some ''deploy''} \<and> ru_intent r = ''continue'') then goOn ()
      else case (case tw_release w 0 of None \<Rightarrow> tw_release w 1 | b \<Rightarrow> b) of
        None \<Rightarrow> goOn ()
      | Some b \<Rightarrow>
          let blocked = stop Blocked ''release-gate'' (ru_from r) (Some (de_to d)) in
          if hasMergedPR b then goOn ()
          else if \<not> hasBranch b \<and> \<not> hasPR b then blocked
          else if hasPR b \<and> \<not> prMetadataAvailable b \<and> (\<not> tw_token w \<or> githubVerifyUnreachable b)
          then does (if tw_token w \<and> githubVerifyUnreachable b then [UnverifiableAlert (prUrls b)] else []) ()
          else blocked)"

subsection \<open>A pushed commit\<close>

definition split_last_at :: "string \<Rightarrow> (string \<times> string) option" where
  "split_last_at s =
     (if CHR ''@'' \<notin> set s then None
      else let sha = rev (takeWhile (\<lambda>c. c \<noteq> CHR ''@'') (rev s)) in Some (take (length s - length sha - 1) s, sha))"

definition is_sha :: "string \<Rightarrow> bool" where
  "is_sha s = (7 \<le> length s \<and> length s \<le> 40 \<and> list_all hex_ci s)"

definition parseCodeArtifact :: "string \<Rightarrow> (string \<times> string) option" where
  "parseCodeArtifact operand =
     (case split_last_at (trim operand) of
        None \<Rightarrow> None
      | Some (before, after) \<Rightarrow>
          if before = [] \<or> after = [] then None
          else if trim before = [] \<or> \<not> is_sha (trim after) then None
          else Some (trim before, toLowerCase (trim after)))"

text \<open>\<open>slug.split("/")\<close>, of which the first two parts are used.\<close>

fun split_slash :: "string \<Rightarrow> string list" where
  "split_slash [] = [[]]"
| "split_slash (c # cs) =
     (case split_slash cs of p # ps \<Rightarrow> if c = CHR ''/'' then [] # p # ps else (c # p) # ps | [] \<Rightarrow> [])"

definition verifyCommitReachableOnOrigin ::
  "(string \<Rightarrow> string \<Rightarrow> string \<Rightarrow> string \<Rightarrow> compare_answer) \<Rightarrow> string \<Rightarrow> string \<Rightarrow> string \<Rightarrow> bool \<times> bool" where
  "verifyCommitReachableOnOrigin api repo branch sha =
     (case split_slash (if CHR ''/'' \<in> set repo then repo else ''fancyfleet/'' @ repo) of
        owner # name # _ \<Rightarrow>
          if owner = [] \<or> name = [] then (False, False)
          else (case api owner name branch sha of
                  CompareThrew \<Rightarrow> (False, False)
                | CompareHttp code \<Rightarrow> (False, code = 404)
                | Compared status reachable \<Rightarrow> (reachable \<or> status \<in> {Some ''identical'', Some ''behind''}, True))
      | _ \<Rightarrow> (False, False))"

definition is_submit_claim :: "Run \<Rightarrow> Destination \<Rightarrow> bool" where
  "is_submit_claim r d =
     (ru_intent r = ''submit'' \<and> Option.bind (de_transition d) t_to = Some ''code-review'' \<and>
      Option.bind (de_transition d) t_generic = Some ''continue'' \<and> Option.bind (ru_node r) s_owner_role = Some ''dev'')"

definition gate_pushed :: "TransitionWorld \<Rightarrow> Run \<Rightarrow> Destination \<Rightarrow> unit stage" where
  "gate_pushed w r d =
     (if \<not> is_submit_claim r d then goOn ()
      else let opts = ru_options r; refused = stop Blocked ''push-before-claim'' (ru_from r) (Some (de_to d)) in
        case (if truthy (ao_codeArtifact opts) then parseCodeArtifact (the (ao_codeArtifact opts)) else None) of
          None \<Rightarrow> refused
        | Some (branch, sha) \<Rightarrow>
            let repo = nullish (ao_originRepository opts)
                  (case resolveTicketRepoRefs (label_names (ru_issue r)) (tw_attachmentRepos w) of [] \<Rightarrow> None | x # _ \<Rightarrow> Some x)
            in if \<not> truthy repo then refused
               else case verifyCommitReachableOnOrigin (tw_compare w) (the repo) branch sha of
                      (False, True) \<Rightarrow> refused
                    | _ \<Rightarrow> goOn ())"

subsection \<open>The disposition of a review\<close>

definition gate_disposition :: "TransitionWorld \<Rightarrow> Run \<Rightarrow> Destination \<Rightarrow> unit stage" where
  "gate_disposition w r d =
     (case resolveDisposition (ru_workflow r) (orElse (ru_from r) []) (ru_intent r) of
        None \<Rightarrow> goOn ()
      | Some ToDone \<Rightarrow>
          (case tw_review w of
             None \<Rightarrow> stop Blocked ''parent-ac-gate-error'' (ru_from r) (Some (de_to d))
           | Some v \<Rightarrow>
               (case dispositionToDone v of (res, es) \<Rightarrow>
                  if \<not> dr_applied res
                  then stopAfter (map Reviewed es) Blocked ''parent-ac-gate'' (ru_from r) (Some (de_to d))
                  else stopAfter (map Reviewed es @ [AppliedForgotten (ti_identifier (ru_issue r))]) Applied ''disposition-done''
                         (ru_from r) (Some ''done'')))
      | Some ToSpawning \<Rightarrow>
          (case tw_review w of
             None \<Rightarrow> goOn ()
           | Some v \<Rightarrow>
               (case dispositionToSpawning v of (res, es) \<Rightarrow>
                  if \<not> dr_applied res then does (map Reviewed es) ()
                  else stopAfter (map Reviewed es @ [AppliedForgotten (ti_identifier (ru_issue r))]) Applied ''disposition-spawning''
                         (ru_from r) (Some ''spawning''))))"

subsection \<open>The artifact of a sprint\<close>

definition gate_sprint_artifact :: "TransitionWorld \<Rightarrow> Run \<Rightarrow> Destination \<Rightarrow> unit stage" where
  "gate_sprint_artifact w r d =
     (if ru_workflow r = ''sprint'' \<and> ru_from r = Some ''validating'' \<and> ru_intent r = ''approve'' \<and>
         getBoundArtifact (ru_issueId r) (en_artifacts (tw_engine w)) = None
      then stopAfter [Commented ArtifactGateComment] Blocked ''artifact-gate'' (ru_from r) (Some (de_to d))
      else goOn ())"

subsection \<open>The criteria of record\<close>

text \<open>The description is \<open>None\<close> when it could not be fetched.\<close>

definition gate_ac_of_record :: "TransitionWorld \<Rightarrow> Run \<Rightarrow> Destination \<Rightarrow> unit stage" where
  "gate_ac_of_record w r d =
     (if \<not> ((case de_transition d of None \<Rightarrow> False | Some t \<Rightarrow> t_capture_ac t) \<and> ru_intent r = ''accept'') then goOn ()
      else case tw_description w of
        None \<Rightarrow> does [Commented AcCaptureWarning] ()
      | Some desc \<Rightarrow>
          if truthy (extractAcFromDescription desc)
          then does [AcCaptured (ru_issueId r) \<lparr>verbatimAc = the (extractAcFromDescription desc), capturedAt = tw_stamp w,
                  capturedBy = orElse (ao_bodyId (ru_options r)) ''unknown'', ac_source = ''description''\<rparr>] ()
          else if getAcRecord (ru_issueId r) (en_ac (tw_engine w)) \<noteq> None then goOn ()
          else stopAfter [Commented AcCaptureWarning] Blocked ''ac-of-record-missing'' (ru_from r) (Some (de_to d)))"

subsection \<open>All of them, in order\<close>

definition pass_gates ::
  "(rat \<Rightarrow> string) \<Rightarrow> (string \<Rightarrow> yaml option) \<Rightarrow> TransitionWorld \<Rightarrow> Run \<Rightarrow> Destination \<Rightarrow> pending_fanout stage" where
  "pass_gates num json w r d =
     andThen (gate_fanout_spec num json w r d) (\<lambda>pending.
     andThen (gate_destination_spec num json w r d pending) (\<lambda>_.
     andThen (gate_same_state w r d) (\<lambda>_.
     andThen (gate_release_evidence w r d) (\<lambda>_.
     andThen (gate_pushed w r d) (\<lambda>_.
     andThen (gate_disposition w r d) (\<lambda>_.
     andThen (gate_sprint_artifact w r d) (\<lambda>_.
     andThen (gate_ac_of_record w r d) (\<lambda>_. goOn pending))))))))"

end
