(* ===== verification/StateTransition.thy ===== *)
theory StateTransition
  imports TransitionGates
begin

text \<open>
  The second half of \<open>applyStateTransition\<close> (\<open>src/workflow-gate.ts\<close>): the holder, the seats, the native state, the
  fan-out before the parent moves, the one verified write, and everything that follows it; and the
  function as a whole. Calls whose failure the code only logs are modelled by what they do when they
  succeed, except where the failure changes what follows.
\<close>

subsection \<open>What is resolved before anything is written\<close>

definition delegate_question :: "Run \<Rightarrow> Destination \<Rightarrow> DelegateQuestion" where
  "delegate_question r d = \<lparr>dq_intent = ru_intent r, dq_def = ru_def r, dq_to = de_to d, dq_transition = de_transition d,
     dq_from = ru_from r, dq_target = ao_target (ru_options r), dq_override = ao_override (ru_options r),
     dq_body = ao_bodyId (ru_options r), dq_seated = ti_delegateId (ru_issue r), dq_requester = ti_requesterUserId (ru_issue r),
     dq_context = Some \<lparr>ic_department = None, ic_team = None, ic_teamKey = ti_teamKey (ru_issue r), ic_teamName = ti_teamName (ru_issue r)\<rparr>,
     dq_spinePreserved = de_spinePreserved d\<rparr>"

definition delegate_world :: "TransitionWorld \<Rightarrow> Run \<Rightarrow> DelegateWorld" where
  "delegate_world w r = \<lparr>dw_agents = tw_agents w, dw_policy = tw_policy w,
     dw_binding = (\<lambda>role. getBinding (ru_issueId r) role (en_seats (tw_engine w))),
     dw_implementer = getImplementer (ru_issueId r) (en_seats (tw_engine w))\<rparr>"

definition resolve_label :: "TransitionWorld \<Rightarrow> Run \<Rightarrow> Destination \<Rightarrow> string stage" where
  "resolve_label w r d =
     (case findOrCreateLabel (tw_labels w) (ti_teamId (ru_issue r)) (''state:'' @ de_to d) of
        (None, made) \<Rightarrow> stopAfter (map LabelMade made) Failed ''label-resolve-failed'' (ru_from r) (Some (de_to d))
      | (Some i, made) \<Rightarrow> does (map LabelMade made) i)"

definition resolve_holder :: "TransitionWorld \<Rightarrow> Run \<Rightarrow> Destination \<Rightarrow> string option option stage" where
  "resolve_holder w r d =
     (case chooseDelegate (delegate_world w r) (delegate_question r d) of
        Undecided \<Rightarrow> goOn None
      | Chosen h \<Rightarrow> goOn (Some h)
      | DelegateUnresolved why \<Rightarrow>
          stopAfter [Commented (DelegateRemedy why)] Failed ''delegate-unresolved'' (ru_from r) (Some (de_to d))
      | TargetUnresolved _ \<Rightarrow> stop Failed ''target-unresolved'' (ru_from r) (Some (de_to d))
      | RoleThrows e \<Rightarrow> (Inl (Threw e), []))"

definition dest_node :: "Run \<Rightarrow> Destination \<Rightarrow> WorkflowState option" where
  "dest_node r d = stateNodeById (ru_def r) (Some (de_to d))"

definition holder_user :: "string option option \<Rightarrow> string option" where
  "holder_user h = (case h of Some (Some u) \<Rightarrow> if u = [] then None else Some u | _ \<Rightarrow> None)"

definition holder_agent :: "TransitionWorld \<Rightarrow> string option option \<Rightarrow> Agent option" where
  "holder_agent w h = (case holder_user h of None \<Rightarrow> None | Some u \<Rightarrow> agent_of_user (tw_agents w) u)"

definition returns_to_worker :: "WorkflowDef \<Rightarrow> string \<Rightarrow> bool" where
  "returns_to_worker def to =
     (\<exists>s \<in> set (d_states def). \<exists>t \<in> set (s_transitions s).
        Option.bind (t_assign t) a_default = Some ''prior-implementer'' \<and> t_to t = Some to)"

definition record_seats :: "TransitionWorld \<Rightarrow> Run \<Rightarrow> Destination \<Rightarrow> string option option \<Rightarrow> transition_effect list" where
  "record_seats w r d h =
     (let role = Option.bind (dest_node r d) s_owner_role in
      (if Option.bind (dest_node r d) s_owner_binding = Some ''bound'' \<and> truthy role
       then (case holder_agent w h of None \<Rightarrow> [] | Some a \<Rightarrow> [SeatBound (ru_issueId r) (the role) (ag_name a) (ru_workflow r)])
       else []) @
      (if returns_to_worker (ru_def r) (de_to d) \<and> holder_user h \<noteq> None
       then (case holder_agent w h of
               Some a \<Rightarrow> [ImplementerRecorded (ru_issueId r) (ag_name a) (ru_workflow r)]
             | None \<Rightarrow>
                 if truthy (ao_bodyId (ru_options r))
                 then [ImplementerRecorded (ru_issueId r) (the (ao_bodyId (ru_options r))) (ru_workflow r)] else [])
       else []))"

definition normal_name :: "string \<Rightarrow> string" where
  "normal_name s = filter (\<lambda>c. \<not> is_space c) (toLowerCase s)"

text \<open>The states of the team as (id, name).\<close>

definition resolveNativeStateId :: "(string \<times> string) list \<Rightarrow> string \<Rightarrow> string option" where
  "resolveNativeStateId states semantic =
     (case map_of SEMANTIC_STATE_MAP (toLowerCase semantic) of
        None \<Rightarrow> None
      | Some candidates \<Rightarrow>
          map_option fst (first_some (map (\<lambda>c. List.find (\<lambda>s. normal_name (snd s) = normal_name c) states) candidates)))"

definition resolve_native :: "TransitionWorld \<Rightarrow> Run \<Rightarrow> Destination \<Rightarrow> string option stage" where
  "resolve_native w r d =
     (case dest_node r d of
        None \<Rightarrow> goOn None
      | Some s \<Rightarrow>
          if \<not> truthy (s_native_state s) then stop Failed ''native-state-missing'' (ru_from r) (Some (de_to d))
          else case resolveNativeStateId (tw_teamStates w) (the (s_native_state s)) of
                 None \<Rightarrow> stop Failed ''native-state-unresolved'' (ru_from r) (Some (de_to d))
               | Some i \<Rightarrow> if i = [] then stop Failed ''native-state-unresolved'' (ru_from r) (Some (de_to d)) else goOn (Some i))"

definition preflight_fanout ::
  "(rat \<Rightarrow> string) \<Rightarrow> (string \<Rightarrow> yaml option) \<Rightarrow> TransitionWorld \<Rightarrow> Run \<Rightarrow> Destination \<Rightarrow> pending_fanout \<Rightarrow> FanoutResult option stage" where
  "preflight_fanout num json w r d pending =
     (case pending of
        None \<Rightarrow> goOn None
      | Some (config, fs) \<Rightarrow>
          (case tw_fanout w of
             None \<Rightarrow> stop Failed ''fanout-create-failed'' (ru_from r) (Some (de_to d))
           | Some fw \<Rightarrow>
               (case executeFanout num json fw \<lparr>fo_skipPreview = False, fo_findings = Some fs, fo_existing = None\<rparr> config (ru_issueId r) of
                  (res, es) \<Rightarrow>
                    if deriveFanoutBarrierOutcome res = VFailed \<and> 0 < fr_attempted res \<and> fr_created res = 0
                    then stopAfter (map Fanned es @ [Commented (FanoutFailedComment (fr_errors res))]) Failed ''fanout-create-failed''
                           (ru_from r) (Some (de_to d))
                    else does (map Fanned es) (Some res))))"

subsection \<open>The write\<close>

definition is_terminal_dest :: "Run \<Rightarrow> Destination \<Rightarrow> bool" where
  "is_terminal_dest r d = is_terminal_node (dest_node r d)"

definition write_request :: "Run \<Rightarrow> Destination \<Rightarrow> string \<Rightarrow> string option option \<Rightarrow> string option \<Rightarrow> WriteRequest" where
  "write_request r d labelId h native =
     (let strict = (is_terminal_dest r d \<and> ru_workflow r = ''task''); i = ru_issue r in
      \<lparr>wr_labelIds = kept_labels r False @ [labelId], wr_delegateId = h, wr_nativeStateId = map_option Some native,
       wr_stateName = de_to d, wr_identifier = Some (ti_identifier i),
       wr_snapshot = (if truthy (ru_from r)
         then Some \<lparr>sn_labelIds = map lb_id (ti_labels i), sn_stateName = the (ru_from r), sn_delegateId = ti_delegateId i,
                    sn_assigneeId = ti_assigneeId i, sn_nativeStateId = ti_nativeStateId i\<rparr> else None),
       wr_requireReadable = strict, wr_allowLag = \<not> strict, wr_assigneeOverride = None\<rparr>)"

definition perform_write :: "TransitionWorld \<Rightarrow> Run \<Rightarrow> Destination \<Rightarrow> WriteRequest \<Rightarrow> unit stage" where
  "perform_write w r d q =
     (case issueUpdateAtomicVerified DEFAULT_TRANSITION_WRITE_POLICY (tw_write w) q of
        (out, es) \<Rightarrow>
          if vo_ok out then does (map Wrote es) ()
          else stopAfter (map Wrote es @ [WriteFailureReported (ru_from r) (de_to d)]) Failed
                 (if vo_failureKind out = VerificationFailed then ''post-write-diverge'' else ''atomic-mutation-failed'')
                 (ru_from r) (Some (de_to d)))"

subsection \<open>After the write\<close>

definition mirror_effects :: "TransitionWorld \<Rightarrow> Run \<Rightarrow> Destination \<Rightarrow> string option option \<Rightarrow> transition_effect list" where
  "mirror_effects w r d h =
     mirrored r (if is_terminal_dest r d then MirrorTerminal (ti_identifier (ru_issue r)) (ru_intent r)
                 else MirrorMoved (ti_identifier (ru_issue r)) (de_to d) (map_option ag_name (holder_agent w h)) (ru_intent r))"

definition timeout_effects :: "Run \<Rightarrow> Destination \<Rightarrow> transition_effect list" where
  "timeout_effects r d =
     (let key = toUpperCase (ti_identifier (ru_issue r)) in
      if key = [] then []
      else case Option.bind (dest_node r d) s_noActivityTimeout of
             Some n \<Rightarrow> if 0 < n then [TimeoutSet key (n * 1000)] else [TimeoutCleared key]
           | None \<Rightarrow> [TimeoutCleared key])"

definition exit_effects :: "Run \<Rightarrow> transition_effect list" where
  "exit_effects r = (case current_exit r of None \<Rightarrow> [] | Some (exit, to) \<Rightarrow> recordCommitmentExitIfMissing r exit to)"

definition wake_effects :: "TransitionWorld \<Rightarrow> Run \<Rightarrow> Destination \<Rightarrow> string option option \<Rightarrow> transition_effect list" where
  "wake_effects w r d h =
     (if is_terminal_dest r d \<or> \<not> ao_wakes (ru_options r) then []
      else case holder_agent w h of None \<Rightarrow> [] | Some a \<Rightarrow> [Woken (ag_name a) (de_to d)])"

definition cleanup_effects :: "TransitionWorld \<Rightarrow> Run \<Rightarrow> Destination \<Rightarrow> transition_effect list" where
  "cleanup_effects w r d =
     (if (case de_transition d of None \<Rightarrow> False | Some t \<Rightarrow> t_requires_artifact t) \<and> truthy (ao_artifactRef (ru_options r))
      then [ArtifactBound (ru_issueId r) \<lparr>ba_ref = the (ao_artifactRef (ru_options r)), ba_boundAt = tw_stamp w,
              ba_boundBy = orElse (ao_bodyId (ru_options r)) ''unknown''\<rparr>] else []) @
     (if ru_intent r = ''escape'' \<or> de_to d = ''__ad_hoc__''
      then [ArtifactRemoved (ru_issueId r), AcRemoved (ru_issueId r), SeatsCleared (ru_issueId r)] else []) @
     (if is_terminal_dest r d then [ImplementerRemoved (ru_issueId r)] else [])"

text \<open>The specification of the state that is entered, derived from the children of the phase before.\<close>

definition derive_on_entry ::
  "(rat \<Rightarrow> string) \<Rightarrow> (string \<Rightarrow> yaml option) \<Rightarrow> TransitionWorld \<Rightarrow> Run \<Rightarrow> Destination \<Rightarrow> transition_effect list" where
  "derive_on_entry num json w r d =
     (case dest_node r d of
        None \<Rightarrow> []
      | Some s \<Rightarrow>
          (let config = fanout_config (s_fanout s) in
           if \<not> truthy (auto_derive_from config) then []
           else if extractSpecFindings num json (fetchFanoutSpecDescription num json (tw_entryPage w) []) (spec_source config) \<noteq> [] then []
           else case (tw_derived w, tw_derivedText w) of
                  (Some fs, Some text) \<Rightarrow>
                    DescriptionSent text # (if tw_derivedWritten w then [Commented (DerivedComment (length fs))] else [])
                | _ \<Rightarrow> []))"

definition verdict_outcome :: "fanout_verdict \<Rightarrow> FanoutOutcomeType \<times> string list option" where
  "verdict_outcome v = (case v of VRefused \<Rightarrow> (Refused, None) | VPendingApproval \<Rightarrow> (PendingApproval, None) | VWaived \<Rightarrow> (Waived, None)
     | VFailed \<Rightarrow> (FanoutFailed, None) | VAwaiting ids \<Rightarrow> (Awaiting, Some ids))"

record FanoutReport =
  rp_recorded :: "FanoutOutcome option"
  rp_holdsBarrier :: bool
  rp_effects :: "transition_effect list"

definition report_fanout :: "TransitionWorld \<Rightarrow> Run \<Rightarrow> FanoutResult option \<Rightarrow> FanoutReport" where
  "report_fanout w r result =
     (case result of
        None \<Rightarrow> \<lparr>rp_recorded = None, rp_holdsBarrier = False, rp_effects = []\<rparr>
      | Some f \<Rightarrow>
          (let unread = (fr_spawnIf f = Some FailedIf);
               unverified = (ao_verifiesFanout (ru_options r) \<and> fr_childIdentifiers f \<noteq> [] \<and> tw_dispatchRefused w);
               summary = (if 0 < fr_created f then [Commented (FanoutSummary (fr_childIdentifiers f))] else []);
               v = (if unverified then (FanoutFailed, None) else verdict_outcome (deriveFanoutBarrierOutcome f));
               o' = \<lparr>outcome = fst v, childIdentifiers = snd v, recordedAt = tw_stamp w\<rparr>
           in if unread then \<lparr>rp_recorded = None, rp_holdsBarrier = True, rp_effects = summary\<rparr>
              else if tw_outcomeWritten w
              then \<lparr>rp_recorded = Some o', rp_holdsBarrier = False, rp_effects = summary @ [OutcomeRecorded (ru_issueId r) o']\<rparr>
              else \<lparr>rp_recorded = None, rp_holdsBarrier = True, rp_effects = summary\<rparr>))"

definition told_outcome :: "FanoutOutcome option \<Rightarrow> BarrierWorld \<Rightarrow> BarrierWorld" where
  "told_outcome o' b = (case o' of None \<Rightarrow> b | Some x \<Rightarrow> b\<lparr>bw_outcome := Some x\<rparr>)"

text \<open>The barrier of the state that is entered: whether the parent has already moved on, and the effects.\<close>

definition barrier_on_entry :: "TransitionWorld \<Rightarrow> Run \<Rightarrow> Destination \<Rightarrow> Engine \<Rightarrow> FanoutReport \<Rightarrow> bool \<times> transition_effect list" where
  "barrier_on_entry w r d engine report =
     (if \<not> isBarrierState (dest_node r d) \<or> rp_holdsBarrier report then (False, [])
      else case tw_barrier w of
        None \<Rightarrow> (False, [])
      | Some (b, b') \<Rightarrow>
          (case onManagingEntry (told_outcome (rp_recorded report) b) (told_outcome (rp_recorded report) b')
                  (fst (getAppliedState (ru_issueId r) (tw_now w) (en_applied engine))) of
             None \<Rightarrow> (False, [])
           | Some (res, es) \<Rightarrow>
               (transitioned res,
                map Barred es @ (if transitioned res then [AppliedForgotten (ti_identifier (ru_issue r))] else []))))"

definition observe :: "TransitionWorld \<Rightarrow> Run \<Rightarrow> Destination \<Rightarrow> transition_effect list" where
  "observe w r d =
     (if (case de_transition d of None \<Rightarrow> False | Some t \<Rightarrow> t_feedback_required t)
      then [Observed (ti_identifier (ru_issue r)) (getImplementer (ru_issueId r) (en_seats (tw_engine w)))] else [])"

definition barrier_of_parent :: "TransitionWorld \<Rightarrow> Destination \<Rightarrow> Engine \<Rightarrow> transition_effect list" where
  "barrier_of_parent w d engine =
     (if de_to d \<notin> set TERMINAL_WORKFLOW_STATES then []
      else case tw_parent w of
        None \<Rightarrow> []
      | Some (parent, b) \<Rightarrow>
          (case onChildTerminal parent b (fst (getAppliedState (orElse parent []) (tw_now w) (en_applied engine))) of
             None \<Rightarrow> [] | Some (_, es) \<Rightarrow> map Barred es))"

definition settle ::
  "(rat \<Rightarrow> string) \<Rightarrow> (string \<Rightarrow> yaml option) \<Rightarrow> TransitionWorld \<Rightarrow> Run \<Rightarrow> Destination \<Rightarrow> string option option \<Rightarrow>
   pending_fanout \<Rightarrow> FanoutResult option \<Rightarrow> transition_effect list" where
  "settle num json w r d h pending result =
     (let noted = [AppliedNoted (ti_identifier (ru_issue r)) (de_to d)];
          engine = engine_after (tw_now w) (tw_stamp w) noted (tw_engine w);
          report = report_fanout w r result;
          (moved, barred) = barrier_on_entry w r d engine report
      in noted @ mirror_effects w r d h @ timeout_effects r d @ exit_effects r @ wake_effects w r d h @ cleanup_effects w r d @
         (if pending = None then derive_on_entry num json w r d else []) @ rp_effects report @ barred @
         (if moved then [] else observe w r d @ barrier_of_parent w d engine))"

subsection \<open>The transition\<close>

definition carry_out ::
  "(rat \<Rightarrow> string) \<Rightarrow> (string \<Rightarrow> yaml option) \<Rightarrow> TransitionWorld \<Rightarrow> Run \<Rightarrow> Destination \<Rightarrow> pending_fanout \<Rightarrow> transition_outcome stage" where
  "carry_out num json w r d pending =
     andThen (resolve_label w r d) (\<lambda>labelId.
     andThen (resolve_holder w r d) (\<lambda>h.
     andThen (does (record_seats w r d h) ()) (\<lambda>_.
     andThen (resolve_native w r d) (\<lambda>native.
     andThen (preflight_fanout num json w r d pending) (\<lambda>result.
     andThen (perform_write w r d (write_request r d labelId h native)) (\<lambda>_.
     does (settle num json w r d h pending result)
       (Returned \<lparr>ta_status = Applied, ta_code = ''transition-applied'', ta_from = ru_from r, ta_to = Some (de_to d)\<rparr>)))))))"

definition outcome_of :: "transition_outcome stage \<Rightarrow> transition_outcome \<times> transition_effect list" where
  "outcome_of m = (case m of (Inl x, es) \<Rightarrow> (x, es) | (Inr x, es) \<Rightarrow> (x, es))"

definition applyStateTransition ::
  "(rat \<Rightarrow> string) \<Rightarrow> (string \<Rightarrow> yaml option) \<Rightarrow> TransitionWorld \<Rightarrow> string \<Rightarrow> string option \<Rightarrow> ApplyOptions \<Rightarrow>
   transition_outcome \<times> transition_effect list" where
  "applyStateTransition num json w intent issueId opts =
     outcome_of
       (andThen (find_ticket w intent issueId opts) (\<lambda>r.
        andThen (find_destination w r) (\<lambda>d.
        andThen (pass_gates num json w r d) (\<lambda>pending.
        carry_out num json w r d pending))))"

subsection \<open>Reading a transition back\<close>

lemma Inr_stage [simp]:
  "goOn x = (Inr y, es) \<longleftrightarrow> x = y \<and> es = []" "goOn x \<noteq> (Inl out, es)"
  "stop s c a b \<noteq> (Inr z, es)" "stopAfter fs s c a b \<noteq> (Inr z, es)"
  "does fs x = (Inr y, es) \<longleftrightarrow> x = y \<and> es = fs" "does fs x \<noteq> (Inl out, es)"
  "stop s c a b = (Inl out, es) \<longleftrightarrow> out = Returned \<lparr>ta_status = s, ta_code = c, ta_from = a, ta_to = b\<rparr> \<and> es = []"
  "stopAfter fs s c a b = (Inl out, es) \<longleftrightarrow> out = Returned \<lparr>ta_status = s, ta_code = c, ta_from = a, ta_to = b\<rparr> \<and> es = fs"
  by (auto simp: stage_defs)

lemma andThen_Inr: "andThen m f = (Inr y, es) \<longleftrightarrow> (\<exists>x es1 es2. m = (Inr x, es1) \<and> f x = (Inr y, es2) \<and> es = es1 @ es2)"
  by (auto simp: andThen_def split: prod.splits sum.splits)

lemma andThen_Inl:
  "andThen m f = (Inl out, es) \<longleftrightarrow>
     m = (Inl out, es) \<or> (\<exists>x es1 es2. m = (Inr x, es1) \<and> f x = (Inl out, es2) \<and> es = es1 @ es2)"
  by (auto simp: andThen_def split: prod.splits sum.splits)

lemma ticket_found: "find_ticket w intent issueId opts = (Inr r, es) \<Longrightarrow> es = []"
  by (auto simp: find_ticket_def split: if_splits option.splits)

lemma commitment_passes: "gate_commitment_exit w r = (Inr x, es) \<Longrightarrow> es = []"
  by (auto simp: gate_commitment_exit_def Let_def split: if_splits option.splits prod.splits)

lemma terminal_passes: "gate_terminal w r = (Inr x, es) \<Longrightarrow> es = []"
  by (auto simp: gate_terminal_def split: if_splits option.splits)

lemma target_found: "resolve_target w r = (Inr d, es) \<Longrightarrow> es = []"
  by (auto simp: resolve_target_def ordinary_target_def split: if_splits option.splits)

lemma stays_governed:
  "leave_ad_hoc w r d = (Inr x, es) \<Longrightarrow> es = [] \<and> de_to d \<noteq> ''__ad_hoc__''"
  "leave_retired w r d = (Inr x, es) \<Longrightarrow> es = [] \<and> de_to d \<noteq> ''__retired__''"
  "sync_terminal w r d = (Inr x, es) \<Longrightarrow> es = [] \<and> de_to d \<noteq> ''__terminal_sync__''"
  by (auto simp: leave_ad_hoc_def leave_retired_def sync_terminal_def Let_def split: if_splits)

lemma destination_found:
  assumes "find_destination w r = (Inr d, es)"
  shows "es = []" "gate_commitment_exit w r = (Inr (), [])" "gate_terminal w r = (Inr (), [])" "resolve_target w r = (Inr d, [])"
    "de_to d \<notin> {''__ad_hoc__'', ''__retired__'', ''__terminal_sync__''}"
proof -
  from assms obtain u1 e1 u2 e2 e3 u4 e4 u5 e5 u6 e6 where
    1: "gate_commitment_exit w r = (Inr u1, e1)" and 2: "gate_terminal w r = (Inr u2, e2)" and 3: "resolve_target w r = (Inr d, e3)"
    and 4: "leave_ad_hoc w r d = (Inr u4, e4)" and 5: "leave_retired w r d = (Inr u5, e5)" and 6: "sync_terminal w r d = (Inr u6, e6)"
    and es: "es = e1 @ e2 @ e3 @ e4 @ e5 @ e6"
    unfolding find_destination_def andThen_Inr by auto
  note facts = commitment_passes [OF 1] terminal_passes [OF 2] target_found [OF 3]
    stays_governed(1) [OF 4] stays_governed(2) [OF 5] stays_governed(3) [OF 6]
  show "es = []" "gate_commitment_exit w r = (Inr (), [])" "gate_terminal w r = (Inr (), [])" "resolve_target w r = (Inr d, [])"
    "de_to d \<notin> {''__ad_hoc__'', ''__retired__'', ''__terminal_sync__''}"
    using facts es 1 2 3 by simp_all
qed

lemma transition_cases:
  assumes "applyStateTransition num json w intent issueId opts = (out, es)"
  obtains (ungoverned) "find_ticket w intent issueId opts = (Inl out, es)"
    | (no_destination) r where "find_ticket w intent issueId opts = (Inr r, [])" "find_destination w r = (Inl out, es)"
    | (gated) r d where "find_ticket w intent issueId opts = (Inr r, [])" "find_destination w r = (Inr d, [])"
        "pass_gates num json w r d = (Inl out, es)"
    | (carried) r d pending es1 es2 where "find_ticket w intent issueId opts = (Inr r, [])" "find_destination w r = (Inr d, [])"
        "pass_gates num json w r d = (Inr pending, es1)"
        "carry_out num json w r d pending = (Inl out, es2) \<or> carry_out num json w r d pending = (Inr out, es2)" "es = es1 @ es2"
proof -
  obtain t e1 where t: "find_ticket w intent issueId opts = (t, e1)" by (metis surj_pair)
  show thesis
  proof (cases t)
    case (Inl o1)
    then show thesis using t assms ungoverned by (simp add: applyStateTransition_def outcome_of_def andThen_def)
  next
    case (Inr r)
    then have e1: "find_ticket w intent issueId opts = (Inr r, [])" using t ticket_found by blast
    obtain u e2 where u: "find_destination w r = (u, e2)" by (metis surj_pair)
    show thesis
    proof (cases u)
      case (Inl o2)
      then show thesis using e1 u assms no_destination by (simp add: applyStateTransition_def outcome_of_def andThen_def)
    next
      case (Inr d)
      then have e2: "find_destination w r = (Inr d, [])" using u destination_found(1) by blast
      obtain v e3 where v: "pass_gates num json w r d = (v, e3)" by (metis surj_pair)
      show thesis
      proof (cases v)
        case (Inl o3)
        then show thesis using e1 e2 v assms gated by (simp add: applyStateTransition_def outcome_of_def andThen_def)
      next
        case (Inr pending)
        obtain c e4 where c: "carry_out num json w r d pending = (c, e4)" by (metis surj_pair)
        have "es = e3 @ e4" "c = Inl out \<or> c = Inr out"
          using assms e1 e2 v c Inr by (cases c; simp add: applyStateTransition_def outcome_of_def andThen_def)+
        then show thesis using e1 e2 v c Inr carried by blast
      qed
    qed
  qed
qed

lemma carried_out:
  assumes "carry_out num json w r d pending = (Inr out, es)"
  obtains labelId made h native fes result wes where
    "findOrCreateLabel (tw_labels w) (ti_teamId (ru_issue r)) (''state:'' @ de_to d) = (Some labelId, made)"
    "resolve_holder w r d = (Inr h, [])" "resolve_native w r d = (Inr native, [])"
    "preflight_fanout num json w r d pending = (Inr result, fes)"
    "perform_write w r d (write_request r d labelId h native) = (Inr (), wes)"
    "es = map LabelMade made @ record_seats w r d h @ fes @ wes @ settle num json w r d h pending result"
    "out = Returned \<lparr>ta_status = Applied, ta_code = ''transition-applied'', ta_from = ru_from r, ta_to = Some (de_to d)\<rparr>"
proof -
  have holder: "resolve_holder w r d = (Inr h, es1) \<Longrightarrow> es1 = []" for h es1
    by (auto simp: resolve_holder_def split: delegate_choice.splits)
  have native: "resolve_native w r d = (Inr n, es1) \<Longrightarrow> es1 = []" for n es1
    by (auto simp: resolve_native_def split: option.splits if_splits)
  have label: "resolve_label w r d = (Inr i, es1) \<Longrightarrow>
      \<exists>made. findOrCreateLabel (tw_labels w) (ti_teamId (ru_issue r)) (''state:'' @ de_to d) = (Some i, made) \<and> es1 = map LabelMade made"
    for i es1 by (auto simp: resolve_label_def split: prod.splits option.splits)
  from assms obtain i es1 h es2 n es3 result es4 u es5 where
    l: "resolve_label w r d = (Inr i, es1)" and h: "resolve_holder w r d = (Inr h, es2)" and n: "resolve_native w r d = (Inr n, es3)"
    and f: "preflight_fanout num json w r d pending = (Inr result, es4)"
    and p: "perform_write w r d (write_request r d i h n) = (Inr u, es5)"
    and es: "es = es1 @ es2 @ record_seats w r d h @ es3 @ es4 @ es5 @ settle num json w r d h pending result"
    and out: "out = Returned \<lparr>ta_status = Applied, ta_code = ''transition-applied'', ta_from = ru_from r, ta_to = Some (de_to d)\<rparr>"
    unfolding carry_out_def andThen_Inr by auto
  from label [OF l] obtain made where "findOrCreateLabel (tw_labels w) (ti_teamId (ru_issue r)) (''state:'' @ de_to d) = (Some i, made)"
    "es1 = map LabelMade made" by blast
  moreover have "es2 = []" "es3 = []" using holder [OF h] native [OF n] by simp_all
  ultimately show thesis using that h n f p es out by simp
qed

end
