(* ===== verification/TransitionLaws.thy ===== *)
theory TransitionLaws
  imports StateTransition
begin

text \<open>
  What \<open>applyStateTransition\<close> (theory \<open>StateTransition\<close>) guarantees: its documented results, the one mutation of a
  completed transition, what is left alone when nothing is applied, the gates a completed transition
  has passed, where break-glass and handoff lead, and what the engine remembers afterwards.
\<close>

subsection \<open>The documented results\<close>

definition early_results :: "(string \<times> apply_status) list" where
  "early_results =
     [(''no-issue-id'', Noop), (''ad-hoc'', Noop), (''unknown-workflow'', Noop), (''commitment-exit-already-recorded'', Noop),
      (''already-in-state'', Noop),
      (''commitment-exit-conflict'', Blocked), (''terminal-reentry-guard'', Blocked), (''barrier-not-satisfied'', Blocked),
      (''native-state-not-terminal'', Blocked), (''release-gate'', Blocked), (''push-before-claim'', Blocked), (''parent-ac-gate'', Blocked),
      (''parent-ac-gate-error'', Blocked), (''artifact-gate'', Blocked), (''ac-of-record-missing'', Blocked),
      (''context-fetch-failed'', Failed), (''registry-load-failed'', Failed), (''doing-never-set'', Failed), (''no-state-label'', Failed),
      (''no-transition'', Failed), (''fanout-spec-invalid'', Failed), (''pre-fanout-spec-invalid'', Failed), (''label-resolve-failed'', Failed),
      (''delegate-unresolved'', Failed), (''target-unresolved'', Failed), (''native-state-missing'', Failed), (''native-state-unresolved'', Failed),
      (''fanout-create-failed'', Failed), (''post-write-diverge'', Failed), (''atomic-mutation-failed'', Failed),
      (''demoted-ad-hoc'', Applied), (''retired'', Applied), (''terminal-sync'', Applied), (''stale-label-purged'', Applied),
      (''re-stamped'', Applied), (''disposition-done'', Applied), (''disposition-spawning'', Applied)]"

fun early :: "transition_outcome \<Rightarrow> bool" where
  "early (Returned r) = ((ta_code r, ta_status r) \<in> set early_results)"
| "early (Threw e) = True"

definition stops_early :: "'a stage \<Rightarrow> bool" where
  "stops_early m = (\<forall>out es. m = (Inl out, es) \<longrightarrow> early out)"

lemma stops_early_andThen: "stops_early m \<Longrightarrow> (\<And>x es. m = (Inr x, es) \<Longrightarrow> stops_early (f x)) \<Longrightarrow> stops_early (andThen m f)"
  unfolding stops_early_def andThen_Inl by blast

lemma stops_early_simps [simp]:
  "stops_early (goOn x)" "stops_early (does es x)"
  "stops_early (stop s c a b) \<longleftrightarrow> (c, s) \<in> set early_results"
  "stops_early (stopAfter es s c a b) \<longleftrightarrow> (c, s) \<in> set early_results"
  by (simp_all add: stops_early_def)

lemma early_stages:
  "stops_early (find_ticket w intent issueId opts)" "stops_early (gate_commitment_exit w r)" "stops_early (gate_terminal w r)"
  "stops_early (resolve_target w r)" "stops_early (leave_ad_hoc w r d)" "stops_early (leave_retired w r d)" "stops_early (sync_terminal w r d)"
  by (simp_all add: find_ticket_def gate_commitment_exit_def gate_terminal_def resolve_target_def ordinary_target_def leave_ad_hoc_def
      leave_retired_def sync_terminal_def Let_def early_results_def split: option.split prod.split)

lemma early_gates:
  "stops_early (gate_fanout_spec num json w r d)" "stops_early (gate_destination_spec num json w r d pending)"
  "stops_early (gate_same_state w r d)" "stops_early (gate_release_evidence w r d)" "stops_early (gate_pushed w r d)"
  "stops_early (gate_disposition w r d)" "stops_early (gate_sprint_artifact w r d)" "stops_early (gate_ac_of_record w r d)"
  by (simp_all add: gate_fanout_spec_def refuse_spec_def gate_destination_spec_def gate_same_state_def gate_release_evidence_def gate_pushed_def
      gate_disposition_def gate_sprint_artifact_def gate_ac_of_record_def Let_def early_results_def
      split: option.split prod.split bool.split sum.split disposition.split)

lemma early_writing:
  "stops_early (resolve_label w r d)" "stops_early (resolve_holder w r d)" "stops_early (resolve_native w r d)"
  "stops_early (preflight_fanout num json w r d pending)" "stops_early (perform_write w r d q)"
  by (simp_all add: resolve_label_def resolve_holder_def resolve_native_def preflight_fanout_def perform_write_def Let_def early_results_def
      stops_early_def [of "(Inl (Threw _), [])"] split: option.split prod.split delegate_choice.split)

lemma early_parts:
  "stops_early (find_destination w r)" "stops_early (pass_gates num json w r d)" "stops_early (carry_out num json w r d pending)"
  unfolding find_destination_def pass_gates_def carry_out_def
  by (intro stops_early_andThen early_stages early_gates early_writing stops_early_simps(1,2))+

definition completed :: "Run \<Rightarrow> Destination \<Rightarrow> transition_outcome" where
  "completed r d = Returned \<lparr>ta_status = Applied, ta_code = ''transition-applied'', ta_from = ru_from r, ta_to = Some (de_to d)\<rparr>"

lemma early_or_carried:
  assumes "applyStateTransition num json w intent issueId opts = (out, es)"
  shows "early out \<or> (\<exists>r d pending es1 es2. find_ticket w intent issueId opts = (Inr r, []) \<and> find_destination w r = (Inr d, []) \<and>
     pass_gates num json w r d = (Inr pending, es1) \<and> carry_out num json w r d pending = (Inr out, es2) \<and> es = es1 @ es2 \<and>
     out = completed r d)"
  using assms
proof (cases rule: transition_cases)
  case ungoverned
  then show ?thesis using early_stages(1) unfolding stops_early_def by blast
next
  case (no_destination r)
  then show ?thesis using early_parts(1) unfolding stops_early_def by blast
next
  case (gated r d)
  then show ?thesis using early_parts(2) unfolding stops_early_def by blast
next
  case (carried r d pending es1 es2)
  then show ?thesis using early_parts(3) [of num json w r d pending] carried_out [of num json w r d pending out es2]
    unfolding stops_early_def completed_def by blast
qed


subsection \<open>What reaches the ticket\<close>

text \<open>Effects on the ticket itself; the disposition of a review is told apart.\<close>

definition on_ticket :: "transition_effect \<Rightarrow> bool" where
  "on_ticket e = (case e of LabelsSent _ \<Rightarrow> True | Wrote (Sent _) \<Rightarrow> True | TerminalSync _ _ _ \<Rightarrow> True | _ \<Rightarrow> False)"

lemma on_ticket_simps [simp]:
  "on_ticket (LabelsSent i)" "on_ticket (Wrote (Sent j))" "on_ticket (TerminalSync a b c)"
  "\<not> on_ticket (LabelMade m)" "\<not> on_ticket (Commented c')" "\<not> on_ticket SpecAlert" "\<not> on_ticket (FindingsWritten fs)"
  "\<not> on_ticket (DescriptionSent t)" "\<not> on_ticket (UnverifiableAlert us)" "\<not> on_ticket (Reviewed v)" "\<not> on_ticket (AcCaptured x y)"
  "\<not> on_ticket (Fanned f)" "\<not> on_ticket (SeatBound p q s t)" "\<not> on_ticket (ImplementerRecorded p q s)" "\<not> on_ticket (AppliedNoted p q)"
  "\<not> on_ticket (AppliedForgotten p)" "\<not> on_ticket (Barred b')" "\<not> on_ticket (Observed p z)" "\<not> on_ticket (OutcomeRecorded p o')"
  "\<not> on_ticket (Woken p q)" "\<not> on_ticket (TimeoutSet p n)" "\<not> on_ticket (TimeoutCleared p)" "\<not> on_ticket (ExitRecorded p y')"
  "\<not> on_ticket (MirrorTerminal p q)" "\<not> on_ticket (MirrorMoved p q z s)" "\<not> on_ticket (ArtifactBound p a')" "\<not> on_ticket (ArtifactRemoved p)"
  "\<not> on_ticket (AcRemoved p)" "\<not> on_ticket (SeatsCleared p)" "\<not> on_ticket (ImplementerRemoved p)" "\<not> on_ticket (NeverSetRecorded p q)"
  "\<not> on_ticket (Wrote (AppliedRecorded p q))" "\<not> on_ticket (Wrote (AppliedCleared p))" "\<not> on_ticket (WriteFailureReported z p)"
  "\<not> on_ticket (MirrorDemoted p)" "\<not> on_ticket (MirrorRetired p)"
  by (simp_all add: on_ticket_def)

definition silent :: "transition_effect list \<Rightarrow> bool" where
  "silent es = (\<forall>e \<in> set es. \<not> on_ticket e)"

lemma silent_simps [simp]:
  "silent []" "silent (e # es) \<longleftrightarrow> \<not> on_ticket e \<and> silent es" "silent (es @ fs) \<longleftrightarrow> silent es \<and> silent fs"
  "silent (map Barred bs)" "silent (map Fanned fs')" "silent (map LabelMade ms)" "silent (map Reviewed vs)"
  by (auto simp: silent_def)

lemma silent_parts [simp]:
  "silent (mirror_effects w r d h)" "silent (timeout_effects r d)" "silent (exit_effects r)" "silent (wake_effects w r d h)"
  "silent (cleanup_effects w r d)" "silent (derive_on_entry num json w r d)" "silent (rp_effects (report_fanout w r result))"
  "silent (snd (barrier_on_entry w r d engine report))" "silent (observe w r d)" "silent (barrier_of_parent w d engine)"
  "silent (record_seats w r d h)"
  by (simp_all add: mirror_effects_def mirrored_def timeout_effects_def exit_effects_def recordCommitmentExitIfMissing_def Let_def
      wake_effects_def cleanup_effects_def derive_on_entry_def report_fanout_def barrier_on_entry_def observe_def barrier_of_parent_def
      record_seats_def split: option.split prod.split)

lemma silent_settle: "silent (settle num json w r d h pending result)"
  unfolding settle_def Let_def
  using silent_parts(8) by (auto split: prod.split simp del: silent_parts(8)) (metis silent_parts(8) snd_conv)+

text \<open>A stage that goes on has not rewritten the ticket.\<close>

definition goes_on_quietly :: "'a stage \<Rightarrow> bool" where
  "goes_on_quietly m = (\<forall>x es. m = (Inr x, es) \<longrightarrow> (\<forall>e \<in> set es. \<not> on_ticket e))"

lemma quietly_andThen:
  "goes_on_quietly m \<Longrightarrow> (\<And>x es. m = (Inr x, es) \<Longrightarrow> goes_on_quietly (f x)) \<Longrightarrow> goes_on_quietly (andThen m f)"
  unfolding goes_on_quietly_def andThen_Inr by fastforce

lemma quietly_simps [simp]:
  "goes_on_quietly (goOn x)" "goes_on_quietly (stop s c a b)" "goes_on_quietly (stopAfter es s c a b)"
  "goes_on_quietly (does es x) \<longleftrightarrow> (\<forall>e \<in> set es. \<not> on_ticket e)"
  by (auto simp: goes_on_quietly_def)

lemma quiet_gates:
  "goes_on_quietly (gate_fanout_spec num json w r d)" "goes_on_quietly (gate_destination_spec num json w r d pending)"
  "goes_on_quietly (gate_same_state w r d)" "goes_on_quietly (gate_release_evidence w r d)" "goes_on_quietly (gate_pushed w r d)"
  "goes_on_quietly (gate_disposition w r d)" "goes_on_quietly (gate_sprint_artifact w r d)" "goes_on_quietly (gate_ac_of_record w r d)"
  by (auto simp: gate_fanout_spec_def derive_spec_def refuse_spec_def gate_destination_spec_def gate_same_state_def gate_release_evidence_def
      gate_pushed_def gate_disposition_def gate_sprint_artifact_def gate_ac_of_record_def Let_def
      split: option.split prod.split bool.split sum.split disposition.split if_splits)

lemma gates_rewrite_nothing: "pass_gates num json w r d = (Inr pending, es) \<Longrightarrow> e \<in> set es \<Longrightarrow> \<not> on_ticket e"
proof -
  have "goes_on_quietly (pass_gates num json w r d)"
    unfolding pass_gates_def by (intro quietly_andThen quiet_gates quietly_simps(1))
  then show "pass_gates num json w r d = (Inr pending, es) \<Longrightarrow> e \<in> set es \<Longrightarrow> \<not> on_ticket e"
    unfolding goes_on_quietly_def by blast
qed

lemma fanout_rewrites_nothing: "preflight_fanout num json w r d pending = (Inr res, es) \<Longrightarrow> e \<in> set es \<Longrightarrow> \<not> on_ticket e"
  by (auto simp: preflight_fanout_def split: option.splits prod.splits if_splits)

lemma resolved_holder:
  "resolve_holder w r d = (Inr h, es) \<Longrightarrow>
     chooseDelegate (delegate_world w r) (delegate_question r d) = (case h of None \<Rightarrow> Undecided | Some x \<Rightarrow> Chosen x)"
  by (auto simp: resolve_holder_def split: delegate_choice.splits)

lemma resolved_native:
  "resolve_native w r d = (Inr native, es) \<Longrightarrow>
     (case dest_node r d of None \<Rightarrow> native = None
      | Some s \<Rightarrow> native \<noteq> None \<and> native = resolveNativeStateId (tw_teamStates w) (the (s_native_state s)))"
  by (auto simp: resolve_native_def eq_commute [of "Some _" "resolveNativeStateId _ _"] split: option.splits if_splits)

definition one_mutation :: "Run \<Rightarrow> string \<Rightarrow> string option option \<Rightarrow> string option \<Rightarrow> AtomicInput" where
  "one_mutation r labelId h native = issueUpdateAtomic (kept_labels r False @ [labelId]) h (map_option Some native) None"


subsection \<open>What is left alone when nothing is applied\<close>

fun unwritten :: "transition_outcome \<Rightarrow> bool" where
  "unwritten (Returned r) = (ta_status r \<noteq> Applied \<and> ta_code r \<notin> {''post-write-diverge'', ''atomic-mutation-failed''})"
| "unwritten (Threw e) = True"

definition stops_silently :: "'a stage \<Rightarrow> bool" where
  "stops_silently m = (\<forall>out es. m = (Inl out, es) \<and> unwritten out \<longrightarrow> silent es)"

lemma silently_andThen:
  "stops_silently m \<Longrightarrow> goes_on_quietly m \<Longrightarrow> (\<And>x es. m = (Inr x, es) \<Longrightarrow> stops_silently (f x)) \<Longrightarrow> stops_silently (andThen m f)"
  unfolding stops_silently_def goes_on_quietly_def andThen_Inl silent_def by fastforce

lemma silently_simps [simp]:
  "stops_silently (goOn x)" "stops_silently (does es x)" "stops_silently (stop s c a b)"
  "stops_silently (stopAfter es s c a b) \<longleftrightarrow> (s = Applied \<or> c \<in> {''post-write-diverge'', ''atomic-mutation-failed''} \<or> silent es)"
  by (auto simp: stops_silently_def)

lemma silent_stages:
  "stops_silently (find_ticket w intent issueId opts)" "stops_silently (gate_commitment_exit w r)" "stops_silently (gate_terminal w r)"
  "stops_silently (resolve_target w r)" "stops_silently (leave_ad_hoc w r d)" "stops_silently (leave_retired w r d)" "stops_silently (sync_terminal w r d)"
  by (simp_all add: find_ticket_def gate_commitment_exit_def recordDoingNeverSet_def gate_terminal_def resolve_target_def ordinary_target_def
      leave_ad_hoc_def leave_retired_def sync_terminal_def Let_def split: option.split prod.split)

lemma quiet_stages:
  "goes_on_quietly (find_ticket w intent issueId opts)" "goes_on_quietly (gate_commitment_exit w r)" "goes_on_quietly (gate_terminal w r)"
  "goes_on_quietly (resolve_target w r)" "goes_on_quietly (leave_ad_hoc w r d)" "goes_on_quietly (leave_retired w r d)" "goes_on_quietly (sync_terminal w r d)"
  by (simp_all add: find_ticket_def gate_commitment_exit_def gate_terminal_def resolve_target_def ordinary_target_def
      leave_ad_hoc_def leave_retired_def sync_terminal_def Let_def split: option.split prod.split)

lemma derive_is_silent: "derive_spec w config desc = (b, es) \<Longrightarrow> silent es"
  by (auto simp: derive_spec_def split: if_splits)

lemma silent_gates:
  "stops_silently (gate_fanout_spec num json w r d)" "stops_silently (gate_destination_spec num json w r d pending)"
  "stops_silently (gate_same_state w r d)" "stops_silently (gate_release_evidence w r d)" "stops_silently (gate_pushed w r d)"
  "stops_silently (gate_disposition w r d)" "stops_silently (gate_sprint_artifact w r d)" "stops_silently (gate_ac_of_record w r d)"
  by (simp_all add: gate_fanout_spec_def derive_is_silent refuse_spec_def gate_destination_spec_def gate_same_state_def gate_release_evidence_def
      gate_pushed_def gate_disposition_def gate_sprint_artifact_def gate_ac_of_record_def Let_def
      split: option.split prod.split bool.split sum.split disposition.split)

lemma silent_writing:
  "stops_silently (resolve_label w r d)" "stops_silently (resolve_holder w r d)" "stops_silently (resolve_native w r d)"
  "stops_silently (preflight_fanout num json w r d pending)" "stops_silently (perform_write w r d q)"
  "goes_on_quietly (resolve_label w r d)" "goes_on_quietly (resolve_holder w r d)" "goes_on_quietly (resolve_native w r d)"
  "goes_on_quietly (preflight_fanout num json w r d pending)"
  by (simp_all add: resolve_label_def resolve_holder_def resolve_native_def preflight_fanout_def perform_write_def Let_def
      stops_silently_def [of "(Inl (Threw _), [])"] goes_on_quietly_def [of "(Inl (Threw _), [])"] silent_def [symmetric]
      split: option.split prod.split delegate_choice.split)

lemma silent_parts_of_transition:
  "stops_silently (find_destination w r)" "goes_on_quietly (find_destination w r)"
  "stops_silently (pass_gates num json w r d)" "goes_on_quietly (pass_gates num json w r d)"
  unfolding find_destination_def pass_gates_def
  by (intro silently_andThen quietly_andThen silent_stages quiet_stages silent_gates quiet_gates silently_simps(1) quietly_simps(1))+

lemma silent_carry_out: "stops_silently (carry_out num json w r d pending)"
proof -
  have last_stage: "stops_silently (andThen (perform_write w r d q) (\<lambda>_. does es x))" for q es and x :: transition_outcome
    using silent_writing(5) [of w r d q] unfolding stops_silently_def andThen_Inl by auto
  have seats: "goes_on_quietly (does (record_seats w r d h) ())" for h
    using silent_parts(11) [of w r d h] by (simp add: silent_def)
  note chain = silently_andThen [OF silent_writing(1,6)] silently_andThen [OF silent_writing(2,7)]
    silently_andThen [OF silently_simps(2) seats] silently_andThen [OF silent_writing(3,8)] silently_andThen [OF silent_writing(4,9)]
  show ?thesis unfolding carry_out_def by (rule chain(1), rule chain(2), rule chain(3), rule chain(4), rule chain(5), rule last_stage)
qed


text \<open>
  C7: A terminal state is not left by an ordinary command: where the state the engine has just written, or
  else the state the ticket shows, is terminal and declares no transition for the command, every command but
  break-glass is stopped by a guard that names it, and nothing reaches the ticket.
\<close>

theorem terminal_state_is_not_left:
  assumes ticket: "find_ticket w intent issueId opts = (Inr r, [])" and "intent \<noteq> breakGlassCommand (ru_def r)"
    and "node_at (ru_def r) (resolved_source w r) = Some s" "s_kind s = Some ''terminal''"
    and "\<forall>t \<in> set (s_transitions s). t_command t \<noteq> Some intent"
  shows "\<exists>res es. applyStateTransition num json w intent issueId opts = (Returned res, es) \<and> silent es \<and> ta_status res \<noteq> Applied \<and>
     ta_code res \<in> {''doing-never-set'', ''commitment-exit-conflict'', ''commitment-exit-already-recorded'', ''terminal-reentry-guard''}"
proof -
  have intent: "ru_intent r = intent" using ticket by (auto simp: find_ticket_def split: if_splits option.splits)
  have guard: "gate_terminal w r = stop Blocked ''terminal-reentry-guard'' (resolved_source w r) None"
    using assms(2-5) by (auto simp: gate_terminal_def intent)
  obtain x es1 where c: "gate_commitment_exit w r = (x, es1)" by (metis surj_pair)
  show ?thesis
  proof (cases x)
    case (Inr u)
    then have "find_destination w r = stop Blocked ''terminal-reentry-guard'' (resolved_source w r) None"
      using c commitment_passes [of w r u es1] guard by (simp add: find_destination_def andThen_def stage_defs)
    then show ?thesis using ticket by (simp add: applyStateTransition_def outcome_of_def andThen_def stage_defs)
  next
    case (Inl out)
    then have "find_destination w r = (Inl out, es1)" using c by (simp add: find_destination_def)
    moreover have "\<exists>res. out = Returned res \<and> ta_status res \<noteq> Applied \<and> silent es1 \<and>
        ta_code res \<in> {''doing-never-set'', ''commitment-exit-conflict'', ''commitment-exit-already-recorded''}"
      using c Inl by (auto simp: gate_commitment_exit_def recordDoingNeverSet_def Let_def split: if_splits option.splits prod.splits)
    ultimately show ?thesis using ticket by (auto simp: applyStateTransition_def outcome_of_def andThen_def)
  qed
qed

subsection \<open>What a completed transition has been checked for\<close>

lemma gates_passed:
  assumes "pass_gates num json w r d = (Inr pending, es)"
  obtains e1 e3 e4 e5 e6 e7 e8 where "gate_fanout_spec num json w r d = (Inr pending, e1)" "gate_same_state w r d = (Inr (), e3)"
    "gate_release_evidence w r d = (Inr (), e4)"
    "gate_pushed w r d = (Inr (), e5)" "gate_disposition w r d = (Inr (), e6)" "gate_sprint_artifact w r d = (Inr (), e7)"
    "gate_ac_of_record w r d = (Inr (), e8)" "set e8 \<subseteq> set es"
proof -
  from assms obtain e1 u2 e2 u3 e3 u4 e4 u5 e5 u6 e6 u7 e7 u8 e8 where
    "gate_fanout_spec num json w r d = (Inr pending, e1)" "gate_destination_spec num json w r d pending = (Inr u2, e2)"
    "gate_same_state w r d = (Inr u3, e3)" "gate_release_evidence w r d = (Inr u4, e4)" "gate_pushed w r d = (Inr u5, e5)"
    "gate_disposition w r d = (Inr u6, e6)" "gate_sprint_artifact w r d = (Inr u7, e7)" "gate_ac_of_record w r d = (Inr u8, e8)"
    "es = e1 @ e2 @ e3 @ e4 @ e5 @ e6 @ e7 @ e8"
    unfolding pass_gates_def andThen_Inr by auto
  then show thesis by (intro that [of e1 e3 e4 e5 e6 e7 e8]) auto
qed

lemma release_passed:
  assumes "gate_release_evidence w r d = (Inr x, es)" and "ru_from r \<in> {Some ''merge'', Some ''deploy''}" "ru_intent r = ''continue''"
    and "(case tw_release w 0 of None \<Rightarrow> tw_release w 1 | b \<Rightarrow> b) = Some b"
  shows "hasMergedPR b \<or> hasPR b \<and> \<not> prMetadataAvailable b \<and> (\<not> tw_token w \<or> githubVerifyUnreachable b)"
  using assms by (auto simp: gate_release_evidence_def Let_def split: if_splits)

lemma split_last_at_sha: "parseCodeArtifact a = Some (branch, sha) \<Longrightarrow> branch \<noteq> [] \<and> 7 \<le> length sha"
  by (auto simp: parseCodeArtifact_def is_sha_def toLowerCase_def split: option.splits prod.splits if_splits)

lemma pushed_passed:
  assumes "gate_pushed w r d = (Inr x, es)" and "is_submit_claim r d"
  shows "\<exists>a branch sha repo. ao_codeArtifact (ru_options r) = Some a \<and> parseCodeArtifact a = Some (branch, sha) \<and>
     nullish (ao_originRepository (ru_options r))
       (case resolveTicketRepoRefs (label_names (ru_issue r)) (tw_attachmentRepos w) of [] \<Rightarrow> None | p # _ \<Rightarrow> Some p) = Some repo \<and>
     verifyCommitReachableOnOrigin (tw_compare w) repo branch sha \<noteq> (False, True)"
  using assms by (auto simp: gate_pushed_def truthy_def Let_def split: if_splits option.splits prod.splits bool.splits)

lemma fanout_spec_passed:
  assumes "gate_fanout_spec num json w r d = (Inr (Some (config, fs)), es)"
  shows "\<exists>n desc. n < 2 \<and> desc = fetchFanoutSpecDescription num json (tw_specPage w n) (spec_source config) \<and>
     validateFanoutSpec num json (tw_enrollment w) desc config (tw_specRegistry w n) = Inr fs"
  using assms by (auto simp: gate_fanout_spec_def refuse_spec_def read_spec_def Let_def
      split: if_splits option.splits sum.splits prod.splits bool.splits intro: exI [of _ "0 :: nat"] exI [of _ "1 :: nat"])

lemma ac_passed:
  assumes "gate_ac_of_record w r d = (Inr x, es)" and "de_transition d = Some t" "t_capture_ac t" "ru_intent r = ''accept''"
    and "tw_description w = Some desc"
  shows "getAcRecord (ru_issueId r) (en_ac (tw_engine w)) \<noteq> None \<or>
     (\<exists>a. AcCaptured (ru_issueId r) a \<in> set es \<and> Some (verbatimAc a) = extractAcFromDescription desc \<and> verbatimAc a \<noteq> [])"
  using assms by (auto simp: gate_ac_of_record_def truthy_def split: if_splits option.splits)


text \<open>
  Break-glass keeps the position or reopens: on a ticket beyond the target of break-glass in a state that is
  not terminal, break-glass stays at that state and clears the holder, whatever override was given;
  anywhere else, a terminal state included, it leads to the target.
\<close>

theorem break_glass_keeps_or_reopens:
  assumes "ru_intent r = breakGlassCommand (ru_def r)" and "find_destination w r = (Inr d, [])"
  defines "source \<equiv> resolved_source w r"
  shows "if truthy source \<and> Option.bind (node_at (ru_def r) source) s_kind \<noteq> Some ''terminal'' \<and>
            spine_index (ru_def r) (Some (breakGlassTarget (ru_def r))) < spine_index (ru_def r) source \<and> 0 \<le> spine_index (ru_def r) source
     then Some (de_to d) = source \<and> chooseDelegate (delegate_world w r) (delegate_question r d) = Chosen None \<and>
          gate_same_state w r d = goOn ()
     else de_to d = breakGlassTarget (ru_def r) \<and> \<not> de_spinePreserved d"
proof -
  from destination_found(4,5) [OF assms(2)] have d: "d = escape_target w r" "de_to d \<noteq> ''__ad_hoc__''"
    using assms(1) by (simp_all add: resolve_target_def)
  then show ?thesis
    using assms(1) unfolding d(1) source_def
    by (auto simp: escape_target_def Let_def to_state_def truthy_def chooseDelegate_def delegate_question_def gate_same_state_def
        split: if_splits option.splits)
qed

text \<open>
  A plain handoff never hands anything on: the command \<open>handoff\<close> of a ticket with a state leads back to
  that state and is stopped there as already done (or after repairing its labels), so it never
  completes and no holder is written; only \<open>handoff-work\<close> is let through.
\<close>

theorem handoff_never_completes:
  assumes "applyStateTransition num json w ''handoff'' issueId opts = (Returned res, es)"
    and "find_ticket w ''handoff'' issueId opts = (Inr r, [])" and "breakGlassCommand (ru_def r) \<noteq> ''handoff''"
  shows "ta_code res \<noteq> ''transition-applied''"
proof
  assume "ta_code res = ''transition-applied''"
  then have "\<not> early (Returned res)" by (auto simp: early_results_def)
  with early_or_carried [OF assms(1)] assms(2) obtain d pending es1 where
    f: "find_destination w r = (Inr d, [])" and g: "pass_gates num json w r d = (Inr pending, es1)" by auto
  have intent: "ru_intent r = ''handoff''" using assms(2) by (auto simp: find_ticket_def split: if_splits option.splits)
  from destination_found(4) [OF f] intent assms(3) have "ru_from r = Some (de_to d)"
    by (auto simp: resolve_target_def truthy_def split: if_splits option.splits)
  then have "\<exists>out es. gate_same_state w r d = (Inl out, es)"
    using intent assms(3) by (auto simp: gate_same_state_def Let_def stage_defs split: option.split prod.split)
  then show False by (rule exE) (use gates_passed [OF g] in \<open>metis Inl_Inr_False prod.inject\<close>)
qed

subsection \<open>What the engine remembers afterwards\<close>

lemma engine_after_simps [simp]:
  "engine_after now clock [] s = s"
  "engine_after now clock (e # es) s = engine_after now clock es (engine_step now clock e s)"
  "engine_after now clock (es @ fs) s = engine_after now clock fs (engine_after now clock es s)"
  by (simp_all add: engine_after_def)

definition touches_seats :: "transition_effect \<Rightarrow> bool" where
  "touches_seats e = (case e of SeatBound _ _ _ _ \<Rightarrow> True | ImplementerRecorded _ _ _ \<Rightarrow> True | SeatsCleared _ \<Rightarrow> True
     | ImplementerRemoved _ \<Rightarrow> True | _ \<Rightarrow> False)"

definition touches_applied :: "transition_effect \<Rightarrow> bool" where
  "touches_applied e = (case e of Wrote _ \<Rightarrow> True | AppliedForgotten _ \<Rightarrow> True | AppliedNoted _ _ \<Rightarrow> True | _ \<Rightarrow> False)"

definition seatless :: "transition_effect list \<Rightarrow> bool" where "seatless es = (\<forall>e \<in> set es. \<not> touches_seats e)"
definition stateless :: "transition_effect list \<Rightarrow> bool" where "stateless es = (\<forall>e \<in> set es. \<not> touches_applied e)"

lemma kept_by_step:
  "\<not> touches_seats e \<Longrightarrow> en_seats (engine_step now clock e s) = en_seats s"
  "\<not> touches_applied e \<Longrightarrow> en_applied (engine_step now clock e s) = en_applied s"
  by (cases e; simp add: touches_seats_def touches_applied_def forget_applied_def)+

lemma kept_by_effects:
  "seatless es \<Longrightarrow> en_seats (engine_after now clock es s) = en_seats s"
  "stateless es \<Longrightarrow> en_applied (engine_after now clock es s) = en_applied s"
  by (induction es arbitrary: s) (simp_all add: seatless_def stateless_def kept_by_step)

lemma seatless_simps [simp]:
  "seatless []" "seatless (e # es) \<longleftrightarrow> \<not> touches_seats e \<and> seatless es" "seatless (es @ fs) \<longleftrightarrow> seatless es \<and> seatless fs"
  "seatless (map Barred bs)" "seatless (map Fanned fs')" "seatless (map LabelMade ms)" "seatless (map Reviewed vs)" "seatless (map Wrote ws)"
  by (auto simp: seatless_def touches_seats_def)

lemma stateless_simps [simp]:
  "stateless []" "stateless (e # es) \<longleftrightarrow> \<not> touches_applied e \<and> stateless es" "stateless (es @ fs) \<longleftrightarrow> stateless es \<and> stateless fs"
  "stateless (map Barred bs)" "stateless (map Fanned fs')" "stateless (map LabelMade ms)" "stateless (map Reviewed vs)"
  by (auto simp: stateless_def touches_applied_def)

lemma seatless_parts [simp]:
  "seatless (mirror_effects w r d h)" "seatless (timeout_effects r d)" "seatless (exit_effects r)" "seatless (wake_effects w r d h)"
  "seatless (derive_on_entry num json w r d)" "seatless (rp_effects (report_fanout w r result))"
  "seatless (snd (barrier_on_entry w r d engine report))" "seatless (observe w r d)" "seatless (barrier_of_parent w d engine)"
  by (simp_all add: mirror_effects_def mirrored_def timeout_effects_def exit_effects_def recordCommitmentExitIfMissing_def Let_def
      wake_effects_def derive_on_entry_def report_fanout_def barrier_on_entry_def observe_def barrier_of_parent_def touches_seats_def
      split: option.split prod.split)

lemma stateless_parts [simp]:
  "stateless (mirror_effects w r d h)" "stateless (timeout_effects r d)" "stateless (exit_effects r)" "stateless (wake_effects w r d h)"
  "stateless (cleanup_effects w r d)" "stateless (derive_on_entry num json w r d)" "stateless (rp_effects (report_fanout w r result))"
  "stateless (observe w r d)" "stateless (barrier_of_parent w d engine)"
  by (simp_all add: mirror_effects_def mirrored_def timeout_effects_def exit_effects_def recordCommitmentExitIfMissing_def Let_def
      wake_effects_def cleanup_effects_def derive_on_entry_def report_fanout_def observe_def barrier_of_parent_def touches_applied_def
      split: option.split prod.split)

lemma settle_parts:
  obtains pre post where "settle num json w r d h pending result = AppliedNoted (ti_identifier (ru_issue r)) (de_to d) # pre @ cleanup_effects w r d @ post"
    "seatless pre" "seatless post" "stateless pre"
    "stateless post \<or> isBarrierState (dest_node r d) \<and> (\<exists>p1 p2. post = p1 @ AppliedForgotten (ti_identifier (ru_issue r)) # p2 \<and> stateless p1 \<and> stateless p2)"
proof -
  let ?engine = "engine_after (tw_now w) (tw_stamp w) [AppliedNoted (ti_identifier (ru_issue r)) (de_to d)] (tw_engine w)"
  let ?report = "report_fanout w r result"
  obtain moved barred where b: "barrier_on_entry w r d ?engine ?report = (moved, barred)" by (metis surj_pair)
  have seatless: "seatless barred" using seatless_parts(7) b by (metis snd_conv)
  have applied: "if moved then isBarrierState (dest_node r d) \<and>
       (\<exists>bs. barred = map Barred bs @ [AppliedForgotten (ti_identifier (ru_issue r))]) else stateless barred"
    using b by (auto simp: barrier_on_entry_def touches_applied_def split: if_splits option.splits prod.splits)
  let ?pre = "mirror_effects w r d h @ timeout_effects r d @ exit_effects r @ wake_effects w r d h"
  let ?derived = "if pending = None then derive_on_entry num json w r d else []"
  let ?last = "if moved then [] else observe w r d @ barrier_of_parent w d ?engine"
  have "stateless (?derived @ rp_effects ?report @ barred @ ?last) \<or>
      isBarrierState (dest_node r d) \<and> (\<exists>p1 p2. ?derived @ rp_effects ?report @ barred @ ?last =
        p1 @ AppliedForgotten (ti_identifier (ru_issue r)) # p2 \<and> stateless p1 \<and> stateless p2)"
  proof (cases moved)
    case True
    then obtain bs where "barred = map Barred bs @ [AppliedForgotten (ti_identifier (ru_issue r))]" "isBarrierState (dest_node r d)"
      using applied by auto
    then show ?thesis using True
      by (intro disjI2 conjI exI [of _ "?derived @ rp_effects ?report @ map Barred bs"] exI [of _ "[]"]) simp_all
  next
    case False
    then show ?thesis using applied by simp
  qed
  moreover have "settle num json w r d h pending result = AppliedNoted (ti_identifier (ru_issue r)) (de_to d) # ?pre @ cleanup_effects w r d @
      (?derived @ rp_effects ?report @ barred @ ?last)"
    using b by (simp add: settle_def Let_def)
  ultimately show thesis using seatless by (intro that [of ?pre "?derived @ rp_effects ?report @ barred @ ?last"]) simp_all
qed

text \<open>Stages before the holder is resolved bind no seat, and nothing after it returns as applied but the end.\<close>

definition binds_no_seat :: "'a stage \<Rightarrow> bool" where "binds_no_seat m = seatless (snd m)"

lemma no_seat_andThen: "binds_no_seat m \<Longrightarrow> (\<And>x es. m = (Inr x, es) \<Longrightarrow> binds_no_seat (f x)) \<Longrightarrow> binds_no_seat (andThen m f)"
  by (auto simp: binds_no_seat_def andThen_def split: prod.split sum.split)

lemma no_seat_simps [simp]:
  "binds_no_seat (goOn x)" "binds_no_seat (does es x) = seatless es" "binds_no_seat (stop s c a b)"
  "binds_no_seat (stopAfter es s c a b) = seatless es"
  by (simp_all add: binds_no_seat_def stage_defs)

lemma no_seat_stages:
  "binds_no_seat (find_ticket w intent issueId opts)" "binds_no_seat (gate_commitment_exit w r)" "binds_no_seat (gate_terminal w r)"
  "binds_no_seat (resolve_target w r)" "binds_no_seat (leave_ad_hoc w r d)" "binds_no_seat (leave_retired w r d)" "binds_no_seat (sync_terminal w r d)"
  by (simp_all add: find_ticket_def gate_commitment_exit_def recordDoingNeverSet_def gate_terminal_def resolve_target_def ordinary_target_def
      leave_ad_hoc_def leave_retired_def sync_terminal_def strip_labels_def mirrored_def Let_def touches_seats_def split: option.split prod.split)

lemma derive_binds_no_seat: "derive_spec w config desc = (b, es) \<Longrightarrow> seatless es"
  by (auto simp: derive_spec_def touches_seats_def split: if_splits)

lemma no_seat_gates:
  "binds_no_seat (gate_fanout_spec num json w r d)" "binds_no_seat (gate_destination_spec num json w r d pending)"
  "binds_no_seat (gate_same_state w r d)" "binds_no_seat (gate_release_evidence w r d)" "binds_no_seat (gate_pushed w r d)"
  "binds_no_seat (gate_disposition w r d)" "binds_no_seat (gate_sprint_artifact w r d)" "binds_no_seat (gate_ac_of_record w r d)"
  by (simp_all add: gate_fanout_spec_def derive_binds_no_seat refuse_spec_def gate_destination_spec_def gate_same_state_def gate_release_evidence_def
      gate_pushed_def gate_disposition_def gate_sprint_artifact_def gate_ac_of_record_def label_ids_with_def Let_def touches_seats_def
      split: option.split prod.split bool.split sum.split disposition.split)

lemma no_seat_parts: "binds_no_seat (find_destination w r)" "binds_no_seat (pass_gates num json w r d)"
  unfolding find_destination_def pass_gates_def
  by (intro no_seat_andThen no_seat_stages no_seat_gates no_seat_simps(1))+

definition only_fails :: "'a stage \<Rightarrow> bool" where
  "only_fails m = (\<forall>res es. m = (Inl (Returned res), es) \<longrightarrow> ta_status res = Failed)"

lemma only_fails_simps [simp]:
  "only_fails (goOn x)" "only_fails (does es x)" "only_fails (stop s c a b) \<longleftrightarrow> s = Failed" "only_fails (stopAfter es s c a b) \<longleftrightarrow> s = Failed"
  by (simp_all add: only_fails_def)

lemma only_fails_andThen: "only_fails m \<Longrightarrow> (\<And>x es. m = (Inr x, es) \<Longrightarrow> only_fails (f x)) \<Longrightarrow> only_fails (andThen m f)"
  unfolding only_fails_def andThen_Inl by blast

lemma carrying_out_only_fails: "only_fails (carry_out num json w r d pending)"
proof -
  have "only_fails (resolve_label w r d)" "only_fails (resolve_holder w r d)" "only_fails (resolve_native w r d)"
    "only_fails (preflight_fanout num json w r d pending)" "only_fails (perform_write w r d q)" for q
    by (simp_all add: resolve_label_def resolve_holder_def resolve_native_def preflight_fanout_def perform_write_def
        only_fails_def [of "(Inl (Threw _), [])"] split: option.split prod.split delegate_choice.split)
  then show ?thesis unfolding carry_out_def by (intro only_fails_andThen only_fails_simps(2))
qed

text \<open>
  Leaving the workflow keeps the seats: whatever returns as applied without completing a transition (demotion
  to ad hoc by park or break-glass, retirement, a terminal sync, a repaired label, a disposition) leaves
  every seat bound on every ticket as it was.
\<close>

theorem leaving_keeps_the_seats:
  assumes "applyStateTransition num json w intent issueId opts = (Returned res, es)"
    and "ta_status res = Applied" "ta_code res \<noteq> ''transition-applied''"
  shows "en_seats (engine_after (tw_now w) (tw_stamp w) es (tw_engine w)) = en_seats (tw_engine w)"
proof -
  have "seatless es"
    using assms(1)
  proof (cases rule: transition_cases)
    case ungoverned
    then show ?thesis using no_seat_stages(1) by (metis binds_no_seat_def snd_conv)
  next
    case (no_destination r)
    then show ?thesis using no_seat_parts(1) by (metis binds_no_seat_def snd_conv)
  next
    case (gated r d)
    then show ?thesis using no_seat_parts(2) by (metis binds_no_seat_def snd_conv)
  next
    case (carried r d pending es1 es2)
    have "carry_out num json w r d pending \<noteq> (Inr (Returned res), es2)"
    proof
      assume "carry_out num json w r d pending = (Inr (Returned res), es2)"
      then show False by (rule carried_out) (use assms(3) in auto)
    qed
    then have "ta_status res = Failed" using carried(4) carrying_out_only_fails unfolding only_fails_def by blast
    then show ?thesis using assms(2) by simp
  qed
  then show ?thesis by (rule kept_by_effects(1))
qed

lemma cleared_seats:
  assumes "ru_intent r = ''escape'' \<or> is_terminal_dest r d"
  shows "getBinding (ru_issueId r) role (en_seats (engine_after now clock (cleanup_effects w r d) s)) = None"
  using assms by (auto simp: cleanup_effects_def getBinding_clear removeImplementer_def split: option.split)

text \<open>
  A closed ticket has no seats and the engine knows its state: after a completed transition the state the
  engine remembers is the new one (or nothing, where the barrier entered has already moved the ticket
  on), and if the new state is terminal or the command was escape, no seat is bound on the ticket.
\<close>

theorem closed_ticket_has_no_seats:
  assumes "applyStateTransition num json w intent issueId opts = (Returned res, es)" and "ta_code res = ''transition-applied''"
    and "find_ticket w intent issueId opts = (Inr r, [])" "find_destination w r = (Inr d, [])"
  defines "after \<equiv> engine_after (tw_now w) (tw_stamp w) es (tw_engine w)"
  shows "(ru_intent r = ''escape'' \<or> is_terminal_dest r d \<longrightarrow> getBinding (ru_issueId r) role (en_seats after) = None) \<and>
     (ti_identifier (ru_issue r) \<noteq> [] \<longrightarrow>
        fst (getAppliedState (ti_identifier (ru_issue r)) (tw_now w) (en_applied after)) = Some (de_to d) \<or>
        isBarrierState (dest_node r d) \<and> fst (getAppliedState (ti_identifier (ru_issue r)) (tw_now w) (en_applied after)) = None)"
proof -
  have "\<not> early (Returned res)" using assms(2) by (auto simp: early_results_def)
  with early_or_carried [OF assms(1)] assms(3,4) obtain pending es1 es2 where
    c: "carry_out num json w r d pending = (Inr (Returned res), es2)" and es: "es = es1 @ es2" by auto
  obtain before h result where before: "es = before @ settle num json w r d h pending result"
    by (rule carried_out [OF c]) (use es in \<open>metis append.assoc\<close>)
  let ?i = "ti_identifier (ru_issue r)"
  obtain pre post where s: "settle num json w r d h pending result = AppliedNoted ?i (de_to d) # pre @ cleanup_effects w r d @ post"
    and quiet: "seatless pre" "seatless post" "stateless pre"
    and post: "stateless post \<or> isBarrierState (dest_node r d) \<and> (\<exists>p1 p2. post = p1 @ AppliedForgotten ?i # p2 \<and> stateless p1 \<and> stateless p2)"
    by (rule settle_parts)
  have "en_applied after = recordAppliedState ?i (de_to d) (tw_now w) x \<or>
      isBarrierState (dest_node r d) \<and> en_applied after = clearAppliedState ?i (recordAppliedState ?i (de_to d) (tw_now w) x)"
    if "x = en_applied (engine_after (tw_now w) (tw_stamp w) before (tw_engine w))" for x
    using post quiet that by (auto simp: after_def before s kept_by_effects forget_applied_def)
  moreover have "getBinding (ru_issueId r) role (en_seats after) = None" if "ru_intent r = ''escape'' \<or> is_terminal_dest r d"
    using cleared_seats [OF that] quiet by (simp add: after_def before s kept_by_effects)
  ultimately show ?thesis
    by (auto simp: getAppliedState_def recordAppliedState_def clearAppliedState_def APPLIED_STATE_TTL_MS_def)
qed

subsection \<open>A ticket that is moved on, closed and left\<close>

definition course_def :: WorkflowDef where
  "course_def = sample_def
     [sample_state ''doing'' \<lparr>s_owner_role := Some ''dev'', s_native_state := Some ''doing'', s_transitions := [verb ''submit'' ''merge'']\<rparr>,
      sample_state ''merge'' \<lparr>s_owner_role := Some ''merge'', s_native_state := Some ''doing'', s_transitions := [verb ''close'' ''done'']\<rparr>,
      sample_state ''done'' \<lparr>s_kind := Some ''terminal'', s_native_state := Some ''done''\<rparr>]"

definition course_issue :: "string \<Rightarrow> TicketIssue" where
  "course_issue s = \<lparr>ti_internalId = ''u'', ti_identifier = ''AI-1'', ti_teamId = ''t'', ti_teamKey = None, ti_teamName = None,
     ti_labels = [plain_label ''l1'' ''wf:task'', plain_label ''l2'' (''state:'' @ s)], ti_delegateId = Some ''u2'', ti_assigneeId = None,
     ti_nativeStateId = Some ''n1'', ti_requesterUserId = None\<rparr>"

definition course_read :: "string \<Rightarrow> string option \<Rightarrow> string \<Rightarrow> ReadBack" where
  "course_read s u n = \<lparr>rb_labels = [''wf:task'', ''state:'' @ s], rb_delegate = u, rb_assignee = None, rb_state = Some n\<rparr>"

definition course_world :: "string \<Rightarrow> ReadBack \<Rightarrow> TransitionWorld" where
  "course_world s back = \<lparr>tw_issue = Some (course_issue s), tw_registry = Some [(''task'', course_def)],
     tw_engine = \<lparr>en_applied = [], en_seats = [(''AI-1'', \<lparr>bd_bindings = [(''dev'', ''ai'')], bd_workflowId = ''task'', bd_recordedAt = ''t''\<rparr>)],
       en_ac = [], en_artifacts = []\<rparr>,
     tw_now = 0, tw_stamp = ''t'', tw_manualOutcome = None, tw_manualChildren = None, tw_labelsWrite = True,
     tw_retire = RetireRead None, tw_native = None, tw_terminalSync = True, tw_specPage = (\<lambda>_. None), tw_specRegistry = (\<lambda>_. None),
     tw_armFindings = [], tw_armWritten = False, tw_structured = [], tw_structuredThrew = False,
     tw_enrollment = \<lparr>deprecatedWorkflowIds = [], defaultEnrollmentWorkflow = ''task''\<rparr>, tw_destPage = None,
     tw_labels = \<lparr>lw_labels = Some [plain_label ''l3'' ''state:merge'', plain_label ''l4'' ''state:done''], lw_create = CreateRefused, lw_workspaceCreate = None\<rparr>,
     tw_release = (\<lambda>_. None), tw_token = False, tw_attachmentRepos = [], tw_compare = (\<lambda>_ _ _ _. CompareThrew), tw_review = None,
     tw_description = None, tw_agents = dw_agents handover_world, tw_policy = sample_policy,
     tw_teamStates = [(''n1'', ''Doing''), (''n2'', ''Done'')], tw_fanout = None,
     tw_write = \<lparr>ww_applied = (\<lambda>_. True), ww_read = (\<lambda>_. Some back), ww_rollback = True, ww_rollbackRead = None, ww_repair = True\<rparr>,
     tw_dispatchRefused = False, tw_outcomeWritten = True, tw_derived = None, tw_derivedText = None, tw_derivedWritten = False,
     tw_entryPage = None, tw_barrier = None, tw_parent = None\<rparr>"

definition no_num :: "rat \<Rightarrow> string" where "no_num x = []"
definition no_json :: "string \<Rightarrow> yaml option" where "no_json s = None"

definition course :: "string \<Rightarrow> string \<Rightarrow> ReadBack \<Rightarrow> transition_outcome \<times> transition_effect list" where
  "course intent s back = applyStateTransition no_num no_json (course_world s back) intent (Some ''AI-1'') no_options"

definition course_run :: "string \<Rightarrow> string \<Rightarrow> Run" where
  "course_run intent s = \<lparr>ru_intent = intent, ru_issueId = ''AI-1'', ru_issue = course_issue s, ru_workflow = ''task'', ru_def = course_def,
     ru_from = Some s, ru_options = no_options\<rparr>"

definition moved_back :: ReadBack where "moved_back = course_read ''merge'' (Some ''u1'') ''n1''"
definition closed_back :: ReadBack where "closed_back = course_read ''done'' None ''n2''"

lemma course_values:
  "fst (course ''submit'' ''doing'' moved_back) =
     Returned \<lparr>ta_status = Applied, ta_code = ''transition-applied'', ta_from = Some ''doing'', ta_to = Some ''merge''\<rparr>"
  "fst (course ''close'' ''merge'' closed_back) =
     Returned \<lparr>ta_status = Applied, ta_code = ''transition-applied'', ta_from = Some ''merge'', ta_to = Some ''done''\<rparr>"
  "fst (course ''approve'' ''doing'' moved_back) =
     Returned \<lparr>ta_status = Failed, ta_code = ''no-transition'', ta_from = Some ''doing'', ta_to = None\<rparr>"
  "fst (course ''park'' ''doing'' moved_back) =
     Returned \<lparr>ta_status = Applied, ta_code = ''demoted-ad-hoc'', ta_from = Some ''doing'', ta_to = Some ''__ad_hoc__''\<rparr>"
  "fst (course ''handoff'' ''doing'' moved_back) =
     Returned \<lparr>ta_status = Noop, ta_code = ''already-in-state'', ta_from = Some ''doing'', ta_to = Some ''doing''\<rparr>"
  by code_simp+

lemma course_pair:
  "fst (course intent s back) = x \<Longrightarrow>
     applyStateTransition no_num no_json (course_world s back) intent (Some ''AI-1'') no_options = (x, snd (course intent s back))"
  by (simp add: course_def prod_eq_iff)

lemma course_found:
  "find_ticket (course_world ''doing'' moved_back) ''submit'' (Some ''AI-1'') no_options = (Inr (course_run ''submit'' ''doing''), [])"
  "find_ticket (course_world ''merge'' closed_back) ''close'' (Some ''AI-1'') no_options = (Inr (course_run ''close'' ''merge''), [])"
  "find_ticket (course_world ''done'' closed_back) ''submit'' (Some ''AI-1'') no_options = (Inr (course_run ''submit'' ''done''), [])"
  "find_ticket (course_world ''doing'' moved_back) ''handoff'' (Some ''AI-1'') no_options = (Inr (course_run ''handoff'' ''doing''), [])"
  by code_simp+

definition course_to :: "string \<Rightarrow> string \<Rightarrow> Destination" where
  "course_to c s = \<lparr>de_to = s, de_transition = Some (verb c s), de_spinePreserved = False\<rparr>"

lemma course_destinations:
  "find_destination (course_world ''doing'' moved_back) (course_run ''submit'' ''doing'') = (Inr (course_to ''submit'' ''merge''), [])"
  "find_destination (course_world ''merge'' closed_back) (course_run ''close'' ''merge'') = (Inr (course_to ''close'' ''done''), [])"
  by code_simp+



theorem terminal_state_is_not_left_witness:
  "\<exists>res es. course ''submit'' ''done'' closed_back = (Returned res, es) \<and> silent es \<and> ta_status res \<noteq> Applied"
proof -
  let ?s = "sample_state ''done'' \<lparr>s_kind := Some ''terminal'', s_native_state := Some ''done''\<rparr>"
  have "''submit'' \<noteq> breakGlassCommand (ru_def (course_run ''submit'' ''done''))" by code_simp
  moreover have "node_at (ru_def (course_run ''submit'' ''done'')) (resolved_source (course_world ''done'' closed_back) (course_run ''submit'' ''done'')) = Some ?s"
    by code_simp
  moreover have "s_kind ?s = Some ''terminal''" "\<forall>t \<in> set (s_transitions ?s). t_command t \<noteq> Some ''submit''" by code_simp+
  ultimately show ?thesis
    using terminal_state_is_not_left [OF course_found(3)] unfolding course_def by blast
qed


theorem break_glass_keeps_or_reopens_witness:
  "\<exists>d. find_destination (course_world ''merge'' closed_back) (course_run ''escape'' ''merge'') = (Inr d, []) \<and> de_to d = ''merge''"
proof -
  let ?w = "course_world ''merge'' closed_back" and ?r = "course_run ''escape'' ''merge''"
  let ?d = "\<lparr>de_to = ''merge'', de_transition = None, de_spinePreserved = True\<rparr>"
  have d: "find_destination ?w ?r = (Inr ?d, [])" by code_simp
  have "ru_intent ?r = breakGlassCommand (ru_def ?r)" by code_simp
  moreover have "resolved_source ?w ?r = Some ''merge''" by code_simp
  ultimately show ?thesis using break_glass_keeps_or_reopens [OF _ d] d by (auto split: if_splits)
qed

theorem handoff_never_completes_witness:
  "\<exists>res. fst (course ''handoff'' ''doing'' moved_back) = Returned res \<and> ta_code res \<noteq> ''transition-applied''"
proof -
  have "breakGlassCommand (ru_def (course_run ''handoff'' ''doing'')) \<noteq> ''handoff''" by code_simp
  from handoff_never_completes [OF course_pair [OF course_values(5)] course_found(4) this] show ?thesis
    using course_values(5) by simp
qed

theorem leaving_keeps_the_seats_witness:
  "en_seats (engine_after 0 ''t'' (snd (course ''park'' ''doing'' moved_back)) (tw_engine (course_world ''doing'' moved_back))) =
     [(''AI-1'', \<lparr>bd_bindings = [(''dev'', ''ai'')], bd_workflowId = ''task'', bd_recordedAt = ''t''\<rparr>)]"
  using leaving_keeps_the_seats [OF course_pair [OF course_values(4)]] by (simp add: course_world_def)

theorem closed_ticket_has_no_seats_witness:
  "getBinding ''AI-1'' ''dev'' (en_seats (engine_after 0 ''t'' (snd (course ''close'' ''merge'' closed_back)) (tw_engine (course_world ''merge'' closed_back)))) = None"
proof -
  have "is_terminal_dest (course_run ''close'' ''merge'') (course_to ''close'' ''done'')" by code_simp
  then show ?thesis
    using closed_ticket_has_no_seats [OF course_pair [OF course_values(2)] _ course_found(2) course_destinations(2), of "''dev''"]
    by (simp add: course_world_def course_run_def)
qed

end
