(* ===== verification/EnrolledTickets.thy ===== *)
theory EnrolledTickets
  imports SqlTable JsString TicketRecords
begin

text \<open>
  \<open>src/store/enrolled-tickets-store.ts\<close>: the mirror of which ticket is enrolled in which workflow and
  in which state. One row per ticket; a ticket that left keeps a row that is marked terminal. Every
  statement is a function on the list of rows. \<open>now\<close> is the text \<open>preciseTimestamp\<close> returns.
\<close>

subsection \<open>Rows\<close>

record EnrolledTicketRow =
  er_ticket_id :: string
  er_workflow :: string
  er_state :: string
  er_delegate :: "string option"
  er_approver :: "string option"
  er_entered_state_at :: string
  er_enrolled_at :: string
  er_last_event_kind :: string
  er_last_event_at :: string
  er_terminal :: bool

record EnrollInput =
  ei_ticketId :: string
  ei_workflow :: string
  ei_state :: string
  ei_delegate :: "string option"
  ei_approver :: "string option"

record TransitionInput =
  ti_ticketId :: string
  ti_toState :: string
  ti_delegate :: "string option"
  ti_eventKind :: string

type_synonym mirror = "EnrolledTicketRow list"

text \<open>Milliseconds and the nanoseconds of \<open>hrtime\<close>.\<close>

definition preciseTimestamp :: "nat \<Rightarrow> nat \<Rightarrow> string" where
  "preciseTimestamp ms nano = butlast (toISOString ms) @ pad 3 (nano mod 1000000 div 1000) @ ''Z''"

text \<open>\<open>new Date(text).getTime()\<close> of such a text; the digits after the milliseconds are dropped.\<close>

definition precise_getTime :: "string \<Rightarrow> int option" where
  "precise_getTime s = (if length s = 27 then getTime (take 23 s @ ''Z'') else getTime s)"

definition parseWfLabel :: "string list \<Rightarrow> string option" where
  "parseWfLabel labels = map_option (drop 3) (List.find (starts_with ''wf:'') labels)"

definition parseStateLabel :: "string list \<Rightarrow> string option" where
  "parseStateLabel labels = map_option (drop 6) (List.find (starts_with ''state:'') labels)"

subsection \<open>Statements\<close>

definition getByTicketId :: "string \<Rightarrow> mirror \<Rightarrow> EnrolledTicketRow option" where
  "getByTicketId i s = sel_one (\<lambda>r. er_ticket_id r = i) s"

text \<open>\<open>INSERT ... ON CONFLICT DO NOTHING\<close> and \<open>INSERT OR IGNORE\<close>, with the number of changes.\<close>

definition insert_new :: "EnrolledTicketRow \<Rightarrow> mirror \<Rightarrow> nat \<times> mirror" where
  "insert_new r s = (case sql_insert er_ticket_id r s of None \<Rightarrow> (0, s) | Some s' \<Rightarrow> (1, s'))"

definition enroll :: "string \<Rightarrow> EnrollInput \<Rightarrow> mirror \<Rightarrow> mirror" where
  "enroll now inp s =
     (case insert_new \<lparr>er_ticket_id = ei_ticketId inp, er_workflow = ei_workflow inp, er_state = ei_state inp,
             er_delegate = ei_delegate inp, er_approver = ei_approver inp, er_entered_state_at = now, er_enrolled_at = now,
             er_last_event_kind = ''enroll'', er_last_event_at = now, er_terminal = False\<rparr> s of
        (changed, s') \<Rightarrow>
          if changed = 0
          then upd_where (\<lambda>r. er_ticket_id r = ei_ticketId inp \<and> er_terminal r)
                 (\<lambda>r. r\<lparr>er_workflow := ei_workflow inp, er_state := ei_state inp, er_delegate := ei_delegate inp,
                    er_approver := ei_approver inp, er_entered_state_at := now, er_last_event_kind := ''revived'',
                    er_last_event_at := now, er_terminal := False\<rparr>) s'
          else s')"

definition recordEnrolledTransition :: "string \<Rightarrow> TransitionInput \<Rightarrow> mirror \<Rightarrow> mirror" where
  "recordEnrolledTransition now inp s =
     (let own = (\<lambda>r. er_ticket_id r = ti_ticketId inp);
          s' = upd_where own (\<lambda>r. r\<lparr>er_state := ti_toState inp, er_delegate := ti_delegate inp, er_entered_state_at := now,
                 er_last_event_kind := ti_eventKind inp, er_last_event_at := now, er_terminal := False\<rparr>) s
      in if changes own s = 0
         then snd (insert_new \<lparr>er_ticket_id = ti_ticketId inp, er_workflow = ''unknown'', er_state = ti_toState inp,
                er_delegate = ti_delegate inp, er_approver = None, er_entered_state_at = now, er_enrolled_at = now,
                er_last_event_kind = ti_eventKind inp, er_last_event_at = now, er_terminal = False\<rparr> s')
         else s')"

definition markTerminal :: "string \<Rightarrow> string \<Rightarrow> string \<Rightarrow> mirror \<Rightarrow> mirror" where
  "markTerminal now i kind s =
     upd_where (\<lambda>r. er_ticket_id r = i) (\<lambda>r. r\<lparr>er_terminal := True, er_last_event_kind := kind, er_last_event_at := now\<rparr>) s"

definition left_row :: "string \<Rightarrow> string \<Rightarrow> string \<Rightarrow> string \<Rightarrow> EnrolledTicketRow" where
  "left_row now i state kind = \<lparr>er_ticket_id = i, er_workflow = ''unknown'', er_state = state, er_delegate = None, er_approver = None,
     er_entered_state_at = now, er_enrolled_at = now, er_last_event_kind = kind, er_last_event_at = now, er_terminal = True\<rparr>"

definition demoteEnrolled :: "string \<Rightarrow> string \<Rightarrow> mirror \<Rightarrow> mirror" where
  "demoteEnrolled now i s =
     (let own = (\<lambda>r. er_ticket_id r = i);
          s' = upd_where own (\<lambda>r. r\<lparr>er_terminal := True, er_last_event_kind := ''demoted'', er_last_event_at := now\<rparr>) s
      in if changes own s = 0 then snd (insert_new (left_row now i ''__ad_hoc__'' ''demoted'') s') else s')"

definition wasDemoted :: "string \<Rightarrow> string option \<Rightarrow> mirror \<Rightarrow> bool" where
  "wasDemoted i since s =
     (case getByTicketId i s of
        None \<Rightarrow> False
      | Some r \<Rightarrow>
          if er_last_event_kind r \<noteq> ''demoted'' then False
          else if \<not> truthy since \<or> er_last_event_at r = [] then True
          else num_less (precise_getTime (the since)) (precise_getTime (er_last_event_at r)))"

definition purge :: "string \<Rightarrow> mirror \<Rightarrow> mirror" where
  "purge i s = del_where (\<lambda>r. er_ticket_id r = i) s"

definition retire :: "string \<Rightarrow> string \<Rightarrow> mirror \<Rightarrow> mirror" where
  "retire now i s =
     (case getByTicketId i s of
        Some r \<Rightarrow>
          if er_terminal r then s
          else upd_where (\<lambda>r. er_ticket_id r = i)
                 (\<lambda>r. r\<lparr>er_terminal := True, er_delegate := None, er_last_event_kind := ''retired'', er_last_event_at := now\<rparr>) s
      | None \<Rightarrow> snd (insert_new (left_row now i ''__retired__'' ''retired'') s))"

datatype reconcile_action = Created | Corrected | ReconcileNoop | Demoted

text \<open>Reading the row and writing it are one step of the single thread.\<close>

definition reconcile :: "string \<Rightarrow> string \<Rightarrow> string list \<Rightarrow> string option \<Rightarrow> mirror \<Rightarrow> reconcile_action \<times> mirror" where
  "reconcile now i labels delegate s =
     (let cwf = parseWfLabel labels; state = parseStateLabel labels; existing = getByTicketId i s in
      if \<not> truthy cwf
      then (case existing of
              None \<Rightarrow> (ReconcileNoop, s)
            | Some r \<Rightarrow> if er_terminal r then (ReconcileNoop, s) else (Demoted, demoteEnrolled now i s))
      else if \<not> truthy state then (ReconcileNoop, s)
      else let enrolled = enroll now \<lparr>ei_ticketId = i, ei_workflow = the cwf, ei_state = the state, ei_delegate = delegate, ei_approver = None\<rparr> s
        in case existing of
             None \<Rightarrow> (Created, enrolled)
           | Some r \<Rightarrow>
               if er_terminal r then (Created, enrolled)
               else if er_state r \<noteq> the state \<or> er_delegate r \<noteq> delegate
               then (Corrected, recordEnrolledTransition now \<lparr>ti_ticketId = i, ti_toState = the state, ti_delegate = delegate, ti_eventKind = ''reconciled''\<rparr> s)
               else (ReconcileNoop, s))"

subsection \<open>One row per ticket\<close>

definition mirror_ok :: "mirror \<Rightarrow> bool" where
  "mirror_ok s = key_ok er_ticket_id s"

lemma insert_new_ok: "mirror_ok s \<Longrightarrow> mirror_ok (snd (insert_new r s))"
  by (auto simp: mirror_ok_def insert_new_def dest: key_ok_insert split: option.split)

lemma upd_ok: "(\<And>r. er_ticket_id (f r) = er_ticket_id r) \<Longrightarrow> mirror_ok s \<Longrightarrow> mirror_ok (upd_where P f s)"
  by (simp add: mirror_ok_def key_ok_upd)

lemma statements_keep_ok:
  assumes "mirror_ok s"
  shows "mirror_ok (enroll now e s)" "mirror_ok (recordEnrolledTransition now t s)" "mirror_ok (markTerminal now i k s)"
    "mirror_ok (demoteEnrolled now i s)" "mirror_ok (retire now i s)" "mirror_ok (purge i s)"
proof -
  show "mirror_ok (enroll now e s)"
    unfolding enroll_def by (auto split: prod.split intro!: upd_ok) (metis insert_new_ok [OF assms] snd_conv)+
  show "mirror_ok (recordEnrolledTransition now t s)" "mirror_ok (demoteEnrolled now i s)"
    using assms by (auto simp: recordEnrolledTransition_def demoteEnrolled_def Let_def intro!: upd_ok insert_new_ok)
  show "mirror_ok (markTerminal now i k s)" "mirror_ok (retire now i s)" "mirror_ok (purge i s)"
    using assms by (auto simp: markTerminal_def retire_def intro!: upd_ok insert_new_ok split: option.split)
      (simp add: purge_def mirror_ok_def)
qed

lemma reconcile_keeps_ok: "mirror_ok s \<Longrightarrow> mirror_ok (snd (reconcile now i labels delegate s))"
  by (auto simp: reconcile_def Let_def statements_keep_ok split: option.split)

subsection \<open>What a statement does to a row\<close>

lemma enrolled_row_insert [simp]:
  "getByTicketId i (snd (insert_new r s)) =
     (case getByTicketId i s of None \<Rightarrow> if i = er_ticket_id r then Some r else None | Some x \<Rightarrow> Some x)"
proof (cases "er_ticket_id r \<in> er_ticket_id ` set s")
  case True
  then obtain x where "x \<in> set s" "er_ticket_id x = er_ticket_id r" by fastforce
  then have "getByTicketId (er_ticket_id r) s \<noteq> None" by (auto simp: getByTicketId_def sel_one_None)
  then show ?thesis using True by (auto simp: insert_new_def sql_insert_def split: option.split)
next
  case False
  then show ?thesis
    by (auto simp: insert_new_def sql_insert_def getByTicketId_def sel_one_append sel_one_Cons split: option.split
          dest: sel_one_fresh)
qed

lemma inserted_changes: "fst (insert_new r s) = 0 \<longleftrightarrow> getByTicketId (er_ticket_id r) s \<noteq> None"
  by (auto simp: insert_new_def sql_insert_def getByTicketId_def sel_one_None image_iff split: option.split)

lemma unchanged_insert: "fst (insert_new r s) = 0 \<Longrightarrow> snd (insert_new r s) = s"
  by (simp add: insert_new_def split: option.splits)

lemma no_changes: "changes (\<lambda>r. er_ticket_id r = i) s = 0 \<longleftrightarrow> getByTicketId i s = None"
  by (simp add: changes_0 getByTicketId_def sel_one_None)

lemma row_upd:
  "(\<And>r. er_ticket_id (f r) = er_ticket_id r) \<Longrightarrow>
   getByTicketId i (upd_where P f s) = map_option (\<lambda>r. if P r then f r else r) (getByTicketId i s)"
  unfolding getByTicketId_def by (rule sel_one_upd)

lemma row_id: "getByTicketId i s = Some r \<Longrightarrow> er_ticket_id r = i"
  by (auto simp: getByTicketId_def dest: sel_one_SomeD)

subsection \<open>The mirror as a function from tickets to standings\<close>

text \<open>What the mirror says of a ticket, without its clocks.\<close>

record Standing =
  sg_workflow :: string
  sg_state :: string
  sg_delegate :: "string option"
  sg_approver :: "string option"
  sg_kind :: string
  sg_live :: bool

definition standing :: "EnrolledTicketRow \<Rightarrow> Standing" where
  "standing r = \<lparr>sg_workflow = er_workflow r, sg_state = er_state r, sg_delegate = er_delegate r, sg_approver = er_approver r,
     sg_kind = er_last_event_kind r, sg_live = (\<not> er_terminal r)\<rparr>"

definition standings :: "mirror \<Rightarrow> string \<Rightarrow> Standing option" where
  "standings s i = map_option standing (getByTicketId i s)"

datatype mirror_op =
    Enroll EnrollInput | Move TransitionInput | Close string string | Demote string | Retire string | Purge string

fun mirror_step :: "mirror_op \<times> string \<Rightarrow> mirror \<Rightarrow> mirror" where
  "mirror_step (Enroll e, now) s = enroll now e s"
| "mirror_step (Move t, now) s = recordEnrolledTransition now t s"
| "mirror_step (Close i k, now) s = markTerminal now i k s"
| "mirror_step (Demote i, now) s = demoteEnrolled now i s"
| "mirror_step (Retire i, now) s = retire now i s"
| "mirror_step (Purge i, now) s = purge i s"

fun enrol_op_ticket :: "mirror_op \<Rightarrow> string" where
  "enrol_op_ticket (Enroll e) = ei_ticketId e"
| "enrol_op_ticket (Move t) = ti_ticketId t"
| "enrol_op_ticket (Close i k) = i"
| "enrol_op_ticket (Demote i) = i"
| "enrol_op_ticket (Retire i) = i"
| "enrol_op_ticket (Purge i) = i"

text \<open>The promise: what an operation makes of the standing of its ticket.\<close>

definition gone :: "string \<Rightarrow> string \<Rightarrow> Standing" where
  "gone state kind = \<lparr>sg_workflow = ''unknown'', sg_state = state, sg_delegate = None, sg_approver = None, sg_kind = kind, sg_live = False\<rparr>"

fun promised :: "mirror_op \<Rightarrow> Standing option \<Rightarrow> Standing option" where
  "promised (Enroll e) None = Some \<lparr>sg_workflow = ei_workflow e, sg_state = ei_state e, sg_delegate = ei_delegate e,
     sg_approver = ei_approver e, sg_kind = ''enroll'', sg_live = True\<rparr>"
| "promised (Enroll e) (Some g) = Some (if sg_live g then g else \<lparr>sg_workflow = ei_workflow e, sg_state = ei_state e,
     sg_delegate = ei_delegate e, sg_approver = ei_approver e, sg_kind = ''revived'', sg_live = True\<rparr>)"
| "promised (Move t) None = Some \<lparr>sg_workflow = ''unknown'', sg_state = ti_toState t, sg_delegate = ti_delegate t,
     sg_approver = None, sg_kind = ti_eventKind t, sg_live = True\<rparr>"
| "promised (Move t) (Some g) = Some (g\<lparr>sg_state := ti_toState t, sg_delegate := ti_delegate t, sg_kind := ti_eventKind t, sg_live := True\<rparr>)"
| "promised (Close i k) g = map_option (\<lambda>g. g\<lparr>sg_kind := k, sg_live := False\<rparr>) g"
| "promised (Demote i) None = Some (gone ''__ad_hoc__'' ''demoted'')"
| "promised (Demote i) (Some g) = Some (g\<lparr>sg_kind := ''demoted'', sg_live := False\<rparr>)"
| "promised (Retire i) None = Some (gone ''__retired__'' ''retired'')"
| "promised (Retire i) (Some g) = Some (if sg_live g then g\<lparr>sg_delegate := None, sg_kind := ''retired'', sg_live := False\<rparr> else g)"
| "promised (Purge i) g = None"

definition mirror_spec :: "mirror_op \<Rightarrow> (string \<Rightarrow> Standing option) \<Rightarrow> string \<Rightarrow> Standing option" where
  "mirror_spec op f = f(enrol_op_ticket op := promised op (f (enrol_op_ticket op)))"

lemma row_enroll:
  "getByTicketId i (enroll now e s) =
     (if i = ei_ticketId e
      then (case getByTicketId i s of
              None \<Rightarrow> Some \<lparr>er_ticket_id = i, er_workflow = ei_workflow e, er_state = ei_state e,
                 er_delegate = ei_delegate e, er_approver = ei_approver e, er_entered_state_at = now, er_enrolled_at = now,
                 er_last_event_kind = ''enroll'', er_last_event_at = now, er_terminal = False\<rparr>
            | Some r \<Rightarrow> Some (if er_terminal r then r\<lparr>er_workflow := ei_workflow e, er_state := ei_state e, er_delegate := ei_delegate e,
                 er_approver := ei_approver e, er_entered_state_at := now, er_last_event_kind := ''revived'',
                 er_last_event_at := now, er_terminal := False\<rparr> else r))
      else getByTicketId i s)"
proof -
  let ?r = "\<lparr>er_ticket_id = ei_ticketId e, er_workflow = ei_workflow e, er_state = ei_state e, er_delegate = ei_delegate e,
     er_approver = ei_approver e, er_entered_state_at = now, er_enrolled_at = now, er_last_event_kind = ''enroll'',
     er_last_event_at = now, er_terminal = False\<rparr>"
  obtain n s' where p: "insert_new ?r s = (n, s')" by fastforce
  have row: "getByTicketId i s' = (case getByTicketId i s of None \<Rightarrow> if i = ei_ticketId e then Some ?r else None | Some x \<Rightarrow> Some x)"
    using enrolled_row_insert [of i ?r s] p by simp
  have n: "n = 0 \<longleftrightarrow> getByTicketId (ei_ticketId e) s \<noteq> None" using inserted_changes [of ?r s] p by simp
  show ?thesis
  proof (cases "n = 0")
    case True
    then have "s' = s" using unchanged_insert [of ?r s] p by simp
    then show ?thesis using True n p
      by (cases "getByTicketId i s") (auto simp: enroll_def row_upd dest: row_id)
  next
    case False
    then show ?thesis using n row p by (auto simp: enroll_def split: option.split)
  qed
qed

lemma row_move:
  "getByTicketId i (recordEnrolledTransition now t s) =
     (if i = ti_ticketId t
      then (case getByTicketId i s of
              None \<Rightarrow> Some \<lparr>er_ticket_id = i, er_workflow = ''unknown'', er_state = ti_toState t, er_delegate = ti_delegate t,
                 er_approver = None, er_entered_state_at = now, er_enrolled_at = now, er_last_event_kind = ti_eventKind t,
                 er_last_event_at = now, er_terminal = False\<rparr>
            | Some r \<Rightarrow> Some (r\<lparr>er_state := ti_toState t, er_delegate := ti_delegate t, er_entered_state_at := now,
                 er_last_event_kind := ti_eventKind t, er_last_event_at := now, er_terminal := False\<rparr>))
      else getByTicketId i s)"
  by (auto simp: recordEnrolledTransition_def Let_def no_changes row_upd split: option.split dest: row_id)

lemma row_demote:
  "getByTicketId i (demoteEnrolled now j s) =
     (if i = j
      then (case getByTicketId i s of
              None \<Rightarrow> Some (left_row now i ''__ad_hoc__'' ''demoted'')
            | Some r \<Rightarrow> Some (r\<lparr>er_terminal := True, er_last_event_kind := ''demoted'', er_last_event_at := now\<rparr>))
      else getByTicketId i s)"
  by (auto simp: demoteEnrolled_def Let_def no_changes row_upd left_row_def split: option.split dest: row_id)

lemma row_retire:
  "getByTicketId i (retire now j s) =
     (if i = j
      then (case getByTicketId i s of
              None \<Rightarrow> Some (left_row now i ''__retired__'' ''retired'')
            | Some r \<Rightarrow> Some (if er_terminal r then r
                 else r\<lparr>er_terminal := True, er_delegate := None, er_last_event_kind := ''retired'', er_last_event_at := now\<rparr>))
      else getByTicketId i s)"
  by (auto simp: retire_def row_upd left_row_def split: option.splits dest: row_id)

lemma row_close:
  "getByTicketId i (markTerminal now j k s) =
     (if i = j then map_option (\<lambda>r. r\<lparr>er_terminal := True, er_last_event_kind := k, er_last_event_at := now\<rparr>) (getByTicketId i s)
      else getByTicketId i s)"
  by (cases "getByTicketId i s") (auto simp: markTerminal_def row_upd dest: row_id)

lemma row_purge: "getByTicketId i (purge j s) = (if i = j then None else getByTicketId i s)"
  unfolding purge_def getByTicketId_def by (rule sel_one_del_key)

lemmas row_after = row_enroll row_move row_demote row_retire row_close row_purge

lemma step_refines: "standings (mirror_step (op, now) s) = mirror_spec op (standings s)"
  by (cases op; rule ext)
     (auto simp: standings_def mirror_spec_def row_after standing_def gone_def left_row_def option.map_comp comp_def split: option.split)

lemma step_keeps_ok: "mirror_ok s \<Longrightarrow> mirror_ok (mirror_step (op, now) s)"
  by (cases op) (simp_all add: statements_keep_ok)

text \<open>
  C37: The mirror is a function of its history: whatever enrolments, moves, closures, demotions, retirements and
  purges are performed, at whatever times, the mirror keeps one row per ticket and what it says of each
  ticket is what the operations on that ticket promise, in their order; a live ticket is not enrolled
  over, a closed one is revived whole, and other tickets are not touched.
\<close>

theorem mirror_refines_its_history:
  "standings (fold mirror_step ops []) = fold mirror_spec (map fst ops) (\<lambda>_. None) \<and> mirror_ok (fold mirror_step ops [])"
proof -
  have "standings (fold mirror_step ops s) = fold mirror_spec (map fst ops) (standings s)" for s
    by (induction ops arbitrary: s) (auto simp: step_refines)
  moreover have "mirror_ok s \<Longrightarrow> mirror_ok (fold mirror_step ops s)" for s
    by (induction ops arbitrary: s) (auto simp: step_keeps_ok)
  moreover have "standings [] = (\<lambda>_. None)" by (rule ext) (simp add: standings_def getByTicketId_def)
  ultimately show ?thesis by (simp add: mirror_ok_def)
qed

subsection \<open>Reconciliation\<close>


text \<open>The workflow of a live row is never corrected, although reconciliation is meant to correct stale rows.\<close>

lemma stale_workflow_is_kept:
  "standings s i = Some g \<Longrightarrow> sg_live g \<Longrightarrow>
   map_option sg_workflow (standings (snd (reconcile now i labels delegate s)) i) = Some (sg_workflow g)"
  by (auto simp: reconcile_def Let_def standings_def standing_def row_after split: option.splits if_splits)

lemma demoted_is_remembered: "wasDemoted i None (demoteEnrolled now i s)"
  by (auto simp: wasDemoted_def row_after left_row_def truthy_def split: option.split)

lemma other_tickets_keep_tombstone:
  "enrol_op_ticket op \<noteq> i \<Longrightarrow> wasDemoted i since (mirror_step (op, now) s) = wasDemoted i since s"
  by (cases op) (auto simp: wasDemoted_def row_after)


end
