(* ===== verification/Enrollment.thy ===== *)
theory Enrollment
  imports EnrolledTickets StateTransition
begin

text \<open>
  The enrollment functions of \<open>src/workflow-gate.ts\<close> the webhook calls on every issue event:
  \<open>enrollIfMissing\<close> stamps the entry state on a ticket that has only its workflow label,
  \<open>autoEnrollByTeam\<close> puts a ticket of a configured team into the team's workflow,
  \<open>autoEnrollPlainDelegation\<close> does nothing; and the loading of \<open>src/enrollment-policy.ts\<close>. The answers of
  the services are a record; what is sent is returned in order.
\<close>

subsection \<open>What the services answer and what is done\<close>

record EnrollWorld =
  ew_issue :: "TicketIssue option"
  ew_registry :: "(string, WorkflowDef) jsmap option"
  ew_teamStates :: "(string \<times> string) list"
  ew_wfLabels :: LabelWorld
  ew_stateLabels :: LabelWorld
  ew_written :: bool
  ew_stamp :: string

record EnrollHealInfo =
  eh_issueId :: string
  eh_internalId :: string
  eh_workflowId :: string
  eh_entryState :: string

datatype enroll_effect =
  EnrollLabelMade label_create | EnrollSent AtomicInput | Healed EnrollHealInfo | AutoEnrolled EnrollHealInfo string

text \<open>\<open>{ enrolled: false }\<close> or the entry state.\<close>

type_synonym enroll_result = "string option \<times> enroll_effect list"

definition not_enrolled :: enroll_result where "not_enrolled = (None, [])"

definition policy_entry :: "(string, WorkflowDef) jsmap option \<Rightarrow> string \<Rightarrow> (WorkflowDef \<times> string) option" where
  "policy_entry registry workflowId =
     Option.bind (Option.bind registry (\<lambda>reg. map_get reg workflowId))
       (\<lambda>def. if truthy (d_entry_state def) then Some (def, the (d_entry_state def)) else None)"

definition native_states_exist :: "(string \<times> string) list \<Rightarrow> WorkflowDef \<Rightarrow> bool" where
  "native_states_exist states def =
     list_all (\<lambda>s. truthy (s_native_state s) \<longrightarrow> truthy (resolveNativeStateId states (the (s_native_state s)))) (d_states def)"

subsection \<open>A workflow label without a state label\<close>

definition enrollIfMissing :: "EnrollWorld \<Rightarrow> string \<Rightarrow> enroll_result" where
  "enrollIfMissing w issueId =
     (case ew_issue w of
        None \<Rightarrow> not_enrolled
      | Some issue \<Rightarrow>
          (let labelNames = label_names issue in
           if \<not> truthy (getWorkflowId labelNames) then not_enrolled
           else if truthy (getCurrentState labelNames None) then not_enrolled
           else case policy_entry (ew_registry w) (the (getWorkflowId labelNames)) of
             None \<Rightarrow> not_enrolled
           | Some (def, entry) \<Rightarrow>
               if \<not> native_states_exist (ew_teamStates w) def then not_enrolled
               else case findOrCreateLabel (ew_stateLabels w) (ti_teamId issue) (''state:'' @ entry) of
                      (label, made) \<Rightarrow>
                        if \<not> truthy label then (None, map EnrollLabelMade made)
                        else let send = EnrollSent (issueUpdateLabels (issueTeamLabelIds (ti_labels issue) (ti_teamId issue) @ [the label]))
                          in if \<not> ew_written w then (None, map EnrollLabelMade made @ [send])
                             else (Some entry, map EnrollLabelMade made @ [send,
                               Healed \<lparr>eh_issueId = issueId, eh_internalId = ti_internalId issue,
                                 eh_workflowId = the (getWorkflowId labelNames), eh_entryState = entry\<rparr>])))"

subsection \<open>A ticket of a configured team\<close>

record AutoEnrollLiveness =
  al_active :: bool
  al_enrolledCount :: nat
  al_suppressedDemotedCount :: nat
  al_lastEnrolledAt :: "string option"
  al_lastSuppressedAt :: "string option"
  al_plainLane :: bool

definition initial_liveness :: AutoEnrollLiveness where
  "initial_liveness = \<lparr>al_active = False, al_enrolledCount = 0, al_suppressedDemotedCount = 0, al_lastEnrolledAt = None,
     al_lastSuppressedAt = None, al_plainLane = False\<rparr>"

definition markAutoEnrollRegistered :: "AutoEnrollLiveness \<Rightarrow> AutoEnrollLiveness" where
  "markAutoEnrollRegistered l = l\<lparr>al_active := True, al_plainLane := True\<rparr>"

definition DEFAULT_TEAM_ENROLL_CONFIG :: "(string, string) jsmap" where
  "DEFAULT_TEAM_ENROLL_CONFIG = [(''AI'', ''dev-impl'')]"

definition suppressed :: "string \<Rightarrow> AutoEnrollLiveness \<Rightarrow> AutoEnrollLiveness" where
  "suppressed now l = l\<lparr>al_suppressedDemotedCount := al_suppressedDemotedCount l + 1, al_lastSuppressedAt := Some now\<rparr>"

definition counted :: "string \<Rightarrow> AutoEnrollLiveness \<Rightarrow> AutoEnrollLiveness" where
  "counted now l = l\<lparr>al_enrolledCount := al_enrolledCount l + 1, al_lastEnrolledAt := Some now\<rparr>"

text \<open>\<open>mirror\<close> is \<open>None\<close> when no store is given.\<close>

definition autoEnrollByTeam ::
  "EnrollWorld \<Rightarrow> string \<Rightarrow> string \<Rightarrow> (string, string) jsmap option \<Rightarrow> mirror option \<Rightarrow> AutoEnrollLiveness \<Rightarrow>
   enroll_result \<times> AutoEnrollLiveness" where
  "autoEnrollByTeam w issueId teamKey config store l =
     (case map_get (orElse config DEFAULT_TEAM_ENROLL_CONFIG) teamKey of
        None \<Rightarrow> (not_enrolled, l)
      | Some workflowId \<Rightarrow>
          if workflowId = [] then (not_enrolled, l)
          else case ew_issue w of
            None \<Rightarrow> (not_enrolled, l)
          | Some issue \<Rightarrow>
              if truthy (getWorkflowId (label_names issue)) then (not_enrolled, l)
              else if (case store of None \<Rightarrow> False | Some s \<Rightarrow> wasDemoted (ti_identifier issue) None s)
              then (not_enrolled, suppressed (ew_stamp w) l)
              else case policy_entry (ew_registry w) workflowId of
                None \<Rightarrow> (not_enrolled, l)
              | Some (def, entry) \<Rightarrow>
                  (case findOrCreateLabel (ew_wfLabels w) (ti_teamId issue) (''wf:'' @ workflowId) of
                     (wfLabel, made) \<Rightarrow>
                       if \<not> truthy wfLabel then ((None, map EnrollLabelMade made), l)
                       else case findOrCreateLabel (ew_stateLabels w) (ti_teamId issue) (''state:'' @ entry) of
                         (stateLabel, made') \<Rightarrow>
                           if \<not> truthy stateLabel then ((None, map EnrollLabelMade (made @ made')), l)
                           else let send = EnrollSent (issueUpdateLabels (unique (issueTeamLabelIds (ti_labels issue) (ti_teamId issue) @ [the wfLabel, the stateLabel])))
                             in if \<not> ew_written w then ((None, map EnrollLabelMade (made @ made') @ [send]), l)
                                else ((Some entry, map EnrollLabelMade (made @ made') @ [send,
                                  AutoEnrolled \<lparr>eh_issueId = issueId, eh_internalId = ti_internalId issue,
                                    eh_workflowId = workflowId, eh_entryState = entry\<rparr> teamKey]), counted (ew_stamp w) l)))"

definition autoEnrollPlainDelegation :: "string \<Rightarrow> enroll_result" where
  "autoEnrollPlainDelegation issueId = not_enrolled"

subsection \<open>The enrollment policy\<close>

definition FALLBACK_POLICY :: EnrollmentPolicy where
  "FALLBACK_POLICY = \<lparr>deprecatedWorkflowIds = [''task''], defaultEnrollmentWorkflow = ''chore''\<rparr>"

record PolicyCacheEntry =
  pce_policy :: EnrollmentPolicy
  pce_path :: string
  pce_mtime :: int

text \<open>What the file system answers: nothing, or the time of the last change and what the text parses to.\<close>

definition texts_of :: "yaml list \<Rightarrow> string list option" where
  "texts_of ys = (if list_all is_str ys then Some (map (\<lambda>y. case y of Str s \<Rightarrow> s | _ \<Rightarrow> []) ys) else None)"

definition parse_policy :: "yaml option \<Rightarrow> EnrollmentPolicy option" where
  "parse_policy raw =
     (case raw of
        Some y \<Rightarrow>
          (case (yaml_get ''deprecated_workflow_ids'' y, yaml_get ''default_enrollment_workflow'' y) of
             (Seq ys, Str d) \<Rightarrow>
               (case texts_of ys of
                  Some ids \<Rightarrow> if trim d = [] then None else Some \<lparr>deprecatedWorkflowIds = ids, defaultEnrollmentWorkflow = trim d\<rparr>
                | None \<Rightarrow> None)
           | _ \<Rightarrow> None)
      | None \<Rightarrow> None)"

text \<open>The policy, the cache, and whether an alert is raised.\<close>

definition loadEnrollmentPolicy ::
  "string \<Rightarrow> (int \<times> yaml option) option \<Rightarrow> PolicyCacheEntry option \<Rightarrow> EnrollmentPolicy \<times> PolicyCacheEntry option \<times> bool" where
  "loadEnrollmentPolicy file answer cache =
     (case answer of
        None \<Rightarrow> (FALLBACK_POLICY, Some \<lparr>pce_policy = FALLBACK_POLICY, pce_path = file, pce_mtime = -1\<rparr>, False)
      | Some (mtime, raw) \<Rightarrow>
          (let fresh = (case parse_policy raw of
                 Some p \<Rightarrow> (p, Some \<lparr>pce_policy = p, pce_path = file, pce_mtime = mtime\<rparr>, False)
               | None \<Rightarrow> (FALLBACK_POLICY, Some \<lparr>pce_policy = FALLBACK_POLICY, pce_path = file, pce_mtime = mtime\<rparr>, True))
           in case cache of
                Some c \<Rightarrow> if pce_path c = file \<and> pce_mtime c = mtime then (pce_policy c, cache, False) else fresh
              | None \<Rightarrow> fresh))"

lemma missing_policy_is_silent: "loadEnrollmentPolicy file None cache = (FALLBACK_POLICY, Some \<lparr>pce_policy = FALLBACK_POLICY, pce_path = file, pce_mtime = -1\<rparr>, False)"
  by (simp add: loadEnrollmentPolicy_def)

lemma loaded_policy_is_cached:
  "loadEnrollmentPolicy file (Some (mtime, raw)) cache = (p, cache', alert) \<Longrightarrow>
   loadEnrollmentPolicy file (Some (mtime, raw')) cache' = (p, cache', False)"
  by (cases cache; cases "parse_policy raw") (auto simp: loadEnrollmentPolicy_def Let_def split: if_splits)

subsection \<open>What an enrollment sends\<close>

definition enroll_sends :: "enroll_effect list \<Rightarrow> AtomicInput list" where
  "enroll_sends es = List.map_filter (\<lambda>e. case e of EnrollSent i \<Rightarrow> Some i | _ \<Rightarrow> None) es"

lemma enroll_sends_simps [simp]:
  "enroll_sends [] = []" "enroll_sends (EnrollSent i # es) = i # enroll_sends es" "enroll_sends (Healed h # es) = enroll_sends es"
  "enroll_sends (AutoEnrolled h t # es) = enroll_sends es" "enroll_sends (map EnrollLabelMade made @ es) = enroll_sends es"
  "enroll_sends (map EnrollLabelMade made) = []"
  by (simp_all add: enroll_sends_def map_filter_def)

lemma team_enrolled:
  assumes "autoEnrollByTeam w issueId teamKey config store l = ((Some entry, es), l')"
  obtains workflowId issue def wfLabel stateLabel where
    "map_get (orElse config DEFAULT_TEAM_ENROLL_CONFIG) teamKey = Some workflowId" "ew_issue w = Some issue"
    "\<not> truthy (getWorkflowId (label_names issue))" "\<forall>s. store = Some s \<longrightarrow> \<not> wasDemoted (ti_identifier issue) None s"
    "policy_entry (ew_registry w) workflowId = Some (def, entry)"
    "fst (findOrCreateLabel (ew_wfLabels w) (ti_teamId issue) (''wf:'' @ workflowId)) = Some wfLabel"
    "fst (findOrCreateLabel (ew_stateLabels w) (ti_teamId issue) (''state:'' @ entry)) = Some stateLabel"
    "enroll_sends es = [issueUpdateLabels (unique (issueTeamLabelIds (ti_labels issue) (ti_teamId issue) @ [wfLabel, stateLabel]))]"
    "al_enrolledCount l' = al_enrolledCount l + 1"
proof -
  let ?c = "map_get (orElse config DEFAULT_TEAM_ENROLL_CONFIG) teamKey"
  obtain workflowId where c: "?c = Some workflowId"
    using assms by (cases ?c) (auto simp: autoEnrollByTeam_def not_enrolled_def)
  have ne: "workflowId \<noteq> []" using assms c by (auto simp: autoEnrollByTeam_def not_enrolled_def)
  obtain issue where i: "ew_issue w = Some issue"
    using assms c ne by (cases "ew_issue w") (auto simp: autoEnrollByTeam_def not_enrolled_def)
  have nw: "\<not> truthy (getWorkflowId (label_names issue))"
    using assms c ne i by (auto simp: autoEnrollByTeam_def not_enrolled_def split: if_splits)
  have nd: "\<not> (case store of None \<Rightarrow> False | Some s \<Rightarrow> wasDemoted (ti_identifier issue) None s)"
    using assms c ne i nw by (auto simp: autoEnrollByTeam_def not_enrolled_def split: if_splits)
  obtain def entry' where e: "policy_entry (ew_registry w) workflowId = Some (def, entry')"
    using assms c ne i nw nd by (cases "policy_entry (ew_registry w) workflowId") (auto simp: autoEnrollByTeam_def not_enrolled_def)
  obtain wl made sl made' where l1: "findOrCreateLabel (ew_wfLabels w) (ti_teamId issue) (''wf:'' @ workflowId) = (wl, made)"
    and l2: "findOrCreateLabel (ew_stateLabels w) (ti_teamId issue) (''state:'' @ entry') = (sl, made')"
    by (metis surj_pair)
  have t: "truthy wl" "truthy sl" "ew_written w" and r: "entry' = entry" "l' = counted (ew_stamp w) l"
    "enroll_sends es = [issueUpdateLabels (unique (issueTeamLabelIds (ti_labels issue) (ti_teamId issue) @ [the wl, the sl]))]"
    using assms nd by (auto simp: autoEnrollByTeam_def c ne i nw e l1 l2 Let_def simp del: append.simps append_Cons split: if_splits)
  show thesis
    by (rule that [OF c i nw _ e [unfolded r] _ _ r(3)])
       (use nd t l1 l2 r in \<open>auto simp: truthy_def counted_def simp del: append.simps append_Cons split: option.splits\<close>)
qed

lemma missing_enrolled:
  assumes "enrollIfMissing w issueId = (Some entry, es)"
  obtains workflowId issue def stateLabel where
    "ew_issue w = Some issue" "getWorkflowId (label_names issue) = Some workflowId" "workflowId \<noteq> []"
    "\<not> truthy (getCurrentState (label_names issue) None)"
    "policy_entry (ew_registry w) workflowId = Some (def, entry)" "native_states_exist (ew_teamStates w) def"
    "fst (findOrCreateLabel (ew_stateLabels w) (ti_teamId issue) (''state:'' @ entry)) = Some stateLabel"
    "enroll_sends es = [issueUpdateLabels (issueTeamLabelIds (ti_labels issue) (ti_teamId issue) @ [stateLabel])]"
proof -
  obtain issue where i: "ew_issue w = Some issue"
    using assms by (cases "ew_issue w") (auto simp: enrollIfMissing_def not_enrolled_def)
  have g: "truthy (getWorkflowId (label_names issue))" "\<not> truthy (getCurrentState (label_names issue) None)"
    using assms i by (auto simp: enrollIfMissing_def not_enrolled_def Let_def split: if_splits)
  then obtain workflowId where n: "getWorkflowId (label_names issue) = Some workflowId" "workflowId \<noteq> []"
    by (auto simp: truthy_def split: option.splits)
  obtain def entry' where e: "policy_entry (ew_registry w) workflowId = Some (def, entry')"
    using assms i g n by (cases "policy_entry (ew_registry w) workflowId") (auto simp: enrollIfMissing_def not_enrolled_def)
  obtain sl made where l: "findOrCreateLabel (ew_stateLabels w) (ti_teamId issue) (''state:'' @ entry') = (sl, made)" by fastforce
  have "native_states_exist (ew_teamStates w) def" "truthy sl" "entry' = entry"
    "enroll_sends es = [issueUpdateLabels (issueTeamLabelIds (ti_labels issue) (ti_teamId issue) @ [the sl])]"
    using assms g by (auto simp: enrollIfMissing_def not_enrolled_def i n e l Let_def simp del: append.simps append_Cons split: if_splits)
  with i n g e l show thesis
    by (intro that [of issue workflowId def "the sl"]) (auto simp: truthy_def simp del: append.simps append_Cons split: option.splits)
qed

text \<open>
  An event enrolls a ticket at most once: on one reading of the ticket, the repair of a missing state label and
  the enrollment of the team are never both done; and each is done only for a workflow of the registry
  with an entry state, by one mutation that adds the labels of that workflow and state to the labels of
  the ticket's own team, the repair only when every native state of the workflow exists on the team.
\<close>

theorem one_enrolment_per_event:
  assumes "ew_issue w' = ew_issue w"
  shows "(fst (enrollIfMissing w issueId) = None \<or> fst (fst (autoEnrollByTeam w' issueId teamKey config store l)) = None) \<and>
    (\<forall>entry es. enrollIfMissing w issueId = (Some entry, es) \<longrightarrow>
      (\<exists>issue workflowId def label. ew_issue w = Some issue \<and> policy_entry (ew_registry w) workflowId = Some (def, entry) \<and>
        getWorkflowId (label_names issue) = Some workflowId \<and> native_states_exist (ew_teamStates w) def \<and>
        enroll_sends es = [issueUpdateLabels (issueTeamLabelIds (ti_labels issue) (ti_teamId issue) @ [label])]))"
proof (intro conjI allI impI)
  show "fst (enrollIfMissing w issueId) = None \<or> fst (fst (autoEnrollByTeam w' issueId teamKey config store l)) = None"
  proof (rule ccontr)
    assume "\<not> ?thesis"
    then obtain e1 e2 es1 es2 l' where a: "enrollIfMissing w issueId = (Some e1, es1)"
      and b: "autoEnrollByTeam w' issueId teamKey config store l = ((Some e2, es2), l')"
      by (metis option.exhaust surj_pair fst_conv)
    obtain issue where "ew_issue w = Some issue" "truthy (getWorkflowId (label_names issue))"
      by (rule missing_enrolled [OF a]) (auto simp: truthy_def)
    moreover obtain issue' where "ew_issue w' = Some issue'" "\<not> truthy (getWorkflowId (label_names issue'))"
      by (rule team_enrolled [OF b]) auto
    ultimately show False using assms by simp
  qed
next
  fix entry es
  assume "enrollIfMissing w issueId = (Some entry, es)"
  then show "\<exists>issue workflowId def label. ew_issue w = Some issue \<and> policy_entry (ew_registry w) workflowId = Some (def, entry) \<and>
        getWorkflowId (label_names issue) = Some workflowId \<and> native_states_exist (ew_teamStates w) def \<and>
        enroll_sends es = [issueUpdateLabels (issueTeamLabelIds (ti_labels issue) (ti_teamId issue) @ [label])]"
    by (rule missing_enrolled) blast
qed

subsection \<open>A demoted ticket stays out\<close>

lemma tombstone_kept:
  "\<forall>x \<in> set ops. enrol_op_ticket (fst x) \<noteq> i \<Longrightarrow>
   wasDemoted i since (fold mirror_step ops s) = wasDemoted i since s"
  by (induction ops arbitrary: s) (auto simp: other_tickets_keep_tombstone)

text \<open>
  C39: A demoted ticket stays out: once a ticket was demoted, no event enrolls it by its team and nothing is written to
  it, whatever happens to the other tickets of the mirror, whatever its workflow was and whichever label
  the event still shows; the suppression is counted.
\<close>

theorem demoted_ticket_stays_out:
  assumes "\<forall>x \<in> set ops. enrol_op_ticket (fst x) \<noteq> i" and "ew_issue w = Some issue" "ti_identifier issue = i"
    and store: "store = fold mirror_step ops (demoteEnrolled now i s)"
  shows "fst (autoEnrollByTeam w issueId teamKey config (Some store) l) = not_enrolled"
proof -
  have "wasDemoted i None store" unfolding store using tombstone_kept [OF assms(1)] demoted_is_remembered by blast
  then show ?thesis using assms(2,3) by (simp add: autoEnrollByTeam_def Let_def split: option.split)
qed

text \<open>
  A retired ticket does not: its labels are removed as a demoted one's are, but the row it leaves says
  \<open>retired\<close>, which the enrollment does not ask for.
\<close>

definition plain_issue :: "LabelNode list \<Rightarrow> TicketIssue" where
  "plain_issue labels = \<lparr>ti_internalId = ''u'', ti_identifier = ''AI-1'', ti_teamId = ''t'', ti_teamKey = Some ''AI'', ti_teamName = None,
     ti_labels = labels, ti_delegateId = None, ti_assigneeId = None, ti_nativeStateId = None, ti_requesterUserId = None\<rparr>"

definition retired_world :: EnrollWorld where
  "retired_world = \<lparr>ew_issue = Some (plain_issue []),
     ew_registry = Some [(''dev-impl'', (sample_def [sample_state ''intake''])\<lparr>d_entry_state := Some ''intake''\<rparr>)],
     ew_teamStates = [],
     ew_wfLabels = \<lparr>lw_labels = Some [], lw_create = CreatedLabel ''l1'', lw_workspaceCreate = None\<rparr>,
     ew_stateLabels = \<lparr>lw_labels = Some [], lw_create = CreatedLabel ''l2'', lw_workspaceCreate = None\<rparr>,
     ew_written = True, ew_stamp = ''t''\<rparr>"

definition labelled_world :: EnrollWorld where
  "labelled_world = retired_world\<lparr>ew_issue := Some (plain_issue [plain_label ''l'' ''wf:dev-impl''])\<rparr>"

definition dev_row :: EnrollInput where
  "dev_row = \<lparr>ei_ticketId = ''AI-1'', ei_workflow = ''dev-impl'', ei_state = ''doing'', ei_delegate = Some ''ai'', ei_approver = None\<rparr>"

lemma retired_ticket_is_enrolled_again:
  "fst (fst (autoEnrollByTeam retired_world ''u'' ''AI'' None (Some (retire ''t2'' ''AI-1'' (enroll ''t1'' dev_row []))) initial_liveness)) = Some ''intake''"
  by code_simp

lemma labelled_repaired: "enrollIfMissing labelled_world ''u'' = (Some ''intake'',
    [EnrollLabelMade (TeamLabel ''state:intake'' None), EnrollSent (issueUpdateLabels [''l'', ''l2'']),
     Healed \<lparr>eh_issueId = ''u'', eh_internalId = ''u'', eh_workflowId = ''dev-impl'', eh_entryState = ''intake''\<rparr>])"
  by code_simp

theorem one_enrolment_per_event_witness:
  "\<exists>label. enroll_sends (snd (enrollIfMissing labelled_world ''u'')) = [issueUpdateLabels [''l'', label]] \<and>
     fst (fst (autoEnrollByTeam labelled_world ''u'' ''AI'' None None initial_liveness)) = None"
proof -
  have i: "ew_issue labelled_world = Some (plain_issue [plain_label ''l'' ''wf:dev-impl''])" by (simp add: labelled_world_def)
  have "issueTeamLabelIds (ti_labels (plain_issue [plain_label ''l'' ''wf:dev-impl''])) (ti_teamId (plain_issue [plain_label ''l'' ''wf:dev-impl''])) = [''l'']"
    by code_simp
  with one_enrolment_per_event [OF refl, of labelled_world "''u''" "''AI''" None None initial_liveness] labelled_repaired i
  show ?thesis by fastforce
qed

theorem demoted_ticket_stays_out_witness:
  "fst (fst (autoEnrollByTeam retired_world ''u'' ''AI'' None (Some (mirror_step (Retire ''AI-2'', ''t2'') (demoteEnrolled ''t1'' ''AI-1'' []))) initial_liveness)) = None"
proof -
  have ops: "\<forall>x \<in> set [(Retire ''AI-2'', ''t2'')]. enrol_op_ticket (fst x) \<noteq> ''AI-1''" by simp
  have i: "ew_issue retired_world = Some (plain_issue [])" "ti_identifier (plain_issue []) = ''AI-1''"
    by (simp_all add: retired_world_def plain_issue_def)
  show ?thesis
    using demoted_ticket_stays_out [OF ops i refl, of "''u''" "''AI''" None "''t1''" "[]" initial_liveness] by (simp add: not_enrolled_def)
qed

end
