(* ===== verification/SetState.thy ===== *)
theory SetState
  imports Enrollment
begin

text \<open>
  \<open>setStateAtomic\<close> of \<open>src/workflow-gate.ts\<close>, the steward's command that puts a ticket into any state of its
  workflow, with the wake that follows it (\<open>dispatchWithRetry\<close>), and \<open>parkIssueToBacklog\<close>. What the
  services answer is a record; the wake of an agent is a function of the agent and the attempt.
\<close>

subsection \<open>Options, answers, results\<close>

record SetStateOptions =
  so_wakes :: bool
  so_mirrors :: bool
  so_force :: bool
  so_native :: "string option"
  so_nativeId :: "string option"
  so_assignee :: "string option"
  so_source :: "string option"
  so_seatsOwner :: bool

record SetStateWorld =
  sw_issue :: "TicketIssue option"
  sw_registry :: "(string, WorkflowDef) jsmap option"
  sw_labels :: LabelWorld
  sw_teamStates :: "(string \<times> string) list"
  sw_agents :: "Agent list"
  sw_policy :: CapabilityPolicy
  sw_write :: WriteWorld
  sw_mirror :: mirror
  sw_wake :: "string \<Rightarrow> nat \<Rightarrow> bool"

datatype set_state_error =
    IssueUnread | WorkflowsUnread | UnknownTarget "string list" | NeedsForce | LabelUnresolved | NativeUnresolved
  | DelegateUnknown string | WriteDiverged | WriteFailed

datatype wake_path = DelegateOwnerRole | MigrateStateOwnerRole

record SetStateDone =
  sd_from :: "string option"
  sd_to :: string
  sd_redispatched :: "string option"
  sd_wakePath :: "wake_path option"
  sd_source :: "string option"
  sd_dispatchFailed :: bool

record SetStateFailed =
  sf_from :: "string option"
  sf_to :: string
  sf_error :: set_state_error

datatype set_state_effect =
  SsLabelMade label_create | SsWrote write_effect | SsFailureReported | SsMirrored mirror_op | SsWoke string

type_synonym 'a ss = "(SetStateFailed + 'a) \<times> set_state_effect list"

subsection \<open>Waking an agent\<close>

text \<open>\<open>k\<close> attempts are left, \<open>n\<close> is the number of the next; the effects are the calls made.\<close>

fun dispatchWithRetry :: "(nat \<Rightarrow> bool) \<Rightarrow> string \<Rightarrow> nat \<Rightarrow> nat \<Rightarrow> bool \<times> set_state_effect list" where
  "dispatchWithRetry wake agent 0 n = (False, [])"
| "dispatchWithRetry wake agent (Suc k) n =
     (if wake n then (True, [SsWoke agent])
      else case dispatchWithRetry wake agent k (n + 1) of (ok, es) \<Rightarrow> (ok, SsWoke agent # es))"

definition MAX_DISPATCH_ATTEMPTS :: nat where
  "MAX_DISPATCH_ATTEMPTS = 4"

subsection \<open>Where the ticket is and may go\<close>

definition ss_from :: "TicketIssue \<Rightarrow> string option" where
  "ss_from issue = getCurrentState (label_names issue) None"

definition ss_workflow :: "SetStateWorld \<Rightarrow> TicketIssue \<Rightarrow> set_state_error + WorkflowDef option" where
  "ss_workflow w issue =
     (if \<not> truthy (getWorkflowId (label_names issue)) then Inr None
      else case sw_registry w of
        None \<Rightarrow> Inl WorkflowsUnread
      | Some reg \<Rightarrow> Inr (map_get reg (the (getWorkflowId (label_names issue)))))"

definition ss_target :: "WorkflowDef option \<Rightarrow> string \<Rightarrow> WorkflowState option" where
  "ss_target def target = Option.bind def (\<lambda>d. stateNodeById d (Some target))"

definition ss_terminal :: "WorkflowState option \<Rightarrow> bool" where
  "ss_terminal s = (Option.bind s s_kind = Some ''terminal'')"

definition ss_admissible :: "WorkflowDef option \<Rightarrow> SetStateOptions \<Rightarrow> string option \<Rightarrow> string \<Rightarrow> set_state_error option" where
  "ss_admissible def opts source target =
     (case def of
        None \<Rightarrow> None
      | Some d \<Rightarrow>
          if ss_target def target = None then Some (UnknownTarget (map s_id (d_states d)))
          else if \<not> so_force opts \<and> ss_terminal (ss_target def target) \<and>
             (case (if truthy source then stateNodeById d source else None) of None \<Rightarrow> False | Some s \<Rightarrow> \<not> ss_terminal (Some s))
          then Some NeedsForce
          else None)"

subsection \<open>The native state and the holder\<close>

text \<open>The outer \<open>None\<close> is an error, the inner \<open>None\<close> a native state that is not written.\<close>

definition ss_native :: "SetStateWorld \<Rightarrow> WorkflowDef option \<Rightarrow> SetStateOptions \<Rightarrow> string \<Rightarrow> string option option" where
  "ss_native w def opts target =
     (let semantic = nullish (so_native opts) (Option.bind (ss_target def target) s_native_state) in
      if truthy (so_nativeId opts) then Some (so_nativeId opts)
      else if truthy semantic
      then (let i = resolveNativeStateId (sw_teamStates w) (the semantic) in if truthy i then Some i else None)
      else Some None)"

definition ss_role :: "WorkflowDef option \<Rightarrow> string \<Rightarrow> string option" where
  "ss_role def target =
     (if ss_terminal (ss_target def target) then None
      else case Option.bind (ss_target def target) s_owner_role of Some r \<Rightarrow> if r = [] then None else Some r | None \<Rightarrow> None)"

definition ss_bodies :: "SetStateWorld \<Rightarrow> WorkflowDef option \<Rightarrow> string \<Rightarrow> string list" where
  "ss_bodies w def role =
     (case def of None \<Rightarrow> [] | Some d \<Rightarrow> (case resolveBodiesForOwnerRole (sw_policy w) role d of Inl _ \<Rightarrow> [] | Inr bs \<Rightarrow> bs))"

definition ss_seats :: "WorkflowDef option \<Rightarrow> SetStateOptions \<Rightarrow> TicketIssue \<Rightarrow> string \<Rightarrow> bool" where
  "ss_seats def opts issue target =
     (def \<noteq> None \<and> ss_from issue \<noteq> None \<and>
      (if ss_from issue = Some target then ti_delegateId issue = None else so_seatsOwner opts))"

definition ss_owner_seat :: "SetStateWorld \<Rightarrow> WorkflowDef option \<Rightarrow> SetStateOptions \<Rightarrow> TicketIssue \<Rightarrow> string \<Rightarrow> string option" where
  "ss_owner_seat w def opts issue target =
     (if \<not> ss_seats def opts issue target then None
      else case ss_role def target of
        None \<Rightarrow> None
      | Some role \<Rightarrow> (case ss_bodies w def role of [b] \<Rightarrow> user_of (sw_agents w) b | _ \<Rightarrow> None))"

text \<open>The argument \<open>delegate\<close>: not given, \<open>null\<close>, or the name of an agent; the result as it is written.\<close>

definition ss_holder ::
  "SetStateWorld \<Rightarrow> WorkflowDef option \<Rightarrow> SetStateOptions \<Rightarrow> TicketIssue \<Rightarrow> string \<Rightarrow> string option option \<Rightarrow>
   set_state_error + string option option" where
  "ss_holder w def opts issue target delegate =
     (case delegate of
        Some None \<Rightarrow> Inr (Some None)
      | Some (Some name) \<Rightarrow> (case user_of (sw_agents w) name of None \<Rightarrow> Inl (DelegateUnknown name) | Some u \<Rightarrow> Inr (Some (Some u)))
      | None \<Rightarrow> Inr (map_option Some (ss_owner_seat w def opts issue target)))"

subsection \<open>The write and the mirror\<close>

definition ss_request ::
  "SetStateOptions \<Rightarrow> TicketIssue \<Rightarrow> string \<Rightarrow> string \<Rightarrow> string option option \<Rightarrow> string option \<Rightarrow> WriteRequest" where
  "ss_request opts issue target labelId holder native =
     \<lparr>wr_labelIds = retainedLabelIdsForIssue (ti_labels issue) (ti_teamId issue) False @ [labelId], wr_delegateId = holder,
      wr_nativeStateId = map_option Some native, wr_stateName = target, wr_identifier = Some (ti_identifier issue),
      wr_snapshot = None, wr_requireReadable = False, wr_allowLag = True, wr_assigneeOverride = so_assignee opts\<rparr>"

definition ss_mirror ::
  "SetStateWorld \<Rightarrow> WorkflowDef option \<Rightarrow> SetStateOptions \<Rightarrow> TicketIssue \<Rightarrow> string \<Rightarrow> string option option \<Rightarrow> set_state_effect list" where
  "ss_mirror w def opts issue target holder =
     (if \<not> so_mirrors opts \<or> def = None then []
      else if ss_terminal (ss_target def target) then [SsMirrored (Close (ti_identifier issue) ''set-state'')]
      else [SsMirrored (Move \<lparr>ti_ticketId = ti_identifier issue, ti_toState = target,
              ti_delegate = (case holder of
                 None \<Rightarrow> Option.bind (getByTicketId (ti_identifier issue) (sw_mirror w)) er_delegate
               | Some None \<Rightarrow> None
               | Some (Some u) \<Rightarrow> map_option ag_name (agent_of_user (sw_agents w) u)), ti_eventKind = ''set-state''\<rparr>)])"

subsection \<open>The wake of the new owner\<close>

record Redispatch =
  rd_agent :: "string option"
  rd_failed :: bool
  rd_effects :: "set_state_effect list"

definition no_redispatch :: Redispatch where
  "no_redispatch = \<lparr>rd_agent = None, rd_failed = False, rd_effects = []\<rparr>"

text \<open>The fallback is called once; that it fails too is only logged.\<close>

definition wake_body :: "SetStateWorld \<Rightarrow> string \<Rightarrow> Redispatch" where
  "wake_body w b =
     (case dispatchWithRetry (sw_wake w b) b MAX_DISPATCH_ATTEMPTS 1 of
        (True, es) \<Rightarrow> \<lparr>rd_agent = Some b, rd_failed = False, rd_effects = es\<rparr>
      | (False, es) \<Rightarrow> \<lparr>rd_agent = Some ''ai'', rd_failed = True, rd_effects = es @ [SsWoke ''ai'']\<rparr>)"

definition redispatch ::
  "SetStateWorld \<Rightarrow> WorkflowDef option \<Rightarrow> SetStateOptions \<Rightarrow> string \<Rightarrow> string option option \<Rightarrow> Redispatch" where
  "redispatch w def opts target holder =
     (if \<not> so_wakes opts then no_redispatch
      else case ss_role def target of
        None \<Rightarrow> no_redispatch
      | Some role \<Rightarrow>
          (case ss_bodies w def role of
             [] \<Rightarrow> no_redispatch
           | [b] \<Rightarrow> wake_body w b
           | bs \<Rightarrow>
               (case holder of
                  Some (Some u) \<Rightarrow>
                    (case List.find (\<lambda>b. map_option ag_linearUserId (getAgent (sw_agents w) b) = Some u) bs of
                       Some b \<Rightarrow> wake_body w b | None \<Rightarrow> no_redispatch)
                | _ \<Rightarrow> no_redispatch)))"

subsection \<open>The command\<close>

definition setStateAtomic ::
  "SetStateWorld \<Rightarrow> string \<Rightarrow> string option option \<Rightarrow> SetStateOptions \<Rightarrow> SetStateDone ss" where
  "setStateAtomic w target delegate opts =
     (case sw_issue w of
        None \<Rightarrow> (Inl \<lparr>sf_from = None, sf_to = target, sf_error = IssueUnread\<rparr>, [])
      | Some issue \<Rightarrow>
          (let fail = (\<lambda>es e. (Inl \<lparr>sf_from = ss_from issue, sf_to = target, sf_error = e\<rparr>, es)) in
           case ss_workflow w issue of
             Inl e \<Rightarrow> fail [] e
           | Inr def \<Rightarrow>
               (case ss_admissible def opts (ss_from issue) target of
                  Some e \<Rightarrow> fail [] e
                | None \<Rightarrow>
                    (case findOrCreateLabel (sw_labels w) (ti_teamId issue) (''state:'' @ target) of
                       (label, made) \<Rightarrow>
                         (let created = map SsLabelMade made in
                          if \<not> truthy label then fail created LabelUnresolved
                          else case ss_native w def opts target of
                            None \<Rightarrow> fail created NativeUnresolved
                          | Some native \<Rightarrow>
                              (case ss_holder w def opts issue target delegate of
                                 Inl e \<Rightarrow> fail created e
                               | Inr holder \<Rightarrow>
                                   (case issueUpdateAtomicVerified DEFAULT_TRANSITION_WRITE_POLICY (sw_write w)
                                           (ss_request opts issue target (the label) holder native) of
                                      (out, es) \<Rightarrow>
                                        if \<not> vo_ok out
                                        then fail (created @ map SsWrote es @ [SsFailureReported])
                                               (if vo_failureKind out = VerificationFailed then WriteDiverged else WriteFailed)
                                        else let d = redispatch w def opts target holder in
                                          (Inr \<lparr>sd_from = ss_from issue, sd_to = target, sd_redispatched = rd_agent d,
                                             sd_wakePath = map_option (\<lambda>_. if so_source opts = Some ''migrate-state''
                                                then MigrateStateOwnerRole else DelegateOwnerRole) (rd_agent d),
                                             sd_source = so_source opts, sd_dispatchFailed = rd_failed d\<rparr>,
                                           created @ map SsWrote es @ ss_mirror w def opts issue target holder @ rd_effects d))))))))"

subsection \<open>Parking in the backlog\<close>

record IssueWorkflowSnapshot =
  iw_issue :: TicketIssue
  iw_workflowId :: "string option"
  iw_currentState :: "string option"
  iw_entryState :: "string option"

definition fetchIssueWorkflowSnapshot :: "TicketIssue option \<Rightarrow> (string \<Rightarrow> WorkflowDef option) \<Rightarrow> IssueWorkflowSnapshot option" where
  "fetchIssueWorkflowSnapshot issue loadDef =
     map_option (\<lambda>i. let workflowId = getWorkflowId (label_names i) in
       \<lparr>iw_issue = i, iw_workflowId = workflowId, iw_currentState = getCurrentState (label_names i) None,
        iw_entryState = (if truthy workflowId then Option.bind (loadDef (the workflowId)) d_entry_state else None)\<rparr>) issue"

datatype park_result = ParkFailed "string option" | ParkedFrom "string option"

definition parkIssueToBacklog :: "IssueWorkflowSnapshot option \<Rightarrow> (string \<times> string) list \<Rightarrow> bool \<Rightarrow> park_result \<times> AtomicInput list" where
  "parkIssueToBacklog snapshot states sent_ok =
     (case snapshot of
        None \<Rightarrow> (ParkFailed None, [])
      | Some s \<Rightarrow>
          (case resolveNativeStateId states ''backlog'' of
             None \<Rightarrow> (ParkFailed (iw_currentState s), [])
           | Some native \<Rightarrow>
               if native = [] then (ParkFailed (iw_currentState s), [])
               else let i = iw_issue s; send = issueUpdateAtomic (retainedLabelIdsForIssue (ti_labels i) (ti_teamId i) True) (Some None) (Some (Some native)) None in
                 (if sent_ok then ParkedFrom (iw_currentState s) else ParkFailed (iw_currentState s), [send])))"

subsection \<open>What a set-state has done\<close>

definition ss_sends :: "set_state_effect list \<Rightarrow> AtomicInput list" where
  "ss_sends es = List.map_filter (\<lambda>e. case e of SsWrote (Sent i) \<Rightarrow> Some i | _ \<Rightarrow> None) es"

definition ss_wakes :: "set_state_effect list \<Rightarrow> string list" where
  "ss_wakes es = List.map_filter (\<lambda>e. case e of SsWoke a \<Rightarrow> Some a | _ \<Rightarrow> None) es"

lemma ss_append [simp]:
  "ss_sends (es @ fs) = ss_sends es @ ss_sends fs" "ss_wakes (es @ fs) = ss_wakes es @ ss_wakes fs"
  by (simp_all add: ss_sends_def ss_wakes_def map_filter_def)

lemma ss_single [simp]:
  "ss_sends [] = []" "ss_wakes [] = []"
  "ss_sends (SsWoke a # es) = ss_sends es" "ss_wakes (SsWoke a # es) = a # ss_wakes es"
  "ss_sends (SsMirrored m # es) = ss_sends es" "ss_wakes (SsMirrored m # es) = ss_wakes es"
  "ss_sends (SsFailureReported # es) = ss_sends es" "ss_wakes (SsFailureReported # es) = ss_wakes es"
  by (simp_all add: ss_sends_def ss_wakes_def map_filter_def)

lemma ss_written [simp]:
  "ss_sends (map SsLabelMade made) = []" "ss_wakes (map SsLabelMade made) = []"
  "ss_wakes (map SsWrote ws) = []" "ss_sends (map SsWrote ws) = sent ws"
proof -
  show "ss_sends (map SsLabelMade made) = []" "ss_wakes (map SsLabelMade made) = []"
    by (induction made) (simp_all add: ss_sends_def ss_wakes_def map_filter_def)
  show "ss_wakes (map SsWrote ws) = []" "ss_sends (map SsWrote ws) = sent ws"
    by (induction ws) (simp_all add: ss_sends_def ss_wakes_def sent_def map_filter_def split: write_effect.split)
qed

lemma retry_runs:
  "dispatchWithRetry wake a k n = (ok, es) \<Longrightarrow>
   ss_sends es = [] \<and> set (ss_wakes es) \<subseteq> {a} \<and> length (ss_wakes es) \<le> k \<and> (ok \<longleftrightarrow> (\<exists>m. n \<le> m \<and> m < n + k \<and> wake m))"
proof (induction k arbitrary: n ok es)
  case (Suc k)
  have split: "(n \<le> m \<and> m < n + Suc k \<and> wake m) = (m = n \<and> wake n \<or> Suc n \<le> m \<and> m < Suc n + k \<and> wake m)" for m
    by (cases "m = n") auto
  have less: "(\<exists>m. n \<le> m \<and> m < n + Suc k \<and> wake m) \<longleftrightarrow> wake n \<or> (\<exists>m. Suc n \<le> m \<and> m < Suc n + k \<and> wake m)"
    unfolding split ex_disj_distrib by simp
  obtain ok' es' where d: "dispatchWithRetry wake a k (Suc n) = (ok', es')" by fastforce
  show ?case unfolding less using Suc.IH [OF d] Suc.prems d by (cases "wake n") auto
qed auto

lemma woken_body:
  "ss_sends (rd_effects (wake_body w b)) = []" "set (ss_wakes (rd_effects (wake_body w b))) \<subseteq> {b, ''ai''}"
  "length (ss_wakes (rd_effects (wake_body w b))) \<le> 5"
proof -
  obtain ok es where d: "dispatchWithRetry (sw_wake w b) b MAX_DISPATCH_ATTEMPTS 1 = (ok, es)" by fastforce
  have r: "ss_sends es = []" "set (ss_wakes es) \<subseteq> {b}" "length (ss_wakes es) \<le> 4"
    using retry_runs [OF d] by (simp_all add: MAX_DISPATCH_ATTEMPTS_def)
  show "ss_sends (rd_effects (wake_body w b)) = []" "set (ss_wakes (rd_effects (wake_body w b))) \<subseteq> {b, ''ai''}"
    "length (ss_wakes (rd_effects (wake_body w b))) \<le> 5"
    using r d by (cases ok; auto simp: wake_body_def)+
qed

lemma redispatched:
  obtains "redispatch w def opts target holder = no_redispatch"
  | role b where "ss_role def target = Some role" "b \<in> set (ss_bodies w def role)"
      "redispatch w def opts target holder = wake_body w b"
proof -
  show thesis
  proof (cases "\<not> so_wakes opts \<or> ss_role def target = None")
    case False
    then obtain role where role: "ss_role def target = Some role" and g: "so_wakes opts" by auto
    note r = that(2) [OF role]
    show thesis
    proof (cases "ss_bodies w def role")
      case (Cons b bs)
      show thesis
      proof (cases bs)
        case Nil
        then show thesis using r [of b] role g Cons by (simp add: redispatch_def)
      next
        case (Cons c cs)
        note two = \<open>ss_bodies w def role = b # bs\<close> Cons
        show thesis
        proof (cases "\<exists>u c'. holder = Some (Some u) \<and>
            List.find (\<lambda>b. map_option ag_linearUserId (getAgent (sw_agents w) b) = Some u) (ss_bodies w def role) = Some c'")
          case True
          then obtain u c' where h: "holder = Some (Some u)"
            and f: "List.find (\<lambda>b. map_option ag_linearUserId (getAgent (sw_agents w) b) = Some u) (ss_bodies w def role) = Some c'" by blast
          show thesis using r [of c'] find_SomeD [OF f] f h role g two by (simp add: redispatch_def)
        next
          case False
          then show thesis using that(1) role g two
            by (auto simp: redispatch_def split: option.splits)
        qed
      qed
    qed (use that(1) role g in \<open>simp add: redispatch_def\<close>)
  qed (use that(1) in \<open>auto simp: redispatch_def\<close>)
qed

lemma redispatch_effects:
  "ss_sends (rd_effects (redispatch w def opts target holder)) = []"
  "length (ss_wakes (rd_effects (redispatch w def opts target holder))) \<le> 5"
  by (rule redispatched [of w def opts target holder]; use woken_body in \<open>simp add: no_redispatch_def\<close>)+

lemma set_state_done:
  assumes "setStateAtomic w target delegate opts = (Inr d, es)"
  obtains issue def label made native holder out ws where
    "sw_issue w = Some issue" "ss_workflow w issue = Inr def" "ss_admissible def opts (ss_from issue) target = None"
    "findOrCreateLabel (sw_labels w) (ti_teamId issue) (''state:'' @ target) = (Some label, made)"
    "ss_native w def opts target = Some native" "ss_holder w def opts issue target delegate = Inr holder"
    "issueUpdateAtomicVerified DEFAULT_TRANSITION_WRITE_POLICY (sw_write w) (ss_request opts issue target label holder native) = (out, ws)"
    "vo_ok out" "sd_from d = ss_from issue" "sd_redispatched d = rd_agent (redispatch w def opts target holder)"
    "es = map SsLabelMade made @ map SsWrote ws @ ss_mirror w def opts issue target holder @ rd_effects (redispatch w def opts target holder)"
proof -
  obtain issue where i: "sw_issue w = Some issue"
    using assms by (cases "sw_issue w") (auto simp: setStateAtomic_def)
  obtain def where d: "ss_workflow w issue = Inr def"
    using assms i by (cases "ss_workflow w issue") (auto simp: setStateAtomic_def)
  have a: "ss_admissible def opts (ss_from issue) target = None"
    using assms i d by (cases "ss_admissible def opts (ss_from issue) target") (auto simp: setStateAtomic_def)
  obtain lab made where l: "findOrCreateLabel (sw_labels w) (ti_teamId issue) (''state:'' @ target) = (lab, made)" by fastforce
  have t: "truthy lab"
    using assms i d a l by (auto simp: setStateAtomic_def Let_def simp del: append.simps append_Cons split: if_splits)
  then obtain label where lab: "lab = Some label" by (cases lab) (auto simp: truthy_def)
  obtain native where n: "ss_native w def opts target = Some native"
    using assms i d a l t by (cases "ss_native w def opts target") (auto simp: setStateAtomic_def Let_def simp del: append.simps append_Cons)
  obtain holder where h: "ss_holder w def opts issue target delegate = Inr holder"
    using assms i d a l t n by (cases "ss_holder w def opts issue target delegate")
      (auto simp: setStateAtomic_def Let_def simp del: append.simps append_Cons)
  obtain out ws where o: "issueUpdateAtomicVerified DEFAULT_TRANSITION_WRITE_POLICY (sw_write w)
      (ss_request opts issue target label holder native) = (out, ws)" by fastforce
  show thesis
    by (rule that [OF i d a l [unfolded lab] n h o])
       (use assms i d a l t n h o lab in \<open>auto simp: setStateAtomic_def Let_def simp del: append.simps append_Cons split: if_splits\<close>)
qed

lemma mirror_silent [simp]: "ss_sends (ss_mirror w def opts issue target holder) = []" "ss_wakes (ss_mirror w def opts issue target holder) = []"
  by (simp_all add: ss_mirror_def)


text \<open>
  An active ticket is closed only by force: set-state into a terminal state succeeds for a ticket that is in a
  state of its workflow that is not terminal only when force was given.
\<close>

theorem closing_needs_force:
  assumes "setStateAtomic w target delegate opts = (Inr d, es)" and "sw_issue w = Some issue" "ss_workflow w issue = Inr (Some def)"
    and "ss_from issue = Some source" "source \<noteq> []" "stateNodeById def (Some source) = Some node" "s_kind node \<noteq> Some ''terminal''"
    and "ss_terminal (stateNodeById def (Some target))"
  shows "so_force opts"
proof -
  obtain issue' def' where "sw_issue w = Some issue'" "ss_workflow w issue' = Inr def'" "ss_admissible def' opts (ss_from issue') target = None"
    by (rule set_state_done [OF assms(1)]) blast
  then show ?thesis
    using assms(2-) by (auto simp: ss_admissible_def ss_target_def truthy_def ss_terminal_def split: if_splits)
qed

text \<open>
  A refused set-state changes nothing and wakes nobody: it never wakes an agent and never touches the mirror, and
  unless it is the write itself that failed no mutation of the ticket was sent.
\<close>

theorem refused_set_state_is_silent:
  assumes "setStateAtomic w target delegate opts = (Inl f, es)"
  shows "ss_wakes es = [] \<and> (\<forall>op. SsMirrored op \<notin> set es) \<and> (sf_error f \<noteq> WriteDiverged \<and> sf_error f \<noteq> WriteFailed \<longrightarrow> ss_sends es = [])"
  using assms
  by (auto simp: setStateAtomic_def Let_def simp del: append.simps append_Cons split: option.splits sum.splits prod.splits if_splits)

text \<open>
  The wake after a set-state is bounded and goes to the owner: after it at most five wakes are made, none for a
  terminal state; each goes to a body of the owner role of the new state or to the fallback \<open>ai\<close>, and
  an owner who answers one of the four attempts is the one reported.
\<close>

theorem set_state_wakes_the_owner:
  assumes "setStateAtomic w target delegate opts = (Inr d, es)" and "sw_issue w = Some issue" "ss_workflow w issue = Inr def"
  shows "length (ss_wakes es) \<le> 5 \<and>
    (\<forall>a \<in> set (ss_wakes es). a = ''ai'' \<or> (\<exists>role. ss_role def target = Some role \<and> a \<in> set (ss_bodies w def role))) \<and>
    (ss_role def target = None \<longrightarrow> ss_wakes es = []) \<and>
    (\<forall>role b m. ss_role def target = Some role \<and> ss_bodies w def role = [b] \<and> so_wakes opts \<and> 1 \<le> m \<and> m \<le> 4 \<and> sw_wake w b m \<longrightarrow>
       sd_redispatched d = Some b)"
proof (rule set_state_done [OF assms(1)])
  fix issue' def' label made native holder out ws
  assume "sw_issue w = Some issue'" "ss_workflow w issue' = Inr def'"
    and r: "sd_redispatched d = rd_agent (redispatch w def' opts target holder)"
    and es: "es = map SsLabelMade made @ map SsWrote ws @ ss_mirror w def' opts issue' target holder @ rd_effects (redispatch w def' opts target holder)"
  then have def: "def' = def" using assms(2,3) by simp
  have wakes: "ss_wakes es = ss_wakes (rd_effects (redispatch w def opts target holder))" by (simp add: es def)
  have "rd_agent (redispatch w def opts target holder) = Some b"
    if "ss_role def target = Some role" "ss_bodies w def role = [b]" "so_wakes opts" "1 \<le> m" "m \<le> 4" "sw_wake w b m" for role b m
  proof -
    obtain ok es' where run: "dispatchWithRetry (sw_wake w b) b MAX_DISPATCH_ATTEMPTS 1 = (ok, es')" by fastforce
    have ok using retry_runs [OF run] that(4-6) by (auto simp: MAX_DISPATCH_ATTEMPTS_def)
    then show ?thesis using that(1-3) run by (simp add: redispatch_def wake_body_def)
  qed
  moreover have "length (ss_wakes es) \<le> 5" using redispatch_effects(2) wakes by simp
  moreover have "(\<forall>a \<in> set (ss_wakes es). a = ''ai'' \<or> (\<exists>role. ss_role def target = Some role \<and> a \<in> set (ss_bodies w def role))) \<and>
      (ss_role def target = None \<longrightarrow> ss_wakes es = [])"
    by (rule redispatched [of w def opts target holder]) (use woken_body(2) wakes in \<open>force simp: no_redispatch_def\<close>)+
  ultimately show ?thesis using r def by metis
qed

text \<open>With one body of the owner role that body is woken, whoever the steward named.\<close>

lemma named_delegate_is_not_woken:
  "ss_role def target = Some role \<Longrightarrow> ss_bodies w def role = [b] \<Longrightarrow> a \<in> set (ss_wakes (rd_effects (redispatch w def opts target holder))) \<Longrightarrow>
   a = b \<or> a = ''ai''"
  using woken_body(2) [of w b] by (auto simp: redispatch_def no_redispatch_def split: if_splits)

text \<open>Without a known workflow every target is accepted.\<close>

lemma ungoverned_ticket_takes_any_state: "ss_admissible None opts source target = None"
  by (simp add: ss_admissible_def)

lemma parking_tells_no_store:
  "parkIssueToBacklog (Some s) states sent_ok = (ParkedFrom x, is) \<Longrightarrow>
   \<exists>native. resolveNativeStateId states ''backlog'' = Some native \<and>
     is = [\<lparr>in_labelIds = retainedLabelIdsForIssue (ti_labels (iw_issue s)) (ti_teamId (iw_issue s)) True,
            in_delegateId = Some None, in_stateId = Some (Some native), in_assigneeId = Some None\<rparr>]"
  by (auto simp: parkIssueToBacklog_def issueUpdateAtomic_def Let_def split: option.splits if_splits)

subsection \<open>A ticket that is set to another state\<close>

definition steward_def :: WorkflowDef where
  "steward_def = sample_def
     [sample_state ''doing'' \<lparr>s_owner_role := Some ''dev'', s_native_state := Some ''doing''\<rparr>,
      sample_state ''merge'' \<lparr>s_owner_role := Some ''merge'', s_native_state := Some ''doing''\<rparr>,
      sample_state ''done'' \<lparr>s_kind := Some ''terminal'', s_native_state := Some ''done''\<rparr>]"

definition steward_world :: "string \<Rightarrow> SetStateWorld" where
  "steward_world target = \<lparr>sw_issue = Some (plain_issue [plain_label ''l1'' ''wf:task'', plain_label ''l2'' ''state:doing'']),
     sw_registry = Some [(''task'', steward_def)],
     sw_labels = \<lparr>lw_labels = Some [plain_label ''l3'' ''state:merge'', plain_label ''l4'' ''state:done''], lw_create = CreateRefused, lw_workspaceCreate = None\<rparr>,
     sw_teamStates = [(''n1'', ''Doing''), (''n2'', ''Done'')], sw_agents = dw_agents handover_world, sw_policy = sample_policy,
     sw_write = \<lparr>ww_applied = (\<lambda>_. True), ww_read = (\<lambda>_. None), ww_rollback = True, ww_rollbackRead = None, ww_repair = True\<rparr>,
     sw_mirror = [], sw_wake = (\<lambda>_ n. n = 2)\<rparr>"

definition steward_options :: "bool \<Rightarrow> SetStateOptions" where
  "steward_options force = \<lparr>so_wakes = True, so_mirrors = True, so_force = force, so_native = None, so_nativeId = None,
     so_assignee = None, so_source = None, so_seatsOwner = False\<rparr>"

definition steward_move :: "string \<Rightarrow> string option \<Rightarrow> bool \<Rightarrow> SetStateDone ss" where
  "steward_move target holder force = setStateAtomic (steward_world target) target (Some holder) (steward_options force)"

lemma steward_values:
  "fst (steward_move ''merge'' (Some ''hanzo'') False) = Inr \<lparr>sd_from = Some ''doing'', sd_to = ''merge'',
     sd_redispatched = Some ''hanzo'', sd_wakePath = Some DelegateOwnerRole, sd_source = None, sd_dispatchFailed = False\<rparr>"
  "fst (steward_move ''done'' None True) = Inr \<lparr>sd_from = Some ''doing'', sd_to = ''done'', sd_redispatched = None,
     sd_wakePath = None, sd_source = None, sd_dispatchFailed = False\<rparr>"
  "fst (steward_move ''done'' None False) = Inl \<lparr>sf_from = Some ''doing'', sf_to = ''done'', sf_error = NeedsForce\<rparr>"
  by code_simp+

lemma steward_moves:
  "fst (steward_move target holder force) = x \<Longrightarrow>
   setStateAtomic (steward_world target) target (Some holder) (steward_options force) = (x, snd (steward_move target holder force))"
  by (auto simp: steward_move_def)

lemma steward_reads:
  "sw_issue (steward_world t) = Some (plain_issue [plain_label ''l1'' ''wf:task'', plain_label ''l2'' ''state:doing''])"
  "ss_workflow (steward_world t) (plain_issue [plain_label ''l1'' ''wf:task'', plain_label ''l2'' ''state:doing'']) = Inr (Some steward_def)"
proof -
  show "sw_issue (steward_world t) = Some (plain_issue [plain_label ''l1'' ''wf:task'', plain_label ''l2'' ''state:doing''])"
    by (simp add: steward_world_def)
  have "getWorkflowId (label_names (plain_issue [plain_label ''l1'' ''wf:task'', plain_label ''l2'' ''state:doing''])) = Some ''task''" by code_simp
  then show "ss_workflow (steward_world t) (plain_issue [plain_label ''l1'' ''wf:task'', plain_label ''l2'' ''state:doing'']) = Inr (Some steward_def)"
    by (simp add: ss_workflow_def steward_world_def truthy_def map_get_def)
qed


theorem closing_needs_force_witness: "so_force (steward_options True)"
proof -
  have f: "ss_from (plain_issue [plain_label ''l1'' ''wf:task'', plain_label ''l2'' ''state:doing'']) = Some ''doing''" by code_simp
  have n: "stateNodeById steward_def (Some ''doing'') =
      Some (sample_state ''doing'' \<lparr>s_owner_role := Some ''dev'', s_native_state := Some ''doing''\<rparr>)" by code_simp
  have k: "s_kind (sample_state ''doing'' \<lparr>s_owner_role := Some ''dev'', s_native_state := Some ''doing''\<rparr>) \<noteq> Some ''terminal''" by code_simp
  have t: "ss_terminal (stateNodeById steward_def (Some ''done''))" by code_simp
  show ?thesis by (rule closing_needs_force [OF steward_moves [OF steward_values(2)] steward_reads f _ n k t]) simp
qed

theorem refused_set_state_is_silent_witness:
  "ss_wakes (snd (steward_move ''done'' None False)) = []"
  using refused_set_state_is_silent [OF steward_moves [OF steward_values(3)]] by simp

theorem set_state_wakes_the_owner_witness:
  "length (ss_wakes (snd (steward_move ''merge'' (Some ''hanzo'') False))) \<le> 5"
  using set_state_wakes_the_owner [OF steward_moves [OF steward_values(1)] steward_reads] by blast

end
