(* ===== verification/DelegateWrite.thy ===== *)
theory DelegateWrite
  imports Prelude
begin

text \<open>
  \<open>src/delegate-write.ts\<close>: the write of a ticket's delegate alone, with one read-back. What the service
  answers to the mutation and to the read is given; the mutation sent is returned.
\<close>

datatype mutation_answer = MutationThrew | MutationErrors | MutationNotSuccess | MutationDone

text \<open>The read-back: what cannot be read (an error, no issue, no delegate field), or the delegate.\<close>

datatype delegate_read = ReadUnavailable | ReadErrors | ReadOmitted | ReadNoIssue | ReadDelegate "string option"

datatype delegate_error = WriteThrew | WriteErrors | WriteRefused | Unverified delegate_read | NotPersisted

record WriteDelegateResult =
  wd_ok :: bool
  wd_verified :: bool
  wd_persisted :: "string option"
  wd_error :: "delegate_error option"

record DelegateService =
  ds_mutation :: mutation_answer
  ds_read :: delegate_read

text \<open>Seating sends the assignee \<open>null\<close> with the delegate, clearing the delegate sends nothing else.\<close>

record DelegateInput =
  di_delegateId :: "string option"
  di_clearsAssignee :: bool

definition delegate_input :: "string option \<Rightarrow> DelegateInput" where
  "delegate_input delegateId = \<lparr>di_delegateId = delegateId, di_clearsAssignee = (delegateId \<noteq> None)\<rparr>"

definition write_refused :: "delegate_error \<Rightarrow> WriteDelegateResult" where
  "write_refused e = \<lparr>wd_ok = False, wd_verified = False, wd_persisted = None, wd_error = Some e\<rparr>"

definition writeDelegate :: "DelegateService \<Rightarrow> string option \<Rightarrow> WriteDelegateResult" where
  "writeDelegate s delegateId =
     (case ds_mutation s of
        MutationThrew \<Rightarrow> write_refused WriteThrew
      | MutationErrors \<Rightarrow> write_refused WriteErrors
      | MutationNotSuccess \<Rightarrow> write_refused WriteRefused
      | MutationDone \<Rightarrow>
          (case ds_read s of
             ReadDelegate found \<Rightarrow>
               if found \<noteq> delegateId
               then \<lparr>wd_ok = False, wd_verified = True, wd_persisted = found, wd_error = Some NotPersisted\<rparr>
               else \<lparr>wd_ok = True, wd_verified = True, wd_persisted = found, wd_error = None\<rparr>
           | r \<Rightarrow> \<lparr>wd_ok = True, wd_verified = False, wd_persisted = None, wd_error = Some (Unverified r)\<rparr>))"

lemma written_delegate:
  "wd_ok (writeDelegate s d) \<longleftrightarrow> ds_mutation s = MutationDone \<and> (\<forall>p. ds_read s = ReadDelegate p \<longrightarrow> p = d)"
  by (auto simp: writeDelegate_def write_refused_def split: mutation_answer.splits delegate_read.splits)

lemma verified_delegate:
  "wd_verified (writeDelegate s d) \<and> wd_ok (writeDelegate s d) \<Longrightarrow> wd_persisted (writeDelegate s d) = d"
  by (auto simp: writeDelegate_def write_refused_def split: mutation_answer.splits delegate_read.splits if_splits)

end
