(* ===== verification/RoutingGuard.thy ===== *)
theory RoutingGuard
  imports DelegateWrite DelegateChoice TicketRecords RoutineVerbs
begin

text \<open>
  \<open>src/routing-guard.ts\<close>: whether an agent may be dispatched to a governed ticket in its current state, and
  what is done to the delegate of a ticket when a dispatch is blocked. The policy is \<open>None\<close> when it
  cannot be loaded, the definition is \<open>None\<close> when it is not registered or cannot be loaded.
\<close>

subsection \<open>The result\<close>

datatype guard_reason =
  ReviewOnly | ScopeMissing | ScopeUnresolved | WrongRole string string "string list"

record RoleGuardResult =
  rg_blocked :: bool
  rg_reason :: "guard_reason option"
  rg_correctedTo :: "string option"
  rg_legalBodies :: "string list option"
  rg_ownerRole :: "string option"
  rg_ownerBinding :: "string option"
  rg_delegatePreserved :: bool

definition not_blocked :: RoleGuardResult where
  "not_blocked = \<lparr>rg_blocked = False, rg_reason = None, rg_correctedTo = None, rg_legalBodies = None, rg_ownerRole = None,
     rg_ownerBinding = None, rg_delegatePreserved = False\<rparr>"

definition blocked_for :: "guard_reason \<Rightarrow> RoleGuardResult" where
  "blocked_for e = not_blocked\<lparr>rg_blocked := True, rg_reason := Some e, rg_legalBodies := Some []\<rparr>"

subsection \<open>The advisory check\<close>

definition REVIEW_ONLY_AGENTS :: "string list" where
  "REVIEW_ONLY_AGENTS = [''charles'', ''tdd'', ''ai'', ''astrid'', ''finn'', ''mckell'', ''yoshi'', ''ken'', ''miki'', ''poe'',
     ''kat'', ''maren'', ''kenji'', ''lacey'', ''scout'']"

definition checkRoleGuard :: "string \<Rightarrow> string list \<Rightarrow> RoleGuardResult" where
  "checkRoleGuard target labels =
     (if \<not> (\<exists>l \<in> set labels. starts_ci ''wf:'' l) then not_blocked
      else if \<not> (\<exists>l \<in> set labels. toLowerCase l = ''state:implementation'') then not_blocked
      else if toLowerCase target \<notin> set REVIEW_ONLY_AGENTS then not_blocked
      else not_blocked\<lparr>rg_reason := Some ReviewOnly\<rparr>)"

subsection \<open>The enforced check\<close>

record GuardWorld =
  gd_def :: "string \<Rightarrow> WorkflowDef option"
  gd_policy :: "CapabilityPolicy option"

definition same_name :: "string \<Rightarrow> string list \<Rightarrow> bool" where
  "same_name target bs = (toLowerCase target \<in> set (map toLowerCase bs))"

definition approver_caps :: "WorkflowState \<Rightarrow> string list" where
  "approver_caps s =
     map (\<lambda>t. the (t_requires_capability t)) (filter (\<lambda>t. t_designated_approver t \<and> truthy (t_requires_capability t)) (s_transitions s))"

definition is_approver :: "GuardWorld \<Rightarrow> WorkflowState \<Rightarrow> string \<Rightarrow> bool" where
  "is_approver w s target =
     (case gd_policy w of None \<Rightarrow> False | Some p \<Rightarrow> \<exists>c \<in> set (approver_caps s). same_name target (resolveBodiesWithCapability p c))"

text \<open>\<open>None\<close> when the resolution throws.\<close>

definition guard_bodies :: "GuardWorld \<Rightarrow> WorkflowDef \<Rightarrow> WorkflowInstanceContext option \<Rightarrow> string \<Rightarrow> string list option" where
  "guard_bodies w def context role =
     (case gd_policy w of None \<Rightarrow> None
      | Some p \<Rightarrow> (case resolveBodiesForOwnerRoleInContext p role def context of Inl _ \<Rightarrow> None | Inr bs \<Rightarrow> Some bs))"

text \<open>A transition of the state leads to a live state whose owner role the target fills.\<close>

definition is_next_holder :: "GuardWorld \<Rightarrow> WorkflowDef \<Rightarrow> WorkflowInstanceContext option \<Rightarrow> WorkflowState \<Rightarrow> string \<Rightarrow> bool" where
  "is_next_holder w def context s target =
     (\<exists>t \<in> set (s_transitions s). truthy (t_to t) \<and>
        (case stateNodeById def (t_to t) of
           None \<Rightarrow> False
         | Some d \<Rightarrow> s_kind d \<noteq> Some ''terminal'' \<and> truthy (s_owner_role d) \<and>
             (case guard_bodies w def context (the (s_owner_role d)) of None \<Rightarrow> False | Some bs \<Rightarrow> same_name target bs)))"

definition guarded_state :: "GuardWorld \<Rightarrow> string list \<Rightarrow> (string \<times> WorkflowDef \<times> WorkflowState) option" where
  "guarded_state w labels =
     (if \<not> truthy (getWorkflowId labels) \<or> \<not> truthy (getCurrentState labels None) then None
      else Option.bind (gd_def w (the (getWorkflowId labels))) (\<lambda>def.
           map_option (\<lambda>s. (the (getWorkflowId labels), def, s)) (stateNodeById def (getCurrentState labels None))))"

definition checkRoleGuardEnforced :: "GuardWorld \<Rightarrow> string \<Rightarrow> string list \<Rightarrow> WorkflowInstanceContext option \<Rightarrow> RoleGuardResult" where
  "checkRoleGuardEnforced w target labels context =
     (case guarded_state w labels of
        None \<Rightarrow> not_blocked
      | Some (workflowId, def, s) \<Rightarrow>
          if s_kind s = Some ''terminal'' then not_blocked
          else if is_approver w s target then not_blocked
          else if \<not> truthy (s_owner_role s) then not_blocked
          else
            let role = the (s_owner_role s);
                scope = (if role = ''department-head'' then deriveWorkflowInstanceScope def context else None);
                scopeApplied = (role = ''department-head'' \<and> d_id def \<in> {''dept-engine'', ''task''} \<and> scope \<noteq> None)
            in if describeMissingInstanceScope def \<and> role = ''department-head'' \<and> scope = None then blocked_for ScopeMissing
               else case guard_bodies w def context role of
                 None \<Rightarrow> not_blocked
               | Some [] \<Rightarrow> if scopeApplied then blocked_for ScopeUnresolved else not_blocked
               | Some legal \<Rightarrow>
                   if same_name target legal then not_blocked
                   else if is_next_holder w def context s target then not_blocked
                   else not_blocked\<lparr>rg_blocked := True, rg_reason := Some (WrongRole role (s_id s) legal),
                     rg_correctedTo := (case legal of [b] \<Rightarrow> Some b | _ \<Rightarrow> None), rg_legalBodies := Some legal,
                     rg_ownerRole := Some role, rg_ownerBinding := s_owner_binding s\<rparr>)"

subsection \<open>Blocking a dispatch\<close>

datatype guard_effect =
  BlockingComment guard_reason | DelegateSent DelegateInput | ManualRoutingAlert bool

text \<open>
  What is read on the way: a token, the id of the issue, the seat bound for a role, and the delegate (the
  outer \<open>None\<close> when it cannot be read).
\<close>

record BlockWorld = GuardWorld +
  gb_token :: bool
  gb_internalId :: "string option"
  gb_seats :: seat_store
  gb_delegate :: "string option option"

text \<open>A bound role has one legal seat, the pinned one.\<close>

definition pinned :: "BlockWorld \<Rightarrow> string \<Rightarrow> RoleGuardResult \<Rightarrow> RoleGuardResult" where
  "pinned w internalId r =
     (if rg_ownerBinding r = Some ''bound'' \<and> truthy (rg_ownerRole r)
      then let b = getBinding internalId (the (rg_ownerRole r)) (gb_seats w) in
        if truthy b then r\<lparr>rg_legalBodies := Some [the b], rg_correctedTo := b\<rparr> else r
      else r)"

definition legal_ids :: "(string \<Rightarrow> string option) option \<Rightarrow> RoleGuardResult \<Rightarrow> string list" where
  "legal_ids resolver r = (case resolver of None \<Rightarrow> [] | Some f \<Rightarrow> List.map_filter f (orElse (rg_legalBodies r) []))"

definition correct_delegate ::
  "(string \<Rightarrow> string option) option \<Rightarrow> RoleGuardResult \<Rightarrow> string option \<Rightarrow> guard_effect list" where
  "correct_delegate resolver r current =
     [BlockingComment (the (rg_reason r))] @
     (if truthy (rg_correctedTo r)
      then (let u = Option.bind resolver (\<lambda>f. f (the (rg_correctedTo r)))
            in if truthy u then [DelegateSent (delegate_input u)] else [])
      else (if truthy current then [DelegateSent (delegate_input None)] else []) @ [ManualRoutingAlert (truthy current)])"

definition checkRoleGuardAndBlock ::
  "BlockWorld \<Rightarrow> string \<Rightarrow> string list \<Rightarrow> (string \<Rightarrow> string option) option \<Rightarrow> WorkflowInstanceContext option \<Rightarrow>
   RoleGuardResult \<times> guard_effect list" where
  "checkRoleGuardAndBlock w target labels resolver context =
     (let result = checkRoleGuardEnforced (GuardWorld.truncate w) target labels context in
      if \<not> rg_blocked result \<or> rg_reason result = None then (result, [])
      else if \<not> gb_token w then (result, [])
      else if \<not> truthy (gb_internalId w) then (result, [])
      else let r = pinned w (the (gb_internalId w)) result; kept = r\<lparr>rg_delegatePreserved := True\<rparr> in
        case gb_delegate w of
          None \<Rightarrow> (kept, [])
        | Some current \<Rightarrow>
            if truthy current \<and> (legal_ids resolver r = [] \<or> the current \<in> set (legal_ids resolver r)) then (kept, [])
            else (r, correct_delegate resolver r current))"

subsection \<open>Who is blocked\<close>

text \<open>The agents that may hold a ticket in the state: its approvers, its owners and the next owners.\<close>

definition entitled_holder ::
  "GuardWorld \<Rightarrow> WorkflowDef \<Rightarrow> WorkflowInstanceContext option \<Rightarrow> WorkflowState \<Rightarrow> string list \<Rightarrow> string \<Rightarrow> bool" where
  "entitled_holder w def context s legal target \<longleftrightarrow>
     is_approver w s target \<or> same_name target legal \<or> is_next_holder w def context s target"

lemma not_blocked_fields [simp]: "\<not> rg_blocked not_blocked" "rg_reason not_blocked = None"
  by (simp_all add: not_blocked_def)

lemma blocked_for_fields [simp]: "rg_blocked (blocked_for e)" "rg_reason (blocked_for e) = Some e"
  "rg_legalBodies (blocked_for e) = Some []" "rg_correctedTo (blocked_for e) = None"
  by (simp_all add: blocked_for_def not_blocked_def)

lemma describeMissingInstanceScope_engine:
  "describeMissingInstanceScope def \<longleftrightarrow> d_id def \<in> {''dept-engine'', ''task''}"
  by (simp add: describeMissingInstanceScope_def)


subsection \<open>What a blocked dispatch does to the delegate\<close>

lemma pinned_reason [simp]: "rg_reason (pinned w i r) = rg_reason r" "rg_blocked (pinned w i r) = rg_blocked r"
  by (auto simp: pinned_def Let_def)

lemma correct_delegate_sends:
  assumes "DelegateSent i \<in> set (correct_delegate resolver r current)"
  shows "i = delegate_input None \<and> truthy current \<and> \<not> truthy (rg_correctedTo r) \<or>
    (\<exists>f b u. resolver = Some f \<and> rg_correctedTo r = Some b \<and> f b = Some u \<and> u \<noteq> [] \<and> i = delegate_input (Some u))"
  using assms
  by (auto simp: correct_delegate_def Let_def truthy_def split: if_splits option.splits bind_splits)

lemma correcting_call:
  assumes call: "checkRoleGuardAndBlock w target labels resolver context = (r, es)" and "es \<noteq> []"
  shows "\<exists>current. gb_delegate w = Some current \<and>
    rg_blocked (checkRoleGuardEnforced (GuardWorld.truncate w) target labels context) \<and>
    r = pinned w (the (gb_internalId w)) (checkRoleGuardEnforced (GuardWorld.truncate w) target labels context) \<and>
    es = correct_delegate resolver r current \<and>
    (truthy current \<longrightarrow> legal_ids resolver r \<noteq> [] \<and> the current \<notin> set (legal_ids resolver r))"
proof (cases "gb_delegate w")
  case None
  then show ?thesis
    using assms unfolding checkRoleGuardAndBlock_def Let_def by (simp split: if_split_asm)
next
  case (Some current)
  then show ?thesis
    using assms unfolding checkRoleGuardAndBlock_def Let_def by (intro exI [of _ current]) (auto split: if_split_asm)
qed


subsection \<open>Examples\<close>

definition guarded_def :: WorkflowDef where
  "guarded_def = sample_def
     [sample_state ''merge'' \<lparr>s_owner_role := Some ''merge'',
        s_transitions := [(verb ''sign'' ''done'') \<lparr>t_designated_approver := True, t_requires_capability := Some ''human:escalate''\<rparr>]\<rparr>,
      sample_state ''done'' \<lparr>s_kind := Some ''terminal''\<rparr>]"

definition guard_world :: "string option \<Rightarrow> BlockWorld" where
  "guard_world holder = \<lparr>gd_def = (\<lambda>i. if i = ''task'' then Some guarded_def else None), gd_policy = Some sample_policy,
     gb_token = True, gb_internalId = Some ''i1'', gb_seats = [], gb_delegate = Some holder\<rparr>"

definition sample_linear_id :: "string \<Rightarrow> string option" where
  "sample_linear_id agent = (if agent \<in> {''hanzo'', ''ai''} then Some (''u-'' @ agent) else None)"

definition stray_dispatch :: "string option \<Rightarrow> RoleGuardResult \<times> guard_effect list" where
  "stray_dispatch holder =
     checkRoleGuardAndBlock (guard_world holder) ''igor'' [''wf:task'', ''state:merge''] (Some sample_linear_id) None"

text \<open>
  A designated approver is a legal target, but the set the delegate is compared with holds only the bodies of
  the owner role: when a third agent's dispatch is blocked, a ticket held by its approver is taken away.
\<close>

lemma approver_delegate_is_evicted:
  "is_approver (GuardWorld.truncate (guard_world (Some ''u-ai''))) (hd (d_states guarded_def)) ''ai''"
  "\<not> rg_blocked (checkRoleGuardEnforced (GuardWorld.truncate (guard_world (Some ''u-ai''))) ''ai'' [''wf:task'', ''state:merge''] None)"
  "DelegateSent (delegate_input (sample_linear_id ''hanzo'')) \<in> set (snd (stray_dispatch (sample_linear_id ''ai'')))"
  by code_simp+

lemma owner_delegate_stays: "snd (stray_dispatch (sample_linear_id ''hanzo'')) = []"
  by code_simp


end
