(* ===== verification/PingPong.thy ===== *)
theory PingPong
  imports JsMap JsString CapabilityPolicy DelegateWrite
begin

text \<open>
  \<open>src/delegate-ping-pong-detector.ts\<close>: the chain of delegates a ticket has had within a window, the
  cycles in it, the escalation they lead to and the webhook check that suppresses a dispatch. The answers of the
  service and the two readings of the clock are given; what is sent and recorded is returned.
\<close>

subsection \<open>Configuration\<close>

definition DEFAULT_MAX_BOUNCES :: int where "DEFAULT_MAX_BOUNCES = 3"
definition DEFAULT_WINDOW_MS :: int where "DEFAULT_WINDOW_MS = 30 * 60 * 1000"
definition DEFAULT_EXEMPT_TERMINAL_ROLES :: "string list" where "DEFAULT_EXEMPT_TERMINAL_ROLES = [''deployment'']"

fun split_commas :: "string \<Rightarrow> string list" where
  "split_commas [] = [[]]"
| "split_commas (c # cs) =
     (if c = CHR '','' then [] # split_commas cs
      else (case split_commas cs of [] \<Rightarrow> [[c]] | w # ws \<Rightarrow> (c # w) # ws))"

definition parseExemptRoles :: "string option \<Rightarrow> string list" where
  "parseExemptRoles env =
     (case env of
        None \<Rightarrow> DEFAULT_EXEMPT_TERMINAL_ROLES
      | Some raw \<Rightarrow> let roles = filter (\<lambda>r. r \<noteq> []) (map (\<lambda>r. toLowerCase (trim r)) (split_commas raw))
          in if roles \<noteq> [] then roles else DEFAULT_EXEMPT_TERMINAL_ROLES)"

text \<open>The policy is \<open>None\<close> when it cannot be read.\<close>

definition defaultExemptTerminalTargetResolver :: "CapabilityPolicy option \<Rightarrow> string option \<Rightarrow> string \<Rightarrow> bool" where
  "defaultExemptTerminalTargetResolver policy env agentName =
     (let target = trim (toLowerCase agentName) in
      if target = [] then False
      else case policy of
        None \<Rightarrow> False
      | Some p \<Rightarrow> \<exists>roleId \<in> set (parseExemptRoles env). target \<in> set (resolveAgentIdentifiersForRole p roleId))"

record DelegatePingPongConfig =
  maxBounces :: int
  windowMs :: int

definition env_number :: "string option \<Rightarrow> int \<Rightarrow> int" where
  "env_number env fallback = (case parseInt (orElse env []) of None \<Rightarrow> fallback | Some n \<Rightarrow> if n = 0 then fallback else n)"

definition pingpong_config :: "int option \<Rightarrow> int option \<Rightarrow> string option \<Rightarrow> string option \<Rightarrow> DelegatePingPongConfig" where
  "pingpong_config bounces window env_bounces env_window =
     \<lparr>maxBounces = (case bounces of Some n \<Rightarrow> n | None \<Rightarrow> env_number env_bounces DEFAULT_MAX_BOUNCES),
      windowMs = (case window of Some n \<Rightarrow> n | None \<Rightarrow> env_number env_window DEFAULT_WINDOW_MS)\<rparr>"

text \<open>The keys of \<open>updatedFrom\<close>, when the event has one.\<close>

definition shouldCheckDelegatePingPong :: "string list option \<Rightarrow> bool" where
  "shouldCheckDelegatePingPong updatedFrom =
     (case updatedFrom of
        None \<Rightarrow> False
      | Some ks \<Rightarrow> (''delegateId'' \<in> set ks \<or> ''delegate'' \<in> set ks) \<and> ''stateId'' \<notin> set ks \<and> ''state'' \<notin> set ks)"

subsection \<open>The chains\<close>

record DelegateAssignment =
  da_ticketId :: string
  da_delegateId :: string
  da_agentName :: string
  da_timestampMs :: int

type_synonym chains = "(string, DelegateAssignment list) jsmap"

record CycleDetectionResult =
  cd_cyclingDelegates :: "string list"
  cd_bounceCounts :: "(string, nat) jsmap"
  cd_chain :: "DelegateAssignment list"

definition cd_hasCycle :: "CycleDetectionResult \<Rightarrow> bool" where
  "cd_hasCycle r = (cd_cyclingDelegates r \<noteq> [])"

definition pruneChain :: "DelegatePingPongConfig \<Rightarrow> DelegateAssignment list \<Rightarrow> int \<Rightarrow> DelegateAssignment list" where
  "pruneChain c chain now = filter (\<lambda>a. now - windowMs c \<le> da_timestampMs a) chain"

definition getChain :: "string \<Rightarrow> chains \<Rightarrow> DelegateAssignment list" where
  "getChain ticketId m = (case map_get m ticketId of None \<Rightarrow> [] | Some ch \<Rightarrow> ch)"

definition recordAssignment :: "DelegatePingPongConfig \<Rightarrow> string \<Rightarrow> string \<Rightarrow> string \<Rightarrow> int \<Rightarrow> chains \<Rightarrow> chains" where
  "recordAssignment c ticketId delegateId agentName now m =
     map_set ticketId
       (pruneChain c (getChain ticketId m) now @
        [\<lparr>da_ticketId = ticketId, da_delegateId = delegateId, da_agentName = agentName, da_timestampMs = now\<rparr>]) m"

fun count_bounces :: "string option \<Rightarrow> DelegateAssignment list \<Rightarrow> (string, nat) jsmap \<Rightarrow> (string, nat) jsmap" where
  "count_bounces prev [] counts = counts"
| "count_bounces prev (a # chain) counts =
     (if Some (da_delegateId a) = prev then count_bounces prev chain counts
      else count_bounces (Some (da_delegateId a)) chain
             (map_set (da_delegateId a) (Suc (case map_get counts (da_delegateId a) of None \<Rightarrow> 0 | Some n \<Rightarrow> n)) counts))"

definition detectCycle :: "DelegatePingPongConfig \<Rightarrow> string \<Rightarrow> int \<Rightarrow> chains \<Rightarrow> CycleDetectionResult \<times> chains" where
  "detectCycle c ticketId now m =
     (let chain = pruneChain c (getChain ticketId m) now; counts = count_bounces None chain []
      in (\<lparr>cd_cyclingDelegates = map fst (filter (\<lambda>(d, n). maxBounces c \<le> int n) counts), cd_bounceCounts = counts,
           cd_chain = chain\<rparr>, map_set ticketId chain m))"

definition clear_chain :: "string \<Rightarrow> chains \<Rightarrow> chains" where
  "clear_chain ticketId m = map_delete ticketId m"

definition clear_all_chains :: "chains \<Rightarrow> chains" where
  "clear_all_chains m = []"

subsection \<open>Escalation\<close>

datatype pingpong_effect =
  CycleComment "string list" nat | SeatSteward DelegateInput | ExemptEvent nat | CycleEvent nat bool

record EscalationService =
  es_token :: "string option"
  es_issueId :: "string option"
  es_commentPosted :: bool
  es_stewardId :: "string option"
  es_delegate :: DelegateService
  es_events :: bool

record EscalationResult =
  esc_fired :: bool
  esc_bounceCount :: nat
  esc_cycling :: "string list"

definition fireEscalation :: "EscalationService \<Rightarrow> string list \<Rightarrow> nat \<Rightarrow> EscalationResult \<times> pingpong_effect list" where
  "fireEscalation s cyclingDelegates bounceCount =
     (let answer = (\<lambda>fired. \<lparr>esc_fired = fired, esc_bounceCount = bounceCount, esc_cycling = cyclingDelegates\<rparr>) in
      if \<not> truthy (es_token s) \<or> \<not> truthy (es_issueId s) then (answer False, [])
      else
        (answer (es_commentPosted s \<and> truthy (es_stewardId s) \<and> wd_ok (writeDelegate (es_delegate s) (es_stewardId s))),
         CycleComment cyclingDelegates bounceCount #
         (if truthy (es_stewardId s) then [SeatSteward (delegate_input (es_stewardId s))] else [])))"

record PingPongHandlingResult =
  pp_detection :: CycleDetectionResult
  pp_escalation :: "EscalationResult option"
  pp_suppressDispatch :: bool

definition highest :: "(string, nat) jsmap \<Rightarrow> nat" where
  "highest counts = fold max (map snd counts) 0"

text \<open>
  The exempt-target resolver is given (\<open>None\<close> when it throws). Without an explicit time the chain and the
  cycle check each read the clock.
\<close>

definition checkAndHandle ::
  "DelegatePingPongConfig \<Rightarrow> (string \<Rightarrow> string \<Rightarrow> bool option) \<Rightarrow> EscalationService \<Rightarrow> string \<Rightarrow> string \<Rightarrow> string \<Rightarrow> int \<Rightarrow>
   int \<Rightarrow> chains \<Rightarrow> PingPongHandlingResult \<times> chains \<times> pingpong_effect list" where
  "checkAndHandle c exempt s ticketId delegateId agentName now later m =
     (let (detection, m2) = detectCycle c ticketId later (recordAssignment c ticketId delegateId agentName now m);
          bounceCount = highest (cd_bounceCounts detection) in
      if \<not> cd_hasCycle detection
      then (\<lparr>pp_detection = detection, pp_escalation = None, pp_suppressDispatch = False\<rparr>, m2, [])
      else if exempt agentName delegateId = Some True
      then (\<lparr>pp_detection = detection, pp_escalation = None, pp_suppressDispatch = False\<rparr>, m2,
            if es_events s then [ExemptEvent bounceCount] else [])
      else let (escalation, sent) = fireEscalation s (cd_cyclingDelegates detection) bounceCount
        in (\<lparr>pp_detection = detection, pp_escalation = Some escalation, pp_suppressDispatch = True\<rparr>, m2,
            sent @ (if es_events s then [CycleEvent bounceCount (esc_fired escalation)] else [])))"

subsection \<open>The webhook check\<close>

record DelegateEvent =
  de_type :: string
  de_action :: string
  de_updatedFrom :: "string list option"
  de_delegate :: "(string option \<times> string option) option"
  de_identifier :: "string option"
  de_id :: "string option"

text \<open>Whether the dispatch is suppressed; an event that is not checked leaves the chains alone.\<close>

definition checkDelegatePingPong ::
  "DelegatePingPongConfig \<Rightarrow> (string \<Rightarrow> string \<Rightarrow> bool option) \<Rightarrow> EscalationService \<Rightarrow> (string \<Rightarrow> string option) \<Rightarrow>
   (string \<Rightarrow> string) \<Rightarrow> int \<Rightarrow> int \<Rightarrow> DelegateEvent \<Rightarrow> chains \<Rightarrow> bool \<times> chains \<times> pingpong_effect list" where
  "checkDelegatePingPong c exempt s agentMap openclaw now later e m =
     (let delegateId = Option.bind (de_delegate e) fst;
          ticketId = (case de_identifier e of Some i \<Rightarrow> Some i | None \<Rightarrow> de_id e) in
      if de_type e \<noteq> ''Issue'' \<or> de_action e \<noteq> ''update'' then (False, m, [])
      else if \<not> shouldCheckDelegatePingPong (de_updatedFrom e) then (False, m, [])
      else if \<not> truthy delegateId then (False, m, [])
      else if \<not> truthy ticketId then (False, m, [])
      else
        let mapped = agentMap (the delegateId);
            agentName = (if truthy mapped then openclaw (the mapped)
                         else case Option.bind (de_delegate e) snd of Some n \<Rightarrow> n | None \<Rightarrow> the delegateId);
            (r, m2, out) = checkAndHandle c exempt s (the ticketId) (the delegateId) agentName now later m
        in (pp_suppressDispatch r, m2, out))"

subsection \<open>Counting bounces\<close>

text \<open>The visits of a delegate in a chain: the maximal runs of assignments to it.\<close>

definition visits :: "DelegateAssignment list \<Rightarrow> string \<Rightarrow> nat" where
  "visits chain d = count_list (remdups_adj (map da_delegateId chain)) d"

fun runs_from :: "string option \<Rightarrow> string list \<Rightarrow> string \<Rightarrow> nat" where
  "runs_from prev [] d = 0"
| "runs_from prev (x # xs) d = (if Some x \<noteq> prev \<and> x = d then 1 else 0) + runs_from (Some x) xs d"

lemma runs_from_some: "count_list (remdups_adj (x # xs)) d = (if x = d then 1 else 0) + runs_from (Some x) xs d"
proof (induction xs arbitrary: x)
  case (Cons y ys)
  show ?case using Cons [of y] by (cases "x = d"; cases "y = x"; cases "y = d") simp_all
qed simp

lemma runs_from_none: "runs_from None xs d = count_list (remdups_adj xs) d"
  by (cases xs) (simp_all add: runs_from_some del: remdups_adj.simps(3) count_list.simps)

lemma counted_bounces:
  "map_get (count_bounces prev chain counts) d =
     (let n = runs_from prev (map da_delegateId chain) d
      in if n = 0 then map_get counts d else Some (n + (case map_get counts d of None \<Rightarrow> 0 | Some k \<Rightarrow> k)))"
  by (induction prev chain counts rule: count_bounces.induct) (auto simp: Let_def split: option.splits)

lemma counted_bounces_ok: "map_ok counts \<Longrightarrow> map_ok (count_bounces prev chain counts)"
  by (induction prev chain counts rule: count_bounces.induct) auto

lemma bounce_counts_are_visits:
  "map_get (count_bounces None chain []) d = (if visits chain d = 0 then None else Some (visits chain d))"
  by (simp add: counted_bounces runs_from_none visits_def Let_def)

lemma visits_pos: "0 < visits chain d \<longleftrightarrow> d \<in> da_delegateId ` set chain"
  by (simp add: visits_def count_list_0_iff flip: neq0_conv)

lemma bounce_entries:
  "(d, n) \<in> set (count_bounces None chain []) \<longleftrightarrow> n = visits chain d \<and> d \<in> da_delegateId ` set chain"
proof -
  have "(d, n) \<in> set (count_bounces None chain []) \<longleftrightarrow> map_get (count_bounces None chain []) d = Some n"
    by (simp add: get_mem [OF counted_bounces_ok [OF map_ok_Nil]])
  also have "\<dots> \<longleftrightarrow> n = visits chain d \<and> 0 < visits chain d"
    by (auto simp: bounce_counts_are_visits)
  finally show ?thesis by (simp only: visits_pos)
qed

lemma cycle_found:
  "cd_hasCycle (fst (detectCycle c t now m)) \<longleftrightarrow>
     (\<exists>a \<in> set (pruneChain c (getChain t m) now). maxBounces c \<le> int (visits (pruneChain c (getChain t m) now) (da_delegateId a)))"
proof -
  let ?ch = "pruneChain c (getChain t m) now"
  have "cd_hasCycle (fst (detectCycle c t now m)) \<longleftrightarrow> (\<exists>d n. (d, n) \<in> set (count_bounces None ?ch []) \<and> maxBounces c \<le> int n)"
    by (auto simp: detectCycle_def cd_hasCycle_def Let_def filter_empty_conv)
  then show ?thesis by (auto simp: bounce_entries)
qed

text \<open>Two visits of a delegate are separated by an assignment to another.\<close>

lemma visits_separated: "2 * count_list (remdups_adj xs) d \<le> length xs + 1"
proof (induction xs rule: induct_list012)
  case (3 x y zs)
  show ?case
  proof (cases "x = y")
    case True
    then show ?thesis using 3(2) by simp
  next
    case False
    have "count_list (remdups_adj (y # zs)) d \<le> count_list (remdups_adj zs) d + (if y = d then 1 else 0)"
      by (cases zs) (auto)
    then show ?thesis using False 3 by (cases "x = d") auto
  qed
qed auto

subsection \<open>The detector against the history of a ticket\<close>

definition handle ::
  "DelegatePingPongConfig \<Rightarrow> (string \<Rightarrow> string \<Rightarrow> bool option) \<Rightarrow> EscalationService \<Rightarrow> DelegateAssignment \<Rightarrow> chains \<Rightarrow>
   PingPongHandlingResult \<times> chains \<times> pingpong_effect list" where
  "handle c exempt s a m =
     checkAndHandle c exempt s (da_ticketId a) (da_delegateId a) (da_agentName a) (da_timestampMs a) (da_timestampMs a) m"

definition handle_all ::
  "DelegatePingPongConfig \<Rightarrow> (string \<Rightarrow> string \<Rightarrow> bool option) \<Rightarrow> EscalationService \<Rightarrow> DelegateAssignment list \<Rightarrow> chains" where
  "handle_all c exempt s h = fold (\<lambda>a m. fst (snd (handle c exempt s a m))) h []"

text \<open>The assignments of a ticket that are no older than the window, out of everything that was handled.\<close>

definition window :: "DelegatePingPongConfig \<Rightarrow> DelegateAssignment list \<Rightarrow> string \<Rightarrow> int \<Rightarrow> DelegateAssignment list" where
  "window c h ticketId now = filter (\<lambda>a. da_ticketId a = ticketId \<and> now - windowMs c \<le> da_timestampMs a) h"

lemma chain_set [simp]: "getChain t (map_set u ch m) = (if t = u then ch else getChain t m)"
  by (simp add: getChain_def)

lemma prune_append [simp]: "pruneChain c (xs @ ys) now = pruneChain c xs now @ pruneChain c ys now"
  by (simp add: pruneChain_def)

lemma prune_prune: "now \<le> later \<Longrightarrow> pruneChain c (pruneChain c ch now) later = pruneChain c ch later"
  by (auto simp: pruneChain_def intro: filter_cong)

lemma assignment_eta [simp]:
  "\<lparr>da_ticketId = da_ticketId a, da_delegateId = da_delegateId a, da_agentName = da_agentName a,
    da_timestampMs = da_timestampMs a\<rparr> = a"
  by simp

lemma handled_chains:
  "fst (snd (handle c exempt s a m)) =
     map_set (da_ticketId a) (pruneChain c (pruneChain c (getChain (da_ticketId a) m) (da_timestampMs a) @ [a]) (da_timestampMs a))
       (recordAssignment c (da_ticketId a) (da_delegateId a) (da_agentName a) (da_timestampMs a) m)"
proof -
  have "fst (snd (checkAndHandle c exempt s t d n now later m)) =
      snd (detectCycle c t later (recordAssignment c t d n now m))" for t d n now later
    by (simp add: checkAndHandle_def Let_def case_prod_beta)
  then show ?thesis by (simp add: handle_def detectCycle_def Let_def recordAssignment_def del: prune_append)
qed

lemma chain_of_history:
  assumes "sorted (map da_timestampMs h)" "\<forall>a \<in> set h. da_timestampMs a \<le> now"
  shows "pruneChain c (getChain t (handle_all c exempt s h)) now = window c h t now"
  using assms
proof (induction h arbitrary: now rule: rev_induct)
  case Nil
  then show ?case by (simp add: handle_all_def getChain_def pruneChain_def window_def)
next
  case (snoc a h)
  let ?m = "handle_all c exempt s h"
  have IH: "pruneChain c (getChain t ?m) k = window c h t k" if "da_timestampMs a \<le> k" for k
    using snoc.prems that by (intro snoc.IH) (auto simp: sorted_append)
  have step: "handle_all c exempt s (h @ [a]) = fst (snd (handle c exempt s a ?m))" by (simp add: handle_all_def)
  have le: "da_timestampMs a \<le> now" using snoc.prems(2) by simp
  show ?case
  proof (cases "t = da_ticketId a")
    case True
    then have "pruneChain c (getChain t (handle_all c exempt s (h @ [a]))) now = pruneChain c (getChain t ?m) now @ pruneChain c [a] now"
      unfolding step handled_chains using le by (simp add: prune_prune)
    then show ?thesis using IH [OF le] True by (simp add: window_def pruneChain_def)
  next
    case False
    then show ?thesis
      unfolding step handled_chains using IH [OF le] by (simp add: window_def recordAssignment_def)
  qed
qed

lemma suppressed_when:
  "pp_suppressDispatch (fst (handle c exempt s a m)) \<longleftrightarrow>
     exempt (da_agentName a) (da_delegateId a) \<noteq> Some True \<and>
     cd_hasCycle (fst (detectCycle c (da_ticketId a) (da_timestampMs a)
       (recordAssignment c (da_ticketId a) (da_delegateId a) (da_agentName a) (da_timestampMs a) m)))"
  by (auto simp: handle_def checkAndHandle_def Let_def split: prod.splits)

lemma detected_chain:
  "pruneChain c (getChain (da_ticketId a)
     (recordAssignment c (da_ticketId a) (da_delegateId a) (da_agentName a) (da_timestampMs a) m)) (da_timestampMs a) =
   pruneChain c (getChain (da_ticketId a) m) (da_timestampMs a) @ pruneChain c [a] (da_timestampMs a)"
  by (simp add: recordAssignment_def prune_prune)

text \<open>
  C23: Whatever was handled before, a dispatch is suppressed exactly when its agent is not exempt and, among the
  assignments of the ticket within the window, some delegate was given the ticket at least the configured
  number of times without counting repetitions; then at least twice that number less one assignments were
  made, so a delegate that is merely assigned again never leads to a suppression.
\<close>

theorem dispatch_is_suppressed_for_a_cycle:
  assumes "sorted (map da_timestampMs (h @ [a]))"
  shows "(pp_suppressDispatch (fst (handle c exempt s a (handle_all c exempt s h))) \<longleftrightarrow>
      exempt (da_agentName a) (da_delegateId a) \<noteq> Some True \<and>
      (\<exists>b \<in> set (window c (h @ [a]) (da_ticketId a) (da_timestampMs a)).
         maxBounces c \<le> int (visits (window c (h @ [a]) (da_ticketId a) (da_timestampMs a)) (da_delegateId b)))) \<and>
    (pp_suppressDispatch (fst (handle c exempt s a (handle_all c exempt s h))) \<longrightarrow>
      2 * maxBounces c \<le> int (length (window c (h @ [a]) (da_ticketId a) (da_timestampMs a))) + 1)"
proof -
  let ?w = "window c (h @ [a]) (da_ticketId a) (da_timestampMs a)"
  have "pruneChain c (getChain (da_ticketId a) (handle_all c exempt s h)) (da_timestampMs a) =
      window c h (da_ticketId a) (da_timestampMs a)"
    using assms by (intro chain_of_history) (auto simp: sorted_append)
  then have w: "pruneChain c (getChain (da_ticketId a)
     (recordAssignment c (da_ticketId a) (da_delegateId a) (da_agentName a) (da_timestampMs a) (handle_all c exempt s h)))
     (da_timestampMs a) = ?w"
    unfolding detected_chain by (simp add: window_def pruneChain_def)
  have s: "2 * int (visits ?w d) \<le> int (length ?w) + 1" for d
    using visits_separated [of "map da_delegateId ?w" d] by (simp add: visits_def)
  then have "2 * maxBounces c \<le> int (length ?w) + 1" if "maxBounces c \<le> int (visits ?w d)" for d
    using that s [of d] by linarith
  then show ?thesis
    unfolding suppressed_when cycle_found w by blast
qed

lemma visits_mono: "visits ch d \<le> visits (ch @ ch') d"
proof -
  have "runs_from prev xs d \<le> runs_from prev (xs @ ys) d" for prev xs ys
    by (induction xs arbitrary: prev) auto
  then show ?thesis by (simp add: visits_def flip: runs_from_none)
qed

text \<open>
  The chain is not cleared by the escalation, so the delegate change the escalation itself makes is suppressed
  as well: the event that should wake the steward is dropped, and the ticket is escalated again.
\<close>

lemma steward_wake_is_suppressed:
  assumes "pp_suppressDispatch (fst (handle c exempt s a m))" "0 \<le> windowMs c"
    and b: "da_ticketId b = da_ticketId a" "da_timestampMs b = da_timestampMs a"
      "exempt (da_agentName b) (da_delegateId b) \<noteq> Some True"
  shows "pp_suppressDispatch (fst (handle c exempt s b (fst (snd (handle c exempt s a m)))))"
proof -
  let ?ch = "pruneChain c (getChain (da_ticketId a) m) (da_timestampMs a) @ pruneChain c [a] (da_timestampMs a)"
  have "\<exists>x \<in> set ?ch. maxBounces c \<le> int (visits ?ch (da_delegateId x))"
    using assms(1) unfolding suppressed_when cycle_found detected_chain by blast
  then obtain x where x: "x \<in> set ?ch" "maxBounces c \<le> int (visits ?ch (da_delegateId x))" by blast
  have "pruneChain c (getChain (da_ticketId b) (fst (snd (handle c exempt s a m)))) (da_timestampMs b) = ?ch"
    using b by (simp add: handled_chains prune_prune)
  then have "cd_hasCycle (fst (detectCycle c (da_ticketId b) (da_timestampMs b)
      (recordAssignment c (da_ticketId b) (da_delegateId b) (da_agentName b) (da_timestampMs b) (fst (snd (handle c exempt s a m))))))"
    unfolding cycle_found detected_chain using x visits_mono [of ?ch "da_delegateId x"]
    by (intro bexI [of _ x]) (auto intro: order_trans)
  then show ?thesis by (simp add: suppressed_when b(3))
qed

subsection \<open>Examples\<close>

definition sample_assignment :: "string \<Rightarrow> int \<Rightarrow> DelegateAssignment" where
  "sample_assignment agent ms =
     \<lparr>da_ticketId = ''AI-1'', da_delegateId = ''u-'' @ agent, da_agentName = agent, da_timestampMs = ms\<rparr>"

definition pingpong_sample :: DelegatePingPongConfig where
  "pingpong_sample = pingpong_config None None None None"

definition sample_service :: EscalationService where
  "sample_service = \<lparr>es_token = Some ''t'', es_issueId = Some ''i1'', es_commentPosted = True, es_stewardId = Some ''u-ai'',
     es_delegate = \<lparr>ds_mutation = MutationDone, ds_read = ReadDelegate (Some ''u-ai'')\<rparr>, es_events = True\<rparr>"

definition sample_history :: "DelegateAssignment list" where
  "sample_history = [sample_assignment ''hanzo'' 0, sample_assignment ''ai'' 10, sample_assignment ''hanzo'' 20, sample_assignment ''ai'' 30]"

definition sample_exempt :: "string \<Rightarrow> string \<Rightarrow> bool option" where
  "sample_exempt agent delegateId = Some (agent = ''igor'')"

theorem dispatch_is_suppressed_for_a_cycle_witness:
  "pp_suppressDispatch (fst (handle pingpong_sample sample_exempt sample_service (sample_assignment ''hanzo'' 40)
     (handle_all pingpong_sample sample_exempt sample_service sample_history)))"
proof -
  let ?a = "sample_assignment ''hanzo'' 40"
  let ?w = "window pingpong_sample (sample_history @ [?a]) (da_ticketId ?a) (da_timestampMs ?a)"
  have "sorted (map da_timestampMs (sample_history @ [?a]))" by code_simp
  note spec = dispatch_is_suppressed_for_a_cycle [OF this, of pingpong_sample sample_exempt sample_service]
  have "sample_exempt (da_agentName ?a) (da_delegateId ?a) \<noteq> Some True" by code_simp
  moreover have "\<exists>b \<in> set ?w. maxBounces pingpong_sample \<le> int (visits ?w (da_delegateId b))" by code_simp
  ultimately show ?thesis using spec by blast
qed

lemma exempt_target_passes:
  "exempt (da_agentName a) (da_delegateId a) = Some True \<Longrightarrow> \<not> pp_suppressDispatch (fst (handle c exempt s a m))"
  by (simp add: suppressed_when)

lemma other_tickets_keep_their_chain:
  "t \<noteq> da_ticketId a \<Longrightarrow> getChain t (fst (snd (handle c exempt s a m))) = getChain t m"
  by (simp add: handled_chains recordAssignment_def)

end
