(* ===== verification/CreateDedup.thy ===== *)
theory CreateDedup
  imports JsRegex SessionKey Yaml
begin

text \<open>
  \<open>src/issue-create-dedup.ts\<close> and its use at the end of the proxy handler of \<open>src/proxy.ts\<close>: an
  identical issue creation within the window is answered with the first one's response. SHA-256 and
  \<open>JSON.parse\<close> are parameters. A promise is an entry of the store with the value it was resolved to; the
  handler is cut at its awaits, so that several requests interleave.
\<close>

subsection \<open>What is an issue creation\<close>

definition CREATE_DEDUP_TTL_MS :: int where "CREATE_DEDUP_TTL_MS = 60000"

definition dedup_ttl :: "string option \<Rightarrow> int" where
  "dedup_ttl env =
     (case env of None \<Rightarrow> CREATE_DEDUP_TTL_MS
      | Some raw \<Rightarrow> (case parseInt raw of Some n \<Rightarrow> if 0 \<le> n then n else CREATE_DEDUP_TTL_MS | None \<Rightarrow> CREATE_DEDUP_TTL_MS))"

record IssueCreateInput =
  ci_teamId :: "string option"
  ci_title :: "string option"
  ci_description :: "string option"

definition text_field :: "string \<Rightarrow> yaml \<Rightarrow> string option" where
  "text_field k v = (case yaml_get k v of Str s \<Rightarrow> Some s | _ \<Rightarrow> None)"

definition mutation_rx :: rx where
  "mutation_rx = cat [WordBoundary, Lit ''mutation'', WordBoundary]"

definition issueCreate_rx :: rx where
  "issueCreate_rx = cat [WordBoundary, Lit ''issueCreate'', Star (Cls is_space), Lit ''('']"

definition extractIssueCreateInput :: "yaml \<Rightarrow> IssueCreateInput option" where
  "extractIssueCreateInput body =
     (case yaml_get ''query'' body of
        Str query \<Rightarrow>
          (let input = yaml_get ''input'' (yaml_get ''variables'' body) in
           if \<not> occurs_in mutation_rx query then None
           else if \<not> occurs_in issueCreate_rx query then None
           else if \<not> is_object input then None
           else Some \<lparr>ci_teamId = text_field ''teamId'' input, ci_title = text_field ''title'' input,
             ci_description = text_field ''description'' input\<rparr>)
      | _ \<Rightarrow> None)"

subsection \<open>The fingerprint\<close>

definition part :: "string \<Rightarrow> string" where
  "part p = dec_text (length p) @ CHR '':'' # p"

definition canonical :: "string \<Rightarrow> IssueCreateInput \<Rightarrow> string" where
  "canonical agentId input =
     part agentId @ CHR ''|'' # part (orElse (ci_teamId input) []) @ CHR ''|'' # part (orElse (ci_title input) []) @
     CHR ''|'' # part (orElse (ci_description input) [])"

definition fingerprintIssueCreate :: "(string \<Rightarrow> string) \<Rightarrow> string \<Rightarrow> IssueCreateInput \<Rightarrow> string" where
  "fingerprintIssueCreate sha256 agentId input = sha256 (canonical agentId input)"

text \<open>\<open>None\<close>: the response is not JSON.\<close>

definition isSuccessfulIssueCreate :: "yaml option \<Rightarrow> bool" where
  "isSuccessfulIssueCreate parsed =
     (case parsed of None \<Rightarrow> False
      | Some p \<Rightarrow>
          if (case yaml_get ''errors'' p of Seq es \<Rightarrow> es \<noteq> [] | _ \<Rightarrow> False) then False
          else let created = yaml_get ''issueCreate'' (yaml_get ''data'' p)
            in yaml_get ''success'' created = YBool True \<and>
               yaml_get ''issue'' created \<notin> {Undefined, Null, YBool False, YNum 0, YNaN, Str []})"

subsection \<open>The store\<close>

text \<open>
  An entry with the promise made for it: whether \<open>pending\<close> is set, whether \<open>settleCreate\<close> or
  \<open>abandon\<close> was called, and what the promise was resolved to.
\<close>

record Entry =
  en_hash :: string
  en_expiresAt :: int
  en_responseText :: "string option"
  en_pending :: bool
  en_result :: "string option option"

record dedup =
  dc_heap :: "Entry list"
  dc_entries :: "(string, nat) jsmap"

datatype claim = Replay string | Await nat | Forward nat

definition evictExpired :: "int \<Rightarrow> dedup \<Rightarrow> dedup" where
  "evictExpired now d =
     d\<lparr>dc_entries := filter (\<lambda>(h, i). en_pending (dc_heap d ! i) \<or> now < en_expiresAt (dc_heap d ! i)) (dc_entries d)\<rparr>"

definition new_entry :: "int \<Rightarrow> int \<Rightarrow> string \<Rightarrow> dedup \<Rightarrow> claim \<times> dedup" where
  "new_entry ttl now hash d =
     (Forward (length (dc_heap d)),
      \<lparr>dc_heap = dc_heap d @ [\<lparr>en_hash = hash, en_expiresAt = now + ttl, en_responseText = None, en_pending = True, en_result = None\<rparr>],
       dc_entries = map_set hash (length (dc_heap d)) (dc_entries d)\<rparr>)"

definition claim_create :: "int \<Rightarrow> int \<Rightarrow> int \<Rightarrow> string \<Rightarrow> dedup \<Rightarrow> claim \<times> dedup" where
  "claim_create ttl now later hash d0 =
     (let d = evictExpired now d0 in
      case map_get (dc_entries d) hash of
        None \<Rightarrow> new_entry ttl later hash d
      | Some i \<Rightarrow>
          (case en_responseText (dc_heap d ! i) of
             Some t \<Rightarrow> (Replay t, d)
           | None \<Rightarrow> if en_pending (dc_heap d ! i) then (Await i, d) else new_entry ttl later hash d))"

definition settleCreate :: "int \<Rightarrow> int \<Rightarrow> nat \<Rightarrow> string \<Rightarrow> dedup \<Rightarrow> dedup" where
  "settleCreate ttl now i text d =
     (let e = dc_heap d ! i in
      if en_result e \<noteq> None then d
      else d\<lparr>dc_heap := (dc_heap d)[i := e\<lparr>en_responseText := Some text, en_expiresAt := now + ttl, en_pending := False,
        en_result := Some (Some text)\<rparr>]\<rparr>)"

definition abandon :: "nat \<Rightarrow> dedup \<Rightarrow> dedup" where
  "abandon i d =
     (let e = dc_heap d ! i in
      if en_result e \<noteq> None then d
      else \<lparr>dc_heap = (dc_heap d)[i := e\<lparr>en_result := Some None\<rparr>], dc_entries = map_delete (en_hash e) (dc_entries d)\<rparr>)"

subsection \<open>The handler\<close>

text \<open>
  Where a request stands: waiting for the promise of a claim, sending the mutation (with the claim it holds, if
  any), answered with an earlier response, or finished.
\<close>

datatype create_phase = Waiting nat | Sending "nat option" | Replayed string | Finished

definition begin_create :: "int \<Rightarrow> int \<Rightarrow> int \<Rightarrow> string \<Rightarrow> dedup \<Rightarrow> create_phase \<times> dedup" where
  "begin_create ttl now later hash d =
     (case claim_create ttl now later hash d of
        (Replay t, d') \<Rightarrow> (Replayed t, d')
      | (Await i, d') \<Rightarrow> (Waiting i, d')
      | (Forward i, d') \<Rightarrow> (Sending (Some i), d'))"

text \<open>After the wait: a failed creation is claimed again, and an \<open>await\<close> answer falls through.\<close>

definition resume_create :: "int \<Rightarrow> int \<Rightarrow> int \<Rightarrow> string \<Rightarrow> nat \<Rightarrow> dedup \<Rightarrow> (create_phase \<times> dedup) option" where
  "resume_create ttl now later hash i d =
     (case en_result (dc_heap d ! i) of
        None \<Rightarrow> None
      | Some (Some t) \<Rightarrow> Some (Replayed t, d)
      | Some None \<Rightarrow>
          Some (case claim_create ttl now later hash d of
             (Replay t, d') \<Rightarrow> (Replayed t, d')
           | (Await j, d') \<Rightarrow> (Sending None, d')
           | (Forward j, d') \<Rightarrow> (Sending (Some j), d')))"

text \<open>\<open>Aborted\<close>: resolving the identifiers or reading the body threw, which the handler does not catch.\<close>

datatype upstream = Unreachable | BadStatus nat | Body string | Aborted

definition finish_create :: "int \<Rightarrow> int \<Rightarrow> (string \<Rightarrow> yaml option) \<Rightarrow> upstream \<Rightarrow> nat option \<Rightarrow> dedup \<Rightarrow> dedup" where
  "finish_create ttl now parse up held d =
     (case held of None \<Rightarrow> d
      | Some i \<Rightarrow>
          (case up of
             Unreachable \<Rightarrow> abandon i d
           | BadStatus n \<Rightarrow> abandon i d
           | Body t \<Rightarrow> if isSuccessfulIssueCreate (parse t) then settleCreate ttl now i t d else abandon i d
           | Aborted \<Rightarrow> d))"

subsection \<open>The fingerprint tells creations apart\<close>

lemma part_prefix: "takeWhile is_digit (part p @ x) = dec_text (length p)"
  using dec_text_digits [of "length p"] by (simp add: part_def takeWhile_append is_digit_def list_all_iff)

lemma part_inj: "part p @ x = part q @ y \<longleftrightarrow> p = q \<and> x = y"
proof
  assume e: "part p @ x = part q @ y"
  then have "dec_text (length p) = dec_text (length q)" by (metis part_prefix)
  then have "length p = length q" by (metis dec_text_inverse)
  then show "p = q \<and> x = y" using e by (simp add: part_def)
qed auto

text \<open>
  The fingerprint tells creations apart as far as SHA-256 does: two requests hash the same text only when the
  agent, the team, the title and the description are the same (an absent field counting as the empty one), and
  requests that agree on them always have the same fingerprint.
\<close>

theorem fingerprints_tell_creations_apart:
  "(canonical a x = canonical b y \<longleftrightarrow>
     a = b \<and> orElse (ci_teamId x) [] = orElse (ci_teamId y) [] \<and> orElse (ci_title x) [] = orElse (ci_title y) [] \<and>
     orElse (ci_description x) [] = orElse (ci_description y) []) \<and>
   (canonical a x = canonical b y \<longrightarrow> fingerprintIssueCreate sha256 a x = fingerprintIssueCreate sha256 b y)"
proof -
  have "part p = part q \<longleftrightarrow> p = q" for p q using part_inj [of p "[]" q "[]"] by simp
  then show ?thesis by (auto simp: canonical_def part_inj fingerprintIssueCreate_def)
qed

theorem fingerprints_tell_creations_apart_witness:
  "fingerprintIssueCreate rev ''ai'' \<lparr>ci_teamId = Some ''t'', ci_title = None, ci_description = None\<rparr> =
   fingerprintIssueCreate rev ''ai'' \<lparr>ci_teamId = Some ''t'', ci_title = Some [], ci_description = None\<rparr>"
proof -
  have "canonical ''ai'' \<lparr>ci_teamId = Some ''t'', ci_title = None, ci_description = None\<rparr> =
      canonical ''ai'' \<lparr>ci_teamId = Some ''t'', ci_title = Some [], ci_description = None\<rparr>" by code_simp
  then show ?thesis by (rule fingerprints_tell_creations_apart [THEN conjunct2, rule_format])
qed

subsection \<open>Interleaved requests\<close>

datatype create_log = Sent string | Created string string int | Failed string

record create_world =
  cw_dedup :: dedup
  cw_reqs :: "(string \<times> create_phase) list"
  cw_log :: "create_log list"
  cw_now :: int

text \<open>A request arrives with its fingerprint, resumes when its promise is resolved, or has its answer.\<close>

datatype create_event = Arrive string | Resume nat | Answer nat upstream

definition empty_world :: create_world where
  "empty_world = \<lparr>cw_dedup = \<lparr>dc_heap = [], dc_entries = []\<rparr>, cw_reqs = [], cw_log = [], cw_now = 0\<rparr>"

definition sent_by :: "string \<Rightarrow> create_phase \<Rightarrow> create_log list" where
  "sent_by hash p = (case p of Sending _ \<Rightarrow> [Sent hash] | _ \<Rightarrow> [])"

definition outcome_log :: "(string \<Rightarrow> yaml option) \<Rightarrow> int \<Rightarrow> string \<Rightarrow> upstream \<Rightarrow> create_log list" where
  "outcome_log parse now hash up =
     (case up of Body t \<Rightarrow> if isSuccessfulIssueCreate (parse t) then [Created hash t now] else [Failed hash]
      | Aborted \<Rightarrow> [] | _ \<Rightarrow> [Failed hash])"

definition create_step ::
  "int \<Rightarrow> (string \<Rightarrow> yaml option) \<Rightarrow> int \<Rightarrow> int \<Rightarrow> create_event \<Rightarrow> create_world \<Rightarrow> create_world option" where
  "create_step ttl parse now later ev w =
     (case ev of
        Arrive hash \<Rightarrow>
          (let (p, d) = begin_create ttl now later hash (cw_dedup w)
           in Some \<lparr>cw_dedup = d, cw_reqs = cw_reqs w @ [(hash, p)], cw_log = cw_log w @ sent_by hash p, cw_now = later\<rparr>)
      | Resume r \<Rightarrow>
          if length (cw_reqs w) \<le> r then None
          else (case cw_reqs w ! r of
             (hash, Waiting i) \<Rightarrow>
               map_option (\<lambda>(p, d). \<lparr>cw_dedup = d, cw_reqs = (cw_reqs w)[r := (hash, p)], cw_log = cw_log w @ sent_by hash p,
                 cw_now = later\<rparr>) (resume_create ttl now later hash i (cw_dedup w))
           | _ \<Rightarrow> None)
      | Answer r up \<Rightarrow>
          if length (cw_reqs w) \<le> r then None
          else (case cw_reqs w ! r of
             (hash, Sending held) \<Rightarrow>
               Some \<lparr>cw_dedup = finish_create ttl now parse up held (cw_dedup w), cw_reqs = (cw_reqs w)[r := (hash, Finished)],
                 cw_log = cw_log w @ outcome_log parse now hash up, cw_now = later\<rparr>
           | _ \<Rightarrow> None))"

inductive creates :: "int \<Rightarrow> (string \<Rightarrow> yaml option) \<Rightarrow> create_world \<Rightarrow> bool" for ttl parse where
  creates_empty: "creates ttl parse empty_world"
| creates_step: "creates ttl parse w \<Longrightarrow> cw_now w \<le> now \<Longrightarrow> now \<le> later \<Longrightarrow> create_step ttl parse now later ev w = Some w' \<Longrightarrow>
    creates ttl parse w'"

subsection \<open>The invariant of the store\<close>

definition create_entry_ok :: "Entry \<Rightarrow> bool" where
  "create_entry_ok e \<longleftrightarrow>
     en_pending e \<and> en_responseText e = None \<and> (en_result e = None \<or> en_result e = Some None) \<or>
     (\<exists>t. \<not> en_pending e \<and> en_responseText e = Some t \<and> en_result e = Some (Some t))"

definition dedup_inv :: "dedup \<Rightarrow> bool" where
  "dedup_inv d \<longleftrightarrow> map_ok (dc_entries d) \<and> (\<forall>e \<in> set (dc_heap d). create_entry_ok e) \<and>
     (\<forall>h i. map_get (dc_entries d) h = Some i \<longrightarrow>
        i < length (dc_heap d) \<and> en_hash (dc_heap d ! i) = h \<and> en_result (dc_heap d ! i) \<noteq> Some None) \<and>
     (\<forall>i < length (dc_heap d). en_result (dc_heap d ! i) = None \<longrightarrow>
        map_get (dc_entries d) (en_hash (dc_heap d ! i)) = Some i)"

lemma dedup_invD:
  assumes "dedup_inv d"
  shows "map_ok (dc_entries d)" "i < length (dc_heap d) \<Longrightarrow> create_entry_ok (dc_heap d ! i)"
    "map_get (dc_entries d) h = Some i \<Longrightarrow>
       i < length (dc_heap d) \<and> en_hash (dc_heap d ! i) = h \<and> en_result (dc_heap d ! i) \<noteq> Some None"
    "i < length (dc_heap d) \<Longrightarrow> en_result (dc_heap d ! i) = None \<Longrightarrow>
       map_get (dc_entries d) (en_hash (dc_heap d ! i)) = Some i"
  using assms by (auto simp: dedup_inv_def)

lemma dedup_invI:
  assumes "map_ok (dc_entries d)" "\<And>i. i < length (dc_heap d) \<Longrightarrow> create_entry_ok (dc_heap d ! i)"
    "\<And>h i. map_get (dc_entries d) h = Some i \<Longrightarrow>
       i < length (dc_heap d) \<and> en_hash (dc_heap d ! i) = h \<and> en_result (dc_heap d ! i) \<noteq> Some None"
    "\<And>i. i < length (dc_heap d) \<Longrightarrow> en_result (dc_heap d ! i) = None \<Longrightarrow>
       map_get (dc_entries d) (en_hash (dc_heap d ! i)) = Some i"
  shows "dedup_inv d"
  using assms by (simp add: dedup_inv_def all_set_conv_all_nth)

lemma get_filter:
  "map_ok m \<Longrightarrow> map_get (filter P m) h = (case map_get m h of None \<Rightarrow> None | Some i \<Rightarrow> if P (h, i) then Some i else None)"
  by (induction m) (auto simp: map_get_def map_ok_def map_of_eq_None_iff image_iff split: option.splits)

lemma map_ok_filter: "map_ok m \<Longrightarrow> map_ok (filter P m)"
  by (auto simp: map_ok_def distinct_map_filter)

lemma evict_heap [simp]: "dc_heap (evictExpired now d) = dc_heap d"
  by (simp add: evictExpired_def)

lemma evict_get:
  "dedup_inv d \<Longrightarrow> map_get (dc_entries (evictExpired now d)) h =
     (case map_get (dc_entries d) h of None \<Rightarrow> None
      | Some i \<Rightarrow> if en_pending (dc_heap d ! i) \<or> now < en_expiresAt (dc_heap d ! i) then Some i else None)"
  by (simp add: evictExpired_def get_filter dedup_invD(1) split: option.split)

lemma evict_inv: "dedup_inv d \<Longrightarrow> dedup_inv (evictExpired now d)"
  unfolding dedup_inv_def [of "evictExpired now d"]
proof (intro conjI allI impI)
  assume inv: "dedup_inv d"
  show "map_ok (dc_entries (evictExpired now d))"
    using dedup_invD(1) [OF inv] by (simp add: evictExpired_def map_ok_filter)
  show "\<forall>e \<in> set (dc_heap (evictExpired now d)). create_entry_ok e" using inv by (simp add: dedup_inv_def)
  fix i
  show "map_get (dc_entries (evictExpired now d)) (en_hash (dc_heap (evictExpired now d) ! i)) = Some i"
    if "i < length (dc_heap (evictExpired now d))" "en_result (dc_heap (evictExpired now d) ! i) = None"
    using that dedup_invD(2,4) [OF inv, of i] by (auto simp: evict_get [OF inv] create_entry_ok_def)
next
  fix h i
  assume inv: "dedup_inv d" and get: "map_get (dc_entries (evictExpired now d)) h = Some i"
  then have "map_get (dc_entries d) h = Some i" by (auto simp: evict_get split: option.splits if_splits)
  from dedup_invD(3) [OF inv this]
  show "i < length (dc_heap (evictExpired now d))" "en_hash (dc_heap (evictExpired now d) ! i) = h"
    "en_result (dc_heap (evictExpired now d) ! i) \<noteq> Some None" by auto
qed

lemma new_entry_inv:
  assumes "dedup_inv d" "map_get (dc_entries d) h = None"
  shows "dedup_inv (snd (new_entry ttl now h d))"
proof -
  note i = dedup_invD [OF assms(1)]
  let ?d = "snd (new_entry ttl now h d)"
  have heap: "dc_heap ?d ! j = dc_heap d ! j" if "j < length (dc_heap d)" for j
    using that by (simp add: new_entry_def nth_append)
  have new: "length (dc_heap ?d) = Suc (length (dc_heap d))" "en_hash (dc_heap ?d ! length (dc_heap d)) = h"
    "en_result (dc_heap ?d ! length (dc_heap d)) = None" "create_entry_ok (dc_heap ?d ! length (dc_heap d))"
    by (simp_all add: new_entry_def create_entry_ok_def)
  have get: "map_get (dc_entries ?d) k = (if k = h then Some (length (dc_heap d)) else map_get (dc_entries d) k)" for k
    by (simp add: new_entry_def)
  show ?thesis
  proof (rule dedup_invI)
    show "map_ok (dc_entries ?d)" using i(1) by (simp add: new_entry_def)
    fix j assume "j < length (dc_heap ?d)"
    then have j: "j < length (dc_heap d) \<or> j = length (dc_heap d)" using new(1) by auto
    then show "create_entry_ok (dc_heap ?d ! j)" using heap [of j] i(2) [of j] new(4) by auto
    assume r: "en_result (dc_heap ?d ! j) = None"
    from j show "map_get (dc_entries ?d) (en_hash (dc_heap ?d ! j)) = Some j"
    proof
      assume l: "j < length (dc_heap d)"
      then have "map_get (dc_entries d) (en_hash (dc_heap d ! j)) = Some j" using i(4) r heap by simp
      then show ?thesis using assms(2) l heap by (auto simp: get)
    qed (simp add: new get)
  next
    fix k j assume "map_get (dc_entries ?d) k = Some j"
    then show "j < length (dc_heap ?d) \<and> en_hash (dc_heap ?d ! j) = k \<and> en_result (dc_heap ?d ! j) \<noteq> Some None"
      using i(3) [of k j] heap [of j] new by (auto simp: get split: if_splits)
  qed
qed

text \<open>What a claim finds: a settled entry, a pending one, or none, and then it adds one.\<close>

lemma claim_cases:
  assumes inv: "dedup_inv d" and call: "claim_create ttl now later h d = (c, d')"
  shows "dedup_inv d'"
    "(\<exists>i t. c = Replay t \<and> d' = evictExpired now d \<and> map_get (dc_entries d') h = Some i \<and>
        en_responseText (dc_heap d ! i) = Some t) \<or>
     (\<exists>i. c = Await i \<and> d' = evictExpired now d \<and> map_get (dc_entries d') h = Some i \<and>
        en_result (dc_heap d ! i) = None) \<or>
     (c = Forward (length (dc_heap d)) \<and> map_get (dc_entries (evictExpired now d)) h = None \<and>
        d' = snd (new_entry ttl later h (evictExpired now d)))"
proof -
  let ?e = "evictExpired now d"
  note einv = evict_inv [OF inv, of now]
  have "dedup_inv d' \<and> ((\<exists>i t. c = Replay t \<and> d' = evictExpired now d \<and> map_get (dc_entries d') h = Some i \<and>
        en_responseText (dc_heap d ! i) = Some t) \<or>
     (\<exists>i. c = Await i \<and> d' = evictExpired now d \<and> map_get (dc_entries d') h = Some i \<and>
        en_result (dc_heap d ! i) = None) \<or>
     (c = Forward (length (dc_heap d)) \<and> map_get (dc_entries (evictExpired now d)) h = None \<and>
        d' = snd (new_entry ttl later h (evictExpired now d))))"
  proof (cases "map_get (dc_entries ?e) h")
    case None
    then show ?thesis
      using call new_entry_inv [OF einv None, of ttl later] by (auto simp: claim_create_def Let_def new_entry_def)
  next
    case (Some i)
    from dedup_invD(3) [OF einv Some] have i: "i < length (dc_heap d)" "en_result (dc_heap d ! i) \<noteq> Some None" by auto
    from dedup_invD(2) [OF inv i(1)] show ?thesis
    proof (unfold create_entry_ok_def, elim disjE exE conjE)
      fix t assume "\<not> en_pending (dc_heap d ! i)" "en_responseText (dc_heap d ! i) = Some t"
      then show ?thesis using call Some einv by (simp add: claim_create_def Let_def)
    next
      assume "en_pending (dc_heap d ! i)" "en_responseText (dc_heap d ! i) = None" "en_result (dc_heap d ! i) = None"
      then show ?thesis using call Some einv by (auto simp: claim_create_def Let_def)
    qed (use i in simp)
  qed
  then show "dedup_inv d'" "(\<exists>i t. c = Replay t \<and> d' = evictExpired now d \<and> map_get (dc_entries d') h = Some i \<and>
        en_responseText (dc_heap d ! i) = Some t) \<or>
     (\<exists>i. c = Await i \<and> d' = evictExpired now d \<and> map_get (dc_entries d') h = Some i \<and>
        en_result (dc_heap d ! i) = None) \<or>
     (c = Forward (length (dc_heap d)) \<and> map_get (dc_entries (evictExpired now d)) h = None \<and>
        d' = snd (new_entry ttl later h (evictExpired now d)))" by blast+
qed

text \<open>Resolving a pending promise changes one entry and, when it is abandoned, takes it out of the map.\<close>

lemma settle_fields:
  assumes "i < length (dc_heap d)" "en_result (dc_heap d ! i) = None"
  shows "length (dc_heap (settleCreate ttl now i t d)) = length (dc_heap d)" "dc_entries (settleCreate ttl now i t d) = dc_entries d"
    "j \<noteq> i \<Longrightarrow> dc_heap (settleCreate ttl now i t d) ! j = dc_heap d ! j"
    "dc_heap (settleCreate ttl now i t d) ! i =
       (dc_heap d ! i)\<lparr>en_responseText := Some t, en_expiresAt := now + ttl, en_pending := False, en_result := Some (Some t)\<rparr>"
  using assms by (simp_all add: settleCreate_def Let_def)

lemma abandon_fields:
  assumes "i < length (dc_heap d)" "en_result (dc_heap d ! i) = None"
  shows "length (dc_heap (abandon i d)) = length (dc_heap d)"
    "dc_entries (abandon i d) = map_delete (en_hash (dc_heap d ! i)) (dc_entries d)"
    "j \<noteq> i \<Longrightarrow> dc_heap (abandon i d) ! j = dc_heap d ! j"
    "dc_heap (abandon i d) ! i = (dc_heap d ! i)\<lparr>en_result := Some None\<rparr>"
  using assms by (simp_all add: abandon_def Let_def)

lemma settle_inv:
  assumes inv: "dedup_inv d" and i: "i < length (dc_heap d)" "en_result (dc_heap d ! i) = None"
  shows "dedup_inv (settleCreate ttl now i t d)"
proof (rule dedup_invI)
  note s = settle_fields [OF i, where ttl = ttl and now = now and t = t]
  show "map_ok (dc_entries (settleCreate ttl now i t d))" using dedup_invD(1) [OF inv] s by simp
  fix j
  show "create_entry_ok (dc_heap (settleCreate ttl now i t d) ! j)" if "j < length (dc_heap (settleCreate ttl now i t d))"
    using that dedup_invD(2) [OF inv, of j] s by (cases "j = i") (auto simp: create_entry_ok_def)
  show "map_get (dc_entries (settleCreate ttl now i t d)) (en_hash (dc_heap (settleCreate ttl now i t d) ! j)) = Some j"
    if "j < length (dc_heap (settleCreate ttl now i t d))" "en_result (dc_heap (settleCreate ttl now i t d) ! j) = None"
    using that dedup_invD(4) [OF inv, of j] s by (cases "j = i") auto
  show "j < length (dc_heap (settleCreate ttl now i t d)) \<and> en_hash (dc_heap (settleCreate ttl now i t d) ! j) = h \<and>
      en_result (dc_heap (settleCreate ttl now i t d) ! j) \<noteq> Some None"
    if "map_get (dc_entries (settleCreate ttl now i t d)) h = Some j" for h
    using that dedup_invD(3) [OF inv, of h j] s by (cases "j = i") auto
qed

lemma abandon_inv:
  assumes inv: "dedup_inv d" and i: "i < length (dc_heap d)" "en_result (dc_heap d ! i) = None"
  shows "dedup_inv (abandon i d)"
proof (rule dedup_invI)
  note s = abandon_fields [OF i]
  note own = dedup_invD(4) [OF inv i]
  show "map_ok (dc_entries (abandon i d))" using dedup_invD(1) [OF inv] s by simp
  fix j
  show "create_entry_ok (dc_heap (abandon i d) ! j)" if "j < length (dc_heap (abandon i d))"
    using that dedup_invD(2) [OF inv, of j] s i by (cases "j = i") (auto simp: create_entry_ok_def)
  show "map_get (dc_entries (abandon i d)) (en_hash (dc_heap (abandon i d) ! j)) = Some j"
    if "j < length (dc_heap (abandon i d))" "en_result (dc_heap (abandon i d) ! j) = None"
    using that dedup_invD(4) [OF inv, of j] s own by (cases "j = i") auto
  show "j < length (dc_heap (abandon i d)) \<and> en_hash (dc_heap (abandon i d) ! j) = h \<and>
      en_result (dc_heap (abandon i d) ! j) \<noteq> Some None"
    if "map_get (dc_entries (abandon i d)) h = Some j" for h
    using that dedup_invD(3) [OF inv, of h j] s own by (cases "j = i") (auto split: if_splits)
qed

subsection \<open>The invariant of the requests\<close>

definition holds :: "create_world \<Rightarrow> nat \<Rightarrow> string \<Rightarrow> nat \<Rightarrow> bool" where
  "holds w r h i \<longleftrightarrow> r < length (cw_reqs w) \<and> cw_reqs w ! r = (h, Sending (Some i))"

definition logged :: "int \<Rightarrow> create_log list \<Rightarrow> Entry \<Rightarrow> bool" where
  "logged ttl l e \<longleftrightarrow> (\<forall>t. en_responseText e = Some t \<longrightarrow> (\<exists>tm. Created (en_hash e) t tm \<in> set l \<and> en_expiresAt e = tm + ttl))"

definition phase_ok :: "dedup \<Rightarrow> create_log list \<Rightarrow> string \<times> create_phase \<Rightarrow> bool" where
  "phase_ok d l q =
     (case q of
        (h, Sending (Some i)) \<Rightarrow> i < length (dc_heap d) \<and> en_hash (dc_heap d ! i) = h \<and> en_result (dc_heap d ! i) = None
      | (h, Waiting i) \<Rightarrow> i < length (dc_heap d) \<and> en_hash (dc_heap d ! i) = h
      | (h, Replayed t) \<Rightarrow> \<exists>tm. Created h t tm \<in> set l
      | _ \<Rightarrow> True)"

definition create_inv :: "int \<Rightarrow> create_world \<Rightarrow> bool" where
  "create_inv ttl w \<longleftrightarrow> dedup_inv (cw_dedup w) \<and> (\<forall>q \<in> set (cw_reqs w). phase_ok (cw_dedup w) (cw_log w) q) \<and>
     (\<forall>e \<in> set (dc_heap (cw_dedup w)). logged ttl (cw_log w) e) \<and>
     (\<forall>r r' h h' i. holds w r h i \<longrightarrow> holds w r' h' i \<longrightarrow> r = r')"

lemma create_invD:
  assumes "create_inv ttl w"
  shows "dedup_inv (cw_dedup w)" "r < length (cw_reqs w) \<Longrightarrow> phase_ok (cw_dedup w) (cw_log w) (cw_reqs w ! r)"
    "i < length (dc_heap (cw_dedup w)) \<Longrightarrow> logged ttl (cw_log w) (dc_heap (cw_dedup w) ! i)"
    "holds w r h i \<Longrightarrow> holds w r' h' i \<Longrightarrow> r = r'"
    "holds w r h i \<Longrightarrow> i < length (dc_heap (cw_dedup w)) \<and> en_hash (dc_heap (cw_dedup w) ! i) = h \<and>
       en_result (dc_heap (cw_dedup w) ! i) = None"
proof -
  show "r < length (cw_reqs w) \<Longrightarrow> phase_ok (cw_dedup w) (cw_log w) (cw_reqs w ! r)" using assms by (simp add: create_inv_def)
  then show "holds w r h i \<Longrightarrow> i < length (dc_heap (cw_dedup w)) \<and> en_hash (dc_heap (cw_dedup w) ! i) = h \<and>
       en_result (dc_heap (cw_dedup w) ! i) = None" by (auto simp: holds_def phase_ok_def)
qed (use assms in \<open>auto simp: create_inv_def\<close>)

lemma phase_ok_extends:
  assumes "phase_ok d l q" "dc_heap d' = dc_heap d @ xs" "set l \<subseteq> set l'"
  shows "phase_ok d' l' q"
proof (cases q)
  case (Pair h p)
  have "dc_heap d' ! i = dc_heap d ! i" if "i < length (dc_heap d)" for i using that assms(2) by (simp add: nth_append)
  then show ?thesis
    using assms Pair by (cases p) (auto simp: phase_ok_def split: option.splits)
qed

lemma logged_extends: "logged ttl l e \<Longrightarrow> set l \<subseteq> set l' \<Longrightarrow> logged ttl l' e"
  unfolding logged_def by blast

text \<open>A request moves on while the store keeps its entries and may gain new ones.\<close>

lemma phase_change:
  assumes inv: "create_inv ttl w" and d: "dedup_inv d'" "dc_heap d' = dc_heap (cw_dedup w) @ xs"
      "\<forall>e \<in> set xs. en_responseText e = None"
    and r: "r < length (cw_reqs w)" and p: "phase_ok d' (cw_log w) (h, p)"
    and fresh: "\<And>i. p = Sending (Some i) \<Longrightarrow> length (dc_heap (cw_dedup w)) \<le> i"
  shows "create_inv ttl \<lparr>cw_dedup = d', cw_reqs = (cw_reqs w)[r := (h, p)], cw_log = cw_log w @ l, cw_now = n\<rparr>"
  unfolding create_inv_def
proof (simp, intro conjI ballI allI impI)
  show "dedup_inv d'" by (rule d(1))
  show "phase_ok d' (cw_log w @ l) q" if "q \<in> set ((cw_reqs w)[r := (h, p)])" for q
  proof -
    from that have "q = (h, p) \<or> q \<in> set (cw_reqs w)" using set_update_subset_insert by fast
    then show ?thesis
    proof
      assume "q = (h, p)"
      then show ?thesis using phase_ok_extends [OF p, of d' "[]"] by simp
    next
      assume "q \<in> set (cw_reqs w)"
      then have "phase_ok (cw_dedup w) (cw_log w) q" using inv by (simp add: create_inv_def)
      then show ?thesis by (rule phase_ok_extends [OF _ d(2)]) simp
    qed
  qed
  show "logged ttl (cw_log w @ l) e" if "e \<in> set (dc_heap d')" for e
  proof (cases "e \<in> set xs")
    case True
    then show ?thesis using d(3) by (simp add: logged_def)
  next
    case False
    then have "logged ttl (cw_log w) e" using that inv d(2) by (simp add: create_inv_def)
    then show ?thesis by (rule logged_extends) simp
  qed
  fix a b h1 h2 i
  let ?w = "\<lparr>cw_dedup = d', cw_reqs = (cw_reqs w)[r := (h, p)], cw_log = cw_log w @ l, cw_now = n\<rparr>"
  assume h: "holds ?w a h1 i" "holds ?w b h2 i"
  have old: "holds w k h3 i \<and> i < length (dc_heap (cw_dedup w))" if "holds ?w k h3 i" "k \<noteq> r" for k h3
  proof -
    have "holds w k h3 i" using that by (simp add: holds_def)
    then show ?thesis using create_invD(5) [OF inv] by blast
  qed
  have new: "p = Sending (Some i)" if "holds ?w r h3 i" for h3 using that r by (simp add: holds_def)
  show "a = b"
  proof (cases "a = r"; cases "b = r")
    assume "a \<noteq> r" "b \<noteq> r"
    then show ?thesis using old h create_invD(4) [OF inv] by blast
  next
    assume "a = r" "b \<noteq> r"
    then show ?thesis using old [OF h(2)] new h(1) fresh by fastforce
  next
    assume "a \<noteq> r" "b = r"
    then show ?thesis using old [OF h(1)] new h(2) fresh by fastforce
  qed simp
qed

lemma append_request:
  "create_inv ttl w \<Longrightarrow> create_inv ttl (w\<lparr>cw_reqs := cw_reqs w @ [(h, Finished)]\<rparr>)"
  by (auto simp: create_inv_def phase_ok_def holds_def nth_append split: if_splits)

lemma claim_moves:
  assumes inv: "create_inv ttl w" and r: "r < length (cw_reqs w)"
    and claim: "claim_create ttl now later h (cw_dedup w) = (c, d')"
    and p: "(\<exists>t. c = Replay t \<and> p = Replayed t) \<or> (\<exists>i. c = Await i \<and> p \<in> {Waiting i, Sending None}) \<or>
      (\<exists>i. c = Forward i \<and> p = Sending (Some i))"
  shows "create_inv ttl \<lparr>cw_dedup = d', cw_reqs = (cw_reqs w)[r := (h, p)], cw_log = cw_log w @ l, cw_now = n\<rparr>"
proof -
  note dinv = create_invD(1) [OF inv]
  have e: "dedup_inv (evictExpired now (cw_dedup w))" by (rule evict_inv [OF dinv])
  note cs = claim_cases [OF dinv claim]
  from cs(2) show ?thesis
  proof (elim disjE exE conjE)
    fix i t assume c: "c = Replay t" "d' = evictExpired now (cw_dedup w)" "map_get (dc_entries d') h = Some i"
      "en_responseText (dc_heap (cw_dedup w) ! i) = Some t"
    have i: "i < length (dc_heap (cw_dedup w))" "en_hash (dc_heap (cw_dedup w) ! i) = h"
      using dedup_invD(3) [OF e] c by auto
    have "\<exists>tm. Created h t tm \<in> set (cw_log w)"
      using create_invD(3) [OF inv i(1)] c(4) i(2) unfolding logged_def by blast
    then show ?thesis
      using p c by (intro phase_change [OF inv cs(1), of "[]"]) (auto simp: r phase_ok_def)
  next
    fix i assume c: "c = Await i" "d' = evictExpired now (cw_dedup w)" "map_get (dc_entries d') h = Some i"
    have "i < length (dc_heap d') \<and> en_hash (dc_heap d' ! i) = h"
      using dedup_invD(3) [OF cs(1) c(3)] by blast
    then show ?thesis
      using p c by (intro phase_change [OF inv cs(1), of "[]"]) (auto simp: r phase_ok_def)
  next
    assume c: "c = Forward (length (dc_heap (cw_dedup w)))"
      "d' = snd (new_entry ttl later h (evictExpired now (cw_dedup w)))"
    then show ?thesis
      using p by (intro phase_change [OF inv cs(1), where xs =
        "[\<lparr>en_hash = h, en_expiresAt = later + ttl, en_responseText = None, en_pending = True, en_result = None\<rparr>]"])
        (auto simp: r phase_ok_def new_entry_def)
  qed
qed

lemma answer_change:
  assumes inv: "create_inv ttl w" and held: "holds w r h i" and d: "dedup_inv d'"
      "length (dc_heap d') = length (dc_heap (cw_dedup w))" "\<And>j. j \<noteq> i \<Longrightarrow> dc_heap d' ! j = dc_heap (cw_dedup w) ! j"
      "en_hash (dc_heap d' ! i) = h" "logged ttl (cw_log w @ l) (dc_heap d' ! i)"
  shows "create_inv ttl \<lparr>cw_dedup = d', cw_reqs = (cw_reqs w)[r := (h, Finished)], cw_log = cw_log w @ l, cw_now = n\<rparr>"
proof -
  note own = create_invD(5) [OF inv held]
  have hash: "en_hash (dc_heap d' ! j) = en_hash (dc_heap (cw_dedup w) ! j)" for j
    using d(3) [of j] d(4) own by (cases "j = i") auto
  show ?thesis
    unfolding create_inv_def
  proof (simp, intro conjI ballI allI impI)
    show "dedup_inv d'" by (rule d(1))
    show "phase_ok d' (cw_log w @ l) q" if "q \<in> set ((cw_reqs w)[r := (h, Finished)])" for q
    proof -
      from that obtain k where k: "k < length (cw_reqs w)" "q = (cw_reqs w)[r := (h, Finished)] ! k"
        by (auto simp: in_set_conv_nth)
      show ?thesis
      proof (cases "k = r")
        case True
        then show ?thesis using k by (simp add: phase_ok_def)
      next
        case False
        then have q: "q = cw_reqs w ! k" using k by simp
        obtain g p where gp: "q = (g, p)" by (cases q)
        have ok: "phase_ok (cw_dedup w) (cw_log w) (g, p)" using create_invD(2) [OF inv k(1)] q gp by simp
        have other: "j \<noteq> i" if "p = Sending (Some j)" for j
          using create_invD(4) [OF inv held, of k g] False k(1) q gp that by (auto simp: holds_def)
        show ?thesis
          using ok other d(2,3) hash unfolding gp phase_ok_def by (cases p) (auto split: option.splits)
      qed
    qed
    show "logged ttl (cw_log w @ l) e" if "e \<in> set (dc_heap d')" for e
    proof -
      from that obtain j where j: "j < length (dc_heap d')" "e = dc_heap d' ! j" by (auto simp: in_set_conv_nth)
      show ?thesis
      proof (cases "j = i")
        case False
        then have "logged ttl (cw_log w) e" using create_invD(3) [OF inv, of j] j d(2,3) by simp
        then show ?thesis by (rule logged_extends) simp
      qed (use d(5) j in simp)
    qed
    fix a b h1 h2 j
    let ?w = "\<lparr>cw_dedup = d', cw_reqs = (cw_reqs w)[r := (h, Finished)], cw_log = cw_log w @ l, cw_now = n\<rparr>"
    assume "holds ?w a h1 j" "holds ?w b h2 j"
    moreover have "holds w k h3 j" if "holds ?w k h3 j" for k h3
      using that held by (cases "k = r") (auto simp: holds_def)
    ultimately have "holds w a h1 j" "holds w b h2 j" by blast+
    then show "a = b" by (rule create_invD(4) [OF inv])
  qed
qed

lemma answer_inv:
  assumes inv: "create_inv ttl w" and r: "r < length (cw_reqs w)" "cw_reqs w ! r = (h, Sending held)"
  shows "create_inv ttl \<lparr>cw_dedup = finish_create ttl now parse up held (cw_dedup w), cw_reqs = (cw_reqs w)[r := (h, Finished)],
     cw_log = cw_log w @ outcome_log parse now h up, cw_now = n\<rparr>"
proof (cases held)
  case None
  then show ?thesis
    using create_invD(1) [OF inv]
    by (intro phase_change [OF inv, of _ "[]"]) (auto simp: finish_create_def r phase_ok_def)
next
  case (Some i)
  then have held: "holds w r h i" using r by (simp add: holds_def)
  note own = create_invD(5) [OF inv held]
  have i: "i < length (dc_heap (cw_dedup w))" "en_result (dc_heap (cw_dedup w) ! i) = None" "en_hash (dc_heap (cw_dedup w) ! i) = h"
    using own by auto
  note dinv = create_invD(1) [OF inv]
  have pending: "en_responseText (dc_heap (cw_dedup w) ! i) = None"
    using dedup_invD(2) [OF dinv i(1)] i(2) by (auto simp: create_entry_ok_def)
  have lost: "create_inv ttl \<lparr>cw_dedup = abandon i (cw_dedup w), cw_reqs = (cw_reqs w)[r := (h, Finished)],
      cw_log = cw_log w @ l, cw_now = n\<rparr>" for l
    using abandon_fields [OF i(1,2)] i(3) pending
    by (intro answer_change [OF inv held abandon_inv [OF dinv i(1,2)]]) (auto simp: logged_def)
  show ?thesis
  proof (cases up)
    case (Body t)
    show ?thesis
    proof (cases "isSuccessfulIssueCreate (parse t)")
      case True
      have "create_inv ttl \<lparr>cw_dedup = settleCreate ttl now i t (cw_dedup w), cw_reqs = (cw_reqs w)[r := (h, Finished)],
          cw_log = cw_log w @ [Created h t now], cw_now = n\<rparr>"
        using settle_fields [OF i(1,2), where ttl = ttl and now = now and t = t] i(3)
        by (intro answer_change [OF inv held settle_inv [OF dinv i(1,2)]]) (auto simp: logged_def)
      then show ?thesis using Body True Some by (simp add: finish_create_def outcome_log_def)
    qed (use Body Some lost in \<open>simp add: finish_create_def outcome_log_def\<close>)
  next
    case Aborted
    have "create_inv ttl \<lparr>cw_dedup = cw_dedup w, cw_reqs = (cw_reqs w)[r := (h, Finished)], cw_log = cw_log w @ [], cw_now = n\<rparr>"
      using create_invD(3) [OF inv i(1)] i(3) by (intro answer_change [OF inv held dinv]) simp_all
    then show ?thesis using Aborted Some by (simp add: finish_create_def outcome_log_def)
  qed (use Some lost in \<open>simp_all add: finish_create_def outcome_log_def\<close>)
qed

lemma create_step_inv:
  assumes inv: "create_inv ttl w" and step: "create_step ttl parse now later ev w = Some w'"
  shows "create_inv ttl w'"
proof (cases ev)
  case (Arrive h)
  obtain c d' where c: "claim_create ttl now later h (cw_dedup w) = (c, d')" by (cases "claim_create ttl now later h (cw_dedup w)")
  let ?w = "w\<lparr>cw_reqs := cw_reqs w @ [(h, Finished)]\<rparr>"
  have move: "create_inv ttl \<lparr>cw_dedup = d', cw_reqs = (cw_reqs ?w)[length (cw_reqs w) := (h, p)], cw_log = cw_log ?w @ l, cw_now = later\<rparr>"
    if "(\<exists>t. c = Replay t \<and> p = Replayed t) \<or> (\<exists>i. c = Await i \<and> p \<in> {Waiting i, Sending None}) \<or>
      (\<exists>i. c = Forward i \<and> p = Sending (Some i))" for p l
    by (rule claim_moves [OF append_request [OF inv] _ _ that, where now = now and later = later]) (simp_all add: c)
  show ?thesis
    using step move Arrive c by (cases c) (auto simp: create_step_def begin_create_def)
next
  case (Resume r)
  then have r: "r < length (cw_reqs w)" using step by (simp add: create_step_def split: if_splits)
  obtain h q where q: "cw_reqs w ! r = (h, q)" by (cases "cw_reqs w ! r")
  then obtain i where i: "q = Waiting i" using step Resume r by (cases q) (simp_all add: create_step_def)
  then have ok: "i < length (dc_heap (cw_dedup w))" "en_hash (dc_heap (cw_dedup w) ! i) = h"
    using create_invD(2) [OF inv r] q by (simp_all add: phase_ok_def)
  obtain c d' where c: "claim_create ttl now later h (cw_dedup w) = (c, d')" by (cases "claim_create ttl now later h (cw_dedup w)")
  note move = claim_moves [OF inv r c]
  show ?thesis
  proof (cases "en_result (dc_heap (cw_dedup w) ! i)")
    case None
    then show ?thesis using step Resume r q i by (simp add: create_step_def resume_create_def)
  next
    case (Some res)
    show ?thesis
    proof (cases res)
      case None
      then show ?thesis
        using step Resume r q i Some c move by (cases c) (auto simp: create_step_def resume_create_def)
    next
      case (Some t)
      then have "en_responseText (dc_heap (cw_dedup w) ! i) = Some t"
        using dedup_invD(2) [OF create_invD(1) [OF inv] ok(1)] \<open>en_result _ = Some res\<close> by (auto simp: create_entry_ok_def)
      then have "\<exists>tm. Created h t tm \<in> set (cw_log w)" using create_invD(3) [OF inv ok(1)] ok(2) unfolding logged_def by blast
      then have "create_inv ttl \<lparr>cw_dedup = cw_dedup w, cw_reqs = (cw_reqs w)[r := (h, Replayed t)], cw_log = cw_log w @ l, cw_now = later\<rparr>" for l
        by (intro phase_change [OF inv create_invD(1) [OF inv], of "[]"]) (auto simp: r phase_ok_def)
      then show ?thesis
        using step Resume r q i Some \<open>en_result _ = Some res\<close> by (auto simp: create_step_def resume_create_def)
    qed
  qed
next
  case (Answer r up)
  then have r: "r < length (cw_reqs w)" using step by (simp add: create_step_def split: if_splits)
  obtain h q where q: "cw_reqs w ! r = (h, q)" by (cases "cw_reqs w ! r")
  then obtain held where "q = Sending held" using step Answer r by (cases q) (simp_all add: create_step_def)
  then show ?thesis
    using step Answer r q answer_inv [OF inv r, of h held] by (auto simp: create_step_def)
qed

lemma creates_inv: "creates ttl parse w \<Longrightarrow> create_inv ttl w"
proof (induction rule: creates.induct)
  case creates_empty
  show ?case by (simp add: create_inv_def empty_world_def dedup_inv_def holds_def)
qed (rule create_step_inv)

text \<open>
  C22: However requests interleave, at most one of those with the same fingerprint holds the right to forward, and a
  request that is answered with an earlier response gets the response of a creation with its own fingerprint
  that really succeeded.
\<close>

theorem one_claim_per_creation:
  assumes "creates ttl parse w"
  shows "(holds w r h i \<and> holds w r' h i' \<longrightarrow> r = r' \<and> i = i') \<and>
    ((h, Replayed t) \<in> set (cw_reqs w) \<longrightarrow> (\<exists>tm. Created h t tm \<in> set (cw_log w)))"
proof (intro conjI impI)
  note inv = creates_inv [OF assms]
  have own: "map_get (dc_entries (cw_dedup w)) h = Some j" if "holds w k h j" for k j
    using create_invD(5) [OF inv that] dedup_invD(4) [OF create_invD(1) [OF inv], of j] by auto
  assume h: "holds w r h i \<and> holds w r' h i'"
  show "i = i'" using own [of r i] own [of r' i'] h by simp
  then show "r = r'" using create_invD(4) [OF inv] h by blast
next
  assume "(h, Replayed t) \<in> set (cw_reqs w)"
  then show "\<exists>tm. Created h t tm \<in> set (cw_log w)"
    using creates_inv [OF assms] by (auto simp: create_inv_def phase_ok_def)
qed

subsection \<open>One creation while none fails\<close>

definition once :: "string \<Rightarrow> int \<Rightarrow> dedup \<Rightarrow> create_log list \<Rightarrow> int \<Rightarrow> bool" where
  "once h ttl d l n \<longleftrightarrow> (Failed h \<notin> set l \<longrightarrow>
     (\<forall>i < length (dc_heap d). en_hash (dc_heap d ! i) = h \<longrightarrow> en_result (dc_heap d ! i) \<noteq> Some None) \<and>
     (count_list l (Sent h) = 0 \<and> (\<forall>i < length (dc_heap d). en_hash (dc_heap d ! i) \<noteq> h) \<or>
      count_list l (Sent h) = 1 \<and> map_get (dc_entries d) h \<noteq> None \<or>
      (\<exists>t tm. Created h t tm \<in> set l \<and> tm + ttl \<le> n)))"

lemma once_log:
  "once h ttl d l n \<Longrightarrow> n \<le> n' \<Longrightarrow> count_list l' (Sent h) = 0 \<Longrightarrow> once h ttl d (l @ l') n'"
  unfolding once_def by (fastforce simp: count_list_append)

lemma once_evict:
  assumes inv: "dedup_inv d" "\<And>i. i < length (dc_heap d) \<Longrightarrow> logged ttl l (dc_heap d ! i)" and o: "once h ttl d l n" and "n \<le> now"
  shows "once h ttl (evictExpired now d) l now"
  unfolding once_def
proof (intro impI conjI)
  assume nf: "Failed h \<notin> set l"
  then show "\<forall>i<length (dc_heap (evictExpired now d)). en_hash (dc_heap (evictExpired now d) ! i) = h \<longrightarrow>
      en_result (dc_heap (evictExpired now d) ! i) \<noteq> Some None" using o by (simp add: once_def)
  have gone: "\<exists>t tm. Created h t tm \<in> set l \<and> tm + ttl \<le> now"
    if g: "map_get (dc_entries d) h = Some i" "map_get (dc_entries (evictExpired now d)) h = None" for i
  proof -
    have e: "\<not> en_pending (dc_heap d ! i)" "en_expiresAt (dc_heap d ! i) \<le> now"
      using g by (auto simp: evict_get [OF inv(1)] split: if_splits)
    note i = dedup_invD(3) [OF inv(1) g(1)]
    then obtain t where "en_responseText (dc_heap d ! i) = Some t" using dedup_invD(2) [OF inv(1), of i] e(1) by (auto simp: create_entry_ok_def)
    then show ?thesis using inv(2) [of i] i e(2) unfolding logged_def by force
  qed
  have "count_list l (Sent h) = 0 \<and> (\<forall>i < length (dc_heap d). en_hash (dc_heap d ! i) \<noteq> h) \<or>
      count_list l (Sent h) = 1 \<and> map_get (dc_entries d) h \<noteq> None \<or>
      (\<exists>t tm. Created h t tm \<in> set l \<and> tm + ttl \<le> now)"
    using o nf \<open>n \<le> now\<close> unfolding once_def by (meson order_trans)
  then show "count_list l (Sent h) = 0 \<and> (\<forall>i < length (dc_heap (evictExpired now d)). en_hash (dc_heap (evictExpired now d) ! i) \<noteq> h) \<or>
      count_list l (Sent h) = 1 \<and> map_get (dc_entries (evictExpired now d)) h \<noteq> None \<or>
      (\<exists>t tm. Created h t tm \<in> set l \<and> tm + ttl \<le> now)"
    using gone by (cases "map_get (dc_entries d) h"; cases "map_get (dc_entries (evictExpired now d)) h") auto
qed

lemma once_claim:
  assumes inv: "create_inv ttl w" and o: "once h ttl (cw_dedup w) (cw_log w) (cw_now w)" and t: "cw_now w \<le> now" "now \<le> later"
    and claim: "claim_create ttl now later k (cw_dedup w) = (c, d')"
  shows "once h ttl d' (cw_log w @ (case c of Forward i \<Rightarrow> [Sent k] | _ \<Rightarrow> [])) later"
proof -
  note dinv = create_invD(1) [OF inv]
  let ?e = "evictExpired now (cw_dedup w)"
  have e: "once h ttl ?e (cw_log w) now"
    by (rule once_evict [OF dinv create_invD(3) [OF inv] o t(1)])
  from claim_cases(2) [OF dinv claim] show ?thesis
  proof (elim disjE exE conjE)
    assume c: "c = Forward (length (dc_heap (cw_dedup w)))" "map_get (dc_entries ?e) k = None" "d' = snd (new_entry ttl later k ?e)"
    have heap: "dc_heap d' = dc_heap ?e @ [\<lparr>en_hash = k, en_expiresAt = later + ttl, en_responseText = None, en_pending = True, en_result = None\<rparr>]"
      using c by (simp add: new_entry_def)
    have get: "map_get (dc_entries d') h = (if h = k then Some (length (dc_heap (cw_dedup w))) else map_get (dc_entries ?e) h)"
      using c by (simp add: new_entry_def)
    have len: "length (dc_heap d') = Suc (length (dc_heap ?e))" by (simp add: heap)
    have old: "dc_heap d' ! i = dc_heap ?e ! i" if "i < length (dc_heap ?e)" for i using that by (simp add: heap nth_append)
    have new: "en_hash (dc_heap d' ! length (dc_heap ?e)) = k" "en_result (dc_heap d' ! length (dc_heap ?e)) = None"
      by (simp_all add: heap)
    have results: "(\<forall>i < length (dc_heap d'). en_hash (dc_heap d' ! i) = h \<longrightarrow> en_result (dc_heap d' ! i) \<noteq> Some None)"
      if "Failed h \<notin> set (cw_log w)"
      using e that old new unfolding once_def len less_Suc_eq by auto
    have cases: "count_list (cw_log w) (Sent h) = 0 \<and> (\<forall>i < length (dc_heap ?e). en_hash (dc_heap ?e ! i) \<noteq> h) \<or>
      count_list (cw_log w) (Sent h) = 1 \<and> map_get (dc_entries ?e) h \<noteq> None \<or>
      (\<exists>t tm. Created h t tm \<in> set (cw_log w) \<and> tm + ttl \<le> later)" if "Failed h \<notin> set (cw_log w)"
      using e that t(2) unfolding once_def by (meson order_trans)
    show ?thesis
    proof (cases "h = k")
      case True
      then show ?thesis using results cases c(1,2) get unfolding once_def by (auto simp: count_list_append)
    next
      case False
      then show ?thesis
        using results cases c(1) get old new unfolding once_def len less_Suc_eq by (auto simp: count_list_append)
    qed
  qed (use once_log [OF e t(2), of "[]"] in simp_all)
qed

lemma once_finish:
  assumes inv: "create_inv ttl w" and o: "once h ttl (cw_dedup w) (cw_log w) (cw_now w)" and t: "cw_now w \<le> later"
    and r: "r < length (cw_reqs w)" "cw_reqs w ! r = (k, Sending held)"
  shows "once h ttl (finish_create ttl now parse up held (cw_dedup w)) (cw_log w @ outcome_log parse now k up) later"
proof -
  let ?l = "cw_log w @ outcome_log parse now k up"
  have log: "count_list (outcome_log parse now k up) (Sent h) = 0" by (cases up) (auto simp: outcome_log_def)
  note keep = once_log [OF o t log]
  show ?thesis
  proof (cases held)
    case None
    then show ?thesis using keep by (simp add: finish_create_def)
  next
    case (Some i)
    then have own: "i < length (dc_heap (cw_dedup w))" "en_result (dc_heap (cw_dedup w) ! i) = None" "en_hash (dc_heap (cw_dedup w) ! i) = k"
      using create_invD(5) [OF inv, of r k i] r by (auto simp: holds_def)
    have lost: "once h ttl (abandon i (cw_dedup w)) ?l later" if "Failed k \<in> set ?l"
    proof (cases "h = k")
      case True
      then show ?thesis using that unfolding once_def by blast
    next
      case False
      have heap: "en_hash (dc_heap (abandon i (cw_dedup w)) ! j) = en_hash (dc_heap (cw_dedup w) ! j)"
        "en_hash (dc_heap (cw_dedup w) ! j) = h \<Longrightarrow> dc_heap (abandon i (cw_dedup w)) ! j = dc_heap (cw_dedup w) ! j" for j
        using abandon_fields [OF own(1,2)] own(3) False by (cases "j = i"; auto)+
      show ?thesis
        using keep heap own(3) False abandon_fields(1,2) [OF own(1,2)] unfolding once_def by auto
    qed
    have won: "once h ttl (settleCreate ttl now i t (cw_dedup w)) ?l later" for t
    proof -
      have heap: "en_hash (dc_heap (settleCreate ttl now i t (cw_dedup w)) ! j) = en_hash (dc_heap (cw_dedup w) ! j)"
        "en_result (dc_heap (cw_dedup w) ! j) \<noteq> Some None \<Longrightarrow> en_result (dc_heap (settleCreate ttl now i t (cw_dedup w)) ! j) \<noteq> Some None" for j
        using settle_fields [OF own(1,2), where ttl = ttl and now = now and t = t] by (cases "j = i"; auto)+
      show ?thesis
        using keep heap settle_fields(1,2) [OF own(1,2)] unfolding once_def by auto
    qed
    show ?thesis
      using Some lost won keep by (cases up) (auto simp: finish_create_def outcome_log_def)
  qed
qed

lemma once_step:
  assumes inv: "create_inv ttl w" and o: "once h ttl (cw_dedup w) (cw_log w) (cw_now w)" and t: "cw_now w \<le> now" "now \<le> later"
    and step: "create_step ttl parse now later ev w = Some w'"
  shows "once h ttl (cw_dedup w') (cw_log w') (cw_now w')"
proof (cases ev)
  case (Arrive k)
  obtain c d' where c: "claim_create ttl now later k (cw_dedup w) = (c, d')" by (cases "claim_create ttl now later k (cw_dedup w)")
  show ?thesis
    using step Arrive c once_claim [OF inv o t c]
    by (cases c) (auto simp: create_step_def begin_create_def sent_by_def)
next
  case (Resume r)
  then have r: "r < length (cw_reqs w)" using step by (simp add: create_step_def split: if_splits)
  obtain k q where q: "cw_reqs w ! r = (k, q)" by (cases "cw_reqs w ! r")
  then obtain i where i: "q = Waiting i" using step Resume r by (cases q) (simp_all add: create_step_def)
  then have ok: "i < length (dc_heap (cw_dedup w))" "en_hash (dc_heap (cw_dedup w) ! i) = k"
    using create_invD(2) [OF inv r] q by (simp_all add: phase_ok_def)
  obtain c d' where c: "claim_create ttl now later k (cw_dedup w) = (c, d')" by (cases "claim_create ttl now later k (cw_dedup w)")
  show ?thesis
  proof (cases "en_result (dc_heap (cw_dedup w) ! i)")
    case None
    then show ?thesis using step Resume r q i by (simp add: create_step_def resume_create_def)
  next
    case (Some res)
    show ?thesis
    proof (cases res)
      case None
      have failed: "Failed h \<in> set (cw_log w)" if "h = k"
        using o ok Some None that unfolding once_def by blast
      have extra: "once h ttl d' (cw_log w @ [Sent k]) later" if "once h ttl d' (cw_log w @ []) later"
        using that failed unfolding once_def by (cases "h = k") (auto simp: count_list_append)
      show ?thesis
        using step Resume r q i Some None c once_claim [OF inv o t c] extra
        by (cases c) (auto simp: create_step_def resume_create_def sent_by_def)
    next
      case (Some t')
      show ?thesis
        using step Resume r q i Some \<open>en_result _ = Some res\<close> once_log [OF o order_trans [OF t], of "[]"]
        by (auto simp: create_step_def resume_create_def sent_by_def)
    qed
  qed
next
  case (Answer r up)
  then have r: "r < length (cw_reqs w)" using step by (simp add: create_step_def split: if_splits)
  obtain k q where q: "cw_reqs w ! r = (k, q)" by (cases "cw_reqs w ! r")
  then obtain held where "q = Sending held" using step Answer r by (cases q) (simp_all add: create_step_def)
  then show ?thesis
    using step Answer r q once_finish [OF inv o order_trans [OF t] r, of k held] by (auto simp: create_step_def)
qed

lemma creates_once: "creates ttl parse w \<Longrightarrow> once h ttl (cw_dedup w) (cw_log w) (cw_now w)"
proof (induction rule: creates.induct)
  case creates_empty
  show ?case by (simp add: once_def empty_world_def)
next
  case (creates_step w now later ev w')
  then show ?case using once_step creates_inv by blast
qed


subsection \<open>Runs\<close>

fun create_run :: "int \<Rightarrow> (string \<Rightarrow> yaml option) \<Rightarrow> (int \<times> create_event) list \<Rightarrow> create_world \<Rightarrow> create_world option" where
  "create_run ttl parse [] w = Some w"
| "create_run ttl parse ((now, ev) # evs) w =
     (if now < cw_now w then None
      else case create_step ttl parse now now ev w of None \<Rightarrow> None | Some w' \<Rightarrow> create_run ttl parse evs w')"

lemma create_run_creates: "create_run ttl parse evs w = Some w' \<Longrightarrow> creates ttl parse w \<Longrightarrow> creates ttl parse w'"
proof (induction ttl parse evs w rule: create_run.induct)
  case (2 ttl parse now ev evs w)
  then obtain w1 where w1: "create_step ttl parse now now ev w = Some w1" "cw_now w \<le> now" "create_run ttl parse evs w1 = Some w'"
    by (auto split: if_splits option.splits)
  show ?case
    using 2(1) w1 creates_step [OF 2(3) w1(2) order_refl w1(1)] by auto
qed simp

definition created_answer :: "string \<Rightarrow> yaml option" where
  "created_answer t = (if t = ''ok'' then Some (Mapping [(''data'', Mapping [(''issueCreate'',
     Mapping [(''success'', YBool True), (''issue'', Mapping [(''id'', Str ''i1'')])])])]) else None)"

definition burst :: "(int \<times> create_event) list" where
  "burst = [(0, Arrive ''h''), (3, Arrive ''h''), (5, Answer 0 (Body ''ok'')), (6, Resume 1), (9, Arrive ''h'')]"

definition burst_world :: create_world where
  "burst_world = (case create_run CREATE_DEDUP_TTL_MS created_answer burst empty_world of Some w \<Rightarrow> w | None \<Rightarrow> empty_world)"

lemma burst_runs: "creates CREATE_DEDUP_TTL_MS created_answer burst_world"
proof -
  have "create_run CREATE_DEDUP_TTL_MS created_answer burst empty_world = Some burst_world" by code_simp
  then show ?thesis by (rule create_run_creates) (rule creates_empty)
qed

theorem one_claim_per_creation_witness:
  "\<exists>tm. Created ''h'' ''ok'' tm \<in> set (cw_log burst_world)"
proof -
  have "(''h'', Replayed ''ok'') \<in> set (cw_reqs burst_world)" by code_simp
  then show ?thesis using one_claim_per_creation [OF burst_runs, of 0 "''h''" 0 0 0 "''ok''"] by blast
qed


text \<open>
  Three identical requests, the first of which fails: the second claims the creation again, and the third,
  whose new claim says \<open>await\<close>, falls through and sends its own, unguarded.
\<close>

lemma coalesced_retries_race:
  "map_option cw_reqs (create_run CREATE_DEDUP_TTL_MS created_answer
     [(0, Arrive ''h''), (3, Arrive ''h''), (6, Arrive ''h''), (7, Answer 0 Unreachable), (8, Resume 1), (8, Resume 2)] empty_world) =
   Some [(''h'', Finished), (''h'', Sending (Some 1)), (''h'', Sending None)]"
  by code_simp

text \<open>A request that ends without settling or abandoning its claim makes every later identical one wait for good.\<close>

lemma aborted_creation_blocks_the_fingerprint:
  assumes "dedup_inv d" "map_get (dc_entries d) h = Some i" "en_result (dc_heap d ! i) = None"
  shows "fst (claim_create ttl now later h d) = Await i" "snd (claim_create ttl now later h d) = evictExpired now d"
    "map_get (dc_entries (evictExpired now d)) h = Some i"
    "finish_create ttl now parse Aborted (Some i) d = d"
proof -
  have i: "i < length (dc_heap d)" using dedup_invD(3) [OF assms(1,2)] by blast
  have p: "en_pending (dc_heap d ! i)" "en_responseText (dc_heap d ! i) = None"
    using dedup_invD(2) [OF assms(1) i] assms(3) by (auto simp: create_entry_ok_def)
  then show g: "map_get (dc_entries (evictExpired now d)) h = Some i" by (simp add: evict_get [OF assms(1)] assms(2))
  show "fst (claim_create ttl now later h d) = Await i" "snd (claim_create ttl now later h d) = evictExpired now d"
    using p g by (simp_all add: claim_create_def Let_def)
  show "finish_create ttl now parse Aborted (Some i) d = d" by (simp add: finish_create_def)
qed

end
