(* ===== verification/CasCheck.thy ===== *)
theory CasCheck
  imports DispatchLease
begin

text \<open>
  \<open>src/proxy-cas-check.ts\<close>: before a transition is forwarded, the lease of the calling agent must still
  run, and a ticket changed since it was dispatched is refused unless only the caller's own comments followed.
  What the service answers is given: the issue (\<open>None\<close> when it cannot be read) and its first comments.
\<close>

definition TERMINAL_INTS :: "string list" where
  "TERMINAL_INTS = [''handoff-work'', ''complete-work'', ''needs-human'', ''refuse-work'']"

definition ZOMBIE_LEASE_GATED_INTS :: "string list" where
  "ZOMBIE_LEASE_GATED_INTS = TERMINAL_INTS @ [''submit'', ''continue-workflow'']"

record CasIssue =
  cas_identifier :: "string option"
  cas_updatedAt :: "string option"

record CasService =
  cas_issue :: "CasIssue option"
  cas_comments :: "(string \<times> string option) list option"

definition fetchIssueUpdatedAt :: "CasService \<Rightarrow> (string \<times> string) option" where
  "fetchIssueUpdatedAt s =
     (case cas_issue s of None \<Rightarrow> None
      | Some i \<Rightarrow> if \<not> truthy (cas_identifier i) \<or> \<not> truthy (cas_updatedAt i) then None
          else Some (the (cas_updatedAt i), the (cas_identifier i)))"

definition after_dispatch :: "string \<Rightarrow> (string \<times> string option) list \<Rightarrow> (string \<times> string option) list" where
  "after_dispatch snapshot nodes = filter (\<lambda>c. num_less (getTime snapshot) (getTime (fst c))) nodes"

definition isSelfOnlyChange :: "CasService \<Rightarrow> string \<Rightarrow> string option \<Rightarrow> bool option" where
  "isSelfOnlyChange s snapshot caller =
     (if \<not> truthy caller then None
      else case cas_comments s of
        None \<Rightarrow> None
      | Some nodes \<Rightarrow>
          if after_dispatch snapshot nodes = [] then Some True
          else Some (\<forall>c \<in> set (after_dispatch snapshot nodes). snd c = caller))"

text \<open>\<open>CasThrew\<close>: a time that is no date makes the refusal text throw.\<close>

datatype cas_verdict = CasPass | ZombieRefused string | StaleRefused string string | CasThrew

definition checkStaleSnapshotForTerminal ::
  "CasService \<Rightarrow> string \<Rightarrow> string \<Rightarrow> string \<Rightarrow> string option \<Rightarrow> nat \<Rightarrow> LeaseStore option \<Rightarrow> cas_verdict" where
  "checkStaleSnapshotForTerminal s intent issueId agentId caller now leaseStore =
     (if intent \<notin> set ZOMBIE_LEASE_GATED_INTS then CasPass
      else case leaseStore of
        None \<Rightarrow> CasPass
      | Some st \<Rightarrow>
          (case (lease_get agentId issueId st, lease_isActive agentId issueId now st) of
             (Some rawLease, None) \<Rightarrow> ZombieRefused (lease_expires_at rawLease)
           | _ \<Rightarrow>
               if intent \<notin> set TERMINAL_INTS then CasPass
               else (case fetchIssueUpdatedAt s of
                  None \<Rightarrow> CasPass
                | Some (updatedAt, identifier) \<Rightarrow>
                    (case lease_get agentId identifier st of
                       None \<Rightarrow> CasPass
                     | Some lease \<Rightarrow>
                         let snapshot = lease_ticket_updated_at lease in
                         if snapshot = [] then CasPass
                         else if updatedAt = snapshot then CasPass
                         else if isSelfOnlyChange s snapshot caller = Some True then CasPass
                         else if getTime snapshot = None \<or> getTime updatedAt = None then CasThrew
                         else StaleRefused snapshot updatedAt))))"

subsection \<open>What passes\<close>

lemma self_only:
  "isSelfOnlyChange s snapshot caller = Some True \<longleftrightarrow>
     truthy caller \<and> (\<exists>nodes. cas_comments s = Some nodes \<and>
       (\<forall>c \<in> set nodes. num_less (getTime snapshot) (getTime (fst c)) \<longrightarrow> snd c = caller))"
proof (cases "cas_comments s")
  case (Some nodes)
  have "isSelfOnlyChange s snapshot caller = Some True \<longleftrightarrow>
      truthy caller \<and> (after_dispatch snapshot nodes = [] \<or> (\<forall>c \<in> set (after_dispatch snapshot nodes). snd c = caller))"
    by (simp add: isSelfOnlyChange_def Some)
  also have "\<dots> \<longleftrightarrow> truthy caller \<and> (\<forall>c \<in> set (after_dispatch snapshot nodes). snd c = caller)" by auto
  also have "(\<forall>c \<in> set (after_dispatch snapshot nodes). snd c = caller) \<longleftrightarrow>
      (\<forall>c \<in> set nodes. num_less (getTime snapshot) (getTime (fst c)) \<longrightarrow> snd c = caller)"
    by (auto simp: after_dispatch_def)
  finally show ?thesis unfolding Some by blast
qed (simp add: isSelfOnlyChange_def)


text \<open>
  What the check leaves open. A change that leaves no comment, such as a change of state by another session,
  passes. An unknown caller or unreadable comments refuse the transition, although the reading function is
  said to fail open. An expired lease is looked for under the identifier the request happens to use.
\<close>

lemma silent_change_passes:
  assumes "truthy caller" "cas_comments s = Some []" "lease_isActive agentId issueId now st \<noteq> None"
  shows "checkStaleSnapshotForTerminal s intent issueId agentId caller now (Some st) = CasPass"
proof -
  have "isSelfOnlyChange s snapshot caller = Some True" for snapshot using assms(1,2) by (simp add: self_only)
  then show ?thesis
    using assms(3) by (auto simp: checkStaleSnapshotForTerminal_def Let_def split: option.splits)
qed

lemma unreadable_change_is_refused:
  assumes "\<not> truthy caller \<or> cas_comments s = None" "intent \<in> set TERMINAL_INTS" "lease_get agentId issueId st = None"
    "fetchIssueUpdatedAt s = Some (updatedAt, identifier)" "lease_get agentId identifier st = Some lease"
    "lease_ticket_updated_at lease \<noteq> []" "updatedAt \<noteq> lease_ticket_updated_at lease"
  shows "checkStaleSnapshotForTerminal s intent issueId agentId caller now (Some st) \<noteq> CasPass"
proof -
  have "isSelfOnlyChange s snapshot caller = None" for snapshot using assms(1) by (auto simp: isSelfOnlyChange_def)
  then show ?thesis
    using assms(2-) by (simp add: checkStaleSnapshotForTerminal_def Let_def ZOMBIE_LEASE_GATED_INTS_def)
qed

lemma expired_lease_under_another_key_passes:
  assumes "lease_get agentId uuid st = None" "intent \<in> {''submit'', ''continue-workflow''}"
  shows "checkStaleSnapshotForTerminal s intent uuid agentId caller now (Some st) = CasPass"
  using assms by (auto simp: checkStaleSnapshotForTerminal_def TERMINAL_INTS_def)

subsection \<open>An example\<close>

definition cas_store :: LeaseStore where
  "cas_store = (lease_open [] None None)\<lparr>dispatch_lease :=
     [\<lparr>agent_id = ''ai'', lease_ticket_key = ''AI-1'', dispatched_at = toISOString 1000, lease_expires_at = toISOString 9000000,
       renewed_at = toISOString 1000, lease_ticket_updated_at = toISOString 1000\<rparr>]\<rparr>"

definition cas_service :: CasService where
  "cas_service = \<lparr>cas_issue = Some \<lparr>cas_identifier = Some ''AI-1'', cas_updatedAt = Some (toISOString 5000)\<rparr>,
     cas_comments = Some [(toISOString 5000, Some ''u-ai'')]\<rparr>"


end
