(* ===== verification/AlertBus.thy ===== *)
theory AlertBus
  imports IsoTime JsMap JsString
begin

text \<open>
  \<open>src/alerts/\<close>: the store of alerts (one row per burst), the bus that logs, stores and pushes them under a
  budget, and the chain of push transports. The redacted, serialised detail of an alert comes with it; the text
  of a push is not modelled, what it is about is. A push is recorded when its transport has answered.
\<close>

subsection \<open>The store\<close>

datatype AlertSeverity = Info | Warning | Critical

record AlertInput =
  ai_severity :: AlertSeverity
  ai_source :: string
  ai_title :: string
  ai_detailJson :: string
  ai_agent :: "string option"
  ai_ticket :: "string option"
  ai_dedupKey :: "string option"
  ai_suppressWindowMs :: "int option"

record AlertRow =
  al_id :: nat
  al_firstAt :: string
  al_lastAt :: string
  al_severity :: AlertSeverity
  al_source :: string
  al_title :: string
  al_detailJson :: string
  al_agent :: "string option"
  al_ticket :: "string option"
  al_dedupKey :: string
  al_count :: nat
  al_pushedAt :: "string option"
  al_pushedVia :: "string option"
  al_ackedAt :: "string option"

text \<open>The rows in the order of their identifiers, and the highest identifier given out.\<close>

record AlertStore =
  as_rows :: "AlertRow list"
  as_seq :: nat

record RecordResult =
  rr_row :: AlertRow
  rr_suppressed :: bool
  rr_priorBurstCount :: "nat option"

definition defaultDedupKey :: "AlertInput \<Rightarrow> string" where
  "defaultDedupKey a =
     ai_source a @ ''|'' @ ai_title a @ ''|'' @ orElse (ai_agent a) [] @ ''|'' @ orElse (ai_ticket a) []"

definition alert_key :: "AlertInput \<Rightarrow> string" where
  "alert_key a = orElse (ai_dedupKey a) (defaultDedupKey a)"

definition latest_burst :: "string \<Rightarrow> AlertStore \<Rightarrow> AlertRow option" where
  "latest_burst k s = (case filter (\<lambda>r. al_dedupKey r = k) (as_rows s) of [] \<Rightarrow> None | rs \<Rightarrow> Some (last rs))"

definition upd_alert :: "nat \<Rightarrow> (AlertRow \<Rightarrow> AlertRow) \<Rightarrow> AlertStore \<Rightarrow> AlertStore" where
  "upd_alert i f s = s\<lparr>as_rows := map (\<lambda>r. if al_id r = i then f r else r) (as_rows s)\<rparr>"

definition fold_into :: "AlertInput \<Rightarrow> nat \<Rightarrow> AlertRow \<Rightarrow> AlertRow" where
  "fold_into a now r = r\<lparr>al_lastAt := toISOString now, al_count := al_count r + 1, al_detailJson := ai_detailJson a\<rparr>"

definition new_alert :: "AlertInput \<Rightarrow> nat \<Rightarrow> nat \<Rightarrow> AlertRow" where
  "new_alert a now i =
     \<lparr>al_id = i, al_firstAt = toISOString now, al_lastAt = toISOString now, al_severity = ai_severity a, al_source = ai_source a,
      al_title = ai_title a, al_detailJson = ai_detailJson a, al_agent = ai_agent a, al_ticket = ai_ticket a,
      al_dedupKey = alert_key a, al_count = 1, al_pushedAt = None, al_pushedVia = None, al_ackedAt = None\<rparr>"

definition burst_running :: "int \<Rightarrow> nat \<Rightarrow> AlertRow \<Rightarrow> bool" where
  "burst_running suppressWindowMs now r =
     (case getTime (al_firstAt r) of None \<Rightarrow> False | Some t \<Rightarrow> int now - t < suppressWindowMs)"

definition record_alert :: "AlertInput \<Rightarrow> int \<Rightarrow> nat \<Rightarrow> AlertStore \<Rightarrow> RecordResult \<times> AlertStore" where
  "record_alert a suppressWindowMs now s =
     (let prior = latest_burst (alert_key a) s; row = new_alert a now (Suc (as_seq s)) in
      case prior of
        Some r \<Rightarrow>
          if burst_running suppressWindowMs now r
          then (\<lparr>rr_row = fold_into a now r, rr_suppressed = True, rr_priorBurstCount = None\<rparr>,
                upd_alert (al_id r) (fold_into a now) s)
          else (\<lparr>rr_row = row, rr_suppressed = False, rr_priorBurstCount = (if 1 < al_count r then Some (al_count r) else None)\<rparr>,
                \<lparr>as_rows = as_rows s @ [row], as_seq = Suc (as_seq s)\<rparr>)
      | None \<Rightarrow> (\<lparr>rr_row = row, rr_suppressed = False, rr_priorBurstCount = None\<rparr>,
                 \<lparr>as_rows = as_rows s @ [row], as_seq = Suc (as_seq s)\<rparr>))"

definition markPushed :: "nat \<Rightarrow> nat \<Rightarrow> string option \<Rightarrow> AlertStore \<Rightarrow> AlertStore" where
  "markPushed i now via s = upd_alert i (\<lambda>r. r\<lparr>al_pushedAt := Some (toISOString now), al_pushedVia := via\<rparr>) s"

definition ack :: "nat \<Rightarrow> nat \<Rightarrow> AlertStore \<Rightarrow> bool \<times> AlertStore" where
  "ack i now s =
     (\<exists>r \<in> set (as_rows s). al_id r = i \<and> al_ackedAt r = None,
      s\<lparr>as_rows := map (\<lambda>r. if al_id r = i \<and> al_ackedAt r = None then r\<lparr>al_ackedAt := Some (toISOString now)\<rparr> else r) (as_rows s)\<rparr>)"

record AlertQuery =
  aq_severity :: "AlertSeverity option"
  aq_source :: "string option"
  aq_agent :: "string option"
  aq_ticket :: "string option"
  aq_unackedOnly :: bool
  aq_since :: "string option"
  aq_limit :: "int option"

definition query_limit :: "int option \<Rightarrow> nat" where
  "query_limit l = nat (min (max (orElse l 100) 1) 1000)"

definition query_match :: "AlertQuery \<Rightarrow> AlertRow \<Rightarrow> bool" where
  "query_match q r \<longleftrightarrow>
     (case aq_severity q of None \<Rightarrow> True | Some v \<Rightarrow> al_severity r = v) \<and>
     (truthy (aq_source q) \<longrightarrow> Some (al_source r) = aq_source q) \<and>
     (truthy (aq_agent q) \<longrightarrow> al_agent r = aq_agent q) \<and>
     (truthy (aq_ticket q) \<longrightarrow> al_ticket r = aq_ticket q) \<and>
     (aq_unackedOnly q \<longrightarrow> al_ackedAt r = None) \<and>
     (truthy (aq_since q) \<longrightarrow> the (aq_since q) \<le> al_lastAt r)"

text \<open>Newest first; the database leaves the order of rows with the same time open.\<close>

definition query_alerts :: "AlertQuery \<Rightarrow> AlertStore \<Rightarrow> AlertRow list" where
  "query_alerts q s =
     take (query_limit (aq_limit q)) (rev (sort_key al_lastAt (rev (filter (query_match q) (as_rows s)))))"

record AlertCluster =
  ac_source :: string
  ac_dedupKey :: string
  ac_agent :: "string option"
  ac_count :: nat
  ac_exceeds :: bool
  ac_firstAt :: string
  ac_lastAt :: string

type_synonym cluster_key = "string \<times> string \<times> string option"

definition cluster_key :: "AlertRow \<Rightarrow> cluster_key" where
  "cluster_key r = (al_source r, al_dedupKey r, al_agent r)"

definition in_range :: "string option \<Rightarrow> string option \<Rightarrow> AlertRow \<Rightarrow> bool" where
  "in_range since until r \<longleftrightarrow>
     (truthy since \<longrightarrow> the since \<le> al_lastAt r) \<and> (truthy until \<longrightarrow> al_lastAt r \<le> the until)"

definition cluster_of :: "AlertRow list \<Rightarrow> int option \<Rightarrow> cluster_key \<Rightarrow> AlertCluster" where
  "cluster_of rows limit k =
     (let g = filter (\<lambda>r. cluster_key r = k) rows; total = sum_list (map al_count g)
      in \<lparr>ac_source = fst k, ac_dedupKey = fst (snd k), ac_agent = snd (snd k), ac_count = total,
          ac_exceeds = (case limit of None \<Rightarrow> False | Some t \<Rightarrow> t \<le> int total),
          ac_firstAt = fold min (map al_firstAt g) (al_firstAt (hd g)), ac_lastAt = fold max (map al_lastAt g) (al_lastAt (hd g))\<rparr>)"

definition clusters :: "string option \<Rightarrow> string option \<Rightarrow> int option \<Rightarrow> int option \<Rightarrow> AlertStore \<Rightarrow> AlertCluster list" where
  "clusters since until limit cap s =
     (let rows = filter (in_range since until) (as_rows s);
          cs = rev (sort_key ac_count (map (cluster_of rows limit) (unique (map cluster_key rows))))
      in case cap of Some n \<Rightarrow> if 0 < n then take (nat n) cs else cs | None \<Rightarrow> cs)"

subsection \<open>The bus\<close>

definition SUPPRESS_WINDOW_MS :: "AlertSeverity \<Rightarrow> int" where
  "SUPPRESS_WINDOW_MS v = (case v of Critical \<Rightarrow> 15 * 60000 | Warning \<Rightarrow> 60 * 60000 | Info \<Rightarrow> 6 * 60 * 60000)"

definition PUSH_BUDGET_WINDOW_MS :: int where "PUSH_BUDGET_WINDOW_MS = 15 * 60000"

definition SEVERITY_RANK :: "AlertSeverity \<Rightarrow> nat" where
  "SEVERITY_RANK v = (case v of Info \<Rightarrow> 0 | Warning \<Rightarrow> 1 | Critical \<Rightarrow> 2)"

definition envBool :: "string option \<Rightarrow> bool \<Rightarrow> bool" where
  "envBool raw fallback =
     (case raw of None \<Rightarrow> fallback
      | Some r \<Rightarrow> if r = [] then fallback else toLowerCase r \<notin> {''0'', ''false'', ''no'', ''off''})"

definition envSeverity :: "string option \<Rightarrow> AlertSeverity \<Rightarrow> AlertSeverity" where
  "envSeverity raw fallback =
     (let r = toLowerCase (orElse raw []) in
      if r = ''info'' then Info else if r = ''warning'' then Warning else if r = ''critical'' then Critical else fallback)"

text \<open>The budget is \<open>None\<close> when its setting is not a number.\<close>

record AlertBus =
  ab_store :: "AlertStore option"
  ab_pushEnabled :: bool
  ab_pushMinSeverity :: AlertSeverity
  ab_pushBudget :: "int option"
  ab_pushTimestamps :: "int list"
  ab_stormDigestSent :: bool
  ab_suppressedDuringStorm :: nat

definition new_bus :: "AlertStore option \<Rightarrow> bool \<Rightarrow> string option \<Rightarrow> string option \<Rightarrow> string option \<Rightarrow> AlertBus" where
  "new_bus st inTestRun env_enabled env_severity env_budget =
     \<lparr>ab_store = st, ab_pushEnabled = (envBool env_enabled True \<and> \<not> inTestRun),
      ab_pushMinSeverity = envSeverity env_severity Warning, ab_pushBudget = parseInt (orElse env_budget ''10''),
      ab_pushTimestamps = [], ab_stormDigestSent = False, ab_suppressedDuringStorm = 0\<rparr>"

datatype sink_effect =
  Logged AlertSeverity | StoreFailed | StormEnded nat | Pushed AlertInput nat "nat option" "nat option" | DigestPushed

definition is_push :: "sink_effect \<Rightarrow> bool" where "is_push e = (case e of Pushed _ _ _ _ \<Rightarrow> True | _ \<Rightarrow> False)"

definition spent :: "int option \<Rightarrow> nat \<Rightarrow> bool" where
  "spent budget k = (case budget of None \<Rightarrow> False | Some n \<Rightarrow> n \<le> int k)"

text \<open>The second part of a notification: an alert that was not folded into a burst.\<close>

definition push_alert :: "AlertInput \<Rightarrow> nat \<Rightarrow> nat option \<Rightarrow> nat option \<Rightarrow> int \<Rightarrow> AlertBus \<Rightarrow> sink_effect list \<times> AlertBus" where
  "push_alert a burstCount priorBurstCount rowId nowMs b0 =
     (let b = b0\<lparr>ab_pushTimestamps := filter (\<lambda>t. nowMs - t < PUSH_BUDGET_WINDOW_MS) (ab_pushTimestamps b0)\<rparr> in
      if spent (ab_pushBudget b) (length (ab_pushTimestamps b))
      then (if ab_stormDigestSent b then [] else [DigestPushed],
            b\<lparr>ab_suppressedDuringStorm := ab_suppressedDuringStorm b + 1, ab_stormDigestSent := True\<rparr>)
      else ((if ab_stormDigestSent b \<and> 0 < ab_suppressedDuringStorm b then [StormEnded (ab_suppressedDuringStorm b)] else []) @
              [Pushed a burstCount priorBurstCount rowId],
            b\<lparr>ab_suppressedDuringStorm := (if ab_stormDigestSent b then 0 else ab_suppressedDuringStorm b),
              ab_stormDigestSent := False, ab_pushTimestamps := ab_pushTimestamps b @ [nowMs]\<rparr>))"

text \<open>\<open>broken\<close>: the write of the store throws. The clock is read once for the row and once for the push.\<close>

definition notify :: "AlertInput \<Rightarrow> bool \<Rightarrow> nat \<Rightarrow> int \<Rightarrow> AlertBus \<Rightarrow> sink_effect list \<times> AlertBus" where
  "notify a broken now nowMs b =
     (let windowMs = orElse (ai_suppressWindowMs a) (SUPPRESS_WINDOW_MS (ai_severity a));
          (suppressed, burstCount, prior, rowId, b', failed) =
            (case ab_store b of
               None \<Rightarrow> (False, 1, None, None, b, [])
             | Some st \<Rightarrow>
                 if broken then (False, 1, None, None, b, [StoreFailed])
                 else let (r, st') = record_alert a windowMs now st
                   in (rr_suppressed r, al_count (rr_row r), rr_priorBurstCount r, Some (al_id (rr_row r)), b\<lparr>ab_store := Some st'\<rparr>, []));
          logs = Logged (ai_severity a) # failed in
      if suppressed then (logs, b')
      else if \<not> ab_pushEnabled b' then (logs, b')
      else if SEVERITY_RANK (ai_severity a) < SEVERITY_RANK (ab_pushMinSeverity b') then (logs, b')
      else let (out, b'') = push_alert a burstCount prior rowId nowMs b' in (logs @ out, b''))"

subsection \<open>The transports\<close>

record Transport =
  tp_name :: string
  tp_available :: bool
  tp_sends :: bool

datatype transport_error = NotConfigured string | SendFailed string

primrec sendThroughChain :: "Transport list \<Rightarrow> transport_error list + string" where
  "sendThroughChain [] = Inl []"
| "sendThroughChain (t # ts) =
     (if tp_available t \<and> tp_sends t then Inr (tp_name t)
      else case sendThroughChain ts of
        Inr n \<Rightarrow> Inr n
      | Inl es \<Rightarrow> Inl ((if tp_available t then SendFailed (tp_name t) else NotConfigured (tp_name t)) # es))"

text \<open>When a transport took the push, its row is marked; an error is only logged.\<close>

definition push_answered :: "transport_error list + string \<Rightarrow> nat option \<Rightarrow> nat \<Rightarrow> AlertBus \<Rightarrow> AlertBus" where
  "push_answered answer rowId now b =
     (case (answer, rowId, ab_store b) of
        (Inr via, Some i, Some st) \<Rightarrow> b\<lparr>ab_store := Some (markPushed i now (Some via) st)\<rparr>
      | _ \<Rightarrow> b)"

lemma first_transport:
  "sendThroughChain ts = (case List.find (\<lambda>t. tp_available t \<and> tp_sends t) ts of
     Some t \<Rightarrow> Inr (tp_name t)
   | None \<Rightarrow> Inl (map (\<lambda>t. if tp_available t then SendFailed (tp_name t) else NotConfigured (tp_name t)) ts))"
  by (induction ts) (auto split: option.splits)

subsection \<open>The push budget\<close>

type_synonym notification = "AlertInput \<times> bool \<times> nat \<times> int"

definition notification_ms :: "notification \<Rightarrow> int" where "notification_ms e = snd (snd (snd e))"

definition notify_one :: "notification \<Rightarrow> AlertBus \<Rightarrow> sink_effect list \<times> AlertBus" where
  "notify_one e b = (case e of (a, broken, now, nowMs) \<Rightarrow> notify a broken now nowMs b)"

fun notify_all :: "notification list \<Rightarrow> AlertBus \<Rightarrow> sink_effect list \<times> AlertBus" where
  "notify_all [] b = ([], b)"
| "notify_all (e # es) b = (let (out, b') = notify_one e b; (out', b'') = notify_all es b' in (out @ out', b''))"

definition pushes :: "sink_effect list \<Rightarrow> nat" where "pushes out = length (filter is_push out)"
definition digests :: "sink_effect list \<Rightarrow> nat" where "digests out = count_list out DigestPushed"

lemma push_counts [simp]:
  "pushes [] = 0" "digests [] = 0" "pushes (xs @ ys) = pushes xs + pushes ys" "digests (xs @ ys) = digests xs + digests ys"
  by (simp_all add: pushes_def digests_def count_list_append)

definition recent :: "int \<Rightarrow> AlertBus \<Rightarrow> int list" where
  "recent ms b = filter (\<lambda>t. ms - t < PUSH_BUDGET_WINDOW_MS) (ab_pushTimestamps b)"

definition exhausted :: "int \<Rightarrow> AlertBus \<Rightarrow> bool" where
  "exhausted ms b = spent (ab_pushBudget b) (length (recent ms b))"

text \<open>A notification pushes nothing, or hits the exhausted budget, or pushes and uses it.\<close>

lemma push_alert_cases:
  assumes "push_alert a c p r ms b = (out, b')"
  shows "ab_pushBudget b' = ab_pushBudget b \<and>
    (exhausted ms b \<and> pushes out = 0 \<and> digests out = (if ab_stormDigestSent b then 0 else 1) \<and>
       ab_pushTimestamps b' = recent ms b \<and> ab_stormDigestSent b' \<or>
     \<not> exhausted ms b \<and> pushes out = 1 \<and> digests out = 0 \<and> ab_pushTimestamps b' = recent ms b @ [ms] \<and> \<not> ab_stormDigestSent b')"
  using assms
  by (auto simp: push_alert_def Let_def exhausted_def recent_def pushes_def digests_def is_push_def split: if_splits)

lemma notify_shape:
  "\<exists>logs st. pushes logs = 0 \<and> digests logs = 0 \<and>
     (notify a broken now ms b = (logs, b\<lparr>ab_store := st\<rparr>) \<or>
      (\<exists>c p r. notify a broken now ms b =
         (logs @ fst (push_alert a c p r ms (b\<lparr>ab_store := st\<rparr>)), snd (push_alert a c p r ms (b\<lparr>ab_store := st\<rparr>)))))"
proof -
  have log: "pushes [Logged v] = 0" "digests [Logged v] = 0" "pushes [Logged v, StoreFailed] = 0" "digests [Logged v, StoreFailed] = 0"
    for v by (simp_all add: pushes_def digests_def is_push_def)
  have same: "b\<lparr>ab_store := ab_store b\<rparr> = b" by simp
  show ?thesis
  proof (cases "ab_store b")
    case None
    show ?thesis
      by (rule exI [of _ "[Logged (ai_severity a)]"], rule exI [of _ "ab_store b"], unfold same)
        (auto simp: notify_def Let_def None log case_prod_beta)
  next
    case (Some s)
    show ?thesis
    proof (cases broken)
      case True
      show ?thesis
        by (rule exI [of _ "[Logged (ai_severity a), StoreFailed]"], rule exI [of _ "ab_store b"], unfold same)
          (auto simp: notify_def Let_def Some True log case_prod_beta)
    next
      case False
      show ?thesis
        by (rule exI [of _ "[Logged (ai_severity a)]"],
            rule exI [of _ "Some (snd (record_alert a (orElse (ai_suppressWindowMs a) (SUPPRESS_WINDOW_MS (ai_severity a))) now s))"])
          (auto simp: notify_def Let_def Some False log case_prod_beta)
    qed
  qed
qed

lemma notify_cases:
  assumes "notify_one e b = (out, b')"
  shows "ab_pushBudget b' = ab_pushBudget b \<and>
    (pushes out = 0 \<and> digests out = 0 \<and> ab_pushTimestamps b' = ab_pushTimestamps b \<and> ab_stormDigestSent b' = ab_stormDigestSent b \<or>
     exhausted (notification_ms e) b \<and> pushes out = 0 \<and> digests out = (if ab_stormDigestSent b then 0 else 1) \<and>
       ab_pushTimestamps b' = recent (notification_ms e) b \<and> ab_stormDigestSent b' \<or>
     \<not> exhausted (notification_ms e) b \<and> pushes out = 1 \<and> digests out = 0 \<and>
       ab_pushTimestamps b' = recent (notification_ms e) b @ [notification_ms e] \<and> \<not> ab_stormDigestSent b')"
proof -
  obtain a broken now ms where e: "e = (a, broken, now, ms)" by (cases e)
  have st: "exhausted ms (b\<lparr>ab_store := st\<rparr>) = exhausted ms b" "recent ms (b\<lparr>ab_store := st\<rparr>) = recent ms b" for st
    by (simp_all add: exhausted_def recent_def)
  have call: "notify a broken now ms b = (out, b')" using assms by (simp add: e notify_one_def)
  obtain logs st where l: "pushes logs = 0" "digests logs = 0"
    "notify a broken now ms b = (logs, b\<lparr>ab_store := st\<rparr>) \<or>
      (\<exists>c p r. notify a broken now ms b =
         (logs @ fst (push_alert a c p r ms (b\<lparr>ab_store := st\<rparr>)), snd (push_alert a c p r ms (b\<lparr>ab_store := st\<rparr>))))"
    using notify_shape by blast
  from l(3) show ?thesis
  proof (elim disjE exE)
    assume "notify a broken now ms b = (logs, b\<lparr>ab_store := st\<rparr>)"
    then show ?thesis using call l(1,2) by simp
  next
    fix c p r
    assume n: "notify a broken now ms b =
         (logs @ fst (push_alert a c p r ms (b\<lparr>ab_store := st\<rparr>)), snd (push_alert a c p r ms (b\<lparr>ab_store := st\<rparr>)))"
    obtain o1 b1 where q: "push_alert a c p r ms (b\<lparr>ab_store := st\<rparr>) = (o1, b1)" by (cases "push_alert a c p r ms (b\<lparr>ab_store := st\<rparr>)")
    have ob: "out = logs @ o1" "b' = b1" using n call q by simp_all
    show ?thesis using push_alert_cases [OF q] l(1,2) unfolding ob e notification_ms_def st by simp
  qed
qed

lemma filter_less: "length (filter P (filter Q xs)) \<le> length (filter P xs)"
  by (induction xs) auto

lemma pushes_bounded:
  assumes "ab_pushBudget b = Some (int n)"
    and "\<And>e f. e \<in> set es \<Longrightarrow> f \<in> set es \<Longrightarrow> notification_ms e - notification_ms f < PUSH_BUDGET_WINDOW_MS"
  shows "pushes (fst (notify_all es b)) +
    min (length (filter (\<lambda>t. \<forall>e \<in> set es. notification_ms e - t < PUSH_BUDGET_WINDOW_MS) (ab_pushTimestamps b))) n \<le> n"
  using assms
proof (induction es arbitrary: b)
  case (Cons e es)
  let ?kept = "\<lambda>es ts. length (filter (\<lambda>t. \<forall>e \<in> set es. notification_ms e - t < PUSH_BUDGET_WINDOW_MS) ts)"
  let ?ms = "notification_ms e"
  obtain out b' where o: "notify_one e b = (out, b')" by (cases "notify_one e b")
  note c = notify_cases [OF o]
  have IH: "pushes (fst (notify_all es b')) + min (?kept es (ab_pushTimestamps b')) n \<le> n"
    using Cons.prems c by (intro Cons.IH) auto
  have total: "pushes (fst (notify_all (e # es) b)) = pushes out + pushes (fst (notify_all es b'))"
    by (simp add: o case_prod_beta)
  have step: "?kept (e # es) (ab_pushTimestamps b) = ?kept es (recent ?ms b)"
    by (simp add: recent_def conj_commute)
  have loose: "?kept es (recent ?ms b) \<le> ?kept es (ab_pushTimestamps b)"
    unfolding recent_def by (rule filter_less)
  from c have "pushes out = 0 \<and> ab_pushTimestamps b' = ab_pushTimestamps b \<or>
      pushes out = 0 \<and> ab_pushTimestamps b' = recent ?ms b \<or>
      \<not> exhausted ?ms b \<and> pushes out = 1 \<and> ab_pushTimestamps b' = recent ?ms b @ [?ms]"
    by (elim conjE disjE) simp_all
  then show ?case
  proof (elim disjE conjE)
    assume "pushes out = 0" "ab_pushTimestamps b' = ab_pushTimestamps b"
    then show ?thesis using IH loose unfolding total step by (auto simp: min_def split: if_splits)
  next
    assume "pushes out = 0" "ab_pushTimestamps b' = recent ?ms b"
    then show ?thesis using IH unfolding total step by simp
  next
    assume h: "\<not> exhausted ?ms b" "pushes out = 1" "ab_pushTimestamps b' = recent ?ms b @ [?ms]"
    have room: "length (recent ?ms b) < n" using h(1) Cons.prems(1) by (simp add: exhausted_def spent_def)
    have "?kept es (recent ?ms b) \<le> length (recent ?ms b)" by simp
    moreover have "?kept es (ab_pushTimestamps b') = Suc (?kept es (recent ?ms b))"
      using h(3) Cons.prems(2) by simp
    ultimately show ?thesis using IH h(2) room unfolding total step by linarith
  qed
qed simp

lemma digests_bounded:
  "digests (fst (notify_all es b)) \<le> pushes (fst (notify_all es b)) + (if ab_stormDigestSent b then 0 else 1)"
proof (induction es arbitrary: b)
  case (Cons e es)
  obtain out b' where o: "notify_one e b = (out, b')" by (cases "notify_one e b")
  show ?case using Cons [of b'] notify_cases [OF o] by (auto simp: o case_prod_beta split: if_splits)
qed simp

text \<open>
  C35: Whatever the bus went through before, of the notifications that fall within one budget window at most as many
  are pushed as the budget says, and at most one storm digest more than that.
\<close>

theorem pushes_stay_within_budget:
  assumes "ab_pushBudget b = Some (int n)"
    and "\<And>e f. e \<in> set es \<Longrightarrow> f \<in> set es \<Longrightarrow> notification_ms e - notification_ms f < PUSH_BUDGET_WINDOW_MS"
  shows "pushes (fst (notify_all es b)) \<le> n \<and> digests (fst (notify_all es b)) \<le> pushes (fst (notify_all es b)) + 1"
proof
  show "pushes (fst (notify_all es b)) \<le> n" using pushes_bounded [of b n es, OF assms] by linarith
  show "digests (fst (notify_all es b)) \<le> pushes (fst (notify_all es b)) + 1"
    using digests_bounded [of es b] by (simp split: if_splits)
qed

text \<open>Without a readable budget there is no storm control at all.\<close>

lemma unreadable_budget_never_stops: "ab_pushBudget b = None \<Longrightarrow> digests (fst (notify_all es b)) = 0"
proof (induction es arbitrary: b)
  case (Cons e es)
  obtain out b' where o: "notify_one e b = (out, b')" by (cases "notify_one e b")
  show ?case using Cons notify_cases [OF o] by (auto simp: o case_prod_beta exhausted_def spent_def)
qed simp

subsection \<open>Nothing is lost\<close>

text \<open>How often a dedup identity was recorded, over all its bursts.\<close>

definition recorded :: "string \<Rightarrow> AlertStore \<Rightarrow> nat" where
  "recorded k s = sum_list (map al_count (filter (\<lambda>r. al_dedupKey r = k) (as_rows s)))"

definition store_ok :: "AlertStore \<Rightarrow> bool" where
  "store_ok s \<longleftrightarrow> distinct (map al_id (as_rows s)) \<and> (\<forall>r \<in> set (as_rows s). al_id r \<le> as_seq s)"

lemma latest_in: "latest_burst k s = Some r \<Longrightarrow> r \<in> set (as_rows s) \<and> al_dedupKey r = k"
proof -
  assume l: "latest_burst k s = Some r"
  let ?rs = "filter (\<lambda>r. al_dedupKey r = k) (as_rows s)"
  have "?rs \<noteq> []" "r = last ?rs" using l by (auto simp: latest_burst_def split: list.splits)
  then have "r \<in> set ?rs" using last_in_set by blast
  then show ?thesis by simp
qed

lemma upd_alert_ids: "(\<And>r. al_id (f r) = al_id r) \<Longrightarrow> map al_id (as_rows (upd_alert i f s)) = map al_id (as_rows s)"
  by (simp add: upd_alert_def)

lemma record_ok: "store_ok s \<Longrightarrow> store_ok (snd (record_alert a w now s))"
proof -
  assume ok: "store_ok s"
  have upd: "store_ok (upd_alert i (fold_into a now) s)" for i
  proof -
    have "map al_id (as_rows (upd_alert i (fold_into a now) s)) = map al_id (as_rows s)"
      by (rule upd_alert_ids) (simp add: fold_into_def)
    then show ?thesis using ok unfolding store_ok_def by (auto simp: upd_alert_def fold_into_def simp del: map_map)
  qed
  have new: "store_ok \<lparr>as_rows = as_rows s @ [new_alert a now (Suc (as_seq s))], as_seq = Suc (as_seq s)\<rparr>"
    using ok by (force simp: store_ok_def new_alert_def)
  show ?thesis using upd new by (auto simp: record_alert_def Let_def split: option.split)
qed

lemma count_one_more:
  assumes "distinct (map al_id rs)" "r \<in> set rs"
  shows "sum_list (map al_count (filter (\<lambda>x. al_dedupKey x = k) (map (\<lambda>x. if al_id x = al_id r then fold_into a now x else x) rs))) =
    sum_list (map al_count (filter (\<lambda>x. al_dedupKey x = k) rs)) + (if al_dedupKey r = k then 1 else 0)"
  using assms
proof (induction rs)
  case (Cons x rs)
  show ?case
  proof (cases "x = r")
    case True
    then have "map (\<lambda>x. if al_id x = al_id r then fold_into a now x else x) rs = rs"
      using Cons.prems(1) by (intro map_idI) (force simp: image_iff)
    then show ?thesis using True by (simp add: fold_into_def)
  next
    case False
    then have "al_id x \<noteq> al_id r" using Cons.prems by auto
    then show ?thesis using Cons False by simp
  qed
qed simp

lemma recorded_once:
  assumes "store_ok s"
  shows "recorded k (snd (record_alert a w now s)) = recorded k s + (if alert_key a = k then 1 else 0)"
proof -
  have new: "recorded k \<lparr>as_rows = as_rows s @ [new_alert a now i], as_seq = j\<rparr> = recorded k s + (if alert_key a = k then 1 else 0)" for i j
    by (simp add: recorded_def new_alert_def)
  show ?thesis
  proof (cases "latest_burst (alert_key a) s")
    case None
    then show ?thesis using new by (simp add: record_alert_def Let_def)
  next
    case (Some r)
    then have r: "r \<in> set (as_rows s)" "al_dedupKey r = alert_key a" using latest_in by blast+
    have "recorded k (upd_alert (al_id r) (fold_into a now) s) = recorded k s + (if alert_key a = k then 1 else 0)"
      using count_one_more [of "as_rows s" r k a now] r assms by (simp add: recorded_def upd_alert_def store_ok_def)
    then show ?thesis using Some new by (simp add: record_alert_def Let_def)
  qed
qed

definition bus_recorded :: "string \<Rightarrow> AlertBus \<Rightarrow> nat" where
  "bus_recorded k b = (case ab_store b of None \<Rightarrow> 0 | Some s \<Rightarrow> recorded k s)"

lemma push_keeps_store: "ab_store (snd (push_alert a c p r ms b)) = ab_store b"
  by (simp add: push_alert_def Let_def)

lemma notify_store:
  "ab_store (snd (notify a broken now ms b)) =
     (case ab_store b of None \<Rightarrow> None
      | Some s \<Rightarrow> Some (if broken then s
          else snd (record_alert a (orElse (ai_suppressWindowMs a) (SUPPRESS_WINDOW_MS (ai_severity a))) now s)))"
  by (cases "ab_store b"; cases broken) (simp_all add: notify_def Let_def case_prod_beta push_keeps_store)


subsection \<open>Examples\<close>

definition sample_alert :: "AlertSeverity \<Rightarrow> string \<Rightarrow> AlertInput" where
  "sample_alert v title = \<lparr>ai_severity = v, ai_source = ''dispatch'', ai_title = title, ai_detailJson = ''{}'', ai_agent = None,
     ai_ticket = Some ''AI-1'', ai_dedupKey = None, ai_suppressWindowMs = None\<rparr>"

definition sample_bus :: AlertBus where
  "sample_bus = (new_bus (Some \<lparr>as_rows = [], as_seq = 0\<rparr>) False None None None)\<lparr>ab_pushBudget := Some 1\<rparr>"

definition sample_storm :: "notification list" where
  "sample_storm = [(sample_alert Warning ''a'', False, 1000, 1000), (sample_alert Warning ''b'', False, 2000, 2000),
     (sample_alert Critical ''c'', False, 3000, 3000)]"

theorem pushes_stay_within_budget_witness: "pushes (fst (notify_all sample_storm sample_bus)) \<le> 1"
proof -
  have b: "ab_pushBudget sample_bus = Some (int 1)" by (simp add: sample_bus_def)
  have w: "notification_ms e - notification_ms f < PUSH_BUDGET_WINDOW_MS"
    if "e \<in> set sample_storm" "f \<in> set sample_storm" for e f
    using that by (auto simp: sample_storm_def notification_ms_def PUSH_BUDGET_WINDOW_MS_def)
  show ?thesis by (rule pushes_stay_within_budget [OF b w, THEN conjunct1])
qed


text \<open>
  With a budget of one, three pushes fall within one window: the digest is said to be the last push until the
  window frees, but every freed place lets one alert and one more digest through.
\<close>

lemma digest_after_every_freed_place:
  "(let b = sample_bus\<lparr>ab_store := None\<rparr>;
        out = (\<lambda>ms. (sample_alert Warning ''x'', False, 0, ms));
        b1 = snd (notify_all [out 0] b)
    in (pushes (fst (notify_all [out 1000, out 900000, out 900500] b1)),
        digests (fst (notify_all [out 1000, out 900000, out 900500] b1)))) = (1, 2)"
  by code_simp

text \<open>
  The identity of an alert does not include its severity: a critical alert that follows the same alert at a lower
  severity is folded into its burst, is not pushed, and the row keeps the lower severity.
\<close>

lemma raised_severity_is_swallowed:
  assumes "latest_burst (alert_key a) st = Some r" "burst_running (orElse (ai_suppressWindowMs a) (SUPPRESS_WINDOW_MS (ai_severity a))) now r"
    and "ab_store b = Some st"
  shows "fst (notify a False now ms b) = [Logged (ai_severity a)]"
    "al_severity (rr_row (fst (record_alert a (orElse (ai_suppressWindowMs a) (SUPPRESS_WINDOW_MS (ai_severity a))) now st))) = al_severity r"
  using assms by (simp_all add: notify_def record_alert_def Let_def fold_into_def)

end
