(* ===== verification/RawMutation.thy ===== *)
theory RawMutation
  imports GateBase DelegateChoice
begin

text \<open>
  \<open>checkRawMutationInterception\<close> of \<open>src/workflow-gate.ts\<close>: what an agent may write on a governed ticket
  without naming a workflow command. The body of the request is its query text and its variables; the answers
  read on the way are in \<open>RawWorld\<close>. A refusal carries its reason, the texts are not modelled. A role that
  needs a scope throws.
\<close>

record RawRequest =
  rq_query :: "string option"
  rq_variables :: yaml
  rq_issueId :: "string option"
  rq_body :: "string option"
  rq_caller :: "string option"
  rq_skipCommentCreate :: bool
  rq_skipLabelFields :: bool
  rq_skipTransitionFields :: bool

text \<open>
  The field \<open>recovery_actor\<close> of a definition, as written; the caller's last comment (the outer \<open>None\<close>
  when it cannot be read).
\<close>

record RawWorld =
  rw_context :: "ContextAnswer option"
  rw_policy :: CapabilityPolicy
  rw_registry :: "(string \<Rightarrow> WorkflowDef option) option"
  rw_recovery_actor :: "string \<Rightarrow> yaml"
  rw_lastComment :: "string option option"

datatype raw_reason =
    IssueUnresolved | RawUnknownCaller | ClearBlocked | VerdictMissing string | CallerUnverified | NotTheDelegate
  | MayNotEstablish string string | RawStateUnknown "string option list" | DefunctState string | FieldsBlocked "string list" string

datatype raw_verdict = RawPass | RawBlock raw_reason | RawThrows role_error

subsection \<open>What a request touches\<close>

fun varsHaveKey :: "string \<Rightarrow> yaml \<Rightarrow> bool" where
  "varsHaveKey key (Seq vs) = (\<exists>v \<in> set vs. varsHaveKey key v)"
| "varsHaveKey key (Mapping m) = (\<exists>e \<in> set m. fst e = key \<or> varsHaveKey key (snd e))"
| "varsHaveKey key v = False"

fun varsHaveNullField :: "string \<Rightarrow> yaml \<Rightarrow> bool" where
  "varsHaveNullField key (Seq vs) = (\<exists>v \<in> set vs. varsHaveNullField key v)"
| "varsHaveNullField key (Mapping m) = (\<exists>e \<in> set m. fst e = key \<and> snd e = Null \<or> varsHaveNullField key (snd e))"
| "varsHaveNullField key v = False"

definition raw_query :: "RawRequest \<Rightarrow> string" where
  "raw_query r = orElse (rq_query r) []"

definition touches :: "RawRequest \<Rightarrow> string \<Rightarrow> bool" where
  "touches r field = (occurs_in (cat [WordBoundary, Lit field, WordBoundary]) (raw_query r) \<or> varsHaveKey field (rq_variables r))"

definition hasStateChange :: "RawRequest \<Rightarrow> bool" where
  "hasStateChange r = (\<not> rq_skipTransitionFields r \<and> touches r ''stateId'')"

definition hasAssigneeChange :: "RawRequest \<Rightarrow> bool" where
  "hasAssigneeChange r = (\<not> rq_skipTransitionFields r \<and> touches r ''assigneeId'')"

definition hasLabelChange :: "RawRequest \<Rightarrow> bool" where
  "hasLabelChange r = (\<not> rq_skipLabelFields r \<and> (touches r ''labelIds'' \<or> touches r ''addedLabelIds'' \<or> touches r ''removedLabelIds''))"

definition hasDelegateChange :: "RawRequest \<Rightarrow> bool" where
  "hasDelegateChange r = (\<not> rq_skipTransitionFields r \<and> touches r ''delegateId'')"

definition null_literal :: rx where
  "null_literal = cat [WordBoundary, Lit ''delegateId'', spaces, Lit '':'', spaces, Lit ''null'', WordBoundary]"

definition isClearingDelegate :: "RawRequest \<Rightarrow> bool" where
  "isClearingDelegate r = (hasDelegateChange r \<and>
     (varsHaveNullField ''delegateId'' (rq_variables r) \<or> occurs_in null_literal (raw_query r)))"

definition changedFields :: "RawRequest \<Rightarrow> string list" where
  "changedFields r =
     (if hasStateChange r then [''status''] else []) @ (if hasAssigneeChange r then [''assignee''] else []) @
     (if hasLabelChange r then [''labels''] else []) @ (if hasDelegateChange r then [''delegate''] else [])"

subsection \<open>A change of the delegate alone\<close>

text \<open>The current delegate routes the ticket on; a state that asks for feedback asks for a comment first.\<close>

definition delegate_reroutes :: "RawWorld \<Rightarrow> WorkflowDef \<Rightarrow> string list \<Rightarrow> RawRequest \<Rightarrow> raw_verdict" where
  "delegate_reroutes w def labels r =
     (if isClearingDelegate r then RawBlock ClearBlocked
      else let stateId = getCurrentState labels None; stateNode = stateNodeById def stateId;
             feedback = (case stateNode of None \<Rightarrow> False | Some s \<Rightarrow> \<exists>t \<in> set (s_transitions s). t_feedback_required t)
        in if truthy stateId \<and> feedback \<and> truthy (rq_caller r) \<and> rw_lastComment w = Some None
           then RawBlock (VerdictMissing (the stateId)) else RawPass)"

definition recoveryActors :: "yaml \<Rightarrow> yaml list" where
  "recoveryActors v = (case v of Seq vs \<Rightarrow> vs
     | _ \<Rightarrow> if v \<in> {Undefined, Null, YBool False, YNum 0, YNaN, Str []} then [] else [v])"

text \<open>The bodies that may give an unheld ticket its first delegate.\<close>

definition establishers :: "CapabilityPolicy \<Rightarrow> WorkflowDef \<Rightarrow> string \<Rightarrow> role_error + string list" where
  "establishers p def ownerRole =
     (case resolveBodiesForOwnerRole p ownerRole def of
        Inl e \<Rightarrow> Inl e
      | Inr bs \<Rightarrow>
          (case Option.bind (d_break_glass def) bg_owner_role of
             None \<Rightarrow> Inr (unique bs)
           | Some stewardRole \<Rightarrow>
               if stewardRole = [] then Inr (unique bs)
               else case resolveBodiesForRole p stewardRole None of
                 Inl e \<Rightarrow> Inl e
               | Inr ss \<Rightarrow> Inr (unique (bs @ ss))))"

definition first_delegate :: "RawWorld \<Rightarrow> WorkflowDef \<Rightarrow> string list \<Rightarrow> RawRequest \<Rightarrow> raw_verdict" where
  "first_delegate w def labels r =
     (let stateId = getCurrentState labels None; node = stateNodeById def stateId in
      if \<not> truthy stateId then RawPass
      else if truthy (rq_body r) \<and> truthy (d_entry_state def) \<and> stateId = d_entry_state def then RawPass
      else if truthy (rq_body r) \<and> Str (the (rq_body r)) \<in> set (recoveryActors (rw_recovery_actor w (d_id def))) then RawPass
      else if \<not> truthy (Option.bind node s_owner_role) then RawPass
      else let ownerRole = the (Option.bind node s_owner_role) in
        case establishers (rw_policy w) def ownerRole of
          Inl e \<Rightarrow> RawThrows e
        | Inr authorized \<Rightarrow>
            if authorized = [] then RawPass
            else if \<not> truthy (rq_body r) \<or> the (rq_body r) \<notin> set authorized
            then RawBlock (MayNotEstablish (the stateId) ownerRole) else RawPass)"

definition delegate_only :: "RawWorld \<Rightarrow> WorkflowDef \<Rightarrow> string list \<Rightarrow> string option \<Rightarrow> RawRequest \<Rightarrow> raw_verdict" where
  "delegate_only w def labels delegateId r =
     (if truthy (rq_caller r) \<and> truthy delegateId \<and> rq_caller r = delegateId then delegate_reroutes w def labels r
      else if \<not> truthy (rq_caller r) \<and> truthy delegateId then RawBlock CallerUnverified
      else if truthy (rq_caller r) \<and> truthy delegateId then RawBlock NotTheDelegate
      else first_delegate w def labels r)"

subsection \<open>The interception\<close>

text \<open>Everything else is refused, with the commands of the state.\<close>

definition blanket :: "RawWorld \<Rightarrow> string \<Rightarrow> WorkflowDef \<Rightarrow> string list \<Rightarrow> RawRequest \<Rightarrow> raw_verdict" where
  "blanket w workflowId def labels r =
     (let stateId = getCurrentState labels None in
      if \<not> truthy stateId
      then RawBlock (RawStateUnknown (unique (concat (map (\<lambda>s. map t_command (s_transitions s)) (d_states def)) @
        [Some (case d_break_glass def of None \<Rightarrow> ''escape'' | Some bg \<Rightarrow> bg_command bg)])))
      else case stateNodeById def stateId of
        None \<Rightarrow> RawBlock (DefunctState (the stateId))
      | Some s \<Rightarrow>
          (case List.find (\<lambda>t. case resolveTransitionTargets (rw_policy w) t def None of Inl e \<Rightarrow> True | Inr x \<Rightarrow> False) (s_transitions s) of
             Some t \<Rightarrow> (case resolveTransitionTargets (rw_policy w) t def None of Inl e \<Rightarrow> RawThrows e | Inr x \<Rightarrow> RawPass)
           | None \<Rightarrow> RawBlock (FieldsBlocked (changedFields r) (the stateId))))"

definition checkRawMutationInterception :: "RawWorld \<Rightarrow> RawRequest option \<Rightarrow> raw_verdict" where
  "checkRawMutationInterception w request =
     (case request of
        None \<Rightarrow> RawPass
      | Some r \<Rightarrow>
          let isIssueUpdate = js_includes ''issueUpdate'' (raw_query r);
              isCommentCreate = (\<not> isIssueUpdate \<and> js_includes ''commentCreate'' (raw_query r)) in
          if \<not> isIssueUpdate \<and> \<not> isCommentCreate then RawPass
          else if rq_skipCommentCreate r \<and> isCommentCreate then RawPass
          else if isCommentCreate then RawPass
          else if \<not> hasStateChange r \<and> \<not> hasAssigneeChange r \<and> \<not> hasLabelChange r \<and> \<not> hasDelegateChange r then RawPass
          else if \<not> truthy (rq_issueId r) then RawBlock IssueUnresolved
          else
            let ctx = fetchTicketContext (rw_context w); labels = tc_labels ctx; delegateId = tc_delegateId ctx;
                workflowId = getWorkflowId labels in
            if \<not> truthy workflowId then RawPass
            else if truthy (rq_body r) \<and> \<not> isBodyKnown (rw_policy w) (the (rq_body r)) then RawBlock RawUnknownCaller
            else case Option.bind (rw_registry w) (\<lambda>reg. reg (the workflowId)) of
              None \<Rightarrow> RawPass
            | Some def \<Rightarrow>
                if isClearingDelegate r \<and> truthy delegateId \<and> \<not> hasStateChange r then RawBlock ClearBlocked
                else if hasDelegateChange r \<and> \<not> hasStateChange r \<and> \<not> hasLabelChange r then delegate_only w def labels delegateId r
                else blanket w (the workflowId) def labels r)"

subsection \<open>What passes on a governed ticket\<close>

lemma blanket_blocks: "blanket w i def labels r \<noteq> RawPass"
  by (auto simp: blanket_def Let_def find_Some_iff split: option.splits sum.splits) (metis old.prod.exhaust sum.exhaust)

definition may_establish :: "RawWorld \<Rightarrow> WorkflowDef \<Rightarrow> string list \<Rightarrow> string option \<Rightarrow> bool" where
  "may_establish w def labels body \<longleftrightarrow>
     (let stateId = getCurrentState labels None; owner = Option.bind (stateNodeById def stateId) s_owner_role in
      \<not> truthy stateId \<or> \<not> truthy owner \<or>
      truthy body \<and>
        (stateId = d_entry_state def \<or> Str (the body) \<in> set (recoveryActors (rw_recovery_actor w (d_id def)))) \<or>
      (\<exists>authorized. establishers (rw_policy w) def (the owner) = Inr authorized \<and>
        (authorized = [] \<or> truthy body \<and> the body \<in> set authorized)))"

lemma first_delegate_pass: "first_delegate w def labels r = RawPass \<Longrightarrow> may_establish w def labels (rq_body r)"
  by (auto simp: first_delegate_def may_establish_def Let_def split: if_splits sum.splits)

lemma reroute_pass:
  "delegate_reroutes w def labels r = RawPass \<Longrightarrow> \<not> isClearingDelegate r"
  by (auto simp: delegate_reroutes_def split: if_splits)

lemma delegate_only_pass:
  assumes "delegate_only w def labels delegateId r = RawPass"
  shows "truthy delegateId \<and> rq_caller r = delegateId \<and> delegate_reroutes w def labels r = RawPass \<or>
    \<not> truthy delegateId \<and> may_establish w def labels (rq_body r)"
  using assms first_delegate_pass by (auto simp: delegate_only_def split: if_splits)

text \<open>
  C9: On a ticket whose registered workflow could be read, an issue update without a workflow command passes only
  if it touches neither the status nor the labels, and the assignee only together with the delegate. A change of
  the delegate passes only from the current delegate, and not as a visible clear; on a ticket nobody
  holds it passes only in a state without an owner role that some body fills, in the entry state, or for a
  recovery actor, a body of the owner role or of the steward's.
\<close>

theorem raw_writes_leave_the_workflow_alone:
  assumes pass: "checkRawMutationInterception w (Some r) = RawPass" and update: "js_includes ''issueUpdate'' (raw_query r)"
    and ctx: "rw_context w = Some c" "truthy (getWorkflowId (ca_labels c))"
    and registered: "Option.bind (rw_registry w) (\<lambda>reg. reg (the (getWorkflowId (ca_labels c)))) = Some def"
  shows "\<not> hasStateChange r \<and> \<not> hasLabelChange r \<and> (hasAssigneeChange r \<longrightarrow> hasDelegateChange r) \<and>
    (hasDelegateChange r \<and> truthy (ca_delegate c) \<longrightarrow> rq_caller r = ca_delegate c \<and> \<not> isClearingDelegate r) \<and>
    (hasDelegateChange r \<and> \<not> truthy (ca_delegate c) \<longrightarrow> may_establish w def (ca_labels c) (rq_body r))"
proof (cases "hasStateChange r \<or> hasAssigneeChange r \<or> hasLabelChange r \<or> hasDelegateChange r")
  case True
  let ?d = "delegate_only w def (ca_labels c) (ca_delegate c) r"
  have i: "truthy (rq_issueId r)" using pass update True by (auto simp: checkRawMutationInterception_def Let_def split: if_splits)
  have call: "(if isClearingDelegate r \<and> truthy (ca_delegate c) \<and> \<not> hasStateChange r then RawBlock ClearBlocked
      else if hasDelegateChange r \<and> \<not> hasStateChange r \<and> \<not> hasLabelChange r then ?d
      else blanket w (the (getWorkflowId (ca_labels c))) def (ca_labels c) r) = RawPass"
    using pass update True i ctx registered
    by (simp add: checkRawMutationInterception_def fetchTicketContext_def Let_def blanket_blocks split: if_split_asm)
  then have only: "hasDelegateChange r \<and> \<not> hasStateChange r \<and> \<not> hasLabelChange r" and d: "?d = RawPass"
    using blanket_blocks by (metis raw_verdict.distinct(1))+
  from delegate_only_pass [OF d] show ?thesis
  proof
    assume "truthy (ca_delegate c) \<and> rq_caller r = ca_delegate c \<and> delegate_reroutes w def (ca_labels c) r = RawPass"
    then show ?thesis using only reroute_pass by blast
  next
    assume "\<not> truthy (ca_delegate c) \<and> may_establish w def (ca_labels c) (rq_body r)"
    then show ?thesis using only by blast
  qed
qed blast

subsection \<open>What the interception does not see\<close>

text \<open>Only a text that names \<open>issueUpdate\<close> is looked at: the service's other mutations of an issue pass.\<close>

lemma other_mutations_pass:
  "\<not> js_includes ''issueUpdate'' (raw_query r) \<Longrightarrow> checkRawMutationInterception w (Some r) = RawPass"
  by (auto simp: checkRawMutationInterception_def Let_def)

lemma label_swap_by_another_mutation:
  "checkRawMutationInterception w (Some \<lparr>rq_query = Some ''mutation { issueRemoveLabel(id: $id, labelId: $l) { success } }'',
     rq_variables = Mapping [(''id'', Str ''AI-1''), (''l'', Str ''state-doing'')], rq_issueId = Some ''AI-1'', rq_body = Some ''igor'',
     rq_caller = Some ''u1'', rq_skipCommentCreate = False, rq_skipLabelFields = False, rq_skipTransitionFields = False\<rparr>) = RawPass"
  by (rule other_mutations_pass) code_simp

text \<open>A ticket whose context cannot be read counts as one without a workflow.\<close>

lemma unreadable_context_passes:
  assumes "rw_context w = None" "truthy (rq_issueId r)"
  shows "checkRawMutationInterception w (Some r) = RawPass"
proof -
  have "getWorkflowId [] = None" by code_simp
  then show ?thesis using assms by (simp add: checkRawMutationInterception_def fetchTicketContext_def Let_def truthy_def)
qed

subsection \<open>Examples\<close>

definition raw_world :: RawWorld where
  "raw_world = \<lparr>rw_context = Some \<lparr>ca_identifier = Some ''AI-1'', ca_labels = [''wf:task'', ''state:merge''], ca_delegate = Some ''u1'',
       ca_state = None\<rparr>,
     rw_policy = sample_policy, rw_registry = Some [''task'' \<mapsto> sample_def [sample_state ''merge'' \<lparr>s_owner_role := Some ''merge''\<rparr>]],
     rw_recovery_actor = (\<lambda>_. Undefined), rw_lastComment = Some None\<rparr>"

definition raw_request :: "string \<Rightarrow> yaml \<Rightarrow> RawRequest" where
  "raw_request query vars = \<lparr>rq_query = Some query, rq_variables = vars, rq_issueId = Some ''AI-1'', rq_body = Some ''hanzo'',
     rq_caller = Some ''u1'', rq_skipCommentCreate = False, rq_skipLabelFields = False, rq_skipTransitionFields = False\<rparr>"

definition aliased_null :: RawRequest where
  "aliased_null = raw_request ''mutation{issueUpdate(input:{delegateId:$d})}'' (Mapping [(''d'', Null)])"

text \<open>A null that reaches the field through a variable of another name is not seen as a clear.\<close>

lemma aliased_null_passes: "checkRawMutationInterception raw_world (Some aliased_null) = RawPass"
  by code_simp

theorem raw_writes_leave_the_workflow_alone_witness: "\<not> hasStateChange aliased_null \<and> \<not> hasLabelChange aliased_null"
proof -
  have u: "js_includes ''issueUpdate'' (raw_query aliased_null)" by code_simp
  let ?c = "\<lparr>ca_identifier = Some ''AI-1'', ca_labels = [''wf:task'', ''state:merge''], ca_delegate = Some ''u1'', ca_state = None\<rparr>"
  let ?def = "sample_def [sample_state ''merge'' \<lparr>s_owner_role := Some ''merge''\<rparr>]"
  have c: "rw_context raw_world = Some ?c" by (simp add: raw_world_def)
  have wf_label: "getWorkflowId (ca_labels ?c) = Some ''task''" by code_simp
  have t: "truthy (getWorkflowId (ca_labels ?c))" by (simp only: wf_label) (simp add: truthy_def)
  have d: "Option.bind (rw_registry raw_world) (\<lambda>reg. reg (the (getWorkflowId (ca_labels ?c)))) = Some ?def"
    by (simp only: wf_label) (simp add: raw_world_def)
  show ?thesis using raw_writes_leave_the_workflow_alone [OF aliased_null_passes u c t d] by blast
qed

end
