(* ===== verification/StateMigration.thy ===== *)
theory StateMigration
  imports GateBase
begin

text \<open>
  \<open>src/def-state-migration.ts\<close>: what happens to the tickets in a state that a new version of a workflow
  definition no longer has. The pages of the ticket query, the label tables of the teams, the answers to the
  label writes and to the wakes are given; what is written, woken and recorded is returned.
\<close>

subsection \<open>Definitions and plans\<close>

record MigratingDef = WorkflowDef +
  d_migrations :: "(string, string) jsmap option"
  d_strand_acknowledged :: "string list option"

record DefStateMigrationPlan =
  mp_fromState :: string
  mp_toState :: string
  mp_ownerRole :: "string option"

definition live_state :: "MigratingDef \<Rightarrow> string \<Rightarrow> bool" where
  "live_state def i = (\<exists>s \<in> set (d_states def). s_id s = i)"

definition planDefStateMigration :: "string list \<Rightarrow> MigratingDef \<Rightarrow> DefStateMigrationPlan option" where
  "planDefStateMigration labels def =
     (if \<not> truthy (getWorkflowId labels) then None
      else let fromState = getCurrentState labels None in
        if \<not> truthy fromState then None
        else if live_state def (the fromState) then None
        else let toState = Option.bind (d_migrations def) (\<lambda>m. map_get m (the fromState)) in
          if \<not> truthy toState then None
          else Some \<lparr>mp_fromState = the fromState, mp_toState = the toState,
            mp_ownerRole = Option.bind (stateNodeById (WorkflowDef.truncate def) toState) s_owner_role\<rparr>)"

definition validateDefStateRemovals :: "string list \<Rightarrow> MigratingDef \<Rightarrow> string list" where
  "validateDefStateRemovals previousStateIds nextDef =
     filter (\<lambda>removed. \<not> live_state nextDef removed \<and> removed \<notin> set (map_keys (orElse (d_migrations nextDef) [])) \<and>
       removed \<notin> set (orElse (d_strand_acknowledged nextDef) [])) previousStateIds"

subsection \<open>The tickets\<close>

record FetchedTicket =
  ft_id :: string
  ft_identifier :: string
  ft_labelNodes :: "(string \<times> string) list"
  ft_teamId :: string

definition ft_labels :: "FetchedTicket \<Rightarrow> string list" where
  "ft_labels t = map snd (ft_labelNodes t)"

text \<open>The answers to the page requests, in order (\<open>None\<close>: the request threw, or was not answered).\<close>

record TicketPage =
  pg_nodes :: "FetchedTicket list"
  pg_hasNextPage :: bool
  pg_endCursor :: "string option"

fun fetchGovernedTickets :: "TicketPage option list \<Rightarrow> FetchedTicket list option" where
  "fetchGovernedTickets [] = None"
| "fetchGovernedTickets (None # ps) = None"
| "fetchGovernedTickets (Some p # ps) =
     (if \<not> pg_hasNextPage p \<or> \<not> truthy (pg_endCursor p) then Some (pg_nodes p)
      else map_option (\<lambda>rest. pg_nodes p @ rest) (fetchGovernedTickets ps))"

text \<open>The tables of all teams make one table; the later team wins.\<close>

definition label_table :: "(string \<Rightarrow> (string \<times> string) list) \<Rightarrow> FetchedTicket list \<Rightarrow> (string, string) jsmap" where
  "label_table team_labels tickets =
     fold (\<lambda>teamId m. fold (\<lambda>(name, i). map_set name i) (team_labels teamId) m)
       (unique (filter (\<lambda>t. t \<noteq> []) (map ft_teamId tickets))) []"

subsection \<open>The sweep\<close>

datatype migration_failure = TargetLabelUnresolved | LabelSwapFailed

datatype migration_effect =
    LabelsSet string "string list"
  | MigrationWake string string
  | MigrationFailed string migration_failure
  | MigrationDone string string string

datatype migration_problem = FetchFailed | LabelUnresolved string string | SwapThrew string | WakeThrew string

record MigrationWorld =
  mw_pages :: "TicketPage option list"
  mw_resolver :: "(string \<Rightarrow> string option) option"
  mw_team_labels :: "string \<Rightarrow> (string \<times> string) list"
  mw_apply :: "string \<Rightarrow> bool option"
  mw_wake :: "string \<Rightarrow> string \<Rightarrow> bool"
  mw_policy :: "CapabilityPolicy option"

record MigrationSweepResult =
  ms_scanned :: nat
  ms_migrated :: "(string \<times> string \<times> string) list"
  ms_errors :: "migration_problem list"

definition nextLabelIds :: "FetchedTicket \<Rightarrow> DefStateMigrationPlan \<Rightarrow> string \<Rightarrow> string list" where
  "nextLabelIds t plan target =
     (let kept = map fst (filter (\<lambda>n. snd n \<noteq> ''state:'' @ mp_fromState plan) (ft_labelNodes t))
      in if target \<in> set kept then kept else kept @ [target])"

definition wakeTarget :: "CapabilityPolicy option \<Rightarrow> MigratingDef \<Rightarrow> DefStateMigrationPlan \<Rightarrow> string" where
  "wakeTarget policy def plan =
     (if truthy (mp_ownerRole plan)
      then let role = the (mp_ownerRole plan) in
        (case policy of None \<Rightarrow> role
         | Some p \<Rightarrow> (case resolveBodiesForOwnerRole p role (WorkflowDef.truncate def) of Inr (b # bs) \<Rightarrow> b | _ \<Rightarrow> role))
      else orElse (mp_ownerRole plan) [])"

definition migrate_ticket ::
  "MigrationWorld \<Rightarrow> (string \<Rightarrow> string option) \<Rightarrow> MigratingDef \<Rightarrow> FetchedTicket \<Rightarrow> DefStateMigrationPlan \<Rightarrow>
   (string \<times> string \<times> string) list \<times> migration_problem list \<times> migration_effect list" where
  "migrate_ticket w labelNameToId def t plan =
     (let target = labelNameToId (''state:'' @ mp_toState plan) in
      if \<not> truthy target
      then ([], [LabelUnresolved (mp_toState plan) (ft_identifier t)], [MigrationFailed (ft_id t) TargetLabelUnresolved])
      else let written = LabelsSet (ft_id t) (nextLabelIds t plan (the target)) in
        case mw_apply w (ft_id t) of
          None \<Rightarrow> ([], [SwapThrew (ft_identifier t)], [written, MigrationFailed (ft_id t) LabelSwapFailed])
        | Some False \<Rightarrow> ([], [], [written, MigrationFailed (ft_id t) LabelSwapFailed])
        | Some True \<Rightarrow>
            let agent = wakeTarget (mw_policy w) def plan
            in ([(ft_id t, mp_fromState plan, mp_toState plan)],
                (if mw_wake w agent (ft_identifier t) then [] else [WakeThrew (ft_identifier t)]),
                [written, MigrationWake agent (ft_identifier t), MigrationDone (ft_id t) (mp_fromState plan) (mp_toState plan)]))"

definition migrate_one ::
  "MigrationWorld \<Rightarrow> (string \<Rightarrow> string option) \<Rightarrow> (string, MigratingDef) jsmap \<Rightarrow> FetchedTicket \<Rightarrow>
   (string \<times> string \<times> string) list \<times> migration_problem list \<times> migration_effect list" where
  "migrate_one w labelNameToId registry t =
     (case Option.bind (getWorkflowId (ft_labels t)) (map_get registry) of
        None \<Rightarrow> ([], [], [])
      | Some def \<Rightarrow>
          (case planDefStateMigration (ft_labels t) def of
             None \<Rightarrow> ([], [], [])
           | Some plan \<Rightarrow> migrate_ticket w labelNameToId def t plan))"

definition runDefStateMigrationSweep ::
  "MigrationWorld \<Rightarrow> (string, MigratingDef) jsmap \<Rightarrow> MigrationSweepResult \<times> migration_effect list" where
  "runDefStateMigrationSweep w registry =
     (if \<not> (\<exists>e \<in> set registry. orElse (d_migrations (snd e)) [] \<noteq> [])
      then (\<lparr>ms_scanned = 0, ms_migrated = [], ms_errors = []\<rparr>, [])
      else case fetchGovernedTickets (mw_pages w) of
        None \<Rightarrow> (\<lparr>ms_scanned = 0, ms_migrated = [], ms_errors = [FetchFailed]\<rparr>, [])
      | Some tickets \<Rightarrow>
          let labelNameToId = (case mw_resolver w of Some f \<Rightarrow> f | None \<Rightarrow> map_get (label_table (mw_team_labels w) tickets));
              rs = map (migrate_one w labelNameToId registry) tickets
          in (\<lparr>ms_scanned = length tickets, ms_migrated = concat (map fst rs), ms_errors = concat (map (fst \<circ> snd) rs)\<rparr>,
              concat (map (snd \<circ> snd) rs)))"

subsection \<open>The runner\<close>

record DefStateMigrationLiveness =
  ml_ranOnLoad :: bool
  ml_migratedCount :: nat
  ml_scanned :: nat
  ml_lastRunAt :: "string option"
  ml_errors :: nat

text \<open>
  The liveness at once and after the sweep, which runs only with a token; \<open>None\<close> for the registry or the
  outcome is an exception.
\<close>

definition registerDefStateMigrationRunner ::
  "string \<Rightarrow> (string, MigratingDef) jsmap option \<Rightarrow> MigrationWorld \<Rightarrow> string \<Rightarrow>
   DefStateMigrationLiveness \<times> DefStateMigrationLiveness \<times> migration_effect list" where
  "registerDefStateMigrationRunner token registry w finishedAt =
     (let start = \<lparr>ml_ranOnLoad = True, ml_migratedCount = 0, ml_scanned = 0, ml_lastRunAt = None, ml_errors = 0\<rparr> in
      if trim token = [] then (start\<lparr>ml_errors := 1\<rparr>, start\<lparr>ml_errors := 1\<rparr>, [])
      else case registry of
        None \<Rightarrow> (start, start\<lparr>ml_lastRunAt := Some finishedAt, ml_errors := 1\<rparr>, [])
      | Some reg \<Rightarrow>
          let (r, effects) = runDefStateMigrationSweep w reg
          in (start, start\<lparr>ml_migratedCount := length (ms_migrated r), ml_scanned := ms_scanned r, ml_lastRunAt := Some finishedAt,
                ml_errors := length (ms_errors r)\<rparr>, effects))"

subsection \<open>Only stranded tickets are touched\<close>

lemma plan_SomeD:
  assumes "planDefStateMigration labels def = Some plan"
  shows "truthy (getWorkflowId labels)" "getCurrentState labels None = Some (mp_fromState plan)" "mp_fromState plan \<noteq> []"
    "\<not> live_state def (mp_fromState plan)" "mp_toState plan \<noteq> []"
    "Option.bind (d_migrations def) (\<lambda>m. map_get m (mp_fromState plan)) = Some (mp_toState plan)"
proof -
  obtain i where i: "getCurrentState labels None = Some i" "i \<noteq> []"
    using assms by (cases "getCurrentState labels None") (auto simp: planDefStateMigration_def Let_def truthy_def split: if_splits)
  obtain j where j: "Option.bind (d_migrations def) (\<lambda>m. map_get m i) = Some j" "j \<noteq> []"
    using assms i by (cases "Option.bind (d_migrations def) (\<lambda>m. map_get m i)")
      (auto simp: planDefStateMigration_def Let_def truthy_def split: if_splits)
  show "truthy (getWorkflowId labels)" "getCurrentState labels None = Some (mp_fromState plan)" "mp_fromState plan \<noteq> []"
    "\<not> live_state def (mp_fromState plan)" "mp_toState plan \<noteq> []"
    "Option.bind (d_migrations def) (\<lambda>m. map_get m (mp_fromState plan)) = Some (mp_toState plan)"
    using assms i j by (auto simp: planDefStateMigration_def Let_def truthy_def split: if_splits)
qed

lemma migrate_ticket_writes:
  "LabelsSet i ids \<in> set (snd (snd (migrate_ticket w f def t plan))) \<Longrightarrow>
   i = ft_id t \<and> (\<exists>target. f (''state:'' @ mp_toState plan) = Some target \<and> ids = nextLabelIds t plan target)"
  by (auto simp: migrate_ticket_def Let_def truthy_def simp del: append.simps append_Cons split: if_splits option.splits bool.splits)

lemma migrate_one_writes:
  assumes "LabelsSet i ids \<in> set (snd (snd (migrate_one w f registry t)))"
  shows "\<exists>def plan target. Option.bind (getWorkflowId (ft_labels t)) (map_get registry) = Some def \<and>
    planDefStateMigration (ft_labels t) def = Some plan \<and> i = ft_id t \<and>
    f (''state:'' @ mp_toState plan) = Some target \<and> ids = nextLabelIds t plan target"
proof (cases "Option.bind (getWorkflowId (ft_labels t)) (map_get registry)")
  case (Some def)
  then obtain plan where plan: "planDefStateMigration (ft_labels t) def = Some plan"
    using assms by (cases "planDefStateMigration (ft_labels t) def") (auto simp: migrate_one_def)
  have "LabelsSet i ids \<in> set (snd (snd (migrate_ticket w f def t plan)))"
    using assms Some plan by (simp add: migrate_one_def)
  then show ?thesis using migrate_ticket_writes Some plan by blast
qed (use assms in \<open>simp add: migrate_one_def\<close>)

lemma next_labels:
  "set (nextLabelIds t plan target) = {i. \<exists>n. (i, n) \<in> set (ft_labelNodes t) \<and> n \<noteq> ''state:'' @ mp_fromState plan} \<union> {target}"
  by (auto simp: nextLabelIds_def Let_def image_iff simp del: append.simps append_Cons)

text \<open>
  C40: The sweep writes labels only to a fetched ticket of a registered workflow whose current state the definition no
  longer has and maps to another, and what it writes is the ticket's own labels without the one of that
  state, and one more: a ticket in a live state, or in a removed one without a mapping, is left alone.
\<close>

theorem migration_touches_only_stranded_tickets:
  assumes "LabelsSet i ids \<in> set (snd (runDefStateMigrationSweep w registry))"
  shows "\<exists>tickets t def plan target. fetchGovernedTickets (mw_pages w) = Some tickets \<and> t \<in> set tickets \<and> ft_id t = i \<and>
    Option.bind (getWorkflowId (ft_labels t)) (map_get registry) = Some def \<and>
    planDefStateMigration (ft_labels t) def = Some plan \<and>
    getCurrentState (ft_labels t) None = Some (mp_fromState plan) \<and> \<not> live_state def (mp_fromState plan) \<and>
    Option.bind (d_migrations def) (\<lambda>m. map_get m (mp_fromState plan)) = Some (mp_toState plan) \<and>
    set ids = {l. \<exists>n. (l, n) \<in> set (ft_labelNodes t) \<and> n \<noteq> ''state:'' @ mp_fromState plan} \<union> {target}"
proof -
  obtain tickets where tickets: "fetchGovernedTickets (mw_pages w) = Some tickets"
    using assms by (cases "fetchGovernedTickets (mw_pages w)") (auto simp: runDefStateMigrationSweep_def Let_def split: if_splits)
  then obtain f t where t: "t \<in> set tickets" "LabelsSet i ids \<in> set (snd (snd (migrate_one w f registry t)))"
    using assms by (auto simp: runDefStateMigrationSweep_def Let_def split: if_splits)
  from migrate_one_writes [OF t(2)] obtain def plan target where p:
    "Option.bind (getWorkflowId (ft_labels t)) (map_get registry) = Some def"
    "planDefStateMigration (ft_labels t) def = Some plan" "i = ft_id t" "ids = nextLabelIds t plan target" by blast
  show ?thesis
    by (rule exI [of _ tickets], rule exI [of _ t], rule exI [of _ def], rule exI [of _ plan], rule exI [of _ target])
      (use tickets t(1) p plan_SomeD [OF p(2)] next_labels [of t plan target] in \<open>simp del: append.simps append_Cons\<close>)
qed

subsection \<open>A migrated ticket is in the mapped state\<close>

text \<open>The labels after the write; the service knows the written label by its name.\<close>

definition relabelled :: "FetchedTicket \<Rightarrow> DefStateMigrationPlan \<Rightarrow> string \<Rightarrow> string list" where
  "relabelled t plan target =
     (let kept = filter (\<lambda>n. snd n \<noteq> ''state:'' @ mp_fromState plan) (ft_labelNodes t)
      in map snd kept @ (if target \<in> fst ` set kept then [] else [''state:'' @ mp_toState plan]))"

lemma state_label [simp]: "starts_ci ''state:'' (''state:'' @ x)" "label_value (''state:'' @ x) = toLowerCase x"
  by (simp_all add: starts_ci_def ascii_lower_def label_value_def slice_colon_def after_colon_def)

lemma first_state: "getCurrentState labels None = (case filter (starts_ci ''state:'') labels of [] \<Rightarrow> None | l # ls \<Rightarrow> Some (label_value l))"
  by (simp add: getCurrentState_def split: list.split)

text \<open>
  When the label of the removed state is the ticket's only state label and is spelled as the sweep spells it, the
  ticket is in the mapped state after the write, and if that state is live, a further sweep leaves the ticket alone.
\<close>

theorem migrated_ticket_is_in_the_mapped_state:
  assumes plan: "planDefStateMigration (ft_labels t) def = Some plan"
    and one: "filter (starts_ci ''state:'') (ft_labels t) = [''state:'' @ mp_fromState plan]"
    and fresh: "target \<notin> fst ` set (ft_labelNodes t)" and lower: "toLowerCase (mp_toState plan) = mp_toState plan"
  shows "getCurrentState (relabelled t plan target) None = Some (mp_toState plan) \<and>
    (live_state def (mp_toState plan) \<longrightarrow> planDefStateMigration (relabelled t plan target) def = None)"
proof -
  let ?kept = "filter (\<lambda>n. snd n \<noteq> ''state:'' @ mp_fromState plan) (ft_labelNodes t)"
  have gone: "filter (starts_ci ''state:'') (map snd ?kept) = []"
  proof -
    have "l = ''state:'' @ mp_fromState plan" if "l \<in> set (ft_labels t)" "starts_ci ''state:'' l" for l
    proof -
      have "l \<in> set (filter (starts_ci ''state:'') (ft_labels t))" using that by simp
      then show ?thesis unfolding one by simp
    qed
    then show ?thesis by (fastforce simp: filter_empty_conv ft_labels_def simp del: append.simps append_Cons)
  qed
  have "target \<notin> fst ` set ?kept" using fresh by auto
  then have "relabelled t plan target = map snd ?kept @ [''state:'' @ mp_toState plan]" by (simp add: relabelled_def Let_def)
  then have cur: "getCurrentState (relabelled t plan target) None = Some (mp_toState plan)"
    using gone lower by (simp add: first_state del: append.simps(2) append_Cons)
  then show ?thesis by (simp add: planDefStateMigration_def Let_def)
qed

text \<open>
  A new definition that the removal check accepts strands no ticket silently: a governed ticket in a state of the
  previous version is in a live state, has a plan to the state its removal maps to, or is in a state whose
  stranding the definition acknowledges (or maps to the empty name).
\<close>

theorem accepted_removals_strand_no_ticket:
  assumes "validateDefStateRemovals previous def = []" and "truthy (getWorkflowId labels)"
    and "getCurrentState labels None = Some i" and "i \<in> set previous" and "i \<noteq> []"
  shows "live_state def i \<or> (\<exists>plan. planDefStateMigration labels def = Some plan \<and> mp_fromState plan = i) \<or>
    i \<in> set (orElse (d_strand_acknowledged def) []) \<or> Option.bind (d_migrations def) (\<lambda>m. map_get m i) = Some []"
proof -
  have "live_state def i \<or> i \<in> set (map_keys (orElse (d_migrations def) [])) \<or> i \<in> set (orElse (d_strand_acknowledged def) [])"
    using assms(1,4) by (auto simp: validateDefStateRemovals_def filter_empty_conv)
  then show ?thesis
  proof (elim disjE)
    assume "i \<in> set (map_keys (orElse (d_migrations def) []))"
    then obtain j where j: "Option.bind (d_migrations def) (\<lambda>m. map_get m i) = Some j"
      by (cases "d_migrations def") (auto simp: keys_get orElse_def)
    then show ?thesis using assms(2,3,5) by (cases "j = []") (auto simp: planDefStateMigration_def Let_def truthy_def)
  qed blast+
qed

subsection \<open>Examples\<close>

definition moved_def :: MigratingDef where
  "moved_def = WorkflowDef.extend (sample_def [sample_state ''doing'' \<lparr>s_owner_role := Some ''dev''\<rparr>, sample_state ''done''])
     \<lparr>d_migrations = Some [(''old'', ''doing''), (''older'', ''gone'')], d_strand_acknowledged = None\<rparr>"

definition stranded :: "string \<Rightarrow> string \<Rightarrow> string \<Rightarrow> FetchedTicket" where
  "stranded i team label = \<lparr>ft_id = i, ft_identifier = i, ft_labelNodes = [(''w'', ''wf:task''), (''l-'' @ i, label)], ft_teamId = team\<rparr>"

definition two_teams :: MigrationWorld where
  "two_teams = \<lparr>mw_pages = [Some \<lparr>pg_nodes = [stranded ''a'' ''t1'' ''state:old''], pg_hasNextPage = True, pg_endCursor = Some ''c''\<rparr>,
       Some \<lparr>pg_nodes = [stranded ''b'' ''t2'' ''state:old''], pg_hasNextPage = False, pg_endCursor = None\<rparr>],
     mw_resolver = None, mw_team_labels = (\<lambda>t. [(''state:doing'', ''doing-of-'' @ t)]), mw_apply = (\<lambda>_. Some True),
     mw_wake = (\<lambda>_ _. True), mw_policy = None\<rparr>"

text \<open>
  The teams' label tables are merged by name, so the tickets of every team but the last get a label of another
  team.
\<close>

lemma label_of_another_team:
  "filter (\<lambda>e. case e of LabelsSet i ids \<Rightarrow> True | _ \<Rightarrow> False) (snd (runDefStateMigrationSweep two_teams [(''task'', moved_def)])) =
   [LabelsSet ''a'' [''w'', ''doing-of-t2''], LabelsSet ''b'' [''w'', ''doing-of-t2'']]"
  by code_simp

text \<open>A mapping to a state that does not exist is accepted, and the sweep then strands the ticket there.\<close>

lemma mapping_to_a_missing_state:
  "validateDefStateRemovals [''older''] moved_def = []"
  "map_option mp_toState (planDefStateMigration [''wf:task'', ''state:older''] moved_def) = Some ''gone''"
  "live_state moved_def ''gone'' = False"
  by code_simp+

text \<open>A label spelled with capitals names the state but is not removed: the ticket is migrated again at every load.\<close>

lemma capital_label_stays:
  "(let t = stranded ''a'' ''t1'' ''State:old''; plan = the (planDefStateMigration (ft_labels t) moved_def)
    in (relabelled t plan ''d1'', map_option mp_fromState (planDefStateMigration (relabelled t plan ''d1'') moved_def))) =
   ([''wf:task'', ''State:old'', ''state:doing''], Some ''old'')"
  by code_simp

theorem migration_touches_only_stranded_tickets_witness:
  "\<exists>tickets t. fetchGovernedTickets (mw_pages two_teams) = Some tickets \<and> t \<in> set tickets \<and> ft_id t = ''a''"
proof -
  have "LabelsSet ''a'' [''w'', ''doing-of-t2''] \<in> set (filter (\<lambda>e. case e of LabelsSet i ids \<Rightarrow> True | _ \<Rightarrow> False)
      (snd (runDefStateMigrationSweep two_teams [(''task'', moved_def)])))"
    unfolding label_of_another_team by simp
  then have "LabelsSet ''a'' [''w'', ''doing-of-t2''] \<in> set (snd (runDefStateMigrationSweep two_teams [(''task'', moved_def)]))"
    by simp
  from migration_touches_only_stranded_tickets [OF this] show ?thesis by blast
qed

theorem migrated_ticket_is_in_the_mapped_state_witness:
  "\<exists>plan. getCurrentState (relabelled (stranded ''a'' ''t1'' ''state:old'') plan ''d1'') None = Some ''doing''"
proof -
  let ?t = "stranded ''a'' ''t1'' ''state:old''"
  let ?plan = "\<lparr>mp_fromState = ''old'', mp_toState = ''doing'', mp_ownerRole = Some ''dev''\<rparr>"
  have plan: "planDefStateMigration (ft_labels ?t) moved_def = Some ?plan" by code_simp
  have one: "filter (starts_ci ''state:'') (ft_labels ?t) = [''state:'' @ mp_fromState ?plan]" by code_simp
  have fresh: "''d1'' \<notin> fst ` set (ft_labelNodes ?t)" and lower: "toLowerCase (mp_toState ?plan) = mp_toState ?plan" by code_simp+
  from migrated_ticket_is_in_the_mapped_state [OF plan one fresh lower] show ?thesis by (intro exI [of _ ?plan]) simp
qed

theorem accepted_removals_strand_no_ticket_witness:
  "\<exists>plan. planDefStateMigration [''wf:task'', ''state:old''] moved_def = Some plan \<and> mp_fromState plan = ''old''"
proof -
  have v: "validateDefStateRemovals [''old''] moved_def = []" by code_simp
  have w: "truthy (getWorkflowId [''wf:task'', ''state:old''])" by code_simp
  have c: "getCurrentState [''wf:task'', ''state:old''] None = Some ''old''" by code_simp
  have n: "live_state moved_def ''old'' = False" "orElse (d_strand_acknowledged moved_def) [] = []"
    "Option.bind (d_migrations moved_def) (\<lambda>m. map_get m ''old'') = Some ''doing''" by code_simp+
  show ?thesis using accepted_removals_strand_no_ticket [OF v w c] n by auto
qed

end
