(* ===== verification/Router.thy ===== *)
theory Router
  imports SessionKey Yaml DelegateChoice
begin

text \<open>
  \<open>src/router.ts\<close> and \<open>src/department-roster.ts\<close>: which agents an event from the tracker wakes, under which
  session key and why. An event is its type, action, actor, the keys of \<open>updatedFrom\<close> and its data; the agents
  are the configured ones, in order. Objects are their own properties only. A key that is no issue identifier
  throws when it is normalised.
\<close>

subsection \<open>Events and agents\<close>

record LinearEvent =
  ev_type :: string
  ev_action :: string
  ev_actorId :: "string option"
  ev_updatedFrom :: "string list option"
  ev_data :: yaml

record RouterAgent = Agent +
  ra_openclawAgent :: "string option"

definition buildAgentMap :: "RouterAgent list \<Rightarrow> (string, string) jsmap" where
  "buildAgentMap agents = fold (\<lambda>a. map_set (ag_linearUserId a) (ag_name a)) agents []"

text \<open>\<open>agentMap[id]\<close> where it is truthy\<close>

definition agent_of :: "RouterAgent list \<Rightarrow> string option \<Rightarrow> string option" where
  "agent_of agents i =
     (case i of None \<Rightarrow> None
      | Some x \<Rightarrow> if x = [] then None
          else case map_get (buildAgentMap agents) x of None \<Rightarrow> None | Some n \<Rightarrow> if n = [] then None else Some n)"

definition router_openclaw :: "RouterAgent list \<Rightarrow> string \<Rightarrow> string" where
  "router_openclaw agents name =
     (case List.find (\<lambda>a. ag_name a = name) agents of None \<Rightarrow> name | Some a \<Rightarrow> orElse (ra_openclawAgent a) name)"

definition buildNameMap :: "RouterAgent list \<Rightarrow> (string, string) jsmap" where
  "buildNameMap agents =
     fold (\<lambda>a m. let name = toLowerCase (ag_name a); oc = map_option toLowerCase (ra_openclawAgent a);
                     m = map_set name (ag_name a) m
                 in if truthy oc \<and> oc \<noteq> Some name then map_set (the oc) (ag_name a) m else m) agents []"

definition extractId :: "yaml \<Rightarrow> string option" where
  "extractId field =
     (case field of
        Str s \<Rightarrow> if s = [] then None else Some s
      | Mapping m \<Rightarrow> (case map_of m ''id'' of Some (Str s) \<Rightarrow> Some s | _ \<Rightarrow> None)
      | _ \<Rightarrow> None)"

definition ev_field :: "LinearEvent \<Rightarrow> string \<Rightarrow> yaml" where
  "ev_field ev k = yaml_get k (ev_data ev)"

subsection \<open>Mentions\<close>

text \<open>\<open>/@\[([^\]]+)\]|@(\w+)/g\<close>, the names in order\<close>

function mention_names :: "string \<Rightarrow> string list" where
  "mention_names s =
     (case s of
        [] \<Rightarrow> []
      | c # cs \<Rightarrow>
          if c \<noteq> CHR ''@'' then mention_names cs
          else
            (case cs of
               [] \<Rightarrow> []
             | d # ds \<Rightarrow>
                 let inner = takeWhile (\<lambda>x. x \<noteq> CHR '']'') ds; after = dropWhile (\<lambda>x. x \<noteq> CHR '']'') ds;
                     word = takeWhile is_word cs
                 in if d = CHR ''['' \<and> inner \<noteq> [] \<and> after \<noteq> [] then inner # mention_names (tl after)
                    else if word \<noteq> [] then word # mention_names (dropWhile is_word cs)
                    else mention_names cs))"
  by pat_completeness auto

lemma dropWhile_shorter:
  "length (dropWhile P xs) - Suc 0 \<le> Suc (length xs)" "length (dropWhile P xs) \<le> Suc (length xs)"
  using length_dropWhile_le [of P xs] by simp_all

termination mention_names
  by (relation "measure length") (auto simp: less_Suc_eq_le dropWhile_shorter length_dropWhile_le)

declare mention_names.simps [simp del]

definition detectAllMentionsInBody :: "string \<Rightarrow> (string, string) jsmap \<Rightarrow> string list" where
  "detectAllMentionsInBody body nameMap =
     unique (filter (\<lambda>n. truthy (map_get nameMap n)) (map toLowerCase (mention_names body)))"

definition mentioned_users :: "LinearEvent \<Rightarrow> string option list" where
  "mentioned_users ev =
     (case ev_field ev ''mentionedUsers'' of Seq us \<Rightarrow> map (\<lambda>u. case yaml_get ''id'' u of Str s \<Rightarrow> Some s | _ \<Rightarrow> None) us | _ \<Rightarrow> [])"

subsection \<open>The target of an event\<close>

datatype route_reason = ByDelegate | ByAssignee | ByMention | ByBodyMention | ByDepartmentPrefix | ByStewardEscalation

datatype target_result = Target string route_reason | Suppressed bool | NoTarget

definition touched :: "LinearEvent \<Rightarrow> string list \<Rightarrow> bool" where
  "touched ev ks = (case ev_updatedFrom ev of None \<Rightarrow> False | Some upd \<Rightarrow> \<exists>k \<in> set ks. k \<in> set upd)"

definition issue_update :: "LinearEvent \<Rightarrow> bool" where
  "issue_update ev = (ev_type ev = ''Issue'' \<and> ev_action ev = ''update'')"

definition actor_agent :: "RouterAgent list \<Rightarrow> LinearEvent \<Rightarrow> string option" where
  "actor_agent agents ev = agent_of agents (ev_actorId ev)"

definition isStateTransition :: "RouterAgent list \<Rightarrow> LinearEvent \<Rightarrow> bool" where
  "isStateTransition agents ev =
     (issue_update ev \<and> (touched ev [''stateId''] \<or> touched ev [''labelIds''] \<and> actor_agent agents ev \<noteq> None))"

definition session_owner :: "RouterAgent list \<Rightarrow> LinearEvent \<Rightarrow> string option" where
  "session_owner agents ev =
     (let session = ev_field ev ''agentSession'' in
      case List.map_filter (agent_of agents)
          [extractId (yaml_get ''appUser'' session),
           (case yaml_get ''appUserId'' session of Str s \<Rightarrow> Some s | _ \<Rightarrow> None),
           extractId (yaml_get ''creator'' session)] of
        [] \<Rightarrow> None
      | n # ns \<Rightarrow> Some n)"

text \<open>Delegate, assignee, mentioned users, names in the body of a comment, in this order.\<close>

definition named_target :: "RouterAgent list \<Rightarrow> LinearEvent \<Rightarrow> (string \<times> route_reason) option" where
  "named_target agents ev =
     (case agent_of agents (extractId (ev_field ev ''delegate'')) of
        Some n \<Rightarrow> Some (n, ByDelegate)
      | None \<Rightarrow>
          (case agent_of agents (extractId (ev_field ev ''assignee'')) of
             Some n \<Rightarrow> Some (n, ByAssignee)
           | None \<Rightarrow>
               (case List.map_filter (agent_of agents) (mentioned_users ev) of
                  n # ns \<Rightarrow> Some (n, ByMention)
                | [] \<Rightarrow>
                    (case ev_field ev ''body'' of
                       Str body \<Rightarrow>
                         if ev_type ev \<noteq> ''Comment'' \<or> body = [] \<or> starts_with ''[Connector]'' body then None
                         else (case detectAllMentionsInBody body (buildNameMap agents) of
                                 [] \<Rightarrow> None
                               | k # ks \<Rightarrow> Some (the (map_get (buildNameMap agents) k), ByBodyMention))
                     | _ \<Rightarrow> None))))"

definition extractAgentTarget :: "RouterAgent list \<Rightarrow> LinearEvent \<Rightarrow> target_result" where
  "extractAgentTarget agents ev =
     (if buildAgentMap agents = [] then NoTarget
      else if ev_type ev = ''AgentSessionEvent''
      then (case session_owner agents ev of Some n \<Rightarrow> Target n ByDelegate | None \<Rightarrow> Suppressed False)
      else if issue_update ev \<and> touched ev [''delegateId'', ''delegate''] \<and>
        \<not> truthy (extractId (ev_field ev ''delegate'')) \<and> \<not> truthy (extractId (ev_field ev ''delegateId''))
      then Suppressed True
      else if agent_of agents (extractId (ev_field ev ''delegate'')) \<noteq> None \<and> issue_update ev \<and> ev_updatedFrom ev \<noteq> None \<and>
        \<not> touched ev [''delegateId'', ''delegate''] \<and> \<not> isStateTransition agents ev
      then Suppressed False
      else let target = named_target agents ev in
        if actor_agent agents ev \<noteq> None \<and> \<not> isStateTransition agents ev \<and>
          (target = None \<or> map_option fst target = actor_agent agents ev)
        then Suppressed False
        else case target of Some (n, r) \<Rightarrow> Target n r | None \<Rightarrow> NoTarget)"

subsection \<open>More targets\<close>

definition extractAdditionalMentionTargets :: "RouterAgent list \<Rightarrow> LinearEvent \<Rightarrow> string option \<Rightarrow> string list" where
  "extractAdditionalMentionTargets agents ev primaryName =
     (if ev_type ev = ''AgentSessionEvent'' then []
      else
        let names = buildNameMap agents;
            body = (case ev_field ev ''body'' of
                      Str body \<Rightarrow> if ev_type ev = ''Comment'' then map (\<lambda>k. the (map_get names k)) (detectAllMentionsInBody body names) else []
                    | _ \<Rightarrow> [])
        in filter (\<lambda>n. Some n \<noteq> actor_agent agents ev)
             (filter (\<lambda>n. \<not> (truthy primaryName \<and> Some n = primaryName))
               (unique (List.map_filter (agent_of agents) (mentioned_users ev) @ body))))"

definition unresolvedRoutingCandidates :: "RouterAgent list \<Rightarrow> LinearEvent \<Rightarrow> string list" where
  "unresolvedRoutingCandidates agents ev =
     (if ev_type ev = ''AgentSessionEvent'' then []
      else filter (\<lambda>i. agent_of agents (Some i) = None)
        (unique (filter (\<lambda>i. i \<noteq> [])
          (List.map_filter (\<lambda>k. extractId (ev_field ev k)) [''delegate'', ''delegateId'', ''assignee'', ''assigneeId''] @
           List.map_filter id (mentioned_users ev)))))"

subsection \<open>The department roster\<close>

record Roster =
  ro_steward :: string
  ro_departments :: "(string \<times> string option) list"

text \<open>A parsed roster file (\<open>None\<close>: missing or unreadable).\<close>

definition loadRoster :: "yaml option \<Rightarrow> Roster option" where
  "loadRoster parsed =
     (case parsed of
        None \<Rightarrow> None
      | Some p \<Rightarrow>
          (case (yaml_get ''steward'' p, yaml_get ''departments'' p) of
             (Str steward, Mapping ds) \<Rightarrow>
               if steward = [] then None
               else Some \<lparr>ro_steward = steward,
                 ro_departments = map (\<lambda>(k, d). (k, case yaml_get ''defaultTarget'' d of Str t \<Rightarrow> Some t | _ \<Rightarrow> None)) ds\<rparr>
           | _ \<Rightarrow> None))"

record RouteDecision =
  rd_target :: string
  rd_reason :: route_reason
  rd_escalated :: bool
  rd_matchedPrefix :: "string option"

definition identifier_prefix :: "string \<Rightarrow> string" where
  "identifier_prefix i = toUpperCase (trim (takeWhile (\<lambda>c. c \<noteq> CHR ''-'') i))"

definition resolveRoute :: "string option \<Rightarrow> Roster option \<Rightarrow> (string \<times> route_reason) option \<Rightarrow> RouteDecision" where
  "resolveRoute identifier roster mechanical =
     (case mechanical of
        Some (n, r) \<Rightarrow>
          if n \<noteq> [] then \<lparr>rd_target = n, rd_reason = r, rd_escalated = False, rd_matchedPrefix = None\<rparr>
          else \<lparr>rd_target = (case roster of None \<Rightarrow> ''astrid'' | Some ro \<Rightarrow> ro_steward ro), rd_reason = ByStewardEscalation,
                rd_escalated = True, rd_matchedPrefix = None\<rparr>
      | None \<Rightarrow>
          let steward = (case roster of None \<Rightarrow> ''astrid'' | Some ro \<Rightarrow> ro_steward ro);
              escalate = \<lparr>rd_target = steward, rd_reason = ByStewardEscalation, rd_escalated = True, rd_matchedPrefix = None\<rparr> in
          if roster = None \<or> \<not> truthy identifier \<or> identifier_prefix (the identifier) = [] then escalate
          else (case List.find (\<lambda>(k, d). toUpperCase k = identifier_prefix (the identifier) \<and> truthy d) (ro_departments (the roster)) of
                  None \<Rightarrow> escalate
                | Some (k, d) \<Rightarrow> \<lparr>rd_target = the d, rd_reason = ByDepartmentPrefix, rd_escalated = False, rd_matchedPrefix = Some k\<rparr>))"

subsection \<open>The identifier of the issue\<close>

definition text_at :: "string \<Rightarrow> yaml \<Rightarrow> string option" where
  "text_at k v = (case yaml_get k v of Str s \<Rightarrow> if s = [] then None else Some s | _ \<Rightarrow> None)"

text \<open>The walk stops below the sixth level.\<close>

fun deepFindIdentifier :: "nat \<Rightarrow> yaml \<Rightarrow> string option" where
  "deepFindIdentifier 0 v = None"
| "deepFindIdentifier (Suc n) (Mapping m) =
     (case yaml_get ''identifier'' (Mapping m) of
        Str s \<Rightarrow> if linear_id s then Some s else
          (case List.map_filter (\<lambda>(k, v). case v of Mapping m' \<Rightarrow> deepFindIdentifier n v | _ \<Rightarrow> None) m of [] \<Rightarrow> None | i # is \<Rightarrow> Some i)
      | _ \<Rightarrow> (case List.map_filter (\<lambda>(k, v). case v of Mapping m' \<Rightarrow> deepFindIdentifier n v | _ \<Rightarrow> None) m of [] \<Rightarrow> None | i # is \<Rightarrow> Some i))"
| "deepFindIdentifier (Suc n) v = None"

definition first_of_options :: "'a option list \<Rightarrow> 'a option" where
  "first_of_options xs = (case List.map_filter id xs of [] \<Rightarrow> None | x # _ \<Rightarrow> Some x)"

definition extractIssueIdentifier :: "LinearEvent \<Rightarrow> string option" where
  "extractIssueIdentifier ev =
     first_of_options
       [text_at ''identifier'' (ev_data ev), text_at ''issueIdentifier'' (ev_data ev),
        text_at ''identifier'' (ev_field ev ''issue''),
        text_at ''identifier'' (yaml_get ''issue'' (ev_field ev ''agentSession'')),
        text_at ''identifier'' (yaml_get ''issue'' (ev_field ev ''notification'')),
        deepFindIdentifier 6 (ev_data ev)]"

subsection \<open>Routes\<close>

record RouterResult =
  ro_agentId :: string
  ro_sessionKey :: string
  ro_routingReason :: route_reason

definition buildRouteResult :: "RouterAgent list \<Rightarrow> nat \<Rightarrow> LinearEvent \<Rightarrow> string \<times> route_reason \<Rightarrow> key_error + RouterResult" where
  "buildRouteResult agents now ev target =
     (let answer = (\<lambda>k. \<lparr>ro_agentId = router_openclaw agents (fst target), ro_sessionKey = k, ro_routingReason = snd target\<rparr>) in
      case extractIssueIdentifier ev of
        None \<Rightarrow> Inr (answer (''linear-'' @ ev_type ev @ ''-'' @ dec_text now))
      | Some i \<Rightarrow> (case normalizeSessionKey (''linear-'' @ i) of Inl e \<Rightarrow> Inl e | Inr k \<Rightarrow> Inr (answer k)))"

definition routeEvent :: "RouterAgent list \<Rightarrow> nat \<Rightarrow> LinearEvent \<Rightarrow> key_error + RouterResult option" where
  "routeEvent agents now ev =
     (case extractAgentTarget agents ev of
        Target n r \<Rightarrow> (case buildRouteResult agents now ev (n, r) of Inl e \<Rightarrow> Inl e | Inr x \<Rightarrow> Inr (Some x))
      | _ \<Rightarrow> Inr None)"

text \<open>Whom the event wakes, before the keys are made.\<close>

definition route_targets :: "RouterAgent list \<Rightarrow> Roster option \<Rightarrow> LinearEvent \<Rightarrow> (string \<times> route_reason) list" where
  "route_targets agents roster ev =
     (case extractAgentTarget agents ev of
        Suppressed c \<Rightarrow> []
      | Target n r \<Rightarrow> (n, r) # map (\<lambda>m. (m, ByMention)) (extractAdditionalMentionTargets agents ev (Some n))
      | NoTarget \<Rightarrow>
          if roster = None then []
          else let identifier = extractIssueIdentifier ev; d = resolveRoute identifier roster None in
            if rd_reason d = ByDepartmentPrefix then [(rd_target d, ByDepartmentPrefix)]
            else if rd_reason d = ByStewardEscalation \<and> truthy identifier \<and> ev_type ev \<noteq> ''AgentSessionEvent''
            then [(rd_target d, ByStewardEscalation)]
            else [])"

fun all_or_error :: "('e + 'a) list \<Rightarrow> 'e + 'a list" where
  "all_or_error [] = Inr []"
| "all_or_error (Inl e # xs) = Inl e"
| "all_or_error (Inr x # xs) = (case all_or_error xs of Inl e \<Rightarrow> Inl e | Inr ys \<Rightarrow> Inr (x # ys))"

definition routeEventAll :: "RouterAgent list \<Rightarrow> Roster option \<Rightarrow> nat \<Rightarrow> LinearEvent \<Rightarrow> key_error + RouterResult list" where
  "routeEventAll agents roster now ev = all_or_error (map (buildRouteResult agents now ev) (route_targets agents roster ev))"

subsection \<open>Whom an event wakes\<close>

lemma agent_map_get:
  "map_get (buildAgentMap agents) x = Some n \<Longrightarrow> \<exists>a \<in> set agents. ag_linearUserId a = x \<and> ag_name a = n"
proof -
  have "map_get (fold (\<lambda>a. map_set (ag_linearUserId a) (ag_name a)) agents m) x = Some n \<Longrightarrow>
      (\<exists>a \<in> set agents. ag_linearUserId a = x \<and> ag_name a = n) \<or> map_get m x = Some n" for m
    by (induction agents arbitrary: m) (fastforce split: if_splits)+
  from this [of "[]"] show "map_get (buildAgentMap agents) x = Some n \<Longrightarrow> \<exists>a \<in> set agents. ag_linearUserId a = x \<and> ag_name a = n"
    by (simp add: buildAgentMap_def)
qed

lemma no_agents: "buildAgentMap agents = [] \<Longrightarrow> agent_of agents i = None"
  by (simp add: agent_of_def split: option.split)

lemma agent_of_registered: "agent_of agents i = Some n \<Longrightarrow> n \<in> ag_name ` set agents"
  using agent_map_get by (fastforce simp: agent_of_def split: option.splits if_splits)

lemma name_map_get: "map_get (buildNameMap agents) k = Some n \<Longrightarrow> n \<in> ag_name ` set agents"
proof -
  have "map_get (fold (\<lambda>a m. let name = toLowerCase (ag_name a); oc = map_option toLowerCase (ra_openclawAgent a);
                     m = map_set name (ag_name a) m
                 in if truthy oc \<and> oc \<noteq> Some name then map_set (the oc) (ag_name a) m else m) agents m) k = Some n \<Longrightarrow>
      n \<in> ag_name ` set agents \<or> map_get m k = Some n" for m
    by (induction agents arbitrary: m) (fastforce simp: Let_def split: if_splits)+
  from this [of "[]"] show "map_get (buildNameMap agents) k = Some n \<Longrightarrow> n \<in> ag_name ` set agents"
    by (simp add: buildNameMap_def)
qed

lemma mentions_registered:
  "k \<in> set (detectAllMentionsInBody body (buildNameMap agents)) \<Longrightarrow> the (map_get (buildNameMap agents) k) \<in> ag_name ` set agents"
  using name_map_get by (fastforce simp: detectAllMentionsInBody_def truthy_def split: option.splits)

lemma map_filter_head: "List.map_filter f xs = y # ys \<Longrightarrow> \<exists>x \<in> set xs. f x = Some y"
  by (induction xs) (auto simp: List.map_filter_def split: if_splits)

lemma first_mention_registered:
  "detectAllMentionsInBody body (buildNameMap agents) = k # ks \<Longrightarrow> the (map_get (buildNameMap agents) k) \<in> ag_name ` set agents"
  by (rule mentions_registered [of k body]) simp

lemma named_registered: "named_target agents ev = Some (n, r) \<Longrightarrow> n \<in> ag_name ` set agents"
  unfolding named_target_def
  by (auto split: option.splits list.splits yaml.splits if_splits
      dest: agent_of_registered map_filter_head intro: first_mention_registered)

lemma session_registered: "session_owner agents ev = Some n \<Longrightarrow> n \<in> ag_name ` set agents"
  unfolding session_owner_def Let_def
  by (auto simp del: List.map_filter_simps split: list.splits dest!: map_filter_head dest: agent_of_registered)

lemma target_cases:
  assumes "extractAgentTarget agents ev = Target n r"
  shows "ev_type ev = ''AgentSessionEvent'' \<and> session_owner agents ev = Some n \<or>
    ev_type ev \<noteq> ''AgentSessionEvent'' \<and> named_target agents ev = Some (n, r) \<and>
    (isStateTransition agents ev \<or> actor_agent agents ev \<noteq> Some n)"
  using assms by (auto simp: extractAgentTarget_def Let_def split: if_splits option.splits)

lemma no_target_actor:
  "extractAgentTarget agents ev = NoTarget \<Longrightarrow> actor_agent agents ev = None \<or> isStateTransition agents ev"
  by (auto simp: extractAgentTarget_def actor_agent_def agent_of_def Let_def split: if_splits option.splits)

lemma additional_targets:
  "distinct (extractAdditionalMentionTargets agents ev p)"
  "m \<in> set (extractAdditionalMentionTargets agents ev p) \<Longrightarrow> m \<in> ag_name ` set agents \<and> actor_agent agents ev \<noteq> Some m"
proof -
  show "distinct (extractAdditionalMentionTargets agents ev p)" by (simp add: extractAdditionalMentionTargets_def Let_def)
  assume m: "m \<in> set (extractAdditionalMentionTargets agents ev p)"
  then have "m \<in> set (List.map_filter (agent_of agents) (mentioned_users ev)) \<or>
      (\<exists>body k. k \<in> set (detectAllMentionsInBody body (buildNameMap agents)) \<and> m = the (map_get (buildNameMap agents) k))"
    by (auto simp: extractAdditionalMentionTargets_def Let_def split: if_splits yaml.splits)
  moreover have "actor_agent agents ev \<noteq> Some m"
    using m by (auto simp: extractAdditionalMentionTargets_def Let_def split: if_splits)
  ultimately show "m \<in> ag_name ` set agents \<and> actor_agent agents ev \<noteq> Some m"
    using mentions_registered agent_of_registered by (fastforce simp: List.map_filter_def)
qed

lemma primary_not_repeated:
  "p \<noteq> [] \<Longrightarrow> p \<notin> set (extractAdditionalMentionTargets agents ev (Some p))"
  by (auto simp: extractAdditionalMentionTargets_def Let_def truthy_def)

lemma named_nonempty: "named_target agents ev = Some (n, r) \<Longrightarrow> n \<noteq> []"
proof -
  have a: "agent_of agents i = Some m \<Longrightarrow> m \<noteq> []" for i m by (auto simp: agent_of_def split: option.splits if_splits)
  have b: "detectAllMentionsInBody body names = k # ks \<Longrightarrow> the (map_get names k) \<noteq> []" for body names k ks
  proof -
    assume d: "detectAllMentionsInBody body names = k # ks"
    then have "k \<in> set (detectAllMentionsInBody body names)" by simp
    then show ?thesis by (auto simp: detectAllMentionsInBody_def truthy_def split: option.splits)
  qed
  show "named_target agents ev = Some (n, r) \<Longrightarrow> n \<noteq> []"
    unfolding named_target_def
    by (auto split: option.splits list.splits yaml.splits if_splits dest: a b dest!: map_filter_head)
qed

lemma target_facts:
  assumes "extractAgentTarget agents ev = Target n r"
  shows "n \<in> ag_name ` set agents"
    "ev_type ev = ''AgentSessionEvent'' \<or> n \<noteq> [] \<and> (isStateTransition agents ev \<or> actor_agent agents ev \<noteq> Some n)"
  using target_cases [OF assms] named_registered named_nonempty session_registered by blast+


text \<open>
  An update of an issue whose delegate is registered and which says what it changed wakes someone only if it changed
  the delegate, to one that is there, or is a transition of the ticket's state.
\<close>

theorem an_unchanged_delegate_wakes_nobody:
  assumes "issue_update ev" and "ev_updatedFrom ev \<noteq> None" and "agent_of agents (extractId (ev_field ev ''delegate'')) \<noteq> None"
    and "route_targets agents roster ev \<noteq> []"
  shows "touched ev [''delegateId'', ''delegate''] \<or> isStateTransition agents ev"
  using assms by (auto simp: route_targets_def extractAgentTarget_def issue_update_def no_agents split: if_splits)

lemma cleared_delegate_wakes_nobody:
  assumes "buildAgentMap agents \<noteq> []" "issue_update ev" "touched ev [''delegateId'', ''delegate'']"
    "extractId (ev_field ev ''delegate'') = None" "extractId (ev_field ev ''delegateId'') = None"
  shows "route_targets agents roster ev = []"
  using assms by (auto simp: route_targets_def extractAgentTarget_def issue_update_def truthy_def)

subsection \<open>Examples\<close>

definition two_agents :: "RouterAgent list" where
  "two_agents = [\<lparr>ag_name = ''hanzo'', ag_linearUserId = ''u1'', ra_openclawAgent = Some ''deployer''\<rparr>,
     \<lparr>ag_name = ''igor'', ag_linearUserId = ''u2'', ra_openclawAgent = None\<rparr>]"

definition routed_comment :: "string \<Rightarrow> LinearEvent" where
  "routed_comment body = \<lparr>ev_type = ''Comment'', ev_action = ''create'', ev_actorId = Some ''u9'', ev_updatedFrom = None,
     ev_data = Mapping [(''body'', Str body), (''delegate'', Mapping [(''id'', Str ''u1'')]),
       (''issue'', Mapping [(''identifier'', Str ''AI-1'')])]\<rparr>"

definition handover_event :: LinearEvent where
  "handover_event = \<lparr>ev_type = ''Issue'', ev_action = ''update'', ev_actorId = Some ''u2'', ev_updatedFrom = Some [''delegateId''],
     ev_data = Mapping [(''identifier'', Str ''AI-1''), (''delegate'', Mapping [(''id'', Str ''u1'')])]\<rparr>"


theorem an_unchanged_delegate_wakes_nobody_witness: "touched handover_event [''delegateId'', ''delegate''] \<or> isStateTransition two_agents handover_event"
proof -
  have h: "issue_update handover_event" by code_simp
  have u: "ev_updatedFrom handover_event \<noteq> None" by code_simp
  have d: "agent_of two_agents (extractId (ev_field handover_event ''delegate'')) \<noteq> None" by code_simp
  have r: "route_targets two_agents None handover_event \<noteq> []" by code_simp
  show ?thesis by (rule an_unchanged_delegate_wakes_nobody [OF h u d r])
qed

text \<open>
  A notice of the connector is not searched for a first target, but its names are searched for further
  ones: on a ticket with a delegate the agents it names are woken.
\<close>

lemma connector_notice_wakes_the_named:
  "route_targets two_agents None (routed_comment ''[Connector] @igor is not legal'') = [(''hanzo'', ByDelegate), (''igor'', ByMention)]"
  by code_simp

lemma handover_route:
  "routeEventAll two_agents None 0 handover_event =
   Inr [\<lparr>ro_agentId = ''deployer'', ro_sessionKey = ''linear-AI-1'', ro_routingReason = ByDelegate\<rparr>]"
  by code_simp

end
