(* ===== verification/Spec2Isabelle.thy ===== *)
theory Spec2Isabelle
  imports ReconciliationWake DispatchInFlight DispatchIdempotency SpawnIdempotency HoldRetry
    ReliabilityController SessionTracker CircuitBreaker AckTracker PendingBag AgentQueue
    CapabilityPolicy WorkflowDef RoutineVerbs LinearActionable Barrier StallDetection ConfigHealth
    DeployProbe DeployPolicy AppliedState JsRegex GateBase WorkflowGate TicketWrite AcGate
    FanoutSpec SpawnPreview FanoutRun DelegateChoice TicketRecords TransitionBase TransitionTarget
    TransitionGates StateTransition TransitionLaws EnrolledTickets Enrollment SetState DelegateWrite
    RoutingGuard PingPong CreateDedup CasCheck AlertBus RawMutation StateMigration Router
begin

text \<open>
  Verification of the Linear connector: a service between the ticket system Linear and a fleet of
  agents. It judges every command an agent gives on a governed ticket, writes the ticket, fans work
  out into child tickets and holds parents until the children are done, and it decides, for each
  event, which agent is woken for which ticket, once and not again. All paths are under \<open>src/src/\<close>.

  \<^bold>\<open>The parts and their theories.\<close>

  Foundations. \<open>Prelude\<close> (strings, \<open>parseInt\<close>, comparisons with NaN as \<open>None\<close>), \<open>JsString\<close> and \<open>JsMap\<close>
  (string and Map built-ins), \<open>JsRegex\<close> (regular expressions used as tests, with an exact matcher),
  \<open>Yaml\<close> (parsed values), \<open>IsoTime\<close> (\<open>toISOString\<close> and its inverse), \<open>SqlTable\<close> and \<open>SqlTime\<close> (the
  statements of the sqlite stores on lists of rows), and the contracts \<open>LeaseInterface\<close>,
  \<open>CounterInterface\<close> and \<open>QueueInterface\<close>: locales with the laws a provider promises and the facts
  clients prove from them, each interpreted on the code's own model in the provider's theory.

  Governance. \<open>WorkflowDef\<close> is the parsed workflow definition and its load-time checks
  (\<open>workflow-gate.ts\<close>, \<open>validate...\<close>); \<open>RoutineVerbs\<close> resolves the routine commands on it
  (\<open>buildStateRank\<close>, \<open>resolveRoutineEdge\<close>, \<open>resolveMetaIntent\<close>, \<open>legalMovesFor\<close>); \<open>CapabilityPolicy\<close> is
  \<open>escalation-gate.ts\<close>. \<open>GateBase\<close> and \<open>WorkflowGate\<close> are \<open>checkWorkflowRules\<close>: the guards in the order
  of the code, one definition per guard, composed as the early returns compose them. \<open>TicketWrite\<close> is
  the write of a ticket: labels kept, label resolution, the atomic mutation, its read-back, retries,
  rollback and the applied-state record. \<open>DelegateChoice\<close> decides who holds a ticket next, before a request
  is forwarded (\<open>resolveTransitionDelegate\<close>) and when it is applied; \<open>TicketRecords\<close> are the stores of seats,
  bound artifacts and criteria of record (\<open>implementer-store.ts\<close>, \<open>artifact-store.ts\<close>, \<open>ac-record-store.ts\<close>).
  \<open>applyStateTransition\<close> is \<open>TransitionBase\<close> (its types: the answers of the services as one record, the
  effects in order), \<open>TransitionTarget\<close> (whether the ticket is governed and where the intent leads),
  \<open>TransitionGates\<close> (what must hold before the write), \<open>StateTransition\<close> (the write and everything after
  it, and the whole function) and \<open>TransitionLaws\<close> (what is proved of it). \<open>AppliedState\<close> is \<open>store/applied-state-store.ts\<close>, \<open>AcGate\<close>
  \<open>review.ts\<close>, \<open>ConfigHealth\<close>, \<open>DeployProbe\<close> and \<open>DeployPolicy\<close> the files of these names.

  Fan-out. \<open>FanoutSpec\<close> is the specification part of \<open>fanout.ts\<close>: entries, markers, ids, checks, dedupe,
  read-back of children; \<open>SpawnPreview\<close> is \<open>spawn-preview.ts\<close>, and \<open>FanoutRun\<close> the run of a fan-out
  (\<open>executeFanout\<close>) with the verdict the barrier gets; \<open>Barrier\<close> and \<open>StallDetection\<close> are \<open>barrier.ts\<close> and \<open>fanout-outcome-store.ts\<close>.

  Dispatch. \<open>DispatchLease\<close>, \<open>DispatchInFlight\<close>, \<open>DispatchIdempotency\<close> and \<open>SpawnIdempotency\<close> are the
  stores under \<open>store/\<close> that admit a dispatch once; \<open>ReconciliationWake\<close>, \<open>RedispatchBudget\<close>,
  \<open>HoldRetry\<close>, \<open>SessionTracker\<close>, \<open>AckTracker\<close> and \<open>PendingBag\<close> are the files of \<open>bag/\<close>; \<open>SessionKey\<close>,
  \<open>ReliabilityController\<close>, \<open>CircuitBreaker\<close>, \<open>AgentQueue\<close> and \<open>LinearActionable\<close> are \<open>session-key.ts\<close>,
  \<open>dispatch-reliability-controller.ts\<close>, \<open>dispatch-circuit-breaker.ts\<close>, \<open>queue/agent-queue.ts\<close> and
  \<open>linear-actionable.ts\<close>.

  Around the gate. \<open>Enrollment\<close> and \<open>SetState\<close> are the writes of \<open>workflow-gate.ts\<close> that no workflow
  command starts: \<open>enrollIfMissing\<close>, \<open>autoEnrollByTeam\<close> and the steward's \<open>setStateAtomic\<close>;
  \<open>EnrolledTickets\<close> is the mirror they keep (\<open>store/enrolled-tickets-store.ts\<close>). \<open>RawMutation\<close> is
  \<open>checkRawMutationInterception\<close>, what an agent may write past the commands. \<open>StateMigration\<close> is
  \<open>def-state-migration.ts\<close>, the sweep that moves tickets out of states a new definition drops.

  Around the dispatch. \<open>Router\<close> is \<open>router.ts\<close> with \<open>department-roster.ts\<close>: whom an event wakes.
  \<open>RoutingGuard\<close> is \<open>routing-guard.ts\<close> (may this agent be woken in this state, and if not who holds the
  ticket), on \<open>DelegateWrite\<close> (\<open>delegate-write.ts\<close>, the one write of a delegate). \<open>PingPong\<close>,
  \<open>CreateDedup\<close>, \<open>CasCheck\<close> and \<open>AlertBus\<close> are \<open>delegate-ping-pong-detector.ts\<close>,
  \<open>issue-create-dedup.ts\<close> with its use in \<open>proxy.ts\<close>, \<open>proxy-cas-check.ts\<close> and \<open>alerts/\<close>.

  \<^bold>\<open>How the code is read.\<close> An object with state is a record, passed and returned; a table is the list of
  its rows in insertion order, which fixes the order SQL leaves open. A number that is a time is \<open>nat\<close>
  or \<open>int\<close> milliseconds since 1970, NaN is \<open>None\<close>. Strings are lists of 8-bit characters. A thrown
  error, an early return and a refusal are constructors; log lines are left out, comments and alerts
  that are sent are values. What another service answers (Linear, GitHub, the file system) is a record
  of answers, one field per question, given to the operation; what is sent to it is returned in
  order. \<open>undefined\<close> and \<open>null\<close> are both \<open>None\<close> where the code does not tell them apart, and nested
  options where it does.

  \<^bold>\<open>What is proved.\<close> For the gate: who may pass and with which evidence, failing closed, and that the
  later mutations of one command are judged as the first. For the write: an accepted write is on the
  ticket, when it is rolled back, and what the applied-state store then says. For the transition and
  for set-state: one mutation for labels, holder and native state, and nothing written by a refusal.
  For the holder: every one is entitled, and the routing guard evicts no legal one. For fan-out: a
  checked specification spawns only into live workflows, spawning is incremental, minted children are
  recognised, parents leave only when their children are done. For enrollment: the mirror is a
  function of its history, reconciliation converges, a demoted ticket stays out, migration touches
  only stranded tickets. For dispatch: at most one admission per window in every interleaving, no
  event wakes its actor, identical creations are sent once, refinement of abstract leases, queues
  and state machines, bounds on wakes, retries and alerts, nothing lost and nothing invented.

  \<^bold>\<open>Termination and bounds.\<close> No definition uses fuel. The loops that are not structural (the rank work
  list, regular repetition, the check boxes, the fenced block) end by a measure: the states not yet
  ranked, the positions left, the text left. Retries are structural in the number of attempts, which
  is an argument where the policy is configurable. The hash of an entry is a 32-bit word and wraps.

  \<^bold>\<open>Not modelled.\<close> HTTP handlers, message texts, timers and their wiring, the cron schedules, the
  reports and the console: their substance is I/O. The periodic sweeps over the ticket service and
  the payload schemas of the webhook. Concurrency is modelled where the code takes care of it
  (the admission stores, the claims of \<open>CreateDedup\<close>); elsewhere an operation is one step. A search
  \<open>findOrCreateLabel\<close> makes through the other teams only logs. The pauses between attempts are left
  out.
\<close>

end
